(* ===== verification/Prelude.thy ===== *)
theory Prelude
  imports Main "HOL-Library.Monad_Syntax" "HOL-Library.Char_ord" "HOL-Library.List_Lexorder"
    "HOL-Library.Sublist"
begin

text \<open>
  Generic vocabulary of the development: the two error monads the components use
  (\<open>option\<close> where the code raises one content-free exception, \<open>'e + 'a\<close> where it
  raises several), traversal of lists in both, and the Python string primitives the code
  calls (\<open>str.strip\<close>, \<open>startswith\<close>, \<open>removeprefix\<close>, \<open>int(text, 16)\<close>, the
  character classes of its regular expressions, UTF-8 length).

  A Python \<open>str\<close> is a list of characters below code point 256 (\<open>char\<close> is one code
  point here, not one byte), ordered lexicographically by code point as Python orders it.
\<close>

named_theorems kernel_defs \<open>definitions unfolded together by the component proofs\<close>

section \<open>Content-free failure: option\<close>

definition ensure :: "bool \<Rightarrow> unit option" where
  "ensure b = (if b then Some () else None)"

lemma ensure_simps [simp]:
  "ensure True = Some ()" "ensure False = None"
  "ensure b = Some u \<longleftrightarrow> b" "ensure b = None \<longleftrightarrow> \<not> b"
  by (auto simp: ensure_def)

lemma bind_ensure [simp]:
  "Option.bind (ensure b) f = (if b then f () else None)"
  by (simp add: ensure_def)

lemma bind_SomeE:
  assumes "Option.bind m f = Some y"
  obtains x where "m = Some x" "f x = Some y"
  using assms by (cases m) auto

lemma option_bind_cong [fundef_cong]:
  assumes "m = m'" and "\<And>x. m' = Some x \<Longrightarrow> f x = g x"
  shows "Option.bind m f = Option.bind m' g"
  using assms by (cases m') auto

fun traverse :: "('a \<Rightarrow> 'b option) \<Rightarrow> 'a list \<Rightarrow> 'b list option" where
  "traverse f [] = Some []"
| "traverse f (x # xs) = do { y \<leftarrow> f x; ys \<leftarrow> traverse f xs; Some (y # ys) }"

lemma traverse_cong [fundef_cong]:
  assumes "xs = ys" and "\<And>x. x \<in> set ys \<Longrightarrow> f x = g x"
  shows "traverse f xs = traverse g ys"
  using assms(2) unfolding assms(1) by (induction ys) auto

lemma traverse_Some_iff:
  "traverse f xs = Some ys \<longleftrightarrow> list_all2 (\<lambda>x y. f x = Some y) xs ys"
proof (induction xs arbitrary: ys)
  case Nil
  then show ?case by (cases ys) auto
next
  case (Cons x xs)
  then show ?case by (cases ys) (auto simp: bind_eq_Some_conv)
qed

lemma traverse_map [simp]:
  assumes "\<And>x. x \<in> set xs \<Longrightarrow> f (g x) = Some x"
  shows "traverse f (map g xs) = Some xs"
  using assms by (induction xs) auto

section \<open>Classified failure: sums\<close>

definition ebind :: "'e + 'a \<Rightarrow> ('a \<Rightarrow> 'e + 'b) \<Rightarrow> 'e + 'b" where
  "ebind m f = (case m of Inl e \<Rightarrow> Inl e | Inr x \<Rightarrow> f x)"

lemma ebind_simps [simp]:
  "ebind (Inl e) f = Inl e" "ebind (Inr x) f = f x"
  by (simp_all add: ebind_def)

lemma ebind_eq_Inr: "ebind m f = Inr y \<longleftrightarrow> (\<exists>x. m = Inr x \<and> f x = Inr y)"
  by (cases m) auto

lemma ebind_eq_Inl: "ebind m f = Inl e \<longleftrightarrow> m = Inl e \<or> (\<exists>x. m = Inr x \<and> f x = Inl e)"
  by (cases m) auto

lemma ebind_InrE:
  assumes "ebind m f = Inr y"
  obtains x where "m = Inr x" "f x = Inr y"
  using assms by (cases m) auto

lemma ebind_cong [fundef_cong]:
  assumes "m = m'" and "\<And>x. m' = Inr x \<Longrightarrow> f x = g x"
  shows "ebind m f = ebind m' g"
  using assms by (cases m') auto

definition check :: "'e \<Rightarrow> bool \<Rightarrow> 'e + unit" where
  "check e b = (if b then Inr () else Inl e)"

lemma check_simps [simp]:
  "check e True = Inr ()" "check e False = Inl e"
  "check e b = Inr u \<longleftrightarrow> b" "check e b = Inl e' \<longleftrightarrow> \<not> b \<and> e' = e"
  by (auto simp: check_def)

lemma ebind_check [simp]:
  "ebind (check e b) f = (if b then f () else Inl e)"
  by (simp add: check_def)

fun etraverse :: "('a \<Rightarrow> 'e + 'b) \<Rightarrow> 'a list \<Rightarrow> 'e + 'b list" where
  "etraverse f [] = Inr []"
| "etraverse f (x # xs) = ebind (f x) (\<lambda>y. ebind (etraverse f xs) (\<lambda>ys. Inr (y # ys)))"

lemma etraverse_cong [fundef_cong]:
  assumes "xs = ys" and "\<And>x. x \<in> set ys \<Longrightarrow> f x = g x"
  shows "etraverse f xs = etraverse g ys"
  using assms(2) unfolding assms(1) by (induction ys) auto

lemma etraverse_Inr_iff:
  "etraverse f xs = Inr ys \<longleftrightarrow> list_all2 (\<lambda>x y. f x = Inr y) xs ys"
proof (induction xs arbitrary: ys)
  case Nil
  then show ?case by (cases ys) auto
next
  case (Cons x xs)
  then show ?case by (cases ys) (auto simp: ebind_eq_Inr)
qed

lemma etraverse_map [simp]:
  assumes "\<And>x. x \<in> set xs \<Longrightarrow> f (g x) = Inr x"
  shows "etraverse f (map g xs) = Inr xs"
  using assms by (induction xs) auto

fun efold :: "('s \<Rightarrow> 'a \<Rightarrow> 'e + 's) \<Rightarrow> 's \<Rightarrow> 'a list \<Rightarrow> 'e + 's" where
  "efold f s [] = Inr s"
| "efold f s (x # xs) = ebind (f s x) (\<lambda>s'. efold f s' xs)"

lemma ebind_assoc: "ebind (ebind m f) g = ebind m (\<lambda>x. ebind (f x) g)"
  by (cases m) auto

lemma efold_append: "efold f s (xs @ ys) = ebind (efold f s xs) (\<lambda>s'. efold f s' ys)"
  by (induction xs arbitrary: s) (auto simp: ebind_assoc)

definition efail_on_None :: "'e \<Rightarrow> 'a option \<Rightarrow> 'e + 'a" where
  "efail_on_None e m = (case m of None \<Rightarrow> Inl e | Some x \<Rightarrow> Inr x)"

lemma efail_on_None_simps [simp]:
  "efail_on_None e None = Inl e" "efail_on_None e (Some x) = Inr x"
  by (simp_all add: efail_on_None_def)

lemma efail_on_None_eq_Inr: "efail_on_None e m = Inr x \<longleftrightarrow> m = Some x"
  by (cases m) auto

section \<open>Python strings\<close>

definition code :: "char \<Rightarrow> nat" where
  "code c = of_char c"

lemma code_less_256: "code c < 256"
  unfolding code_def by (cases c) (simp add: of_char_Char horner_sum_simps)

definition py_space :: "char \<Rightarrow> bool" where
  "py_space c = (let n = code c in
     9 \<le> n \<and> n \<le> 13 \<or> 28 \<le> n \<and> n \<le> 32 \<or> n = 133 \<or> n = 160)"

definition py_strip :: "string \<Rightarrow> string" where
  "py_strip s = rev (dropWhile py_space (rev (dropWhile py_space s)))"

definition is_digit :: "char \<Rightarrow> bool" where
  "is_digit c = (48 \<le> code c \<and> code c \<le> 57)"

definition is_upper :: "char \<Rightarrow> bool" where
  "is_upper c = (65 \<le> code c \<and> code c \<le> 90)"

definition is_lower :: "char \<Rightarrow> bool" where
  "is_lower c = (97 \<le> code c \<and> code c \<le> 122)"

definition is_alnum :: "char \<Rightarrow> bool" where
  "is_alnum c = (is_digit c \<or> is_upper c \<or> is_lower c)"

definition is_lower_hex :: "char \<Rightarrow> bool" where
  "is_lower_hex c = (is_digit c \<or> 97 \<le> code c \<and> code c \<le> 102)"

definition is_hex :: "char \<Rightarrow> bool" where
  "is_hex c = (is_lower_hex c \<or> 65 \<le> code c \<and> code c \<le> 70)"

definition startswith :: "string \<Rightarrow> string \<Rightarrow> bool" where
  "startswith s p = (take (length p) s = p)"

definition removeprefix :: "string \<Rightarrow> string \<Rightarrow> string" where
  "removeprefix s p = (if startswith s p then drop (length p) s else s)"

lemma startswith_append [simp]: "startswith (p @ s) p"
  by (simp add: startswith_def)

lemma removeprefix_append [simp]: "removeprefix (p @ s) p = s"
  by (simp add: removeprefix_def)

lemma startswith_iff: "startswith s p \<longleftrightarrow> (\<exists>r. s = p @ r)"
  by (metis append_take_drop_id append_eq_conv_conj startswith_def)

definition contains_char :: "char \<Rightarrow> string \<Rightarrow> bool" where
  "contains_char c s = (c \<in> set s)"

definition utf8_length :: "string \<Rightarrow> nat" where
  "utf8_length s = sum_list (map (\<lambda>c. if code c < 128 then 1 else 2) s)"

fun join :: "string \<Rightarrow> string list \<Rightarrow> string" where
  "join sep [] = []"
| "join sep [x] = x"
| "join sep (x # y # ys) = x @ sep @ join sep (y # ys)"

text \<open>The shape all identifier expressions of the code share: one leading character of one
  class, then at most \<open>n\<close> characters of another.\<close>

definition re_ident :: "(char \<Rightarrow> bool) \<Rightarrow> (char \<Rightarrow> bool) \<Rightarrow> nat \<Rightarrow> string \<Rightarrow> bool" where
  "re_ident first rest n s =
     (case s of [] \<Rightarrow> False | c # cs \<Rightarrow> first c \<and> length cs \<le> n \<and> list_all rest cs)"

lemma re_ident_nonempty: "re_ident f r n s \<Longrightarrow> s \<noteq> []"
  by (auto simp: re_ident_def split: list.splits)

lemma re_ident_length: "re_ident f r n s \<Longrightarrow> length s \<le> Suc n"
  by (auto simp: re_ident_def split: list.splits)

text \<open>\<open>[0-9a-f]{n}\<close> and \<open>sha256:[0-9a-f]{64}\<close>.\<close>

definition re_hex :: "nat \<Rightarrow> string \<Rightarrow> bool" where
  "re_hex n s = (length s = n \<and> list_all is_lower_hex s)"

definition re_digest :: "string \<Rightarrow> bool" where
  "re_digest s = (startswith s ''sha256:'' \<and> re_hex 64 (drop 7 s))"

lemma re_digest_length: "re_digest s \<Longrightarrow> length s = 71"
  by (auto simp: re_digest_def startswith_iff re_hex_def)

text \<open>
  \<open>int(text, 16)\<close> accepts surrounding white space, one sign, an optional \<open>0x\<close> prefix and
  single underscores between digits; \<open>py_int16_ok\<close> is the set of texts it accepts.
\<close>

fun hex_digits_ok :: "string \<Rightarrow> bool" where
  "hex_digits_ok [] = False"
| "hex_digits_ok [c] = is_hex c"
| "hex_digits_ok (c # d # cs) =
     (is_hex c \<and> (if d = CHR ''_'' then hex_digits_ok cs else hex_digits_ok (d # cs)))"

definition strip_sign :: "string \<Rightarrow> string" where
  "strip_sign s = (case s of [] \<Rightarrow> [] | c # cs \<Rightarrow> if c = CHR ''+'' \<or> c = CHR ''-'' then cs else s)"

definition py_int16_ok :: "string \<Rightarrow> bool" where
  "py_int16_ok s =
     (let t = strip_sign (py_strip s) in
      if startswith t ''0x'' \<or> startswith t ''0X''
      then (let u = drop 2 t in
            hex_digits_ok (if startswith u ''_'' then drop 1 u else u))
      else hex_digits_ok t)"

lemma is_lower_hex_is_hex: "is_lower_hex c \<Longrightarrow> is_hex c"
  by (simp add: is_hex_def)

lemma is_hex_not_underscore: "is_hex c \<Longrightarrow> c \<noteq> CHR ''_''"
  by (auto simp: is_hex_def is_lower_hex_def is_digit_def code_def)

lemma hex_digits_ok_all: "s \<noteq> [] \<Longrightarrow> list_all is_hex s \<Longrightarrow> hex_digits_ok s"
  by (induction s rule: hex_digits_ok.induct) (auto dest: is_hex_not_underscore)

lemma is_hex_not_special:
  assumes "is_hex c"
  shows "\<not> py_space c \<and> c \<noteq> CHR ''+'' \<and> c \<noteq> CHR ''-'' \<and> c \<noteq> CHR ''x'' \<and> c \<noteq> CHR ''X''"
  using assms
  by (auto simp: is_hex_def is_lower_hex_def is_digit_def code_def py_space_def Let_def)

lemma dropWhile_py_space_hex: "list_all is_hex s \<Longrightarrow> dropWhile py_space s = s"
  by (cases s) (auto dest: is_hex_not_special)

lemma py_int16_ok_hex:
  assumes "s \<noteq> []" and "list_all is_hex s"
  shows "py_int16_ok s"
proof -
  have "list_all is_hex (rev s)" using assms(2) by (simp add: list_all_iff)
  then have strip: "py_strip s = s"
    using assms(2) by (simp add: py_strip_def dropWhile_py_space_hex)
  have sign: "strip_sign s = s"
    using assms by (auto simp: strip_sign_def dest: is_hex_not_special split: list.splits)
  have "\<not> startswith s ''0x'' \<and> \<not> startswith s ''0X''"
    using assms(2) by (auto simp: startswith_iff dest: is_hex_not_special)
  then show ?thesis
    using assms by (simp add: py_int16_ok_def strip sign hex_digits_ok_all)
qed

section \<open>Lists and finite maps\<close>

text \<open>\<open>tuple(sorted(set(xs)))\<close>.\<close>

definition sorted_set :: "'a::linorder list \<Rightarrow> 'a list" where
  "sorted_set xs = sort (remdups xs)"

lemma sorted_set_props [simp]:
  "set (sorted_set xs) = set xs" "sorted (sorted_set xs)" "distinct (sorted_set xs)"
  by (auto simp: sorted_set_def)

lemma sorted_set_idem [simp]: "sorted xs \<Longrightarrow> distinct xs \<Longrightarrow> sorted_set xs = xs"
  by (simp add: sorted_set_def distinct_remdups_id sort_key_id_if_sorted)

lemma sorted_set_cong: "set xs = set ys \<Longrightarrow> sorted_set xs = sorted_set ys"
  by (rule sorted_distinct_set_unique) auto

definition distinct_by :: "('a \<Rightarrow> 'b) \<Rightarrow> 'a list \<Rightarrow> bool" where
  "distinct_by f xs = distinct (map f xs)"

lemma map_of_eq_Some_distinct:
  assumes "distinct (map fst al)" and "(k, v) \<in> set al"
  shows "map_of al k = Some v"
  using assms by simp

end
