(* ===== verification/Sha256.thy ===== *)
theory Sha256
  imports Prelude "HOL-Library.Word"
begin

unbundle bit_operations_syntax

text \<open>
  \<open>hashlib.sha256(data).hexdigest()\<close>, the one hash function the code uses: FIPS 180-4 over
  32-bit words, on a byte string given as a list of characters. The development only needs
  that its result is a text of 64 lower-case hexadecimal digits; the function itself is
  written out so that no digest in the model is a free parameter.
\<close>

type_synonym u32 = "32 word"

definition sha_round_constants :: "u32 list" where
  "sha_round_constants =
    [1116352408, 1899447441, 3049323471, 3921009573, 961987163, 1508970993, 2453635748,
     2870763221, 3624381080, 310598401, 607225278, 1426881987, 1925078388, 2162078206,
     2614888103, 3248222580, 3835390401, 4022224774, 264347078, 604807628, 770255983,
     1249150122, 1555081692, 1996064986, 2554220882, 2821834349, 2952996808, 3210313671,
     3336571891, 3584528711, 113926993, 338241895, 666307205, 773529912, 1294757372,
     1396182291, 1695183700, 1986661051, 2177026350, 2456956037, 2730485921, 2820302411,
     3259730800, 3345764771, 3516065817, 3600352804, 4094571909, 275423344, 430227734,
     506948616, 659060556, 883997877, 958139571, 1322822218, 1537002063, 1747873779,
     1955562222, 2024104815, 2227730452, 2361852424, 2428436474, 2756734187, 3204031479,
     3329325298]"

definition sha_initial_state :: "u32 list" where
  "sha_initial_state =
    [1779033703, 3144134277, 1013904242, 2773480762, 1359893119, 2600822924, 528734635,
     1541459225]"

definition rotr :: "nat \<Rightarrow> u32 \<Rightarrow> u32" where
  "rotr n w = (drop_bit n w OR push_bit (32 - n) w)"

definition small_sigma0 :: "u32 \<Rightarrow> u32" where
  "small_sigma0 w = (rotr 7 w XOR rotr 18 w XOR drop_bit 3 w)"

definition small_sigma1 :: "u32 \<Rightarrow> u32" where
  "small_sigma1 w = (rotr 17 w XOR rotr 19 w XOR drop_bit 10 w)"

definition big_sigma0 :: "u32 \<Rightarrow> u32" where
  "big_sigma0 w = (rotr 2 w XOR rotr 13 w XOR rotr 22 w)"

definition big_sigma1 :: "u32 \<Rightarrow> u32" where
  "big_sigma1 w = (rotr 6 w XOR rotr 11 w XOR rotr 25 w)"

text \<open>The message schedule keeps the last sixteen words, oldest first.\<close>

fun sha_schedule :: "nat \<Rightarrow> u32 list \<Rightarrow> u32 list" where
  "sha_schedule 0 ws = ws"
| "sha_schedule (Suc n) ws =
     (let l = length ws;
          w = small_sigma1 (ws ! (l - 2)) + ws ! (l - 7)
              + small_sigma0 (ws ! (l - 15)) + ws ! (l - 16)
      in sha_schedule n (ws @ [w]))"

fun sha_rounds :: "(u32 \<times> u32) list \<Rightarrow> u32 \<times> u32 \<times> u32 \<times> u32 \<times> u32 \<times> u32 \<times> u32 \<times> u32
    \<Rightarrow> u32 \<times> u32 \<times> u32 \<times> u32 \<times> u32 \<times> u32 \<times> u32 \<times> u32" where
  "sha_rounds [] st = st"
| "sha_rounds ((k, w) # kws) (a, b, c, d, e, f, g, h) =
     (let t1 = h + big_sigma1 e + ((e AND f) XOR (NOT e AND g)) + k + w;
          t2 = big_sigma0 a + ((a AND b) XOR (a AND c) XOR (b AND c))
      in sha_rounds kws (t1 + t2, a, b, c, d + t1, e, f, g))"

definition sha_block :: "u32 list \<Rightarrow> u32 list \<Rightarrow> u32 list" where
  "sha_block hs ws =
     (let (a, b, c, d, e, f, g, h) =
        sha_rounds (zip sha_round_constants (sha_schedule 48 ws))
          (hs ! 0, hs ! 1, hs ! 2, hs ! 3, hs ! 4, hs ! 5, hs ! 6, hs ! 7)
      in map2 (+) hs [a, b, c, d, e, f, g, h])"

definition word_of_bytes :: "nat list \<Rightarrow> u32" where
  "word_of_bytes bs = word_of_nat (foldl (\<lambda>acc b. acc * 256 + b) 0 bs)"

fun chunks :: "nat \<Rightarrow> nat \<Rightarrow> 'a list \<Rightarrow> 'a list list" where
  "chunks 0 k xs = []"
| "chunks (Suc n) k xs = take k xs # chunks n k (drop k xs)"

definition sha_pad :: "nat list \<Rightarrow> nat list" where
  "sha_pad bs =
     (let bits = 8 * length bs;
          zeros = (119 - length bs mod 64) mod 64
      in bs @ [128] @ replicate zeros 0
         @ map (\<lambda>i. bits div 256 ^ i mod 256) [7, 6, 5, 4, 3, 2, 1, 0])"

definition sha_words :: "nat list \<Rightarrow> u32 list list" where
  "sha_words bs =
     (let padded = sha_pad bs
      in map (\<lambda>block. map word_of_bytes (chunks 16 4 block))
           (chunks (length padded div 64) 64 padded))"

definition hex_digit :: "nat \<Rightarrow> char" where
  "hex_digit n = (if n < 10 then char_of (48 + n) else char_of (87 + n))"

definition hex_word :: "u32 \<Rightarrow> string" where
  "hex_word w = map (\<lambda>i. hex_digit (unat w div 16 ^ i mod 16)) [7, 6, 5, 4, 3, 2, 1, 0]"

definition sha256_hex :: "string \<Rightarrow> string" where
  "sha256_hex bytes =
     concat (map hex_word
       (take 8 (foldl sha_block sha_initial_state (sha_words (map code bytes)))))"

section \<open>Shape of the result\<close>

lemma length_sha_block: "length hs = 8 \<Longrightarrow> length (sha_block hs ws) = 8"
  by (simp add: sha_block_def Let_def split: prod.splits)

lemma length_sha_fold:
  "length hs = 8 \<Longrightarrow> length (foldl sha_block hs blocks) = 8"
  by (induction blocks arbitrary: hs) (auto simp: length_sha_block)

lemma hex_digit_lower_hex: "n < 16 \<Longrightarrow> is_lower_hex (hex_digit n)"
  by (auto simp: hex_digit_def is_lower_hex_def is_digit_def code_def)

lemma hex_word_props: "length (hex_word w) = 8 \<and> list_all is_lower_hex (hex_word w)"
  by (simp add: hex_word_def hex_digit_lower_hex)

lemma length_concat_hex_words: "length (concat (map hex_word ws)) = 8 * length ws"
  by (induction ws) (simp_all add: hex_word_props)

lemma length_sha256_hex [simp]: "length (sha256_hex s) = 64"
  by (simp add: sha256_hex_def length_concat_hex_words length_sha_fold sha_initial_state_def)

lemma sha256_hex_lower [simp]: "list_all is_lower_hex (sha256_hex s)"
  by (auto simp: sha256_hex_def list_all_iff hex_word_props[unfolded list_all_iff])

lemma re_hex_sha256 [simp]: "re_hex 64 (sha256_hex s)"
  by (simp add: re_hex_def)

end
