(* ===== verification/Json.thy ===== *)
theory Json
  imports Complex_Main Prelude Sha256
begin

text \<open>
  \<open>kernel/_json.py\<close>: freezing arbitrary Python values into the JSON data model, the canonical
  serialisation (sorted keys, compact separators, UTF-8) and the content digests over it.

  A finite Python float is given by the two things the code observes of it, its numeric value
  and its \<open>repr\<close> text; a dictionary is an association list in insertion order.
  Exception messages (the JSON path of the offending value) are dropped, the exception's
  cause is kept.
\<close>

datatype pyfloat = Finite rat string | Infinity bool | NotANumber

datatype pyval =
    PyNone
  | PyBool bool
  | PyInt int
  | PyFloat pyfloat
  | PyStr string
  | PyBytes string
  | PyList "pyval list"
  | PyTuple "pyval list"
  | PyDict "(pyval \<times> pyval) list"
  | PyOther string

datatype json =
    JNull
  | JBool bool
  | JInt int
  | JFloat rat string
  | JStr string
  | JArr "json list"
  | JObj "(string \<times> json) list"

datatype json_error = NonFiniteNumber | KeyNotString | UnsupportedValue

type_synonym jobject = "(string \<times> json) list"

section \<open>Freezing and thawing\<close>

fun freeze_json :: "pyval \<Rightarrow> json_error + json" where
  "freeze_json PyNone = Inr JNull"
| "freeze_json (PyBool b) = Inr (JBool b)"
| "freeze_json (PyInt i) = Inr (JInt i)"
| "freeze_json (PyStr s) = Inr (JStr s)"
| "freeze_json (PyFloat f) =
     (case f of Finite v r \<Rightarrow> Inr (JFloat v r) | _ \<Rightarrow> Inl NonFiniteNumber)"
| "freeze_json (PyDict kvs) =
     ebind (etraverse (\<lambda>kv. case fst kv of
                PyStr s \<Rightarrow> ebind (freeze_json (snd kv)) (\<lambda>w. Inr (s, w))
              | _ \<Rightarrow> Inl KeyNotString) kvs)
       (\<lambda>items. Inr (JObj items))"
| "freeze_json (PyList xs) = ebind (etraverse freeze_json xs) (\<lambda>ys. Inr (JArr ys))"
| "freeze_json (PyTuple xs) = ebind (etraverse freeze_json xs) (\<lambda>ys. Inr (JArr ys))"
| "freeze_json (PyBytes b) = Inl UnsupportedValue"
| "freeze_json (PyOther t) = Inl UnsupportedValue"

fun thaw_json :: "json \<Rightarrow> pyval" where
  "thaw_json JNull = PyNone"
| "thaw_json (JBool b) = PyBool b"
| "thaw_json (JInt i) = PyInt i"
| "thaw_json (JFloat v r) = PyFloat (Finite v r)"
| "thaw_json (JStr s) = PyStr s"
| "thaw_json (JArr xs) = PyList (map thaw_json xs)"
| "thaw_json (JObj kvs) = PyDict (map (\<lambda>kv. (PyStr (fst kv), thaw_json (snd kv))) kvs)"

section \<open>Canonical serialisation\<close>

fun nat_repr :: "nat \<Rightarrow> string" where
  "nat_repr n =
     (if n < 10 then [char_of (48 + n)] else nat_repr (n div 10) @ [char_of (48 + n mod 10)])"

declare nat_repr.simps [simp del]

definition int_repr :: "int \<Rightarrow> string" where
  "int_repr i = (if i < 0 then CHR ''-'' # nat_repr (nat (- i)) else nat_repr (nat i))"

text \<open>\<open>json.dumps\<close> with \<open>ensure_ascii=False\<close> escapes the quote, the backslash and the
  control characters below 32.\<close>

definition json_escape :: "char \<Rightarrow> string" where
  "json_escape c =
     (if c = CHR 0x22 then [CHR 0x5C, CHR 0x22]
      else if c = CHR 0x5C then [CHR 0x5C, CHR 0x5C]
      else if c = CHR 0x0A then [CHR 0x5C, CHR ''n'']
      else if c = CHR 0x0D then [CHR 0x5C, CHR ''r'']
      else if c = CHR 0x09 then [CHR 0x5C, CHR ''t'']
      else if c = CHR 0x0C then [CHR 0x5C, CHR ''f'']
      else if c = CHR 0x08 then [CHR 0x5C, CHR ''b'']
      else if code c < 32
      then [CHR 0x5C, CHR ''u'', CHR ''0'', CHR ''0'', hex_digit (code c div 16),
            hex_digit (code c mod 16)]
      else [c])"

definition json_quote :: "string \<Rightarrow> string" where
  "json_quote s = CHR 0x22 # concat (map json_escape s) @ [CHR 0x22]"

fun dumps :: "json \<Rightarrow> string" where
  "dumps JNull = ''null''"
| "dumps (JBool b) = (if b then ''true'' else ''false'')"
| "dumps (JInt i) = int_repr i"
| "dumps (JFloat v r) = r"
| "dumps (JStr s) = json_quote s"
| "dumps (JArr xs) = ''['' @ join '','' (map dumps xs) @ '']''"
| "dumps (JObj kvs) =
     ''{'' @ join '','' (map (\<lambda>kt. json_quote (fst kt) @ '':'' @ snd kt)
               (sort_key fst (map (\<lambda>kv. (fst kv, dumps (snd kv))) kvs))) @ ''}''"

definition utf8_char :: "char \<Rightarrow> string" where
  "utf8_char c = (if code c < 128 then [c]
     else [char_of (192 + code c div 64), char_of (128 + code c mod 64)])"

definition utf8_encode :: "string \<Rightarrow> string" where
  "utf8_encode s = concat (map utf8_char s)"

definition canonical_json_bytes :: "pyval \<Rightarrow> json_error + string" where
  "canonical_json_bytes value =
     ebind (freeze_json value) (\<lambda>frozen. Inr (utf8_encode (dumps frozen)))"

text \<open>The same bytes for a value that is already frozen: what every caller inside the kernel
  passes.\<close>

definition json_bytes :: "json \<Rightarrow> string" where
  "json_bytes j = utf8_encode (dumps j)"

definition bytes_digest :: "string \<Rightarrow> string" where
  "bytes_digest b = ''sha256:'' @ sha256_hex b"

definition json_digest :: "json \<Rightarrow> string" where
  "json_digest j = bytes_digest (json_bytes j)"

section \<open>Reading frozen values\<close>

text \<open>\<open>payload.get(key)\<close>: a missing key and a JSON null both read as \<open>None\<close>.\<close>

definition jget :: "jobject \<Rightarrow> string \<Rightarrow> json" where
  "jget obj k = (case map_of obj k of None \<Rightarrow> JNull | Some v \<Rightarrow> v)"

text \<open>\<open>set(payload) == expected\<close>.\<close>

definition keys_are :: "jobject \<Rightarrow> string list \<Rightarrow> bool" where
  "keys_are obj ks = (set (map fst obj) = set ks)"

definition as_str :: "json \<Rightarrow> string option" where
  "as_str v = (case v of JStr s \<Rightarrow> Some s | _ \<Rightarrow> None)"

definition as_obj :: "json \<Rightarrow> jobject option" where
  "as_obj v = (case v of JObj kvs \<Rightarrow> Some kvs | _ \<Rightarrow> None)"

definition as_arr :: "json \<Rightarrow> json list option" where
  "as_arr v = (case v of JArr xs \<Rightarrow> Some xs | _ \<Rightarrow> None)"

definition as_bool :: "json \<Rightarrow> bool option" where
  "as_bool v = (case v of JBool b \<Rightarrow> Some b | _ \<Rightarrow> None)"

text \<open>\<open>isinstance(v, int) and not isinstance(v, bool)\<close>.\<close>

definition as_int :: "json \<Rightarrow> int option" where
  "as_int v = (case v of JInt i \<Rightarrow> Some i | _ \<Rightarrow> None)"

text \<open>Python's \<open>==\<close> on frozen values: booleans, integers and floats compare as numbers,
  tuples element by element, mappings by their sets of items.\<close>

definition py_num :: "json \<Rightarrow> rat option" where
  "py_num v = (case v of JBool b \<Rightarrow> Some (if b then 1 else 0) | JInt i \<Rightarrow> Some (of_int i)
     | JFloat q _ \<Rightarrow> Some q | _ \<Rightarrow> None)"

fun py_eq :: "json \<Rightarrow> json \<Rightarrow> bool" where
  "py_eq (JStr s) w = (w = JStr s)"
| "py_eq JNull w = (w = JNull)"
| "py_eq (JArr xs) w = (case w of JArr ys \<Rightarrow> list_all2 py_eq xs ys | _ \<Rightarrow> False)"
| "py_eq (JObj xs) w =
     (case w of JObj ys \<Rightarrow> length xs = length ys \<and>
        list_all (\<lambda>kx. case map_of ys (fst kx) of None \<Rightarrow> False | Some y \<Rightarrow> py_eq (snd kx) y) xs
      | _ \<Rightarrow> False)"
| "py_eq v w = (py_num v = py_num w)"

section \<open>Shape facts\<close>

lemma freeze_thaw: "freeze_json (thaw_json j) = Inr j"
proof (induction j)
  case (JArr xs)
  then have "etraverse freeze_json (map thaw_json xs) = Inr xs"
    by (induction xs) auto
  then show ?case by simp
next
  case (JObj kvs)
  then have "etraverse (\<lambda>kv. case fst kv of
                PyStr s \<Rightarrow> ebind (freeze_json (snd kv)) (\<lambda>w. Inr (s, w))
              | _ \<Rightarrow> Inl KeyNotString) (map (\<lambda>kv. (PyStr (fst kv), thaw_json (snd kv))) kvs)
      = Inr kvs"
    by (induction kvs) (auto, fastforce)
  then show ?case by simp
qed simp_all

lemma re_digest_bytes_digest [simp]: "re_digest (bytes_digest b)"
  by (simp add: re_digest_def bytes_digest_def startswith_def)

lemma re_digest_json_digest [simp]: "re_digest (json_digest j)"
  by (simp add: json_digest_def)

lemma py_int16_ok_sha256 [simp]: "py_int16_ok (sha256_hex b)"
proof -
  have "list_all is_hex (sha256_hex b)"
    using sha256_hex_lower[of b] by (auto simp: list_all_iff intro: is_lower_hex_is_hex)
  moreover have "sha256_hex b \<noteq> []"
    using length_sha256_hex[of b] by (metis list.size(3) zero_neq_numeral)
  ultimately show ?thesis by (intro py_int16_ok_hex)
qed

lemma digest_shape:
  "startswith (bytes_digest b) ''sha256:''" "removeprefix (bytes_digest b) ''sha256:'' = sha256_hex b"
  unfolding bytes_digest_def by (rule startswith_append, rule removeprefix_append)

lemma length_bytes_digest [simp]: "length (bytes_digest b) = 71"
  by (simp add: bytes_digest_def)

section \<open>The canonical form identifies a value\<close>

text \<open>
  \<open>norm_json\<close> sorts every object by key. Two float-free values have the same canonical text
  exactly when they agree up to the order of their keys: the text is uniquely readable, shown
  below by cancelling one value from the front of two equal texts.
\<close>

fun norm_json :: "json \<Rightarrow> json" where
  "norm_json (JArr xs) = JArr (map norm_json xs)"
| "norm_json (JObj kvs) = JObj (sort_key fst (map (\<lambda>kv. (fst kv, norm_json (snd kv))) kvs))"
| "norm_json j = j"

fun keys_distinct :: "json \<Rightarrow> bool" where
  "keys_distinct (JArr xs) = list_all keys_distinct xs"
| "keys_distinct (JObj kvs) =
     (distinct (map fst kvs) \<and> list_all (\<lambda>kv. keys_distinct (snd kv)) kvs)"
| "keys_distinct j = True"

fun float_free :: "json \<Rightarrow> bool" where
  "float_free (JArr xs) = list_all float_free xs"
| "float_free (JObj kvs) = list_all (\<lambda>kv. float_free (snd kv)) kvs"
| "float_free (JFloat v r) = False"
| "float_free j = True"

lemma insort_key_fst_map:
  "insort_key fst (fst kv, f (snd kv)) (map (\<lambda>kv. (fst kv, f (snd kv))) kvs)
   = map (\<lambda>kv. (fst kv, f (snd kv))) (insort_key fst kv kvs)"
  by (induction kvs) auto

lemma sort_key_fst_map:
  "sort_key fst (map (\<lambda>kv. (fst kv, f (snd kv))) kvs)
   = map (\<lambda>kv. (fst kv, f (snd kv))) (sort_key fst kvs)"
  by (induction kvs) (simp_all add: insort_key_fst_map)

lemma json_induct [case_names JNull JBool JInt JFloat JStr JArr JObj]:
  assumes "P JNull" "\<And>b. P (JBool b)" "\<And>i. P (JInt i)" "\<And>v r. P (JFloat v r)" "\<And>s. P (JStr s)"
    and arr: "\<And>xs. (\<And>x. x \<in> set xs \<Longrightarrow> P x) \<Longrightarrow> P (JArr xs)"
    and obj: "\<And>kvs. (\<And>kv. kv \<in> set kvs \<Longrightarrow> P (snd kv)) \<Longrightarrow> P (JObj kvs)"
  shows "P j"
proof (induction j)
  case (JObj kvs)
  show ?case by (rule obj) (meson JObj snds.intros)
qed (use assms in auto)

lemma dumps_norm: "dumps (norm_json j) = dumps j"
proof (induction j rule: json_induct)
  case (JArr xs)
  then have "map (dumps \<circ> norm_json) xs = map dumps xs" by simp
  then show ?case by (simp only: norm_json.simps dumps.simps map_map)
next
  case (JObj kvs)
  then have "map (\<lambda>kt. json_quote (fst kt) @ '':'' @ dumps (norm_json (snd kt))) (sort_key fst kvs)
      = map (\<lambda>kt. json_quote (fst kt) @ '':'' @ dumps (snd kt)) (sort_key fst kvs)"
    by (intro map_cong) auto
  then show ?case
    by (simp only: norm_json.simps dumps.simps sort_key_fst_map map_map comp_def fst_conv snd_conv
        sort_key_id_if_sorted sorted_sort_key)
qed simp_all

lemma code_inj: "code c = code d \<Longrightarrow> c = d"
  by (simp add: code_def)

lemma json_escape_head: "json_escape c \<noteq> [] \<and> hd (json_escape c) \<noteq> CHR 0x22"
  by (simp add: json_escape_def)

definition hex_value :: "char \<Rightarrow> nat" where
  "hex_value c = (if code c < 58 then code c - 48 else code c - 87)"

lemma hex_value_hex_digit: "n < 16 \<Longrightarrow> hex_value (hex_digit n) = n"
  by (auto simp: hex_value_def hex_digit_def code_def)

text \<open>A decoder for one escaped character; it exists only to show that escapes are
  uniquely readable.\<close>

definition json_unescape :: "string \<Rightarrow> char \<times> string" where
  "json_unescape s =
     (if hd s \<noteq> CHR 0x5C then (hd s, tl s)
      else let e = s ! 1; r = drop 2 s in
        if e = CHR ''n'' then (CHR 0x0A, r)
        else if e = CHR ''r'' then (CHR 0x0D, r)
        else if e = CHR ''t'' then (CHR 0x09, r)
        else if e = CHR ''f'' then (CHR 0x0C, r)
        else if e = CHR ''b'' then (CHR 0x08, r)
        else if e = CHR ''u'' then (char_of (hex_value (s ! 4) * 16 + hex_value (s ! 5)), drop 6 s)
        else (e, r))"

lemma json_unescape_escape: "json_unescape (json_escape c @ x) = (c, x)"
proof -
  have special: ?thesis if "c \<in> set [CHR 0x22, CHR 0x5C, CHR 0x0A, CHR 0x0D, CHR 0x09, CHR 0x0C, CHR 0x08]"
    using that by (elim set_ConsD[elim_format] disjE) (auto simp: json_escape_def json_unescape_def)
  have control: ?thesis
    if "code c < 32" "c \<notin> set [CHR 0x22, CHR 0x5C, CHR 0x0A, CHR 0x0D, CHR 0x09, CHR 0x0C, CHR 0x08]"
  proof -
    have esc: "json_escape c = [CHR 0x5C, CHR ''u'', CHR ''0'', CHR ''0'', hex_digit (code c div 16),
            hex_digit (code c mod 16)]"
      using that by (simp add: json_escape_def)
    have "code c div 16 < 16" "code c mod 16 < 16" using that by simp_all
    then have hex: "hex_value (hex_digit (code c div 16)) = code c div 16"
      "hex_value (hex_digit (code c mod 16)) = code c mod 16"
      by (simp_all only: hex_value_hex_digit)
    have "json_unescape (json_escape c @ x) = (char_of (code c div 16 * 16 + code c mod 16), x)"
      unfolding esc json_unescape_def by (simp add: hex del: char_of_eq_iff)
    then show ?thesis by (simp only: div_mult_mod_eq) (simp add: code_def)
  qed
  have plain: ?thesis
    if "\<not> code c < 32" "c \<notin> set [CHR 0x22, CHR 0x5C, CHR 0x0A, CHR 0x0D, CHR 0x09, CHR 0x0C, CHR 0x08]"
    using that by (simp add: json_escape_def json_unescape_def)
  show ?thesis using special control plain by blast
qed

lemma json_escape_cancel:
  assumes "json_escape c @ x = json_escape d @ y"
  shows "c = d \<and> x = y"
  by (metis assms json_unescape_escape prod.inject)

lemma json_quote_cancel:
  assumes "json_quote s @ x = json_quote t @ y"
  shows "s = t \<and> x = y"
proof -
  have "concat (map json_escape s) @ CHR 0x22 # x = concat (map json_escape t) @ CHR 0x22 # y
        \<Longrightarrow> s = t \<and> x = y"
  proof (induction s arbitrary: t)
    case Nil
    then show ?case
      using json_escape_head[of "hd t"] by (cases t; cases "json_escape (hd t)") auto
  next
    case (Cons c s)
    then obtain d t' where t: "t = d # t'"
      using json_escape_head[of c] by (cases t; cases "json_escape c") auto
    with Cons.prems have "c = d \<and> concat (map json_escape s) @ CHR 0x22 # x
       = concat (map json_escape t') @ CHR 0x22 # y"
      by (intro json_escape_cancel) simp
    with Cons.IH t show ?case by auto
  qed
  with assms show ?thesis by (simp add: json_quote_def)
qed

lemma nat_repr_digits: "list_all is_digit (nat_repr n) \<and> nat_repr n \<noteq> []"
proof (induction n rule: nat_repr.induct)
  case (1 n)
  then show ?case
    by (simp add: nat_repr.simps[of n]) (auto simp: is_digit_def[abs_def] code_def)
qed

definition digits_value :: "string \<Rightarrow> nat" where
  "digits_value s = foldl (\<lambda>acc c. acc * 10 + (code c - 48)) 0 s"

lemma digits_value_nat_repr [simp]: "digits_value (nat_repr n) = n"
proof (induction n rule: nat_repr.induct)
  case (1 n)
  then show ?case
    by (subst nat_repr.simps) (auto simp: digits_value_def code_def)
qed

lemma digits_cancel:
  assumes "list_all is_digit s" "list_all is_digit t"
    and "x = [] \<or> \<not> is_digit (hd x)" "y = [] \<or> \<not> is_digit (hd y)"
    and "s @ x = t @ y"
  shows "s = t \<and> x = y"
proof -
  have "takeWhile is_digit (s @ x) = s" "takeWhile is_digit (t @ y) = t"
    using assms(1-4) by (cases x; cases y; auto simp: list_all_iff takeWhile_append)+
  with assms(5) show ?thesis by auto
qed

lemma hd_nat_repr: "is_digit (hd (nat_repr n))"
  using nat_repr_digits[of n] by (cases "nat_repr n") auto

lemma nat_repr_cancel:
  assumes "nat_repr m @ x = nat_repr n @ y"
    and "x = [] \<or> \<not> is_digit (hd x)" "y = [] \<or> \<not> is_digit (hd y)"
  shows "m = n \<and> x = y"
  using digits_cancel[OF _ _ assms(2,3,1)] nat_repr_digits digits_value_nat_repr by metis

lemma nat_repr_not_minus: "nat_repr n @ x \<noteq> CHR ''-'' # y"
  using hd_nat_repr[of n] nat_repr_digits[of n]
  by (cases "nat_repr n") (auto simp: is_digit_def code_def)

lemma int_repr_cancel:
  assumes "int_repr i @ x = int_repr j @ y"
    and "x = [] \<or> \<not> is_digit (hd x)" "y = [] \<or> \<not> is_digit (hd y)"
  shows "i = j \<and> x = y"
proof (cases "i < 0"; cases "j < 0")
  assume "i < 0" "j < 0"
  with assms(1) have "nat_repr (nat (- i)) @ x = nat_repr (nat (- j)) @ y"
    by (simp add: int_repr_def)
  from nat_repr_cancel[OF this assms(2,3)] \<open>i < 0\<close> \<open>j < 0\<close> show ?thesis
    by (auto simp: eq_nat_nat_iff)
next
  assume "\<not> i < 0" "\<not> j < 0"
  with assms(1) have "nat_repr (nat i) @ x = nat_repr (nat j) @ y"
    by (simp add: int_repr_def)
  from nat_repr_cancel[OF this assms(2,3)] \<open>\<not> i < 0\<close> \<open>\<not> j < 0\<close> show ?thesis
    by (auto simp: eq_nat_nat_iff)
next
  assume "i < 0" "\<not> j < 0"
  with assms(1) nat_repr_not_minus[of "nat j" y, symmetric] show ?thesis by (simp add: int_repr_def)
next
  assume "\<not> i < 0" "j < 0"
  with assms(1) nat_repr_not_minus[of "nat i" x] show ?thesis by (simp add: int_repr_def)
qed

lemma join_Cons: "join sep (x # xs) = x @ (if xs = [] then [] else sep @ join sep xs)"
  by (cases xs) auto

definition json_delim :: "char \<Rightarrow> bool" where
  "json_delim c = (c = CHR '','' \<or> c = CHR '']'' \<or> c = CHR ''}'')"

definition json_ends :: "string \<Rightarrow> bool" where
  "json_ends s = (s = [] \<or> json_delim (hd s))"

lemma join_cancel:
  assumes cancel: "\<And>a b u v. a \<in> set xs \<Longrightarrow> b \<in> set ys \<Longrightarrow> enc a @ u = enc b @ v \<Longrightarrow>
        json_ends u \<Longrightarrow> json_ends v \<Longrightarrow> f a = f b \<and> u = v"
    and head: "\<And>a. a \<in> set xs \<union> set ys \<Longrightarrow> enc a \<noteq> [] \<and> hd (enc a) \<noteq> c"
    and c: "json_delim c" "c \<noteq> CHR '',''"
    and eq: "join '','' (map enc xs) @ c # x = join '','' (map enc ys) @ c # y"
  shows "map f xs = map f ys \<and> x = y"
  using cancel head eq
proof (induction xs arbitrary: ys)
  case Nil
  show ?case
  proof (cases ys)
    case (Cons b bs)
    with Nil.prems(2)[of b] Nil.prems(3) show ?thesis
      by (cases "enc b") (simp_all add: join_Cons)
  qed (use Nil in simp)
next
  case (Cons a xs)
  let ?t = "\<lambda>zs z. (if zs = [] then [] else '','' @ join '','' (map enc zs)) @ c # z"
  from Cons.prems(2)[of a] have a: "enc a \<noteq> []" "hd (enc a) \<noteq> c" by auto
  have eq: "enc a @ ?t xs x = join '','' (map enc ys) @ c # y"
    using Cons.prems(3) by (simp add: join_Cons)
  obtain b ys' where ys: "ys = b # ys'"
  proof (cases ys)
    case Nil
    with eq a show ?thesis by (cases "enc a") simp_all
  qed auto
  have "f a = f b \<and> ?t xs x = ?t ys' y"
  proof (rule Cons.prems(1))
    show "enc a @ ?t xs x = enc b @ ?t ys' y" using eq ys by (simp add: join_Cons)
  qed (use ys c in \<open>auto simp: json_ends_def json_delim_def\<close>)
  then have f: "f a = f b" and t: "?t xs x = ?t ys' y" by simp_all
  from t c(2) have empty: "xs = [] \<longleftrightarrow> ys' = []" by (cases "xs = []"; cases "ys' = []") simp_all
  show ?case
  proof (cases "xs = []")
    case True
    with t f ys empty show ?thesis by simp
  next
    case False
    have "map f xs = map f ys' \<and> x = y"
    proof (rule Cons.IH)
      show "join '','' (map enc xs) @ c # x = join '','' (map enc ys') @ c # y"
        using t False empty by simp
    qed (use Cons.prems(1,2) ys in auto)
    with f ys show ?thesis by simp
  qed
qed

definition json_kind :: "json \<Rightarrow> nat" where
  "json_kind j = (case j of JNull \<Rightarrow> 0 | JBool b \<Rightarrow> if b then 1 else 2 | JInt i \<Rightarrow> 3 | JFloat v r \<Rightarrow> 7
     | JStr s \<Rightarrow> 4 | JArr xs \<Rightarrow> 5 | JObj kvs \<Rightarrow> 6)"

definition head_kind :: "char \<Rightarrow> nat" where
  "head_kind c = (if c = CHR ''n'' then 0 else if c = CHR ''t'' then 1 else if c = CHR ''f'' then 2
     else if is_digit c \<or> c = CHR ''-'' then 3 else if c = CHR 0x22 then 4
     else if c = CHR ''['' then 5 else 6)"

lemma head_kind_digit: "is_digit c \<Longrightarrow> head_kind c = 3"
  by (auto simp: head_kind_def is_digit_def code_def)

lemma dumps_head:
  assumes "float_free j"
  shows "dumps j \<noteq> [] \<and> head_kind (hd (dumps j)) = json_kind j"
proof (cases j)
  case (JInt i)
  then show ?thesis
    using nat_repr_digits[of "nat i"] hd_nat_repr[of "nat i"]
    by (cases "i < 0") (simp_all add: json_kind_def int_repr_def head_kind_digit, simp add: head_kind_def)
qed (use assms in \<open>auto simp: json_kind_def head_kind_def json_quote_def is_digit_def code_def\<close>)

lemma dumps_head_not_delim:
  assumes "float_free j" "json_delim c" shows "hd (dumps j) \<noteq> c"
proof
  assume "hd (dumps j) = c"
  with assms dumps_head[of j] have "json_kind j = 6" "head_kind (hd (dumps j)) = 6"
    by (auto simp: json_delim_def head_kind_def is_digit_def code_def)
  then show False using assms \<open>hd (dumps j) = c\<close>
    by (auto simp: json_kind_def json_delim_def split: json.splits if_splits)
qed

lemma json_ends_not_digit: "json_ends s \<Longrightarrow> s = [] \<or> \<not> is_digit (hd s)"
  by (auto simp: json_ends_def json_delim_def is_digit_def code_def)

lemma dumps_same_kind:
  assumes "float_free a" "float_free b" "dumps a @ x = dumps b @ y"
  shows "json_kind a = json_kind b"
proof -
  have "hd (dumps a @ x) = hd (dumps b @ y)" using assms(3) by simp
  with dumps_head[OF assms(1)] dumps_head[OF assms(2)] show ?thesis by simp
qed

lemma dumps_cancel:
  assumes "float_free a" "float_free b" "dumps a @ x = dumps b @ y" "json_ends x" "json_ends y"
  shows "norm_json a = norm_json b \<and> x = y"
  using assms
proof (induction a arbitrary: b x y rule: json_induct)
  case (JInt i)
  with dumps_same_kind[OF JInt.prems(1-3)] obtain j where "b = JInt j"
    by (cases b) (auto simp: json_kind_def split: if_splits)
  with JInt.prems show ?case
    by (auto dest: int_repr_cancel json_ends_not_digit)
next
  case (JStr s)
  with dumps_same_kind[OF JStr.prems(1-3)] obtain t where "b = JStr t"
    by (cases b) (auto simp: json_kind_def split: if_splits)
  with JStr.prems show ?case by (auto dest: json_quote_cancel)
next
  case (JArr xs)
  with dumps_same_kind[OF JArr.prems(1-3)] obtain ys where b: "b = JArr ys"
    by (cases b) (auto simp: json_kind_def split: if_splits)
  have "map norm_json xs = map norm_json ys \<and> x = y"
  proof (rule join_cancel[where enc = dumps and c = "CHR '']''"])
    fix a' b' u v
    assume "a' \<in> set xs" "b' \<in> set ys" "dumps a' @ u = dumps b' @ v" "json_ends u" "json_ends v"
    then show "norm_json a' = norm_json b' \<and> u = v"
      using JArr.IH[of a' b' u v] JArr.prems(1,2) b by (auto simp: list_all_iff)
  next
    fix a' assume "a' \<in> set xs \<union> set ys"
    then have "float_free a'" using JArr.prems(1,2) b by (auto simp: list_all_iff)
    then show "dumps a' \<noteq> [] \<and> hd (dumps a') \<noteq> CHR '']''"
      using dumps_head dumps_head_not_delim by (auto simp: json_delim_def)
  qed (use JArr.prems b in \<open>auto simp: json_delim_def\<close>)
  with b show ?case by simp
next
  case (JObj kvs)
  with dumps_same_kind[OF JObj.prems(1-3)] obtain lvs where b: "b = JObj lvs"
    by (cases b) (auto simp: json_kind_def split: if_splits)
  let ?enc = "\<lambda>kv. json_quote (fst kv) @ '':'' @ dumps (snd kv)"
  let ?f = "\<lambda>kv. (fst kv, norm_json (snd kv))"
  have "map ?f (sort_key fst kvs) = map ?f (sort_key fst lvs) \<and> x = y"
  proof (rule join_cancel[where enc = ?enc and c = "CHR ''}''"])
    fix a' b' u v
    assume ab: "a' \<in> set (sort_key fst kvs)" "b' \<in> set (sort_key fst lvs)"
      and eq: "?enc a' @ u = ?enc b' @ v" and uv: "json_ends u" "json_ends v"
    from eq have "fst a' = fst b' \<and> dumps (snd a') @ u = dumps (snd b') @ v"
      using json_quote_cancel[of "fst a'" _ "fst b'"] by fastforce
    then show "?f a' = ?f b' \<and> u = v"
      using JObj.IH[of a' "snd b'" u v] ab uv JObj.prems(1,2) b by (auto simp: list_all_iff)
  next
    fix a' show "?enc a' \<noteq> [] \<and> hd (?enc a') \<noteq> CHR ''}''" by (simp add: json_quote_def)
  qed (use JObj.prems b in \<open>auto simp: json_delim_def sort_key_fst_map comp_def\<close>)
  with b show ?case by (simp add: sort_key_fst_map)
next
  case JNull
  with dumps_same_kind[OF JNull.prems(1-3)] show ?case
    by (cases b) (auto simp: json_kind_def split: if_splits)
next
  case (JBool p)
  with dumps_same_kind[OF JBool.prems(1-3)] show ?case
    by (cases b) (auto simp: json_kind_def split: if_splits)
qed simp

text \<open>UTF-8 is read back one character at a time.\<close>

definition utf8_first :: "string \<Rightarrow> char \<times> string" where
  "utf8_first s = (if code (hd s) < 128 then (hd s, tl s)
     else (char_of ((code (hd s) - 192) * 64 + (code (s ! 1) - 128)), drop 2 s))"

lemma utf8_first_char: "utf8_first (utf8_char c @ x) = (c, x)"
proof (cases "code c < 128")
  case False
  have small: "code c div 64 < 4" "code c mod 64 < 64" using code_less_256[of c] by auto
  then have codes: "code (char_of (192 + code c div 64)) = 192 + code c div 64"
    "code (char_of (128 + code c mod 64)) = 128 + code c mod 64"
    by (simp_all add: code_def)
  have "char_of (code c div 64 * 64 + code c mod 64) = c"
    unfolding div_mult_mod_eq by (simp add: code_def)
  with False show ?thesis by (simp add: utf8_first_def utf8_char_def codes)
qed (simp add: utf8_first_def utf8_char_def)

lemma utf8_encode_inj: "utf8_encode s = utf8_encode t \<Longrightarrow> s = t"
proof (induction s arbitrary: t)
  case Nil
  then show ?case by (cases t) (auto simp: utf8_encode_def utf8_char_def split: if_splits)
next
  case (Cons c s)
  obtain d t' where t: "t = d # t'"
    using Cons.prems by (cases t) (auto simp: utf8_encode_def utf8_char_def split: if_splits)
  with Cons.prems have "(c, utf8_encode s) = (d, utf8_encode t')"
    using utf8_first_char[of c "utf8_encode s"] utf8_first_char[of d "utf8_encode t'"]
    by (simp add: utf8_encode_def)
  with Cons.IH t show ?case by simp
qed

lemma dumps_injective:
  assumes "float_free a" "float_free b"
  shows "dumps a = dumps b \<longleftrightarrow> norm_json a = norm_json b"
proof
  assume "dumps a = dumps b"
  then show "norm_json a = norm_json b"
    using dumps_cancel[OF assms, of "[]" "[]"] by (simp add: json_ends_def)
next
  assume "norm_json a = norm_json b"
  then show "dumps a = dumps b" by (metis dumps_norm)
qed

lemma json_bytes_injective:
  assumes "float_free a" "float_free b"
  shows "json_bytes a = json_bytes b \<longleftrightarrow> norm_json a = norm_json b"
  using dumps_injective[OF assms] utf8_encode_inj unfolding json_bytes_def by metis

text \<open>A digest therefore names one value up to key order, unless the two byte strings at hand
  are a collision of the hash function.\<close>

definition sha_collision :: "string \<Rightarrow> string \<Rightarrow> bool" where
  "sha_collision x y = (x \<noteq> y \<and> sha256_hex x = sha256_hex y)"

lemma json_digest_binds:
  assumes "float_free a" "float_free b" "json_digest a = json_digest b"
  shows "norm_json a = norm_json b \<or> sha_collision (json_bytes a) (json_bytes b)"
  using json_bytes_injective[OF assms(1,2)] assms(3)
  by (auto simp: json_digest_def bytes_digest_def sha_collision_def)

lemma canonical_json_bytes_thaw: "canonical_json_bytes (thaw_json j) = Inr (json_bytes j)"
  by (simp add: canonical_json_bytes_def freeze_thaw json_bytes_def)

section \<open>Properties\<close>

text \<open>
  C32: The canonical form identifies a value: two float-free values serialise to the same bytes
  exactly when they are equal up to the order of object keys, and equal digests mean equal values
  up to key order unless the two byte strings are a collision of SHA-256. Freezing undoes
  thawing, so a stored value serialises to the bytes it was hashed as.
\<close>

theorem canonical_json_identity:
  assumes "float_free a" "float_free b"
  shows "(json_bytes a = json_bytes b \<longleftrightarrow> norm_json a = norm_json b)
    \<and> (json_digest a = json_digest b \<longleftrightarrow>
         norm_json a = norm_json b \<or> sha_collision (json_bytes a) (json_bytes b))
    \<and> canonical_json_bytes (thaw_json a) = Inr (json_bytes a)"
  using json_bytes_injective[OF assms] json_digest_binds[OF assms] canonical_json_bytes_thaw
  by (auto simp: json_digest_def bytes_digest_def sha_collision_def)

theorem canonical_json_identity_witness:
  "json_bytes (JObj [(''b'', JInt 1), (''a'', JNull)])
     = json_bytes (JObj [(''a'', JNull), (''b'', JInt 1)])
   \<and> json_bytes (JInt 1) \<noteq> json_bytes (JBool True)"
  using canonical_json_identity[of "JObj [(''b'', JInt 1), (''a'', JNull)]"
      "JObj [(''a'', JNull), (''b'', JInt 1)]"]
    canonical_json_identity[of "JInt 1" "JBool True"]
  by simp

end
