(* ===== verification/Events.thy ===== *)
theory Events
  imports Json
begin

text \<open>
  \<open>kernel/errors.py\<close> and \<open>kernel/events.py\<close>: the kernel's exceptions, aware timestamps and
  the immutable event envelope with its validating constructor, the \<open>create\<close> factory and the
  idempotency hash.

  A timestamp is its instant (microseconds since 1970 in UTC) and its UTC offset, \<open>None\<close>
  for a naive value. Clock readings and fresh identifiers are arguments of \<open>create_event\<close>.
\<close>

datatype kernel_error =
    ValueError string
  | TypeError string
  | RuntimeError string
  | SchemaVersionError int
  | ConcurrencyError string int int
  | EventSequenceError
  | EventConflictError
  | IdempotencyConflict
  | EventIntegrityError
  | ArtifactNotFoundError
  | ArtifactIntegrityError
  | ArtifactQuotaExceededError
  | ProjectionConflict

section \<open>Timestamps\<close>

record datetime =
  dt_utc :: int
  dt_offset :: "int option"

definition utc :: "int \<Rightarrow> datetime" where
  "utc t = \<lparr>dt_utc = t, dt_offset = Some 0\<rparr>"

definition aware :: "datetime \<Rightarrow> bool" where
  "aware d = (dt_offset d \<noteq> None)"

text \<open>\<open>_timestamp\<close>: reject a naive value, convert to UTC.\<close>

definition timestamp :: "datetime \<Rightarrow> string \<Rightarrow> kernel_error + datetime" where
  "timestamp d field = (if aware d then Inr (utc (dt_utc d)) else Inl (ValueError field))"

definition pad :: "nat \<Rightarrow> int \<Rightarrow> string" where
  "pad n i = (let s = int_repr i in replicate (n - length s) (CHR ''0'') @ s)"

definition civil_date :: "int \<Rightarrow> int \<times> int \<times> int" where
  "civil_date days =
     (let z = days + 719468; era = z div 146097; doe = z mod 146097;
          yoe = (doe - doe div 1460 + doe div 36524 - doe div 146096) div 365;
          doy = doe - (365 * yoe + yoe div 4 - yoe div 100);
          mp = (5 * doy + 2) div 153;
          d = doy - (153 * mp + 2) div 5 + 1;
          m = (if mp < 10 then mp + 3 else mp - 9);
          y = yoe + era * 400 + (if m \<le> 2 then 1 else 0)
      in (y, m, d))"

definition iso_clock :: "int \<Rightarrow> string" where
  "iso_clock us =
     pad 2 (us div 3600000000) @ '':'' @ pad 2 (us div 60000000 mod 60)"

definition iso_offset :: "int \<Rightarrow> string" where
  "iso_offset o1 =
     (let a = \<bar>o1\<bar>; s = a div 1000000 mod 60; f = a mod 1000000 in
      (if o1 < 0 then ''-'' else ''+'') @ iso_clock a
      @ (if s = 0 \<and> f = 0 then [] else '':'' @ pad 2 s)
      @ (if f = 0 then [] else ''.'' @ pad 6 f))"

definition isoformat :: "datetime \<Rightarrow> string" where
  "isoformat dt =
     (let local = dt_utc dt + (case dt_offset dt of None \<Rightarrow> 0 | Some o1 \<Rightarrow> o1);
          days = local div 86400000000; us = local mod 86400000000;
          (y, m, d) = civil_date days; f = us mod 1000000
      in pad 4 y @ ''-'' @ pad 2 m @ ''-'' @ pad 2 d @ ''T'' @ iso_clock us @ '':''
         @ pad 2 (us div 1000000 mod 60) @ (if f = 0 then [] else ''.'' @ pad 6 f)
         @ (case dt_offset dt of None \<Rightarrow> [] | Some o1 \<Rightarrow> iso_offset o1))"

section \<open>The event envelope\<close>

record 'p envelope =
  event_id :: string
  stream_id :: string
  stream_sequence :: int
  event_type :: string
  schema_version :: int
  recorded_at :: datetime
  effective_at :: datetime
  correlation_id :: string
  causation_id :: "string option"
  actor :: string
  source :: string
  payload :: 'p
  payload_hash :: string
  idempotency_key :: "string option"
  global_position :: "int option"

type_synonym event = "jobject envelope"

definition required_text :: "string \<Rightarrow> string \<Rightarrow> kernel_error + string" where
  "required_text value field =
     (if value = [] \<or> py_strip value = [] then Inl (ValueError field) else Inr value)"

definition optional_required_text :: "string option \<Rightarrow> string \<Rightarrow> kernel_error + unit" where
  "optional_required_text value field =
     (case value of None \<Rightarrow> Inr ()
      | Some v \<Rightarrow> ebind (required_text v field) (\<lambda>_. Inr ()))"

definition freeze_payload :: "pyval \<Rightarrow> kernel_error + jobject" where
  "freeze_payload p =
     (case freeze_json p of
        Inl NonFiniteNumber \<Rightarrow> Inl (ValueError ''payload'')
      | Inl e \<Rightarrow> Inl (TypeError ''payload'')
      | Inr (JObj kvs) \<Rightarrow> Inr kvs
      | Inr _ \<Rightarrow> Inl (TypeError ''payload''))"

text \<open>\<open>EventEnvelope.__post_init__\<close>: the checks in the order the code makes them, then the
  normalised, frozen value.\<close>

definition event_envelope :: "pyval envelope \<Rightarrow> kernel_error + event" where
  "event_envelope raw =
     ebind (required_text (event_id raw) ''event_id'') (\<lambda>_.
     ebind (required_text (stream_id raw) ''stream_id'') (\<lambda>_.
     ebind (required_text (event_type raw) ''event_type'') (\<lambda>_.
     ebind (required_text (correlation_id raw) ''correlation_id'') (\<lambda>_.
     ebind (required_text (actor raw) ''actor'') (\<lambda>_.
     ebind (required_text (source raw) ''source'') (\<lambda>_.
     ebind (optional_required_text (causation_id raw) ''causation_id'') (\<lambda>_.
     ebind (optional_required_text (idempotency_key raw) ''idempotency_key'') (\<lambda>_.
     ebind (check (ValueError ''stream_sequence'') (1 \<le> stream_sequence raw)) (\<lambda>_.
     ebind (check (ValueError ''schema_version'') (1 \<le> schema_version raw)) (\<lambda>_.
     ebind (check (ValueError ''global_position'')
       (case global_position raw of None \<Rightarrow> True | Some g \<Rightarrow> 1 \<le> g)) (\<lambda>_.
     ebind (timestamp (recorded_at raw) ''recorded_at'') (\<lambda>rec_at.
     ebind (timestamp (effective_at raw) ''effective_at'') (\<lambda>eff_at.
     ebind (freeze_payload (payload raw)) (\<lambda>frozen.
     ebind (check EventIntegrityError (payload_hash raw = json_digest (JObj frozen))) (\<lambda>_.
     Inr \<lparr>event_id = event_id raw, stream_id = stream_id raw,
          stream_sequence = stream_sequence raw, event_type = event_type raw,
          schema_version = schema_version raw, recorded_at = rec_at, effective_at = eff_at,
          correlation_id = correlation_id raw, causation_id = causation_id raw,
          actor = actor raw, source = source raw, payload = frozen,
          payload_hash = payload_hash raw, idempotency_key = idempotency_key raw,
          global_position = global_position raw\<rparr>)))))))))))))))"

text \<open>The arguments of \<open>EventEnvelope.create\<close>; \<open>None\<close> is the default of an omitted one.\<close>

record create_args =
  ca_stream_id :: string
  ca_stream_sequence :: int
  ca_event_type :: string
  ca_actor :: string
  ca_source :: string
  ca_payload :: "pyval option"
  ca_schema_version :: int
  ca_recorded_at :: "datetime option"
  ca_effective_at :: "datetime option"
  ca_correlation_id :: "string option"
  ca_causation_id :: "string option"
  ca_idempotency_key :: "string option"
  ca_event_id :: "string option"

definition text_or :: "string option \<Rightarrow> string \<Rightarrow> string" where
  "text_or v d = (case v of None \<Rightarrow> d | Some s \<Rightarrow> if s = [] then d else s)"

definition create_event :: "datetime \<Rightarrow> string \<Rightarrow> create_args \<Rightarrow> kernel_error + event" where
  "create_event now fresh_id a =
     ebind (timestamp (case ca_recorded_at a of None \<Rightarrow> now | Some d \<Rightarrow> d) ''recorded_at'') (\<lambda>observed.
     ebind (timestamp (case ca_effective_at a of None \<Rightarrow> observed | Some d \<Rightarrow> d) ''effective_at'')
       (\<lambda>effective.
     let resolved = text_or (ca_event_id a) fresh_id in
     ebind (freeze_payload (case ca_payload a of None \<Rightarrow> PyDict [] | Some p \<Rightarrow> p)) (\<lambda>frozen.
     event_envelope
       \<lparr>event_id = resolved, stream_id = ca_stream_id a,
        stream_sequence = ca_stream_sequence a, event_type = ca_event_type a,
        schema_version = ca_schema_version a, recorded_at = observed, effective_at = effective,
        correlation_id = text_or (ca_correlation_id a) resolved,
        causation_id = ca_causation_id a, actor = ca_actor a, source = ca_source a,
        payload = thaw_json (JObj frozen), payload_hash = json_digest (JObj frozen),
        idempotency_key = ca_idempotency_key a, global_position = None\<rparr>)))"

definition opt_str :: "string option \<Rightarrow> json" where
  "opt_str v = (case v of None \<Rightarrow> JNull | Some s \<Rightarrow> JStr s)"

definition opt_int :: "int option \<Rightarrow> json" where
  "opt_int v = (case v of None \<Rightarrow> JNull | Some i \<Rightarrow> JInt i)"

text \<open>The semantic content of a request: everything but the occurrence metadata.\<close>

definition idempotency_content :: "event \<Rightarrow> json" where
  "idempotency_content e = JObj
     [(''actor'', JStr (actor e)),
      (''causation_id'', opt_str (causation_id e)),
      (''correlation_id'', JStr (correlation_id e)),
      (''effective_at'', JStr (isoformat (effective_at e))),
      (''event_type'', JStr (event_type e)),
      (''payload_hash'', JStr (payload_hash e)),
      (''schema_version'', JInt (schema_version e)),
      (''source'', JStr (source e)),
      (''stream_id'', JStr (stream_id e))]"

definition idempotency_hash :: "event \<Rightarrow> string" where
  "idempotency_hash e = json_digest (idempotency_content e)"

section \<open>Well-formed events\<close>

definition text_ok :: "string \<Rightarrow> bool" where
  "text_ok s = (s \<noteq> [] \<and> py_strip s \<noteq> [])"

text \<open>What the constructor guarantees of every envelope that exists.\<close>

definition event_wf :: "event \<Rightarrow> bool" where
  "event_wf e \<longleftrightarrow>
     text_ok (event_id e) \<and> text_ok (stream_id e) \<and> text_ok (event_type e)
     \<and> text_ok (correlation_id e) \<and> text_ok (actor e) \<and> text_ok (source e)
     \<and> pred_option text_ok (causation_id e) \<and> pred_option text_ok (idempotency_key e)
     \<and> 1 \<le> stream_sequence e \<and> 1 \<le> schema_version e
     \<and> pred_option (\<lambda>g. 1 \<le> g) (global_position e)
     \<and> dt_offset (recorded_at e) = Some 0 \<and> dt_offset (effective_at e) = Some 0
     \<and> payload_hash e = json_digest (JObj (payload e))"

lemma required_text_Inr [simp]: "required_text v f = Inr w \<longleftrightarrow> text_ok v \<and> w = v"
  by (auto simp: required_text_def text_ok_def)

lemma optional_required_text_Inr [simp]:
  "optional_required_text v f = Inr u \<longleftrightarrow> pred_option text_ok v"
  by (auto simp: optional_required_text_def ebind_eq_Inr split: option.splits)

lemma timestamp_Inr: "timestamp d f = Inr r \<longleftrightarrow> aware d \<and> r = utc (dt_utc d)"
  by (auto simp: timestamp_def)

lemma freeze_payload_thaw [simp]: "freeze_payload (thaw_json (JObj p)) = Inr p"
  by (simp add: freeze_payload_def freeze_thaw del: thaw_json.simps)

lemma utc_offset_zero: "dt_offset d = Some 0 \<Longrightarrow> utc (dt_utc d) = d"
  by (simp add: utc_def)

text \<open>The raw arguments that rebuild a given envelope: its own fields, the payload thawed.\<close>

definition raw_of :: "event \<Rightarrow> pyval envelope" where
  "raw_of e = \<lparr>event_id = event_id e, stream_id = stream_id e,
     stream_sequence = stream_sequence e, event_type = event_type e,
     schema_version = schema_version e, recorded_at = recorded_at e,
     effective_at = effective_at e, correlation_id = correlation_id e,
     causation_id = causation_id e, actor = actor e, source = source e,
     payload = thaw_json (JObj (payload e)), payload_hash = payload_hash e,
     idempotency_key = idempotency_key e, global_position = global_position e\<rparr>"

lemma event_envelope_wf: "event_envelope raw = Inr e \<Longrightarrow> event_wf e"
  by (auto simp: event_envelope_def ebind_eq_Inr timestamp_Inr event_wf_def utc_def
      split: option.splits if_splits)

lemma event_envelope_raw_of: "event_wf e \<Longrightarrow> event_envelope (raw_of e) = Inr e"
  by (auto simp: event_envelope_def raw_of_def ebind_eq_Inr timestamp_Inr event_wf_def utc_def
      aware_def simp del: thaw_json.simps split: option.splits)

lemma event_envelope_fields:
  assumes "event_envelope raw = Inr e"
  shows "event_id e = event_id raw" "stream_id e = stream_id raw"
    "stream_sequence e = stream_sequence raw" "idempotency_key e = idempotency_key raw"
    "global_position e = global_position raw" "causation_id e = causation_id raw"
    "event_type e = event_type raw" "actor e = actor raw" "source e = source raw"
  using assms by (auto simp: event_envelope_def ebind_eq_Inr split: if_splits)

lemma create_event_wf:
  assumes "create_event now fresh a = Inr e"
  shows "event_wf e \<and> stream_id e = ca_stream_id a \<and> stream_sequence e = ca_stream_sequence a
    \<and> global_position e = None"
  using assms
  by (auto simp: create_event_def ebind_eq_Inr Let_def dest: event_envelope_wf event_envelope_fields)

lemma event_wf_position: "event_wf e \<Longrightarrow> 1 \<le> g \<Longrightarrow> event_wf (e\<lparr>global_position := Some g\<rparr>)"
  by (simp add: event_wf_def)

section \<open>Properties\<close>

text \<open>
  C33: The event constructor establishes every invariant of an envelope (non-blank texts,
  positive counters, UTC timestamps, a payload hash that is the digest of the payload), accepts
  the fields of any envelope it built back unchanged, and never changes an identifying field; a
  payload whose hash does not match is refused.
\<close>

theorem event_envelope_correct:
  "(\<forall>e. event_envelope raw = Inr e \<longrightarrow> event_wf e \<and> event_envelope (raw_of e) = Inr e
      \<and> event_id e = event_id raw \<and> stream_id e = stream_id raw
      \<and> stream_sequence e = stream_sequence raw \<and> freeze_payload (payload raw) = Inr (payload e))
   \<and> (\<forall>p. freeze_payload (payload raw) = Inr p \<longrightarrow> payload_hash raw \<noteq> json_digest (JObj p) \<longrightarrow>
        (\<exists>err. event_envelope raw = Inl err))"
proof (intro conjI allI impI)
  fix e assume e: "event_envelope raw = Inr e"
  then show "event_wf e" "event_envelope (raw_of e) = Inr e" "event_id e = event_id raw"
    "stream_id e = stream_id raw" "stream_sequence e = stream_sequence raw"
    using event_envelope_wf event_envelope_raw_of event_envelope_fields by auto
  show "freeze_payload (payload raw) = Inr (payload e)"
    using e by (auto simp: event_envelope_def ebind_eq_Inr split: if_splits)
next
  fix p assume p: "freeze_payload (payload raw) = Inr p" "payload_hash raw \<noteq> json_digest (JObj p)"
  show "\<exists>err. event_envelope raw = Inl err"
  proof (cases "event_envelope raw")
    case (Inr e)
    then have "freeze_payload (payload raw) = Inr (payload e)"
      "payload_hash raw = json_digest (JObj (payload e))"
      by (auto simp: event_envelope_def ebind_eq_Inr split: if_splits)
    with p show ?thesis by simp
  qed simp
qed

theorem event_envelope_correct_witness:
  "\<exists>err. event_envelope \<lparr>event_id = ''e'', stream_id = ''s'', stream_sequence = 1,
      event_type = ''t'', schema_version = 1, recorded_at = utc 0, effective_at = utc 0,
      correlation_id = ''c'', causation_id = None, actor = ''a'', source = ''s'',
      payload = PyDict [], payload_hash = [], idempotency_key = None, global_position = None\<rparr>
    = Inl err"
proof -
  have "[] \<noteq> json_digest (JObj [])" by (simp add: json_digest_def bytes_digest_def)
  moreover have "freeze_payload (PyDict []) = Inr []" by (simp add: freeze_payload_def)
  ultimately show ?thesis
    using event_envelope_correct[of "\<lparr>event_id = ''e'', stream_id = ''s'', stream_sequence = 1,
      event_type = ''t'', schema_version = 1, recorded_at = utc 0, effective_at = utc 0,
      correlation_id = ''c'', causation_id = None, actor = ''a'', source = ''s'',
      payload = PyDict [], payload_hash = [], idempotency_key = None, global_position = None\<rparr>"]
    by auto
qed

end
