(* ===== verification/Store.thy ===== *)
theory Store
  imports Events
begin

text \<open>
  \<open>kernel/store.py\<close> over the tables of \<open>kernel/database.py\<close>: the append-only event ledger with
  optimistic per-stream concurrency and idempotent retries.

  The database is the pair of tables the store touches: \<open>event_streams\<close> as a map, and
  \<open>kernel_events\<close> as its rows in insertion order, with SQLite's autoincrement counter. A row
  holds the envelope its text columns decode to, payload keys in the sorted order the canonical
  JSON column stores them in. A transaction is a function from the database to an error (the
  caller rolls back, so the database is unchanged) or to a result and the next database.
\<close>

record event_row =
  row_event :: event
  row_idempotency_hash :: "string option"

record database =
  event_streams :: "string \<rightharpoonup> int"
  kernel_events :: "event_row list"
  autoincrement :: int

definition empty_database :: database where
  "empty_database = \<lparr>event_streams = Map.empty, kernel_events = [], autoincrement = 0\<rparr>"

type_synonym 'a tx = "kernel_error + 'a \<times> database"

section \<open>Rows\<close>

definition norm_object :: "jobject \<Rightarrow> jobject" where
  "norm_object p = (case norm_json (JObj p) of JObj q \<Rightarrow> q | _ \<Rightarrow> p)"

text \<open>\<open>_event_from_row\<close>: decoding a row runs the validating constructor again.\<close>

definition event_from_row :: "event_row \<Rightarrow> kernel_error + event" where
  "event_from_row row = event_envelope (raw_of (row_event row))"

definition current_sequence :: "database \<Rightarrow> string \<Rightarrow> int" where
  "current_sequence db s = (case event_streams db s of None \<Rightarrow> 0 | Some n \<Rightarrow> n)"

text \<open>\<open>_idempotent_event\<close>: the stored occurrence of the candidate's key, if there is one.\<close>

definition idempotent_event :: "database \<Rightarrow> event \<Rightarrow> kernel_error + event option" where
  "idempotent_event db e =
     (case idempotency_key e of None \<Rightarrow> Inr None
      | Some k \<Rightarrow>
        (case find (\<lambda>r. stream_id (row_event r) = stream_id e
                     \<and> idempotency_key (row_event r) = Some k) (kernel_events db) of
           None \<Rightarrow> Inr None
         | Some r \<Rightarrow>
            if row_idempotency_hash r \<noteq> Some (idempotency_hash e) then Inl IdempotencyConflict
            else ebind (event_from_row r) (\<lambda>ev. Inr (Some ev))))"

section \<open>Validation of a batch\<close>

record connection =
  conn_in_transaction :: bool
  conn_foreign_keys :: bool
  conn_main_path :: "string option"

definition validate_transaction_connection ::
    "string \<Rightarrow> connection \<Rightarrow> kernel_error + unit" where
  "validate_transaction_connection path conn =
     ebind (check (RuntimeError ''transaction'') (conn_in_transaction conn)) (\<lambda>_.
     ebind (check (RuntimeError ''foreign keys'') (conn_foreign_keys conn)) (\<lambda>_.
     check (ValueError ''connection'') (conn_main_path conn = Some path)))"

definition batch_streams :: "event list \<Rightarrow> string list" where
  "batch_streams batch = remdups (map stream_id batch)"

definition validate_append_request ::
    "event list \<Rightarrow> (string \<rightharpoonup> int) \<Rightarrow> kernel_error + string list" where
  "validate_append_request batch expected =
     (let streams = batch_streams batch in
      ebind (check (ValueError ''expected_sequences is missing streams'')
               (list_all (\<lambda>s. expected s \<noteq> None) streams)) (\<lambda>_.
      ebind (check (ValueError ''expected sequence must be non-negative'')
               (list_all (\<lambda>s. 0 \<le> the (expected s)) streams)) (\<lambda>_.
      Inr streams)))"

text \<open>A complete retry must list the stored events of each stream consecutively.\<close>

fun validate_existing_order ::
    "(string \<rightharpoonup> int) \<Rightarrow> event list \<Rightarrow> kernel_error + unit" where
  "validate_existing_order seen [] = Inr ()"
| "validate_existing_order seen (e # es) =
     (case seen (stream_id e) of
        Some p \<Rightarrow>
          if stream_sequence e \<noteq> p + 1 then Inl EventSequenceError
          else validate_existing_order (seen(stream_id e \<mapsto> stream_sequence e)) es
      | None \<Rightarrow> validate_existing_order (seen(stream_id e \<mapsto> stream_sequence e)) es)"

text \<open>The stored occurrences of a stream's batch must form a prefix of it.\<close>

fun committed_prefix :: "bool \<Rightarrow> (event \<times> event option) list \<Rightarrow> int option" where
  "committed_prefix new [] = Some 0"
| "committed_prefix new ((c, Some st) # es) =
     (if new then None else map_option (\<lambda>n. n + 1) (committed_prefix False es))"
| "committed_prefix new ((c, None) # es) = committed_prefix True es"

fun validate_offsets ::
    "string \<Rightarrow> int \<Rightarrow> int \<Rightarrow> int \<Rightarrow> (event \<times> event option) list \<Rightarrow> kernel_error + unit" where
  "validate_offsets s expected actual offset [] = Inr ()"
| "validate_offsets s expected actual offset ((c, st) # es) =
     (let required = expected + offset in
      case st of
        Some e \<Rightarrow>
          if stream_sequence e \<noteq> required then Inl (ConcurrencyError s expected actual)
          else validate_offsets s expected actual (offset + 1) es
      | None \<Rightarrow>
          if stream_sequence c \<noteq> required then Inl EventSequenceError
          else validate_offsets s expected actual (offset + 1) es)"

definition validate_batch_stream ::
    "string \<Rightarrow> (event \<times> event option) list \<Rightarrow> int \<Rightarrow> int \<Rightarrow> kernel_error + int" where
  "validate_batch_stream s es expected actual =
     (case committed_prefix False es of
        None \<Rightarrow> Inl (ConcurrencyError s expected actual)
      | Some committed \<Rightarrow>
          if actual \<noteq> expected + committed
          then Inl (ConcurrencyError s (expected + committed) actual)
          else ebind (validate_offsets s expected actual 1 es) (\<lambda>_. Inr committed))"

section \<open>Appending\<close>

text \<open>\<open>_insert_event\<close>: the constraints of the \<open>kernel_events\<close> table, then the new row. A foreign
  key is checked after the statement, so an event may name itself as its cause.\<close>

definition insert_allowed :: "database \<Rightarrow> event \<Rightarrow> bool" where
  "insert_allowed db e \<longleftrightarrow>
     (let rows = map row_event (kernel_events db) in
      list_all (\<lambda>r. event_id r \<noteq> event_id e) rows
      \<and> list_all (\<lambda>r. \<not> (stream_id r = stream_id e \<and> stream_sequence r = stream_sequence e)) rows
      \<and> (idempotency_key e = None
         \<or> list_all (\<lambda>r. \<not> (stream_id r = stream_id e \<and> idempotency_key r = idempotency_key e)) rows)
      \<and> event_streams db (stream_id e) \<noteq> None
      \<and> (case causation_id e of None \<Rightarrow> True
         | Some c \<Rightarrow> c = event_id e \<or> list_ex (\<lambda>r. event_id r = c) rows))"

definition insert_event :: "event \<Rightarrow> database \<Rightarrow> event tx" where
  "insert_event e db =
     (if insert_allowed db e
      then (let pos = autoincrement db + 1; stored = e\<lparr>global_position := Some pos\<rparr>;
                row = \<lparr>row_event = stored\<lparr>payload := norm_object (payload stored)\<rparr>,
                       row_idempotency_hash =
                         (if idempotency_key e = None then None else Some (idempotency_hash e))\<rparr>
            in Inr (stored, db\<lparr>kernel_events := kernel_events db @ [row], autoincrement := pos\<rparr>))
      else Inl EventConflictError)"

fun insert_events :: "(event \<times> event option) list \<Rightarrow> database \<Rightarrow> event list tx" where
  "insert_events [] db = Inr ([], db)"
| "insert_events ((c, Some st) # es) db =
     ebind (insert_events es db) (\<lambda>(out, db'). Inr (st # out, db'))"
| "insert_events ((c, None) # es) db =
     ebind (insert_event c db) (\<lambda>(st, db1).
     ebind (insert_events es db1) (\<lambda>(out, db'). Inr (st # out, db')))"

definition stream_group :: "(event \<times> event option) list \<Rightarrow> string \<Rightarrow> (event \<times> event option) list" where
  "stream_group pairs s = filter (\<lambda>p. stream_id (fst p) = s) pairs"

text \<open>The validation loop over the streams of the batch; a stream that is not in the table yet
  gets its row. The result lists each stream with its sequence before the batch and the length of
  its committed prefix.\<close>

fun validate_streams ::
    "(string \<rightharpoonup> int) \<Rightarrow> (event \<times> event option) list \<Rightarrow> string list \<Rightarrow> database
     \<Rightarrow> (string \<times> int \<times> int) list tx" where
  "validate_streams expected pairs [] db = Inr ([], db)"
| "validate_streams expected pairs (s # ss) db =
     (let actual = current_sequence db s in
      ebind (validate_batch_stream s (stream_group pairs s) (the (expected s)) actual) (\<lambda>committed.
      ebind (if actual \<noteq> 0 then Inr db
             else if event_streams db s = None
             then Inr (db\<lparr>event_streams := (event_streams db)(s \<mapsto> 0)\<rparr>)
             else Inl (RuntimeError ''UNIQUE constraint failed: event_streams.stream_id'')) (\<lambda>db1.
      ebind (validate_streams expected pairs ss db1) (\<lambda>(rest, db2).
      Inr ((s, actual, committed) # rest, db2)))))"

fun update_streams ::
    "(event \<times> event option) list \<Rightarrow> (string \<times> int \<times> int) list \<Rightarrow> database \<Rightarrow> unit tx" where
  "update_streams pairs [] db = Inr ((), db)"
| "update_streams pairs ((s, previous, committed) # rest) db =
     (let new_count = int (length (stream_group pairs s)) - committed in
      if new_count = 0 then update_streams pairs rest db
      else if event_streams db s = Some previous
      then update_streams pairs rest
             (db\<lparr>event_streams := (event_streams db)(s \<mapsto> previous + new_count)\<rparr>)
      else Inl (ConcurrencyError s previous (current_sequence db s)))"

definition append_many_in_transaction ::
    "string \<Rightarrow> connection \<Rightarrow> event list \<Rightarrow> (string \<rightharpoonup> int) \<Rightarrow> database \<Rightarrow> event list tx" where
  "append_many_in_transaction path conn batch expected db =
     ebind (validate_transaction_connection path conn) (\<lambda>_.
     if batch = [] then Inr ([], db)
     else
     ebind (validate_append_request batch expected) (\<lambda>streams.
     ebind (etraverse (idempotent_event db) batch) (\<lambda>existing.
     if list_all (\<lambda>x. x \<noteq> None) existing
     then ebind (validate_existing_order Map.empty (map the existing)) (\<lambda>_.
          Inr (map the existing, db))
     else
     let pairs = zip batch existing in
     ebind (validate_streams expected pairs streams db) (\<lambda>(grouped, db1).
     ebind (insert_events pairs db1) (\<lambda>(appended, db2).
     ebind (update_streams pairs grouped db2) (\<lambda>(_, db3).
     Inr (appended, db3)))))))"

text \<open>\<open>append_many\<close> opens its own transaction and rolls back on any error.\<close>

definition own_connection :: "string \<Rightarrow> connection" where
  "own_connection path =
     \<lparr>conn_in_transaction = True, conn_foreign_keys = True, conn_main_path = Some path\<rparr>"

definition append_many ::
    "string \<Rightarrow> event list \<Rightarrow> (string \<rightharpoonup> int) \<Rightarrow> database \<Rightarrow> (kernel_error + event list) \<times> database" where
  "append_many path batch expected db =
     (if batch = [] then (Inr [], db)
      else case append_many_in_transaction path (own_connection path) batch expected db of
             Inl e \<Rightarrow> (Inl e, db)
           | Inr (appended, db') \<Rightarrow> (Inr appended, db'))"

definition append ::
    "string \<Rightarrow> event \<Rightarrow> int \<Rightarrow> database \<Rightarrow> (kernel_error + event) \<times> database" where
  "append path e expected db =
     (let (r, db') = append_many path [e] [stream_id e \<mapsto> expected] db
      in (ebind r (\<lambda>es. Inr (hd es)), db'))"

section \<open>Reading\<close>

definition validate_cursor :: "int \<Rightarrow> int option \<Rightarrow> kernel_error + unit" where
  "validate_cursor cursor limit =
     ebind (check (ValueError ''cursor'') (0 \<le> cursor)) (\<lambda>_.
     check (ValueError ''limit'') (case limit of None \<Rightarrow> True | Some n \<Rightarrow> 1 \<le> n))"

definition limit_rows :: "int option \<Rightarrow> 'a list \<Rightarrow> 'a list" where
  "limit_rows limit rows = (case limit of None \<Rightarrow> rows | Some n \<Rightarrow> take (nat n) rows)"

definition row_position :: "event_row \<Rightarrow> int" where
  "row_position r = (case global_position (row_event r) of None \<Rightarrow> 0 | Some g \<Rightarrow> g)"

definition get_event :: "database \<Rightarrow> string \<Rightarrow> kernel_error + event option" where
  "get_event db i =
     (case find (\<lambda>r. event_id (row_event r) = i) (kernel_events db) of
        None \<Rightarrow> Inr None | Some r \<Rightarrow> ebind (event_from_row r) (\<lambda>e. Inr (Some e)))"

definition read_stream ::
    "database \<Rightarrow> string \<Rightarrow> int \<Rightarrow> int option \<Rightarrow> int option \<Rightarrow> kernel_error + event list" where
  "read_stream db s after_sequence through_position limit =
     ebind (validate_cursor after_sequence limit) (\<lambda>_.
     ebind (case through_position of None \<Rightarrow> Inr () | Some p \<Rightarrow> validate_cursor p None) (\<lambda>_.
     let rows = filter (\<lambda>r. stream_id (row_event r) = s
                   \<and> after_sequence < stream_sequence (row_event r)
                   \<and> (case through_position of None \<Rightarrow> True | Some p \<Rightarrow> row_position r \<le> p))
                  (kernel_events db)
     in etraverse event_from_row
          (limit_rows limit (sort_key (\<lambda>r. stream_sequence (row_event r)) rows))))"

definition read_all :: "database \<Rightarrow> int \<Rightarrow> int option \<Rightarrow> kernel_error + event list" where
  "read_all db after_position limit =
     ebind (validate_cursor after_position limit) (\<lambda>_.
     etraverse event_from_row
       (limit_rows limit (sort_key row_position
          (filter (\<lambda>r. after_position < row_position r) (kernel_events db)))))"

definition read_type_descending ::
    "database \<Rightarrow> string \<Rightarrow> int \<Rightarrow> int \<Rightarrow> kernel_error + event list" where
  "read_type_descending db ty through_position limit =
     ebind (check (ValueError ''event_type'') (ty \<noteq> [])) (\<lambda>_.
     ebind (validate_cursor through_position (Some limit)) (\<lambda>_.
     etraverse event_from_row
       (limit_rows (Some limit) (rev (sort_key row_position
          (filter (\<lambda>r. event_type (row_event r) = ty \<and> row_position r \<le> through_position)
             (kernel_events db)))))))"

definition current_position :: "database \<Rightarrow> int" where
  "current_position db = foldr max (map row_position (kernel_events db)) 0"

definition store_length :: "database \<Rightarrow> nat" where
  "store_length db = length (kernel_events db)"

end
