(* ===== verification/StoreFacts.thy ===== *)
theory StoreFacts
  imports Store
begin

text \<open>
  Correctness of the event ledger: the invariant every committed transaction keeps
  (gap-free global positions and stream sequences, unique identifiers and idempotency keys,
  causes that precede their effects), the refinement of a stream to the list of its events, the
  idempotent retry and the optimistic concurrency check.
\<close>

section \<open>The invariant\<close>

definition ledger_events :: "database \<Rightarrow> event list" where
  "ledger_events db = map row_event (kernel_events db)"

text \<open>The abstract view of a stream: its events in append order.\<close>

definition stream_view :: "database \<Rightarrow> string \<Rightarrow> event list" where
  "stream_view db s = filter (\<lambda>e. stream_id e = s) (ledger_events db)"

definition keyed :: "event list \<Rightarrow> (string \<times> string option) list" where
  "keyed es = map (\<lambda>e. (stream_id e, idempotency_key e)) (filter (\<lambda>e. idempotency_key e \<noteq> None) es)"

fun causes_precede :: "string set \<Rightarrow> event list \<Rightarrow> bool" where
  "causes_precede seen [] = True"
| "causes_precede seen (e # es) =
     ((case causation_id e of None \<Rightarrow> True | Some c \<Rightarrow> c = event_id e \<or> c \<in> seen)
      \<and> causes_precede (insert (event_id e) seen) es)"

definition row_ok :: "event_row \<Rightarrow> bool" where
  "row_ok r \<longleftrightarrow> event_wf (row_event r) \<and> norm_object (payload (row_event r)) = payload (row_event r)
     \<and> row_idempotency_hash r =
         (if idempotency_key (row_event r) = None then None else Some (idempotency_hash (row_event r)))"

definition rows_inv :: "database \<Rightarrow> bool" where
  "rows_inv db \<longleftrightarrow>
     autoincrement db = int (length (kernel_events db))
     \<and> map (\<lambda>r. global_position (row_event r)) (kernel_events db)
         = map (\<lambda>i. Some (int (Suc i))) [0..<length (kernel_events db)]
     \<and> (\<forall>r \<in> set (kernel_events db). row_ok r)
     \<and> distinct (map event_id (ledger_events db))
     \<and> distinct (keyed (ledger_events db))
     \<and> causes_precede {} (ledger_events db)"

definition streams_inv :: "database \<Rightarrow> bool" where
  "streams_inv db \<longleftrightarrow>
     (\<forall>s. map stream_sequence (stream_view db s) = map int [1..<Suc (length (stream_view db s))]
        \<and> event_streams db s =
            (if stream_view db s = [] then None else Some (int (length (stream_view db s)))))"

definition store_inv :: "database \<Rightarrow> bool" where
  "store_inv db \<longleftrightarrow> rows_inv db \<and> streams_inv db"

lemma store_inv_empty: "store_inv empty_database"
  by (simp add: store_inv_def rows_inv_def streams_inv_def empty_database_def stream_view_def
      ledger_events_def keyed_def)

lemma current_sequence_view:
  "store_inv db \<Longrightarrow> current_sequence db s = int (length (stream_view db s))"
  by (auto simp: store_inv_def streams_inv_def current_sequence_def split: option.splits if_splits)

section \<open>Inserting rows\<close>

definition stamp :: "int \<Rightarrow> event \<Rightarrow> event_row" where
  "stamp n e = \<lparr>row_event = e\<lparr>global_position := Some n, payload := norm_object (payload e)\<rparr>,
     row_idempotency_hash = (if idempotency_key e = None then None else Some (idempotency_hash e))\<rparr>"

fun stamp_all :: "int \<Rightarrow> event list \<Rightarrow> event_row list" where
  "stamp_all n [] = []"
| "stamp_all n (e # es) = stamp n e # stamp_all (n + 1) es"

definition new_events :: "(event \<times> event option) list \<Rightarrow> event list" where
  "new_events pairs = map fst (filter (\<lambda>p. snd p = None) pairs)"

lemma stamp_fields [simp]:
  "event_id (row_event (stamp n e)) = event_id e"
  "stream_id (row_event (stamp n e)) = stream_id e"
  "stream_sequence (row_event (stamp n e)) = stream_sequence e"
  "idempotency_key (row_event (stamp n e)) = idempotency_key e"
  "causation_id (row_event (stamp n e)) = causation_id e"
  "global_position (row_event (stamp n e)) = Some n"
  by (simp_all add: stamp_def)

lemma length_stamp_all [simp]: "length (stamp_all n es) = length es"
  by (induction es arbitrary: n) auto

definition with_row :: "database \<Rightarrow> event \<Rightarrow> database" where
  "with_row db e = db\<lparr>kernel_events := kernel_events db @ [stamp (autoincrement db + 1) e],
     autoincrement := autoincrement db + 1\<rparr>"

lemma with_row_simps [simp]:
  "kernel_events (with_row db e) = kernel_events db @ [stamp (autoincrement db + 1) e]"
  "event_streams (with_row db e) = event_streams db"
  "autoincrement (with_row db e) = autoincrement db + 1"
  by (simp_all add: with_row_def)

lemma insert_event_Inr:
  "insert_event e db = Inr (st, db') \<longleftrightarrow>
     insert_allowed db e \<and> st = e\<lparr>global_position := Some (autoincrement db + 1)\<rparr>
     \<and> db' = with_row db e"
  by (auto simp: insert_event_def Let_def stamp_def with_row_def)

lemma insert_events_stored:
  "insert_events ((c, Some st) # es) db = Inr (out, db') \<longleftrightarrow>
     (\<exists>out'. insert_events es db = Inr (out', db') \<and> out = st # out')"
  by (auto simp: ebind_eq_Inr)

lemma insert_events_new:
  "insert_events ((c, None) # es) db = Inr (out, db') \<longleftrightarrow> insert_allowed db c \<and>
     (\<exists>out'. insert_events es (with_row db c) = Inr (out', db')
        \<and> out = c\<lparr>global_position := Some (autoincrement db + 1)\<rparr> # out')"
  by (auto simp: ebind_eq_Inr insert_event_Inr)

lemmas insert_events_elims = insert_events_stored insert_events_new

lemma JObj_norm_object: "JObj (norm_object p) = norm_json (JObj p)"
  by (simp add: norm_object_def)

lemma json_digest_norm_object: "json_digest (JObj (norm_object p)) = json_digest (JObj p)"
  by (simp add: JObj_norm_object json_digest_def json_bytes_def dumps_norm
      del: norm_json.simps)

lemma norm_json_idem: "norm_json (norm_json j) = norm_json j"
proof (induction j rule: json_induct)
  case (JObj kvs)
  then show ?case by (simp add: sort_key_fst_map sort_key_id_if_sorted comp_def)
qed simp_all

lemma norm_object_idem: "norm_object (norm_object p) = norm_object p"
proof -
  have "JObj (norm_object (norm_object p)) = norm_json (norm_json (JObj p))"
    by (simp only: JObj_norm_object)
  also have "\<dots> = JObj (norm_object p)" by (simp only: norm_json_idem JObj_norm_object)
  finally show ?thesis by simp
qed

lemma row_ok_stamp: "event_wf e \<Longrightarrow> 1 \<le> n \<Longrightarrow> row_ok (stamp n e)"
  by (auto simp: row_ok_def stamp_def event_wf_def json_digest_norm_object norm_object_idem
      idempotency_hash_def idempotency_content_def)

lemma causes_precede_append:
  "causes_precede seen (es @ [e]) \<longleftrightarrow> causes_precede seen es \<and>
     (case causation_id e of None \<Rightarrow> True
      | Some c \<Rightarrow> c = event_id e \<or> c \<in> seen \<or> c \<in> event_id ` set es)"
  by (induction es arbitrary: seen) (auto split: option.splits)

lemma keyed_append: "keyed (es @ fs) = keyed es @ keyed fs"
  by (simp add: keyed_def)

lemma rows_inv_insert:
  assumes inv: "rows_inv db" and wf: "event_wf e" and allowed: "insert_allowed db e"
  shows "rows_inv (with_row db e)"
proof -
  let ?r = "row_event (stamp (autoincrement db + 1) e)"
  have pos: "1 \<le> autoincrement db + 1" using inv by (simp add: rows_inv_def)
  have ids: "event_id e \<notin> set (map event_id (ledger_events db))"
    using allowed by (auto simp: insert_allowed_def Let_def list_all_iff ledger_events_def)
  have keys: "distinct (keyed (ledger_events db) @ keyed [?r])"
    using allowed inv
    by (auto simp: insert_allowed_def Let_def list_all_iff ledger_events_def keyed_def rows_inv_def)
  have cause: "case causation_id ?r of None \<Rightarrow> True
      | Some c \<Rightarrow> c = event_id ?r \<or> c \<in> {} \<or> c \<in> event_id ` set (ledger_events db)"
    using allowed
    by (auto simp: insert_allowed_def Let_def list_ex_iff ledger_events_def split: option.splits)
  have events: "ledger_events (with_row db e) = ledger_events db @ [?r]"
    by (simp add: ledger_events_def)
  have "map (\<lambda>r. global_position (row_event r)) (kernel_events (with_row db e))
      = map (\<lambda>i. Some (int (Suc i))) [0..<length (kernel_events (with_row db e))]"
    using inv by (simp add: rows_inv_def)
  moreover have "\<forall>r \<in> set (kernel_events (with_row db e)). row_ok r"
    using inv row_ok_stamp[OF wf pos] by (auto simp: rows_inv_def)
  moreover have "causes_precede {} (ledger_events (with_row db e))"
    unfolding events causes_precede_append using inv cause by (simp add: rows_inv_def)
  ultimately show ?thesis
    using inv ids keys unfolding rows_inv_def events keyed_append by simp
qed

lemma insert_events_Inr:
  assumes "insert_events pairs db = Inr (out, db')"
  shows "kernel_events db' = kernel_events db @ stamp_all (autoincrement db + 1) (new_events pairs)
    \<and> event_streams db' = event_streams db"
  using assms
proof (induction pairs arbitrary: db out)
  case (Cons p es)
  obtain c st where "p = (c, st)" by fastforce
  with Cons show ?case
    by (cases st) (fastforce simp: insert_events_elims new_events_def simp del: insert_events.simps)+
qed (simp add: new_events_def)

lemma insert_events_out:
  assumes "insert_events pairs db = Inr (out, db')"
  shows "list_all2 (\<lambda>p o1. case snd p of Some st \<Rightarrow> o1 = st
         | None \<Rightarrow> \<exists>n. o1 = (fst p)\<lparr>global_position := Some n\<rparr>) pairs out"
  using assms
proof (induction pairs arbitrary: db out)
  case (Cons p es)
  obtain c st where "p = (c, st)" by fastforce
  with Cons show ?case
    by (cases st) (auto simp: insert_events_elims simp del: insert_events.simps)
qed simp

lemma insert_events_rows_inv:
  assumes "insert_events pairs db = Inr (out, db')" "rows_inv db"
    and "\<forall>p \<in> set pairs. event_wf (fst p)"
  shows "rows_inv db'"
  using assms
proof (induction pairs arbitrary: db out)
  case (Cons p es)
  obtain c st where p: "p = (c, st)" by fastforce
  show ?case
  proof (cases st)
    case None
    with Cons.prems p obtain out' where "insert_allowed db c"
      "insert_events es (with_row db c) = Inr (out', db')"
      by (auto simp: insert_events_elims simp del: insert_events.simps)
    with Cons.IH[of "with_row db c" out'] Cons.prems p rows_inv_insert[of db c] show ?thesis
      by simp
  next
    case (Some e)
    with Cons.prems p obtain out' where "insert_events es db = Inr (out', db')"
      by (auto simp: insert_events_elims simp del: insert_events.simps)
    with Cons.IH Cons.prems show ?thesis by simp
  qed
qed simp

section \<open>Validating and updating streams\<close>

lemma validate_streams_Inr:
  assumes "validate_streams expected pairs ss db = Inr (grouped, db')" and "distinct ss"
  shows "kernel_events db' = kernel_events db \<and> autoincrement db' = autoincrement db
    \<and> map fst grouped = ss
    \<and> (\<forall>(s, a, k) \<in> set grouped. a = current_sequence db s
         \<and> validate_batch_stream s (stream_group pairs s) (the (expected s)) a = Inr k
         \<and> (a = 0 \<longrightarrow> event_streams db s = None))
    \<and> (\<forall>s. event_streams db' s =
         (if s \<in> set ss \<and> current_sequence db s = 0 then Some 0 else event_streams db s))"
  using assms
proof (induction ss arbitrary: db grouped)
  case (Cons s ss)
  let ?a = "current_sequence db s"
  obtain k db1 rest where
    k: "validate_batch_stream s (stream_group pairs s) (the (expected s)) ?a = Inr k"
    and db1: "(if ?a \<noteq> 0 then Inr db
             else if event_streams db s = None
             then Inr (db\<lparr>event_streams := (event_streams db)(s \<mapsto> 0)\<rparr>)
             else Inl (RuntimeError ''UNIQUE constraint failed: event_streams.stream_id'')) = Inr db1"
    and rest: "validate_streams expected pairs ss db1 = Inr (rest, db')"
    and grouped: "grouped = (s, ?a, k) # rest"
    using Cons.prems(1) by (auto simp: ebind_eq_Inr Let_def)
  have cur: "current_sequence db1 t = current_sequence db t" for t
    using db1 by (auto simp: current_sequence_def split: if_splits option.splits)
  have es: "event_streams db1 t = (if t = s \<and> ?a = 0 then Some 0 else event_streams db t)" for t
    using db1 by (auto split: if_splits)
  have rows: "kernel_events db1 = kernel_events db" "autoincrement db1 = autoincrement db"
    using db1 by (auto split: if_splits)
  have zero: "?a = 0 \<longrightarrow> event_streams db s = None" using db1 by (auto split: if_splits)
  from Cons.IH[OF rest] Cons.prems(2) have ih: "kernel_events db' = kernel_events db1"
    "autoincrement db' = autoincrement db1" "map fst rest = ss"
    "\<forall>(s, a, k) \<in> set rest. a = current_sequence db1 s
         \<and> validate_batch_stream s (stream_group pairs s) (the (expected s)) a = Inr k
         \<and> (a = 0 \<longrightarrow> event_streams db1 s = None)"
    "\<forall>s. event_streams db' s =
         (if s \<in> set ss \<and> current_sequence db1 s = 0 then Some 0 else event_streams db1 s)"
    by auto
  have "\<forall>(t, a, k) \<in> set rest. t \<noteq> s"
    using ih(3) Cons.prems(2) by force
  with ih(4) es cur have "\<forall>(t, a, k) \<in> set rest. a = current_sequence db t
         \<and> validate_batch_stream t (stream_group pairs t) (the (expected t)) a = Inr k
         \<and> (a = 0 \<longrightarrow> event_streams db t = None)"
    by fastforce
  with ih rows grouped k zero es cur show ?case by auto
qed simp

lemma update_streams_Inr:
  assumes "update_streams pairs grouped db = Inr (u, db')" "distinct (map fst grouped)"
  shows "kernel_events db' = kernel_events db \<and> autoincrement db' = autoincrement db
    \<and> (\<forall>s. s \<notin> fst ` set grouped \<longrightarrow> event_streams db' s = event_streams db s)
    \<and> (\<forall>(s, p, k) \<in> set grouped. event_streams db' s =
         (let n = int (length (stream_group pairs s)) - k
          in if n = 0 then event_streams db s else Some (p + n)))"
  using assms
proof (induction grouped arbitrary: db)
  case (Cons g rest)
  obtain s p k where g: "g = (s, p, k)" by (cases g)
  let ?n = "int (length (stream_group pairs s)) - k"
  define db1 where "db1 = (if ?n = 0 then db
      else db\<lparr>event_streams := (event_streams db)(s \<mapsto> p + ?n)\<rparr>)"
  have step: "update_streams pairs rest db1 = Inr (u, db')"
    using Cons.prems(1) g by (auto simp: Let_def db1_def split: if_splits)
  have s: "s \<notin> fst ` set rest" using Cons.prems(2) g by simp
  have other: "event_streams db1 t = event_streams db t" if "t \<noteq> s" for t
    using that by (simp add: db1_def)
  from Cons.IH[OF step] Cons.prems(2) have ih: "kernel_events db' = kernel_events db1"
    "autoincrement db' = autoincrement db1"
    "\<forall>t. t \<notin> fst ` set rest \<longrightarrow> event_streams db' t = event_streams db1 t"
    "\<forall>(t, p, k) \<in> set rest. event_streams db' t =
         (let n = int (length (stream_group pairs t)) - k
          in if n = 0 then event_streams db1 t else Some (p + n))"
    by auto
  have rest: "\<forall>(t, p, k) \<in> set rest. event_streams db' t =
         (let n = int (length (stream_group pairs t)) - k
          in if n = 0 then event_streams db t else Some (p + n))"
  proof
    fix x assume x: "x \<in> set rest"
    then have "fst x \<noteq> s" using s by auto
    with bspec[OF ih(4) x] show "case x of (t, p, k) \<Rightarrow> event_streams db' t =
         (let n = int (length (stream_group pairs t)) - k
          in if n = 0 then event_streams db t else Some (p + n))"
      by (cases x) (simp add: other)
  qed
  have "event_streams db' s = (if ?n = 0 then event_streams db s else Some (p + ?n))"
    using ih(3) s by (simp add: db1_def)
  moreover have "kernel_events db1 = kernel_events db" "autoincrement db1 = autoincrement db"
    by (simp_all add: db1_def)
  moreover have "\<forall>t. t \<notin> fst ` set (g # rest) \<longrightarrow> event_streams db' t = event_streams db t"
    using ih(3) other g by simp
  ultimately show ?case using ih(1,2) rest g by (simp add: Let_def)
qed simp

section \<open>One batch\<close>

lemma committed_prefix_Some:
  assumes "committed_prefix new g = Some k"
  shows "\<exists>g1 g2. g = g1 @ g2 \<and> int (length g1) = k \<and> (\<forall>p \<in> set g1. snd p \<noteq> None)
    \<and> (\<forall>p \<in> set g2. snd p = None) \<and> (new \<longrightarrow> g1 = [])"
  using assms
proof (induction new g arbitrary: k rule: committed_prefix.induct)
  case (2 new c st es)
  then obtain n where "\<not> new" "committed_prefix False es = Some n" "k = n + 1"
    by (auto split: if_splits)
  with 2 obtain g1 g2 where "es = g1 @ g2" "int (length g1) = n" "\<forall>p \<in> set g1. snd p \<noteq> None"
    "\<forall>p \<in> set g2. snd p = None" by auto
  with \<open>\<not> new\<close> \<open>k = n + 1\<close> show ?case
    by (intro exI[of _ "(c, Some st) # g1"] exI[of _ g2]) auto
next
  case (3 new c es)
  then obtain g2 where "es = g2" "k = 0" "\<forall>p \<in> set g2. snd p = None" by auto
  then show ?case by (intro exI[of _ "[]"] exI[of _ "(c, None) # g2"]) auto
qed simp

lemma validate_offsets_new:
  assumes "validate_offsets s ex a off (g1 @ g2) = Inr u" "\<forall>p \<in> set g2. snd p = None"
  shows "map (\<lambda>p. stream_sequence (fst p)) g2
    = map (\<lambda>i. ex + off + int (length g1) + int i) [0..<length g2]"
  using assms
proof (induction g1 arbitrary: off)
  case Nil
  then show ?case
  proof (induction g2 arbitrary: off)
    case (Cons p g2)
    obtain c st where p: "p = (c, st)" by fastforce
    with Cons.prems have st: "st = None" "stream_sequence c = ex + off"
      "validate_offsets s ex a (off + 1) g2 = Inr u" by (auto simp: Let_def split: if_splits)
    with Cons have ih: "map (\<lambda>p. stream_sequence (fst p)) g2
        = map (\<lambda>i. ex + (off + 1) + int i) [0..<length g2]" by simp
    show ?case
      by (simp add: p st ih map_upt_Suc del: upt_Suc)
  qed simp
next
  case (Cons p g1)
  obtain c st where p: "p = (c, st)" by fastforce
  with Cons.prems have "validate_offsets s ex a (off + 1) (g1 @ g2) = Inr u"
    by (auto simp: Let_def split: if_splits option.splits)
  from Cons.IH[OF this Cons.prems(2)] show ?case by (simp add: algebra_simps)
qed

lemma new_events_simps [simp]:
  "new_events [] = []"
  "new_events ((c, None) # ps) = c # new_events ps"
  "new_events ((c, Some e) # ps) = new_events ps"
  by (simp_all add: new_events_def)

lemma validate_batch_stream_Inr:
  assumes "validate_batch_stream s g ex a = Inr k"
  shows "0 \<le> k \<and> a = ex + k \<and> int (length (new_events g)) = int (length g) - k
    \<and> map stream_sequence (new_events g) = map (\<lambda>i. a + 1 + int i) [0..<length (new_events g)]"
proof -
  obtain u where k: "committed_prefix False g = Some k" and a: "a = ex + k"
    and v: "validate_offsets s ex a 1 g = Inr u"
    using assms by (auto simp: validate_batch_stream_def ebind_eq_Inr split: option.splits if_splits)
  from committed_prefix_Some[OF k] obtain g1 g2 where g: "g = g1 @ g2" "int (length g1) = k"
    "\<forall>p \<in> set g1. snd p \<noteq> None" "\<forall>p \<in> set g2. snd p = None" by blast
  have new: "new_events g = map fst g2" using g by (auto simp: new_events_def)
  have "map (\<lambda>p. stream_sequence (fst p)) g2
    = map (\<lambda>i. ex + 1 + int (length g1) + int i) [0..<length g2]"
    using validate_offsets_new[of s ex a 1 g1 g2 u] v g by simp
  then show ?thesis unfolding new using g(1,2) a by (simp add: comp_def algebra_simps)
qed

lemma new_events_group:
  "new_events (stream_group pairs s) = filter (\<lambda>e. stream_id e = s) (new_events pairs)"
  by (induction pairs) (auto simp: stream_group_def new_events_def)

lemma stamped_sequences:
  "map stream_sequence (filter (\<lambda>e. stream_id e = s) (map row_event (stamp_all n es)))
     = map stream_sequence (filter (\<lambda>e. stream_id e = s) es)"
  by (induction es arbitrary: n) auto

lemma stamped_length:
  "length (filter (\<lambda>e. stream_id e = s) (map row_event (stamp_all n es)))
     = length (filter (\<lambda>e. stream_id e = s) es)"
  by (induction es arbitrary: n) auto

text \<open>What a successful call did: nothing, an idempotent replay, or a batch of new rows.\<close>

lemma append_in_transaction_cases:
  assumes "append_many_in_transaction path conn batch expected db = Inr (out, db')"
  obtains (empty) "batch = []" "out = []" "db' = db"
  | (replay) existing where "etraverse (idempotent_event db) batch = Inr existing"
      "list_all (\<lambda>x. x \<noteq> None) existing" "out = map the existing" "db' = db"
  | (new) existing pairs grouped db1 db2 where
      "etraverse (idempotent_event db) batch = Inr existing" "pairs = zip batch existing"
      "\<forall>s \<in> set (batch_streams batch). expected s \<noteq> None \<and> 0 \<le> the (expected s)"
      "validate_streams expected pairs (batch_streams batch) db = Inr (grouped, db1)"
      "insert_events pairs db1 = Inr (out, db2)"
      "update_streams pairs grouped db2 = Inr ((), db')"
proof -
  let ?I = "append_many_in_transaction path conn batch expected db = Inr (out, db')"
  show thesis
  proof (cases "batch = []")
    case True
    with assms empty show thesis
      by (auto simp: append_many_in_transaction_def ebind_eq_Inr)
  next
    case False
    with assms obtain streams existing where
      req: "validate_append_request batch expected = Inr streams"
      and ex: "etraverse (idempotent_event db) batch = Inr existing"
      and rest: "(if list_all (\<lambda>x. x \<noteq> None) existing
         then ebind (validate_existing_order Map.empty (map the existing)) (\<lambda>_.
              Inr (map the existing, db))
         else let pairs = zip batch existing in
         ebind (validate_streams expected pairs streams db) (\<lambda>(grouped, db1).
         ebind (insert_events pairs db1) (\<lambda>(appended, db2).
         ebind (update_streams pairs grouped db2) (\<lambda>(_, db3).
         Inr (appended, db3))))) = Inr (out, db')"
      unfolding append_many_in_transaction_def
      by (simp only: if_False) (elim ebind_InrE, rule that)
    have streams: "streams = batch_streams batch"
      "\<forall>s \<in> set (batch_streams batch). expected s \<noteq> None \<and> 0 \<le> the (expected s)"
      using req by (auto simp: validate_append_request_def Let_def list_all_iff split: if_splits)
    show thesis
    proof (cases "list_all (\<lambda>x. x \<noteq> None) existing")
      case True
      with rest ex show thesis by (intro replay[of existing]) (auto simp: ebind_eq_Inr)
    next
      case False
      with rest streams ex show thesis
        by (auto simp: ebind_eq_Inr Let_def intro!: new[of existing "zip batch existing"])
    qed
  qed
qed

lemma zip_traverse:
  assumes "etraverse f batch = Inr existing" "pairs = zip batch existing"
  shows "map fst pairs = batch" "map snd pairs = existing"
  using assms by (auto simp: etraverse_Inr_iff list_all2_lengthD)

lemma distinct_batch_streams [simp]: "distinct (batch_streams batch)"
  by (simp add: batch_streams_def)

lemma set_batch_streams [simp]: "set (batch_streams batch) = stream_id ` set batch"
  by (simp add: batch_streams_def)

lemma new_batch_rows:
  assumes "validate_streams expected pairs (batch_streams batch) db = Inr (grouped, db1)"
    and "insert_events pairs db1 = Inr (out, db2)"
    and "update_streams pairs grouped db2 = Inr ((), db')"
  shows "kernel_events db' = kernel_events db @ stamp_all (autoincrement db + 1) (new_events pairs)"
    and "ledger_events db' =
      ledger_events db @ map row_event (stamp_all (autoincrement db + 1) (new_events pairs))"
proof -
  note v = validate_streams_Inr[OF assms(1) distinct_batch_streams]
  have d: "distinct (map fst grouped)" using v by (simp del: set_batch_streams)
  show "kernel_events db' = kernel_events db @ stamp_all (autoincrement db + 1) (new_events pairs)"
    using v insert_events_Inr[OF assms(2)] update_streams_Inr[OF assms(3) d] by simp
  then show "ledger_events db' =
      ledger_events db @ map row_event (stamp_all (autoincrement db + 1) (new_events pairs))"
    by (simp add: ledger_events_def)
qed

lemma grouped_entry:
  assumes inv: "store_inv db" and s: "s \<in> stream_id ` set batch"
    and v: "validate_streams expected pairs (batch_streams batch) db = Inr (grouped, db1)"
  obtains k where "(s, int (length (stream_view db s)), k) \<in> set grouped"
    "validate_batch_stream s (stream_group pairs s) (the (expected s))
       (int (length (stream_view db s))) = Inr k"
proof -
  note v' = validate_streams_Inr[OF v distinct_batch_streams]
  have "s \<in> fst ` set grouped" using v' s by (metis list.set_map set_batch_streams)
  then obtain a k where e: "(s, a, k) \<in> set grouped" by auto
  with v' have "a = current_sequence db s"
    "validate_batch_stream s (stream_group pairs s) (the (expected s)) a = Inr k" by auto
  with e current_sequence_view[OF inv] that show thesis by simp
qed

lemma new_events_subset: "set (new_events pairs) \<subseteq> set (map fst pairs)"
  by (auto simp: new_events_def)

lemma sequences_append:
  assumes "map f xs = map int [1..<Suc (length xs)]"
    and "map f ys = map (\<lambda>i. int (length xs) + 1 + int i) [0..<length ys]"
  shows "map f (xs @ ys) = map int [1..<Suc (length (xs @ ys))]"
proof -
  have "map int [1..<Suc (n + m)] = map int [1..<Suc n] @ map (\<lambda>i. int n + 1 + int i) [0..<m]"
    for n m :: nat
    by (induction m) auto
  then show ?thesis using assms by simp
qed

lemma new_sequences:
  assumes inv: "store_inv db" and fst: "map fst pairs = batch"
    and v: "validate_streams expected pairs (batch_streams batch) db = Inr (grouped, db1)"
  shows "map stream_sequence (filter (\<lambda>e. stream_id e = s) (new_events pairs))
      = map (\<lambda>i. int (length (stream_view db s)) + 1 + int i)
          [0..<length (filter (\<lambda>e. stream_id e = s) (new_events pairs))]"
proof (cases "s \<in> stream_id ` set batch")
  case True
  from grouped_entry[OF inv this v] obtain k where
    "validate_batch_stream s (stream_group pairs s) (the (expected s))
       (int (length (stream_view db s))) = Inr k" by blast
  from validate_batch_stream_Inr[OF this] show ?thesis by (simp add: new_events_group)
next
  case False
  then have "filter (\<lambda>e. stream_id e = s) (new_events pairs) = []"
    using fst new_events_subset[of pairs] by (auto simp: filter_empty_conv)
  then show ?thesis by simp
qed

lemma new_stream_heads:
  assumes inv: "store_inv db" and ex: "\<forall>s \<in> set (batch_streams batch). 0 \<le> the (expected s)"
    and fst: "map fst pairs = batch"
    and v: "validate_streams expected pairs (batch_streams batch) db = Inr (grouped, db1)"
    and i: "insert_events pairs db1 = Inr (out, db2)"
    and u: "update_streams pairs grouped db2 = Inr ((), db')"
  defines "new s \<equiv> filter (\<lambda>e. stream_id e = s) (new_events pairs)"
  shows "event_streams db' s =
      (if stream_view db s = [] \<and> new s = [] then None
       else Some (int (length (stream_view db s)) + int (length (new s))))"
proof -
  let ?a = "int (length (stream_view db s))"
  note v' = validate_streams_Inr[OF v distinct_batch_streams]
  have d: "distinct (map fst grouped)" using v' by (simp del: set_batch_streams)
  note u' = update_streams_Inr[OF u d]
  have es2: "event_streams db2 = event_streams db1" using insert_events_Inr[OF i] by simp
  have cur: "current_sequence db s = ?a" by (rule current_sequence_view[OF inv])
  have old: "event_streams db s = (if stream_view db s = [] then None else Some ?a)"
    using inv by (auto simp: store_inv_def streams_inv_def)
  have es1: "event_streams db1 s = (if s \<in> stream_id ` set batch \<and> ?a = 0 then Some 0
      else event_streams db s)"
    using v' cur by (simp add: image_iff)
  show ?thesis
  proof (cases "s \<in> stream_id ` set batch")
    case True
    from grouped_entry[OF inv this v] obtain k where k: "(s, ?a, k) \<in> set grouped"
      "validate_batch_stream s (stream_group pairs s) (the (expected s)) ?a = Inr k" by blast
    note b = validate_batch_stream_Inr[OF k(2), unfolded new_events_group, folded new_def]
    have "event_streams db' s =
        (if new s = [] then event_streams db1 s else Some (?a + int (length (new s))))"
      using u' k(1) b es2 by (force simp: Let_def)
    moreover have "?a \<noteq> 0" if "new s = []"
    proof -
      have "stream_group pairs s \<noteq> []"
        using True fst by (auto simp: stream_group_def filter_empty_conv)
      then have "0 < int (length (stream_group pairs s))" by simp
      moreover have "int (length (stream_group pairs s)) = k" using b that by simp
      ultimately have "0 < k" by (simp only:)
      then show ?thesis using b ex True by (metis add_nonneg_pos less_irrefl set_batch_streams)
    qed
    ultimately show ?thesis using es1 old by auto
  next
    case False
    then have "new s = []"
      using fst new_events_subset[of pairs] by (auto simp: new_def filter_empty_conv)
    moreover have "s \<notin> fst ` set grouped"
      using v' False by (metis list.set_map set_batch_streams)
    ultimately show ?thesis using u' es2 es1 False old by simp
  qed
qed

lemma streams_inv_new_batch:
  assumes inv: "store_inv db" and ex: "\<forall>s \<in> set (batch_streams batch). 0 \<le> the (expected s)"
    and fst: "map fst pairs = batch"
    and steps: "validate_streams expected pairs (batch_streams batch) db = Inr (grouped, db1)"
      "insert_events pairs db1 = Inr (out, db2)"
      "update_streams pairs grouped db2 = Inr ((), db')"
  shows "streams_inv db'"
  unfolding streams_inv_def
proof
  fix s
  let ?new = "filter (\<lambda>e. stream_id e = s) (new_events pairs)"
  let ?stamped = "filter (\<lambda>e. stream_id e = s)
      (map row_event (stamp_all (autoincrement db + 1) (new_events pairs)))"
  have view: "stream_view db' s = stream_view db s @ ?stamped"
    using new_batch_rows(2)[OF steps] by (simp add: stream_view_def)
  have len: "length ?stamped = length ?new" by (rule stamped_length)
  have "map stream_sequence ?stamped = map (\<lambda>i. int (length (stream_view db s)) + 1 + int i)
          [0..<length ?stamped]"
    unfolding len using new_sequences[OF inv fst steps(1)] by (simp only: stamped_sequences)
  moreover have "map stream_sequence (stream_view db s)
      = map int [1..<Suc (length (stream_view db s))]"
    using inv by (simp add: store_inv_def streams_inv_def)
  ultimately have "map stream_sequence (stream_view db' s)
      = map int [1..<Suc (length (stream_view db' s))]"
    unfolding view by (intro sequences_append)
  moreover have "event_streams db' s =
      (if stream_view db' s = [] then None else Some (int (length (stream_view db' s))))"
  proof -
    have "?stamped = [] \<longleftrightarrow> ?new = []" using len by (metis length_0_conv)
    then show ?thesis unfolding view length_append of_nat_add len
      using new_stream_heads[OF inv ex fst steps, of s] by (simp only: append_is_Nil_conv)
  qed
  ultimately show "map stream_sequence (stream_view db' s)
        = map int [1..<Suc (length (stream_view db' s))]
      \<and> event_streams db' s =
      (if stream_view db' s = [] then None else Some (int (length (stream_view db' s))))" by simp
qed

lemma append_in_transaction_inv:
  assumes inv: "store_inv db" and wf: "\<forall>e \<in> set batch. event_wf e"
    and run: "append_many_in_transaction path conn batch expected db = Inr (out, db')"
  shows "store_inv db'"
  using run
proof (cases rule: append_in_transaction_cases)
  case (new existing pairs grouped db1 db2)
  have fst: "map fst pairs = batch" using zip_traverse(1)[OF new(1,2)] .
  note v = validate_streams_Inr[OF new(4) distinct_batch_streams]
  have d: "distinct (map fst grouped)" using v by (simp del: set_batch_streams)
  have "rows_inv db1" using v inv by (simp add: store_inv_def rows_inv_def ledger_events_def)
  moreover have "\<forall>p \<in> set pairs. event_wf (fst p)" using wf unfolding fst[symmetric] by simp
  ultimately have "rows_inv db2" using insert_events_rows_inv[OF new(5)] by blast
  then have "rows_inv db'"
    using update_streams_Inr[OF new(6) d] by (simp add: rows_inv_def ledger_events_def)
  moreover have "streams_inv db'"
    using streams_inv_new_batch[OF inv _ fst new(4-6)] new(3) by blast
  ultimately show ?thesis by (simp add: store_inv_def)
qed (use inv in simp_all)

lemma append_in_transaction_appends:
  assumes "append_many_in_transaction path conn batch expected db = Inr (out, db')"
  shows "\<exists>rows. kernel_events db' = kernel_events db @ rows"
  using assms
proof (cases rule: append_in_transaction_cases)
  case (new existing pairs grouped db1 db2)
  then show ?thesis using new_batch_rows(1)[OF new(4-6)] by blast
qed simp_all

lemma row_event_decodes:
  assumes "row_ok r"
  shows "event_from_row r = Inr (row_event r)"
  using assms by (simp add: event_from_row_def event_envelope_raw_of row_ok_def)

lemma store_inv_row: "store_inv db \<Longrightarrow> r \<in> set (kernel_events db) \<Longrightarrow> row_ok r"
  by (simp add: store_inv_def rows_inv_def)

section \<open>Idempotent retries\<close>

definition same_key :: "event \<Rightarrow> event_row \<Rightarrow> bool" where
  "same_key e r \<longleftrightarrow> stream_id (row_event r) = stream_id e
     \<and> idempotency_key (row_event r) = idempotency_key e"

text \<open>The envelope a stored candidate reads back as: its payload with sorted keys.\<close>

definition stored_form :: "event \<Rightarrow> event" where
  "stored_form e = e\<lparr>payload := norm_object (payload e)\<rparr>"

lemma stored_form_stream [simp]: "stream_id (stored_form e) = stream_id e"
  by (simp add: stored_form_def)

lemma idempotent_event_Some:
  assumes inv: "store_inv db" and key: "idempotency_key e = Some k"
  shows "idempotent_event db e = Inr (Some st) \<longleftrightarrow>
    (\<exists>r. find (same_key e) (kernel_events db) = Some r
       \<and> row_idempotency_hash r = Some (idempotency_hash e) \<and> st = row_event r)"
proof -
  have "same_key e = (\<lambda>r. stream_id (row_event r) = stream_id e
      \<and> idempotency_key (row_event r) = Some k)"
    by (auto simp: same_key_def key)
  moreover have "event_from_row r = Inr (row_event r)"
    if "find (same_key e) (kernel_events db) = Some r" for r
    using that inv by (auto simp: find_Some_iff intro!: row_event_decodes store_inv_row)
  ultimately show ?thesis
    by (auto simp: idempotent_event_def key ebind_eq_Inr split: option.splits if_splits)
qed

lemma idempotent_event_None:
  assumes inv: "store_inv db" and key: "idempotency_key e = Some k"
  shows "idempotent_event db e = Inr None \<longleftrightarrow> find (same_key e) (kernel_events db) = None"
proof -
  have "same_key e = (\<lambda>r. stream_id (row_event r) = stream_id e
      \<and> idempotency_key (row_event r) = Some k)"
    by (auto simp: same_key_def key)
  then show ?thesis
    by (auto simp: idempotent_event_def key ebind_eq_Inr split: option.splits if_splits)
qed

lemma in_keyed:
  assumes "r \<in> set rows" "same_key e r" "idempotency_key e \<noteq> None"
  shows "(stream_id e, idempotency_key e) \<in> set (keyed (map row_event rows))"
  using assms by (induction rows) (auto simp: keyed_def same_key_def)

lemma keyed_rows_unique:
  assumes "distinct (keyed (map row_event rows))" "r \<in> set rows" "r' \<in> set rows"
    and "same_key e r" "same_key e r'" "idempotency_key e \<noteq> None"
  shows "r = r'"
  using assms
proof (induction rows)
  case (Cons a rows)
  show ?case
  proof (cases "same_key e a")
    case True
    then have "\<not> same_key e b" if "b \<in> set rows" for b
      using in_keyed[of b rows e] that Cons.prems(1,6) True
      by (auto simp: keyed_def same_key_def)
    with Cons.prems show ?thesis by auto
  next
    case False
    with Cons show ?thesis by (auto simp: keyed_def split: if_splits)
  qed
qed simp

lemma find_keyed_row:
  assumes "store_inv db" "r \<in> set (kernel_events db)" "same_key e r" "idempotency_key e \<noteq> None"
  shows "find (same_key e) (kernel_events db) = Some r"
proof -
  have d: "distinct (keyed (map row_event (kernel_events db)))"
    using assms(1) by (simp add: store_inv_def rows_inv_def ledger_events_def)
  obtain r' where r': "find (same_key e) (kernel_events db) = Some r'"
    using assms(2,3) by (metis find_None_iff not_Some_eq)
  then have "r' \<in> set (kernel_events db)" "same_key e r'"
    by (auto simp: find_Some_iff)
  with keyed_rows_unique[OF d] assms r' show ?thesis by blast
qed

lemma insert_events_paired:
  assumes "insert_events pairs db = Inr (out, db')"
  shows "list_all2 (\<lambda>p o1. case snd p of Some st \<Rightarrow> o1 = st
         | None \<Rightarrow> \<exists>n. o1 = (fst p)\<lparr>global_position := Some n\<rparr>
              \<and> stamp n (fst p) \<in> set (kernel_events db')) pairs out"
  using assms
proof (induction pairs arbitrary: db out)
  case (Cons p es)
  obtain c st where p: "p = (c, st)" by fastforce
  show ?case
  proof (cases st)
    case None
    with Cons.prems p obtain out' where o: "out = c\<lparr>global_position := Some (autoincrement db + 1)\<rparr> # out'"
      and i: "insert_events es (with_row db c) = Inr (out', db')"
      by (auto simp: insert_events_elims simp del: insert_events.simps)
    have "stamp (autoincrement db + 1) c \<in> set (kernel_events db')"
      using insert_events_Inr[OF i] by simp
    with Cons.IH[OF i] Cons.prems p None o show ?thesis by auto
  next
    case (Some e)
    with Cons.prems p obtain out' where "insert_events es db = Inr (out', db')" "out = e # out'"
      by (auto simp: insert_events_elims simp del: insert_events.simps)
    with Cons.IH Cons.prems p Some show ?thesis by simp
  qed
qed simp

lemma stamp_row:
  "row_event (stamp n e) = stored_form (e\<lparr>global_position := Some n\<rparr>)"
  "idempotency_key e \<noteq> None \<Longrightarrow> row_idempotency_hash (stamp n e) = Some (idempotency_hash e)"
  by (auto simp: stamp_def stored_form_def)

lemma find_append_Some: "find P xs = Some x \<Longrightarrow> find P (xs @ ys) = Some x"
  by (induction xs) (auto split: if_splits)

text \<open>After a batch is committed, every keyed candidate of it is found again.\<close>

lemma committed_batch_found:
  assumes inv: "store_inv db" and wf: "\<forall>e \<in> set batch. event_wf e"
    and keys: "\<forall>e \<in> set batch. idempotency_key e \<noteq> None"
    and run: "append_many_in_transaction path conn batch expected db = Inr (out, db')"
  shows "list_all2 (\<lambda>e o1. idempotent_event db' e = Inr (Some (stored_form o1))) batch out"
proof -
  have inv': "store_inv db'" using append_in_transaction_inv[OF inv wf run] .
  obtain rows where rows: "kernel_events db' = kernel_events db @ rows"
    using append_in_transaction_appends[OF run] by blast
  have old: "idempotent_event db' e = Inr (Some (stored_form st))"
    if e: "e \<in> set batch" and st: "idempotent_event db e = Inr (Some st)" for e st
  proof -
    obtain k where k: "idempotency_key e = Some k" using keys e by auto
    from st idempotent_event_Some[OF inv k] obtain r where
      r: "find (same_key e) (kernel_events db) = Some r"
      "row_idempotency_hash r = Some (idempotency_hash e)" "st = row_event r" by auto
    then have "row_ok r" using inv by (auto simp: find_Some_iff intro!: store_inv_row)
    then have "stored_form st = st" using r(3) by (simp add: stored_form_def row_ok_def)
    with find_append_Some[OF r(1)] rows idempotent_event_Some[OF inv' k] r show ?thesis by auto
  qed
  from run show ?thesis
  proof (cases rule: append_in_transaction_cases)
    case empty
    then show ?thesis by simp
  next
    case (replay existing)
    then have ex: "list_all2 (\<lambda>e x. idempotent_event db e = Inr x) batch existing"
      by (simp add: etraverse_Inr_iff)
    show ?thesis
    proof (rule list_all2_all_nthI)
      fix i assume i: "i < length batch"
      with list_all2_lengthD[OF ex] replay(2,3) have "existing ! i = Some (out ! i)"
        by (auto simp: list_all_length)
      with list_all2_nthD[OF ex i] have "idempotent_event db (batch ! i) = Inr (Some (out ! i))"
        by simp
      with old i show "idempotent_event db' (batch ! i) = Inr (Some (stored_form (out ! i)))"
        by simp
    qed (use list_all2_lengthD[OF ex] replay(3) in simp)
  next
    case (new existing pairs grouped db1 db2)
    have found: "idempotent_event db' e = Inr (Some (stored_form (e\<lparr>global_position := Some n\<rparr>)))"
      if e: "e \<in> set batch" and r: "stamp n e \<in> set (kernel_events db')" for e n
    proof -
      obtain k where k: "idempotency_key e = Some k" using keys e by auto
      have "find (same_key e) (kernel_events db') = Some (stamp n e)"
        using find_keyed_row[OF inv' r] k by (simp add: same_key_def)
      then show ?thesis using idempotent_event_Some[OF inv' k] stamp_row k by auto
    qed
    note v = validate_streams_Inr[OF new(4) distinct_batch_streams]
    have d: "distinct (map fst grouped)" using v by (simp del: set_batch_streams)
    have rows2: "kernel_events db2 = kernel_events db'"
      using update_streams_Inr[OF new(6) d] by simp
    have ex: "list_all2 (\<lambda>e x. idempotent_event db e = Inr x) batch existing"
      using new(1) by (simp add: etraverse_Inr_iff)
    note paired = insert_events_paired[OF new(5), unfolded rows2]
    have len: "length batch = length existing" "length out = length batch"
      using list_all2_lengthD[OF ex] list_all2_lengthD[OF paired] new(2) by simp_all
    show ?thesis
    proof (rule list_all2_all_nthI)
      fix i assume i: "i < length batch"
      then have nth: "fst (pairs ! i) = batch ! i" "snd (pairs ! i) = existing ! i"
        and i': "i < length pairs" using new(2) len by simp_all
      have e: "batch ! i \<in> set batch" using i by simp
      have "idempotent_event db (batch ! i) = Inr (existing ! i)"
        using list_all2_nthD[OF ex i] .
      moreover have "case existing ! i of Some st \<Rightarrow> out ! i = st
         | None \<Rightarrow> \<exists>n. out ! i = (batch ! i)\<lparr>global_position := Some n\<rparr>
              \<and> stamp n (batch ! i) \<in> set (kernel_events db')"
        using list_all2_nthD[OF paired i', unfolded nth] .
      ultimately show "idempotent_event db' (batch ! i) = Inr (Some (stored_form (out ! i)))"
        using old[OF e] found[OF e] by (auto split: option.splits)
    qed (simp add: len)
  qed
qed

lemma validate_existing_order_consecutive:
  assumes "\<And>s. \<exists>b. (\<forall>p. seen s = Some p \<longrightarrow> b = p + 1)
      \<and> map stream_sequence (filter (\<lambda>e. stream_id e = s) es)
          = map (\<lambda>i. b + int i) [0..<length (filter (\<lambda>e. stream_id e = s) es)]"
  shows "validate_existing_order seen es = Inr ()"
  using assms
proof (induction es arbitrary: seen)
  case (Cons e es)
  let ?s = "stream_id e"
  let ?g = "\<lambda>s. filter (\<lambda>e. stream_id e = s) es"
  from Cons.prems[of ?s] obtain b where b: "\<forall>p. seen ?s = Some p \<longrightarrow> b = p + 1"
    "map stream_sequence (e # ?g ?s) = map (\<lambda>i. b + int i) [0..<Suc (length (?g ?s))]" by auto
  then have seq: "stream_sequence e = b"
    "map stream_sequence (?g ?s) = map (\<lambda>i. b + 1 + int i) [0..<length (?g ?s)]"
    by (simp_all add: map_upt_Suc algebra_simps del: upt_Suc)
  have "validate_existing_order (seen(?s \<mapsto> stream_sequence e)) es = Inr ()"
  proof (rule Cons.IH)
    fix s
    show "\<exists>b. (\<forall>p. (seen(?s \<mapsto> stream_sequence e)) s = Some p \<longrightarrow> b = p + 1)
      \<and> map stream_sequence (?g s) = map (\<lambda>i. b + int i) [0..<length (?g s)]"
    proof (cases "s = ?s")
      case True
      with seq show ?thesis by auto
    next
      case False
      with Cons.prems[of s] show ?thesis by auto
    qed
  qed
  with b(1) seq(1) show ?case by (auto split: option.splits)
qed simp

lemma validate_existing_order_stored_form:
  "validate_existing_order seen (map stored_form es) = validate_existing_order seen es"
  by (induction es arbitrary: seen) (auto simp: stored_form_def split: option.splits)

text \<open>A pair of a candidate and its stored occurrence, and the event the batch returns for it.\<close>

definition returned :: "event \<times> event option \<Rightarrow> event \<Rightarrow> bool" where
  "returned p o1 \<longleftrightarrow> stream_id o1 = stream_id (fst p) \<and> stream_sequence o1 =
     stream_sequence (case snd p of None \<Rightarrow> fst p | Some st \<Rightarrow> st)"

lemma validate_offsets_returned:
  assumes "validate_offsets s ex a off g = Inr u" "list_all2 returned g out"
  shows "map stream_sequence out = map (\<lambda>i. ex + off + int i) [0..<length out]"
  using assms
proof (induction g arbitrary: off out)
  case (Cons p g)
  obtain c st where p: "p = (c, st)" by fastforce
  from Cons.prems(2) obtain o1 out' where o: "out = o1 # out'" "returned p o1"
    "list_all2 returned g out'" by (auto simp: list_all2_Cons1)
  with Cons.prems p have "stream_sequence o1 = ex + off"
    "validate_offsets s ex a (off + 1) g = Inr u"
    by (auto simp: Let_def returned_def split: if_splits option.splits)
  with Cons.IH[OF this(2) o(3)] show ?case
    by (simp add: o(1) map_upt_Suc algebra_simps del: upt_Suc)
qed simp

lemma returned_group:
  assumes "list_all2 returned pairs out"
  shows "list_all2 returned (stream_group pairs s) (filter (\<lambda>e. stream_id e = s) out)"
  using assms by (induction rule: list_all2_induct) (auto simp: stream_group_def returned_def)

lemma returned_streams:
  "list_all2 returned pairs out \<Longrightarrow> map stream_id out = map (\<lambda>p. stream_id (fst p)) pairs"
  by (induction rule: list_all2_induct) (auto simp: returned_def)

lemma new_batch_order:
  assumes inv: "store_inv db" and fst: "map fst pairs = batch"
    and v: "validate_streams expected pairs (batch_streams batch) db = Inr (grouped, db1)"
    and r: "list_all2 returned pairs out"
  shows "validate_existing_order Map.empty out = Inr ()"
proof (rule validate_existing_order_consecutive)
  fix s
  let ?g = "filter (\<lambda>e. stream_id e = s) out"
  have "\<exists>b. map stream_sequence ?g = map (\<lambda>i. b + int i) [0..<length ?g]"
  proof (cases "s \<in> stream_id ` set batch")
    case True
    from grouped_entry[OF inv this v] obtain k where
      "validate_batch_stream s (stream_group pairs s) (the (expected s))
         (int (length (stream_view db s))) = Inr k" by blast
    then obtain u where "validate_offsets s (the (expected s)) (int (length (stream_view db s))) 1
        (stream_group pairs s) = Inr u"
      by (auto simp: validate_batch_stream_def ebind_eq_Inr split: option.splits if_splits)
    from validate_offsets_returned[OF this returned_group[OF r]] show ?thesis by blast
  next
    case False
    have "set (map stream_id out) = set (map (\<lambda>p. stream_id (fst p)) pairs)"
      by (simp only: returned_streams[OF r])
    also have "\<dots> = stream_id ` set batch" by (simp add: fst[symmetric] image_image)
    finally have "stream_id ` set out = stream_id ` set batch" by simp
    with False have "?g = []" by (metis (mono_tags, lifting) filter_False imageI)
    then show ?thesis by simp
  qed
  then show "\<exists>b. (\<forall>p. Map.empty s = Some p \<longrightarrow> b = p + 1)
      \<and> map stream_sequence ?g = map (\<lambda>i. b + int i) [0..<length ?g]" by simp
qed

lemma idempotent_event_stream:
  assumes "idempotent_event db e = Inr (Some st)"
  shows "stream_id st = stream_id e"
proof -
  from assms obtain k r where "find (\<lambda>r. stream_id (row_event r) = stream_id e
        \<and> idempotency_key (row_event r) = Some k) (kernel_events db) = Some r"
    "event_from_row r = Inr st"
    by (auto simp: idempotent_event_def ebind_eq_Inr split: option.splits if_splits)
  then show ?thesis
    using event_envelope_fields(2)[of "raw_of (row_event r)" st]
    by (auto simp: event_from_row_def find_Some_iff raw_of_def)
qed

lemma new_batch_returned:
  assumes ex: "etraverse (idempotent_event db) batch = Inr existing" "pairs = zip batch existing"
    and i: "insert_events pairs db1 = Inr (out, db2)"
  shows "list_all2 returned pairs out"
proof -
  note o = insert_events_out[OF i]
  have e: "list_all2 (\<lambda>e x. idempotent_event db e = Inr x) batch existing"
    using ex(1) by (simp add: etraverse_Inr_iff)
  have "stream_id st = stream_id (fst p)" if "p \<in> set pairs" "snd p = Some st" for p st
  proof -
    from that(1) ex(2) list_all2_lengthD[OF e] obtain i where
      "i < length batch" "p = (batch ! i, existing ! i)"
      by (auto simp: set_zip)
    with list_all2_nthD[OF e, of i] that(2) have "idempotent_event db (batch ! i) = Inr (Some st)"
      by simp
    then show ?thesis using idempotent_event_stream \<open>p = _\<close> by simp
  qed
  then show ?thesis
    using o by (auto simp: list_all2_conv_all_nth returned_def split: option.splits)
qed

text \<open>Retrying a committed batch: every candidate carries an idempotency key, so the call returns
  the stored events and changes nothing, whatever sequences the caller expects now.\<close>

lemma retry_committed_batch:
  assumes inv: "store_inv db" and wf: "\<forall>e \<in> set batch. event_wf e"
    and keys: "\<forall>e \<in> set batch. idempotency_key e \<noteq> None"
    and run: "append_many_in_transaction path conn batch expected db = Inr (out, db')"
    and later: "\<forall>s \<in> stream_id ` set batch. \<exists>n \<ge> 0. expected' s = Some n"
  shows "append_many_in_transaction path conn batch expected' db' = Inr (map stored_form out, db')"
proof (cases "batch = []")
  case False
  note found = committed_batch_found[OF inv wf keys run]
  have ex: "etraverse (idempotent_event db') batch = Inr (map Some (map stored_form out))"
    using found by (simp add: etraverse_Inr_iff list_all2_map2)
  from run have "validate_existing_order Map.empty out = Inr ()"
  proof (cases rule: append_in_transaction_cases)
    case empty
    then show ?thesis by simp
  next
    case (replay existing)
    with False run show ?thesis
      by (auto simp: append_many_in_transaction_def ebind_eq_Inr Let_def)
  next
    case (new existing pairs grouped db1 db2)
    show ?thesis
      by (rule new_batch_order[OF inv zip_traverse(1)[OF new(1,2)] new(4)
          new_batch_returned[OF new(1,2,5)]])
  qed
  then have order: "validate_existing_order Map.empty (map stored_form out) = Inr ()"
    by (simp add: validate_existing_order_stored_form)
  have conn: "validate_transaction_connection path conn = Inr ()"
    using run by (auto simp: append_many_in_transaction_def ebind_eq_Inr)
  have req: "validate_append_request batch expected' = Inr (batch_streams batch)"
    using later by (auto simp: validate_append_request_def Let_def list_all_iff)
  show ?thesis
    using False conn req ex order
    by (simp add: append_many_in_transaction_def list_all_iff comp_def)
qed (use run in \<open>auto simp: append_many_in_transaction_def ebind_eq_Inr\<close>)

section \<open>Appending one event\<close>

lemma view_sequences:
  assumes "store_inv db" "r \<in> set (kernel_events db)" "stream_id (row_event r) = s"
  shows "stream_sequence (row_event r) \<le> int (length (stream_view db s))"
proof -
  have "row_event r \<in> set (stream_view db s)"
    using assms(2,3) by (auto simp: stream_view_def ledger_events_def)
  then have "stream_sequence (row_event r)
      \<in> set (map stream_sequence (stream_view db s))" by simp
  also have "\<dots> = int ` {1..<Suc (length (stream_view db s))}"
    using assms(1) by (simp add: store_inv_def streams_inv_def del: upt_Suc)
  finally show ?thesis by auto
qed

definition conflicting :: "database \<Rightarrow> event \<Rightarrow> bool" where
  "conflicting db e \<longleftrightarrow> event_id e \<in> event_id ` set (ledger_events db)
     \<or> (case causation_id e of None \<Rightarrow> False
        | Some c \<Rightarrow> c \<noteq> event_id e \<and> c \<notin> event_id ` set (ledger_events db))"

lemma append_unkeyed:
  assumes inv: "store_inv db" and key: "idempotency_key e = None"
  defines "s \<equiv> stream_id e" and "len \<equiv> int (length (stream_view db (stream_id e)))"
  shows "append path e n db =
    (if n < 0 then (Inl (ValueError ''expected sequence must be non-negative''), db)
     else if n \<noteq> len then (Inl (ConcurrencyError s n len), db)
     else if stream_sequence e \<noteq> n + 1 then (Inl EventSequenceError, db)
     else if conflicting db e then (Inl EventConflictError, db)
     else (Inr (e\<lparr>global_position := Some (autoincrement db + 1)\<rparr>),
           (with_row db e)\<lparr>event_streams := (event_streams db)(s \<mapsto> n + 1)\<rparr>))"
proof -
  have cur: "current_sequence db s = len"
    using current_sequence_view[OF inv] by (simp add: s_def len_def)
  have heads: "event_streams db s = (if len = 0 then None else Some len)"
    using inv by (auto simp: store_inv_def streams_inv_def s_def len_def)
  have ie: "idempotent_event db e = Inr None" by (simp add: idempotent_event_def key)
  have seq: "stream_sequence (row_event r) \<noteq> len + 1"
    if "r \<in> set (kernel_events db)" "stream_id (row_event r) = s" for r
    using view_sequences[OF inv that] by (simp add: len_def s_def)
  have allowed: "insert_allowed db1 e \<longleftrightarrow> \<not> conflicting db e"
    if "stream_sequence e = len + 1" "kernel_events db1 = kernel_events db"
      "event_streams db1 s \<noteq> None" for db1
    using that seq key
    by (auto simp: insert_allowed_def Let_def list_all_iff list_ex_iff conflicting_def
        ledger_events_def s_def image_iff split: option.splits)
  let ?tx = "append_many_in_transaction path (own_connection path) [e] [s \<mapsto> n] db"
  let ?db1 = "if len = 0 then db\<lparr>event_streams := (event_streams db)(s \<mapsto> 0)\<rparr> else db"
  have batch: "batch_streams [e] = [s]" "stream_group [(e, None)] s = [(e, None)]"
    by (simp_all add: batch_streams_def stream_group_def s_def)
  have valid: "validate_batch_stream s [(e, None)] n len =
    (if n \<noteq> len then Inl (ConcurrencyError s n len)
     else if stream_sequence e \<noteq> n + 1 then Inl EventSequenceError else Inr 0)"
    by (simp add: validate_batch_stream_def)
  have streams: "validate_streams [s \<mapsto> n] [(e, None)] [s] db =
    (if n \<noteq> len then Inl (ConcurrencyError s n len)
     else if stream_sequence e \<noteq> n + 1 then Inl EventSequenceError
     else Inr ([(s, n, 0)], ?db1))"
    by (simp add: cur batch valid heads)
  have tx: "?tx =
    (if n < 0 then Inl (ValueError ''expected sequence must be non-negative'')
     else ebind (validate_streams [s \<mapsto> n] [(e, None)] [s] db) (\<lambda>(grouped, db1).
          ebind (insert_events [(e, None)] db1) (\<lambda>(appended, db2).
          ebind (update_streams [(e, None)] grouped db2) (\<lambda>(_, db3).
          Inr (appended, db3)))))"
    by (auto simp: append_many_in_transaction_def own_connection_def Let_def ie batch
        validate_transaction_connection_def validate_append_request_def
        simp del: validate_streams.simps insert_events.simps update_streams.simps)
  have insert: "insert_events [(e, None)] ?db1 =
    (if conflicting db e then Inl EventConflictError
     else Inr ([e\<lparr>global_position := Some (autoincrement db + 1)\<rparr>], with_row ?db1 e))"
    if "stream_sequence e = len + 1"
    using allowed[OF that, of ?db1] heads
    by (auto simp: insert_event_def Let_def stamp_def with_row_def)
  have update: "update_streams [(e, None)] [(s, len, 0)] (with_row ?db1 e)
      = Inr ((), (with_row db e)\<lparr>event_streams := (event_streams db)(s \<mapsto> len + 1)\<rparr>)"
    using heads by (auto simp: batch with_row_def)
  have "?tx =
    (if n < 0 then Inl (ValueError ''expected sequence must be non-negative'')
     else if n \<noteq> len then Inl (ConcurrencyError s n len)
     else if stream_sequence e \<noteq> n + 1 then Inl EventSequenceError
     else if conflicting db e then Inl EventConflictError
     else Inr ([e\<lparr>global_position := Some (autoincrement db + 1)\<rparr>],
               (with_row db e)\<lparr>event_streams := (event_streams db)(s \<mapsto> n + 1)\<rparr>))"
    unfolding tx streams using insert update
    by (auto simp del: validate_streams.simps insert_events.simps update_streams.simps)
  then show ?thesis
    by (auto simp: append_def append_many_def s_def)
qed

section \<open>Reading\<close>

lemma filter_upto_drop:
  assumes "map f xs = map (\<lambda>i. b + int i) [0..<length xs]"
  shows "filter (\<lambda>x. a < f x) xs = drop (nat (a - b + 1)) xs"
  using assms
proof (induction xs arbitrary: b)
  case (Cons x xs)
  then have x: "f x = b" "map f xs = map (\<lambda>i. (b + 1) + int i) [0..<length xs]"
    by (simp_all add: map_upt_Suc algebra_simps del: upt_Suc)
  have ih: "filter (\<lambda>x. a < f x) xs = drop (nat (a - b)) xs"
    using Cons.IH[OF x(2)] by (simp add: algebra_simps)
  show ?case
  proof (cases "a < b")
    case True
    then show ?thesis using x(1) ih by simp
  next
    case False
    then have "nat (a - b + 1) = Suc (nat (a - b))" by simp
    then show ?thesis using False x(1) ih by simp
  qed
qed simp

lemma filter_after_drop:
  assumes "map f xs = map int [1..<Suc (length xs)]" "0 \<le> a"
  shows "filter (\<lambda>x. a < f x) xs = drop (nat a) xs"
proof -
  have "map f xs = map (\<lambda>i. 1 + int i) [0..<length xs]"
    using assms(1) by (simp add: map_Suc_upt[symmetric] comp_def del: upt_Suc map_Suc_upt)
  from filter_upto_drop[OF this, of a] show ?thesis using assms(2) by simp
qed

lemma etraverse_event_from_row:
  assumes "\<forall>r \<in> set rows. row_ok r"
  shows "etraverse event_from_row rows = Inr (map row_event rows)"
  using assms row_event_decodes by (induction rows) auto

lemma set_limit_rows: "set (limit_rows limit rows) \<subseteq> set rows"
  by (auto simp: limit_rows_def dest: in_set_takeD split: option.splits)

lemma map_limit_rows: "map f (limit_rows limit rows) = limit_rows limit (map f rows)"
  by (simp add: limit_rows_def take_map split: option.split)

lemma sorted_filter_map: "sorted (map f xs) \<Longrightarrow> sorted (map f (filter P xs))"
  using sorted_filter by blast

lemma row_positions:
  assumes "store_inv db"
  shows "map row_position (kernel_events db) = map int [1..<Suc (length (kernel_events db))]"
proof -
  have "map row_position (kernel_events db)
      = map (case_option 0 id) (map (\<lambda>r. global_position (row_event r)) (kernel_events db))"
    by (simp add: row_position_def id_def cong: map_cong option.case_cong)
  also have "\<dots> = map (case_option 0 id) (map (\<lambda>i. Some (int (Suc i))) [0..<length (kernel_events db)])"
    using assms by (simp add: store_inv_def rows_inv_def)
  also have "\<dots> = map int [1..<Suc (length (kernel_events db))]"
    by (simp add: map_Suc_upt[symmetric] comp_def del: upt_Suc map_Suc_upt)
  finally show ?thesis .
qed

lemma sorted_map_int: "sorted (map int [a..<b])"
  by (simp add: sorted_iff_nth_mono)

lemma read_stream_view:
  assumes inv: "store_inv db" and cursor: "0 \<le> after_sequence"
    and through: "pred_option (\<lambda>p. 0 \<le> p) through" and limit: "pred_option (\<lambda>n. 1 \<le> n) limit"
  shows "read_stream db s after_sequence through limit =
    Inr (limit_rows limit
      (filter (\<lambda>e. case through of None \<Rightarrow> True | Some p \<Rightarrow> the (global_position e) \<le> p)
        (drop (nat after_sequence) (stream_view db s))))"
proof -
  let ?P = "\<lambda>e. case through of None \<Rightarrow> True | Some p \<Rightarrow> the (global_position e) \<le> p"
  define rows where "rows = filter (\<lambda>r. stream_id (row_event r) = s
       \<and> after_sequence < stream_sequence (row_event r)
       \<and> (case through of None \<Rightarrow> True | Some p \<Rightarrow> row_position r \<le> p)) (kernel_events db)"
  have pos: "row_position r = the (global_position (row_event r))"
    if "r \<in> set (kernel_events db)" for r
  proof -
    have "global_position (row_event r)
        \<in> set (map (\<lambda>r. global_position (row_event r)) (kernel_events db))" using that by simp
    also have "\<dots> = set (map (\<lambda>i. Some (int (Suc i))) [0..<length (kernel_events db)])"
      using inv by (simp add: store_inv_def rows_inv_def)
    finally show ?thesis by (auto simp: row_position_def)
  qed
  have view: "map stream_sequence (stream_view db s)
      = map int [1..<Suc (length (stream_view db s))]"
    using inv by (simp add: store_inv_def streams_inv_def)
  have "map row_event rows
      = filter ?P (filter (\<lambda>e. after_sequence < stream_sequence e) (stream_view db s))"
    unfolding rows_def stream_view_def ledger_events_def filter_map filter_filter comp_def
    using pos by (intro arg_cong[where f = "map row_event"] filter_cong)
      (auto split: option.splits)
  then have ev: "map row_event rows = filter ?P (drop (nat after_sequence) (stream_view db s))"
    using filter_after_drop[OF view cursor] by simp
  have "sorted (map stream_sequence (filter ?P (drop (nat after_sequence) (stream_view db s))))"
    by (intro sorted_filter_map) (simp add: drop_map[symmetric] view sorted_wrt_drop sorted_map_int
        del: upt_Suc)
  then have "sorted (map (\<lambda>r. stream_sequence (row_event r)) rows)"
    unfolding ev[symmetric] by (simp add: comp_def)
  then have "sort_key (\<lambda>r. stream_sequence (row_event r)) rows = rows"
    by (rule sort_key_id_if_sorted)
  moreover have "\<forall>r \<in> set (limit_rows limit rows). row_ok r"
    using set_limit_rows[of limit rows] store_inv_row[OF inv] by (auto simp: rows_def)
  ultimately have "read_stream db s after_sequence through limit
      = Inr (map row_event (limit_rows limit rows))"
    using cursor through limit etraverse_event_from_row
    by (auto simp: read_stream_def validate_cursor_def rows_def[symmetric] Let_def
        split: option.splits)
  then show ?thesis by (simp add: map_limit_rows ev)
qed

lemma read_all_ledger:
  assumes inv: "store_inv db" and cursor: "0 \<le> after_position"
    and limit: "pred_option (\<lambda>n. 1 \<le> n) limit"
  shows "read_all db after_position limit =
    Inr (limit_rows limit (drop (nat after_position) (ledger_events db)))"
proof -
  define rows where "rows = filter (\<lambda>r. after_position < row_position r) (kernel_events db)"
  have rows: "rows = drop (nat after_position) (kernel_events db)"
    unfolding rows_def using filter_after_drop[OF row_positions[OF inv] cursor] .
  have "sorted (map row_position rows)"
    unfolding rows_def using row_positions[OF inv]
    by (intro sorted_filter_map) (simp add: sorted_map_int del: upt_Suc)
  then have "sort_key row_position rows = rows" by (rule sort_key_id_if_sorted)
  moreover have "\<forall>r \<in> set (limit_rows limit rows). row_ok r"
    using set_limit_rows[of limit rows] store_inv_row[OF inv] by (auto simp: rows_def)
  ultimately have "read_all db after_position limit = Inr (map row_event (limit_rows limit rows))"
    using cursor limit etraverse_event_from_row
    by (auto simp: read_all_def validate_cursor_def rows_def[symmetric] split: option.splits)
  then show ?thesis by (simp add: map_limit_rows rows drop_map ledger_events_def)
qed

end
