(* ===== verification/Ledger.thy ===== *)
theory Ledger
  imports StoreFacts
begin

text \<open>
  The event ledger as its clients see it: the \<open>event_ledger\<close> interface (a locale over an
  append operation, a cursor read and the list of events of a stream), what a reader may rely
  on across any sequence of appends, its interpretation on the store of \<open>kernel/store.py\<close>, and
  the properties of the store.
\<close>

section \<open>The interface\<close>

locale event_ledger =
  fixes inv :: "'db \<Rightarrow> bool"
    and events_of :: "'db \<Rightarrow> string \<Rightarrow> event list"
    and append_batch :: "event list \<Rightarrow> (string \<rightharpoonup> int) \<Rightarrow> 'db \<Rightarrow> (kernel_error + event list) \<times> 'db"
    and read_after :: "'db \<Rightarrow> string \<Rightarrow> int \<Rightarrow> kernel_error + event list"
  assumes append_inv: "inv db \<Longrightarrow> \<forall>e \<in> set b. event_wf e \<Longrightarrow> inv (snd (append_batch b ex db))"
    and append_grows: "inv db \<Longrightarrow> \<forall>e \<in> set b. event_wf e \<Longrightarrow>
      \<exists>new. events_of (snd (append_batch b ex db)) s = events_of db s @ new"
    and read_suffix: "inv db \<Longrightarrow> 0 \<le> a \<Longrightarrow>
      read_after db s a = Inr (drop (nat a) (events_of db s))"
begin

text \<open>Any sequence of calls, each with its batch and expected sequences.\<close>

fun calls :: "(event list \<times> (string \<rightharpoonup> int)) list \<Rightarrow> 'db \<Rightarrow> 'db" where
  "calls [] db = db"
| "calls ((b, ex) # cs) db = calls cs (snd (append_batch b ex db))"

lemma calls_grow:
  assumes "inv db" "\<forall>c \<in> set cs. \<forall>e \<in> set (fst c). event_wf e"
  shows "inv (calls cs db) \<and> (\<exists>new. events_of (calls cs db) s = events_of db s @ new)"
  using assms
proof (induction cs arbitrary: db)
  case (Cons c cs)
  obtain b ex where c: "c = (b, ex)" by fastforce
  let ?db1 = "snd (append_batch b ex db)"
  have "inv ?db1" "\<exists>new. events_of ?db1 s = events_of db s @ new"
    using Cons.prems c append_inv append_grows by auto
  moreover have "inv (calls cs ?db1)" "\<exists>new. events_of (calls cs ?db1) s = events_of ?db1 s @ new"
    using Cons.IH[of ?db1] Cons.prems \<open>inv ?db1\<close> by auto
  ultimately show ?case using c by auto
qed simp

text \<open>A reader that continues from the number of events it has seen misses and repeats nothing.\<close>

lemma resume:
  assumes "inv db" "\<forall>c \<in> set cs. \<forall>e \<in> set (fst c). event_wf e"
    and "read_after db s 0 = Inr seen"
    and "read_after (calls cs db) s (int (length seen)) = Inr new"
  shows "read_after (calls cs db) s 0 = Inr (seen @ new)"
proof -
  from calls_grow[OF assms(1,2)] obtain more where "inv (calls cs db)"
    "events_of (calls cs db) s = events_of db s @ more" by blast
  with assms(1,3,4) show ?thesis by (simp add: read_suffix)
qed

end

section \<open>The store provides it\<close>

lemma append_many_success:
  "append_many path batch expected db = (Inr out, db') \<Longrightarrow>
     append_many_in_transaction path (own_connection path) batch expected db = Inr (out, db')"
  by (auto simp: append_many_def append_many_in_transaction_def own_connection_def
      validate_transaction_connection_def split: if_splits sum.splits)

lemma append_many_failure:
  "append_many path batch expected db = (Inl e, db') \<Longrightarrow> db' = db"
  by (auto simp: append_many_def split: if_splits sum.splits)

lemma append_many_invariant:
  assumes "store_inv db" "\<forall>e \<in> set batch. event_wf e"
  shows "store_inv (snd (append_many path batch expected db))
    \<and> (\<exists>rows. kernel_events (snd (append_many path batch expected db)) = kernel_events db @ rows)"
proof -
  obtain res db' where run: "append_many path batch expected db = (res, db')" by fastforce
  show ?thesis
  proof (cases res)
    case (Inl e)
    then show ?thesis using run append_many_failure assms by fastforce
  next
    case (Inr out)
    note tx = append_many_success[OF run[unfolded Inr]]
    show ?thesis
      using append_in_transaction_inv[OF assms tx] append_in_transaction_appends[OF tx] run by simp
  qed
qed

lemma stream_view_grows:
  "kernel_events db' = kernel_events db @ rows \<Longrightarrow>
     stream_view db' s = stream_view db s @ filter (\<lambda>e. stream_id e = s) (map row_event rows)"
  by (simp add: stream_view_def ledger_events_def)

interpretation ledger: event_ledger store_inv stream_view "append_many path"
  "\<lambda>db s a. read_stream db s a None None" for path
proof
  fix db :: database and b :: "event list" and ex s
  assume "store_inv db" "\<forall>e \<in> set b. event_wf e"
  note inv = append_many_invariant[OF this, of path ex]
  then show "store_inv (snd (append_many path b ex db))" by blast
  show "\<exists>new. stream_view (snd (append_many path b ex db)) s = stream_view db s @ new"
    using inv stream_view_grows by blast
next
  fix db :: database and a :: int and s
  assume "store_inv db" "0 \<le> a"
  then show "read_stream db s a None None = Inr (drop (nat a) (stream_view db s))"
    by (simp add: read_stream_view limit_rows_def)
qed

section \<open>Sample values\<close>

definition sample_event :: "string \<Rightarrow> int \<Rightarrow> string option \<Rightarrow> event" where
  "sample_event i n key = \<lparr>event_id = i, stream_id = ''run:r1'', stream_sequence = n,
     event_type = ''run.queued'', schema_version = 1, recorded_at = utc 0, effective_at = utc 0,
     correlation_id = ''c'', causation_id = None, actor = ''a'', source = ''blackcell.runtime'',
     payload = [], payload_hash = json_digest (JObj []), idempotency_key = key,
     global_position = None\<rparr>"

lemma text_ok_first: "\<not> py_space c \<Longrightarrow> text_ok (c # s)"
proof -
  assume c: "\<not> py_space c"
  have "dropWhile py_space (rev s @ [c]) \<noteq> []"
    using c by (induction "rev s") (auto simp: dropWhile_eq_Nil_conv)
  then show ?thesis using c by (simp add: text_ok_def py_strip_def)
qed

lemma sample_event_wf [simp]:
  "text_ok i \<Longrightarrow> 1 \<le> n \<Longrightarrow> pred_option text_ok key \<Longrightarrow> event_wf (sample_event i n key)"
  by (simp add: event_wf_def sample_event_def text_ok_first py_space_def code_def utc_def)

section \<open>What a successful call returns\<close>

lemma idempotent_event_stored:
  assumes "store_inv db" "idempotent_event db e = Inr (Some st)"
  shows "stream_id st = stream_id e \<and> st \<in> set (ledger_events db) \<and> stored_form st = st"
proof -
  obtain k where k: "idempotency_key e = Some k"
    using assms(2) by (auto simp: idempotent_event_def split: option.splits)
  from assms idempotent_event_Some[OF assms(1) k] obtain r where
    r: "find (same_key e) (kernel_events db) = Some r" "st = row_event r" by auto
  then have "r \<in> set (kernel_events db)" by (auto simp: find_Some_iff)
  with store_inv_row[OF assms(1) this] r(2) idempotent_event_stream[OF assms(2)] show ?thesis
    by (auto simp: ledger_events_def stored_form_def row_ok_def)
qed

definition recorded :: "database \<Rightarrow> event \<Rightarrow> event \<Rightarrow> bool" where
  "recorded db e o1 \<longleftrightarrow> stream_id o1 = stream_id e \<and> stored_form o1 \<in> set (ledger_events db)"

lemma append_in_transaction_recorded:
  assumes inv: "store_inv db"
    and run: "append_many_in_transaction path conn batch expected db = Inr (out, db')"
  shows "list_all2 (recorded db') batch out"
proof -
  obtain rows where "kernel_events db' = kernel_events db @ rows"
    using append_in_transaction_appends[OF run] by blast
  then have grown: "set (ledger_events db) \<subseteq> set (ledger_events db')"
    by (auto simp: ledger_events_def)
  have old: "recorded db' e st" if "idempotent_event db e = Inr (Some st)" for e st
    using idempotent_event_stored[OF inv that] grown by (auto simp: recorded_def)
  from run show ?thesis
  proof (cases rule: append_in_transaction_cases)
    case (replay existing)
    then have "list_all2 (\<lambda>e x. idempotent_event db e = Inr x) batch existing"
      by (simp add: etraverse_Inr_iff)
    then show ?thesis
      using replay(2,3) old by (auto simp: list_all2_conv_all_nth list_all_length)
  next
    case (new existing pairs grouped db1 db2)
    have len: "length batch = length existing"
      using new(1) by (auto simp: etraverse_Inr_iff list_all2_lengthD)
    have ex: "idempotent_event db (batch ! i) = Inr (existing ! i)" if "i < length batch" for i
      using new(1) that by (auto simp: etraverse_Inr_iff list_all2_conv_all_nth)
    have "distinct (map fst grouped)"
      using validate_streams_Inr[OF new(4) distinct_batch_streams] by (simp del: set_batch_streams)
    then have rows: "kernel_events db2 = kernel_events db'"
      using update_streams_Inr[OF new(6)] by simp
    have fresh: "recorded db' e (e\<lparr>global_position := Some n\<rparr>)"
      if "stamp n e \<in> set (kernel_events db2)" for n e
      using that stamp_row(1)[of n e]
      by (auto simp: recorded_def rows ledger_events_def intro: rev_image_eqI)
    note paired = insert_events_paired[OF new(5)]
    show ?thesis
    proof (rule list_all2_all_nthI)
      show "length batch = length out" using list_all2_lengthD[OF paired] new(2) len by simp
      fix i assume i: "i < length batch"
      then have "fst (pairs ! i) = batch ! i" "snd (pairs ! i) = existing ! i" "i < length pairs"
        using new(2) len by simp_all
      with list_all2_nthD[OF paired, of i] ex[OF i] old fresh
      show "recorded db' (batch ! i) (out ! i)" by (auto split: option.splits)
    qed
  qed simp
qed

text \<open>The database after a sequence of calls.\<close>

definition committed_after :: "string \<Rightarrow> (event list \<times> (string \<rightharpoonup> int)) list \<Rightarrow> database \<Rightarrow> database" where
  "committed_after path cs db = ledger.calls path cs db"

section \<open>Properties\<close>

text \<open>
  C2: Appending a batch keeps the ledger invariant (gap-free positions and stream sequences,
  unique event identifiers and idempotency keys, causes before effects, stream heads equal to
  stream lengths), only ever adds events at the end, returns one recorded event per candidate,
  and leaves the database untouched when it fails.
\<close>

theorem append_many_ledger:
  assumes "store_inv db" "\<forall>e \<in> set batch. event_wf e"
    and "append_many path batch expected db = (res, db')"
  shows "store_inv db' \<and> (\<exists>new. ledger_events db' = ledger_events db @ new)
    \<and> (case res of Inl e \<Rightarrow> db' = db | Inr out \<Rightarrow> list_all2 (recorded db') batch out)"
proof -
  have "case res of Inl e \<Rightarrow> db' = db | Inr out \<Rightarrow> list_all2 (recorded db') batch out"
    using assms(1,3) append_many_failure append_in_transaction_recorded append_many_success
    by (fastforce split: sum.splits)
  then show ?thesis
    using append_many_invariant[OF assms(1,2), of path expected] assms(3)
    by (auto simp: ledger_events_def)
qed

lemma append_sample:
  "append_many ''p'' [sample_event ''e1'' 1 (Some ''k'')] [''run:r1'' \<mapsto> 0] empty_database
   = (Inr [(sample_event ''e1'' 1 (Some ''k''))\<lparr>global_position := Some 1\<rparr>],
      \<lparr>event_streams = [''run:r1'' \<mapsto> 1],
       kernel_events = [stamp 1 (sample_event ''e1'' 1 (Some ''k''))], autoincrement = 1\<rparr>)"
  by (simp add: append_many_def append_many_in_transaction_def own_connection_def
      validate_transaction_connection_def validate_append_request_def batch_streams_def Let_def
      sample_event_def idempotent_event_def empty_database_def current_sequence_def
      stream_group_def validate_batch_stream_def insert_event_def insert_allowed_def stamp_def)

theorem append_many_ledger_witness:
  "store_inv (snd (append_many ''p'' [sample_event ''e1'' 1 (Some ''k'')] [''run:r1'' \<mapsto> 0]
     empty_database))"
  using append_many_ledger[OF store_inv_empty, of "[sample_event ''e1'' 1 (Some ''k'')]" "''p''"
      "[''run:r1'' \<mapsto> 0]"] append_sample
  by (simp add: text_ok_first py_space_def code_def)

text \<open>
  Optimistic concurrency: appending one event without an idempotency key succeeds exactly
  when the caller's expected sequence is the length of the stream, the event claims the next
  sequence, its identifier is new and its cause is known; the stream then ends with it. A stale
  expectation is reported as a \<open>ConcurrencyError\<close> carrying the actual sequence, so no update is
  lost.
\<close>

theorem append_optimistic:
  assumes "store_inv db" "idempotency_key e = None"
    and "append path e n db = (res, db')"
  shows "res =
      (if n < 0 then Inl (ValueError ''expected sequence must be non-negative'')
       else if n \<noteq> int (length (stream_view db (stream_id e)))
       then Inl (ConcurrencyError (stream_id e) n (int (length (stream_view db (stream_id e)))))
       else if stream_sequence e \<noteq> n + 1 then Inl EventSequenceError
       else if conflicting db e then Inl EventConflictError
       else Inr (e\<lparr>global_position := Some (autoincrement db + 1)\<rparr>))
    \<and> (case res of Inl _ \<Rightarrow> db' = db
       | Inr o1 \<Rightarrow> stream_view db' (stream_id e) = stream_view db (stream_id e) @ [stored_form o1]
           \<and> event_streams db' (stream_id e) = Some (n + 1))"
  using assms(3) append_unkeyed[OF assms(1,2), of path n]
  by (auto simp: stream_view_def ledger_events_def stamp_row(1) split: if_splits)

theorem append_optimistic_witness:
  "fst (append ''p'' (sample_event ''e1'' 1 None) 3 empty_database)
     = Inl (ConcurrencyError ''run:r1'' 3 0)
   \<and> (\<exists>o1. fst (append ''p'' (sample_event ''e1'' 1 None) 0 empty_database) = Inr o1)"
proof -
  have "stream_view empty_database s = []" for s
    by (simp add: stream_view_def ledger_events_def empty_database_def)
  moreover have "\<not> conflicting empty_database (sample_event ''e1'' 1 None)"
    by (simp add: conflicting_def ledger_events_def empty_database_def sample_event_def)
  ultimately show ?thesis
    using append_optimistic[OF store_inv_empty _ surjective_pairing,
        of "sample_event ''e1'' 1 None" "''p''" 3]
      append_optimistic[OF store_inv_empty _ surjective_pairing,
        of "sample_event ''e1'' 1 None" "''p''" 0]
    by (simp add: sample_event_def)
qed

text \<open>
  C30: A committed batch whose events carry idempotency keys can be retried at any time before
  further writes: the retry returns the stored events and writes nothing, whatever sequences the
  caller expects by then.
\<close>

theorem append_many_retry:
  assumes "store_inv db" "\<forall>e \<in> set batch. event_wf e \<and> idempotency_key e \<noteq> None"
    and "append_many path batch expected db = (Inr out, db')"
    and "\<forall>s \<in> stream_id ` set batch. \<exists>n \<ge> 0. expected' s = Some n"
  shows "append_many path batch expected' db' = (Inr (map stored_form out), db')"
proof -
  have "append_many_in_transaction path (own_connection path) batch expected' db'
      = Inr (map stored_form out, db')"
    using retry_committed_batch[OF assms(1) _ _ append_many_success[OF assms(3)] assms(4)] assms(2)
    by blast
  moreover have "out = []" if "batch = []"
    using that assms(3) by (simp add: append_many_def)
  ultimately show ?thesis by (auto simp: append_many_def)
qed

theorem append_many_retry_witness:
  "append_many ''p'' [sample_event ''e1'' 1 (Some ''k'')] [''run:r1'' \<mapsto> 7]
     (snd (append_many ''p'' [sample_event ''e1'' 1 (Some ''k'')] [''run:r1'' \<mapsto> 0] empty_database))
   = (Inr [stored_form ((sample_event ''e1'' 1 (Some ''k''))\<lparr>global_position := Some 1\<rparr>)],
      snd (append_many ''p'' [sample_event ''e1'' 1 (Some ''k'')] [''run:r1'' \<mapsto> 0] empty_database))"
  unfolding append_sample snd_conv
  by (subst append_many_retry[OF store_inv_empty _ append_sample])
    (simp_all add: text_ok_first py_space_def code_def, simp_all add: sample_event_def)

text \<open>
  C23: Reads are exact: a stream read returns the stream's events after the cursor in order, up to
  the position bound and the limit; a read of the whole ledger returns its events after the
  cursor in commit order. Every stored row decodes.
\<close>

theorem reads_exact:
  assumes "store_inv db" "0 \<le> after" "pred_option (\<lambda>p. 0 \<le> p) through"
    and "pred_option (\<lambda>n. 1 \<le> n) limit"
  shows "read_stream db s after through limit =
      Inr (limit_rows limit
        (filter (\<lambda>e. case through of None \<Rightarrow> True | Some p \<Rightarrow> the (global_position e) \<le> p)
          (drop (nat after) (stream_view db s))))
    \<and> read_all db after limit = Inr (limit_rows limit (drop (nat after) (ledger_events db)))"
  using read_stream_view[OF assms] read_all_ledger[OF assms(1,2,4)] by auto

theorem reads_exact_witness:
  "read_all (snd (append_many ''p'' [sample_event ''e1'' 1 (Some ''k'')] [''run:r1'' \<mapsto> 0]
      empty_database)) 0 (Some 5)
   = Inr [row_event (stamp 1 (sample_event ''e1'' 1 (Some ''k'')))]"
  using reads_exact[of "snd (append_many ''p'' [sample_event ''e1'' 1 (Some ''k'')]
        [''run:r1'' \<mapsto> 0] empty_database)" 0 None "Some 5"]
    append_many_invariant[OF store_inv_empty, of "[sample_event ''e1'' 1 (Some ''k'')]" "''p''"
        "[''run:r1'' \<mapsto> 0]"]
  by (simp add: append_sample text_ok_first py_space_def code_def ledger_events_def limit_rows_def)

text \<open>
  C24: A reader that pages through a stream by the number of events it has seen sees exactly the
  stream, whatever batches other writers commit between its reads.
\<close>

theorem paging_complete:
  assumes "store_inv db" "\<forall>c \<in> set cs. \<forall>e \<in> set (fst c). event_wf e"
    and "read_stream db s 0 None None = Inr seen"
    and "read_stream (committed_after path cs db) s (int (length seen)) None None = Inr new"
  shows "read_stream (committed_after path cs db) s 0 None None = Inr (seen @ new)"
  using ledger.resume[OF assms(1,2), of s seen path new] assms(3,4)
  by (simp add: committed_after_def)

theorem paging_complete_witness:
  "read_stream (committed_after ''p'' [([sample_event ''e1'' 1 (Some ''k'')], [''run:r1'' \<mapsto> 0])]
      empty_database) ''run:r1'' 0 None None
   = Inr ([] @ [row_event (stamp 1 (sample_event ''e1'' 1 (Some ''k'')))])"
proof (rule paging_complete[OF store_inv_empty])
  let ?db = "snd (append_many ''p'' [sample_event ''e1'' 1 (Some ''k'')] [''run:r1'' \<mapsto> 0]
      empty_database)"
  have inv: "store_inv ?db"
    using append_many_invariant[OF store_inv_empty, of "[sample_event ''e1'' 1 (Some ''k'')]"]
    by (simp add: text_ok_first py_space_def code_def)
  show "read_stream empty_database ''run:r1'' 0 None None = Inr []"
    by (simp add: read_stream_def validate_cursor_def empty_database_def limit_rows_def)
  show "read_stream (committed_after ''p'' [([sample_event ''e1'' 1 (Some ''k'')],
      [''run:r1'' \<mapsto> 0])] empty_database) ''run:r1'' (int (length [])) None None
    = Inr [row_event (stamp 1 (sample_event ''e1'' 1 (Some ''k'')))]"
    using read_stream_view[OF inv, of 0 None None "''run:r1''"] append_sample
    by (simp add: committed_after_def limit_rows_def stream_view_def ledger_events_def)
      (simp add: sample_event_def)
qed (simp add: text_ok_first py_space_def code_def)

end
