(* ===== verification/Projections.thy ===== *)
theory Projections
  imports Ledger
begin

text \<open>
  \<open>kernel/projections.py\<close>: deriving state from recorded events. The \<open>Projection\<close> protocol is a
  record of functions; \<open>ProjectionRunner\<close> folds it over the events of the ledger or of one
  stream, from the start or from a checkpoint, and \<open>CheckpointStore\<close> keeps one checkpoint per
  projection, version and scope in the table \<open>projection_checkpoints\<close>.

  A checkpoint row holds the value its text columns decode to, the state with sorted keys.
\<close>

section \<open>Projections and checkpoints\<close>

record 's projection =
  proj_name :: string
  proj_version :: int
  proj_initial :: 's
  proj_apply :: "'s \<Rightarrow> event \<Rightarrow> kernel_error + 's"
  proj_dump :: "'s \<Rightarrow> pyval"
  proj_load :: "pyval \<Rightarrow> kernel_error + 's"

record 'p checkpoint_fields =
  cp_name :: string
  cp_version :: int
  cp_stream :: "string option"
  cp_position :: int
  cp_sequence :: "int option"
  cp_state :: 'p
  cp_hash :: string
  cp_updated :: datetime

type_synonym checkpoint = "json checkpoint_fields"

definition freeze_state :: "pyval \<Rightarrow> kernel_error + json" where
  "freeze_state p =
     (case freeze_json p of
        Inl NonFiniteNumber \<Rightarrow> Inl (ValueError ''state'')
      | Inl e \<Rightarrow> Inl (TypeError ''state'')
      | Inr j \<Rightarrow> Inr j)"

text \<open>\<open>ProjectionCheckpoint.__post_init__\<close>.\<close>

definition projection_checkpoint :: "pyval checkpoint_fields \<Rightarrow> kernel_error + checkpoint" where
  "projection_checkpoint raw =
     ebind (check (ValueError ''projection_name'') (py_strip (cp_name raw) \<noteq> [])) (\<lambda>_.
     ebind (check (ValueError ''projection_version'') (1 \<le> cp_version raw)) (\<lambda>_.
     ebind (check (ValueError ''last_global_position'') (0 \<le> cp_position raw)) (\<lambda>_.
     ebind (check (ValueError ''last_stream_sequence'') (pred_option (\<lambda>n. 0 \<le> n) (cp_sequence raw))) (\<lambda>_.
     ebind (check (ValueError ''updated_at'') (aware (cp_updated raw))) (\<lambda>_.
     ebind (freeze_state (cp_state raw)) (\<lambda>frozen.
     ebind (check (ValueError ''state_hash'') (json_digest frozen = cp_hash raw)) (\<lambda>_.
     Inr \<lparr>cp_name = cp_name raw, cp_version = cp_version raw, cp_stream = cp_stream raw,
          cp_position = cp_position raw, cp_sequence = cp_sequence raw, cp_state = frozen,
          cp_hash = cp_hash raw, cp_updated = cp_updated raw\<rparr>)))))))"

definition create_checkpoint ::
    "datetime \<Rightarrow> string \<Rightarrow> int \<Rightarrow> pyval \<Rightarrow> int \<Rightarrow> string option \<Rightarrow> int option
     \<Rightarrow> datetime option \<Rightarrow> kernel_error + checkpoint" where
  "create_checkpoint now name version state position stream sequence updated =
     ebind (freeze_state state) (\<lambda>frozen.
     projection_checkpoint
       \<lparr>cp_name = name, cp_version = version, cp_stream = stream, cp_position = position,
        cp_sequence = sequence, cp_state = thaw_json frozen, cp_hash = json_digest frozen,
        cp_updated = (case updated of None \<Rightarrow> now | Some d \<Rightarrow> d)\<rparr>)"

record 's replay_result =
  rr_state :: 's
  rr_hash :: string
  rr_processed :: nat
  rr_position :: int
  rr_sequence :: "int option"

text \<open>\<open>ReplayResult.checkpoint\<close>.\<close>

definition result_checkpoint ::
    "datetime \<Rightarrow> 's replay_result \<Rightarrow> 's projection \<Rightarrow> string option \<Rightarrow> kernel_error + checkpoint" where
  "result_checkpoint now r P stream =
     create_checkpoint now (proj_name P) (proj_version P) (proj_dump P (rr_state r)) (rr_position r)
       stream (if stream = None then None else rr_sequence r) None"

section \<open>The checkpoint table\<close>

type_synonym checkpoint_table = "string \<times> int \<times> string \<rightharpoonup> checkpoint"

definition scope :: "string option \<Rightarrow> kernel_error + string" where
  "scope stream =
     (case stream of
        None \<Rightarrow> Inr ''*''
      | Some s \<Rightarrow>
          if s = ''*'' then Inl (ValueError ''reserved scope'')
          else if py_strip s = [] then Inl (ValueError ''stream_id'')
          else Inr s)"

definition raw_checkpoint :: "checkpoint \<Rightarrow> pyval checkpoint_fields" where
  "raw_checkpoint c = \<lparr>cp_name = cp_name c, cp_version = cp_version c, cp_stream = cp_stream c,
     cp_position = cp_position c, cp_sequence = cp_sequence c, cp_state = thaw_json (cp_state c),
     cp_hash = cp_hash c, cp_updated = cp_updated c\<rparr>"

definition checkpoint_from_row :: "checkpoint \<Rightarrow> kernel_error + checkpoint" where
  "checkpoint_from_row row = projection_checkpoint (raw_checkpoint row)"

definition load_checkpoint ::
    "string \<Rightarrow> int \<Rightarrow> string option \<Rightarrow> checkpoint_table \<Rightarrow> kernel_error + checkpoint option" where
  "load_checkpoint name version stream t =
     ebind (scope stream) (\<lambda>sc.
     case t (name, version, sc) of
       None \<Rightarrow> Inr None
     | Some row \<Rightarrow> ebind (checkpoint_from_row row) (\<lambda>c. Inr (Some c)))"

definition save_checkpoint ::
    "checkpoint \<Rightarrow> int option \<Rightarrow> checkpoint_table \<Rightarrow> kernel_error + checkpoint \<times> checkpoint_table" where
  "save_checkpoint c expected t =
     ebind (scope (cp_stream c)) (\<lambda>sc.
     let key = (cp_name c, cp_version c, sc); row = t key;
         current = (case row of None \<Rightarrow> 0 | Some r \<Rightarrow> cp_position r)
     in
     ebind (check ProjectionConflict (case expected of None \<Rightarrow> True | Some n \<Rightarrow> n = current)) (\<lambda>_.
     ebind (check ProjectionConflict (\<not> cp_position c < current)) (\<lambda>_.
     case row of
       Some r \<Rightarrow>
         if cp_position c = current
         then if cp_hash r = cp_hash c \<and> cp_sequence r = cp_sequence c
              then ebind (checkpoint_from_row r) (\<lambda>existing. Inr (existing, t))
              else Inl ProjectionConflict
         else Inr (c, t(key \<mapsto> c\<lparr>cp_state := norm_json (cp_state c)\<rparr>))
     | None \<Rightarrow> Inr (c, t(key \<mapsto> c\<lparr>cp_state := norm_json (cp_state c)\<rparr>)))))"

section \<open>Replay\<close>

definition validate_checkpoint :: "'s projection \<Rightarrow> checkpoint \<Rightarrow> kernel_error + unit" where
  "validate_checkpoint P c =
     ebind (check (ValueError ''different projection'') (cp_name c = proj_name P)) (\<lambda>_.
     check (ValueError ''different projection version'') (cp_version c = proj_version P))"

text \<open>The loop of \<open>ProjectionRunner.replay\<close>. \<open>only\<close> is the stream of a stream checkpoint; the state,
  the last position and sequence, the number of processed events and the previous input position
  are its local variables.\<close>

fun replay_loop ::
    "'s projection \<Rightarrow> string option \<Rightarrow> 's \<Rightarrow> int \<Rightarrow> int option \<Rightarrow> nat \<Rightarrow> int \<Rightarrow> event list
     \<Rightarrow> kernel_error + 's \<times> int \<times> int option \<times> nat" where
  "replay_loop P only s last_pos last_seq processed prev [] = Inr (s, last_pos, last_seq, processed)"
| "replay_loop P only s last_pos last_seq processed prev (e # es) =
     (case global_position e of
        None \<Rightarrow> Inl (ValueError ''historical replay'')
      | Some g \<Rightarrow>
          if g \<le> prev then Inl (ValueError ''replay order'')
          else if g \<le> last_pos then replay_loop P only s last_pos last_seq processed g es
          else if only \<noteq> None \<and> stream_id e \<noteq> the only then Inl (ValueError ''different stream'')
          else ebind (proj_apply P s e) (\<lambda>s'.
               replay_loop P only s' g (Some (stream_sequence e)) (processed + 1) g es))"

definition replay ::
    "'s projection \<Rightarrow> event list \<Rightarrow> checkpoint option \<Rightarrow> kernel_error + 's replay_result" where
  "replay P es cp =
     ebind (check (ValueError ''projection version'') (1 \<le> proj_version P)) (\<lambda>_.
     ebind (case cp of
              None \<Rightarrow> Inr (proj_initial P, 0, None)
            | Some c \<Rightarrow> ebind (validate_checkpoint P c) (\<lambda>_.
                ebind (proj_load P (thaw_json (cp_state c))) (\<lambda>s.
                Inr (s, cp_position c, cp_sequence c)))) (\<lambda>(s0, p0, q0).
     ebind (replay_loop P (Option.bind cp cp_stream) s0 p0 q0 0 0 es) (\<lambda>(s, p, q, n).
     ebind (freeze_state (proj_dump P s)) (\<lambda>serialized.
     Inr \<lparr>rr_state = s, rr_hash = json_digest serialized, rr_processed = n, rr_position = p,
          rr_sequence = q\<rparr>))))"

definition rebuild ::
    "database \<Rightarrow> 's projection \<Rightarrow> string option \<Rightarrow> checkpoint option
     \<Rightarrow> kernel_error + 's replay_result" where
  "rebuild db P stream cp =
     ebind (case stream of
              None \<Rightarrow> read_all db (case cp of None \<Rightarrow> 0 | Some c \<Rightarrow> cp_position c) None
            | Some s \<Rightarrow>
                read_stream db s
                  (case Option.bind cp cp_sequence of None \<Rightarrow> 0 | Some n \<Rightarrow> n) None None)
       (\<lambda>es. replay P es cp)"

section \<open>Replay is the fold of the projection\<close>

fun positions_after :: "int \<Rightarrow> event list \<Rightarrow> bool" where
  "positions_after p [] = True"
| "positions_after p (e # es) =
     (case global_position e of None \<Rightarrow> False | Some g \<Rightarrow> p < g \<and> positions_after g es)"

definition last_position :: "int \<Rightarrow> event list \<Rightarrow> int" where
  "last_position p es = (if es = [] then p else the (global_position (last es)))"

definition last_sequence :: "int option \<Rightarrow> event list \<Rightarrow> int option" where
  "last_sequence q es = (if es = [] then q else Some (stream_sequence (last es)))"

lemma positions_after_mono: "positions_after p es \<Longrightarrow> q \<le> p \<Longrightarrow> positions_after q es"
  by (cases es) (auto split: option.splits)

lemma positions_after_filter: "positions_after p es \<Longrightarrow> positions_after p (filter P es)"
  by (induction es arbitrary: p)
    (auto split: option.splits intro: positions_after_mono[OF _ less_imp_le])

lemma positions_after_append:
  "positions_after p (xs @ ys) \<Longrightarrow> positions_after (last_position p xs) ys"
  by (induction xs arbitrary: p) (auto simp: last_position_def split: option.splits if_splits)

lemma last_position_append: "last_position p (xs @ ys) = last_position (last_position p xs) ys"
  by (simp add: last_position_def)

lemma last_sequence_append: "last_sequence q (xs @ ys) = last_sequence (last_sequence q xs) ys"
  by (simp add: last_sequence_def)

lemma last_position_ge: "positions_after p es \<Longrightarrow> p \<le> last_position p es"
  by (induction es arbitrary: p) (fastforce simp: last_position_def split: option.splits if_splits)+

lemma replay_loop_fold:
  assumes "positions_after (max lp prev) es" "\<forall>e \<in> set es. only \<noteq> None \<longrightarrow> stream_id e = the only"
  shows "replay_loop P only s lp lq n prev es = ebind (efold (proj_apply P) s es) (\<lambda>s'.
    Inr (s', last_position lp es, last_sequence lq es, n + length es))"
  using assms
proof (induction es arbitrary: s lp lq n prev)
  case (Cons e es)
  then obtain g where g: "global_position e = Some g" "max lp prev < g" "positions_after g es"
    by (auto split: option.splits)
  have "replay_loop P only s' g (Some (stream_sequence e)) (n + 1) g es
      = ebind (efold (proj_apply P) s' es) (\<lambda>s''. Inr (s'', last_position g es,
          last_sequence (Some (stream_sequence e)) es, n + 1 + length es))" for s'
    using Cons.IH[of g g s' "Some (stream_sequence e)" "n + 1"] Cons.prems(2) g(3) by simp
  moreover have "last_position g es = last_position lp (e # es)"
    "last_sequence (Some (stream_sequence e)) es = last_sequence lq (e # es)"
    using g(1) by (simp_all add: last_position_def last_sequence_def)
  ultimately show ?case using g Cons.prems(2) by (auto simp: ebind_assoc)
qed (simp add: last_position_def last_sequence_def)

text \<open>What a fresh rebuild computes: the state and the place it stands for.\<close>

definition fold_result ::
    "'s projection \<Rightarrow> 's \<Rightarrow> int \<Rightarrow> int option \<Rightarrow> event list \<Rightarrow> kernel_error + 's replay_result" where
  "fold_result P s p q es =
     ebind (efold (proj_apply P) s es) (\<lambda>s'.
     ebind (freeze_state (proj_dump P s')) (\<lambda>serialized.
     Inr \<lparr>rr_state = s', rr_hash = json_digest serialized, rr_processed = length es,
          rr_position = last_position p es, rr_sequence = last_sequence q es\<rparr>))"

lemma replay_fresh:
  assumes "positions_after 0 es"
  shows "replay P es None =
    (if proj_version P < 1 then Inl (ValueError ''projection version'')
     else fold_result P (proj_initial P) 0 None es)"
  using assms by (simp add: replay_def replay_loop_fold fold_result_def ebind_assoc)

text \<open>The events of a scope: the whole ledger, or one stream.\<close>

definition scope_events :: "database \<Rightarrow> string option \<Rightarrow> event list" where
  "scope_events db stream = (case stream of None \<Rightarrow> ledger_events db | Some s \<Rightarrow> stream_view db s)"

lemma ledger_positions_after:
  assumes "map global_position es = map (\<lambda>i. Some (b + 1 + int i)) [0..<length es]"
  shows "positions_after b es"
  using assms
proof (induction es arbitrary: b)
  case (Cons e es)
  then have "global_position e = Some (b + 1)"
    "map global_position es = map (\<lambda>i. Some (b + 1 + 1 + int i)) [0..<length es]"
    by (simp_all add: map_upt_Suc algebra_simps del: upt_Suc)
  with Cons.IH[of "b + 1"] show ?case by simp
qed simp

lemma ledger_positions:
  assumes "store_inv db"
  shows "map global_position (ledger_events db) = map (\<lambda>i. Some (int (Suc i))) [0..<length (ledger_events db)]"
  using assms by (simp add: store_inv_def rows_inv_def ledger_events_def comp_def)

lemma scope_positions:
  assumes "store_inv db" shows "positions_after 0 (scope_events db stream)"
proof -
  have "positions_after 0 (ledger_events db)"
    by (rule ledger_positions_after) (use ledger_positions[OF assms] in simp)
  then show ?thesis
    by (auto simp: scope_events_def stream_view_def positions_after_filter split: option.split)
qed

lemma rebuild_fresh:
  assumes "store_inv db"
  shows "rebuild db P stream None =
    (if proj_version P < 1 then Inl (ValueError ''projection version'')
     else fold_result P (proj_initial P) 0 None (scope_events db stream))"
  using read_all_ledger[OF assms, of 0 None] read_stream_view[OF assms, of 0 None None]
    replay_fresh[OF scope_positions[OF assms, of stream], of P]
  by (cases stream) (auto simp: rebuild_def scope_events_def limit_rows_def)

lemma result_checkpoint_fields:
  assumes "result_checkpoint now r P stream = Inr c"
  shows "cp_name c = proj_name P \<and> cp_version c = proj_version P \<and> cp_stream c = stream
    \<and> cp_position c = rr_position r \<and> cp_sequence c = (if stream = None then None else rr_sequence r)
    \<and> freeze_json (proj_dump P (rr_state r)) = Inr (cp_state c) \<and> 1 \<le> cp_version c"
  using assms
  by (auto simp: result_checkpoint_def create_checkpoint_def projection_checkpoint_def ebind_eq_Inr
      freeze_state_def freeze_thaw split: json_error.splits sum.splits if_splits)

lemma stream_sequences:
  assumes "store_inv db"
  shows "(case last_sequence None (stream_view db s) of None \<Rightarrow> 0 | Some n \<Rightarrow> n)
    = int (length (stream_view db s))"
proof (cases "stream_view db s = []")
  case False
  have "map stream_sequence (stream_view db s) = map int [1..<Suc (length (stream_view db s))]"
    using assms by (simp add: store_inv_def streams_inv_def)
  then have "last (map stream_sequence (stream_view db s))
      = last (map int [1..<Suc (length (stream_view db s))])" by (rule arg_cong)
  then show ?thesis using False by (simp add: last_map last_sequence_def Suc_le_eq)
qed (simp add: last_sequence_def)

lemma ledger_last_position:
  assumes "store_inv db"
  shows "last_position 0 (ledger_events db) = int (length (ledger_events db))"
proof (cases "ledger_events db = []")
  case False
  have "last (map global_position (ledger_events db))
      = last (map (\<lambda>i. Some (int (Suc i))) [0..<length (ledger_events db)])"
    by (rule arg_cong[OF ledger_positions[OF assms]])
  with False show ?thesis
    by (simp add: last_map last_position_def) (cases "ledger_events db"; simp)
qed (simp add: last_position_def)

text \<open>Reading from a checkpoint finds exactly the events appended since.\<close>

lemma checkpointed_read:
  assumes inv: "store_inv db" "store_inv db'"
    and grown: "scope_events db' stream = scope_events db stream @ new"
    and position: "cp_position c = last_position 0 (scope_events db stream)"
    and sequence: "cp_sequence c =
        (if stream = None then None else last_sequence None (scope_events db stream))"
  shows "rebuild db' P stream (Some c) = replay P new (Some c)"
proof (cases stream)
  case None
  then have "read_all db' (cp_position c) None = Inr new"
    using read_all_ledger[OF inv(2), of "cp_position c" None] grown position
      ledger_last_position[OF inv(1)] by (simp add: scope_events_def limit_rows_def)
  then show ?thesis using None by (simp add: rebuild_def)
next
  case (Some s)
  then have "(case cp_sequence c of None \<Rightarrow> 0 | Some n \<Rightarrow> n) = int (length (stream_view db s))"
    using sequence stream_sequences[OF inv(1), of s] by (simp add: scope_events_def)
  then have "read_stream db' s (case cp_sequence c of None \<Rightarrow> 0 | Some n \<Rightarrow> n) None None = Inr new"
    using read_stream_view[OF inv(2), of "int (length (stream_view db s))" None None s] grown Some
    by (simp add: scope_events_def limit_rows_def)
  then show ?thesis using Some by (simp add: rebuild_def)
qed

lemma replay_from_checkpoint:
  assumes v: "validate_checkpoint P c = Inr ()" "1 \<le> proj_version P"
    and load: "proj_load P (thaw_json (cp_state c)) = Inr s"
    and pos: "0 \<le> cp_position c" "positions_after (cp_position c) es"
    and only: "\<forall>e \<in> set es. cp_stream c \<noteq> None \<longrightarrow> stream_id e = the (cp_stream c)"
  shows "replay P es (Some c) = fold_result P s (cp_position c) (cp_sequence c) es"
  using assms
  by (simp add: replay_def replay_loop_fold fold_result_def ebind_assoc)

text \<open>A rebuild result up to the event count and, outside a stream, the stream sequence.\<close>

definition result_view ::
    "string option \<Rightarrow> 's replay_result \<Rightarrow> 's \<times> string \<times> int \<times> int option" where
  "result_view stream r = (rr_state r, rr_hash r, rr_position r,
     if stream = None then None else rr_sequence r)"

definition emap :: "('a \<Rightarrow> 'b) \<Rightarrow> 'e + 'a \<Rightarrow> 'e + 'b" where
  "emap f m = ebind m (\<lambda>x. Inr (f x))"

lemma checkpointed_rebuild_view:
  assumes inv: "store_inv db" "store_inv db'" and rows: "kernel_events db' = kernel_events db @ rows"
    and fresh: "rebuild db P stream None = Inr r"
    and cp: "result_checkpoint now r P stream = Inr c"
    and law: "\<And>s j. freeze_json (proj_dump P s) = Inr j \<Longrightarrow> proj_load P (thaw_json j) = Inr s"
  shows "emap (result_view stream) (rebuild db' P stream (Some c))
    = emap (result_view stream) (rebuild db' P stream None)"
proof -
  let ?old = "scope_events db stream"
  obtain new where grown: "scope_events db' stream = ?old @ new"
    by (cases stream) (auto simp: scope_events_def ledger_events_def stream_view_def rows)
  from fresh have version: "1 \<le> proj_version P"
    and r: "fold_result P (proj_initial P) 0 None ?old = Inr r"
    by (auto simp: rebuild_fresh[OF inv(1)] split: if_splits)
  then obtain s where s: "efold (proj_apply P) (proj_initial P) ?old = Inr s" "rr_state r = s"
    "rr_position r = last_position 0 ?old" "rr_sequence r = last_sequence None ?old"
    by (auto simp: fold_result_def ebind_eq_Inr)
  note c = result_checkpoint_fields[OF cp]
  have "positions_after 0 (?old @ new)" using scope_positions[OF inv(2), of stream] grown by simp
  then have pos: "positions_after (cp_position c) new" "0 \<le> cp_position c"
    using c s(3) positions_after_append scope_positions[OF inv(1), of stream] last_position_ge
    by auto
  have only: "\<forall>e \<in> set new. cp_stream c \<noteq> None \<longrightarrow> stream_id e = the (cp_stream c)"
  proof -
    have "set new \<subseteq> set (scope_events db' stream)" using grown by simp
    then show ?thesis using c by (auto simp: scope_events_def stream_view_def split: option.splits)
  qed
  have "rebuild db' P stream (Some c) = replay P new (Some c)"
    by (rule checkpointed_read[OF inv grown]) (use c s in auto)
  also have "\<dots> = fold_result P s (cp_position c) (cp_sequence c) new"
    using replay_from_checkpoint[OF _ version _ pos(2,1) only, of s] law[of s "cp_state c"] c s(2)
    by (simp add: validate_checkpoint_def)
  finally have resumed: "rebuild db' P stream (Some c)
      = fold_result P s (cp_position c) (cp_sequence c) new" .
  have full: "rebuild db' P stream None = fold_result P (proj_initial P) 0 None (?old @ new)"
    using version by (simp add: rebuild_fresh[OF inv(2)] grown)
  show ?thesis
    unfolding resumed full using c s
    by (auto simp: emap_def fold_result_def efold_append ebind_assoc result_view_def
        last_position_append last_sequence_append)
qed

section \<open>The checkpoint table never regresses\<close>

definition checkpoint_wf :: "checkpoint \<Rightarrow> bool" where
  "checkpoint_wf c \<longleftrightarrow> py_strip (cp_name c) \<noteq> [] \<and> 1 \<le> cp_version c \<and> 0 \<le> cp_position c
     \<and> pred_option (\<lambda>n. 0 \<le> n) (cp_sequence c) \<and> aware (cp_updated c)
     \<and> cp_hash c = json_digest (cp_state c)"

definition table_wf :: "checkpoint_table \<Rightarrow> bool" where
  "table_wf t \<longleftrightarrow> (\<forall>k c. t k = Some c \<longrightarrow> checkpoint_wf c)"

lemma projection_checkpoint_wf: "projection_checkpoint raw = Inr c \<Longrightarrow> checkpoint_wf c"
  by (auto simp: checkpoint_wf_def projection_checkpoint_def ebind_eq_Inr split: if_splits)

lemma freeze_state_thaw [simp]: "freeze_state (thaw_json j) = Inr j"
  by (simp add: freeze_state_def freeze_thaw)

lemma checkpoint_from_row_wf: "checkpoint_wf c \<Longrightarrow> checkpoint_from_row c = Inr c"
  by (simp add: checkpoint_wf_def checkpoint_from_row_def projection_checkpoint_def
      raw_checkpoint_def)

lemma json_digest_norm: "json_digest (norm_json j) = json_digest j"
  by (simp add: json_digest_def json_bytes_def dumps_norm)

lemma checkpoint_wf_norm:
  "checkpoint_wf c \<Longrightarrow> checkpoint_wf (c\<lparr>cp_state := norm_json (cp_state c)\<rparr>)"
  by (simp add: checkpoint_wf_def json_digest_norm)

definition table_position :: "checkpoint_table \<Rightarrow> string \<times> int \<times> string \<Rightarrow> int" where
  "table_position t k = (case t k of None \<Rightarrow> 0 | Some c \<Rightarrow> cp_position c)"

lemma save_checkpoint_cases:
  assumes "save_checkpoint c expected t = Inr (out, t')" "table_wf t"
  obtains (same) sc r where "scope (cp_stream c) = Inr sc" "t (cp_name c, cp_version c, sc) = Some r"
      "cp_position r = cp_position c" "cp_hash r = cp_hash c" "cp_sequence r = cp_sequence c"
      "out = r" "t' = t"
  | (stored) sc where "scope (cp_stream c) = Inr sc"
      "table_position t (cp_name c, cp_version c, sc) \<le> cp_position c" "out = c"
      "t' = t((cp_name c, cp_version c, sc) \<mapsto> c\<lparr>cp_state := norm_json (cp_state c)\<rparr>)"
proof -
  have wf: "checkpoint_from_row r = Inr r" if "t k = Some r" for k r
    by (rule checkpoint_from_row_wf) (use that assms(2) in \<open>unfold table_wf_def, blast\<close>)
  from assms(1) obtain sc where sc: "scope (cp_stream c) = Inr sc"
    unfolding save_checkpoint_def by (elim ebind_InrE)
  let ?k = "(cp_name c, cp_version c, sc)"
  have le: "table_position t ?k \<le> cp_position c"
    using assms(1) sc
    by (auto simp: save_checkpoint_def Let_def table_position_def split: if_splits)
  show thesis
  proof (cases "t ?k")
    case None
    with assms(1) sc le stored show thesis
      by (auto simp add: save_checkpoint_def Let_def split: if_splits option.splits)
  next
    case (Some r)
    with assms(1) sc wf[OF Some] have
      "if cp_position c = cp_position r
       then cp_hash r = cp_hash c \<and> cp_sequence r = cp_sequence c \<and> out = r \<and> t' = t
       else out = c \<and> t' = t(?k \<mapsto> c\<lparr>cp_state := norm_json (cp_state c)\<rparr>)"
      by (auto simp add: save_checkpoint_def Let_def split: if_splits option.splits)
    with Some sc le same stored show thesis by (metis (full_types))
  qed
qed

lemma save_checkpoint_monotone:
  assumes "save_checkpoint c expected t = Inr (out, t')" "table_wf t" "checkpoint_wf c"
  shows "table_wf t' \<and> (\<forall>k. table_position t k \<le> table_position t' k)"
  using assms
proof (cases rule: save_checkpoint_cases)
  case (stored sc)
  with assms(2,3) show ?thesis
    by (auto simp: table_wf_def table_position_def intro: checkpoint_wf_norm)
qed (use assms in \<open>auto simp: table_wf_def\<close>)

lemma save_checkpoint_loads:
  assumes save: "save_checkpoint c expected t = Inr (out, t')" "table_wf t" "checkpoint_wf c"
  shows "\<exists>c'. load_checkpoint (cp_name c) (cp_version c) (cp_stream c) t' = Inr (Some c')
    \<and> cp_position c' = cp_position c \<and> cp_sequence c' = cp_sequence c \<and> cp_hash c' = cp_hash c"
  using save(1,2)
proof (cases rule: save_checkpoint_cases)
  case (same sc r)
  then have "checkpoint_wf r" using save(2) by (auto simp: table_wf_def)
  with same show ?thesis by (simp add: load_checkpoint_def checkpoint_from_row_wf)
next
  case (stored sc)
  then show ?thesis
    using checkpoint_from_row_wf[OF checkpoint_wf_norm[OF save(3)]]
    by (simp add: load_checkpoint_def)
qed

lemma save_checkpoint_again:
  assumes save: "save_checkpoint c expected t = Inr (out, t')" "table_wf t" "checkpoint_wf c"
  shows "\<exists>again. save_checkpoint c None t' = Inr (again, t')"
  using save(1,2)
proof (cases rule: save_checkpoint_cases)
  case (same sc r)
  then have "checkpoint_wf r" using save(2) by (auto simp: table_wf_def)
  with same show ?thesis by (simp add: save_checkpoint_def checkpoint_from_row_wf)
next
  case (stored sc)
  then show ?thesis
    using checkpoint_from_row_wf[OF checkpoint_wf_norm[OF save(3)]]
    by (simp add: save_checkpoint_def)
qed

section \<open>Properties\<close>

text \<open>A projection that counts events, for concrete inputs.\<close>

definition event_counter :: "int projection" where
  "event_counter = \<lparr>proj_name = ''counter'', proj_version = 1, proj_initial = 0,
     proj_apply = (\<lambda>n e. Inr (n + 1)), proj_dump = PyInt,
     proj_load = (\<lambda>v. case v of PyInt n \<Rightarrow> Inr n | _ \<Rightarrow> Inl (TypeError ''state''))\<rparr>"

text \<open>
  C13: Rebuilding a projection from a checkpoint taken earlier gives what rebuilding it from the
  start gives: the same error, or the same state, state hash, position and, for a stream, stream
  sequence, whatever was appended to the ledger since the checkpoint was taken. The projection
  must restore a state from what it dumped.
\<close>

theorem checkpointed_rebuild:
  assumes "store_inv db" "store_inv db'" "kernel_events db' = kernel_events db @ rows"
    and "rebuild db P stream None = Inr r" "result_checkpoint now r P stream = Inr c"
    and "\<And>s j. freeze_json (proj_dump P s) = Inr j \<Longrightarrow> proj_load P (thaw_json j) = Inr s"
  shows "emap (result_view stream) (rebuild db' P stream (Some c))
    = emap (result_view stream) (rebuild db' P stream None)"
  by (rule checkpointed_rebuild_view[OF assms(1-5)]) (rule assms(6))

theorem checkpointed_rebuild_witness:
  "\<exists>r c. rebuild empty_database event_counter None None = Inr r
     \<and> result_checkpoint (utc 0) r event_counter None = Inr c
     \<and> emap (result_view None) (rebuild (snd (append_many ''p'' [sample_event ''e1'' 1 (Some ''k'')]
           [''run:r1'' \<mapsto> 0] empty_database)) event_counter None (Some c))
       = emap (result_view None) (rebuild (snd (append_many ''p'' [sample_event ''e1'' 1 (Some ''k'')]
           [''run:r1'' \<mapsto> 0] empty_database)) event_counter None None)"
proof -
  let ?db = "snd (append_many ''p'' [sample_event ''e1'' 1 (Some ''k'')] [''run:r1'' \<mapsto> 0]
      empty_database)"
  have inv: "store_inv ?db"
    using append_many_invariant[OF store_inv_empty, of "[sample_event ''e1'' 1 (Some ''k'')]"]
    by (simp add: text_ok_first py_space_def code_def)
  have events: "scope_events empty_database None = []"
    by (simp add: scope_events_def ledger_events_def empty_database_def)
  have rows: "kernel_events ?db = kernel_events empty_database
      @ [stamp 1 (sample_event ''e1'' 1 (Some ''k''))]"
    unfolding append_sample by (simp add: empty_database_def)
  define r where "r = \<lparr>rr_state = 0 :: int, rr_hash = json_digest (JInt 0), rr_processed = 0,
      rr_position = 0, rr_sequence = None\<rparr>"
  have r: "rebuild empty_database event_counter None None = Inr r"
    by (simp add: rebuild_fresh[OF store_inv_empty] events fold_result_def event_counter_def r_def
        freeze_state_def last_position_def last_sequence_def)
  obtain c where c: "result_checkpoint (utc 0) r event_counter None = Inr c"
    by (auto simp: result_checkpoint_def create_checkpoint_def projection_checkpoint_def r_def
        event_counter_def freeze_state_def aware_def utc_def py_strip_def py_space_def code_def)
  have law: "proj_load event_counter (thaw_json j) = Inr s"
    if "freeze_json (proj_dump event_counter s) = Inr j" for s j
    using that by (auto simp: event_counter_def)
  show ?thesis
    using r c checkpointed_rebuild[OF store_inv_empty inv rows r c law] by blast
qed

text \<open>
  C31: The checkpoint table never regresses: a successful save keeps every row valid, lowers no
  recorded position, and afterwards the scope loads a checkpoint with the saved position,
  sequence and state hash; saving the same checkpoint again changes nothing. A save below the
  recorded position, or with another state at it, fails.
\<close>

theorem save_checkpoint_safe:
  assumes "table_wf t" "checkpoint_wf c" "save_checkpoint c expected t = Inr (out, t')"
  shows "table_wf t' \<and> (\<forall>k. table_position t k \<le> table_position t' k)
    \<and> (\<exists>c'. load_checkpoint (cp_name c) (cp_version c) (cp_stream c) t' = Inr (Some c')
         \<and> cp_position c' = cp_position c \<and> cp_sequence c' = cp_sequence c
         \<and> cp_hash c' = cp_hash c)
    \<and> (\<exists>again. save_checkpoint c None t' = Inr (again, t'))"
  using save_checkpoint_monotone[OF assms(3,1,2)] save_checkpoint_loads[OF assms(3,1,2)]
    save_checkpoint_again[OF assms(3,1,2)] by blast

theorem save_checkpoint_safe_witness:
  "\<exists>t'. save_checkpoint \<lparr>cp_name = ''p'', cp_version = 1, cp_stream = None, cp_position = 4,
        cp_sequence = None, cp_state = JInt 2, cp_hash = json_digest (JInt 2), cp_updated = utc 0\<rparr>
      None Map.empty = Inr (\<lparr>cp_name = ''p'', cp_version = 1, cp_stream = None, cp_position = 4,
        cp_sequence = None, cp_state = JInt 2, cp_hash = json_digest (JInt 2), cp_updated = utc 0\<rparr>, t')
     \<and> table_wf t'"
proof -
  let ?c = "\<lparr>cp_name = ''p'', cp_version = 1, cp_stream = None, cp_position = 4,
        cp_sequence = None, cp_state = JInt 2, cp_hash = json_digest (JInt 2), cp_updated = utc 0\<rparr>"
  have wf: "table_wf Map.empty" "checkpoint_wf ?c"
    by (simp_all add: table_wf_def checkpoint_wf_def aware_def utc_def py_strip_def py_space_def
        code_def)
  obtain t' where "save_checkpoint ?c None Map.empty = Inr (?c, t')"
    by (simp add: save_checkpoint_def scope_def)
  with save_checkpoint_safe[OF wf this] show ?thesis by blast
qed

end
