(* ===== verification/Artifacts.thy ===== *)
theory Artifacts
  imports Projections
begin

text \<open>
  \<open>kernel/artifacts.py\<close>: the content-addressed artifact store, metadata rows in the table
  \<open>kernel_artifacts\<close> and one blob file per digest, with the optional quota on stored bytes.

  The state is the list of rows and the map from blob paths to file contents. A failed call
  rolls the table back; a blob written before the failure would stay, which the code can only
  reach when the process dies, so an operation returns the old state with its error.
\<close>

record artifact_ref =
  ar_digest :: string
  ar_size :: int
  ar_media :: string
  ar_encoding :: "string option"
  ar_created :: datetime

record artifact_db =
  artifact_rows :: "artifact_ref list"
  blobs :: "string \<rightharpoonup> string"

definition validate_digest :: "string \<Rightarrow> kernel_error + unit" where
  "validate_digest d =
     (let hexadecimal = removeprefix d ''sha256:'' in
      ebind (check (ValueError ''digest'') (startswith d ''sha256:'' \<and> length hexadecimal = 64)) (\<lambda>_.
      check (ValueError ''digest'') (py_int16_ok hexadecimal)))"

definition relative_path :: "string \<Rightarrow> kernel_error + string" where
  "relative_path d =
     ebind (validate_digest d) (\<lambda>_.
     let h = removeprefix d ''sha256:'' in
     Inr (join ''/'' [''sha256'', take 2 h, take 2 (drop 2 h), h]))"

definition find_artifact :: "artifact_db \<Rightarrow> string \<Rightarrow> artifact_ref option" where
  "find_artifact db d = find (\<lambda>r. ar_digest r = d) (artifact_rows db)"

definition verify_path :: "artifact_db \<Rightarrow> string \<Rightarrow> string \<Rightarrow> int \<Rightarrow> kernel_error + unit" where
  "verify_path db path d n =
     (case blobs db path of
        None \<Rightarrow> Inl ArtifactIntegrityError
      | Some data \<Rightarrow>
          check ArtifactIntegrityError (int (length data) = n \<and> bytes_digest data = d))"

definition write_once :: "string \<Rightarrow> string \<Rightarrow> string \<Rightarrow> artifact_db \<Rightarrow> kernel_error + artifact_db" where
  "write_once path data d db =
     (if blobs db path \<noteq> None
      then ebind (verify_path db path d (int (length data))) (\<lambda>_. Inr db)
      else Inr (db\<lparr>blobs := (blobs db)(path \<mapsto> data)\<rparr>))"

definition used_bytes :: "artifact_db \<Rightarrow> int" where
  "used_bytes db = sum_list (map ar_size (artifact_rows db))"

definition put_bytes ::
    "int option \<Rightarrow> datetime \<Rightarrow> string \<Rightarrow> string \<Rightarrow> string option \<Rightarrow> artifact_db
     \<Rightarrow> (kernel_error + artifact_ref) \<times> artifact_db" where
  "put_bytes max_total now data media encoding db =
     (case
        ebind (check (ValueError ''media_type'') (py_strip media \<noteq> [])) (\<lambda>_.
        let d = bytes_digest data in
        ebind (relative_path d) (\<lambda>path.
        case find_artifact db d of
          Some r \<Rightarrow> ebind (verify_path db path d (ar_size r)) (\<lambda>_. Inr (r, db))
        | None \<Rightarrow>
            ebind (check ArtifactQuotaExceededError
              (case max_total of None \<Rightarrow> True
               | Some m \<Rightarrow> \<not> used_bytes db + int (length data) > m)) (\<lambda>_.
            ebind (write_once path data d db) (\<lambda>db1.
            let r = \<lparr>ar_digest = d, ar_size = int (length data), ar_media = media,
                     ar_encoding = encoding, ar_created = now\<rparr>
            in Inr (r, db1\<lparr>artifact_rows := artifact_rows db1 @ [r]\<rparr>)))))
      of Inl e \<Rightarrow> (Inl e, db) | Inr (r, db') \<Rightarrow> (Inr r, db'))"

text \<open>\<open>put_text\<close> with its default encoding, and \<open>put_json\<close>.\<close>

definition put_text ::
    "int option \<Rightarrow> datetime \<Rightarrow> string \<Rightarrow> string \<Rightarrow> artifact_db
     \<Rightarrow> (kernel_error + artifact_ref) \<times> artifact_db" where
  "put_text max_total now text media db =
     put_bytes max_total now (utf8_encode text) media (Some ''utf-8'') db"

definition put_json ::
    "int option \<Rightarrow> datetime \<Rightarrow> pyval \<Rightarrow> artifact_db
     \<Rightarrow> (kernel_error + artifact_ref) \<times> artifact_db" where
  "put_json max_total now v db =
     (case canonical_json_bytes v of
        Inl NonFiniteNumber \<Rightarrow> (Inl (ValueError ''json''), db)
      | Inl _ \<Rightarrow> (Inl (TypeError ''json''), db)
      | Inr data \<Rightarrow> put_bytes max_total now data ''application/json'' (Some ''utf-8'') db)"

definition stat :: "artifact_db \<Rightarrow> string \<Rightarrow> kernel_error + artifact_ref" where
  "stat db d =
     ebind (validate_digest d) (\<lambda>_. efail_on_None ArtifactNotFoundError (find_artifact db d))"

definition get_bytes :: "artifact_db \<Rightarrow> string \<Rightarrow> bool \<Rightarrow> kernel_error + string" where
  "get_bytes db d verify =
     ebind (stat db d) (\<lambda>r.
     ebind (relative_path (ar_digest r)) (\<lambda>path.
     case blobs db path of
       None \<Rightarrow> Inl ArtifactIntegrityError
     | Some data \<Rightarrow>
         if verify \<and> (bytes_digest data \<noteq> ar_digest r \<or> int (length data) \<noteq> ar_size r)
         then Inl ArtifactIntegrityError else Inr data))"

definition verify_artifact :: "artifact_db \<Rightarrow> string \<Rightarrow> kernel_error + bool" where
  "verify_artifact db d = ebind (get_bytes db d True) (\<lambda>_. Inr True)"

definition path_for :: "artifact_db \<Rightarrow> string \<Rightarrow> kernel_error + string" where
  "path_for db d =
     ebind (stat db d) (\<lambda>r.
     ebind (relative_path (ar_digest r)) (\<lambda>path.
     ebind (verify_path db path (ar_digest r) (ar_size r)) (\<lambda>_. Inr path)))"

section \<open>The store keeps every artifact readable\<close>

definition address :: "string \<Rightarrow> string" where
  "address d = (let h = drop 7 d in join ''/'' [''sha256'', take 2 h, take 2 (drop 2 h), h])"

definition artifact_ok :: "artifact_db \<Rightarrow> artifact_ref \<Rightarrow> bool" where
  "artifact_ok db r \<longleftrightarrow> (\<exists>data. blobs db (address (ar_digest r)) = Some data
     \<and> ar_digest r = bytes_digest data \<and> ar_size r = int (length data))"

definition artifacts_inv :: "artifact_db \<Rightarrow> bool" where
  "artifacts_inv db \<longleftrightarrow> distinct (map ar_digest (artifact_rows db))
     \<and> (\<forall>r \<in> set (artifact_rows db). artifact_ok db r)"

lemma bytes_digest_parts:
  "startswith (bytes_digest b) ''sha256:''" "removeprefix (bytes_digest b) ''sha256:'' = sha256_hex b"
  "drop 7 (bytes_digest b) = sha256_hex b"
  by (simp_all add: digest_shape) (simp add: bytes_digest_def)

lemma relative_path_digest: "relative_path (bytes_digest b) = Inr (address (bytes_digest b))"
  by (simp add: relative_path_def validate_digest_def address_def Let_def bytes_digest_parts)

lemma validate_bytes_digest: "validate_digest (bytes_digest b) = Inr ()"
  using relative_path_digest[of b] by (auto simp: relative_path_def ebind_eq_Inr)

lemma address_inj: "address (bytes_digest a) = address (bytes_digest b) \<Longrightarrow>
    bytes_digest a = bytes_digest b"
proof -
  assume "address (bytes_digest a) = address (bytes_digest b)"
  then have "rev (address (bytes_digest a)) = rev (address (bytes_digest b))" by simp
  then have "take 64 (rev (address (bytes_digest a))) = take 64 (rev (address (bytes_digest b)))"
    by simp
  then show ?thesis by (simp add: address_def Let_def bytes_digest_parts) (simp add: bytes_digest_def)
qed

lemma find_artifact_Some: "find_artifact db d = Some r \<Longrightarrow> r \<in> set (artifact_rows db) \<and> ar_digest r = d"
  by (auto simp: find_artifact_def find_Some_iff)

lemma find_artifact_None: "find_artifact db d = None \<longleftrightarrow> d \<notin> ar_digest ` set (artifact_rows db)"
  by (auto simp: find_artifact_def find_None_iff)

lemma find_artifact_present:
  assumes "artifacts_inv db" "r \<in> set (artifact_rows db)"
  shows "find_artifact db (ar_digest r) = Some r"
proof -
  obtain r' where r': "find_artifact db (ar_digest r) = Some r'"
    using assms(2) find_artifact_None[of db] by (metis image_eqI not_Some_eq)
  with find_artifact_Some[OF r'] assms show ?thesis
    by (auto simp: artifacts_inv_def distinct_map inj_on_def)
qed

text \<open>Outcome of a put on a valid store.\<close>

lemma put_bytes_cases:
  assumes inv: "artifacts_inv db" and put: "put_bytes m now data media enc db = (Inr r, db')"
  shows "ar_digest r = bytes_digest data \<and> r \<in> set (artifact_rows db') \<and> artifacts_inv db'
    \<and> set (artifact_rows db) \<subseteq> set (artifact_rows db')
    \<and> (\<forall>p x. blobs db p = Some x \<longrightarrow> blobs db' p = Some x)
    \<and> (\<forall>q. m = Some q \<longrightarrow> used_bytes db \<le> q \<longrightarrow> used_bytes db' \<le> q)"
proof -
  let ?d = "bytes_digest data" and ?path = "address (bytes_digest data)"
  show ?thesis
  proof (cases "find_artifact db ?d")
    case (Some r0)
    then have "r = r0" "db' = db"
      using put by (auto simp: put_bytes_def Let_def relative_path_digest ebind_eq_Inr
          split: sum.splits if_splits)
    with find_artifact_Some[OF Some] inv show ?thesis by simp
  next
    case None
    let ?r = "\<lparr>ar_digest = ?d, ar_size = int (length data), ar_media = media,
        ar_encoding = enc, ar_created = now\<rparr>"
    from put None obtain db1 where w: "write_once ?path data ?d db = Inr db1"
      and r: "r = ?r" and db': "db' = db1\<lparr>artifact_rows := artifact_rows db1 @ [?r]\<rparr>"
      and quota: "\<forall>q. m = Some q \<longrightarrow> used_bytes db + int (length data) \<le> q"
      by (auto simp: put_bytes_def Let_def relative_path_digest ebind_eq_Inr
          split: sum.splits if_splits option.splits)
    have rows: "artifact_rows db1 = artifact_rows db"
      and keep: "\<forall>p x. blobs db p = Some x \<longrightarrow> blobs db1 p = Some x"
      and blob: "\<exists>x. blobs db1 ?path = Some x \<and> bytes_digest x = ?d \<and> length x = length data"
      using w by (auto simp: write_once_def verify_path_def ebind_eq_Inr
          split: if_splits option.splits)
    have "artifact_ok db' s" if "s \<in> set (artifact_rows db)" for s
      using inv that keep by (auto simp: artifacts_inv_def artifact_ok_def db')
    moreover have "artifact_ok db' ?r"
      using blob by (auto simp: artifact_ok_def db')
    moreover have "?d \<notin> ar_digest ` set (artifact_rows db)"
      using None find_artifact_None by simp
    ultimately have "artifacts_inv db'"
      using inv by (auto simp: artifacts_inv_def db' rows)
    with rows keep r quota show ?thesis
      by (auto simp: db' used_bytes_def)
  qed
qed

lemma put_bytes_failure: "put_bytes m now data media enc db = (Inl e, db') \<Longrightarrow> db' = db"
  by (auto simp: put_bytes_def split: sum.splits)

lemma get_bytes_ok:
  assumes "artifacts_inv db" "r \<in> set (artifact_rows db)"
  shows "\<exists>x. get_bytes db (ar_digest r) True = Inr x \<and> bytes_digest x = ar_digest r"
proof -
  obtain x where x: "blobs db (address (ar_digest r)) = Some x" "ar_digest r = bytes_digest x"
    "ar_size r = int (length x)"
    using assms by (auto simp: artifacts_inv_def artifact_ok_def)
  then show ?thesis
    using find_artifact_present[OF assms] relative_path_digest[of x] validate_bytes_digest[of x]
    by (simp add: get_bytes_def stat_def)
qed

lemma get_bytes_Inr:
  "get_bytes db d v = Inr x \<longleftrightarrow> (\<exists>r path. validate_digest d = Inr () \<and> find_artifact db d = Some r
     \<and> relative_path (ar_digest r) = Inr path \<and> blobs db path = Some x
     \<and> (v \<longrightarrow> bytes_digest x = ar_digest r \<and> int (length x) = ar_size r))"
  by (cases "validate_digest d"; cases "find_artifact db d";
      cases "relative_path (ar_digest (the (find_artifact db d)))";
      cases "blobs db (projr (relative_path (ar_digest (the (find_artifact db d)))))")
    (auto simp: get_bytes_def stat_def)

lemma put_bytes_step:
  assumes inv: "artifacts_inv db" and db': "db' = snd (put_bytes m now data media enc db)"
  shows "artifacts_inv db' \<and> set (artifact_rows db) \<subseteq> set (artifact_rows db')
    \<and> (\<forall>p x. blobs db p = Some x \<longrightarrow> blobs db' p = Some x)"
proof -
  obtain res where put: "put_bytes m now data media enc db = (res, db')"
    unfolding db' by (metis surjective_pairing)
  show ?thesis
  proof (cases res)
    case (Inl e)
    then have "db' = db" using put_bytes_failure put by blast
    then show ?thesis using inv by simp
  next
    case (Inr r)
    then show ?thesis using put_bytes_cases[OF inv] put by simp
  qed
qed

lemma get_bytes_keeps:
  assumes inv: "artifacts_inv db" "artifacts_inv db'"
    and rows: "set (artifact_rows db) \<subseteq> set (artifact_rows db')"
    and kept: "\<forall>p x. blobs db p = Some x \<longrightarrow> blobs db' p = Some x"
    and get: "get_bytes db d v = Inr x"
  shows "get_bytes db' d v = Inr x"
proof -
  from get obtain r path where r: "validate_digest d = Inr ()" "find_artifact db d = Some r"
    "relative_path (ar_digest r) = Inr path" "blobs db path = Some x"
    "v \<longrightarrow> bytes_digest x = ar_digest r \<and> int (length x) = ar_size r"
    unfolding get_bytes_Inr by blast
  have "find_artifact db' d = Some r"
    using find_artifact_Some[OF r(2)] rows find_artifact_present[OF inv(2), of r] by auto
  with r kept show ?thesis unfolding get_bytes_Inr by blast
qed

section \<open>The interface to its clients\<close>

text \<open>A content store gives back, under the digest of what was put, data with that digest, and
  no later call takes anything away.\<close>

locale content_store =
  fixes inv :: "'db \<Rightarrow> bool"
    and put :: "string \<Rightarrow> 'db \<Rightarrow> (kernel_error + artifact_ref) \<times> 'db"
    and get :: "'db \<Rightarrow> string \<Rightarrow> kernel_error + string"
  assumes put_inv: "inv db \<Longrightarrow> inv (snd (put x db))"
    and put_get: "inv db \<Longrightarrow> put x db = (Inr r, db') \<Longrightarrow>
      \<exists>y. get db' (ar_digest r) = Inr y \<and> bytes_digest y = bytes_digest x"
    and put_keeps: "inv db \<Longrightarrow> get db d = Inr y \<Longrightarrow> get (snd (put x db)) d = Inr y"
begin

fun puts :: "string list \<Rightarrow> 'db \<Rightarrow> 'db" where
  "puts [] db = db"
| "puts (x # xs) db = puts xs (snd (put x db))"

lemma puts_keep: "inv db \<Longrightarrow> get db d = Inr y \<Longrightarrow> get (puts xs db) d = Inr y"
  by (induction xs arbitrary: db) (auto intro: put_inv put_keeps)

lemma put_stays_readable:
  assumes "inv db" "put x db = (Inr r, db')"
  shows "\<exists>y. get (puts xs db') (ar_digest r) = Inr y
    \<and> (y = x \<or> sha_collision y x)"
proof -
  obtain y where y: "get db' (ar_digest r) = Inr y" "bytes_digest y = bytes_digest x"
    using put_get[OF assms] by blast
  moreover have "inv db'" using put_inv[OF assms(1), of x] assms(2) by simp
  ultimately show ?thesis
    using puts_keep[of db' "ar_digest r" y xs] by (auto simp: sha_collision_def bytes_digest_def)
qed

end

definition put_with :: "int option \<Rightarrow> datetime \<Rightarrow> string \<Rightarrow> string option \<Rightarrow> string \<Rightarrow> artifact_db
    \<Rightarrow> (kernel_error + artifact_ref) \<times> artifact_db" where
  "put_with m now media enc data db = put_bytes m now data media enc db"

interpretation artifact_store: content_store artifacts_inv "put_with m now media enc"
  "\<lambda>db d. get_bytes db d True" for m now media enc
proof
  fix db :: artifact_db and x d y
  assume inv: "artifacts_inv db"
  note step = put_bytes_step[OF inv refl, of m now x media enc, folded put_with_def]
  then show "artifacts_inv (snd (put_with m now media enc x db))" by blast
  show "get_bytes (snd (put_with m now media enc x db)) d True = Inr y"
    if "get_bytes db d True = Inr y"
    using get_bytes_keeps[OF inv _ _ _ that] step by blast
next
  fix db db' :: artifact_db and x r
  assume "artifacts_inv db" "put_with m now media enc x db = (Inr r, db')"
  note p = put_bytes_cases[OF this[unfolded put_with_def]]
  with get_bytes_ok[of db' r] show
    "\<exists>y. get_bytes db' (ar_digest r) True = Inr y \<and> bytes_digest y = bytes_digest x" by auto
qed

section \<open>Properties\<close>



text \<open>
  A verified read is tamper-evident: whatever the table and the blob files hold, it returns
  data only if the data has the digest that was asked for and the size that was recorded.
\<close>

theorem artifact_get_verified:
  assumes "get_bytes db d True = Inr x"
  shows "bytes_digest x = d
    \<and> (\<exists>r \<in> set (artifact_rows db). ar_digest r = d \<and> ar_size r = int (length x))"
  using assms find_artifact_Some[of db d] by (auto simp: get_bytes_Inr)

theorem artifact_get_verified_witness:
  "\<exists>x. get_bytes \<lparr>artifact_rows = [\<lparr>ar_digest = bytes_digest ''a'', ar_size = 1, ar_media = ''t'',
      ar_encoding = None, ar_created = utc 0\<rparr>], blobs = [address (bytes_digest ''a'') \<mapsto> ''a'']\<rparr>
     (bytes_digest ''a'') True = Inr x \<and> bytes_digest x = bytes_digest ''a''"
proof -
  let ?r = "\<lparr>ar_digest = bytes_digest ''a'', ar_size = 1, ar_media = ''t'', ar_encoding = None,
      ar_created = utc 0\<rparr>"
  let ?db = "\<lparr>artifact_rows = [?r], blobs = [address (bytes_digest ''a'') \<mapsto> ''a'']\<rparr>"
  have "artifacts_inv ?db" by (simp add: artifacts_inv_def artifact_ok_def)
  from get_bytes_ok[OF this, of ?r] obtain x where "get_bytes ?db (bytes_digest ''a'') True = Inr x"
    by auto
  with artifact_get_verified[OF this] show ?thesis by blast
qed

end
