(* ===== verification/Lifecycle.thy ===== *)
theory Lifecycle
  imports Ledger
begin

text \<open>
  What the event folds of \<open>orchestration/run_lifecycle.py\<close>, \<open>review_lifecycle.py\<close> and
  \<open>verification_lifecycle.py\<close> share: the field validators, the principal and run checks, the
  event sources, and \<open>pathlib\<close>'s rendering of a joined path. Each module raises one content-free
  exception, so a failed check is \<open>None\<close>.

  \<open>fromiso\<close> is the parser behind \<open>datetime.fromisoformat\<close>; the folds take it as an argument and
  every result about them holds for every parser.
\<close>

section \<open>Field validators\<close>

definition positive_integer :: "json \<Rightarrow> int option" where
  "positive_integer v = (case v of JInt i \<Rightarrow> if i < 1 then None else Some i | _ \<Rightarrow> None)"

definition text_field :: "json \<Rightarrow> string option" where
  "text_field v = (case v of JStr s \<Rightarrow> if s = [] \<or> length s > 256 then None else Some s | _ \<Rightarrow> None)"

definition digest_field :: "json \<Rightarrow> string option" where
  "digest_field v = do {
     s \<leftarrow> text_field v;
     ensure (length s = 71 \<and> startswith s ''sha256:'');
     ensure (py_int16_ok (removeprefix s ''sha256:''));
     Some s }"

text \<open>\<open>text != text.lower()\<close>: after the hexadecimal parse only ASCII letters can be upper case.\<close>

definition commit_field :: "json \<Rightarrow> string option" where
  "commit_field v = do {
     s \<leftarrow> text_field v;
     ensure (length s = 40);
     ensure (py_int16_ok s);
     ensure (list_all (\<lambda>c. \<not> is_upper c) s);
     Some s }"

definition code_field :: "json \<Rightarrow> string option" where
  "code_field v = do {
     s \<leftarrow> text_field v;
     ensure (list_all (\<lambda>c. is_alnum c \<or> c \<in> set ''-._'') s);
     Some s }"

definition timestamp_field :: "(string \<Rightarrow> datetime option) \<Rightarrow> json \<Rightarrow> datetime option" where
  "timestamp_field fromiso v = do {
     s \<leftarrow> text_field v;
     d \<leftarrow> fromiso s;
     ensure (aware d);
     Some d }"

text \<open>An optional digest: \<open>None if value is None else _digest(value)\<close>.\<close>

definition optional_digest :: "json \<Rightarrow> string option option" where
  "optional_digest v = (if v = JNull then Some None else map_option Some (digest_field v))"

lemma text_field_Some: "text_field v = Some s \<longleftrightarrow> v = JStr s \<and> s \<noteq> [] \<and> length s \<le> 256"
  by (auto simp: text_field_def split: json.splits)

lemma digest_field_JStr: "digest_field v = Some s \<Longrightarrow> v = JStr s"
  by (auto simp: digest_field_def text_field_Some bind_eq_Some_conv split: if_splits)

lemma digest_field_digest [simp]: "digest_field (JStr (bytes_digest b)) = Some (bytes_digest b)"
proof -
  have "text_field (JStr (bytes_digest b)) = Some (bytes_digest b)"
    by (simp add: text_field_Some) (simp add: bytes_digest_def)
  then show ?thesis by (simp add: digest_field_def digest_shape)
qed

lemma digest_field_json_digest [simp]: "digest_field (JStr (json_digest j)) = Some (json_digest j)"
  by (simp add: json_digest_def)

lemma positive_integer_Some: "positive_integer v = Some i \<longleftrightarrow> v = JInt i \<and> 1 \<le> i"
  by (auto simp: positive_integer_def split: json.splits if_splits)

section \<open>Paths\<close>

fun split_on :: "char \<Rightarrow> string \<Rightarrow> string list" where
  "split_on c [] = [[]]"
| "split_on c (d # ds) =
     (if d = c then [] # split_on c ds
      else (case split_on c ds of [] \<Rightarrow> [[d]] | x # xs \<Rightarrow> (d # x) # xs))"

text \<open>\<open>str(Path(dir) / name)\<close> for a plain file name.\<close>

definition path_anchor :: "string \<Rightarrow> string" where
  "path_anchor s =
     (if startswith s ''//'' \<and> \<not> startswith s ''///'' then ''//''
      else if startswith s ''/'' then ''/'' else [])"

definition path_parts :: "string \<Rightarrow> string list" where
  "path_parts s = filter (\<lambda>p. p \<noteq> [] \<and> p \<noteq> ''.'') (split_on (CHR ''/'') s)"

definition path_join :: "string \<Rightarrow> string \<Rightarrow> string" where
  "path_join dir name = path_anchor dir @ join ''/'' (path_parts dir @ [name])"

section \<open>Event sources\<close>

definition RUNTIME_EVENT_SOURCE :: string where
  "RUNTIME_EVENT_SOURCE = ''blackcell.runtime''"

definition EXECUTION_EVENT_SOURCE :: string where
  "EXECUTION_EVENT_SOURCE = ''blackcell.execution''"

definition EXECUTION_EVENT_TYPES :: "string list" where
  "EXECUTION_EVENT_TYPES =
     [''execution.goal.admitted'', ''execution.plan-draft.received'', ''execution.plan.admitted'',
      ''execution.replan.started'', ''execution.task.ready'', ''execution.policy.decided'',
      ''execution.task.started'', ''execution.task.verifying'', ''execution.task.verified'',
      ''execution.task.blocked'', ''execution.run.terminated'']"

text \<open>\<open>_principal\<close> and \<open>_run\<close>.\<close>

definition principal_ok :: "jobject \<Rightarrow> event \<Rightarrow> bool" where
  "principal_ok p e = (jget p ''principal_id'' = JStr (actor e))"

definition run_ok :: "jobject \<Rightarrow> string \<Rightarrow> bool" where
  "run_ok p run_id = (jget p ''run_id'' = JStr run_id)"

fun chained :: "event list \<Rightarrow> bool" where
  "chained (x # y # ys) = (causation_id y = Some (event_id x) \<and> chained (y # ys))"
| "chained _ = True"

text \<open>A fold that stops at the first violation.\<close>

fun ofold :: "('s \<Rightarrow> 'a \<Rightarrow> 's option) \<Rightarrow> 's \<Rightarrow> 'a list \<Rightarrow> 's option" where
  "ofold f s [] = Some s"
| "ofold f s (x # xs) = do { s' \<leftarrow> f s x; ofold f s' xs }"

lemma ofold_append: "ofold f s (xs @ ys) = Option.bind (ofold f s xs) (\<lambda>s'. ofold f s' ys)"
  by (induction xs arbitrary: s) (auto split: Option.bind_split)

lemma ofold_invariant:
  assumes "ofold f s xs = Some t" "P s"
    and "\<And>a x b. x \<in> set xs \<Longrightarrow> P a \<Longrightarrow> f a x = Some b \<Longrightarrow> P b"
  shows "P t"
  using assms
proof (induction xs arbitrary: s)
  case (Cons x xs)
  then obtain u where u: "f s x = Some u" "ofold f u xs = Some t"
    by (auto simp: bind_eq_Some_conv)
  have "P u" using Cons.prems(2,3) u(1) by auto
  with Cons.IH[OF u(2)] Cons.prems(3) show ?case by auto
qed simp

section \<open>Validators of the stage lifecycles\<close>

text \<open>\<open>[A-Za-z0-9][A-Za-z0-9._-]{0,127}\<close> and \<open>[a-z0-9][a-z0-9-]{0,127}\<close>.\<close>

definition stage_identifier :: "string \<Rightarrow> bool" where
  "stage_identifier = re_ident is_alnum (\<lambda>c. is_alnum c \<or> c \<in> set ''._-'') 127"

definition stage_failure_code :: "string \<Rightarrow> bool" where
  "stage_failure_code = re_ident (\<lambda>c. is_digit c \<or> is_lower c)
     (\<lambda>c. is_digit c \<or> is_lower c \<or> c = CHR ''-'') 127"

definition string_where :: "(string \<Rightarrow> bool) \<Rightarrow> json \<Rightarrow> string option" where
  "string_where P v = (case v of JStr s \<Rightarrow> if s \<noteq> [] \<and> P s then Some s else None | _ \<Rightarrow> None)"

definition stage_id_field :: "json \<Rightarrow> string option" where
  "stage_id_field v = string_where stage_identifier v"

definition stage_digest_field :: "json \<Rightarrow> string option" where
  "stage_digest_field v = string_where re_digest v"

definition stage_failure_field :: "json \<Rightarrow> string option" where
  "stage_failure_field v = string_where stage_failure_code v"

definition optional_stage_digest :: "json \<Rightarrow> string option option" where
  "optional_stage_digest v = (if v = JNull then Some None else map_option Some (stage_digest_field v))"

definition bounded_integer :: "int \<Rightarrow> json \<Rightarrow> int option" where
  "bounded_integer maximum v =
     (case v of JInt i \<Rightarrow> if 0 \<le> i \<and> i \<le> maximum then Some i else None | _ \<Rightarrow> None)"

definition stage_expiry :: "(string \<Rightarrow> datetime option) \<Rightarrow> json \<Rightarrow> datetime option" where
  "stage_expiry fromiso v = do { s \<leftarrow> string_where (\<lambda>_. True) v; fromiso s }"

text \<open>\<open>_principal\<close> of the stage lifecycles.\<close>

definition stage_principal :: "jobject \<Rightarrow> event \<Rightarrow> string option" where
  "stage_principal p e = do {
     i \<leftarrow> stage_id_field (jget p ''principal_id'');
     ensure (i = actor e);
     Some i }"

lemma string_where_Some: "string_where P v = Some s \<longleftrightarrow> v = JStr s \<and> s \<noteq> [] \<and> P s"
  by (auto simp: string_where_def split: json.splits)

lemma stage_fields_JStr [simp]:
  "stage_id_field (JStr s) = (if stage_identifier s then Some s else None)"
  "stage_digest_field (JStr s) = (if re_digest s then Some s else None)"
  "stage_failure_field (JStr s) = (if stage_failure_code s then Some s else None)"
  by (auto simp: stage_id_field_def stage_digest_field_def stage_failure_field_def string_where_def
      stage_identifier_def stage_failure_code_def dest: re_ident_nonempty)
    (auto simp: re_digest_def startswith_def)

lemma integer_fields_JInt [simp]:
  "bounded_integer m (JInt i) = (if 0 \<le> i \<and> i \<le> m then Some i else None)"
  "positive_integer (JInt i) = (if i < 1 then None else Some i)"
  by (auto simp: bounded_integer_def positive_integer_def)

lemma isoformat_nonempty [simp]: "isoformat d \<noteq> []"
  by (auto simp: isoformat_def Let_def split: prod.splits)

text \<open>Identifiers derived from a digest, as \<open>review_id\<close> and \<open>verification_id\<close> build them.\<close>

lemma digest_identifier:
  assumes "stage_identifier p" "length p \<le> 64"
  shows "stage_identifier (p @ take 48 (removeprefix (json_digest j) ''sha256:''))"
proof -
  have r: "removeprefix (json_digest j) ''sha256:'' = sha256_hex (json_bytes j)"
    by (simp add: json_digest_def digest_shape)
  have "list_all is_alnum (take 48 (sha256_hex (json_bytes j)))"
    using sha256_hex_lower[of "json_bytes j"]
    by (auto simp: list_all_iff is_alnum_def is_lower_hex_def is_lower_def dest!: in_set_takeD)
  then have "list_all (\<lambda>c. is_alnum c \<or> c \<in> set ''._-'') (take 48 (sha256_hex (json_bytes j)))"
    by (auto simp: list_all_iff)
  with assms show ?thesis
    unfolding r by (cases p) (auto simp: stage_identifier_def re_ident_def)
qed

lemma stage_prefixes [simp]: "stage_identifier ''review-''" "stage_identifier ''verification-''"
  by (simp_all add: stage_identifier_def re_ident_def is_alnum_def is_digit_def is_upper_def
      is_lower_def code_def)

text \<open>The checks every stage stream passes before its fold.\<close>

fun stage_sequenced :: "string \<Rightarrow> string list \<Rightarrow> int \<Rightarrow> event list \<Rightarrow> bool" where
  "stage_sequenced stream types n [] = True"
| "stage_sequenced stream types n (e # es) =
     (stream_id e = stream \<and> stream_sequence e = n \<and> schema_version e = 1
      \<and> source e = RUNTIME_EVENT_SOURCE \<and> event_type e \<in> set types
      \<and> stage_sequenced stream types (n + 1) es)"

definition stage_stream_ok :: "string \<Rightarrow> string list \<Rightarrow> event list \<Rightarrow> bool" where
  "stage_stream_ok stream types events \<longleftrightarrow> events \<noteq> [] \<and> stage_sequenced stream types 1 events
     \<and> list_all (\<lambda>e. correlation_id e = correlation_id (hd events)) events \<and> chained events"

section \<open>Fenced leases\<close>

text \<open>
  The contract the review and the verification lifecycle share. A claim is the only event that
  replaces the leased attempt: it increments attempt and fencing token and keeps the identity of
  the work; every other accepted event keeps all three; a final state accepts nothing.
\<close>

locale fenced_lifecycle =
  fixes step :: "'s \<Rightarrow> event \<Rightarrow> 's option"
    and init :: 's
    and inv :: "'s \<Rightarrow> bool"
    and lease :: "'s \<Rightarrow> 'l option"
    and attempt :: "'l \<Rightarrow> int"
    and fence :: "'l \<Rightarrow> int"
    and identity :: "'l \<Rightarrow> 'i"
    and is_claim :: "event \<Rightarrow> bool"
    and final :: "'s \<Rightarrow> bool"
  assumes inv_init: "inv init" and lease_init: "lease init = None"
    and inv_step: "inv s \<Longrightarrow> step s e = Some s' \<Longrightarrow> inv s'"
    and claim_step: "inv s \<Longrightarrow> step s e = Some s' \<Longrightarrow> is_claim e \<Longrightarrow>
      \<exists>l'. lease s' = Some l' \<and> attempt l' = (case lease s of None \<Rightarrow> 1 | Some l \<Rightarrow> attempt l + 1)
        \<and> fence l' = (case lease s of None \<Rightarrow> 1 | Some l \<Rightarrow> fence l + 1)
        \<and> (\<forall>l. lease s = Some l \<longrightarrow> identity l' = identity l)"
    and other_step: "inv s \<Longrightarrow> step s e = Some s' \<Longrightarrow> \<not> is_claim e \<Longrightarrow>
      \<exists>l l'. lease s = Some l \<and> lease s' = Some l' \<and> attempt l' = attempt l \<and> fence l' = fence l
        \<and> identity l' = identity l"
    and final_step: "inv s \<Longrightarrow> final s \<Longrightarrow> step s e = None"
begin

definition claims :: "event list \<Rightarrow> int" where
  "claims es = int (length (filter is_claim es))"

lemma fold_inv: "ofold step s es = Some t \<Longrightarrow> inv s \<Longrightarrow> inv t"
  by (rule ofold_invariant[where P = inv]) (auto intro: inv_step)

lemma fold_attempts:
  assumes "ofold step s es = Some t" "inv s" "es \<noteq> []"
  shows "\<exists>l. lease t = Some l
    \<and> attempt l = (case lease s of None \<Rightarrow> 0 | Some k \<Rightarrow> attempt k) + claims es
    \<and> fence l = (case lease s of None \<Rightarrow> 0 | Some k \<Rightarrow> fence k) + claims es
    \<and> (\<forall>k. lease s = Some k \<longrightarrow> identity l = identity k)"
  using assms
proof (induction es arbitrary: s)
  case (Cons e es)
  then obtain u where u: "step s e = Some u" "ofold step u es = Some t"
    by (auto simp: bind_eq_Some_conv)
  have inv_u: "inv u" using inv_step Cons.prems(2) u(1) by blast
  have here: "\<exists>l. lease u = Some l
      \<and> attempt l = (case lease s of None \<Rightarrow> 0 | Some k \<Rightarrow> attempt k) + claims [e]
      \<and> fence l = (case lease s of None \<Rightarrow> 0 | Some k \<Rightarrow> fence k) + claims [e]
      \<and> (\<forall>k. lease s = Some k \<longrightarrow> identity l = identity k)"
    using claim_step[OF Cons.prems(2) u(1)] other_step[OF Cons.prems(2) u(1)]
    by (cases "is_claim e") (auto simp: claims_def split: option.splits)
  show ?case
  proof (cases "es = []")
    case True
    with u here show ?thesis by simp
  next
    case False
    with Cons.IH[OF u(2) inv_u] here show ?thesis
      by (fastforce simp: claims_def)
  qed
qed simp

text \<open>The lease of any accepted history carries the number of claims as attempt and as token.\<close>

lemma accepted_attempts:
  assumes "ofold step init es = Some t" "es \<noteq> []"
  shows "\<exists>l. lease t = Some l \<and> attempt l = claims es \<and> fence l = claims es"
  using fold_attempts[OF assms(1) inv_init assms(2)] lease_init by simp

lemma final_nothing_follows:
  assumes "ofold step init es = Some s" "final s" "ofold step init (es @ later) = Some t"
  shows "later = []"
proof (cases later)
  case (Cons e rest)
  have "inv s" using fold_inv[OF assms(1) inv_init] .
  with assms Cons final_step show ?thesis by (simp add: ofold_append)
qed

lemma identity_kept:
  assumes "ofold step init es = Some s" "lease s = Some k" "ofold step s later = Some t"
    and "lease t = Some l"
  shows "identity l = identity k \<and> fence k \<le> fence l"
proof (cases "later = []")
  case True
  with assms show ?thesis by simp
next
  case False
  have "inv s" using fold_inv[OF assms(1) inv_init] .
  from fold_attempts[OF assms(3) this False] assms(2,4) show ?thesis by (auto simp: claims_def)
qed

end

end
