(* ===== verification/RunLifecycle.thy ===== *)
theory RunLifecycle
  imports Lifecycle
begin

text \<open>
  \<open>orchestration/run_lifecycle.py\<close>: the strict fold of one run's event stream. Every event type
  has its handler, a partial function of the fold's local state; \<open>fold_run_lifecycle\<close> checks the
  stream, folds the handlers over its public events and checks that the result is not a state the
  runtime must still leave.
\<close>

section \<open>State\<close>

datatype run_status =
  RunQueued | RunRunning | RunCanceling | RunCanceled | RunSucceeded | RunFailed
  | RunReconciliationRequired

datatype node_status =
  NodePending | NodeClaimed | NodeRunning | NodeSucceeded | NodeFailed | NodeCanceled
  | NodeReconciliationRequired

datatype cleanup_status = CleanupEligible | CleanupRequested | CleanupFailed | CleanupCleaned

record active_lease =
  al_node :: string
  al_attempt :: int
  al_fence :: int
  al_worker :: string
  al_lease_digest :: string
  al_spec_digest :: string
  al_spec :: jobject
  al_expires :: datetime
  al_prepared :: bool
  al_request :: "string option"
  al_context :: "string option"
  al_dispatch :: "string option"

record node =
  nd_id :: string
  nd_status :: node_status
  nd_attempts :: int
  nd_fence :: int
  nd_result :: "string option"
  nd_head :: "string option"
  nd_failure :: "string option"
  nd_retained :: bool
  nd_lease_digest :: "string option"
  nd_spec_digest :: "string option"
  nd_spec :: "jobject option"
  nd_cleanup :: "cleanup_status option"
  nd_cleanup_failure :: "string option"

definition fresh_node :: "string \<Rightarrow> node" where
  "fresh_node i = \<lparr>nd_id = i, nd_status = NodePending, nd_attempts = 0, nd_fence = 0,
     nd_result = None, nd_head = None, nd_failure = None, nd_retained = False,
     nd_lease_digest = None, nd_spec_digest = None, nd_spec = None, nd_cleanup = None,
     nd_cleanup_failure = None\<rparr>"

text \<open>The local variables of the fold; \<open>nodes\<close> is the dictionary of the mutable nodes.\<close>

record run_fold =
  rf_status :: run_status
  rf_nodes :: "string \<rightharpoonup> node"
  rf_cancel :: bool
  rf_active :: "active_lease option"
  rf_terminal :: bool
  rf_reconciled :: bool
  rf_fence :: int

type_synonym dependencies = "(string \<times> string list) list"

definition node_ids :: "dependencies \<Rightarrow> string list" where
  "node_ids deps = sorted_set (map fst deps)"

definition deps_of :: "dependencies \<Rightarrow> string \<Rightarrow> string list" where
  "deps_of deps i = (case map_of deps i of None \<Rightarrow> [] | Some ds \<Rightarrow> ds)"

definition init_fold :: "dependencies \<Rightarrow> run_fold" where
  "init_fold deps = \<lparr>rf_status = RunQueued,
     rf_nodes = (\<lambda>i. if i \<in> set (node_ids deps) then Some (fresh_node i) else None),
     rf_cancel = False, rf_active = None, rf_terminal = False, rf_reconciled = False,
     rf_fence = 0\<rparr>"

definition set_node :: "node \<Rightarrow> run_fold \<Rightarrow> run_fold" where
  "set_node n s = s\<lparr>rf_nodes := (rf_nodes s)(nd_id n \<mapsto> n)\<rparr>"

definition status_of :: "run_fold \<Rightarrow> string \<Rightarrow> node_status option" where
  "status_of s i = map_option nd_status (rf_nodes s i)"

definition all_nodes :: "dependencies \<Rightarrow> run_fold \<Rightarrow> (node \<Rightarrow> bool) \<Rightarrow> bool" where
  "all_nodes deps s P = list_all (\<lambda>i. pred_option P (rf_nodes s i)) (node_ids deps)"

definition any_node :: "dependencies \<Rightarrow> run_fold \<Rightarrow> (node \<Rightarrow> bool) \<Rightarrow> bool" where
  "any_node deps s P = list_ex (\<lambda>i. case rf_nodes s i of None \<Rightarrow> False | Some n \<Rightarrow> P n) (node_ids deps)"

section \<open>Helpers\<close>

definition the_node :: "jobject \<Rightarrow> run_fold \<Rightarrow> node option" where
  "the_node p s = do { i \<leftarrow> as_str (jget p ''node_id''); rf_nodes s i }"

definition active_of :: "jobject \<Rightarrow> run_fold \<Rightarrow> bool \<Rightarrow> bool \<Rightarrow> active_lease option" where
  "active_of p s require_prepared require_worker = do {
     a \<leftarrow> rf_active s;
     n \<leftarrow> the_node p s;
     ensure (nd_id n = al_node a);
     ensure (jget p ''lease_digest'' = JStr (al_lease_digest a));
     ensure (require_prepared \<longrightarrow> al_prepared a);
     ensure (require_worker \<longrightarrow> jget p ''principal_id'' = JStr (al_worker a));
     Some a }"

definition cleanup_node :: "jobject \<Rightarrow> run_fold \<Rightarrow> cleanup_status \<Rightarrow> node option" where
  "cleanup_node p s expected = do {
     n \<leftarrow> the_node p s;
     ensure (rf_active s = None \<and> nd_status n = NodeSucceeded \<and> nd_retained n
       \<and> nd_cleanup n = Some expected
       \<and> jget p ''lease_digest'' = opt_str (nd_lease_digest n)
       \<and> jget p ''worktree_spec_digest'' = opt_str (nd_spec_digest n)
       \<and> jget p ''head_commit'' = opt_str (nd_head n)
       \<and> nd_spec n \<noteq> None);
     Some n }"

definition inspection_of :: "jobject \<Rightarrow> active_lease \<Rightarrow> bool \<Rightarrow> jobject option" where
  "inspection_of p a unchanged = do {
     i \<leftarrow> as_obj (jget p ''inspection'');
     ensure (jget p ''inspection_digest'' = JStr (json_digest (JObj i))
       \<and> jget i ''spec_digest'' = JStr (al_spec_digest a)
       \<and> jget i ''lease_digest'' = JStr (al_lease_digest a));
     ensure (unchanged \<longrightarrow>
       py_eq (jget i ''head_commit'') (jget i ''base_commit'')
       \<and> jget i ''changed_paths'' = JArr [] \<and> jget i ''uncommitted_paths'' = JArr []
       \<and> jget i ''out_of_scope_paths'' = JArr []
       \<and> jget i ''changed_path_limit_exceeded'' = JBool False);
     Some i }"

definition worktree_spec_digest :: "jobject \<Rightarrow> string \<Rightarrow> string" where
  "worktree_spec_digest spec lease_digest = json_digest (JObj
     [(''schema_version'', jget spec ''schema_version''),
      (''lease_digest'', JStr lease_digest),
      (''repository_root'', jget spec ''repository_root''),
      (''isolation_root'', jget spec ''isolation_root''),
      (''base_commit'', jget spec ''base_commit''),
      (''allowed_paths'', jget spec ''allowed_paths''),
      (''max_changed_paths'', jget spec ''max_changed_paths'')])"

definition provider_request_id :: "string \<Rightarrow> string option" where
  "provider_request_id lease_digest = do {
     d \<leftarrow> digest_field (JStr lease_digest);
     Some (''change-'' @ removeprefix d ''sha256:'') }"

section \<open>Handlers of a lease's life\<close>

definition on_node_claimed ::
    "(string \<Rightarrow> datetime option) \<Rightarrow> dependencies \<Rightarrow> string \<Rightarrow> event \<Rightarrow> jobject \<Rightarrow> run_fold
     \<Rightarrow> run_fold option" where
  "on_node_claimed fromiso deps run_id e p s = do {
     ensure (\<not> rf_cancel s \<and> rf_active s = None \<and> (rf_status s = RunQueued \<or> rf_status s = RunRunning));
     ensure (keys_are p [''principal_id'', ''run_id'', ''node_id'', ''attempt'', ''fencing_token'',
       ''worker_id'', ''lease_digest'', ''expires_at'', ''worktree_spec_digest'', ''worktree_spec'',
       ''status'']);
     ensure (run_ok p run_id);
     n \<leftarrow> the_node p s;
     ensure (nd_status n = NodePending
       \<and> list_all (\<lambda>d. status_of s d = Some NodeSucceeded) (deps_of deps (nd_id n)));
     attempt \<leftarrow> positive_integer (jget p ''attempt'');
     fence \<leftarrow> positive_integer (jget p ''fencing_token'');
     worker \<leftarrow> text_field (jget p ''worker_id'');
     lease_digest \<leftarrow> digest_field (jget p ''lease_digest'');
     spec_digest \<leftarrow> digest_field (jget p ''worktree_spec_digest'');
     expires \<leftarrow> timestamp_field fromiso (jget p ''expires_at'');
     spec \<leftarrow> as_obj (jget p ''worktree_spec'');
     ensure (keys_are spec [''schema_version'', ''lease_digest'', ''lease'', ''repository_root'',
       ''isolation_root'', ''base_commit'', ''allowed_paths'', ''max_changed_paths'']);
     ensure (attempt = nd_attempts n + 1 \<and> fence = rf_fence s + 1
       \<and> dt_utc (recorded_at e) < dt_utc expires
       \<and> worktree_spec_digest spec lease_digest = spec_digest
       \<and> jget p ''status'' = JStr ''claimed'');
     lease \<leftarrow> as_obj (jget spec ''lease'');
     ensure (jget lease ''run_id'' = JStr run_id \<and> jget lease ''node_id'' = JStr (nd_id n)
       \<and> py_eq (jget lease ''attempt'') (JInt attempt)
       \<and> py_eq (jget lease ''fencing_token'') (JInt fence)
       \<and> jget lease ''worker_id'' = JStr worker \<and> json_digest (JObj lease) = lease_digest
       \<and> jget spec ''lease_digest'' = JStr lease_digest);
     Some ((set_node (n\<lparr>nd_status := NodeClaimed, nd_attempts := attempt, nd_fence := fence,
         nd_lease_digest := Some lease_digest, nd_spec_digest := Some spec_digest,
         nd_spec := Some spec, nd_cleanup := None, nd_cleanup_failure := None\<rparr>) s)
       \<lparr>rf_fence := fence, rf_status := RunRunning,
        rf_active := Some \<lparr>al_node = nd_id n, al_attempt = attempt, al_fence = fence,
          al_worker = worker, al_lease_digest = lease_digest, al_spec_digest = spec_digest,
          al_spec = spec, al_expires = expires, al_prepared = False, al_request = None,
          al_context = None, al_dispatch = None\<rparr>\<rparr>) }"

definition on_worktree_prepared ::
    "string \<Rightarrow> event \<Rightarrow> jobject \<Rightarrow> run_fold \<Rightarrow> run_fold option" where
  "on_worktree_prepared run_id e p s = do {
     ensure (keys_are p [''principal_id'', ''run_id'', ''node_id'', ''lease_digest'',
       ''inspection_digest'', ''inspection'', ''status'']);
     ensure (run_ok p run_id);
     a \<leftarrow> active_of p s False True;
     ensure (\<not> al_prepared a \<and> dt_utc (recorded_at e) \<le> dt_utc (al_expires a));
     i \<leftarrow> inspection_of p a True;
     n \<leftarrow> rf_nodes s (al_node a);
     ensure (jget p ''status'' = JStr ''worktree-prepared'');
     Some ((set_node (n\<lparr>nd_status := NodeRunning\<rparr>) s)\<lparr>rf_active := Some (a\<lparr>al_prepared := True\<rparr>)\<rparr>) }"

definition on_dispatch_started ::
    "string \<Rightarrow> event \<Rightarrow> jobject \<Rightarrow> run_fold \<Rightarrow> run_fold option" where
  "on_dispatch_started run_id e p s = do {
     ensure (keys_are p [''principal_id'', ''run_id'', ''node_id'', ''lease_digest'',
       ''provider_request_id'', ''context_digest'', ''context_artifact_digest'', ''status'']);
     ensure (run_ok p run_id);
     a \<leftarrow> active_of p s True True;
     request \<leftarrow> code_field (jget p ''provider_request_id'');
     context_digest \<leftarrow> digest_field (jget p ''context_digest'');
     artifact_digest \<leftarrow> digest_field (jget p ''context_artifact_digest'');
     ensure (\<not> rf_cancel s \<and> dt_utc (recorded_at e) \<le> dt_utc (al_expires a)
       \<and> al_dispatch a = None \<and> provider_request_id (al_lease_digest a) = Some request
       \<and> artifact_digest = context_digest
       \<and> jget p ''status'' = JStr ''provider-dispatch-started'');
     Some (s\<lparr>rf_active := Some (a\<lparr>al_prepared := True, al_request := Some request,
       al_context := Some context_digest, al_dispatch := Some (event_id e)\<rparr>)\<rparr>) }"

definition on_cancel_requested :: "jobject \<Rightarrow> run_fold \<Rightarrow> run_fold option" where
  "on_cancel_requested p s = do {
     ensure (keys_are p [''principal_id'', ''request'', ''request_digest'', ''status'']);
     request \<leftarrow> as_obj (jget p ''request'');
     ensure (\<not> rf_cancel s
       \<and> jget request ''schema_version'' = JStr ''execution-cancel-run-request/v1''
       \<and> jget p ''request_digest'' = JStr (json_digest (JObj request))
       \<and> jget p ''status'' = JStr ''cancel-requested'');
     k \<leftarrow> code_field (jget request ''idempotency_key'');
     Some (s\<lparr>rf_cancel := True, rf_status := RunCanceling\<rparr>) }"

definition on_node_succeeded ::
    "string \<Rightarrow> event \<Rightarrow> jobject \<Rightarrow> run_fold \<Rightarrow> run_fold option" where
  "on_node_succeeded run_id e p s = do {
     ensure (keys_are p [''principal_id'', ''run_id'', ''node_id'', ''lease_digest'',
       ''result_digest'', ''head_commit'', ''inspection_digest'', ''inspection'',
       ''retained_worktree'', ''status'']);
     ensure (run_ok p run_id);
     a \<leftarrow> active_of p s True True;
     ensure (\<not> rf_cancel s \<and> dt_utc (recorded_at e) \<le> dt_utc (al_expires a));
     i \<leftarrow> inspection_of p a False;
     head_commit \<leftarrow> commit_field (jget p ''head_commit'');
     ensure (jget i ''head_commit'' = JStr head_commit
       \<and> jget i ''uncommitted_paths'' = JArr [] \<and> jget i ''out_of_scope_paths'' = JArr []
       \<and> jget i ''changed_path_limit_exceeded'' = JBool False
       \<and> jget p ''retained_worktree'' = JBool True);
     n \<leftarrow> rf_nodes s (al_node a);
     result \<leftarrow> digest_field (jget p ''result_digest'');
     ensure (jget p ''status'' = JStr ''succeeded'');
     Some ((set_node (n\<lparr>nd_status := NodeSucceeded, nd_result := Some result,
         nd_head := Some head_commit, nd_retained := True, nd_cleanup := Some CleanupEligible,
         nd_cleanup_failure := None\<rparr>) s)
       \<lparr>rf_active := None, rf_status := RunQueued\<rparr>) }"

text \<open>The worktree a lease leaves behind: inspected when retained, absent from the event when not.\<close>

definition retained_flag :: "jobject \<Rightarrow> active_lease \<Rightarrow> bool option" where
  "retained_flag p a =
     (case jget p ''retained_worktree'' of
        JBool True \<Rightarrow> do { i \<leftarrow> inspection_of p a False; Some True }
      | JBool False \<Rightarrow> do {
          ensure (jget p ''inspection'' = JNull \<and> jget p ''inspection_digest'' = JNull);
          Some False }
      | _ \<Rightarrow> None)"

definition on_node_failed ::
    "string \<Rightarrow> event \<Rightarrow> jobject \<Rightarrow> run_fold \<Rightarrow> run_fold option" where
  "on_node_failed run_id e p s = do {
     ensure (keys_are p [''principal_id'', ''run_id'', ''node_id'', ''lease_digest'',
       ''failure_code'', ''result_digest'', ''inspection_digest'', ''inspection'',
       ''retained_worktree'', ''status'']);
     ensure (run_ok p run_id);
     a \<leftarrow> active_of p s False True;
     ensure (dt_utc (recorded_at e) \<le> dt_utc (al_expires a));
     n \<leftarrow> rf_nodes s (al_node a);
     failure \<leftarrow> code_field (jget p ''failure_code'');
     result \<leftarrow> optional_digest (jget p ''result_digest'');
     retained \<leftarrow> retained_flag p a;
     ensure (jget p ''status'' = JStr ''failed'');
     Some ((set_node (n\<lparr>nd_status := NodeFailed, nd_failure := Some failure, nd_result := result,
         nd_retained := (retained \<or> nd_retained n)\<rparr>) s)
       \<lparr>rf_active := None, rf_status := RunFailed\<rparr>) }"

definition on_node_requeued ::
    "string \<Rightarrow> jobject \<Rightarrow> run_fold \<Rightarrow> run_fold option" where
  "on_node_requeued run_id p s = do {
     ensure (keys_are p [''principal_id'', ''run_id'', ''node_id'', ''lease_digest'',
       ''disposition'', ''inspection_digest'', ''inspection'', ''status'']);
     ensure (run_ok p run_id);
     a \<leftarrow> active_of p s False False;
     ensure (al_dispatch a = None);
     (if jget p ''disposition'' = JStr ''missing''
      then ensure (jget p ''inspection'' = JNull \<and> jget p ''inspection_digest'' = JNull)
      else if jget p ''disposition'' = JStr ''unchanged''
      then do { i \<leftarrow> inspection_of p a True; Some () }
      else None);
     ensure (\<not> rf_cancel s \<and> jget p ''status'' = JStr ''requeued'');
     n \<leftarrow> rf_nodes s (al_node a);
     Some ((set_node (n\<lparr>nd_status := NodePending\<rparr>) s)\<lparr>rf_active := None, rf_status := RunQueued\<rparr>) }"

definition on_node_canceled ::
    "string \<Rightarrow> jobject \<Rightarrow> run_fold \<Rightarrow> run_fold option" where
  "on_node_canceled run_id p s = do {
     ensure (keys_are p [''principal_id'', ''run_id'', ''node_id'', ''lease_digest'',
       ''result_digest'', ''inspection_digest'', ''inspection'', ''retained_worktree'', ''status'']);
     ensure (run_ok p run_id);
     a \<leftarrow> active_of p s False False;
     retained \<leftarrow> retained_flag p a;
     ensure (rf_cancel s);
     ensure (jget p ''status'' = JStr ''canceled'');
     n \<leftarrow> rf_nodes s (al_node a);
     result \<leftarrow> optional_digest (jget p ''result_digest'');
     Some ((set_node (n\<lparr>nd_status := NodeCanceled, nd_result := result, nd_retained := retained\<rparr>) s)
       \<lparr>rf_active := None, rf_status := RunCanceling\<rparr>) }"

definition on_node_reconciliation ::
    "string \<Rightarrow> jobject \<Rightarrow> run_fold \<Rightarrow> run_fold option" where
  "on_node_reconciliation run_id p s = do {
     ensure (keys_are p [''principal_id'', ''run_id'', ''node_id'', ''lease_digest'',
       ''failure_code'', ''inspection_digest'', ''inspection'', ''retained_worktree'', ''status'']);
     ensure (run_ok p run_id);
     a \<leftarrow> active_of p s False False;
     (if jget p ''inspection'' = JNull
      then do {
        ensure (jget p ''inspection_digest'' = JNull \<and> jget p ''failure_code'' \<noteq> JNull
          \<and> jget p ''retained_worktree'' = JBool False);
        c \<leftarrow> code_field (jget p ''failure_code''); Some () }
      else do {
        i \<leftarrow> inspection_of p a False;
        ensure (jget p ''retained_worktree'' = JBool True);
        if jget p ''failure_code'' = JNull then Some ()
        else do { c \<leftarrow> code_field (jget p ''failure_code''); Some () } });
     ensure (jget p ''status'' = JStr ''reconciliation-required'');
     n \<leftarrow> rf_nodes s (al_node a);
     Some ((set_node (n\<lparr>nd_status := NodeReconciliationRequired,
         nd_failure := as_str (jget p ''failure_code''),
         nd_retained := (jget p ''retained_worktree'' = JBool True)\<rparr>) s)
       \<lparr>rf_active := None, rf_status := RunReconciliationRequired\<rparr>) }"

section \<open>Handlers of worktree cleanup\<close>

definition on_cleanup_requested ::
    "string \<Rightarrow> jobject \<Rightarrow> run_fold \<Rightarrow> run_fold option" where
  "on_cleanup_requested run_id p s = do {
     ensure (keys_are p [''principal_id'', ''run_id'', ''node_id'', ''lease_digest'',
       ''worktree_spec_digest'', ''head_commit'', ''retained_worktree'', ''status'']);
     ensure (run_ok p run_id);
     n \<leftarrow> cleanup_node p s CleanupEligible;
     ensure (jget p ''retained_worktree'' = JBool True
       \<and> jget p ''status'' = JStr ''worktree-cleanup-requested'');
     Some (set_node (n\<lparr>nd_cleanup := Some CleanupRequested\<rparr>) s) }"

definition on_worktree_cleaned ::
    "string \<Rightarrow> jobject \<Rightarrow> run_fold \<Rightarrow> run_fold option" where
  "on_worktree_cleaned run_id p s = do {
     ensure (keys_are p [''principal_id'', ''run_id'', ''node_id'', ''lease_digest'',
       ''worktree_spec_digest'', ''head_commit'', ''removal_digest'', ''removal'',
       ''retained_worktree'', ''status'']);
     ensure (run_ok p run_id);
     n \<leftarrow> cleanup_node p s CleanupRequested;
     removal \<leftarrow> as_obj (jget p ''removal'');
     ensure (keys_are removal [''schema_version'', ''spec_digest'', ''lease_digest'',
       ''worktree_path'', ''branch_name'', ''retained_head_commit'', ''disposition'']);
     spec_digest \<leftarrow> digest_field (opt_str (nd_spec_digest n));
     lease_digest \<leftarrow> digest_field (opt_str (nd_lease_digest n));
     head_commit \<leftarrow> commit_field (opt_str (nd_head n));
     spec \<leftarrow> nd_spec n;
     let suffix = removeprefix spec_digest ''sha256:'' in
     do {
     ensure (jget p ''removal_digest'' = JStr (json_digest (JObj removal))
       \<and> jget removal ''schema_version'' = JStr ''blackcell.worktree-removal/v1''
       \<and> jget removal ''spec_digest'' = JStr spec_digest
       \<and> jget removal ''lease_digest'' = JStr lease_digest
       \<and> jget removal ''worktree_path'' =
           (case jget spec ''isolation_root'' of
              JStr dir \<Rightarrow> JStr (path_join dir (''worktree-'' @ suffix)) | _ \<Rightarrow> JNull)
       \<and> jget removal ''branch_name'' = JStr (''blackcell/execution-worktree/'' @ suffix)
       \<and> jget removal ''retained_head_commit'' = JStr head_commit
       \<and> jget removal ''disposition'' = JStr ''removed''
       \<and> jget p ''retained_worktree'' = JBool False
       \<and> jget p ''status'' = JStr ''worktree-cleaned'');
     Some (set_node (n\<lparr>nd_retained := False, nd_cleanup := Some CleanupCleaned,
       nd_cleanup_failure := None\<rparr>) s) } }"

definition on_cleanup_failed ::
    "string \<Rightarrow> jobject \<Rightarrow> run_fold \<Rightarrow> run_fold option" where
  "on_cleanup_failed run_id p s = do {
     ensure (keys_are p [''principal_id'', ''run_id'', ''node_id'', ''lease_digest'',
       ''worktree_spec_digest'', ''head_commit'', ''failure_code'', ''retained_worktree'', ''status'']);
     ensure (run_ok p run_id);
     n \<leftarrow> cleanup_node p s CleanupRequested;
     failure \<leftarrow> code_field (jget p ''failure_code'');
     retained \<leftarrow> as_bool (jget p ''retained_worktree'');
     ensure (jget p ''status'' = JStr ''worktree-cleanup-failed'');
     Some (set_node (n\<lparr>nd_retained := retained, nd_cleanup := Some CleanupFailed,
       nd_cleanup_failure := Some failure\<rparr>) s) }"

section \<open>Handlers of the run's end\<close>

definition on_run_end ::
    "dependencies \<Rightarrow> string \<Rightarrow> event \<Rightarrow> jobject \<Rightarrow> run_fold \<Rightarrow> run_fold option" where
  "on_run_end deps run_id e p s = do {
     ensure (keys_are p [''principal_id'', ''run_id'', ''status'', ''retained_worktree'']);
     ensure (run_ok p run_id);
     retained \<leftarrow> as_bool (jget p ''retained_worktree'');
     ensure (rf_active s = None);
     if event_type e = ''run.succeeded''
     then do {
       ensure (jget p ''status'' = JStr ''succeeded'' \<and> \<not> rf_cancel s
         \<and> \<not> any_node deps s (\<lambda>n. nd_status n \<noteq> NodeSucceeded)
         \<and> retained = any_node deps s nd_retained);
       Some (s\<lparr>rf_status := RunSucceeded, rf_terminal := True\<rparr>) }
     else if event_type e = ''run.failed''
     then do {
       ensure (jget p ''status'' = JStr ''failed''
         \<and> any_node deps s (\<lambda>n. nd_status n = NodeFailed)
         \<and> retained = any_node deps s (\<lambda>n. nd_status n = NodeFailed \<and> nd_retained n));
       Some (s\<lparr>rf_status := RunFailed, rf_terminal := True\<rparr>) }
     else if event_type e = ''run.canceled''
     then do {
       ensure (jget p ''status'' = JStr ''canceled'' \<and> rf_cancel s
         \<and> retained = any_node deps s nd_retained);
       Some (s\<lparr>rf_status := RunCanceled, rf_terminal := True\<rparr>) }
     else do {
       ensure (jget p ''status'' = JStr ''reconciliation-required''
         \<and> any_node deps s (\<lambda>n. nd_status n = NodeReconciliationRequired)
         \<and> retained = any_node deps s (\<lambda>n. nd_status n = NodeReconciliationRequired \<and> nd_retained n));
       Some (s\<lparr>rf_status := RunReconciliationRequired, rf_reconciled := True\<rparr>) } }"

section \<open>The fold\<close>

definition RUN_EVENT_TYPES :: "string list" where
  "RUN_EVENT_TYPES =
     [''run.queued'', ''node.claimed'', ''node.worktree-prepared'',
      ''node.provider-dispatch-started'', ''run.cancel-requested'', ''node.succeeded'',
      ''node.failed'', ''node.requeued'', ''node.canceled'', ''node.reconciliation-required'',
      ''node.worktree-cleanup-requested'', ''node.worktree-cleaned'',
      ''node.worktree-cleanup-failed'', ''run.succeeded'', ''run.failed'', ''run.canceled'',
      ''run.reconciliation-required'']"

definition public_event :: "event \<Rightarrow> bool" where
  "public_event e = (source e = RUNTIME_EVENT_SOURCE \<and> event_type e \<in> set RUN_EVENT_TYPES)"

definition known_event :: "event \<Rightarrow> bool" where
  "known_event e = (public_event e
     \<or> source e = EXECUTION_EVENT_SOURCE \<and> event_type e \<in> set EXECUTION_EVENT_TYPES)"

definition cleanup_event :: "event \<Rightarrow> bool" where
  "cleanup_event e = (event_type e = ''node.worktree-cleanup-requested''
     \<or> event_type e = ''node.worktree-cleaned'' \<or> event_type e = ''node.worktree-cleanup-failed'')"

definition dispatch_event ::
    "(string \<Rightarrow> datetime option) \<Rightarrow> dependencies \<Rightarrow> string \<Rightarrow> event \<Rightarrow> jobject \<Rightarrow> run_fold
     \<Rightarrow> run_fold option" where
  "dispatch_event fromiso deps run_id e p s =
     (let t = event_type e in
      if t = ''node.claimed'' then on_node_claimed fromiso deps run_id e p s
      else if t = ''node.worktree-prepared'' then on_worktree_prepared run_id e p s
      else if t = ''node.provider-dispatch-started'' then on_dispatch_started run_id e p s
      else if t = ''run.cancel-requested'' then on_cancel_requested p s
      else if t = ''node.succeeded'' then on_node_succeeded run_id e p s
      else if t = ''node.failed'' then on_node_failed run_id e p s
      else if t = ''node.requeued'' then on_node_requeued run_id p s
      else if t = ''node.canceled'' then on_node_canceled run_id p s
      else if t = ''node.reconciliation-required'' then on_node_reconciliation run_id p s
      else if t = ''node.worktree-cleanup-requested'' then on_cleanup_requested run_id p s
      else if t = ''node.worktree-cleaned'' then on_worktree_cleaned run_id p s
      else if t = ''node.worktree-cleanup-failed'' then on_cleanup_failed run_id p s
      else if t = ''run.succeeded'' \<or> t = ''run.failed'' \<or> t = ''run.canceled''
           \<or> t = ''run.reconciliation-required'' then on_run_end deps run_id e p s
      else None)"

definition run_step ::
    "(string \<Rightarrow> datetime option) \<Rightarrow> dependencies \<Rightarrow> string \<Rightarrow> run_fold \<Rightarrow> event
     \<Rightarrow> run_fold option" where
  "run_step fromiso deps run_id s e = do {
     ensure (\<not> (rf_terminal s \<and> \<not> cleanup_event e));
     ensure (principal_ok (payload e) e);
     dispatch_event fromiso deps run_id e (payload e) s }"

definition valid_dependencies :: "dependencies \<Rightarrow> bool" where
  "valid_dependencies deps =
     list_all (\<lambda>d. fst d \<noteq> [] \<and> fst d \<notin> set (snd d) \<and> set (snd d) \<subseteq> set (map fst deps)) deps"

fun sequenced :: "string \<Rightarrow> int \<Rightarrow> event list \<Rightarrow> bool" where
  "sequenced stream n [] = True"
| "sequenced stream n (e # es) =
     (stream_id e = stream \<and> stream_sequence e = n \<and> schema_version e = 1 \<and> known_event e
      \<and> sequenced stream (n + 1) es)"

definition queued_ok :: "event \<Rightarrow> string \<Rightarrow> bool" where
  "queued_ok e run_id =
     (let p = payload e in
      keys_are p [''request'', ''request_digest'', ''principal_id'', ''references'', ''status'']
      \<and> principal_ok p e
      \<and> (case jget p ''request'' of
           JObj request \<Rightarrow> jget request ''run_id'' = JStr run_id
             \<and> jget p ''request_digest'' = JStr (json_digest (JObj request))
             \<and> jget p ''status'' = JStr ''queued''
         | _ \<Rightarrow> False))"

record run_lifecycle =
  rl_run_id :: string
  rl_status :: run_status
  rl_nodes :: "node list"
  rl_cancel :: bool
  rl_active :: "active_lease option"
  rl_queued :: event
  rl_latest :: event
  rl_sequence :: int

text \<open>The checks on the whole stream before the fold.\<close>

definition run_stream_ok :: "string \<Rightarrow> dependencies \<Rightarrow> event list \<Rightarrow> bool" where
  "run_stream_ok run_id deps events \<longleftrightarrow>
     run_id \<noteq> [] \<and> deps \<noteq> [] \<and> events \<noteq> [] \<and> valid_dependencies deps
     \<and> sequenced (''run:'' @ run_id) 1 events
     \<and> filter public_event events \<noteq> []
     \<and> (let public = filter public_event events; queued = hd public in
        event_type queued = ''run.queued'' \<and> queued_ok queued run_id
        \<and> list_all (\<lambda>e. correlation_id e = correlation_id queued) public)
     \<and> chained events"

text \<open>The check on the result: a run without a lease and without an end must have been left in a
  state from which the runtime has nothing to conclude.\<close>

definition run_settled :: "dependencies \<Rightarrow> run_fold \<Rightarrow> bool" where
  "run_settled deps s \<longleftrightarrow>
     (rf_active s = None \<and> \<not> rf_terminal s \<longrightarrow>
        \<not> rf_cancel s
        \<and> any_node deps s (\<lambda>n. nd_status n \<noteq> NodeSucceeded)
        \<and> \<not> any_node deps s (\<lambda>n. nd_status n = NodeFailed)
        \<and> (any_node deps s (\<lambda>n. nd_status n = NodeReconciliationRequired) \<longrightarrow> rf_reconciled s))"

definition run_state :: "string \<Rightarrow> dependencies \<Rightarrow> event list \<Rightarrow> run_fold \<Rightarrow> run_lifecycle" where
  "run_state run_id deps events s =
     \<lparr>rl_run_id = run_id, rl_status = rf_status s,
      rl_nodes = List.map_filter (rf_nodes s) (node_ids deps),
      rl_cancel = rf_cancel s, rl_active = rf_active s,
      rl_queued = hd (filter public_event events), rl_latest = last (filter public_event events),
      rl_sequence = stream_sequence (last events)\<rparr>"

definition fold_run_lifecycle ::
    "(string \<Rightarrow> datetime option) \<Rightarrow> string \<Rightarrow> dependencies \<Rightarrow> event list \<Rightarrow> run_lifecycle option" where
  "fold_run_lifecycle fromiso run_id deps events = do {
     ensure (run_stream_ok run_id deps events);
     s \<leftarrow> ofold (run_step fromiso deps run_id) (init_fold deps) (tl (filter public_event events));
     ensure (run_settled deps s);
     Some (run_state run_id deps events s) }"

section \<open>The client's view\<close>

fun run_status_value :: "run_status \<Rightarrow> string" where
  "run_status_value RunQueued = ''queued''"
| "run_status_value RunRunning = ''running''"
| "run_status_value RunCanceling = ''canceling''"
| "run_status_value RunCanceled = ''canceled''"
| "run_status_value RunSucceeded = ''succeeded''"
| "run_status_value RunFailed = ''failed''"
| "run_status_value RunReconciliationRequired = ''reconciliation-required''"

fun node_status_value :: "node_status \<Rightarrow> string" where
  "node_status_value NodePending = ''pending''"
| "node_status_value NodeClaimed = ''claimed''"
| "node_status_value NodeRunning = ''running''"
| "node_status_value NodeSucceeded = ''succeeded''"
| "node_status_value NodeFailed = ''failed''"
| "node_status_value NodeCanceled = ''canceled''"
| "node_status_value NodeReconciliationRequired = ''reconciliation-required''"

fun cleanup_status_value :: "cleanup_status \<Rightarrow> string" where
  "cleanup_status_value CleanupEligible = ''eligible''"
| "cleanup_status_value CleanupRequested = ''requested''"
| "cleanup_status_value CleanupFailed = ''failed''"
| "cleanup_status_value CleanupCleaned = ''cleaned''"

definition lease_payload :: "active_lease \<Rightarrow> json" where
  "lease_payload a = JObj
     [(''node_id'', JStr (al_node a)), (''attempt'', JInt (al_attempt a)),
      (''fencing_token'', JInt (al_fence a)), (''worker_id'', JStr (al_worker a)),
      (''lease_digest'', JStr (al_lease_digest a)),
      (''worktree_spec_digest'', JStr (al_spec_digest a)),
      (''expires_at'', JStr (isoformat (al_expires a))), (''prepared'', JBool (al_prepared a)),
      (''provider_request_id'', opt_str (al_request a)),
      (''provider_context_digest'', opt_str (al_context a)),
      (''provider_dispatch_event_id'', opt_str (al_dispatch a))]"

definition node_payload :: "node \<Rightarrow> json" where
  "node_payload n = JObj
     [(''node_id'', JStr (nd_id n)), (''status'', JStr (node_status_value (nd_status n))),
      (''attempts'', JInt (nd_attempts n)), (''fencing_token'', JInt (nd_fence n)),
      (''result_digest'', opt_str (nd_result n)), (''head_commit'', opt_str (nd_head n)),
      (''failure_code'', opt_str (nd_failure n)), (''retained_worktree'', JBool (nd_retained n)),
      (''lease_digest'', opt_str (nd_lease_digest n)),
      (''worktree_spec_digest'', opt_str (nd_spec_digest n)),
      (''cleanup_status'', opt_str (map_option cleanup_status_value (nd_cleanup n))),
      (''cleanup_failure_code'', opt_str (nd_cleanup_failure n))]"

definition run_lifecycle_payload :: "run_lifecycle \<Rightarrow> json" where
  "run_lifecycle_payload r = JObj
     [(''run_id'', JStr (rl_run_id r)), (''status'', JStr (run_status_value (rl_status r))),
      (''cancellation_requested'', JBool (rl_cancel r)),
      (''active_lease'', (case rl_active r of None \<Rightarrow> JNull | Some a \<Rightarrow> lease_payload a)),
      (''nodes'', JArr (map node_payload (rl_nodes r))),
      (''stream_sequence'', JInt (rl_sequence r)),
      (''latest_event_id'', JStr (event_id (rl_latest r))),
      (''latest_event_digest'', JStr (payload_hash (rl_latest r)))]"

definition thaw_worktree_spec :: "active_lease \<Rightarrow> pyval" where
  "thaw_worktree_spec a = thaw_json (JObj (al_spec a))"

definition thaw_successful_worktree_spec :: "node \<Rightarrow> pyval option" where
  "thaw_successful_worktree_spec n = do {
     ensure (nd_status n = NodeSucceeded);
     spec \<leftarrow> nd_spec n;
     Some (thaw_json (JObj spec)) }"

end
