(* ===== verification/RunFacts.thy ===== *)
theory RunFacts
  imports RunLifecycle
begin

text \<open>
  Correctness of the run fold. \<open>run_trans\<close> is the abstract life cycle: what each kind of event may
  do to the state, without its payload. Every accepted event is such a transition (refinement),
  and the invariants are proved on the transitions: one active lease, consistent with its node;
  fencing tokens that count the claims; no claim before the dependencies succeed; success only
  when every node succeeded; nothing but cleanup after the end.
\<close>

section \<open>The abstract life cycle\<close>

definition same_claim :: "node \<Rightarrow> node \<Rightarrow> bool" where
  "same_claim n n' \<longleftrightarrow> nd_id n' = nd_id n \<and> nd_attempts n' = nd_attempts n
     \<and> nd_fence n' = nd_fence n \<and> nd_lease_digest n' = nd_lease_digest n
     \<and> nd_spec_digest n' = nd_spec_digest n"

inductive run_trans :: "dependencies \<Rightarrow> run_fold \<Rightarrow> run_fold \<Rightarrow> bool" for deps where
  claim: "\<lbrakk>\<not> rf_terminal s; \<not> rf_cancel s; rf_active s = None;
      rf_status s = RunQueued \<or> rf_status s = RunRunning;
      rf_nodes s i = Some n; nd_id n = i; nd_status n = NodePending;
      \<forall>d \<in> set (deps_of deps i). status_of s d = Some NodeSucceeded;
      nd_id n' = i; nd_status n' = NodeClaimed; nd_attempts n' = nd_attempts n + 1;
      nd_fence n' = rf_fence s + 1; nd_lease_digest n' = Some (al_lease_digest a);
      nd_spec_digest n' = Some (al_spec_digest a);
      al_node a = i; al_attempt a = nd_attempts n'; al_fence a = nd_fence n';
      \<not> al_prepared a; al_dispatch a = None\<rbrakk>
    \<Longrightarrow> run_trans deps s ((set_node n' s)\<lparr>rf_fence := rf_fence s + 1, rf_status := RunRunning,
          rf_active := Some a\<rparr>)"
| prepare: "\<lbrakk>\<not> rf_terminal s; rf_active s = Some a; \<not> al_prepared a; rf_nodes s (al_node a) = Some n;
      same_claim n n'; nd_status n' = NodeRunning\<rbrakk>
    \<Longrightarrow> run_trans deps s ((set_node n' s)\<lparr>rf_active := Some (a\<lparr>al_prepared := True\<rparr>)\<rparr>)"
| dispatch: "\<lbrakk>\<not> rf_terminal s; \<not> rf_cancel s; rf_active s = Some a; al_prepared a;
      al_dispatch a = None; a' = a\<lparr>al_prepared := True, al_request := q, al_context := c,
        al_dispatch := Some d\<rparr>\<rbrakk>
    \<Longrightarrow> run_trans deps s (s\<lparr>rf_active := Some a'\<rparr>)"
| cancel: "\<lbrakk>\<not> rf_terminal s; \<not> rf_cancel s\<rbrakk>
    \<Longrightarrow> run_trans deps s (s\<lparr>rf_cancel := True, rf_status := RunCanceling\<rparr>)"
| release: "\<lbrakk>\<not> rf_terminal s; rf_active s = Some a; rf_nodes s (al_node a) = Some n; same_claim n n';
      (nd_status n', st) = (NodeSucceeded, RunQueued) \<and> \<not> rf_cancel s \<and> al_prepared a
      \<or> (nd_status n', st) = (NodeFailed, RunFailed)
      \<or> (nd_status n', st) = (NodePending, RunQueued) \<and> \<not> rf_cancel s \<and> al_dispatch a = None
      \<or> (nd_status n', st) = (NodeCanceled, RunCanceling) \<and> rf_cancel s
      \<or> (nd_status n', st) = (NodeReconciliationRequired, RunReconciliationRequired)\<rbrakk>
    \<Longrightarrow> run_trans deps s ((set_node n' s)\<lparr>rf_active := None, rf_status := st\<rparr>)"
| cleanup: "\<lbrakk>rf_active s = None; rf_nodes s i = Some n; nd_id n = i; nd_status n = NodeSucceeded;
      same_claim n n'; nd_status n' = NodeSucceeded\<rbrakk>
    \<Longrightarrow> run_trans deps s (set_node n' s)"
| finish: "\<lbrakk>\<not> rf_terminal s; rf_active s = None;
      st = RunSucceeded \<and> \<not> rf_cancel s \<and> (\<forall>i \<in> set (node_ids deps). status_of s i = Some NodeSucceeded)
      \<or> st = RunFailed \<and> (\<exists>i. status_of s i = Some NodeFailed)
      \<or> st = RunCanceled \<and> rf_cancel s\<rbrakk>
    \<Longrightarrow> run_trans deps s (s\<lparr>rf_status := st, rf_terminal := True\<rparr>)"
| reconcile: "\<lbrakk>\<not> rf_terminal s; rf_active s = None;
      \<exists>i. status_of s i = Some NodeReconciliationRequired\<rbrakk>
    \<Longrightarrow> run_trans deps s (s\<lparr>rf_status := RunReconciliationRequired, rf_reconciled := True\<rparr>)"

inductive run_reachable :: "dependencies \<Rightarrow> run_fold \<Rightarrow> bool" for deps where
  start: "run_reachable deps (init_fold deps)"
| step: "run_reachable deps s \<Longrightarrow> run_trans deps s s' \<Longrightarrow> run_reachable deps s'"

section \<open>Every accepted event is a transition\<close>

definition nodes_ok :: "dependencies \<Rightarrow> run_fold \<Rightarrow> bool" where
  "nodes_ok deps s \<longleftrightarrow> (\<forall>i. rf_nodes s i \<noteq> None \<longleftrightarrow> i \<in> set (node_ids deps))
     \<and> (\<forall>i n. rf_nodes s i = Some n \<longrightarrow> nd_id n = i)"

lemmas option_steps = bind_eq_Some_conv

lemma the_node_Some:
  "nodes_ok deps s \<Longrightarrow> the_node p s = Some n \<Longrightarrow> rf_nodes s (nd_id n) = Some n"
  by (auto simp: the_node_def bind_eq_Some_conv nodes_ok_def)

lemma active_of_Some:
  assumes "active_of p s rp rw = Some a"
  shows "rf_active s = Some a \<and> (rp \<longrightarrow> al_prepared a)"
  using assms by (auto simp: active_of_def bind_eq_Some_conv split: if_splits)

lemma cleanup_node_Some:
  assumes "cleanup_node p s c = Some n"
  shows "the_node p s = Some n \<and> rf_active s = None \<and> nd_status n = NodeSucceeded
    \<and> nd_cleanup n = Some c"
  using assms by (auto simp: cleanup_node_def bind_eq_Some_conv split: if_splits)

lemma any_node_status:
  assumes "nodes_ok deps s"
  shows "any_node deps s (\<lambda>n. P (nd_status n)) \<longleftrightarrow>
    (\<exists>i \<in> set (node_ids deps). \<exists>x. status_of s i = Some x \<and> P x)"
  by (fastforce simp: any_node_def list_ex_iff status_of_def split: option.splits)

lemma on_node_claimed_trans:
  assumes ok: "nodes_ok deps s" and t: "\<not> rf_terminal s"
    and run: "on_node_claimed fromiso deps run_id e p s = Some s'"
  shows "run_trans deps s s'"
proof -
  from run obtain n attempt fence worker lease_digest spec_digest expires spec where
    g: "\<not> rf_cancel s" "rf_active s = None" "rf_status s = RunQueued \<or> rf_status s = RunRunning"
    and n: "the_node p s = Some n" "nd_status n = NodePending"
      "list_all (\<lambda>d. status_of s d = Some NodeSucceeded) (deps_of deps (nd_id n))"
    and counters: "attempt = nd_attempts n + 1" "fence = rf_fence s + 1"
    and s': "s' = (set_node (n\<lparr>nd_status := NodeClaimed, nd_attempts := attempt, nd_fence := fence,
         nd_lease_digest := Some lease_digest, nd_spec_digest := Some spec_digest,
         nd_spec := Some spec, nd_cleanup := None, nd_cleanup_failure := None\<rparr>) s)
       \<lparr>rf_fence := fence, rf_status := RunRunning,
        rf_active := Some \<lparr>al_node = nd_id n, al_attempt = attempt, al_fence = fence,
          al_worker = worker, al_lease_digest = lease_digest, al_spec_digest = spec_digest,
          al_spec = spec, al_expires = expires, al_prepared = False, al_request = None,
          al_context = None, al_dispatch = None\<rparr>\<rparr>"
    unfolding on_node_claimed_def by (auto simp: bind_eq_Some_conv split: if_splits)
  show ?thesis
    unfolding s' counters
    by (rule run_trans.claim[OF t g the_node_Some[OF ok n(1)] refl n(2)])
      (use n(3) counters in \<open>auto simp: list_all_iff\<close>)
qed

lemma on_worktree_prepared_trans:
  assumes ok: "nodes_ok deps s" and t: "\<not> rf_terminal s"
    and run: "on_worktree_prepared run_id e p s = Some s'"
  shows "run_trans deps s s'"
proof -
  from run obtain a n where a: "active_of p s False True = Some a" "\<not> al_prepared a"
    and n: "rf_nodes s (al_node a) = Some n"
    and s': "s' = (set_node (n\<lparr>nd_status := NodeRunning\<rparr>) s)\<lparr>rf_active := Some (a\<lparr>al_prepared := True\<rparr>)\<rparr>"
    unfolding on_worktree_prepared_def by (auto simp: bind_eq_Some_conv split: if_splits)
  show ?thesis unfolding s'
    by (rule run_trans.prepare[OF t _ a(2) n]) (use active_of_Some[OF a(1)] in \<open>auto simp: same_claim_def\<close>)
qed

lemma on_dispatch_started_trans:
  assumes t: "\<not> rf_terminal s" and run: "on_dispatch_started run_id e p s = Some s'"
  shows "run_trans deps s s'"
proof -
  from run obtain a q c where a: "active_of p s True True = Some a" "al_dispatch a = None"
    and g: "\<not> rf_cancel s"
    and s': "s' = s\<lparr>rf_active := Some (a\<lparr>al_prepared := True, al_request := Some q,
       al_context := Some c, al_dispatch := Some (event_id e)\<rparr>)\<rparr>"
    unfolding on_dispatch_started_def by (auto simp: bind_eq_Some_conv split: if_splits)
  show ?thesis unfolding s'
    by (rule run_trans.dispatch[OF t g _ _ a(2) refl]) (use active_of_Some[OF a(1)] in auto)
qed

lemma on_cancel_requested_trans:
  assumes t: "\<not> rf_terminal s" and run: "on_cancel_requested p s = Some s'"
  shows "run_trans deps s s'"
proof -
  from run have "\<not> rf_cancel s" "s' = s\<lparr>rf_cancel := True, rf_status := RunCanceling\<rparr>"
    unfolding on_cancel_requested_def by (auto simp: bind_eq_Some_conv split: if_splits)
  then show ?thesis using run_trans.cancel[OF t] by simp
qed

text \<open>The five ways a lease ends.\<close>

lemma release_trans:
  assumes "\<not> rf_terminal s" "active_of p s rp rw = Some a" "rf_nodes s (al_node a) = Some n"
    and "same_claim n n'" "s' = (set_node n' s)\<lparr>rf_active := None, rf_status := st\<rparr>"
    and "(nd_status n', st) = (NodeSucceeded, RunQueued) \<and> \<not> rf_cancel s \<and> al_prepared a
      \<or> (nd_status n', st) = (NodeFailed, RunFailed)
      \<or> (nd_status n', st) = (NodePending, RunQueued) \<and> \<not> rf_cancel s \<and> al_dispatch a = None
      \<or> (nd_status n', st) = (NodeCanceled, RunCanceling) \<and> rf_cancel s
      \<or> (nd_status n', st) = (NodeReconciliationRequired, RunReconciliationRequired)"
  shows "run_trans deps s s'"
  unfolding assms(5)
  by (rule run_trans.release[OF assms(1) _ assms(3,4,6)]) (use active_of_Some[OF assms(2)] in simp)

lemma on_node_succeeded_trans:
  assumes t: "\<not> rf_terminal s" and run: "on_node_succeeded run_id e p s = Some s'"
  shows "run_trans deps s s'"
proof -
  from run obtain a n r h where a: "active_of p s True True = Some a" and g: "\<not> rf_cancel s"
    and n: "rf_nodes s (al_node a) = Some n"
    and s': "s' = (set_node (n\<lparr>nd_status := NodeSucceeded, nd_result := Some r, nd_head := Some h,
         nd_retained := True, nd_cleanup := Some CleanupEligible, nd_cleanup_failure := None\<rparr>) s)
       \<lparr>rf_active := None, rf_status := RunQueued\<rparr>"
    unfolding on_node_succeeded_def by (auto simp: bind_eq_Some_conv split: if_splits)
  show ?thesis
    by (rule release_trans[OF t a n _ s']) (use active_of_Some[OF a] g in \<open>auto simp: same_claim_def\<close>)
qed

lemma on_node_failed_trans:
  assumes t: "\<not> rf_terminal s" and run: "on_node_failed run_id e p s = Some s'"
  shows "run_trans deps s s'"
proof -
  from run obtain a n f r k where a: "active_of p s False True = Some a"
    and n: "rf_nodes s (al_node a) = Some n"
    and s': "s' = (set_node (n\<lparr>nd_status := NodeFailed, nd_failure := Some f, nd_result := r,
         nd_retained := (k \<or> nd_retained n)\<rparr>) s)\<lparr>rf_active := None, rf_status := RunFailed\<rparr>"
    unfolding on_node_failed_def by (auto simp: bind_eq_Some_conv split: if_splits)
  show ?thesis by (rule release_trans[OF t a n _ s']) (auto simp: same_claim_def)
qed

lemma on_node_requeued_trans:
  assumes t: "\<not> rf_terminal s" and run: "on_node_requeued run_id p s = Some s'"
  shows "run_trans deps s s'"
proof -
  from run obtain a n where a: "active_of p s False False = Some a" "al_dispatch a = None"
    and g: "\<not> rf_cancel s" and n: "rf_nodes s (al_node a) = Some n"
    and s': "s' = (set_node (n\<lparr>nd_status := NodePending\<rparr>) s)\<lparr>rf_active := None, rf_status := RunQueued\<rparr>"
    unfolding on_node_requeued_def by (auto simp: bind_eq_Some_conv split: if_splits)
  show ?thesis by (rule release_trans[OF t a(1) n _ s']) (use a g in \<open>auto simp: same_claim_def\<close>)
qed

lemma on_node_canceled_trans:
  assumes t: "\<not> rf_terminal s" and run: "on_node_canceled run_id p s = Some s'"
  shows "run_trans deps s s'"
proof -
  from run obtain a n r k where a: "active_of p s False False = Some a" and g: "rf_cancel s"
    and n: "rf_nodes s (al_node a) = Some n"
    and s': "s' = (set_node (n\<lparr>nd_status := NodeCanceled, nd_result := r, nd_retained := k\<rparr>) s)
       \<lparr>rf_active := None, rf_status := RunCanceling\<rparr>"
    unfolding on_node_canceled_def by (auto simp: bind_eq_Some_conv split: if_splits)
  show ?thesis by (rule release_trans[OF t a n _ s']) (use g in \<open>auto simp: same_claim_def\<close>)
qed

lemma on_node_reconciliation_trans:
  assumes t: "\<not> rf_terminal s" and run: "on_node_reconciliation run_id p s = Some s'"
  shows "run_trans deps s s'"
proof -
  from run obtain a n f k where a: "active_of p s False False = Some a"
    and n: "rf_nodes s (al_node a) = Some n"
    and s': "s' = (set_node (n\<lparr>nd_status := NodeReconciliationRequired, nd_failure := f,
         nd_retained := k\<rparr>) s)\<lparr>rf_active := None, rf_status := RunReconciliationRequired\<rparr>"
    unfolding on_node_reconciliation_def by (auto simp: bind_eq_Some_conv split: if_splits)
  show ?thesis by (rule release_trans[OF t a n _ s']) (auto simp: same_claim_def)
qed

lemma cleanup_trans:
  assumes ok: "nodes_ok deps s" and n: "cleanup_node p s c = Some n"
    and s': "s' = set_node n' s" and same: "same_claim n n'" "nd_status n' = nd_status n"
  shows "run_trans deps s s'"
  unfolding s'
  by (rule run_trans.cleanup[OF _ the_node_Some[OF ok]])
    (use cleanup_node_Some[OF n] same in auto)

lemma cleanup_handlers_trans:
  assumes "nodes_ok deps s"
    and "on_cleanup_requested run_id p s = Some s' \<or> on_worktree_cleaned run_id p s = Some s'
      \<or> on_cleanup_failed run_id p s = Some s'"
  shows "run_trans deps s s'"
proof -
  from assms(2) obtain c n n' where "cleanup_node p s c = Some n" "s' = set_node n' s"
    "same_claim n n'" "nd_status n' = nd_status n"
    unfolding on_cleanup_requested_def on_worktree_cleaned_def on_cleanup_failed_def Let_def
    by (fastforce simp: bind_eq_Some_conv same_claim_def split: if_splits)
  then show ?thesis using cleanup_trans[OF assms(1)] by blast
qed

lemma on_run_end_trans:
  assumes ok: "nodes_ok deps s" and t: "\<not> rf_terminal s"
    and run: "on_run_end deps run_id e p s = Some s'"
  shows "run_trans deps s s'"
proof -
  from run have idle: "rf_active s = None"
    by (auto simp: on_run_end_def bind_eq_Some_conv split: if_splits)
  from run consider
      (ok) "\<not> rf_cancel s" "\<not> any_node deps s (\<lambda>n. nd_status n \<noteq> NodeSucceeded)"
        "s' = s\<lparr>rf_status := RunSucceeded, rf_terminal := True\<rparr>"
    | (failed) "any_node deps s (\<lambda>n. nd_status n = NodeFailed)"
        "s' = s\<lparr>rf_status := RunFailed, rf_terminal := True\<rparr>"
    | (canceled) "rf_cancel s" "s' = s\<lparr>rf_status := RunCanceled, rf_terminal := True\<rparr>"
    | (reconcile) "any_node deps s (\<lambda>n. nd_status n = NodeReconciliationRequired)"
        "s' = s\<lparr>rf_status := RunReconciliationRequired, rf_reconciled := True\<rparr>"
    unfolding on_run_end_def by (auto simp: bind_eq_Some_conv split: if_splits)
  then show ?thesis
  proof cases
    case ok
    have "\<forall>i \<in> set (node_ids deps). status_of s i = Some NodeSucceeded"
      using ok(2) assms(1) any_node_status[OF assms(1), of "\<lambda>x. x \<noteq> NodeSucceeded"]
      by (fastforce simp: nodes_ok_def status_of_def)
    with ok run_trans.finish[OF t idle, of RunSucceeded deps] show ?thesis by simp
  next
    case failed
    with any_node_status[OF assms(1), of "\<lambda>x. x = NodeFailed"] run_trans.finish[OF t idle, of RunFailed deps]
    show ?thesis by auto
  next
    case canceled
    with run_trans.finish[OF t idle, of RunCanceled deps] show ?thesis by simp
  next
    case reconcile
    with any_node_status[OF assms(1), of "\<lambda>x. x = NodeReconciliationRequired"]
      run_trans.reconcile[OF t idle] show ?thesis by auto
  qed
qed

lemma run_step_trans:
  assumes ok: "nodes_ok deps s" and run: "run_step fromiso deps run_id s e = Some s'"
  shows "run_trans deps s s'"
proof (cases "cleanup_event e")
  case True
  with run have "on_cleanup_requested run_id (payload e) s = Some s'
      \<or> on_worktree_cleaned run_id (payload e) s = Some s'
      \<or> on_cleanup_failed run_id (payload e) s = Some s'"
    by (auto simp: run_step_def dispatch_event_def Let_def cleanup_event_def split: if_splits)
  then show ?thesis by (rule cleanup_handlers_trans[OF ok])
next
  case False
  with run have t: "\<not> rf_terminal s"
    and d: "dispatch_event fromiso deps run_id e (payload e) s = Some s'"
    by (auto simp: run_step_def split: if_splits)
  from d False show ?thesis
    unfolding dispatch_event_def Let_def cleanup_event_def
    by (auto split: if_splits
        intro: on_node_claimed_trans[OF ok t] on_worktree_prepared_trans[OF ok t]
          on_dispatch_started_trans[OF t] on_cancel_requested_trans[OF t]
          on_node_succeeded_trans[OF t] on_node_failed_trans[OF t] on_node_requeued_trans[OF t]
          on_node_canceled_trans[OF t] on_node_reconciliation_trans[OF t]
          on_run_end_trans[OF ok t])
qed

section \<open>Invariants\<close>

lemma nodes_ok_init: "nodes_ok deps (init_fold deps)"
  by (simp add: nodes_ok_def init_fold_def fresh_node_def)

lemma rf_set_node [simp]:
  "rf_nodes (set_node n s) = (rf_nodes s)(nd_id n \<mapsto> n)" "rf_cancel (set_node n s) = rf_cancel s"
  "rf_active (set_node n s) = rf_active s" "rf_terminal (set_node n s) = rf_terminal s"
  "rf_status (set_node n s) = rf_status s" "rf_reconciled (set_node n s) = rf_reconciled s"
  "rf_fence (set_node n s) = rf_fence s"
  by (simp_all add: set_node_def)

text \<open>Every transition leaves all nodes but one alone; the life cycle of that one.\<close>

definition node_step :: "run_fold \<Rightarrow> run_fold \<Rightarrow> bool" where
  "node_step s s' \<longleftrightarrow> (\<forall>i. (rf_nodes s i \<noteq> None \<longleftrightarrow> rf_nodes s' i \<noteq> None)
     \<and> (\<forall>n n'. rf_nodes s i = Some n \<longrightarrow> rf_nodes s' i = Some n' \<longrightarrow>
          nd_id n' = nd_id n \<and> (nd_status n = NodeSucceeded \<longrightarrow> nd_status n' = NodeSucceeded)
          \<and> nd_attempts n \<le> nd_attempts n' \<and> (nd_attempts n = nd_attempts n' \<longrightarrow> nd_fence n' = nd_fence n)))"

definition lease_ok :: "run_fold \<Rightarrow> bool" where
  "lease_ok s \<longleftrightarrow>
     (case rf_active s of
        None \<Rightarrow> \<forall>i. status_of s i \<noteq> Some NodeClaimed \<and> status_of s i \<noteq> Some NodeRunning
      | Some a \<Rightarrow>
          (\<exists>n. rf_nodes s (al_node a) = Some n
             \<and> nd_status n = (if al_prepared a then NodeRunning else NodeClaimed)
             \<and> al_attempt a = nd_attempts n \<and> al_fence a = nd_fence n \<and> al_fence a = rf_fence s
             \<and> nd_lease_digest n = Some (al_lease_digest a)
             \<and> nd_spec_digest n = Some (al_spec_digest a))
          \<and> (\<forall>i. i \<noteq> al_node a \<longrightarrow>
               status_of s i \<noteq> Some NodeClaimed \<and> status_of s i \<noteq> Some NodeRunning)
          \<and> (al_dispatch a \<noteq> None \<longrightarrow> al_prepared a))"

definition attempts_total :: "dependencies \<Rightarrow> (string \<rightharpoonup> node) \<Rightarrow> int" where
  "attempts_total deps nodes =
     (\<Sum>i \<leftarrow> node_ids deps. case nodes i of None \<Rightarrow> 0 | Some n \<Rightarrow> nd_attempts n)"

definition counters_ok :: "int \<Rightarrow> node \<Rightarrow> bool" where
  "counters_ok f n \<longleftrightarrow> 0 \<le> nd_attempts n \<and> 0 \<le> nd_fence n \<and> nd_fence n \<le> f
     \<and> (nd_attempts n = 0 \<longrightarrow> nd_fence n = 0 \<and> nd_status n = NodePending)"

definition fence_ok :: "dependencies \<Rightarrow> run_fold \<Rightarrow> bool" where
  "fence_ok deps s \<longleftrightarrow> 0 \<le> rf_fence s \<and> rf_fence s = attempts_total deps (rf_nodes s)
     \<and> (\<forall>i n. rf_nodes s i = Some n \<longrightarrow> counters_ok (rf_fence s) n)"

definition order_ok :: "dependencies \<Rightarrow> run_fold \<Rightarrow> bool" where
  "order_ok deps s \<longleftrightarrow> (\<forall>i n. rf_nodes s i = Some n \<longrightarrow> 0 < nd_attempts n \<longrightarrow>
     (\<forall>d \<in> set (deps_of deps i). status_of s d = Some NodeSucceeded))"

definition end_ok :: "dependencies \<Rightarrow> run_fold \<Rightarrow> bool" where
  "end_ok deps s \<longleftrightarrow>
     (rf_terminal s \<longrightarrow> rf_active s = None
        \<and> (rf_status s = RunSucceeded \<or> rf_status s = RunFailed \<or> rf_status s = RunCanceled))
     \<and> (rf_status s = RunSucceeded \<longrightarrow> rf_terminal s \<and> \<not> rf_cancel s
        \<and> (\<forall>i \<in> set (node_ids deps). status_of s i = Some NodeSucceeded))
     \<and> (rf_status s = RunCanceled \<longrightarrow> rf_terminal s \<and> rf_cancel s)
     \<and> (rf_status s = RunFailed \<longrightarrow> (\<exists>i. status_of s i = Some NodeFailed))"

definition run_inv :: "dependencies \<Rightarrow> run_fold \<Rightarrow> bool" where
  "run_inv deps s \<longleftrightarrow> nodes_ok deps s \<and> lease_ok s \<and> fence_ok deps s \<and> order_ok deps s \<and> end_ok deps s"

lemma run_trans_nodes_ok: "run_trans deps s s' \<Longrightarrow> nodes_ok deps s \<Longrightarrow> nodes_ok deps s'"
  by (induction rule: run_trans.cases) (auto simp: nodes_ok_def same_claim_def)

lemma node_ids_distinct [simp]: "distinct (node_ids deps)"
  by (simp add: node_ids_def)

lemma sum_list_update:
  fixes h :: "'b \<Rightarrow> int"
  assumes "distinct ids" "k \<in> set ids"
  shows "(\<Sum>i \<leftarrow> ids. h ((f(k := v)) i)) = (\<Sum>i \<leftarrow> ids. h (f i)) - h (f k) + h v"
  using assms
proof (induction ids)
  case (Cons j ids)
  show ?case
  proof (cases "j = k")
    case True
    with Cons.prems(1) have "map (\<lambda>i. h ((f(k := v)) i)) ids = map (\<lambda>i. h (f i)) ids" by auto
    then have "(\<Sum>i \<leftarrow> ids. h ((f(k := v)) i)) = (\<Sum>i \<leftarrow> ids. h (f i))" by (rule arg_cong)
    with True show ?thesis by simp
  next
    case False
    with Cons show ?thesis by simp
  qed
qed simp

lemma run_trans_node_step:
  assumes "run_trans deps s s'" "nodes_ok deps s" "lease_ok s"
  shows "node_step s s'"
  using assms
  by (induction rule: run_trans.cases)
    (auto simp: node_step_def nodes_ok_def same_claim_def lease_ok_def split: if_splits)

lemma node_step_succeeded:
  assumes "node_step s s'" "status_of s d = Some NodeSucceeded"
  shows "status_of s' d = Some NodeSucceeded"
proof -
  obtain n where n: "rf_nodes s d = Some n" "nd_status n = NodeSucceeded"
    using assms(2) by (auto simp: status_of_def)
  with assms(1) obtain n' where n': "rf_nodes s' d = Some n'" unfolding node_step_def by blast
  with assms(1) n have "nd_status n' = NodeSucceeded" unfolding node_step_def by blast
  with n' show ?thesis by (simp add: status_of_def)
qed

lemma status_of_update:
  "status_of (s\<lparr>rf_status := x\<rparr>) i = status_of s i"
  "status_of (s\<lparr>rf_active := y\<rparr>) i = status_of s i"
  "status_of (s\<lparr>rf_fence := z\<rparr>) i = status_of s i"
  "status_of (s\<lparr>rf_cancel := b\<rparr>) i = status_of s i"
  "status_of (s\<lparr>rf_terminal := b\<rparr>) i = status_of s i"
  "status_of (s\<lparr>rf_reconciled := b\<rparr>) i = status_of s i"
  "status_of (set_node n s) i = (if i = nd_id n then Some (nd_status n) else status_of s i)"
  by (simp_all add: status_of_def)

lemma run_trans_lease_ok:
  assumes "run_trans deps s s'" "nodes_ok deps s" "lease_ok s"
  shows "lease_ok s'"
  using assms
proof (cases rule: run_trans.cases)
  case (release a n n' st)
  with assms(2,3) show ?thesis
    by (auto simp: lease_ok_def nodes_ok_def same_claim_def status_of_update)
next
  case (cleanup i n n')
  with assms(2,3) show ?thesis
    by (auto simp: lease_ok_def nodes_ok_def same_claim_def status_of_update)
next
  case cancel
  with assms(3) show ?thesis
    by (auto simp: lease_ok_def status_of_update split: option.splits)
qed (auto simp: lease_ok_def nodes_ok_def same_claim_def status_of_update)

lemma run_trans_order_ok:
  assumes "run_trans deps s s'" "nodes_ok deps s" "lease_ok s" "order_ok deps s"
  shows "order_ok deps s'"
proof -
  note keep = node_step_succeeded[OF run_trans_node_step[OF assms(1-3)]]
  have "\<forall>d \<in> set (deps_of deps i). status_of s d = Some NodeSucceeded"
    if n: "rf_nodes s' i = Some n" "0 < nd_attempts n" for i n
  proof -
    have old: ?thesis if "rf_nodes s i = Some m" "nd_attempts m = nd_attempts n" for m
      using that n(2) assms(4) by (auto simp: order_ok_def)
    show ?thesis
      using assms(1)
    proof (cases rule: run_trans.cases)
      case (claim j m m' a)
      show ?thesis
      proof (cases "i = j")
        case False
        then show ?thesis using n(1) claim old by simp
      qed (use claim in simp)
    next
      case (prepare a m m')
      then show ?thesis using n(1) assms(2) old
        by (cases "i = al_node a") (auto simp: same_claim_def nodes_ok_def)
    next
      case (release a m m' st)
      then show ?thesis using n(1) assms(2) old
        by (cases "i = al_node a") (auto simp: same_claim_def nodes_ok_def)
    next
      case (cleanup j m m')
      then show ?thesis using n(1) old by (cases "i = j") (auto simp: same_claim_def)
    qed (use n(1) old in auto)
  qed
  then show ?thesis using keep by (auto simp: order_ok_def)
qed

text \<open>A released or prepared node was claimed or running, so it is neither failed nor succeeded.\<close>

lemma active_node_status:
  assumes "lease_ok s" "rf_active s = Some a"
  shows "status_of s (al_node a) = Some (if al_prepared a then NodeRunning else NodeClaimed)"
  using assms by (auto simp: lease_ok_def status_of_def)

lemma end_ok_running:
  assumes "end_ok deps s" "\<not> rf_terminal s"
  shows "rf_status s \<noteq> RunSucceeded \<and> rf_status s \<noteq> RunCanceled"
  using assms by (auto simp: end_ok_def)

lemma run_trans_end_ok:
  assumes "run_trans deps s s'" "nodes_ok deps s" "lease_ok s" "end_ok deps s"
  shows "end_ok deps s'"
  using assms(1)
proof (cases rule: run_trans.cases)
  case (claim i n n' a)
  then show ?thesis using end_ok_running[OF assms(4)] by (simp add: end_ok_def)
next
  case (prepare a n n')
  have "nd_id n' = al_node a" using prepare assms(2) by (auto simp: same_claim_def nodes_ok_def)
  then have "status_of s' i = Some NodeFailed" if "status_of s i = Some NodeFailed" for i
    using that prepare active_node_status[OF assms(3)] by (auto simp: status_of_update)
  then show ?thesis
    using prepare end_ok_running[OF assms(4)] assms(4) by (auto simp: end_ok_def)
next
  case (release a n n' st)
  then show ?thesis
    by (auto simp: end_ok_def status_of_update)
next
  case (cleanup i n n')
  then have "status_of s' j = status_of s j" for j
    by (auto simp: status_of_update same_claim_def) (auto simp: status_of_def)
  then show ?thesis using cleanup assms(4) by (auto simp: end_ok_def)
qed (use assms(4) in \<open>auto simp: end_ok_def status_of_update\<close>)

lemma attempts_total_update:
  assumes "nodes_ok deps s" "rf_nodes s i = Some n"
  shows "attempts_total deps ((rf_nodes s)(i \<mapsto> m))
    = attempts_total deps (rf_nodes s) - nd_attempts n + nd_attempts m"
proof -
  have "i \<in> set (node_ids deps)" using assms unfolding nodes_ok_def by blast
  from sum_list_update[OF node_ids_distinct this,
      of "\<lambda>x. case x of None \<Rightarrow> 0 | Some n \<Rightarrow> nd_attempts n" "rf_nodes s" "Some m"] assms(2)
  show ?thesis unfolding attempts_total_def by simp
qed

lemma fence_ok_same_claim:
  assumes ok: "nodes_ok deps s" "fence_ok deps s" and n: "rf_nodes s i = Some n" "same_claim n n'"
    and claimed: "nd_status n \<noteq> NodePending"
    and s': "rf_nodes s' = (rf_nodes s)(i \<mapsto> n')" "rf_fence s' = rf_fence s"
  shows "fence_ok deps s'"
proof -
  have "attempts_total deps (rf_nodes s') = attempts_total deps (rf_nodes s)"
    unfolding s' attempts_total_update[OF ok(1) n(1)] using n(2) by (simp add: same_claim_def)
  moreover have "counters_ok (rf_fence s) n'"
    using ok(2) n claimed by (auto simp: fence_ok_def counters_ok_def same_claim_def)
  ultimately show ?thesis using ok(2) s' by (auto simp: fence_ok_def)
qed

lemma run_trans_fence_ok:
  assumes "run_trans deps s s'" "nodes_ok deps s" "lease_ok s" "fence_ok deps s"
  shows "fence_ok deps s'"
  using assms(1)
proof (cases rule: run_trans.cases)
  case (claim i n n' a)
  let ?nodes = "(rf_nodes s)(i \<mapsto> n')"
  have "attempts_total deps ?nodes = rf_fence s + 1"
    using attempts_total_update[OF assms(2) claim(6), of n'] claim(12) assms(4)
    by (simp add: fence_ok_def)
  moreover have "counters_ok (rf_fence s + 1) m" if "?nodes j = Some m" for j m
    using that claim assms(4)
    by (cases "j = i") (fastforce simp: fence_ok_def counters_ok_def)+
  ultimately show ?thesis using claim assms(4) by (simp add: fence_ok_def)
next
  case (prepare a n n')
  then have "nd_id n' = al_node a" using assms(2) by (auto simp: same_claim_def nodes_ok_def)
  with prepare active_node_status[OF assms(3)] show ?thesis
    by (intro fence_ok_same_claim[OF assms(2,4) prepare(5,6)]) (auto simp: status_of_def)
next
  case (release a n n' st)
  then have "nd_id n' = al_node a" using assms(2) by (auto simp: same_claim_def nodes_ok_def)
  with release active_node_status[OF assms(3)] show ?thesis
    by (intro fence_ok_same_claim[OF assms(2,4) release(4,5)])
      (auto simp: status_of_def split: if_splits)
next
  case (cleanup i n n')
  then show ?thesis
    by (intro fence_ok_same_claim[OF assms(2,4) cleanup(3) cleanup(6)]) (auto simp: same_claim_def)
qed (use assms(4) in \<open>auto simp: fence_ok_def\<close>)

lemma run_inv_init: "run_inv deps (init_fold deps)"
proof -
  have "attempts_total deps (rf_nodes (init_fold deps)) = 0"
  proof -
    have "map (\<lambda>i. case rf_nodes (init_fold deps) i of None \<Rightarrow> 0 | Some n \<Rightarrow> nd_attempts n)
        (node_ids deps) = map (\<lambda>_. 0) (node_ids deps)"
      by (intro map_cong) (auto simp: init_fold_def fresh_node_def)
    then show ?thesis unfolding attempts_total_def by (simp only: sum_list_0)
  qed
  then show ?thesis
    using nodes_ok_init[of deps]
    by (auto simp: run_inv_def lease_ok_def fence_ok_def counters_ok_def order_ok_def
        end_ok_def status_of_def init_fold_def fresh_node_def split: if_splits)
qed

theorem run_inv_step: "run_trans deps s s' \<Longrightarrow> run_inv deps s \<Longrightarrow> run_inv deps s'"
  by (auto simp: run_inv_def intro: run_trans_nodes_ok run_trans_lease_ok run_trans_fence_ok
      run_trans_order_ok run_trans_end_ok)

lemma run_reachable_inv: "run_reachable deps s \<Longrightarrow> run_inv deps s"
  by (induction rule: run_reachable.induct) (auto intro: run_inv_init run_inv_step)

lemma run_steps_reachable:
  assumes "ofold (run_step fromiso deps run_id) s es = Some t" "run_reachable deps s"
  shows "run_reachable deps t"
proof (rule ofold_invariant[where P = "run_reachable deps", OF assms])
  fix a x b
  assume "run_reachable deps a" "run_step fromiso deps run_id a x = Some b"
  then show "run_reachable deps b"
    using run_step_trans run_reachable_inv run_reachable.step by (blast dest: run_inv_def[THEN iffD1])
qed

lemma fold_run_lifecycle_Some:
  assumes "fold_run_lifecycle fromiso run_id deps events = Some r"
  obtains s where "run_stream_ok run_id deps events"
    "ofold (run_step fromiso deps run_id) (init_fold deps) (tl (filter public_event events)) = Some s"
    "run_settled deps s" "r = run_state run_id deps events s" "run_reachable deps s" "run_inv deps s"
proof -
  from assms obtain s where s: "run_stream_ok run_id deps events"
    "ofold (run_step fromiso deps run_id) (init_fold deps) (tl (filter public_event events)) = Some s"
    "run_settled deps s" "r = run_state run_id deps events s"
    by (auto simp: fold_run_lifecycle_def bind_eq_Some_conv split: if_splits)
  moreover have "run_reachable deps s" using run_steps_reachable[OF s(2) run_reachable.start] .
  ultimately show thesis using that run_reachable_inv by blast
qed

text \<open>The nodes of the result are those of the fold.\<close>

lemma nodes_okE:
  assumes "nodes_ok deps s" "i \<in> set (node_ids deps)"
  obtains n where "rf_nodes s i = Some n" "nd_id n = i"
  using assms unfolding nodes_ok_def by (metis not_Some_eq)

lemma nodes_ok_at:
  assumes "nodes_ok deps s" "rf_nodes s i = Some n"
  shows "i \<in> set (node_ids deps) \<and> nd_id n = i"
  using assms unfolding nodes_ok_def by (metis option.distinct(1))

lemma rl_nodes_map:
  assumes "nodes_ok deps s"
  shows "List.map_filter (rf_nodes s) (node_ids deps) = map (\<lambda>i. the (rf_nodes s i)) (node_ids deps)"
proof -
  have "List.map_filter (rf_nodes s) ids = map (\<lambda>i. the (rf_nodes s i)) ids"
    if "\<forall>i \<in> set ids. rf_nodes s i \<noteq> None" for ids
    using that by (induction ids) (auto simp: List.map_filter_simps)
  moreover have "\<forall>i \<in> set (node_ids deps). rf_nodes s i \<noteq> None"
    using assms by (auto simp: nodes_ok_def)
  ultimately show ?thesis by blast
qed

lemma rl_nodes_total:
  assumes "nodes_ok deps s"
  shows "sum_list (map nd_attempts (rl_nodes (run_state run_id deps events s)))
    = attempts_total deps (rf_nodes s)"
proof -
  have "map (\<lambda>i. nd_attempts (the (rf_nodes s i))) (node_ids deps)
      = map (\<lambda>i. case rf_nodes s i of None \<Rightarrow> 0 | Some n \<Rightarrow> nd_attempts n) (node_ids deps)"
    by (intro map_cong refl) (auto elim: nodes_okE[OF assms])
  then have "(\<Sum>i \<leftarrow> node_ids deps. nd_attempts (the (rf_nodes s i)))
      = (\<Sum>i \<leftarrow> node_ids deps. case rf_nodes s i of None \<Rightarrow> 0 | Some n \<Rightarrow> nd_attempts n)"
    by (rule arg_cong)
  then show ?thesis
    by (simp add: run_state_def rl_nodes_map[OF assms] attempts_total_def comp_def)
qed

lemma rl_node_iff:
  assumes "nodes_ok deps s"
  shows "n \<in> set (rl_nodes (run_state run_id deps events s)) \<longleftrightarrow> rf_nodes s (nd_id n) = Some n"
proof -
  have "n \<in> set (rl_nodes (run_state run_id deps events s))
      \<longleftrightarrow> (\<exists>i \<in> set (node_ids deps). n = the (rf_nodes s i))"
    by (auto simp: run_state_def rl_nodes_map[OF assms])
  also have "\<dots> \<longleftrightarrow> rf_nodes s (nd_id n) = Some n"
  proof
    assume "\<exists>i \<in> set (node_ids deps). n = the (rf_nodes s i)"
    then obtain i where "i \<in> set (node_ids deps)" "n = the (rf_nodes s i)" by blast
    then show "rf_nodes s (nd_id n) = Some n" by (auto elim: nodes_okE[OF assms])
  next
    assume "rf_nodes s (nd_id n) = Some n"
    then show "\<exists>i \<in> set (node_ids deps). n = the (rf_nodes s i)"
      using nodes_ok_at[OF assms] by (metis option.sel)
  qed
  finally show ?thesis .
qed

section \<open>Consequences for every later event\<close>

lemma trans_after_cancel:
  assumes "run_trans deps s s'" "nodes_ok deps s" "rf_cancel s"
  shows "rf_cancel s' \<and> rf_fence s' = rf_fence s
    \<and> (\<forall>i. status_of s' i = Some NodeSucceeded \<longrightarrow> status_of s i = Some NodeSucceeded)"
  using assms(1)
proof (cases rule: run_trans.cases)
  case (prepare a n n')
  then show ?thesis using assms(2,3) by (auto simp: status_of_update)
next
  case (release a n n' st)
  then show ?thesis using assms(2,3) by (auto simp: status_of_update)
next
  case (cleanup i n n')
  then show ?thesis using assms(3) by (auto simp: status_of_update same_claim_def) (auto simp: status_of_def)
qed (use assms(3) in \<open>auto simp: status_of_update\<close>)

lemma trans_after_end:
  assumes "run_trans deps s s'" "rf_terminal s"
  shows "rf_terminal s' \<and> rf_status s' = rf_status s \<and> rf_fence s' = rf_fence s
    \<and> rf_active s' = rf_active s \<and> (\<forall>i. status_of s' i = status_of s i)"
  using assms(1)
proof (cases rule: run_trans.cases)
  case (cleanup i n n')
  then show ?thesis using assms(2)
    by (auto simp: status_of_update same_claim_def) (auto simp: status_of_def)
qed (use assms(2) in auto)

text \<open>A dispatched lease is released by an outcome, never by returning the node to the queue.\<close>

lemma trans_after_dispatch:
  assumes "run_trans deps s s'" "nodes_ok deps s" "lease_ok s"
    and "rf_active s = Some a" "al_dispatch a = Some d"
  shows "(\<exists>a'. rf_active s' = Some a' \<and> al_fence a' = al_fence a \<and> al_node a' = al_node a
      \<and> al_dispatch a' = Some d)
    \<or> rf_active s' = None \<and> (\<exists>x. status_of s' (al_node a) = Some x
      \<and> (x = NodeSucceeded \<or> x = NodeFailed \<or> x = NodeCanceled \<or> x = NodeReconciliationRequired))"
  using assms(1)
proof (cases rule: run_trans.cases)
  case (release b n n' st)
  then have "nd_id n' = al_node a" using assms(2,4) by (auto simp: same_claim_def nodes_ok_def)
  then show ?thesis using release assms(4,5) by (auto simp: status_of_update)
qed (use assms(3-5) in \<open>auto simp: lease_ok_def\<close>)

lemma run_steps_preserve:
  assumes "ofold (run_step fromiso deps run_id) s es = Some t" "run_reachable deps s" "P s"
    and "\<And>u v. run_reachable deps u \<Longrightarrow> run_inv deps u \<Longrightarrow> run_trans deps u v \<Longrightarrow> P u \<Longrightarrow> P v"
  shows "P t"
proof -
  have "run_reachable deps t \<and> P t"
  proof (rule ofold_invariant[where P = "\<lambda>s. run_reachable deps s \<and> P s", OF assms(1)])
    fix a x b
    assume a: "run_reachable deps a \<and> P a" and x: "run_step fromiso deps run_id a x = Some b"
    then have inv: "run_inv deps a" using run_reachable_inv by blast
    then have "run_trans deps a b" using run_step_trans x by (auto simp: run_inv_def)
    with a inv assms(4) show "run_reachable deps b \<and> P b" using run_reachable.step by blast
  qed (use assms in simp)
  then show ?thesis by blast
qed

lemma run_steps_after_end:
  assumes "ofold (run_step fromiso deps run_id) s es = Some t" "run_reachable deps s" "rf_terminal s"
  shows "list_all cleanup_event es"
  using assms
proof (induction es arbitrary: s)
  case (Cons e es)
  then obtain u where u: "run_step fromiso deps run_id s e = Some u"
    "ofold (run_step fromiso deps run_id) u es = Some t" by (auto simp: bind_eq_Some_conv)
  have tr: "run_trans deps s u"
    using run_step_trans u(1) run_reachable_inv[OF Cons.prems(2)] by (auto simp: run_inv_def)
  have "cleanup_event e" using u(1) Cons.prems(3) by (auto simp: run_step_def split: if_splits)
  moreover have "list_all cleanup_event es"
    using Cons.IH[OF u(2) run_reachable.step[OF Cons.prems(2) tr]] trans_after_end[OF tr Cons.prems(3)]
    by blast
  ultimately show ?case by simp
qed simp

lemma lease_ok_node:
  assumes "lease_ok s" "rf_nodes s (nd_id n) = Some n"
  shows "nd_status n = NodeClaimed \<or> nd_status n = NodeRunning \<longleftrightarrow>
      (\<exists>a. rf_active s = Some a \<and> al_node a = nd_id n)"
    and "rf_active s = Some a \<Longrightarrow> al_node a = nd_id n \<Longrightarrow>
      al_attempt a = nd_attempts n \<and> al_fence a = nd_fence n \<and> al_fence a = rf_fence s
      \<and> nd_lease_digest n = Some (al_lease_digest a) \<and> nd_spec_digest n = Some (al_spec_digest a)
      \<and> (al_dispatch a \<noteq> None \<longrightarrow> nd_status n = NodeRunning)"
proof -
  have st: "status_of s (nd_id n) = Some (nd_status n)" using assms(2) by (simp add: status_of_def)
  show "nd_status n = NodeClaimed \<or> nd_status n = NodeRunning \<longleftrightarrow>
      (\<exists>a. rf_active s = Some a \<and> al_node a = nd_id n)"
  proof (cases "rf_active s")
    case None
    then have "status_of s (nd_id n) \<noteq> Some NodeClaimed \<and> status_of s (nd_id n) \<noteq> Some NodeRunning"
      using assms(1) by (simp add: lease_ok_def)
    with None st show ?thesis by simp
  next
    case (Some a)
    show ?thesis
    proof (cases "al_node a = nd_id n")
      case True
      with active_node_status[OF assms(1) Some] st Some show ?thesis by auto
    next
      case False
      then have "status_of s (nd_id n) \<noteq> Some NodeClaimed \<and> status_of s (nd_id n) \<noteq> Some NodeRunning"
        using assms(1) Some by (simp add: lease_ok_def)
      with False st Some show ?thesis by simp
    qed
  qed
  show "rf_active s = Some a \<Longrightarrow> al_node a = nd_id n \<Longrightarrow>
      al_attempt a = nd_attempts n \<and> al_fence a = nd_fence n \<and> al_fence a = rf_fence s
      \<and> nd_lease_digest n = Some (al_lease_digest a) \<and> nd_spec_digest n = Some (al_spec_digest a)
      \<and> (al_dispatch a \<noteq> None \<longrightarrow> nd_status n = NodeRunning)"
    using assms by (auto simp: lease_ok_def)
qed

end
