(* ===== verification/RunSample.thy ===== *)
theory RunSample
  imports RunFacts
begin

text \<open>
  One complete run history with a single node, used as the concrete input of the witnesses:
  queued, claimed, worktree prepared, succeeded, run succeeded.
\<close>

definition run_event ::
    "string \<Rightarrow> string option \<Rightarrow> int \<Rightarrow> string \<Rightarrow> string \<Rightarrow> jobject \<Rightarrow> event" where
  "run_event i cause n ty who p = \<lparr>event_id = i, stream_id = ''run:r'', stream_sequence = n,
     event_type = ty, schema_version = 1, recorded_at = utc n, effective_at = utc n,
     correlation_id = ''c'', causation_id = cause, actor = who, source = RUNTIME_EVENT_SOURCE,
     payload = p, payload_hash = json_digest (JObj p), idempotency_key = None,
     global_position = None\<rparr>"

lemma run_event_fields [simp]:
  "event_id (run_event i cause n ty who p) = i" "stream_id (run_event i cause n ty who p) = ''run:r''"
  "stream_sequence (run_event i cause n ty who p) = n" "event_type (run_event i cause n ty who p) = ty"
  "schema_version (run_event i cause n ty who p) = 1" "recorded_at (run_event i cause n ty who p) = utc n"
  "correlation_id (run_event i cause n ty who p) = ''c''"
  "causation_id (run_event i cause n ty who p) = cause" "actor (run_event i cause n ty who p) = who"
  "source (run_event i cause n ty who p) = RUNTIME_EVENT_SOURCE"
  "payload (run_event i cause n ty who p) = p"
  by (simp_all add: run_event_def)

definition sample_deps :: dependencies where
  "sample_deps = [(''a'', [])]"

definition sample_parse :: "string \<Rightarrow> datetime option" where
  "sample_parse s = Some (utc 100)"

definition sample_lease :: jobject where
  "sample_lease = [(''run_id'', JStr ''r''), (''node_id'', JStr ''a''), (''attempt'', JInt 1),
     (''fencing_token'', JInt 1), (''worker_id'', JStr ''w'')]"

definition sample_lease_digest :: string where
  "sample_lease_digest = json_digest (JObj sample_lease)"

definition sample_commit :: string where
  "sample_commit = replicate 40 (CHR ''a'')"

definition sample_spec :: jobject where
  "sample_spec = [(''schema_version'', JStr ''v1''), (''lease_digest'', JStr sample_lease_digest),
     (''lease'', JObj sample_lease), (''repository_root'', JStr ''/r''), (''isolation_root'', JStr ''/i''),
     (''base_commit'', JStr sample_commit), (''allowed_paths'', JArr []), (''max_changed_paths'', JInt 1)]"

definition sample_spec_digest :: string where
  "sample_spec_digest = worktree_spec_digest sample_spec sample_lease_digest"

definition sample_inspection :: jobject where
  "sample_inspection = [(''spec_digest'', JStr sample_spec_digest),
     (''lease_digest'', JStr sample_lease_digest), (''head_commit'', JStr sample_commit),
     (''base_commit'', JStr sample_commit), (''changed_paths'', JArr []),
     (''uncommitted_paths'', JArr []), (''out_of_scope_paths'', JArr []),
     (''changed_path_limit_exceeded'', JBool False)]"

definition sample_inspection_digest :: string where
  "sample_inspection_digest = json_digest (JObj sample_inspection)"

definition sample_queued :: event where
  "sample_queued = run_event ''1'' None 1 ''run.queued'' ''o''
     [(''request'', JObj [(''run_id'', JStr ''r'')]),
      (''request_digest'', JStr (json_digest (JObj [(''run_id'', JStr ''r'')]))),
      (''principal_id'', JStr ''o''), (''references'', JArr []), (''status'', JStr ''queued'')]"

definition sample_claimed :: event where
  "sample_claimed = run_event ''2'' (Some ''1'') 2 ''node.claimed'' ''w''
     [(''principal_id'', JStr ''w''), (''run_id'', JStr ''r''), (''node_id'', JStr ''a''),
      (''attempt'', JInt 1), (''fencing_token'', JInt 1), (''worker_id'', JStr ''w''),
      (''lease_digest'', JStr sample_lease_digest), (''expires_at'', JStr ''t''),
      (''worktree_spec_digest'', JStr sample_spec_digest), (''worktree_spec'', JObj sample_spec),
      (''status'', JStr ''claimed'')]"

definition sample_prepared :: event where
  "sample_prepared = run_event ''3'' (Some ''2'') 3 ''node.worktree-prepared'' ''w''
     [(''principal_id'', JStr ''w''), (''run_id'', JStr ''r''), (''node_id'', JStr ''a''),
      (''lease_digest'', JStr sample_lease_digest),
      (''inspection_digest'', JStr sample_inspection_digest),
      (''inspection'', JObj sample_inspection), (''status'', JStr ''worktree-prepared'')]"

definition sample_succeeded :: event where
  "sample_succeeded = run_event ''4'' (Some ''3'') 4 ''node.succeeded'' ''w''
     [(''principal_id'', JStr ''w''), (''run_id'', JStr ''r''), (''node_id'', JStr ''a''),
      (''lease_digest'', JStr sample_lease_digest),
      (''result_digest'', JStr sample_lease_digest), (''head_commit'', JStr sample_commit),
      (''inspection_digest'', JStr sample_inspection_digest),
      (''inspection'', JObj sample_inspection), (''retained_worktree'', JBool True),
      (''status'', JStr ''succeeded'')]"

definition sample_finished :: event where
  "sample_finished = run_event ''5'' (Some ''4'') 5 ''run.succeeded'' ''o''
     [(''principal_id'', JStr ''o''), (''run_id'', JStr ''r''), (''status'', JStr ''succeeded''),
      (''retained_worktree'', JBool True)]"

definition sample_history :: "event list" where
  "sample_history = [sample_queued, sample_claimed, sample_prepared, sample_succeeded, sample_finished]"

section \<open>The states it goes through\<close>

definition sample_node :: node where
  "sample_node = (fresh_node ''a'')\<lparr>nd_status := NodeClaimed, nd_attempts := 1, nd_fence := 1,
     nd_lease_digest := Some sample_lease_digest, nd_spec_digest := Some sample_spec_digest,
     nd_spec := Some sample_spec\<rparr>"

definition sample_active :: active_lease where
  "sample_active = \<lparr>al_node = ''a'', al_attempt = 1, al_fence = 1, al_worker = ''w'',
     al_lease_digest = sample_lease_digest, al_spec_digest = sample_spec_digest,
     al_spec = sample_spec, al_expires = utc 100, al_prepared = False, al_request = None,
     al_context = None, al_dispatch = None\<rparr>"

definition sample_state :: "run_status \<Rightarrow> node \<Rightarrow> active_lease option \<Rightarrow> bool \<Rightarrow> int \<Rightarrow> run_fold" where
  "sample_state st n a fin f = \<lparr>rf_status = st, rf_nodes = [''a'' \<mapsto> n], rf_cancel = False,
     rf_active = a, rf_terminal = fin, rf_reconciled = False, rf_fence = f\<rparr>"

definition sample_done :: node where
  "sample_done = sample_node\<lparr>nd_status := NodeSucceeded, nd_result := Some sample_lease_digest,
     nd_head := Some sample_commit, nd_retained := True, nd_cleanup := Some CleanupEligible\<rparr>"

lemma sample_node_ids: "node_ids sample_deps = [''a'']"
  by (simp add: node_ids_def sample_deps_def sorted_set_def)

lemma sample_init: "init_fold sample_deps = sample_state RunQueued (fresh_node ''a'') None False 0"
  by (auto simp: init_fold_def sample_node_ids sample_state_def)

lemma sample_commit_field: "commit_field (JStr sample_commit) = Some sample_commit"
proof -
  have "list_all is_hex sample_commit" "sample_commit \<noteq> []" "length sample_commit = 40"
    "list_all (\<lambda>c. \<not> is_upper c) sample_commit"
    by (simp_all add: sample_commit_def list_all_iff is_hex_def is_lower_hex_def is_upper_def code_def)
  moreover from this have "py_int16_ok sample_commit" by (intro py_int16_ok_hex)
  moreover have "text_field (JStr sample_commit) = Some sample_commit"
    by (simp add: text_field_Some sample_commit_def)
  ultimately show ?thesis by (simp add: commit_field_def)
qed

lemma sample_digest_fields:
  "digest_field (JStr sample_lease_digest) = Some sample_lease_digest"
  "digest_field (JStr sample_spec_digest) = Some sample_spec_digest"
  by (simp_all add: sample_lease_digest_def sample_spec_digest_def worktree_spec_digest_def)

lemma sample_step_claimed:
  "run_step sample_parse sample_deps ''r'' (init_fold sample_deps) sample_claimed
   = Some (sample_state RunRunning sample_node (Some sample_active) False 1)"
proof -
  have "json_digest (JObj sample_lease) = sample_lease_digest"
    "worktree_spec_digest sample_spec sample_lease_digest = sample_spec_digest"
    "as_obj (JObj sample_lease) = Some sample_lease" "as_obj (JObj sample_spec) = Some sample_spec"
    by (simp_all add: sample_lease_digest_def sample_spec_digest_def as_obj_def)
  moreover have "jget sample_lease ''run_id'' = JStr ''r''" "jget sample_lease ''node_id'' = JStr ''a''"
    "jget sample_lease ''attempt'' = JInt 1" "jget sample_lease ''fencing_token'' = JInt 1"
    "jget sample_lease ''worker_id'' = JStr ''w''"
    "jget sample_spec ''lease_digest'' = JStr sample_lease_digest"
    "jget sample_spec ''lease'' = JObj sample_lease"
    "keys_are sample_spec [''schema_version'', ''lease_digest'', ''lease'', ''repository_root'',
       ''isolation_root'', ''base_commit'', ''allowed_paths'', ''max_changed_paths'']"
    by (simp_all add: sample_lease_def sample_spec_def jget_def keys_are_def)
  moreover have "timestamp_field sample_parse (JStr ''t'') = Some (utc 100)"
    by (simp add: timestamp_field_def text_field_def sample_parse_def aware_def utc_def)
  ultimately show ?thesis
    unfolding sample_init sample_claimed_def
    by (simp add: run_step_def dispatch_event_def cleanup_event_def principal_ok_def run_ok_def
        on_node_claimed_def keys_are_def sample_state_def the_node_def as_str_def
        jget_def[of "(_, _) # _"] fresh_node_def deps_of_def sample_deps_def positive_integer_def
        text_field_def sample_digest_fields utc_def sample_node_def sample_active_def set_node_def
        insert_commute)
qed

lemma sample_inspection_of:
  assumes "al_spec_digest a = sample_spec_digest" "al_lease_digest a = sample_lease_digest"
    and "jget p ''inspection'' = JObj sample_inspection"
    and "jget p ''inspection_digest'' = JStr sample_inspection_digest"
  shows "inspection_of p a u = Some sample_inspection"
proof -
  have "jget sample_inspection ''spec_digest'' = JStr sample_spec_digest"
    "jget sample_inspection ''lease_digest'' = JStr sample_lease_digest"
    "jget sample_inspection ''head_commit'' = JStr sample_commit"
    "jget sample_inspection ''base_commit'' = JStr sample_commit"
    "jget sample_inspection ''changed_paths'' = JArr []"
    "jget sample_inspection ''uncommitted_paths'' = JArr []"
    "jget sample_inspection ''out_of_scope_paths'' = JArr []"
    "jget sample_inspection ''changed_path_limit_exceeded'' = JBool False"
    by (simp_all add: sample_inspection_def jget_def)
  then show ?thesis using assms
    by (simp add: inspection_of_def as_obj_def sample_inspection_digest_def)
qed

lemma sample_step_prepared:
  "run_step sample_parse sample_deps ''r''
     (sample_state RunRunning sample_node (Some sample_active) False 1) sample_prepared
   = Some (sample_state RunRunning (sample_node\<lparr>nd_status := NodeRunning\<rparr>)
       (Some (sample_active\<lparr>al_prepared := True\<rparr>)) False 1)"
proof -
  have i: "inspection_of (payload sample_prepared) sample_active True = Some sample_inspection"
    by (rule sample_inspection_of) (simp_all add: sample_active_def sample_prepared_def jget_def)
  show ?thesis
    using i unfolding sample_prepared_def
    by (simp add: run_step_def dispatch_event_def cleanup_event_def principal_ok_def run_ok_def
        on_worktree_prepared_def keys_are_def sample_state_def the_node_def as_str_def active_of_def
        jget_def[of "(_, _) # _"] sample_node_def fresh_node_def utc_def sample_active_def
        set_node_def insert_commute)
qed

lemma sample_step_succeeded:
  "run_step sample_parse sample_deps ''r'' (sample_state RunRunning
       (sample_node\<lparr>nd_status := NodeRunning\<rparr>) (Some (sample_active\<lparr>al_prepared := True\<rparr>)) False 1)
     sample_succeeded
   = Some (sample_state RunQueued sample_done None False 1)"
proof -
  have i: "inspection_of (payload sample_succeeded) (sample_active\<lparr>al_prepared := True\<rparr>) False
      = Some sample_inspection"
    by (rule sample_inspection_of) (simp_all add: sample_active_def sample_succeeded_def jget_def)
  have f: "jget sample_inspection ''head_commit'' = JStr sample_commit"
    "jget sample_inspection ''uncommitted_paths'' = JArr []"
    "jget sample_inspection ''out_of_scope_paths'' = JArr []"
    "jget sample_inspection ''changed_path_limit_exceeded'' = JBool False"
    by (simp_all add: sample_inspection_def jget_def)
  show ?thesis
    using i unfolding sample_succeeded_def
    by (simp add: run_step_def dispatch_event_def cleanup_event_def principal_ok_def run_ok_def
        on_node_succeeded_def keys_are_def sample_state_def the_node_def as_str_def active_of_def
        jget_def[of "(_, _) # _"] sample_node_def fresh_node_def utc_def sample_active_def f
        sample_commit_field sample_digest_fields set_node_def sample_done_def insert_commute)
qed

lemma sample_step_finished:
  "run_step sample_parse sample_deps ''r'' (sample_state RunQueued sample_done None False 1)
     sample_finished = Some (sample_state RunSucceeded sample_done None True 1)"
  unfolding sample_finished_def
  by (simp add: run_step_def dispatch_event_def cleanup_event_def principal_ok_def run_ok_def
      on_run_end_def keys_are_def sample_state_def as_bool_def any_node_def sample_node_ids
      jget_def[of "(_, _) # _"] sample_node_def fresh_node_def sample_done_def insert_commute)

lemma sample_stream_ok: "run_stream_ok ''r'' sample_deps sample_history"
proof -
  have "map public_event sample_history = [True, True, True, True, True]"
    by (simp add: sample_history_def sample_queued_def sample_claimed_def sample_prepared_def
        sample_succeeded_def sample_finished_def public_event_def RUN_EVENT_TYPES_def)
  then have public: "filter public_event sample_history = sample_history"
    and known: "\<forall>e \<in> set sample_history. known_event e"
    by (simp_all add: sample_history_def known_event_def)
  have "queued_ok sample_queued ''r''"
    by (simp add: queued_ok_def sample_queued_def keys_are_def principal_ok_def jget_def Let_def
        insert_commute)
  moreover have "sequenced (''run:'' @ ''r'') 1 sample_history" "chained sample_history"
    using known by (simp_all add: sample_history_def) (simp_all add: sample_queued_def
        sample_claimed_def sample_prepared_def sample_succeeded_def sample_finished_def)
  ultimately show ?thesis unfolding run_stream_ok_def public
    by (simp add: sample_deps_def valid_dependencies_def sample_history_def)
      (simp add: sample_queued_def sample_claimed_def sample_prepared_def sample_succeeded_def
        sample_finished_def)
qed

lemma sample_public: "filter public_event sample_history = sample_history"
  by (simp add: sample_history_def sample_queued_def sample_claimed_def sample_prepared_def
      sample_succeeded_def sample_finished_def public_event_def RUN_EVENT_TYPES_def)

lemma sample_fold:
  "fold_run_lifecycle sample_parse ''r'' sample_deps sample_history
   = Some (run_state ''r'' sample_deps sample_history
       (sample_state RunSucceeded sample_done None True 1))"
proof -
  have "ofold (run_step sample_parse sample_deps ''r'') (init_fold sample_deps)
      (tl (filter public_event sample_history))
    = Some (sample_state RunSucceeded sample_done None True 1)"
    unfolding sample_public
    unfolding sample_history_def
    by (simp add: sample_step_claimed sample_step_prepared sample_step_succeeded sample_step_finished)
  moreover have "run_settled sample_deps (sample_state RunSucceeded sample_done None True 1)"
    by (simp add: run_settled_def sample_state_def)
  ultimately show ?thesis by (simp add: fold_run_lifecycle_def sample_stream_ok)
qed

section \<open>Variations\<close>

text \<open>Cancellation while the node is claimed.\<close>

definition sample_canceling :: run_fold where
  "sample_canceling = (sample_state RunRunning sample_node (Some sample_active) False 1)
     \<lparr>rf_cancel := True, rf_status := RunCanceling\<rparr>"

definition sample_node_canceled :: event where
  "sample_node_canceled = run_event ''4'' (Some ''3'') 4 ''node.canceled'' ''w''
     [(''principal_id'', JStr ''w''), (''run_id'', JStr ''r''), (''node_id'', JStr ''a''),
      (''lease_digest'', JStr sample_lease_digest), (''result_digest'', JNull),
      (''inspection_digest'', JNull), (''inspection'', JNull),
      (''retained_worktree'', JBool False), (''status'', JStr ''canceled'')]"

lemma sample_claimed_reachable:
  "run_reachable sample_deps (sample_state RunRunning sample_node (Some sample_active) False 1)"
  using run_steps_reachable[of sample_parse sample_deps "''r''" "init_fold sample_deps" "[sample_claimed]"]
    sample_step_claimed run_reachable.start by auto

lemma sample_canceling_reachable: "run_reachable sample_deps sample_canceling"
  unfolding sample_canceling_def
  by (rule run_reachable.step[OF sample_claimed_reachable run_trans.cancel])
    (simp_all add: sample_state_def)

lemma sample_step_node_canceled:
  "\<exists>t. run_step sample_parse sample_deps ''r'' sample_canceling sample_node_canceled = Some t"
  unfolding sample_node_canceled_def sample_canceling_def
  by (simp add: run_step_def dispatch_event_def cleanup_event_def principal_ok_def run_ok_def
      on_node_canceled_def keys_are_def sample_state_def the_node_def as_str_def active_of_def
      jget_def[of "(_, _) # _"] sample_node_def fresh_node_def sample_active_def
      retained_flag_def optional_digest_def insert_commute)

text \<open>Cleanup after the end.\<close>

definition sample_ended :: run_fold where
  "sample_ended = sample_state RunSucceeded sample_done None True 1"

definition sample_cleanup :: event where
  "sample_cleanup = run_event ''6'' (Some ''5'') 6 ''node.worktree-cleanup-requested'' ''o''
     [(''principal_id'', JStr ''o''), (''run_id'', JStr ''r''), (''node_id'', JStr ''a''),
      (''lease_digest'', JStr sample_lease_digest), (''worktree_spec_digest'', JStr sample_spec_digest),
      (''head_commit'', JStr sample_commit), (''retained_worktree'', JBool True),
      (''status'', JStr ''worktree-cleanup-requested'')]"

lemma sample_ended_reachable: "run_reachable sample_deps sample_ended"
  using run_steps_reachable[of sample_parse sample_deps "''r''" "init_fold sample_deps"
      "[sample_claimed, sample_prepared, sample_succeeded, sample_finished]" sample_ended]
    run_reachable.start
  by (simp add: sample_step_claimed sample_step_prepared sample_step_succeeded sample_step_finished
      sample_ended_def)

lemma sample_step_cleanup:
  "\<exists>t. run_step sample_parse sample_deps ''r'' sample_ended sample_cleanup = Some t"
  unfolding sample_cleanup_def sample_ended_def
  by (simp add: run_step_def dispatch_event_def cleanup_event_def principal_ok_def run_ok_def
      on_cleanup_requested_def cleanup_node_def keys_are_def sample_state_def the_node_def as_str_def
      jget_def[of "(_, _) # _"] sample_node_def fresh_node_def sample_done_def opt_str_def
      insert_commute)

text \<open>A provider dispatch that ends in reconciliation.\<close>

definition sample_dispatched :: active_lease where
  "sample_dispatched = sample_active\<lparr>al_prepared := True, al_request := Some ''q'',
     al_context := Some sample_lease_digest, al_dispatch := Some ''d''\<rparr>"

definition sample_dispatching :: run_fold where
  "sample_dispatching = (sample_state RunRunning (sample_node\<lparr>nd_status := NodeRunning\<rparr>)
       (Some (sample_active\<lparr>al_prepared := True\<rparr>)) False 1)\<lparr>rf_active := Some sample_dispatched\<rparr>"

definition sample_reconciliation :: event where
  "sample_reconciliation = run_event ''5'' (Some ''4'') 5 ''node.reconciliation-required'' ''o''
     [(''principal_id'', JStr ''o''), (''run_id'', JStr ''r''), (''node_id'', JStr ''a''),
      (''lease_digest'', JStr sample_lease_digest), (''failure_code'', JStr ''lost''),
      (''inspection_digest'', JNull), (''inspection'', JNull),
      (''retained_worktree'', JBool False), (''status'', JStr ''reconciliation-required'')]"

lemma sample_dispatching_reachable: "run_reachable sample_deps sample_dispatching"
proof -
  have "run_reachable sample_deps (sample_state RunRunning (sample_node\<lparr>nd_status := NodeRunning\<rparr>)
       (Some (sample_active\<lparr>al_prepared := True\<rparr>)) False 1)"
    using run_steps_reachable[of sample_parse sample_deps "''r''" "init_fold sample_deps"
        "[sample_claimed, sample_prepared]"] run_reachable.start
    by (simp add: sample_step_claimed sample_step_prepared)
  then show ?thesis
    unfolding sample_dispatching_def
    by (rule run_reachable.step[OF _ run_trans.dispatch[where a = "sample_active\<lparr>al_prepared := True\<rparr>"
          and q = "Some ''q''" and c = "Some sample_lease_digest" and d = "''d''"]])
      (simp_all add: sample_state_def sample_active_def sample_dispatched_def)
qed

lemma sample_step_reconciliation:
  "\<exists>t. run_step sample_parse sample_deps ''r'' sample_dispatching sample_reconciliation = Some t"
  unfolding sample_reconciliation_def sample_dispatching_def
  by (simp add: run_step_def dispatch_event_def cleanup_event_def principal_ok_def run_ok_def
      on_node_reconciliation_def keys_are_def sample_state_def the_node_def as_str_def active_of_def
      jget_def[of "(_, _) # _"] sample_node_def fresh_node_def sample_active_def sample_dispatched_def
      code_field_def text_field_def is_alnum_def is_digit_def is_upper_def is_lower_def code_def
      insert_commute)

section \<open>Two nodes\<close>

text \<open>The second node depends on the first: it is claimed after the first succeeded.\<close>

definition pair_deps :: dependencies where
  "pair_deps = [(''a'', []), (''b'', [''a''])]"

definition pair_lease :: jobject where
  "pair_lease = [(''run_id'', JStr ''r''), (''node_id'', JStr ''b''), (''attempt'', JInt 1),
     (''fencing_token'', JInt 2), (''worker_id'', JStr ''w'')]"

definition pair_lease_digest :: string where
  "pair_lease_digest = json_digest (JObj pair_lease)"

definition pair_spec :: jobject where
  "pair_spec = [(''schema_version'', JStr ''v1''), (''lease_digest'', JStr pair_lease_digest),
     (''lease'', JObj pair_lease), (''repository_root'', JStr ''/r''), (''isolation_root'', JStr ''/i''),
     (''base_commit'', JStr sample_commit), (''allowed_paths'', JArr []), (''max_changed_paths'', JInt 1)]"

definition pair_spec_digest :: string where
  "pair_spec_digest = worktree_spec_digest pair_spec pair_lease_digest"

definition pair_claimed :: event where
  "pair_claimed = run_event ''5'' (Some ''4'') 5 ''node.claimed'' ''w''
     [(''principal_id'', JStr ''w''), (''run_id'', JStr ''r''), (''node_id'', JStr ''b''),
      (''attempt'', JInt 1), (''fencing_token'', JInt 2), (''worker_id'', JStr ''w''),
      (''lease_digest'', JStr pair_lease_digest), (''expires_at'', JStr ''t''),
      (''worktree_spec_digest'', JStr pair_spec_digest), (''worktree_spec'', JObj pair_spec),
      (''status'', JStr ''claimed'')]"

definition pair_history :: "event list" where
  "pair_history = [sample_queued, sample_claimed, sample_prepared, sample_succeeded, pair_claimed]"

definition pair_state :: "run_status \<Rightarrow> node \<Rightarrow> node \<Rightarrow> active_lease option \<Rightarrow> int \<Rightarrow> run_fold" where
  "pair_state st n m a f = \<lparr>rf_status = st, rf_nodes = [''a'' \<mapsto> n, ''b'' \<mapsto> m], rf_cancel = False,
     rf_active = a, rf_terminal = False, rf_reconciled = False, rf_fence = f\<rparr>"

definition pair_node :: node where
  "pair_node = (fresh_node ''b'')\<lparr>nd_status := NodeClaimed, nd_attempts := 1, nd_fence := 2,
     nd_lease_digest := Some pair_lease_digest, nd_spec_digest := Some pair_spec_digest,
     nd_spec := Some pair_spec\<rparr>"

definition pair_active :: active_lease where
  "pair_active = \<lparr>al_node = ''b'', al_attempt = 1, al_fence = 2, al_worker = ''w'',
     al_lease_digest = pair_lease_digest, al_spec_digest = pair_spec_digest,
     al_spec = pair_spec, al_expires = utc 100, al_prepared = False, al_request = None,
     al_context = None, al_dispatch = None\<rparr>"

lemma pair_node_ids: "node_ids pair_deps = [''a'', ''b'']"
  by (simp add: node_ids_def pair_deps_def sorted_set_def)

lemma pair_init: "init_fold pair_deps = pair_state RunQueued (fresh_node ''a'') (fresh_node ''b'') None 0"
  by (auto simp: init_fold_def pair_node_ids pair_state_def fun_eq_iff)

lemmas pair_eval = run_step_def dispatch_event_def cleanup_event_def principal_ok_def run_ok_def
  keys_are_def pair_state_def the_node_def as_str_def jget_def[of "(_, _) # _"] fresh_node_def utc_def
  set_node_def insert_commute fun_upd_twist

lemma pair_steps:
  "run_step sample_parse pair_deps ''r'' (init_fold pair_deps) sample_claimed
   = Some (pair_state RunRunning sample_node (fresh_node ''b'') (Some sample_active) 1)"
  "run_step sample_parse pair_deps ''r''
     (pair_state RunRunning sample_node (fresh_node ''b'') (Some sample_active) 1) sample_prepared
   = Some (pair_state RunRunning (sample_node\<lparr>nd_status := NodeRunning\<rparr>) (fresh_node ''b'')
       (Some (sample_active\<lparr>al_prepared := True\<rparr>)) 1)"
  "run_step sample_parse pair_deps ''r'' (pair_state RunRunning (sample_node\<lparr>nd_status := NodeRunning\<rparr>)
       (fresh_node ''b'') (Some (sample_active\<lparr>al_prepared := True\<rparr>)) 1) sample_succeeded
   = Some (pair_state RunQueued sample_done (fresh_node ''b'') None 1)"
proof -
  have leases: "json_digest (JObj sample_lease) = sample_lease_digest"
    "worktree_spec_digest sample_spec sample_lease_digest = sample_spec_digest"
    "as_obj (JObj sample_lease) = Some sample_lease" "as_obj (JObj sample_spec) = Some sample_spec"
    by (simp_all add: sample_lease_digest_def sample_spec_digest_def as_obj_def)
  have fields: "jget sample_lease ''run_id'' = JStr ''r''" "jget sample_lease ''node_id'' = JStr ''a''"
    "jget sample_lease ''attempt'' = JInt 1" "jget sample_lease ''fencing_token'' = JInt 1"
    "jget sample_lease ''worker_id'' = JStr ''w''"
    "jget sample_spec ''lease_digest'' = JStr sample_lease_digest"
    "jget sample_spec ''lease'' = JObj sample_lease"
    "keys_are sample_spec [''schema_version'', ''lease_digest'', ''lease'', ''repository_root'',
       ''isolation_root'', ''base_commit'', ''allowed_paths'', ''max_changed_paths'']"
    by (simp_all add: sample_lease_def sample_spec_def jget_def keys_are_def)
  have time: "timestamp_field sample_parse (JStr ''t'') = Some (utc 100)"
    by (simp add: timestamp_field_def text_field_def sample_parse_def aware_def utc_def)
  show "run_step sample_parse pair_deps ''r'' (init_fold pair_deps) sample_claimed
     = Some (pair_state RunRunning sample_node (fresh_node ''b'') (Some sample_active) 1)"
    using leases fields time unfolding pair_init sample_claimed_def
    by (simp add: pair_eval on_node_claimed_def deps_of_def pair_deps_def positive_integer_def
        text_field_def sample_digest_fields sample_node_def sample_active_def)
  have i: "inspection_of (payload sample_prepared) sample_active True = Some sample_inspection"
    by (rule sample_inspection_of) (simp_all add: sample_active_def sample_prepared_def jget_def)
  then show "run_step sample_parse pair_deps ''r''
       (pair_state RunRunning sample_node (fresh_node ''b'') (Some sample_active) 1) sample_prepared
     = Some (pair_state RunRunning (sample_node\<lparr>nd_status := NodeRunning\<rparr>) (fresh_node ''b'')
         (Some (sample_active\<lparr>al_prepared := True\<rparr>)) 1)"
    unfolding sample_prepared_def
    by (simp add: pair_eval on_worktree_prepared_def active_of_def sample_node_def sample_active_def)
  have j: "inspection_of (payload sample_succeeded) (sample_active\<lparr>al_prepared := True\<rparr>) False
      = Some sample_inspection"
    by (rule sample_inspection_of) (simp_all add: sample_active_def sample_succeeded_def jget_def)
  have f: "jget sample_inspection ''head_commit'' = JStr sample_commit"
    "jget sample_inspection ''uncommitted_paths'' = JArr []"
    "jget sample_inspection ''out_of_scope_paths'' = JArr []"
    "jget sample_inspection ''changed_path_limit_exceeded'' = JBool False"
    by (simp_all add: sample_inspection_def jget_def)
  show "run_step sample_parse pair_deps ''r'' (pair_state RunRunning
       (sample_node\<lparr>nd_status := NodeRunning\<rparr>) (fresh_node ''b'')
       (Some (sample_active\<lparr>al_prepared := True\<rparr>)) 1) sample_succeeded
     = Some (pair_state RunQueued sample_done (fresh_node ''b'') None 1)"
    using j unfolding sample_succeeded_def
    by (simp add: pair_eval on_node_succeeded_def active_of_def sample_node_def sample_active_def f
        sample_commit_field sample_digest_fields sample_done_def)
qed

lemma pair_step_claimed:
  "run_step sample_parse pair_deps ''r'' (pair_state RunQueued sample_done (fresh_node ''b'') None 1)
     pair_claimed = Some (pair_state RunRunning sample_done pair_node (Some pair_active) 2)"
proof -
  have "json_digest (JObj pair_lease) = pair_lease_digest"
    "worktree_spec_digest pair_spec pair_lease_digest = pair_spec_digest"
    "as_obj (JObj pair_lease) = Some pair_lease" "as_obj (JObj pair_spec) = Some pair_spec"
    by (simp_all add: pair_lease_digest_def pair_spec_digest_def as_obj_def)
  moreover have "jget pair_lease ''run_id'' = JStr ''r''" "jget pair_lease ''node_id'' = JStr ''b''"
    "jget pair_lease ''attempt'' = JInt 1" "jget pair_lease ''fencing_token'' = JInt 2"
    "jget pair_lease ''worker_id'' = JStr ''w''"
    "jget pair_spec ''lease_digest'' = JStr pair_lease_digest"
    "jget pair_spec ''lease'' = JObj pair_lease"
    "keys_are pair_spec [''schema_version'', ''lease_digest'', ''lease'', ''repository_root'',
       ''isolation_root'', ''base_commit'', ''allowed_paths'', ''max_changed_paths'']"
    by (simp_all add: pair_lease_def pair_spec_def jget_def keys_are_def)
  moreover have "timestamp_field sample_parse (JStr ''t'') = Some (utc 100)"
    by (simp add: timestamp_field_def text_field_def sample_parse_def aware_def utc_def)
  moreover have "digest_field (JStr pair_lease_digest) = Some pair_lease_digest"
    "digest_field (JStr pair_spec_digest) = Some pair_spec_digest"
    by (simp_all add: pair_lease_digest_def pair_spec_digest_def worktree_spec_digest_def)
  ultimately show ?thesis
    unfolding pair_claimed_def
    by (simp add: pair_eval on_node_claimed_def deps_of_def pair_deps_def positive_integer_def
        text_field_def pair_node_def pair_active_def status_of_def sample_done_def)
qed

lemma pair_public: "filter public_event pair_history = pair_history"
  by (simp add: pair_history_def sample_queued_def sample_claimed_def sample_prepared_def
      sample_succeeded_def pair_claimed_def public_event_def RUN_EVENT_TYPES_def)

lemma pair_stream_ok: "run_stream_ok ''r'' pair_deps pair_history"
proof -
  have "map public_event pair_history = [True, True, True, True, True]"
    by (simp add: pair_history_def sample_queued_def sample_claimed_def sample_prepared_def
        sample_succeeded_def pair_claimed_def public_event_def RUN_EVENT_TYPES_def)
  then have known: "\<forall>e \<in> set pair_history. known_event e"
    by (simp add: pair_history_def known_event_def)
  have "queued_ok sample_queued ''r''"
    by (simp add: queued_ok_def sample_queued_def keys_are_def principal_ok_def jget_def Let_def
        insert_commute)
  moreover have "sequenced (''run:'' @ ''r'') 1 pair_history" "chained pair_history"
    using known by (simp_all add: pair_history_def) (simp_all add: sample_queued_def
        sample_claimed_def sample_prepared_def sample_succeeded_def pair_claimed_def)
  ultimately show ?thesis unfolding run_stream_ok_def pair_public
    by (simp add: pair_deps_def valid_dependencies_def pair_history_def)
      (simp add: sample_queued_def sample_claimed_def sample_prepared_def sample_succeeded_def
        pair_claimed_def)
qed

lemma pair_fold:
  "fold_run_lifecycle sample_parse ''r'' pair_deps pair_history
   = Some (run_state ''r'' pair_deps pair_history
       (pair_state RunRunning sample_done pair_node (Some pair_active) 2))"
proof -
  have "ofold (run_step sample_parse pair_deps ''r'') (init_fold pair_deps)
      (tl (filter public_event pair_history))
    = Some (pair_state RunRunning sample_done pair_node (Some pair_active) 2)"
    unfolding pair_public
    unfolding pair_history_def
    by (simp add: pair_steps pair_step_claimed)
  moreover have "run_settled pair_deps (pair_state RunRunning sample_done pair_node (Some pair_active) 2)"
    by (simp add: run_settled_def pair_state_def any_node_def pair_node_ids sample_done_def
        sample_node_def pair_node_def fresh_node_def)
  ultimately show ?thesis by (simp add: fold_run_lifecycle_def pair_stream_ok)
qed

end
