(* ===== verification/RunProps.thy ===== *)
theory RunProps
  imports RunSample
begin

text \<open>The properties of the run life cycle, each with a concrete history.\<close>



text \<open>
  C14: One lease at a time: in every accepted history a node is claimed or running exactly when
  it is the node of the active lease, the lease agrees with that node's attempt, fencing token,
  lease digest and worktree specification, its token is the number of claims made in the whole
  run, and no node carries a larger token.
\<close>

theorem single_active_lease:
  assumes "fold_run_lifecycle fromiso run_id deps events = Some r"
  shows "\<forall>n \<in> set (rl_nodes r).
      (nd_status n = NodeClaimed \<or> nd_status n = NodeRunning \<longleftrightarrow>
         (\<exists>a. rl_active r = Some a \<and> al_node a = nd_id n))
      \<and> nd_fence n \<le> sum_list (map nd_attempts (rl_nodes r))
      \<and> (\<forall>a. rl_active r = Some a \<and> al_node a = nd_id n \<longrightarrow>
           al_attempt a = nd_attempts n \<and> al_fence a = nd_fence n
           \<and> al_fence a = sum_list (map nd_attempts (rl_nodes r))
           \<and> nd_lease_digest n = Some (al_lease_digest a) \<and> nd_spec_digest n = Some (al_spec_digest a)
           \<and> (al_dispatch a \<noteq> None \<longrightarrow> nd_status n = NodeRunning))"
proof -
  obtain s where s: "r = run_state run_id deps events s" "run_inv deps s"
    using fold_run_lifecycle_Some[OF assms] .
  then have ok: "nodes_ok deps s" and lease: "lease_ok s" and fence: "fence_ok deps s"
    by (simp_all add: run_inv_def)
  have total: "sum_list (map nd_attempts (rl_nodes r)) = rf_fence s"
    using rl_nodes_total[OF ok] fence by (simp add: s(1) fence_ok_def)
  have active: "rl_active r = rf_active s" by (simp add: s(1) run_state_def)
  show ?thesis
  proof
    fix n assume "n \<in> set (rl_nodes r)"
    then have n: "rf_nodes s (nd_id n) = Some n" using rl_node_iff[OF ok] by (simp add: s(1))
    then have "nd_fence n \<le> rf_fence s" using fence by (auto simp: fence_ok_def counters_ok_def)
    with lease_ok_node[OF lease n]
    show "(nd_status n = NodeClaimed \<or> nd_status n = NodeRunning \<longleftrightarrow>
         (\<exists>a. rl_active r = Some a \<and> al_node a = nd_id n))
      \<and> nd_fence n \<le> sum_list (map nd_attempts (rl_nodes r))
      \<and> (\<forall>a. rl_active r = Some a \<and> al_node a = nd_id n \<longrightarrow>
           al_attempt a = nd_attempts n \<and> al_fence a = nd_fence n
           \<and> al_fence a = sum_list (map nd_attempts (rl_nodes r))
           \<and> nd_lease_digest n = Some (al_lease_digest a) \<and> nd_spec_digest n = Some (al_spec_digest a)
           \<and> (al_dispatch a \<noteq> None \<longrightarrow> nd_status n = NodeRunning))"
      unfolding total active by auto
  qed
qed

text \<open>The history cut after the claim: the node is leased.\<close>

lemma sample_claimed_fold:
  "fold_run_lifecycle sample_parse ''r'' sample_deps [sample_queued, sample_claimed]
   = Some (run_state ''r'' sample_deps [sample_queued, sample_claimed]
       (sample_state RunRunning sample_node (Some sample_active) False 1))"
proof -
  have public: "filter public_event [sample_queued, sample_claimed] = [sample_queued, sample_claimed]"
    by (simp add: sample_queued_def sample_claimed_def public_event_def RUN_EVENT_TYPES_def)
  have "run_stream_ok ''r'' sample_deps [sample_queued, sample_claimed]"
    using sample_stream_ok unfolding run_stream_ok_def public sample_public
    by (simp add: sample_history_def)
  moreover have "run_settled sample_deps (sample_state RunRunning sample_node (Some sample_active) False 1)"
    by (simp add: run_settled_def sample_state_def)
  ultimately show ?thesis
    unfolding fold_run_lifecycle_def public by (simp add: sample_step_claimed)
qed

theorem single_active_lease_witness:
  "\<exists>r a. fold_run_lifecycle sample_parse ''r'' sample_deps [sample_queued, sample_claimed] = Some r
     \<and> rl_active r = Some a \<and> al_fence a = sum_list (map nd_attempts (rl_nodes r))"
proof -
  let ?r = "run_state ''r'' sample_deps [sample_queued, sample_claimed]
      (sample_state RunRunning sample_node (Some sample_active) False 1)"
  have "sample_node \<in> set (rl_nodes ?r)" "rl_active ?r = Some sample_active"
    "al_node sample_active = nd_id sample_node"
    by (simp_all add: run_state_def sample_node_ids sample_state_def sample_active_def
        sample_node_def fresh_node_def)
  with single_active_lease[OF sample_claimed_fold] sample_claimed_fold show ?thesis by blast
qed

text \<open>
  C15: Ends are honest: a run reported as succeeded has every node succeeded, no lease and no
  cancellation request; a run reported as canceled had cancellation requested; a run reported
  as failed has a failed node.
\<close>

theorem run_end_honest:
  assumes "fold_run_lifecycle fromiso run_id deps events = Some r"
  shows "(rl_status r = RunSucceeded \<longrightarrow> rl_active r = None \<and> \<not> rl_cancel r
       \<and> (\<forall>n \<in> set (rl_nodes r). nd_status n = NodeSucceeded))
    \<and> (rl_status r = RunCanceled \<longrightarrow> rl_active r = None \<and> rl_cancel r)
    \<and> (rl_status r = RunFailed \<longrightarrow> (\<exists>n \<in> set (rl_nodes r). nd_status n = NodeFailed))"
proof -
  obtain s where s: "r = run_state run_id deps events s" "run_inv deps s"
    using fold_run_lifecycle_Some[OF assms] .
  then have ok: "nodes_ok deps s" and e: "end_ok deps s" by (simp_all add: run_inv_def)
  have fields: "rl_status r = rf_status s" "rl_active r = rf_active s" "rl_cancel r = rf_cancel s"
    by (simp_all add: s(1) run_state_def)
  have nodes: "n \<in> set (rl_nodes r) \<longleftrightarrow> rf_nodes s (nd_id n) = Some n" for n
    using rl_node_iff[OF ok] by (simp add: s(1))
  have "nd_status n = NodeSucceeded" if "rf_status s = RunSucceeded" "rf_nodes s (nd_id n) = Some n" for n
    using e that nodes_ok_at[OF ok that(2)] by (auto simp: end_ok_def status_of_def)
  moreover have "\<exists>n \<in> set (rl_nodes r). nd_status n = NodeFailed" if failed: "rf_status s = RunFailed"
  proof -
    from e failed obtain i n where n: "rf_nodes s i = Some n" "nd_status n = NodeFailed"
      by (auto simp: end_ok_def status_of_def)
    with nodes_ok_at[OF ok n(1)] show ?thesis using nodes by auto
  qed
  ultimately show ?thesis
    using e unfolding fields by (auto simp: end_ok_def nodes)
qed

theorem run_end_honest_witness:
  "\<exists>r. fold_run_lifecycle sample_parse ''r'' sample_deps sample_history = Some r
     \<and> rl_status r = RunSucceeded \<and> \<not> rl_cancel r
     \<and> (\<forall>n \<in> set (rl_nodes r). nd_status n = NodeSucceeded)"
  using run_end_honest[OF sample_fold] sample_fold
  by (simp add: run_state_def sample_state_def)

text \<open>
  C18: Dependencies are respected: in every accepted history, a node that was ever claimed has
  all its dependencies succeeded, and a node never claimed is still pending with fencing token 0.
\<close>

theorem dependencies_first:
  assumes "fold_run_lifecycle fromiso run_id deps events = Some r"
    and "n \<in> set (rl_nodes r)"
  shows "(nd_attempts n \<noteq> 0 \<longrightarrow> (\<forall>d \<in> set (deps_of deps (nd_id n)).
      \<exists>m \<in> set (rl_nodes r). nd_id m = d \<and> nd_status m = NodeSucceeded))
    \<and> (nd_attempts n = 0 \<longrightarrow> nd_status n = NodePending \<and> nd_fence n = 0)"
proof -
  obtain s where s: "r = run_state run_id deps events s" "run_inv deps s"
    using fold_run_lifecycle_Some[OF assms(1)] .
  then have ok: "nodes_ok deps s" and o1: "order_ok deps s" and f: "fence_ok deps s"
    by (simp_all add: run_inv_def)
  have nodes: "m \<in> set (rl_nodes r) \<longleftrightarrow> rf_nodes s (nd_id m) = Some m" for m
    using rl_node_iff[OF ok] by (simp add: s(1))
  have n: "rf_nodes s (nd_id n) = Some n" using assms(2) nodes by blast
  have c: "counters_ok (rf_fence s) n" using f n by (auto simp: fence_ok_def)
  have "\<exists>m \<in> set (rl_nodes r). nd_id m = d \<and> nd_status m = NodeSucceeded"
    if "nd_attempts n \<noteq> 0" "d \<in> set (deps_of deps (nd_id n))" for d
  proof -
    have "status_of s d = Some NodeSucceeded"
      using that o1 n c by (auto simp: order_ok_def counters_ok_def)
    then obtain m where m: "rf_nodes s d = Some m" "nd_status m = NodeSucceeded"
      by (auto simp: status_of_def)
    with nodes_ok_at[OF ok m(1)] show ?thesis using nodes by auto
  qed
  with c show ?thesis by (auto simp: counters_ok_def)
qed

theorem dependencies_first_witness:
  "\<exists>r. fold_run_lifecycle sample_parse ''r'' pair_deps pair_history = Some r
     \<and> pair_node \<in> set (rl_nodes r) \<and> deps_of pair_deps (nd_id pair_node) = [''a'']
     \<and> (\<exists>m \<in> set (rl_nodes r). nd_id m = ''a'' \<and> nd_status m = NodeSucceeded)"
proof -
  let ?r = "run_state ''r'' pair_deps pair_history
      (pair_state RunRunning sample_done pair_node (Some pair_active) 2)"
  have n: "pair_node \<in> set (rl_nodes ?r)"
    by (simp add: run_state_def pair_node_ids pair_state_def)
  have "nd_attempts pair_node \<noteq> 0" and d: "deps_of pair_deps (nd_id pair_node) = [''a'']"
    by (simp_all add: pair_node_def fresh_node_def deps_of_def pair_deps_def)
  with dependencies_first[OF pair_fold n]
  have "\<exists>m \<in> set (rl_nodes ?r). nd_id m = ''a'' \<and> nd_status m = NodeSucceeded" by simp
  with pair_fold d n show ?thesis by blast
qed



text \<open>
  Ends are final: after run.succeeded, run.failed or run.canceled a continuation can only
  clean worktrees up; the run's status, its fencing token and every node's status stay.
\<close>

theorem end_final:
  assumes "run_reachable deps s" "rf_terminal s"
    and "ofold (run_step fromiso deps run_id) s es = Some t"
  shows "rf_terminal t \<and> rf_status t = rf_status s \<and> rf_fence t = rf_fence s \<and> rf_active t = None
    \<and> (\<forall>i. status_of t i = status_of s i) \<and> list_all cleanup_event es"
proof -
  have "rf_active s = None"
    using run_reachable_inv[OF assms(1)] assms(2) by (simp add: run_inv_def end_ok_def)
  then have "rf_terminal t \<and> rf_status t = rf_status s \<and> rf_fence t = rf_fence s \<and> rf_active t = None
    \<and> (\<forall>i. status_of t i = status_of s i)"
    using assms(2) trans_after_end
    by (intro run_steps_preserve[where P = "\<lambda>t. rf_terminal t \<and> rf_status t = rf_status s
        \<and> rf_fence t = rf_fence s \<and> rf_active t = None \<and> (\<forall>i. status_of t i = status_of s i)",
        OF assms(3,1)]) auto
  with run_steps_after_end[OF assms(3,1,2)] show ?thesis by blast
qed

theorem end_final_witness:
  "\<exists>t. ofold (run_step sample_parse sample_deps ''r'') sample_ended [sample_cleanup] = Some t
     \<and> rf_status t = RunSucceeded \<and> rf_active t = None"
proof -
  obtain t where t: "ofold (run_step sample_parse sample_deps ''r'') sample_ended [sample_cleanup] = Some t"
    using sample_step_cleanup by auto
  have "rf_terminal sample_ended" "rf_status sample_ended = RunSucceeded"
    by (simp_all add: sample_ended_def sample_state_def)
  with end_final[OF sample_ended_reachable _ t] t show ?thesis by auto
qed

text \<open>
  C36: A dispatched attempt is settled by its outcome: while a lease whose provider dispatch has
  started is active, the next event keeps the lease or ends it as succeeded, failed, canceled or
  in need of reconciliation; the node is never put back in the queue.
\<close>

theorem dispatched_never_requeued:
  assumes "run_reachable deps s" "rf_active s = Some a" "al_dispatch a = Some d"
    and "run_step fromiso deps run_id s e = Some s'"
  shows "(\<exists>a'. rf_active s' = Some a' \<and> al_fence a' = al_fence a \<and> al_node a' = al_node a
      \<and> al_dispatch a' = Some d)
    \<or> rf_active s' = None \<and> (\<exists>x. status_of s' (al_node a) = Some x
      \<and> (x = NodeSucceeded \<or> x = NodeFailed \<or> x = NodeCanceled \<or> x = NodeReconciliationRequired))"
  using trans_after_dispatch[OF run_step_trans[OF _ assms(4)] _ _ assms(2,3)]
    run_reachable_inv[OF assms(1)] by (auto simp: run_inv_def)

theorem dispatched_never_requeued_witness:
  "\<exists>s'. run_step sample_parse sample_deps ''r'' sample_dispatching sample_reconciliation = Some s'
     \<and> (rf_active s' = None \<longrightarrow> status_of s' ''a'' \<noteq> Some NodePending)"
proof -
  obtain s' where s': "run_step sample_parse sample_deps ''r'' sample_dispatching sample_reconciliation
      = Some s'" using sample_step_reconciliation by blast
  have "rf_active sample_dispatching = Some sample_dispatched" "al_dispatch sample_dispatched = Some ''d''"
    "al_node sample_dispatched = ''a''"
    by (simp_all add: sample_dispatching_def sample_state_def sample_dispatched_def sample_active_def)
  with dispatched_never_requeued[OF sample_dispatching_reachable _ _ s'] s' show ?thesis by fastforce
qed

end
