(* ===== verification/ReviewLifecycle.thy ===== *)
theory ReviewLifecycle
  imports Lifecycle
begin

text \<open>
  \<open>orchestration/review_lifecycle.py\<close>: the fenced lifecycle of the review stage. A review lease
  and its canonical payload, the seven event handlers of the fold, the fold itself and the
  client's view.
\<close>

section \<open>Identifiers and leases\<close>

definition review_id :: "string \<Rightarrow> string \<Rightarrow> string option" where
  "review_id run_id run_event_digest = do {
     ensure (stage_identifier run_id);
     ensure (re_digest run_event_digest);
     let suffix = removeprefix (json_digest (JObj [(''run_id'', JStr run_id),
         (''run_event_digest'', JStr run_event_digest), (''stage'', JStr ''review'')])) ''sha256:''
     in Some (''review-'' @ take 48 suffix) }"

definition review_provider_request_id :: "string \<Rightarrow> string option" where
  "review_provider_request_id lease_digest = do {
     ensure (re_digest lease_digest);
     Some (''review-'' @ take 48 (removeprefix lease_digest ''sha256:'')) }"

definition review_stream :: "string \<Rightarrow> string option" where
  "review_stream run_id = do { ensure (stage_identifier run_id); Some (''review:'' @ run_id) }"

record review_candidate =
  rc_run_id :: string
  rc_review_id :: string
  rc_correlation_id :: string
  rc_run_event_id :: string
  rc_run_event_digest :: string
  rc_state_digest :: string
  rc_artifact_evidence_digest :: string

definition review_candidate_ok :: "review_candidate \<Rightarrow> bool" where
  "review_candidate_ok c \<longleftrightarrow>
     list_all stage_identifier [rc_run_id c, rc_review_id c, rc_correlation_id c, rc_run_event_id c]
     \<and> list_all re_digest [rc_run_event_digest c, rc_state_digest c, rc_artifact_evidence_digest c]
     \<and> review_id (rc_run_id c) (rc_run_event_digest c) = Some (rc_review_id c)"

record review_lease =
  rvl_run_id :: string
  rvl_review_id :: string
  rvl_attempt :: int
  rvl_fence :: int
  rvl_worker :: string
  rvl_run_event_id :: string
  rvl_run_event_digest :: string
  rvl_state_digest :: string
  rvl_artifact_evidence_digest :: string
  rvl_expires :: datetime
  rvl_schema :: string

definition REVIEW_LEASE_SCHEMA :: string where
  "REVIEW_LEASE_SCHEMA = ''review-lease/v1''"

text \<open>\<open>ReviewLease.__post_init__\<close>.\<close>

definition review_lease_ok :: "review_lease \<Rightarrow> bool" where
  "review_lease_ok l \<longleftrightarrow> rvl_schema l = REVIEW_LEASE_SCHEMA
     \<and> list_all stage_identifier [rvl_run_id l, rvl_review_id l, rvl_worker l, rvl_run_event_id l]
     \<and> 1 \<le> rvl_attempt l \<and> 1 \<le> rvl_fence l
     \<and> list_all re_digest [rvl_run_event_digest l, rvl_state_digest l, rvl_artifact_evidence_digest l]
     \<and> aware (rvl_expires l)"

definition review_lease_payload :: "review_lease \<Rightarrow> jobject" where
  "review_lease_payload l =
     [(''schema_version'', JStr (rvl_schema l)), (''run_id'', JStr (rvl_run_id l)),
      (''review_id'', JStr (rvl_review_id l)), (''attempt'', JInt (rvl_attempt l)),
      (''fencing_token'', JInt (rvl_fence l)), (''worker_id'', JStr (rvl_worker l)),
      (''run_event_id'', JStr (rvl_run_event_id l)),
      (''run_event_digest'', JStr (rvl_run_event_digest l)),
      (''state_digest'', JStr (rvl_state_digest l)),
      (''artifact_evidence_digest'', JStr (rvl_artifact_evidence_digest l)),
      (''expires_at'', JStr (isoformat (rvl_expires l)))]"

definition review_lease_digest :: "review_lease \<Rightarrow> string" where
  "review_lease_digest l = json_digest (JObj (review_lease_payload l))"

definition review_lease_from_mapping ::
    "(string \<Rightarrow> datetime option) \<Rightarrow> jobject \<Rightarrow> review_lease option" where
  "review_lease_from_mapping fromiso raw = do {
     ensure (keys_are raw [''schema_version'', ''run_id'', ''review_id'', ''attempt'',
       ''fencing_token'', ''worker_id'', ''run_event_id'', ''run_event_digest'', ''state_digest'',
       ''artifact_evidence_digest'', ''expires_at'']);
     ensure (jget raw ''schema_version'' = JStr REVIEW_LEASE_SCHEMA);
     expires \<leftarrow> stage_expiry fromiso (jget raw ''expires_at'');
     run_id \<leftarrow> stage_id_field (jget raw ''run_id'');
     review \<leftarrow> stage_id_field (jget raw ''review_id'');
     attempt \<leftarrow> positive_integer (jget raw ''attempt'');
     fence \<leftarrow> positive_integer (jget raw ''fencing_token'');
     worker \<leftarrow> stage_id_field (jget raw ''worker_id'');
     run_event \<leftarrow> stage_id_field (jget raw ''run_event_id'');
     run_event_digest \<leftarrow> stage_digest_field (jget raw ''run_event_digest'');
     state_digest \<leftarrow> stage_digest_field (jget raw ''state_digest'');
     evidence \<leftarrow> stage_digest_field (jget raw ''artifact_evidence_digest'');
     let l = \<lparr>rvl_run_id = run_id, rvl_review_id = review, rvl_attempt = attempt,
              rvl_fence = fence, rvl_worker = worker, rvl_run_event_id = run_event,
              rvl_run_event_digest = run_event_digest, rvl_state_digest = state_digest,
              rvl_artifact_evidence_digest = evidence, rvl_expires = expires,
              rvl_schema = REVIEW_LEASE_SCHEMA\<rparr>
     in do { ensure (review_lease_ok l); Some l } }"

definition review_immutable :: "review_lease \<Rightarrow> string list" where
  "review_immutable l = [rvl_run_id l, rvl_review_id l, rvl_run_event_id l, rvl_run_event_digest l,
     rvl_state_digest l, rvl_artifact_evidence_digest l]"

definition review_renewable :: "review_lease \<Rightarrow> string list \<times> int \<times> int" where
  "review_renewable l = ([rvl_schema l, rvl_run_id l, rvl_review_id l, rvl_worker l,
     rvl_run_event_id l, rvl_run_event_digest l, rvl_state_digest l,
     rvl_artifact_evidence_digest l], rvl_attempt l, rvl_fence l)"

section \<open>The fold's state\<close>

datatype review_status =
  ReviewClaimed | ReviewDispatched | ReviewSucceeded | ReviewFailed | ReviewRequeued
  | ReviewReconciliationRequired

record review_fold =
  rv_status :: "review_status option"
  rv_lease :: "review_lease option"
  rv_baseline :: "review_lease option"
  rv_acceptance :: "string option"
  rv_context :: "string option"
  rv_request :: "string option"
  rv_dispatch :: "string option"
  rv_proposal :: "string option"
  rv_result :: "string option"
  rv_admitted :: "string option"
  rv_findings :: "int option"
  rv_failure :: "string option"
  rv_failure_result :: "string option"

definition review_init :: review_fold where
  "review_init = \<lparr>rv_status = None, rv_lease = None, rv_baseline = None, rv_acceptance = None,
     rv_context = None, rv_request = None, rv_dispatch = None, rv_proposal = None,
     rv_result = None, rv_admitted = None, rv_findings = None, rv_failure = None,
     rv_failure_result = None\<rparr>"

text \<open>\<open>_host_transition\<close> and \<open>_active_lease\<close>.\<close>

definition review_host :: "jobject \<Rightarrow> review_fold \<Rightarrow> review_status \<Rightarrow> review_lease option" where
  "review_host p s expected = do {
     l \<leftarrow> rv_lease s;
     ensure (rv_status s = Some expected \<and> jget p ''run_id'' = JStr (rvl_run_id l)
       \<and> jget p ''review_id'' = JStr (rvl_review_id l)
       \<and> jget p ''lease_digest'' = JStr (review_lease_digest l));
     Some l }"

definition review_active ::
    "jobject \<Rightarrow> string \<Rightarrow> event \<Rightarrow> review_fold \<Rightarrow> review_status \<Rightarrow> bool \<Rightarrow> review_lease option" where
  "review_active p who e s expected allow_expired = do {
     l \<leftarrow> review_host p s expected;
     ensure (who = rvl_worker l);
     ensure (allow_expired \<or> dt_utc (recorded_at e) \<le> dt_utc (rvl_expires l));
     Some l }"

section \<open>Handlers\<close>

definition on_review_claimed ::
    "(string \<Rightarrow> datetime option) \<Rightarrow> string \<Rightarrow> event \<Rightarrow> string \<Rightarrow> jobject \<Rightarrow> review_fold
     \<Rightarrow> review_fold option" where
  "on_review_claimed fromiso run_id e who p s = do {
     ensure (keys_are p [''principal_id'', ''lease_digest'', ''lease'', ''status'']);
     ensure (rv_status s = None \<or> rv_status s = Some ReviewRequeued);
     raw \<leftarrow> as_obj (jget p ''lease'');
     c \<leftarrow> review_lease_from_mapping fromiso raw;
     ensure (rvl_run_id c = run_id \<and> rvl_worker c = who
       \<and> jget p ''lease_digest'' = JStr (review_lease_digest c)
       \<and> jget p ''status'' = JStr ''claimed''
       \<and> dt_utc (recorded_at e) < dt_utc (rvl_expires c)
       \<and> (rv_lease s = None \<longrightarrow> causation_id e = Some (rvl_run_event_id c))
       \<and> rvl_attempt c = (case rv_lease s of None \<Rightarrow> 1 | Some l \<Rightarrow> rvl_attempt l + 1)
       \<and> rvl_fence c = (case rv_lease s of None \<Rightarrow> 1 | Some l \<Rightarrow> rvl_fence l + 1));
     ensure (case rv_baseline s of None \<Rightarrow> True | Some b \<Rightarrow> review_immutable c = review_immutable b);
     Some (review_init\<lparr>rv_baseline := (case rv_baseline s of None \<Rightarrow> Some c | Some b \<Rightarrow> Some b),
       rv_lease := Some c, rv_status := Some ReviewClaimed\<rparr>) }"

definition on_review_renewed ::
    "(string \<Rightarrow> datetime option) \<Rightarrow> event \<Rightarrow> string \<Rightarrow> jobject \<Rightarrow> review_fold \<Rightarrow> review_fold option" where
  "on_review_renewed fromiso e who p s = do {
     ensure (keys_are p [''principal_id'', ''previous_lease_digest'', ''lease_digest'', ''lease'',
       ''status'']);
     raw \<leftarrow> as_obj (jget p ''lease'');
     r \<leftarrow> review_lease_from_mapping fromiso raw;
     l \<leftarrow> rv_lease s;
     ensure (rv_status s = Some ReviewClaimed \<and> who = rvl_worker l \<and> rvl_worker r = who
       \<and> jget p ''previous_lease_digest'' = JStr (review_lease_digest l)
       \<and> jget p ''lease_digest'' = JStr (review_lease_digest r)
       \<and> jget p ''status'' = JStr ''claimed''
       \<and> dt_utc (recorded_at e) < dt_utc (rvl_expires r)
       \<and> dt_utc (rvl_expires l) < dt_utc (rvl_expires r)
       \<and> review_renewable r = review_renewable l);
     Some (s\<lparr>rv_lease := Some r\<rparr>) }"

definition on_review_dispatch ::
    "event \<Rightarrow> string \<Rightarrow> jobject \<Rightarrow> review_fold \<Rightarrow> review_fold option" where
  "on_review_dispatch e who p s = do {
     ensure (keys_are p [''principal_id'', ''run_id'', ''review_id'', ''lease_digest'',
       ''provider_request_id'', ''acceptance_digest'', ''context_digest'',
       ''context_artifact_digest'', ''status'']);
     l \<leftarrow> review_active p who e s ReviewClaimed False;
     request \<leftarrow> stage_id_field (jget p ''provider_request_id'');
     acceptance \<leftarrow> stage_digest_field (jget p ''acceptance_digest'');
     context_digest \<leftarrow> stage_digest_field (jget p ''context_digest'');
     ensure (review_provider_request_id (review_lease_digest l) = Some request
       \<and> jget p ''context_artifact_digest'' = JStr context_digest
       \<and> jget p ''status'' = JStr ''provider-dispatch-started'');
     Some (s\<lparr>rv_acceptance := Some acceptance, rv_context := Some context_digest,
       rv_request := Some request, rv_dispatch := Some (event_id e),
       rv_status := Some ReviewDispatched\<rparr>) }"

definition on_review_succeeded ::
    "event \<Rightarrow> string \<Rightarrow> jobject \<Rightarrow> review_fold \<Rightarrow> review_fold option" where
  "on_review_succeeded e who p s = do {
     ensure (keys_are p [''principal_id'', ''run_id'', ''review_id'', ''lease_digest'',
       ''context_digest'', ''proposal_artifact_digest'', ''provider_result_artifact_digest'',
       ''admitted_artifact_digest'', ''finding_count'', ''status'']);
     l \<leftarrow> review_active p who e s ReviewDispatched False;
     count \<leftarrow> bounded_integer 64 (jget p ''finding_count'');
     ensure (jget p ''context_digest'' = opt_str (rv_context s)
       \<and> jget p ''status'' = JStr ''succeeded'');
     proposal \<leftarrow> stage_digest_field (jget p ''proposal_artifact_digest'');
     result \<leftarrow> stage_digest_field (jget p ''provider_result_artifact_digest'');
     admitted \<leftarrow> stage_digest_field (jget p ''admitted_artifact_digest'');
     Some (s\<lparr>rv_proposal := Some proposal, rv_result := Some result, rv_admitted := Some admitted,
       rv_findings := Some count, rv_status := Some ReviewSucceeded\<rparr>) }"

definition on_review_failed ::
    "event \<Rightarrow> string \<Rightarrow> jobject \<Rightarrow> review_fold \<Rightarrow> review_fold option" where
  "on_review_failed e who p s = do {
     ensure (keys_are p [''principal_id'', ''run_id'', ''review_id'', ''lease_digest'',
       ''failure_code'', ''result_artifact_digest'', ''status'']);
     status \<leftarrow> rv_status s;
     ensure (status = ReviewClaimed \<or> status = ReviewDispatched);
     l \<leftarrow> review_active p who e s status True;
     failure \<leftarrow> stage_failure_field (jget p ''failure_code'');
     result \<leftarrow> optional_stage_digest (jget p ''result_artifact_digest'');
     ensure (jget p ''status'' = JStr ''reviewer-error'');
     Some (s\<lparr>rv_failure := Some failure, rv_failure_result := result,
       rv_status := Some ReviewFailed\<rparr>) }"

definition on_review_requeued :: "jobject \<Rightarrow> review_fold \<Rightarrow> review_fold option" where
  "on_review_requeued p s = do {
     ensure (keys_are p [''principal_id'', ''run_id'', ''review_id'', ''lease_digest'',
       ''disposition'', ''status'']);
     l \<leftarrow> review_host p s ReviewClaimed;
     ensure (jget p ''disposition'' = JStr ''pre-dispatch'' \<and> jget p ''status'' = JStr ''requeued'');
     Some (s\<lparr>rv_status := Some ReviewRequeued\<rparr>) }"

definition on_review_reconciliation :: "jobject \<Rightarrow> review_fold \<Rightarrow> review_fold option" where
  "on_review_reconciliation p s = do {
     ensure (keys_are p [''principal_id'', ''run_id'', ''review_id'', ''lease_digest'',
       ''failure_code'', ''status'']);
     l \<leftarrow> review_host p s ReviewDispatched;
     failure \<leftarrow> stage_failure_field (jget p ''failure_code'');
     ensure (failure = ''review-dispatch-ambiguous''
       \<and> jget p ''status'' = JStr ''reconciliation-required'');
     Some (s\<lparr>rv_failure := Some failure, rv_status := Some ReviewReconciliationRequired\<rparr>) }"

section \<open>The fold\<close>

definition REVIEW_EVENT_TYPES :: "string list" where
  "REVIEW_EVENT_TYPES = [''review.claimed'', ''review.lease-renewed'',
     ''review.provider-dispatch-started'', ''review.succeeded'', ''review.failed'',
     ''review.requeued'', ''review.reconciliation-required'']"

definition review_step ::
    "(string \<Rightarrow> datetime option) \<Rightarrow> string \<Rightarrow> review_fold \<Rightarrow> event \<Rightarrow> review_fold option" where
  "review_step fromiso run_id s e =
     (let p = payload e; t = event_type e in
      do {
        who \<leftarrow> stage_principal p e;
        if t = ''review.claimed'' then on_review_claimed fromiso run_id e who p s
        else if t = ''review.lease-renewed'' then on_review_renewed fromiso e who p s
        else if t = ''review.provider-dispatch-started'' then on_review_dispatch e who p s
        else if t = ''review.succeeded'' then on_review_succeeded e who p s
        else if t = ''review.failed'' then on_review_failed e who p s
        else if t = ''review.requeued'' then on_review_requeued p s
        else if t = ''review.reconciliation-required'' then on_review_reconciliation p s
        else None })"

record review_lifecycle =
  rs_run_id :: string
  rs_review_id :: string
  rs_status :: review_status
  rs_lease :: review_lease
  rs_fold :: review_fold
  rs_latest :: event

definition fold_review_lifecycle ::
    "(string \<Rightarrow> datetime option) \<Rightarrow> string \<Rightarrow> event list \<Rightarrow> review_lifecycle option" where
  "fold_review_lifecycle fromiso run_id events = do {
     stream \<leftarrow> review_stream run_id;
     ensure (stage_stream_ok stream REVIEW_EVENT_TYPES events);
     s \<leftarrow> ofold (review_step fromiso run_id) review_init events;
     status \<leftarrow> rv_status s;
     l \<leftarrow> rv_lease s;
     Some \<lparr>rs_run_id = run_id, rs_review_id = rvl_review_id l, rs_status = status, rs_lease = l,
       rs_fold = s, rs_latest = last events\<rparr> }"

fun review_status_value :: "review_status \<Rightarrow> string" where
  "review_status_value ReviewClaimed = ''claimed''"
| "review_status_value ReviewDispatched = ''provider-dispatched''"
| "review_status_value ReviewSucceeded = ''succeeded''"
| "review_status_value ReviewFailed = ''failed''"
| "review_status_value ReviewRequeued = ''requeued''"
| "review_status_value ReviewReconciliationRequired = ''reconciliation-required''"

definition review_lifecycle_payload :: "review_lifecycle \<Rightarrow> json" where
  "review_lifecycle_payload r = (let l = rs_lease r; f = rs_fold r in JObj
     [(''run_id'', JStr (rs_run_id r)), (''review_id'', JStr (rs_review_id r)),
      (''status'', JStr (review_status_value (rs_status r))),
      (''lease_digest'', JStr (review_lease_digest l)), (''attempt'', JInt (rvl_attempt l)),
      (''fencing_token'', JInt (rvl_fence l)), (''worker_id'', JStr (rvl_worker l)),
      (''run_event_id'', JStr (rvl_run_event_id l)),
      (''run_event_digest'', JStr (rvl_run_event_digest l)),
      (''state_digest'', JStr (rvl_state_digest l)),
      (''artifact_evidence_digest'', JStr (rvl_artifact_evidence_digest l)),
      (''expires_at'', JStr (isoformat (rvl_expires l))),
      (''acceptance_digest'', opt_str (rv_acceptance f)),
      (''context_digest'', opt_str (rv_context f)),
      (''provider_request_id'', opt_str (rv_request f)),
      (''provider_dispatch_event_id'', opt_str (rv_dispatch f)),
      (''proposal_artifact_digest'', opt_str (rv_proposal f)),
      (''provider_result_artifact_digest'', opt_str (rv_result f)),
      (''admitted_artifact_digest'', opt_str (rv_admitted f)),
      (''finding_count'', opt_int (rv_findings f)), (''failure_code'', opt_str (rv_failure f)),
      (''result_artifact_digest'', opt_str (rv_failure_result f)),
      (''stream_sequence'', JInt (stream_sequence (rs_latest r))),
      (''latest_event_id'', JStr (event_id (rs_latest r))),
      (''latest_event_digest'', JStr (payload_hash (rs_latest r)))])"

definition review_is_active :: "review_lifecycle \<Rightarrow> bool" where
  "review_is_active r = (rs_status r = ReviewClaimed \<or> rs_status r = ReviewDispatched)"

end
