(* ===== verification/ReviewFacts.thy ===== *)
theory ReviewFacts
  imports ReviewLifecycle
begin

text \<open>
  Correctness of the review fold: leases round-trip through their payload, the fold is a fenced
  lifecycle (the interpretation of \<open>fenced_lifecycle\<close>), and a success is bound to the one
  provider dispatch of its lease.
\<close>

definition review_final :: "review_fold \<Rightarrow> bool" where
  "review_final s \<longleftrightarrow> rv_status s = Some ReviewSucceeded \<or> rv_status s = Some ReviewFailed
     \<or> rv_status s = Some ReviewReconciliationRequired"

definition review_inv :: "review_fold \<Rightarrow> bool" where
  "review_inv s \<longleftrightarrow>
     (rv_lease s = None \<longleftrightarrow> rv_status s = None) \<and> (rv_lease s = None \<longleftrightarrow> rv_baseline s = None)
     \<and> (\<forall>l b. rv_lease s = Some l \<longrightarrow> rv_baseline s = Some b \<longrightarrow> review_immutable l = review_immutable b)
     \<and> (\<forall>l. rv_lease s = Some l \<longrightarrow>
          (rv_status s = Some ReviewDispatched \<or> rv_status s = Some ReviewSucceeded) \<longrightarrow>
          rv_request s = review_provider_request_id (review_lease_digest l)
          \<and> rv_context s \<noteq> None \<and> rv_acceptance s \<noteq> None \<and> rv_dispatch s \<noteq> None)
     \<and> (rv_status s = Some ReviewSucceeded \<longrightarrow> rv_proposal s \<noteq> None \<and> rv_result s \<noteq> None
          \<and> rv_admitted s \<noteq> None \<and> (\<exists>n. rv_findings s = Some n \<and> 0 \<le> n \<and> n \<le> 64))
     \<and> (rv_status s \<noteq> Some ReviewSucceeded \<longrightarrow> rv_admitted s = None)"

definition review_claim_event :: "event \<Rightarrow> bool" where
  "review_claim_event e = (event_type e = ''review.claimed'')"

section \<open>What each handler does\<close>

lemma review_host_Some:
  "review_host p s x = Some l \<Longrightarrow> rv_lease s = Some l \<and> rv_status s = Some x"
  by (auto simp: review_host_def bind_eq_Some_conv split: if_splits)

lemma review_active_Some:
  "review_active p w e s x b = Some l \<Longrightarrow> rv_lease s = Some l \<and> rv_status s = Some x"
  by (auto simp: review_active_def bind_eq_Some_conv dest: review_host_Some split: if_splits)

lemma bounded_integer_Some: "bounded_integer m v = Some i \<Longrightarrow> 0 \<le> i \<and> i \<le> m"
  by (auto simp: bounded_integer_def split: json.splits if_splits)

inductive review_trans :: "review_fold \<Rightarrow> event \<Rightarrow> review_fold \<Rightarrow> bool" where
  claim: "\<lbrakk>review_claim_event e; rv_status s = None \<or> rv_status s = Some ReviewRequeued;
      rvl_attempt c = (case rv_lease s of None \<Rightarrow> 1 | Some l \<Rightarrow> rvl_attempt l + 1);
      rvl_fence c = (case rv_lease s of None \<Rightarrow> 1 | Some l \<Rightarrow> rvl_fence l + 1);
      case rv_baseline s of None \<Rightarrow> True | Some b \<Rightarrow> review_immutable c = review_immutable b\<rbrakk>
    \<Longrightarrow> review_trans s e (review_init\<lparr>rv_baseline := (case rv_baseline s of None \<Rightarrow> Some c | Some b \<Rightarrow> Some b),
          rv_lease := Some c, rv_status := Some ReviewClaimed\<rparr>)"
| renew: "\<lbrakk>\<not> review_claim_event e; rv_lease s = Some l; rv_status s = Some ReviewClaimed;
      review_renewable r = review_renewable l; dt_utc (rvl_expires l) < dt_utc (rvl_expires r)\<rbrakk>
    \<Longrightarrow> review_trans s e (s\<lparr>rv_lease := Some r\<rparr>)"
| dispatch: "\<lbrakk>\<not> review_claim_event e; rv_lease s = Some l; rv_status s = Some ReviewClaimed;
      review_provider_request_id (review_lease_digest l) = Some q\<rbrakk>
    \<Longrightarrow> review_trans s e (s\<lparr>rv_acceptance := Some a, rv_context := Some c, rv_request := Some q,
          rv_dispatch := Some d, rv_status := Some ReviewDispatched\<rparr>)"
| succeed: "\<lbrakk>\<not> review_claim_event e; rv_lease s = Some l; rv_status s = Some ReviewDispatched;
      0 \<le> n; n \<le> 64\<rbrakk>
    \<Longrightarrow> review_trans s e (s\<lparr>rv_proposal := Some p, rv_result := Some q, rv_admitted := Some a,
          rv_findings := Some n, rv_status := Some ReviewSucceeded\<rparr>)"
| stop: "\<lbrakk>\<not> review_claim_event e; rv_lease s = Some l; rv_status s = Some from_st;
      (from_st, to_st) \<in> {(ReviewClaimed, ReviewFailed), (ReviewDispatched, ReviewFailed),
        (ReviewClaimed, ReviewRequeued), (ReviewDispatched, ReviewReconciliationRequired)};
      s' = s\<lparr>rv_failure := f, rv_failure_result := g, rv_status := Some to_st\<rparr>\<rbrakk>
    \<Longrightarrow> review_trans s e s'"

lemma on_review_claimed_trans:
  assumes "on_review_claimed fromiso run_id e who p s = Some s'" "review_claim_event e"
  shows "review_trans s e s'"
proof -
  from assms(1) obtain c where c: "rv_status s = None \<or> rv_status s = Some ReviewRequeued"
    "rvl_attempt c = (case rv_lease s of None \<Rightarrow> 1 | Some l \<Rightarrow> rvl_attempt l + 1)"
    "rvl_fence c = (case rv_lease s of None \<Rightarrow> 1 | Some l \<Rightarrow> rvl_fence l + 1)"
    "case rv_baseline s of None \<Rightarrow> True | Some b \<Rightarrow> review_immutable c = review_immutable b"
    and s': "s' = review_init\<lparr>rv_baseline := (case rv_baseline s of None \<Rightarrow> Some c | Some b \<Rightarrow> Some b),
       rv_lease := Some c, rv_status := Some ReviewClaimed\<rparr>"
    unfolding on_review_claimed_def by (auto simp: bind_eq_Some_conv split: if_splits)
  show ?thesis unfolding s' by (rule review_trans.claim[OF assms(2) c])
qed

lemma on_review_renewed_trans:
  assumes "on_review_renewed fromiso e who p s = Some s'" "\<not> review_claim_event e"
  shows "review_trans s e s'"
proof -
  from assms(1) obtain l r where r: "rv_lease s = Some l" "rv_status s = Some ReviewClaimed"
    "review_renewable r = review_renewable l" "dt_utc (rvl_expires l) < dt_utc (rvl_expires r)"
    "s' = s\<lparr>rv_lease := Some r\<rparr>"
    unfolding on_review_renewed_def by (auto simp: bind_eq_Some_conv split: if_splits)
  show ?thesis unfolding r(5) by (rule review_trans.renew[OF assms(2) r(1-4)])
qed

lemma on_review_dispatch_trans:
  assumes "on_review_dispatch e who p s = Some s'" "\<not> review_claim_event e"
  shows "review_trans s e s'"
proof -
  from assms(1) obtain l q a c where l: "review_active p who e s ReviewClaimed False = Some l"
    and q: "review_provider_request_id (review_lease_digest l) = Some q"
    and s': "s' = s\<lparr>rv_acceptance := Some a, rv_context := Some c, rv_request := Some q,
       rv_dispatch := Some (event_id e), rv_status := Some ReviewDispatched\<rparr>"
    unfolding on_review_dispatch_def by (auto simp: bind_eq_Some_conv split: if_splits)
  show ?thesis unfolding s'
    by (rule review_trans.dispatch[OF assms(2) _ _ q]) (use review_active_Some[OF l] in auto)
qed

lemma on_review_succeeded_trans:
  assumes "on_review_succeeded e who p s = Some s'" "\<not> review_claim_event e"
  shows "review_trans s e s'"
proof -
  from assms(1) obtain l n x y z where l: "review_active p who e s ReviewDispatched False = Some l"
    and n: "bounded_integer 64 (jget p ''finding_count'') = Some n"
    and s': "s' = s\<lparr>rv_proposal := Some x, rv_result := Some y, rv_admitted := Some z,
       rv_findings := Some n, rv_status := Some ReviewSucceeded\<rparr>"
    unfolding on_review_succeeded_def by (auto simp: bind_eq_Some_conv split: if_splits)
  show ?thesis unfolding s'
    by (rule review_trans.succeed[OF assms(2)])
      (use review_active_Some[OF l] bounded_integer_Some[OF n] in auto)
qed

lemma on_review_failed_trans:
  assumes "on_review_failed e who p s = Some s'" "\<not> review_claim_event e"
  shows "review_trans s e s'"
proof -
  from assms(1) obtain st l f g where st: "st = ReviewClaimed \<or> st = ReviewDispatched"
    and l: "review_active p who e s st True = Some l"
    and s': "s' = s\<lparr>rv_failure := Some f, rv_failure_result := g, rv_status := Some ReviewFailed\<rparr>"
    unfolding on_review_failed_def by (auto simp: bind_eq_Some_conv split: if_splits)
  show ?thesis
    by (rule review_trans.stop[OF assms(2) _ _ _ s']) (use review_active_Some[OF l] st in auto)
qed

lemma on_review_host_trans:
  assumes "on_review_requeued p s = Some s' \<or> on_review_reconciliation p s = Some s'"
    "\<not> review_claim_event e"
  shows "review_trans s e s'"
  using assms(1)
proof
  assume "on_review_requeued p s = Some s'"
  then obtain l where l: "review_host p s ReviewClaimed = Some l"
    and s': "s' = s\<lparr>rv_failure := rv_failure s, rv_failure_result := rv_failure_result s,
      rv_status := Some ReviewRequeued\<rparr>"
    unfolding on_review_requeued_def by (auto simp: bind_eq_Some_conv split: if_splits)
  show ?thesis
    by (rule review_trans.stop[OF assms(2) _ _ _ s']) (use review_host_Some[OF l] in auto)
next
  assume "on_review_reconciliation p s = Some s'"
  then obtain l f where l: "review_host p s ReviewDispatched = Some l"
    and s': "s' = s\<lparr>rv_failure := Some f, rv_failure_result := rv_failure_result s,
      rv_status := Some ReviewReconciliationRequired\<rparr>"
    unfolding on_review_reconciliation_def by (auto simp: bind_eq_Some_conv split: if_splits)
  show ?thesis
    by (rule review_trans.stop[OF assms(2) _ _ _ s']) (use review_host_Some[OF l] in auto)
qed

lemma review_step_trans:
  assumes "review_step fromiso run_id s e = Some s'"
  shows "review_trans s e s'"
proof -
  from assms obtain w where w: "(if event_type e = ''review.claimed''
      then on_review_claimed fromiso run_id e w (payload e) s
      else if event_type e = ''review.lease-renewed'' then on_review_renewed fromiso e w (payload e) s
      else if event_type e = ''review.provider-dispatch-started'' then on_review_dispatch e w (payload e) s
      else if event_type e = ''review.succeeded'' then on_review_succeeded e w (payload e) s
      else if event_type e = ''review.failed'' then on_review_failed e w (payload e) s
      else if event_type e = ''review.requeued'' then on_review_requeued (payload e) s
      else if event_type e = ''review.reconciliation-required'' then on_review_reconciliation (payload e) s
      else None) = Some s'"
    unfolding review_step_def Let_def by (auto simp: bind_eq_Some_conv)
  show ?thesis
  proof (cases "review_claim_event e")
    case True
    with w show ?thesis by (auto simp: review_claim_event_def intro: on_review_claimed_trans True)
  next
    case False
    with w show ?thesis
      by (auto simp: review_claim_event_def split: if_splits
          intro: on_review_renewed_trans[OF _ False] on_review_dispatch_trans[OF _ False]
            on_review_succeeded_trans[OF _ False] on_review_failed_trans[OF _ False]
            on_review_host_trans[OF _ False])
  qed
qed

inductive_cases review_transE: "review_trans s e s'"

lemma review_renewable_identity:
  "review_renewable r = review_renewable l \<Longrightarrow>
     review_immutable r = review_immutable l \<and> rvl_attempt r = rvl_attempt l \<and> rvl_fence r = rvl_fence l"
  by (simp add: review_renewable_def review_immutable_def)

lemma review_trans_inv: "review_trans s e s' \<Longrightarrow> review_inv s \<Longrightarrow> review_inv s'"
  by (elim review_transE)
    (auto simp: review_inv_def review_init_def split: option.splits dest: review_renewable_identity)

lemma review_trans_final: "review_trans s e s' \<Longrightarrow> \<not> review_final s"
  by (elim review_transE) (auto simp: review_final_def)

lemma review_trans_claim:
  assumes "review_trans s e s'" "review_claim_event e" "review_inv s"
  shows "\<exists>l'. rv_lease s' = Some l'
    \<and> rvl_attempt l' = (case rv_lease s of None \<Rightarrow> 1 | Some l \<Rightarrow> rvl_attempt l + 1)
    \<and> rvl_fence l' = (case rv_lease s of None \<Rightarrow> 1 | Some l \<Rightarrow> rvl_fence l + 1)
    \<and> (\<forall>l. rv_lease s = Some l \<longrightarrow> review_immutable l' = review_immutable l)"
  using assms
  by (elim review_transE) (auto simp: review_inv_def split: option.splits)

lemma review_trans_other:
  assumes "review_trans s e s'" "\<not> review_claim_event e"
  shows "\<exists>l l'. rv_lease s = Some l \<and> rv_lease s' = Some l' \<and> rvl_attempt l' = rvl_attempt l
    \<and> rvl_fence l' = rvl_fence l \<and> review_immutable l' = review_immutable l"
  using assms by (elim review_transE) (auto dest: review_renewable_identity)

interpretation review_fenced: fenced_lifecycle "review_step fromiso run_id" review_init review_inv
  rv_lease rvl_attempt rvl_fence review_immutable review_claim_event review_final
  for fromiso run_id
proof
  show "review_inv review_init" "rv_lease review_init = None"
    by (simp_all add: review_inv_def review_init_def)
  fix s e s'
  assume inv: "review_inv s" and step: "review_step fromiso run_id s e = Some s'"
  note tr = review_step_trans[OF step]
  show "review_inv s'" using review_trans_inv[OF tr inv] .
  show "review_claim_event e \<Longrightarrow> \<exists>l'. rv_lease s' = Some l'
    \<and> rvl_attempt l' = (case rv_lease s of None \<Rightarrow> 1 | Some l \<Rightarrow> rvl_attempt l + 1)
    \<and> rvl_fence l' = (case rv_lease s of None \<Rightarrow> 1 | Some l \<Rightarrow> rvl_fence l + 1)
    \<and> (\<forall>l. rv_lease s = Some l \<longrightarrow> review_immutable l' = review_immutable l)"
    using review_trans_claim[OF tr _ inv] .
  show "\<not> review_claim_event e \<Longrightarrow> \<exists>l l'. rv_lease s = Some l \<and> rv_lease s' = Some l'
    \<and> rvl_attempt l' = rvl_attempt l \<and> rvl_fence l' = rvl_fence l
    \<and> review_immutable l' = review_immutable l"
    using review_trans_other[OF tr] .
next
  fix s e
  assume "review_final s"
  then show "review_step fromiso run_id s e = None"
    using review_step_trans review_trans_final by (cases "review_step fromiso run_id s e") blast+
qed

lemma fold_review_Some:
  assumes "fold_review_lifecycle fromiso run_id events = Some r"
  shows "ofold (review_step fromiso run_id) review_init events = Some (rs_fold r)"
    "rv_status (rs_fold r) = Some (rs_status r)" "rv_lease (rs_fold r) = Some (rs_lease r)"
    "events \<noteq> []" "review_inv (rs_fold r)" "rs_review_id r = rvl_review_id (rs_lease r)"
proof -
  show steps: "ofold (review_step fromiso run_id) review_init events = Some (rs_fold r)"
    using assms by (auto simp: fold_review_lifecycle_def bind_eq_Some_conv split: if_splits)
  show "rv_status (rs_fold r) = Some (rs_status r)" "rv_lease (rs_fold r) = Some (rs_lease r)"
    "events \<noteq> []" "rs_review_id r = rvl_review_id (rs_lease r)"
    using assms
    by (auto simp: fold_review_lifecycle_def bind_eq_Some_conv stage_stream_ok_def split: if_splits)
  show "review_inv (rs_fold r)"
    using review_fenced.fold_inv[OF steps] review_fenced.inv_init by blast
qed

end
