(* ===== verification/ReviewProps.thy ===== *)
theory ReviewProps
  imports ReviewFacts
begin

text \<open>The properties of the review lifecycle, with one concrete successful review.\<close>

section \<open>A concrete review\<close>

definition stage_event ::
    "string \<Rightarrow> string \<Rightarrow> string \<Rightarrow> int \<Rightarrow> string \<Rightarrow> string \<Rightarrow> jobject \<Rightarrow> event" where
  "stage_event stream i cause n ty who p = \<lparr>event_id = i, stream_id = stream, stream_sequence = n,
     event_type = ty, schema_version = 1, recorded_at = utc n, effective_at = utc n,
     correlation_id = ''c'', causation_id = Some cause, actor = who, source = RUNTIME_EVENT_SOURCE,
     payload = p, payload_hash = json_digest (JObj p), idempotency_key = None,
     global_position = None\<rparr>"

lemma stage_event_fields [simp]:
  "event_id (stage_event st i cause n ty who p) = i" "stream_id (stage_event st i cause n ty who p) = st"
  "stream_sequence (stage_event st i cause n ty who p) = n"
  "event_type (stage_event st i cause n ty who p) = ty"
  "schema_version (stage_event st i cause n ty who p) = 1"
  "recorded_at (stage_event st i cause n ty who p) = utc n"
  "correlation_id (stage_event st i cause n ty who p) = ''c''"
  "causation_id (stage_event st i cause n ty who p) = Some cause"
  "actor (stage_event st i cause n ty who p) = who"
  "source (stage_event st i cause n ty who p) = RUNTIME_EVENT_SOURCE"
  "payload (stage_event st i cause n ty who p) = p"
  by (simp_all add: stage_event_def)

definition stage_parse :: "string \<Rightarrow> datetime option" where
  "stage_parse s = Some (utc 100)"

definition some_digest :: string where
  "some_digest = json_digest JNull"

lemma some_digest_ok [simp]: "re_digest some_digest"
  by (simp add: some_digest_def)

definition sample_review_lease :: review_lease where
  "sample_review_lease = \<lparr>rvl_run_id = ''r'', rvl_review_id = ''v'', rvl_attempt = 1, rvl_fence = 1,
     rvl_worker = ''w'', rvl_run_event_id = ''0'', rvl_run_event_digest = some_digest,
     rvl_state_digest = some_digest, rvl_artifact_evidence_digest = some_digest,
     rvl_expires = utc 100, rvl_schema = REVIEW_LEASE_SCHEMA\<rparr>"

lemma single_identifier [simp]: "is_alnum c \<Longrightarrow> stage_identifier [c]"
  by (simp add: stage_identifier_def re_ident_def)

lemma sample_chars [simp]: "is_alnum (CHR ''r'')" "is_alnum (CHR ''v'')" "is_alnum (CHR ''w'')"
  "is_alnum (CHR ''0'')" "is_alnum (CHR ''h'')"
  by (simp_all add: is_alnum_def is_digit_def is_upper_def is_lower_def code_def)

lemma review_lease_payload_fields [simp]:
  "jget (review_lease_payload l) ''schema_version'' = JStr (rvl_schema l)"
  "jget (review_lease_payload l) ''run_id'' = JStr (rvl_run_id l)"
  "jget (review_lease_payload l) ''review_id'' = JStr (rvl_review_id l)"
  "jget (review_lease_payload l) ''attempt'' = JInt (rvl_attempt l)"
  "jget (review_lease_payload l) ''fencing_token'' = JInt (rvl_fence l)"
  "jget (review_lease_payload l) ''worker_id'' = JStr (rvl_worker l)"
  "jget (review_lease_payload l) ''run_event_id'' = JStr (rvl_run_event_id l)"
  "jget (review_lease_payload l) ''run_event_digest'' = JStr (rvl_run_event_digest l)"
  "jget (review_lease_payload l) ''state_digest'' = JStr (rvl_state_digest l)"
  "jget (review_lease_payload l) ''artifact_evidence_digest'' = JStr (rvl_artifact_evidence_digest l)"
  "jget (review_lease_payload l) ''expires_at'' = JStr (isoformat (rvl_expires l))"
  by (simp_all add: review_lease_payload_def jget_def)

lemma review_lease_roundtrip:
  assumes ok: "review_lease_ok l" and parse: "fromiso (isoformat (rvl_expires l)) = Some (rvl_expires l)"
  shows "review_lease_from_mapping fromiso (review_lease_payload l) = Some l"
proof -
  have keys: "keys_are (review_lease_payload l) [''schema_version'', ''run_id'', ''review_id'',
     ''attempt'', ''fencing_token'', ''worker_id'', ''run_event_id'', ''run_event_digest'',
     ''state_digest'', ''artifact_evidence_digest'', ''expires_at'']"
    by (simp add: keys_are_def review_lease_payload_def)
  have "stage_id_field (JStr (rvl_run_id l)) = Some (rvl_run_id l)"
    "stage_id_field (JStr (rvl_review_id l)) = Some (rvl_review_id l)"
    "stage_id_field (JStr (rvl_worker l)) = Some (rvl_worker l)"
    "stage_id_field (JStr (rvl_run_event_id l)) = Some (rvl_run_event_id l)"
    "stage_digest_field (JStr (rvl_run_event_digest l)) = Some (rvl_run_event_digest l)"
    "stage_digest_field (JStr (rvl_state_digest l)) = Some (rvl_state_digest l)"
    "stage_digest_field (JStr (rvl_artifact_evidence_digest l)) = Some (rvl_artifact_evidence_digest l)"
    "positive_integer (JInt (rvl_attempt l)) = Some (rvl_attempt l)"
    "positive_integer (JInt (rvl_fence l)) = Some (rvl_fence l)"
    "rvl_schema l = REVIEW_LEASE_SCHEMA"
    using ok by (auto simp: review_lease_ok_def positive_integer_Some)
  moreover have "stage_expiry fromiso (JStr (isoformat (rvl_expires l))) = Some (rvl_expires l)"
    by (simp add: stage_expiry_def string_where_def parse)
  moreover have eta: "\<lparr>rvl_run_id = rvl_run_id l, rvl_review_id = rvl_review_id l,
      rvl_attempt = rvl_attempt l, rvl_fence = rvl_fence l, rvl_worker = rvl_worker l,
      rvl_run_event_id = rvl_run_event_id l, rvl_run_event_digest = rvl_run_event_digest l,
      rvl_state_digest = rvl_state_digest l,
      rvl_artifact_evidence_digest = rvl_artifact_evidence_digest l,
      rvl_expires = rvl_expires l, rvl_schema = REVIEW_LEASE_SCHEMA\<rparr> = l"
    using ok by (cases l) (simp add: review_lease_ok_def)
  ultimately show ?thesis
    using ok by (simp add: review_lease_from_mapping_def keys Let_def eta)
qed

lemma sample_review_lease_ok: "review_lease_ok sample_review_lease"
  by (simp add: review_lease_ok_def sample_review_lease_def aware_def utc_def)

lemma sample_review_parse:
  "review_lease_from_mapping stage_parse (review_lease_payload sample_review_lease) = Some sample_review_lease"
  by (rule review_lease_roundtrip[OF sample_review_lease_ok])
    (simp add: stage_parse_def sample_review_lease_def)

definition sample_lease_ref :: string where
  "sample_lease_ref = review_lease_digest sample_review_lease"

definition sample_request :: string where
  "sample_request = ''review-'' @ take 48 (removeprefix sample_lease_ref ''sha256:'')"

lemma sample_request_of: "review_provider_request_id sample_lease_ref = Some sample_request"
  by (simp add: review_provider_request_id_def sample_request_def sample_lease_ref_def
      review_lease_digest_def)

lemma sample_request_ok: "stage_identifier sample_request"
  unfolding sample_request_def sample_lease_ref_def review_lease_digest_def
  by (rule digest_identifier) simp_all

definition review_history :: "event list" where
  "review_history =
     [stage_event ''review:r'' ''1'' ''0'' 1 ''review.claimed'' ''w''
        [(''principal_id'', JStr ''w''), (''lease_digest'', JStr sample_lease_ref),
         (''lease'', JObj (review_lease_payload sample_review_lease)), (''status'', JStr ''claimed'')],
      stage_event ''review:r'' ''2'' ''1'' 2 ''review.provider-dispatch-started'' ''w''
        [(''principal_id'', JStr ''w''), (''run_id'', JStr ''r''), (''review_id'', JStr ''v''),
         (''lease_digest'', JStr sample_lease_ref), (''provider_request_id'', JStr sample_request),
         (''acceptance_digest'', JStr some_digest), (''context_digest'', JStr some_digest),
         (''context_artifact_digest'', JStr some_digest),
         (''status'', JStr ''provider-dispatch-started'')],
      stage_event ''review:r'' ''3'' ''2'' 3 ''review.succeeded'' ''w''
        [(''principal_id'', JStr ''w''), (''run_id'', JStr ''r''), (''review_id'', JStr ''v''),
         (''lease_digest'', JStr sample_lease_ref), (''context_digest'', JStr some_digest),
         (''proposal_artifact_digest'', JStr some_digest),
         (''provider_result_artifact_digest'', JStr some_digest),
         (''admitted_artifact_digest'', JStr some_digest), (''finding_count'', JInt 2),
         (''status'', JStr ''succeeded'')]]"

definition review_claimed_state :: review_fold where
  "review_claimed_state = review_init\<lparr>rv_baseline := Some sample_review_lease,
     rv_lease := Some sample_review_lease, rv_status := Some ReviewClaimed\<rparr>"

definition review_dispatched_state :: review_fold where
  "review_dispatched_state = review_claimed_state\<lparr>rv_acceptance := Some some_digest,
     rv_context := Some some_digest, rv_request := Some sample_request, rv_dispatch := Some ''2'',
     rv_status := Some ReviewDispatched\<rparr>"

definition review_succeeded_state :: review_fold where
  "review_succeeded_state = review_dispatched_state\<lparr>rv_proposal := Some some_digest,
     rv_result := Some some_digest, rv_admitted := Some some_digest, rv_findings := Some 2,
     rv_status := Some ReviewSucceeded\<rparr>"

lemma sample_lease_values [simp]:
  "rvl_run_id sample_review_lease = ''r''" "rvl_review_id sample_review_lease = ''v''"
  "rvl_attempt sample_review_lease = 1" "rvl_fence sample_review_lease = 1"
  "rvl_worker sample_review_lease = ''w''" "rvl_run_event_id sample_review_lease = ''0''"
  "rvl_expires sample_review_lease = utc 100"
  "review_lease_digest sample_review_lease = sample_lease_ref"
  by (simp_all add: sample_review_lease_def sample_lease_ref_def)

lemma review_history_steps:
  "ofold (review_step stage_parse ''r'') review_init review_history = Some review_succeeded_state"
proof -
  have claim: "review_step stage_parse ''r'' review_init (review_history ! 0) = Some review_claimed_state"
    by (simp add: review_history_def review_step_def Let_def stage_principal_def
        on_review_claimed_def keys_are_def jget_def[of "(_, _) # _"] as_obj_def sample_review_parse
        review_init_def review_claimed_state_def utc_def insert_commute)
  have dispatch: "review_step stage_parse ''r'' review_claimed_state (review_history ! 1)
      = Some review_dispatched_state"
    by (simp add: review_history_def review_step_def Let_def stage_principal_def
        on_review_dispatch_def keys_are_def jget_def[of "(_, _) # _"] review_active_def
        review_host_def review_claimed_state_def review_init_def sample_request_of sample_request_ok
        review_dispatched_state_def utc_def insert_commute)
  have succeed: "review_step stage_parse ''r'' review_dispatched_state (review_history ! 2)
      = Some review_succeeded_state"
    by (simp add: review_history_def review_step_def Let_def stage_principal_def
        on_review_succeeded_def keys_are_def jget_def[of "(_, _) # _"] review_active_def
        review_host_def review_claimed_state_def review_init_def bounded_integer_def opt_str_def
        review_dispatched_state_def review_succeeded_state_def utc_def insert_commute)
  have "review_history = [review_history ! 0, review_history ! 1, review_history ! 2]"
    by (simp add: review_history_def)
  then show ?thesis using claim dispatch succeed by (metis bind.bind_lunit ofold.simps)
qed

lemma review_history_fold:
  "fold_review_lifecycle stage_parse ''r'' review_history
   = Some \<lparr>rs_run_id = ''r'', rs_review_id = ''v'', rs_status = ReviewSucceeded,
       rs_lease = sample_review_lease, rs_fold = review_succeeded_state, rs_latest = last review_history\<rparr>"
proof -
  have "stage_stream_ok ''review:r'' REVIEW_EVENT_TYPES review_history"
    by (simp add: stage_stream_ok_def review_history_def REVIEW_EVENT_TYPES_def)
  moreover have "review_stream ''r'' = Some ''review:r''" by (simp add: review_stream_def)
  ultimately show ?thesis
    by (simp add: fold_review_lifecycle_def review_history_steps)
      (simp add: review_succeeded_state_def review_dispatched_state_def review_claimed_state_def)
qed

section \<open>Properties\<close>

text \<open>
  A review claim is fenced: after any accepted history of the review stream, the lease in
  force carries the number of claims so far both as its attempt and as its fencing token, whatever
  was renewed, requeued or failed in between, so no two claims of a run share a token.
\<close>

theorem review_claims_fenced:
  assumes "fold_review_lifecycle fromiso run_id events = Some r"
  shows "rvl_attempt (rs_lease r) = int (length (filter review_claim_event events))
    \<and> rvl_fence (rs_lease r) = int (length (filter review_claim_event events))"
  using review_fenced.accepted_attempts[OF fold_review_Some(1)[OF assms] fold_review_Some(4)[OF assms]]
    fold_review_Some(3)[OF assms]
  by (simp add: review_fenced.claims_def)

theorem review_claims_fenced_witness:
  "\<exists>r. fold_review_lifecycle stage_parse ''r'' review_history = Some r
    \<and> rvl_attempt (rs_lease r) = 1 \<and> rvl_fence (rs_lease r) = 1"
  using review_claims_fenced[OF review_history_fold] review_history_fold
  by (simp add: review_history_def review_claim_event_def)

text \<open>
  C21: A review succeeds only through the one provider dispatch its own lease names: the recorded
  provider request is the request identifier derived from the digest of the lease in force, an
  acceptance, a context and the dispatch event are on record, the three result artifacts are
  present and the number of findings lies between 0 and 64. Before success nothing is admitted.
\<close>

theorem review_success_bound:
  assumes "fold_review_lifecycle fromiso run_id events = Some r"
  shows "(rs_status r = ReviewSucceeded \<longrightarrow>
      rv_request (rs_fold r) = review_provider_request_id (review_lease_digest (rs_lease r))
      \<and> rv_acceptance (rs_fold r) \<noteq> None \<and> rv_context (rs_fold r) \<noteq> None
      \<and> rv_dispatch (rs_fold r) \<noteq> None \<and> rv_proposal (rs_fold r) \<noteq> None
      \<and> rv_result (rs_fold r) \<noteq> None \<and> rv_admitted (rs_fold r) \<noteq> None
      \<and> (\<exists>n. rv_findings (rs_fold r) = Some n \<and> 0 \<le> n \<and> n \<le> 64))
    \<and> (rs_status r \<noteq> ReviewSucceeded \<longrightarrow> rv_admitted (rs_fold r) = None)"
  using fold_review_Some[OF assms] by (simp add: review_inv_def)

theorem review_success_bound_witness:
  "\<exists>r. fold_review_lifecycle stage_parse ''r'' review_history = Some r
    \<and> rv_request (rs_fold r) = review_provider_request_id (review_lease_digest (rs_lease r))
    \<and> rv_admitted (rs_fold r) \<noteq> None"
  using review_success_bound[OF review_history_fold] review_history_fold by simp

text \<open>
  The review history only moves forward: after success, failure or a required reconciliation
  no event is accepted any more, and however an accepted history continues, the reviewed work (run,
  review, run event, state and evidence digests) stays the same and the fencing token never falls.
\<close>

theorem review_history_forward:
  assumes "fold_review_lifecycle fromiso run_id events = Some r"
    and "fold_review_lifecycle fromiso run_id (events @ later) = Some r'"
  shows "review_immutable (rs_lease r') = review_immutable (rs_lease r)
    \<and> rvl_fence (rs_lease r) \<le> rvl_fence (rs_lease r')
    \<and> (rs_status r \<in> {ReviewSucceeded, ReviewFailed, ReviewReconciliationRequired} \<longrightarrow> later = [])"
proof -
  note a = fold_review_Some[OF assms(1)] and b = fold_review_Some[OF assms(2)]
  have later: "ofold (review_step fromiso run_id) (rs_fold r) later = Some (rs_fold r')"
    using b(1) a(1) by (simp add: ofold_append)
  have "rs_status r \<in> {ReviewSucceeded, ReviewFailed, ReviewReconciliationRequired} \<Longrightarrow> later = []"
    using review_fenced.final_nothing_follows[OF a(1) _ b(1)] a(2)
    by (auto simp: review_final_def)
  with review_fenced.identity_kept[OF a(1,3) later b(3)] show ?thesis by blast
qed

theorem review_history_forward_witness:
  "\<exists>r. fold_review_lifecycle stage_parse ''r'' review_history = Some r
    \<and> (\<forall>e. fold_review_lifecycle stage_parse ''r'' (review_history @ [e]) = None)"
proof (intro exI conjI allI)
  show "fold_review_lifecycle stage_parse ''r'' review_history = Some \<lparr>rs_run_id = ''r'',
    rs_review_id = ''v'', rs_status = ReviewSucceeded, rs_lease = sample_review_lease,
    rs_fold = review_succeeded_state, rs_latest = last review_history\<rparr>"
    by (rule review_history_fold)
  fix e
  show "fold_review_lifecycle stage_parse ''r'' (review_history @ [e]) = None"
  proof (cases "fold_review_lifecycle stage_parse ''r'' (review_history @ [e])")
    case (Some r')
    from review_history_forward[OF review_history_fold Some] show ?thesis by simp
  qed simp
qed

text \<open>
  A review lease survives its canonical payload: parsing the mapping a valid lease is recorded
  as gives that lease back, for every timestamp parser that reads the rendered expiry back.
\<close>

theorem review_lease_payload_roundtrip:
  assumes "review_lease_ok l" "fromiso (isoformat (rvl_expires l)) = Some (rvl_expires l)"
  shows "review_lease_from_mapping fromiso (review_lease_payload l) = Some l"
  using assms by (rule review_lease_roundtrip)

theorem review_lease_payload_roundtrip_witness:
  "review_lease_from_mapping stage_parse (review_lease_payload sample_review_lease) = Some sample_review_lease"
  by (rule review_lease_payload_roundtrip[OF sample_review_lease_ok])
    (simp add: stage_parse_def sample_review_lease_def)

end
