(* ===== verification/Verdict.thy ===== *)
theory Verdict
  imports Prelude
begin

text \<open>
  The verdict of \<open>orchestration/verification.py\<close> as its lifecycle records it: the three statuses
  and their texts. The report behind a status is in \<open>Verify\<close>.
\<close>

datatype verification_status = VPass | VFail | VInconclusive

fun verification_status_value :: "verification_status \<Rightarrow> string" where
  "verification_status_value VPass = ''pass''"
| "verification_status_value VFail = ''fail''"
| "verification_status_value VInconclusive = ''inconclusive''"

text \<open>\<open>VerificationStatus(text)\<close>: the member with that value.\<close>

definition verification_status_of :: "string \<Rightarrow> verification_status option" where
  "verification_status_of s =
     (if s = ''pass'' then Some VPass else if s = ''fail'' then Some VFail
      else if s = ''inconclusive'' then Some VInconclusive else None)"

lemma verification_status_of_value [simp]:
  "verification_status_of (verification_status_value v) = Some v"
  by (cases v) (simp_all add: verification_status_of_def)

end
