(* ===== verification/VerificationLifecycle.thy ===== *)
theory VerificationLifecycle
  imports ReviewLifecycle Verdict
begin

text \<open>
  \<open>orchestration/verification_lifecycle.py\<close>: the fenced lifecycle of the verification stage. A
  lease binds the reviewed run, the admitted review and its artifacts; the fold accepts claims,
  one completion or failure, and host requeues.
\<close>

section \<open>Candidates and leases\<close>

definition verification_id :: "string \<Rightarrow> string \<Rightarrow> string option" where
  "verification_id run_id review_event_digest = do {
     ensure (stage_identifier run_id);
     ensure (re_digest review_event_digest);
     let suffix = removeprefix (json_digest (JObj [(''run_id'', JStr run_id),
         (''review_event_digest'', JStr review_event_digest),
         (''stage'', JStr ''verification'')])) ''sha256:''
     in Some (''verification-'' @ take 48 suffix) }"

definition verification_stream :: "string \<Rightarrow> string option" where
  "verification_stream run_id = do { ensure (stage_identifier run_id); Some (''verification:'' @ run_id) }"

record verification_candidate =
  vc_run_id :: string
  vc_verification_id :: string
  vc_correlation_id :: string
  vc_run_event_id :: string
  vc_run_event_digest :: string
  vc_state_digest :: string
  vc_artifact_evidence_digest :: string
  vc_review_id :: string
  vc_review_event_id :: string
  vc_review_event_digest :: string
  vc_acceptance_digest :: string
  vc_context_digest :: string
  vc_proposal_artifact_digest :: string
  vc_provider_result_artifact_digest :: string
  vc_admitted_review_digest :: string
  vc_finding_count :: int

definition verification_candidate_ok :: "verification_candidate \<Rightarrow> bool" where
  "verification_candidate_ok c \<longleftrightarrow>
     list_all stage_identifier [vc_run_id c, vc_verification_id c, vc_correlation_id c,
       vc_run_event_id c, vc_review_id c, vc_review_event_id c]
     \<and> list_all re_digest [vc_run_event_digest c, vc_state_digest c, vc_artifact_evidence_digest c,
       vc_review_event_digest c, vc_acceptance_digest c, vc_context_digest c,
       vc_proposal_artifact_digest c, vc_provider_result_artifact_digest c,
       vc_admitted_review_digest c]
     \<and> 0 \<le> vc_finding_count c \<and> vc_finding_count c \<le> 64
     \<and> review_id (vc_run_id c) (vc_run_event_digest c) = Some (vc_review_id c)
     \<and> verification_id (vc_run_id c) (vc_review_event_digest c) = Some (vc_verification_id c)"

record verification_lease =
  vl_run_id :: string
  vl_verification_id :: string
  vl_attempt :: int
  vl_fence :: int
  vl_worker :: string
  vl_run_event_id :: string
  vl_run_event_digest :: string
  vl_state_digest :: string
  vl_artifact_evidence_digest :: string
  vl_review_id :: string
  vl_review_event_id :: string
  vl_review_event_digest :: string
  vl_acceptance_digest :: string
  vl_context_digest :: string
  vl_proposal_artifact_digest :: string
  vl_provider_result_artifact_digest :: string
  vl_admitted_review_digest :: string
  vl_finding_count :: int
  vl_expires :: datetime
  vl_schema :: string

definition VERIFICATION_LEASE_SCHEMA :: string where
  "VERIFICATION_LEASE_SCHEMA = ''verification-lease/v1''"

text \<open>\<open>VerificationLease.__post_init__\<close>: the lease is a valid candidate plus its own fields.\<close>

definition verification_lease_candidate :: "verification_lease \<Rightarrow> verification_candidate" where
  "verification_lease_candidate l = \<lparr>vc_run_id = vl_run_id l,
     vc_verification_id = vl_verification_id l, vc_correlation_id = ''lease-validation'',
     vc_run_event_id = vl_run_event_id l, vc_run_event_digest = vl_run_event_digest l,
     vc_state_digest = vl_state_digest l,
     vc_artifact_evidence_digest = vl_artifact_evidence_digest l, vc_review_id = vl_review_id l,
     vc_review_event_id = vl_review_event_id l, vc_review_event_digest = vl_review_event_digest l,
     vc_acceptance_digest = vl_acceptance_digest l, vc_context_digest = vl_context_digest l,
     vc_proposal_artifact_digest = vl_proposal_artifact_digest l,
     vc_provider_result_artifact_digest = vl_provider_result_artifact_digest l,
     vc_admitted_review_digest = vl_admitted_review_digest l,
     vc_finding_count = vl_finding_count l\<rparr>"

definition verification_lease_ok :: "verification_lease \<Rightarrow> bool" where
  "verification_lease_ok l \<longleftrightarrow> verification_candidate_ok (verification_lease_candidate l)
     \<and> vl_schema l = VERIFICATION_LEASE_SCHEMA \<and> stage_identifier (vl_worker l)
     \<and> 1 \<le> vl_attempt l \<and> 1 \<le> vl_fence l \<and> aware (vl_expires l)"

definition verification_lease_payload :: "verification_lease \<Rightarrow> jobject" where
  "verification_lease_payload l =
     [(''schema_version'', JStr (vl_schema l)), (''run_id'', JStr (vl_run_id l)),
      (''verification_id'', JStr (vl_verification_id l)), (''attempt'', JInt (vl_attempt l)),
      (''fencing_token'', JInt (vl_fence l)), (''worker_id'', JStr (vl_worker l)),
      (''run_event_id'', JStr (vl_run_event_id l)),
      (''run_event_digest'', JStr (vl_run_event_digest l)),
      (''state_digest'', JStr (vl_state_digest l)),
      (''artifact_evidence_digest'', JStr (vl_artifact_evidence_digest l)),
      (''review_id'', JStr (vl_review_id l)), (''review_event_id'', JStr (vl_review_event_id l)),
      (''review_event_digest'', JStr (vl_review_event_digest l)),
      (''acceptance_digest'', JStr (vl_acceptance_digest l)),
      (''context_digest'', JStr (vl_context_digest l)),
      (''proposal_artifact_digest'', JStr (vl_proposal_artifact_digest l)),
      (''provider_result_artifact_digest'', JStr (vl_provider_result_artifact_digest l)),
      (''admitted_review_digest'', JStr (vl_admitted_review_digest l)),
      (''finding_count'', JInt (vl_finding_count l)),
      (''expires_at'', JStr (isoformat (vl_expires l)))]"

definition verification_lease_digest :: "verification_lease \<Rightarrow> string" where
  "verification_lease_digest l = json_digest (JObj (verification_lease_payload l))"

definition verification_lease_from_mapping ::
    "(string \<Rightarrow> datetime option) \<Rightarrow> jobject \<Rightarrow> verification_lease option" where
  "verification_lease_from_mapping fromiso raw = do {
     ensure (keys_are raw [''schema_version'', ''run_id'', ''verification_id'', ''attempt'',
       ''fencing_token'', ''worker_id'', ''run_event_id'', ''run_event_digest'', ''state_digest'',
       ''artifact_evidence_digest'', ''review_id'', ''review_event_id'', ''review_event_digest'',
       ''acceptance_digest'', ''context_digest'', ''proposal_artifact_digest'',
       ''provider_result_artifact_digest'', ''admitted_review_digest'', ''finding_count'',
       ''expires_at'']);
     ensure (jget raw ''schema_version'' = JStr VERIFICATION_LEASE_SCHEMA);
     expires \<leftarrow> stage_expiry fromiso (jget raw ''expires_at'');
     run_id \<leftarrow> stage_id_field (jget raw ''run_id'');
     verification \<leftarrow> stage_id_field (jget raw ''verification_id'');
     attempt \<leftarrow> positive_integer (jget raw ''attempt'');
     fence \<leftarrow> positive_integer (jget raw ''fencing_token'');
     worker \<leftarrow> stage_id_field (jget raw ''worker_id'');
     run_event \<leftarrow> stage_id_field (jget raw ''run_event_id'');
     run_event_digest \<leftarrow> stage_digest_field (jget raw ''run_event_digest'');
     state_digest \<leftarrow> stage_digest_field (jget raw ''state_digest'');
     evidence \<leftarrow> stage_digest_field (jget raw ''artifact_evidence_digest'');
     review \<leftarrow> stage_id_field (jget raw ''review_id'');
     review_event \<leftarrow> stage_id_field (jget raw ''review_event_id'');
     review_event_digest \<leftarrow> stage_digest_field (jget raw ''review_event_digest'');
     acceptance \<leftarrow> stage_digest_field (jget raw ''acceptance_digest'');
     context_digest \<leftarrow> stage_digest_field (jget raw ''context_digest'');
     proposal \<leftarrow> stage_digest_field (jget raw ''proposal_artifact_digest'');
     result \<leftarrow> stage_digest_field (jget raw ''provider_result_artifact_digest'');
     admitted \<leftarrow> stage_digest_field (jget raw ''admitted_review_digest'');
     count \<leftarrow> bounded_integer 64 (jget raw ''finding_count'');
     let l = \<lparr>vl_run_id = run_id, vl_verification_id = verification, vl_attempt = attempt,
              vl_fence = fence, vl_worker = worker, vl_run_event_id = run_event,
              vl_run_event_digest = run_event_digest, vl_state_digest = state_digest,
              vl_artifact_evidence_digest = evidence, vl_review_id = review,
              vl_review_event_id = review_event, vl_review_event_digest = review_event_digest,
              vl_acceptance_digest = acceptance, vl_context_digest = context_digest,
              vl_proposal_artifact_digest = proposal, vl_provider_result_artifact_digest = result,
              vl_admitted_review_digest = admitted, vl_finding_count = count,
              vl_expires = expires, vl_schema = VERIFICATION_LEASE_SCHEMA\<rparr>
     in do { ensure (verification_lease_ok l); Some l } }"

text \<open>\<open>_immutable_lease_identity\<close>.\<close>

definition verification_immutable :: "verification_lease \<Rightarrow> string list \<times> int" where
  "verification_immutable l = ([vl_run_id l, vl_verification_id l, vl_run_event_id l,
     vl_run_event_digest l, vl_state_digest l, vl_artifact_evidence_digest l, vl_review_id l,
     vl_review_event_id l, vl_review_event_digest l, vl_acceptance_digest l, vl_context_digest l,
     vl_proposal_artifact_digest l, vl_provider_result_artifact_digest l,
     vl_admitted_review_digest l], vl_finding_count l)"

section \<open>The fold's state\<close>

datatype verification_lifecycle_status =
  VerificationClaimed | VerificationCompleted | VerificationFailed | VerificationRequeued

record verification_fold =
  vf_status :: "verification_lifecycle_status option"
  vf_lease :: "verification_lease option"
  vf_baseline :: "verification_lease option"
  vf_verdict :: "verification_status option"
  vf_report :: "string option"
  vf_matrix :: "string option"
  vf_failure :: "string option"
  vf_result :: "string option"

definition verification_init :: verification_fold where
  "verification_init = \<lparr>vf_status = None, vf_lease = None, vf_baseline = None, vf_verdict = None,
     vf_report = None, vf_matrix = None, vf_failure = None, vf_result = None\<rparr>"

text \<open>\<open>_host_transition\<close>, and \<open>_active_lease\<close>, which also binds the worker but reads no clock.\<close>

definition verification_host :: "jobject \<Rightarrow> verification_fold \<Rightarrow> verification_lease option" where
  "verification_host p s = do {
     l \<leftarrow> vf_lease s;
     ensure (vf_status s = Some VerificationClaimed \<and> jget p ''run_id'' = JStr (vl_run_id l)
       \<and> jget p ''verification_id'' = JStr (vl_verification_id l)
       \<and> jget p ''lease_digest'' = JStr (verification_lease_digest l));
     Some l }"

definition verification_active ::
    "jobject \<Rightarrow> string \<Rightarrow> verification_fold \<Rightarrow> verification_lease option" where
  "verification_active p who s = do {
     l \<leftarrow> verification_host p s;
     ensure (who = vl_worker l);
     Some l }"

section \<open>Handlers\<close>

definition on_verification_claimed ::
    "(string \<Rightarrow> datetime option) \<Rightarrow> string \<Rightarrow> event \<Rightarrow> string \<Rightarrow> jobject \<Rightarrow> verification_fold
     \<Rightarrow> verification_fold option" where
  "on_verification_claimed fromiso run_id e who p s = do {
     ensure (keys_are p [''principal_id'', ''lease_digest'', ''lease'', ''status'']);
     ensure (vf_status s = None \<or> vf_status s = Some VerificationRequeued);
     raw \<leftarrow> as_obj (jget p ''lease'');
     c \<leftarrow> verification_lease_from_mapping fromiso raw;
     ensure (vl_run_id c = run_id \<and> vl_worker c = who
       \<and> jget p ''lease_digest'' = JStr (verification_lease_digest c)
       \<and> jget p ''status'' = JStr ''claimed''
       \<and> dt_utc (recorded_at e) < dt_utc (vl_expires c)
       \<and> (vf_lease s = None \<longrightarrow> causation_id e = Some (vl_review_event_id c))
       \<and> vl_attempt c = (case vf_lease s of None \<Rightarrow> 1 | Some l \<Rightarrow> vl_attempt l + 1)
       \<and> vl_fence c = (case vf_lease s of None \<Rightarrow> 1 | Some l \<Rightarrow> vl_fence l + 1));
     ensure (case vf_baseline s of None \<Rightarrow> True
             | Some b \<Rightarrow> verification_immutable c = verification_immutable b);
     Some (verification_init\<lparr>vf_baseline := (case vf_baseline s of None \<Rightarrow> Some c | Some b \<Rightarrow> Some b),
       vf_lease := Some c, vf_status := Some VerificationClaimed\<rparr>) }"

definition on_verification_completed ::
    "string \<Rightarrow> jobject \<Rightarrow> verification_fold \<Rightarrow> verification_fold option" where
  "on_verification_completed who p s = do {
     ensure (keys_are p [''principal_id'', ''run_id'', ''verification_id'', ''lease_digest'',
       ''verdict'', ''report_artifact_digest'', ''matrix_digest'', ''status'']);
     l \<leftarrow> verification_active p who s;
     text \<leftarrow> string_where (\<lambda>_. True) (jget p ''verdict'');
     verdict \<leftarrow> verification_status_of text;
     report \<leftarrow> stage_digest_field (jget p ''report_artifact_digest'');
     matrix \<leftarrow> stage_digest_field (jget p ''matrix_digest'');
     ensure (jget p ''status'' = JStr ''completed'');
     Some (s\<lparr>vf_lease := Some l, vf_verdict := Some verdict, vf_report := Some report,
       vf_matrix := Some matrix, vf_status := Some VerificationCompleted\<rparr>) }"

definition on_verification_failed ::
    "string \<Rightarrow> jobject \<Rightarrow> verification_fold \<Rightarrow> verification_fold option" where
  "on_verification_failed who p s = do {
     ensure (keys_are p [''principal_id'', ''run_id'', ''verification_id'', ''lease_digest'',
       ''failure_code'', ''result_artifact_digest'', ''status'']);
     l \<leftarrow> verification_active p who s;
     failure \<leftarrow> stage_failure_field (jget p ''failure_code'');
     result \<leftarrow> optional_stage_digest (jget p ''result_artifact_digest'');
     ensure (jget p ''status'' = JStr ''verifier-error'');
     Some (s\<lparr>vf_failure := Some failure, vf_result := result,
       vf_status := Some VerificationFailed\<rparr>) }"

definition on_verification_requeued ::
    "string \<Rightarrow> jobject \<Rightarrow> verification_fold \<Rightarrow> verification_fold option" where
  "on_verification_requeued who p s = do {
     ensure (keys_are p [''principal_id'', ''run_id'', ''verification_id'', ''lease_digest'',
       ''disposition'', ''status'']);
     l \<leftarrow> verification_host p s;
     ensure (who \<noteq> vl_worker l \<and> jget p ''disposition'' = JStr ''deterministic-retry''
       \<and> jget p ''status'' = JStr ''requeued'');
     Some (s\<lparr>vf_status := Some VerificationRequeued\<rparr>) }"

section \<open>The fold\<close>

definition VERIFICATION_EVENT_TYPES :: "string list" where
  "VERIFICATION_EVENT_TYPES = [''verification.claimed'', ''verification.completed'',
     ''verification.failed'', ''verification.requeued'']"

definition verification_step ::
    "(string \<Rightarrow> datetime option) \<Rightarrow> string \<Rightarrow> verification_fold \<Rightarrow> event \<Rightarrow> verification_fold option" where
  "verification_step fromiso run_id s e =
     (let p = payload e; t = event_type e in
      do {
        who \<leftarrow> stage_principal p e;
        if t = ''verification.claimed'' then on_verification_claimed fromiso run_id e who p s
        else if t = ''verification.completed'' then on_verification_completed who p s
        else if t = ''verification.failed'' then on_verification_failed who p s
        else if t = ''verification.requeued'' then on_verification_requeued who p s
        else None })"

record verification_lifecycle =
  vs_run_id :: string
  vs_verification_id :: string
  vs_status :: verification_lifecycle_status
  vs_lease :: verification_lease
  vs_fold :: verification_fold
  vs_latest :: event

definition fold_verification_lifecycle ::
    "(string \<Rightarrow> datetime option) \<Rightarrow> string \<Rightarrow> event list \<Rightarrow> verification_lifecycle option" where
  "fold_verification_lifecycle fromiso run_id events = do {
     stream \<leftarrow> verification_stream run_id;
     ensure (stage_stream_ok stream VERIFICATION_EVENT_TYPES events);
     s \<leftarrow> ofold (verification_step fromiso run_id) verification_init events;
     status \<leftarrow> vf_status s;
     l \<leftarrow> vf_lease s;
     Some \<lparr>vs_run_id = run_id, vs_verification_id = vl_verification_id l, vs_status = status,
       vs_lease = l, vs_fold = s, vs_latest = last events\<rparr> }"

fun verification_lifecycle_status_value :: "verification_lifecycle_status \<Rightarrow> string" where
  "verification_lifecycle_status_value VerificationClaimed = ''claimed''"
| "verification_lifecycle_status_value VerificationCompleted = ''completed''"
| "verification_lifecycle_status_value VerificationFailed = ''failed''"
| "verification_lifecycle_status_value VerificationRequeued = ''requeued''"

definition verification_lifecycle_payload :: "verification_lifecycle \<Rightarrow> json" where
  "verification_lifecycle_payload r = (let l = vs_lease r; f = vs_fold r in JObj
     [(''run_id'', JStr (vs_run_id r)), (''verification_id'', JStr (vs_verification_id r)),
      (''status'', JStr (verification_lifecycle_status_value (vs_status r))),
      (''lease_digest'', JStr (verification_lease_digest l)), (''attempt'', JInt (vl_attempt l)),
      (''fencing_token'', JInt (vl_fence l)), (''worker_id'', JStr (vl_worker l)),
      (''run_event_id'', JStr (vl_run_event_id l)),
      (''run_event_digest'', JStr (vl_run_event_digest l)),
      (''state_digest'', JStr (vl_state_digest l)),
      (''artifact_evidence_digest'', JStr (vl_artifact_evidence_digest l)),
      (''review_id'', JStr (vl_review_id l)), (''review_event_id'', JStr (vl_review_event_id l)),
      (''review_event_digest'', JStr (vl_review_event_digest l)),
      (''acceptance_digest'', JStr (vl_acceptance_digest l)),
      (''context_digest'', JStr (vl_context_digest l)),
      (''proposal_artifact_digest'', JStr (vl_proposal_artifact_digest l)),
      (''provider_result_artifact_digest'', JStr (vl_provider_result_artifact_digest l)),
      (''admitted_review_digest'', JStr (vl_admitted_review_digest l)),
      (''finding_count'', JInt (vl_finding_count l)),
      (''expires_at'', JStr (isoformat (vl_expires l))),
      (''verdict'', opt_str (map_option verification_status_value (vf_verdict f))),
      (''report_artifact_digest'', opt_str (vf_report f)),
      (''matrix_digest'', opt_str (vf_matrix f)), (''failure_code'', opt_str (vf_failure f)),
      (''result_artifact_digest'', opt_str (vf_result f)),
      (''stream_sequence'', JInt (stream_sequence (vs_latest r))),
      (''latest_event_id'', JStr (event_id (vs_latest r))),
      (''latest_event_digest'', JStr (payload_hash (vs_latest r)))])"

definition verification_is_active :: "verification_lifecycle \<Rightarrow> bool" where
  "verification_is_active r = (vs_status r = VerificationClaimed)"

end
