(* ===== verification/VerificationFacts.thy ===== *)
theory VerificationFacts
  imports VerificationLifecycle
begin

text \<open>
  Correctness of the verification fold: its steps as an inductive relation, the invariant, the
  interpretation of \<open>fenced_lifecycle\<close>, and the lease round trip.
\<close>

definition verification_final :: "verification_fold \<Rightarrow> bool" where
  "verification_final s \<longleftrightarrow>
     vf_status s = Some VerificationCompleted \<or> vf_status s = Some VerificationFailed"

definition verification_inv :: "verification_fold \<Rightarrow> bool" where
  "verification_inv s \<longleftrightarrow>
     (vf_lease s = None \<longleftrightarrow> vf_status s = None) \<and> (vf_lease s = None \<longleftrightarrow> vf_baseline s = None)
     \<and> (\<forall>l b. vf_lease s = Some l \<longrightarrow> vf_baseline s = Some b \<longrightarrow>
          verification_immutable l = verification_immutable b)
     \<and> (\<forall>l. vf_lease s = Some l \<longrightarrow> verification_lease_ok l)
     \<and> (vf_status s = Some VerificationCompleted \<longleftrightarrow> vf_verdict s \<noteq> None)
     \<and> (vf_verdict s = None \<longleftrightarrow> vf_report s = None) \<and> (vf_verdict s = None \<longleftrightarrow> vf_matrix s = None)
     \<and> (vf_status s = Some VerificationFailed \<longleftrightarrow> vf_failure s \<noteq> None)"

definition verification_claim_event :: "event \<Rightarrow> bool" where
  "verification_claim_event e = (event_type e = ''verification.claimed'')"

section \<open>Derived identifiers\<close>

lemma review_id_identifier: "review_id r d = Some i \<Longrightarrow> stage_identifier i"
  by (auto simp: review_id_def Let_def bind_eq_Some_conv simp del: append_Cons append_Nil
      split: if_splits intro!: digest_identifier)

lemma verification_id_identifier: "verification_id r d = Some i \<Longrightarrow> stage_identifier i"
  by (auto simp: verification_id_def Let_def bind_eq_Some_conv simp del: append_Cons append_Nil
      split: if_splits intro!: digest_identifier)

section \<open>Steps\<close>

inductive verification_trans :: "verification_fold \<Rightarrow> event \<Rightarrow> verification_fold \<Rightarrow> bool" where
  claim: "\<lbrakk>verification_claim_event e; vf_status s = None \<or> vf_status s = Some VerificationRequeued;
      verification_lease_ok c; vf_lease s = None \<Longrightarrow> causation_id e = Some (vl_review_event_id c);
      vl_attempt c = (case vf_lease s of None \<Rightarrow> 1 | Some l \<Rightarrow> vl_attempt l + 1);
      vl_fence c = (case vf_lease s of None \<Rightarrow> 1 | Some l \<Rightarrow> vl_fence l + 1);
      case vf_baseline s of None \<Rightarrow> True | Some b \<Rightarrow> verification_immutable c = verification_immutable b\<rbrakk>
    \<Longrightarrow> verification_trans s e (verification_init\<lparr>
          vf_baseline := (case vf_baseline s of None \<Rightarrow> Some c | Some b \<Rightarrow> Some b),
          vf_lease := Some c, vf_status := Some VerificationClaimed\<rparr>)"
| complete: "\<lbrakk>\<not> verification_claim_event e; vf_lease s = Some l; vf_status s = Some VerificationClaimed;
      actor e = vl_worker l\<rbrakk>
    \<Longrightarrow> verification_trans s e (s\<lparr>vf_lease := Some l, vf_verdict := Some v, vf_report := Some r,
          vf_matrix := Some m, vf_status := Some VerificationCompleted\<rparr>)"
| fail: "\<lbrakk>\<not> verification_claim_event e; vf_lease s = Some l; vf_status s = Some VerificationClaimed;
      actor e = vl_worker l\<rbrakk>
    \<Longrightarrow> verification_trans s e (s\<lparr>vf_failure := Some f, vf_result := g,
          vf_status := Some VerificationFailed\<rparr>)"
| requeue: "\<lbrakk>\<not> verification_claim_event e; vf_lease s = Some l; vf_status s = Some VerificationClaimed;
      actor e \<noteq> vl_worker l\<rbrakk>
    \<Longrightarrow> verification_trans s e (s\<lparr>vf_status := Some VerificationRequeued\<rparr>)"

inductive_cases verification_transE: "verification_trans s e s'"

lemma verification_host_Some:
  "verification_host p s = Some l \<Longrightarrow> vf_lease s = Some l \<and> vf_status s = Some VerificationClaimed"
  by (auto simp: verification_host_def bind_eq_Some_conv split: if_splits)

lemma verification_active_Some:
  "verification_active p w s = Some l \<Longrightarrow>
     vf_lease s = Some l \<and> vf_status s = Some VerificationClaimed \<and> w = vl_worker l"
  by (auto simp: verification_active_def bind_eq_Some_conv dest: verification_host_Some split: if_splits)

lemma verification_from_mapping_ok:
  "verification_lease_from_mapping fromiso raw = Some l \<Longrightarrow> verification_lease_ok l"
  by (auto simp: verification_lease_from_mapping_def bind_eq_Some_conv Let_def split: if_splits)

lemma on_verification_claimed_trans:
  assumes "on_verification_claimed fromiso run_id e who p s = Some s'" "verification_claim_event e"
  shows "verification_trans s e s'"
proof -
  from assms(1) obtain raw c where c: "vf_status s = None \<or> vf_status s = Some VerificationRequeued"
    "vf_lease s = None \<Longrightarrow> causation_id e = Some (vl_review_event_id c)"
    "vl_attempt c = (case vf_lease s of None \<Rightarrow> 1 | Some l \<Rightarrow> vl_attempt l + 1)"
    "vl_fence c = (case vf_lease s of None \<Rightarrow> 1 | Some l \<Rightarrow> vl_fence l + 1)"
    "case vf_baseline s of None \<Rightarrow> True | Some b \<Rightarrow> verification_immutable c = verification_immutable b"
    and ok: "verification_lease_from_mapping fromiso raw = Some c"
    and s': "s' = verification_init\<lparr>
       vf_baseline := (case vf_baseline s of None \<Rightarrow> Some c | Some b \<Rightarrow> Some b),
       vf_lease := Some c, vf_status := Some VerificationClaimed\<rparr>"
    unfolding on_verification_claimed_def by (auto simp: bind_eq_Some_conv split: if_splits)
  show ?thesis unfolding s'
    by (rule verification_trans.claim[OF assms(2) c(1) verification_from_mapping_ok[OF ok] c(2-5)])
qed

lemma on_verification_completed_trans:
  assumes "on_verification_completed who p s = Some s'" "who = actor e" "\<not> verification_claim_event e"
  shows "verification_trans s e s'"
proof -
  from assms(1) obtain l v r m where l: "verification_active p who s = Some l"
    and s': "s' = s\<lparr>vf_lease := Some l, vf_verdict := Some v, vf_report := Some r,
       vf_matrix := Some m, vf_status := Some VerificationCompleted\<rparr>"
    unfolding on_verification_completed_def by (auto simp: bind_eq_Some_conv split: if_splits)
  show ?thesis unfolding s'
    by (rule verification_trans.complete[OF assms(3)])
      (use verification_active_Some[OF l] assms(2) in auto)
qed

lemma on_verification_failed_trans:
  assumes "on_verification_failed who p s = Some s'" "who = actor e" "\<not> verification_claim_event e"
  shows "verification_trans s e s'"
proof -
  from assms(1) obtain l f g where l: "verification_active p who s = Some l"
    and s': "s' = s\<lparr>vf_failure := Some f, vf_result := g, vf_status := Some VerificationFailed\<rparr>"
    unfolding on_verification_failed_def by (auto simp: bind_eq_Some_conv split: if_splits)
  show ?thesis unfolding s'
    by (rule verification_trans.fail[OF assms(3)])
      (use verification_active_Some[OF l] assms(2) in auto)
qed

lemma on_verification_requeued_trans:
  assumes "on_verification_requeued who p s = Some s'" "who = actor e" "\<not> verification_claim_event e"
  shows "verification_trans s e s'"
proof -
  from assms(1) obtain l where l: "verification_host p s = Some l" "who \<noteq> vl_worker l"
    and s': "s' = s\<lparr>vf_status := Some VerificationRequeued\<rparr>"
    unfolding on_verification_requeued_def by (auto simp: bind_eq_Some_conv split: if_splits)
  show ?thesis unfolding s'
    by (rule verification_trans.requeue[OF assms(3)])
      (use verification_host_Some[OF l(1)] l(2) assms(2) in auto)
qed

lemma stage_principal_actor: "stage_principal p e = Some w \<Longrightarrow> w = actor e"
  by (auto simp: stage_principal_def bind_eq_Some_conv split: if_splits)

lemma verification_step_trans:
  assumes "verification_step fromiso run_id s e = Some s'"
  shows "verification_trans s e s'"
proof -
  from assms obtain w where who: "stage_principal (payload e) e = Some w"
    and w: "(if event_type e = ''verification.claimed''
      then on_verification_claimed fromiso run_id e w (payload e) s
      else if event_type e = ''verification.completed'' then on_verification_completed w (payload e) s
      else if event_type e = ''verification.failed'' then on_verification_failed w (payload e) s
      else if event_type e = ''verification.requeued'' then on_verification_requeued w (payload e) s
      else None) = Some s'"
    unfolding verification_step_def Let_def by (auto simp: bind_eq_Some_conv)
  note a = stage_principal_actor[OF who]
  show ?thesis
  proof (cases "verification_claim_event e")
    case True
    with w show ?thesis
      by (auto simp: verification_claim_event_def intro: on_verification_claimed_trans True)
  next
    case False
    with w show ?thesis
      by (auto simp: verification_claim_event_def split: if_splits
          intro: on_verification_completed_trans[OF _ a False]
            on_verification_failed_trans[OF _ a False] on_verification_requeued_trans[OF _ a False])
  qed
qed

section \<open>The invariant\<close>

lemma verification_trans_inv:
  "verification_trans s e s' \<Longrightarrow> verification_inv s \<Longrightarrow> verification_inv s'"
  by (elim verification_transE)
    (auto simp: verification_inv_def verification_init_def split: option.splits)

lemma verification_trans_final: "verification_trans s e s' \<Longrightarrow> \<not> verification_final s"
  by (elim verification_transE) (auto simp: verification_final_def)

lemma verification_trans_claim:
  assumes "verification_trans s e s'" "verification_claim_event e" "verification_inv s"
  shows "\<exists>l'. vf_lease s' = Some l'
    \<and> vl_attempt l' = (case vf_lease s of None \<Rightarrow> 1 | Some l \<Rightarrow> vl_attempt l + 1)
    \<and> vl_fence l' = (case vf_lease s of None \<Rightarrow> 1 | Some l \<Rightarrow> vl_fence l + 1)
    \<and> (\<forall>l. vf_lease s = Some l \<longrightarrow> verification_immutable l' = verification_immutable l)"
  using assms
  by (elim verification_transE) (auto simp: verification_inv_def split: option.splits)

lemma verification_trans_other:
  assumes "verification_trans s e s'" "\<not> verification_claim_event e"
  shows "\<exists>l l'. vf_lease s = Some l \<and> vf_lease s' = Some l' \<and> vl_attempt l' = vl_attempt l
    \<and> vl_fence l' = vl_fence l \<and> verification_immutable l' = verification_immutable l"
  using assms by (elim verification_transE) auto

interpretation verification_fenced: fenced_lifecycle "verification_step fromiso run_id"
  verification_init verification_inv vf_lease vl_attempt vl_fence verification_immutable
  verification_claim_event verification_final
  for fromiso run_id
proof
  show "verification_inv verification_init" "vf_lease verification_init = None"
    by (simp_all add: verification_inv_def verification_init_def)
  fix s e s'
  assume inv: "verification_inv s" and step: "verification_step fromiso run_id s e = Some s'"
  note tr = verification_step_trans[OF step]
  show "verification_inv s'" using verification_trans_inv[OF tr inv] .
  show "verification_claim_event e \<Longrightarrow> \<exists>l'. vf_lease s' = Some l'
    \<and> vl_attempt l' = (case vf_lease s of None \<Rightarrow> 1 | Some l \<Rightarrow> vl_attempt l + 1)
    \<and> vl_fence l' = (case vf_lease s of None \<Rightarrow> 1 | Some l \<Rightarrow> vl_fence l + 1)
    \<and> (\<forall>l. vf_lease s = Some l \<longrightarrow> verification_immutable l' = verification_immutable l)"
    using verification_trans_claim[OF tr _ inv] .
  show "\<not> verification_claim_event e \<Longrightarrow> \<exists>l l'. vf_lease s = Some l \<and> vf_lease s' = Some l'
    \<and> vl_attempt l' = vl_attempt l \<and> vl_fence l' = vl_fence l
    \<and> verification_immutable l' = verification_immutable l"
    using verification_trans_other[OF tr] .
next
  fix s e
  assume "verification_final s"
  then show "verification_step fromiso run_id s e = None"
    using verification_step_trans verification_trans_final
    by (cases "verification_step fromiso run_id s e") blast+
qed

lemma fold_verification_Some:
  assumes "fold_verification_lifecycle fromiso run_id events = Some r"
  shows "ofold (verification_step fromiso run_id) verification_init events = Some (vs_fold r)"
    "vf_status (vs_fold r) = Some (vs_status r)" "vf_lease (vs_fold r) = Some (vs_lease r)"
    "events \<noteq> []" "verification_inv (vs_fold r)"
    "vs_verification_id r = vl_verification_id (vs_lease r)" "vs_run_id r = run_id"
proof -
  show steps: "ofold (verification_step fromiso run_id) verification_init events = Some (vs_fold r)"
    using assms by (auto simp: fold_verification_lifecycle_def bind_eq_Some_conv split: if_splits)
  show "vf_status (vs_fold r) = Some (vs_status r)" "vf_lease (vs_fold r) = Some (vs_lease r)"
    "events \<noteq> []" "vs_verification_id r = vl_verification_id (vs_lease r)" "vs_run_id r = run_id"
    using assms
    by (auto simp: fold_verification_lifecycle_def bind_eq_Some_conv stage_stream_ok_def
        split: if_splits)
  show "verification_inv (vs_fold r)"
    using verification_fenced.fold_inv[OF steps] verification_fenced.inv_init by blast
qed

text \<open>The first event of an accepted history is a claim of this run, caused by the review's event.\<close>

lemma verification_first_event:
  assumes "ofold (verification_step fromiso run_id) verification_init events = Some s" "events \<noteq> []"
    and "vf_lease s = Some l"
  shows "verification_claim_event (hd events)" "causation_id (hd events) = Some (vl_review_event_id l)"
    "vl_run_id l = run_id"
proof -
  obtain e es where es: "events = e # es" using assms(2) by (cases events) auto
  with assms(1) obtain u where u: "verification_step fromiso run_id verification_init e = Some u"
    "ofold (verification_step fromiso run_id) u es = Some s" by (auto simp: bind_eq_Some_conv)
  have tr: "verification_trans verification_init e u" using u(1) by (rule verification_step_trans)
  then have claim: "verification_claim_event e"
    by (elim verification_transE) (auto simp: verification_init_def)
  with u(1) obtain w where "on_verification_claimed fromiso run_id e w (payload e) verification_init = Some u"
    by (auto simp: verification_step_def verification_claim_event_def Let_def bind_eq_Some_conv)
  then obtain c where c: "vf_lease u = Some c" "vl_run_id c = run_id"
    "causation_id e = Some (vl_review_event_id c)"
    by (auto simp: on_verification_claimed_def verification_init_def bind_eq_Some_conv split: if_splits)
  have e: "ofold (verification_step fromiso run_id) verification_init [e] = Some u" using u(1) by simp
  from verification_fenced.identity_kept[OF e c(1) u(2) assms(3)]
  have "verification_immutable l = verification_immutable c" by blast
  then have same: "vl_review_event_id l = vl_review_event_id c" "vl_run_id l = vl_run_id c"
    by (simp_all add: verification_immutable_def)
  show "verification_claim_event (hd events)" using claim es by simp
  show "causation_id (hd events) = Some (vl_review_event_id l)" using c es same by simp
  show "vl_run_id l = run_id" using c same by simp
qed

lemma verification_lease_payload_fields [simp]:
  "jget (verification_lease_payload l) ''schema_version'' = JStr (vl_schema l)"
  "jget (verification_lease_payload l) ''run_id'' = JStr (vl_run_id l)"
  "jget (verification_lease_payload l) ''verification_id'' = JStr (vl_verification_id l)"
  "jget (verification_lease_payload l) ''attempt'' = JInt (vl_attempt l)"
  "jget (verification_lease_payload l) ''fencing_token'' = JInt (vl_fence l)"
  "jget (verification_lease_payload l) ''worker_id'' = JStr (vl_worker l)"
  "jget (verification_lease_payload l) ''run_event_id'' = JStr (vl_run_event_id l)"
  "jget (verification_lease_payload l) ''run_event_digest'' = JStr (vl_run_event_digest l)"
  "jget (verification_lease_payload l) ''state_digest'' = JStr (vl_state_digest l)"
  "jget (verification_lease_payload l) ''artifact_evidence_digest'' = JStr (vl_artifact_evidence_digest l)"
  "jget (verification_lease_payload l) ''review_id'' = JStr (vl_review_id l)"
  "jget (verification_lease_payload l) ''review_event_id'' = JStr (vl_review_event_id l)"
  "jget (verification_lease_payload l) ''review_event_digest'' = JStr (vl_review_event_digest l)"
  "jget (verification_lease_payload l) ''acceptance_digest'' = JStr (vl_acceptance_digest l)"
  "jget (verification_lease_payload l) ''context_digest'' = JStr (vl_context_digest l)"
  "jget (verification_lease_payload l) ''proposal_artifact_digest'' = JStr (vl_proposal_artifact_digest l)"
  "jget (verification_lease_payload l) ''provider_result_artifact_digest'' = JStr (vl_provider_result_artifact_digest l)"
  "jget (verification_lease_payload l) ''admitted_review_digest'' = JStr (vl_admitted_review_digest l)"
  "jget (verification_lease_payload l) ''finding_count'' = JInt (vl_finding_count l)"
  "jget (verification_lease_payload l) ''expires_at'' = JStr (isoformat (vl_expires l))"
  by (simp_all add: verification_lease_payload_def jget_def)

lemma verification_lease_payload_keys:
  "keys_are (verification_lease_payload l) [''schema_version'', ''run_id'', ''verification_id'',
     ''attempt'', ''fencing_token'', ''worker_id'', ''run_event_id'', ''run_event_digest'',
     ''state_digest'', ''artifact_evidence_digest'', ''review_id'', ''review_event_id'',
     ''review_event_digest'', ''acceptance_digest'', ''context_digest'',
     ''proposal_artifact_digest'', ''provider_result_artifact_digest'', ''admitted_review_digest'',
     ''finding_count'', ''expires_at'']"
  by (simp add: keys_are_def verification_lease_payload_def)

lemma verification_lease_roundtrip:
  assumes ok: "verification_lease_ok l" and parse: "fromiso (isoformat (vl_expires l)) = Some (vl_expires l)"
  shows "verification_lease_from_mapping fromiso (verification_lease_payload l) = Some l"
proof -
  have eta: "l\<lparr>vl_schema := VERIFICATION_LEASE_SCHEMA\<rparr> = l"
    using ok by (cases l) (simp add: verification_lease_ok_def)
  have "stage_expiry fromiso (JStr (isoformat (vl_expires l))) = Some (vl_expires l)"
    by (simp add: stage_expiry_def string_where_def parse)
  with ok eta show ?thesis
    by (cases l) (simp add: verification_lease_from_mapping_def verification_lease_payload_keys Let_def
        verification_lease_ok_def verification_candidate_ok_def verification_lease_candidate_def)
qed

end
