(* ===== verification/VerificationProps.thy ===== *)
theory VerificationProps
  imports VerificationFacts ReviewProps
begin

text \<open>The properties of the verification lifecycle, with one concrete completed verification.\<close>

section \<open>A concrete verification\<close>

definition sample_review_id :: string where
  "sample_review_id = the (review_id ''r'' some_digest)"

definition sample_verification_id :: string where
  "sample_verification_id = the (verification_id ''r'' some_digest)"

lemma sample_ids:
  "review_id ''r'' some_digest = Some sample_review_id"
  "verification_id ''r'' some_digest = Some sample_verification_id"
  by (simp_all add: sample_review_id_def sample_verification_id_def review_id_def verification_id_def
      Let_def)

lemma sample_ids_ok [simp]: "stage_identifier sample_review_id" "stage_identifier sample_verification_id"
  using sample_ids by (blast intro: review_id_identifier verification_id_identifier)+

definition sample_verification_lease :: verification_lease where
  "sample_verification_lease = \<lparr>vl_run_id = ''r'', vl_verification_id = sample_verification_id,
     vl_attempt = 1, vl_fence = 1, vl_worker = ''w'', vl_run_event_id = ''0'',
     vl_run_event_digest = some_digest, vl_state_digest = some_digest,
     vl_artifact_evidence_digest = some_digest, vl_review_id = sample_review_id,
     vl_review_event_id = ''0'', vl_review_event_digest = some_digest,
     vl_acceptance_digest = some_digest, vl_context_digest = some_digest,
     vl_proposal_artifact_digest = some_digest, vl_provider_result_artifact_digest = some_digest,
     vl_admitted_review_digest = some_digest, vl_finding_count = 2, vl_expires = utc 100,
     vl_schema = VERIFICATION_LEASE_SCHEMA\<rparr>"

lemma lease_validation_identifier [simp]: "stage_identifier ''lease-validation''"
  by (simp add: stage_identifier_def re_ident_def is_alnum_def is_digit_def is_upper_def
      is_lower_def code_def)

lemma sample_verification_lease_ok: "verification_lease_ok sample_verification_lease"
  by (simp add: verification_lease_ok_def verification_candidate_ok_def
      verification_lease_candidate_def sample_verification_lease_def sample_ids aware_def utc_def)

definition sample_verification_ref :: string where
  "sample_verification_ref = verification_lease_digest sample_verification_lease"

lemma sample_verification_values [simp]:
  "vl_run_id sample_verification_lease = ''r''"
  "vl_verification_id sample_verification_lease = sample_verification_id"
  "vl_attempt sample_verification_lease = 1" "vl_fence sample_verification_lease = 1"
  "vl_worker sample_verification_lease = ''w''" "vl_review_event_id sample_verification_lease = ''0''"
  "vl_expires sample_verification_lease = utc 100"
  "verification_lease_digest sample_verification_lease = sample_verification_ref"
  by (simp_all add: sample_verification_lease_def sample_verification_ref_def)

definition verification_history :: "event list" where
  "verification_history =
     [stage_event ''verification:r'' ''1'' ''0'' 1 ''verification.claimed'' ''w''
        [(''principal_id'', JStr ''w''), (''lease_digest'', JStr sample_verification_ref),
         (''lease'', JObj (verification_lease_payload sample_verification_lease)),
         (''status'', JStr ''claimed'')],
      stage_event ''verification:r'' ''2'' ''1'' 200 ''verification.completed'' ''w''
        [(''principal_id'', JStr ''w''), (''run_id'', JStr ''r''),
         (''verification_id'', JStr sample_verification_id),
         (''lease_digest'', JStr sample_verification_ref), (''verdict'', JStr ''fail''),
         (''report_artifact_digest'', JStr some_digest), (''matrix_digest'', JStr some_digest),
         (''status'', JStr ''completed'')]\<lparr>stream_sequence := 2\<rparr>]"

definition verification_claimed_state :: verification_fold where
  "verification_claimed_state = verification_init\<lparr>vf_baseline := Some sample_verification_lease,
     vf_lease := Some sample_verification_lease, vf_status := Some VerificationClaimed\<rparr>"

definition verification_completed_state :: verification_fold where
  "verification_completed_state = verification_claimed_state\<lparr>vf_verdict := Some VFail,
     vf_report := Some some_digest, vf_matrix := Some some_digest,
     vf_status := Some VerificationCompleted\<rparr>"

lemma sample_verification_parse:
  "verification_lease_from_mapping stage_parse (verification_lease_payload sample_verification_lease)
   = Some sample_verification_lease"
  by (rule verification_lease_roundtrip[OF sample_verification_lease_ok]) (simp add: stage_parse_def)

lemma verification_history_steps:
  "ofold (verification_step stage_parse ''r'') verification_init verification_history
   = Some verification_completed_state"
proof -
  have claim: "verification_step stage_parse ''r'' verification_init (verification_history ! 0)
      = Some verification_claimed_state"
    by (simp add: verification_history_def verification_step_def Let_def stage_principal_def
        on_verification_claimed_def keys_are_def jget_def[of "(_, _) # _"] as_obj_def
        sample_verification_parse verification_init_def verification_claimed_state_def utc_def
        insert_commute)
  have complete: "verification_step stage_parse ''r'' verification_claimed_state (verification_history ! 1)
      = Some verification_completed_state"
    by (simp add: verification_history_def verification_step_def Let_def stage_principal_def
        on_verification_completed_def keys_are_def jget_def[of "(_, _) # _"] verification_active_def
        verification_host_def verification_claimed_state_def verification_init_def string_where_def
        verification_status_of_def verification_completed_state_def insert_commute)
  have "verification_history = [verification_history ! 0, verification_history ! 1]"
    by (simp add: verification_history_def)
  then show ?thesis using claim complete by (metis bind.bind_lunit ofold.simps)
qed

lemma verification_history_fold:
  "fold_verification_lifecycle stage_parse ''r'' verification_history
   = Some \<lparr>vs_run_id = ''r'', vs_verification_id = sample_verification_id,
       vs_status = VerificationCompleted, vs_lease = sample_verification_lease,
       vs_fold = verification_completed_state, vs_latest = last verification_history\<rparr>"
proof -
  have "stage_stream_ok ''verification:r'' VERIFICATION_EVENT_TYPES verification_history"
    by (simp add: stage_stream_ok_def verification_history_def VERIFICATION_EVENT_TYPES_def)
  moreover have "verification_stream ''r'' = Some ''verification:r''"
    by (simp add: verification_stream_def)
  ultimately show ?thesis
    by (simp add: fold_verification_lifecycle_def verification_history_steps)
      (simp add: verification_completed_state_def verification_claimed_state_def)
qed

section \<open>Properties\<close>

text \<open>
  A verification claim is fenced: after any accepted history, attempt and fencing token of the
  lease in force both equal the number of claims so far.
\<close>

theorem verification_claims_fenced:
  assumes "fold_verification_lifecycle fromiso run_id events = Some r"
  shows "vl_attempt (vs_lease r) = int (length (filter verification_claim_event events))
    \<and> vl_fence (vs_lease r) = int (length (filter verification_claim_event events))"
  using verification_fenced.accepted_attempts[OF fold_verification_Some(1)[OF assms]
      fold_verification_Some(4)[OF assms]] fold_verification_Some(3)[OF assms]
  by (simp add: verification_fenced.claims_def)

theorem verification_claims_fenced_witness:
  "\<exists>r. fold_verification_lifecycle stage_parse ''r'' verification_history = Some r
    \<and> vl_attempt (vs_lease r) = 1 \<and> vl_fence (vs_lease r) = 1"
  using verification_claims_fenced[OF verification_history_fold] verification_history_fold
  by (simp add: verification_history_def verification_claim_event_def)

text \<open>
  C22: A verification is bound to one admitted review of its own run: its history opens with a claim
  caused by the review's event, and the identifiers of the verification and of the review it judges
  are the ones derived from this run and the two recorded event digests, so a lease for another run
  or another review is never in force. A verdict, its report and its matrix are on record exactly
  when the verification completed, and a failure code exactly when it failed.
\<close>

theorem verification_bound_to_review:
  assumes "fold_verification_lifecycle fromiso run_id events = Some r"
  shows "verification_claim_event (hd events)
    \<and> causation_id (hd events) = Some (vl_review_event_id (vs_lease r))
    \<and> vl_run_id (vs_lease r) = run_id
    \<and> verification_id run_id (vl_review_event_digest (vs_lease r)) = Some (vs_verification_id r)
    \<and> review_id run_id (vl_run_event_digest (vs_lease r)) = Some (vl_review_id (vs_lease r))
    \<and> (vf_verdict (vs_fold r) \<noteq> None \<longleftrightarrow> vs_status r = VerificationCompleted)
    \<and> (vf_report (vs_fold r) \<noteq> None \<longleftrightarrow> vs_status r = VerificationCompleted)
    \<and> (vf_matrix (vs_fold r) \<noteq> None \<longleftrightarrow> vs_status r = VerificationCompleted)
    \<and> (vf_failure (vs_fold r) \<noteq> None \<longleftrightarrow> vs_status r = VerificationFailed)"
proof -
  note r = fold_verification_Some[OF assms]
  note first = verification_first_event[OF r(1,4,3)]
  have ok: "verification_lease_ok (vs_lease r)"
    using r(3,5) by (auto simp: verification_inv_def)
  have "verification_id run_id (vl_review_event_digest (vs_lease r)) = Some (vs_verification_id r)
    \<and> review_id run_id (vl_run_event_digest (vs_lease r)) = Some (vl_review_id (vs_lease r))"
    using ok first(3) r(6)
    by (simp add: verification_lease_ok_def verification_candidate_ok_def verification_lease_candidate_def)
  moreover have "(vf_verdict (vs_fold r) \<noteq> None \<longleftrightarrow> vs_status r = VerificationCompleted)
    \<and> (vf_report (vs_fold r) \<noteq> None \<longleftrightarrow> vs_status r = VerificationCompleted)
    \<and> (vf_matrix (vs_fold r) \<noteq> None \<longleftrightarrow> vs_status r = VerificationCompleted)
    \<and> (vf_failure (vs_fold r) \<noteq> None \<longleftrightarrow> vs_status r = VerificationFailed)"
    using r(2,5) unfolding verification_inv_def by (metis option.inject)
  ultimately show ?thesis using first by blast
qed

theorem verification_bound_to_review_witness:
  "\<exists>r. fold_verification_lifecycle stage_parse ''r'' verification_history = Some r
    \<and> causation_id (hd verification_history) = Some ''0''
    \<and> verification_id ''r'' some_digest = Some (vs_verification_id r)"
  using verification_bound_to_review[OF verification_history_fold] verification_history_fold
  by (simp add: sample_verification_lease_def)

text \<open>
  A completed or failed verification is the end: no later event is accepted, so a worker whose
  lease was requeued cannot add a second verdict. However an accepted history continues, the bound
  work stays the same and the fencing token never falls.
\<close>

theorem verification_history_forward:
  assumes "fold_verification_lifecycle fromiso run_id events = Some r"
    and "fold_verification_lifecycle fromiso run_id (events @ later) = Some r'"
  shows "verification_immutable (vs_lease r') = verification_immutable (vs_lease r)
    \<and> vl_fence (vs_lease r) \<le> vl_fence (vs_lease r')
    \<and> (vs_status r \<in> {VerificationCompleted, VerificationFailed} \<longrightarrow> later = [])"
proof -
  note a = fold_verification_Some[OF assms(1)] and b = fold_verification_Some[OF assms(2)]
  have later: "ofold (verification_step fromiso run_id) (vs_fold r) later = Some (vs_fold r')"
    using b(1) a(1) by (simp add: ofold_append)
  have "vs_status r \<in> {VerificationCompleted, VerificationFailed} \<Longrightarrow> later = []"
    using verification_fenced.final_nothing_follows[OF a(1) _ b(1)] a(2)
    by (auto simp: verification_final_def)
  with verification_fenced.identity_kept[OF a(1,3) later b(3)] show ?thesis by blast
qed

theorem verification_history_forward_witness:
  "\<forall>e. fold_verification_lifecycle stage_parse ''r'' (verification_history @ [e]) = None"
proof
  fix e
  show "fold_verification_lifecycle stage_parse ''r'' (verification_history @ [e]) = None"
  proof (cases "fold_verification_lifecycle stage_parse ''r'' (verification_history @ [e])")
    case (Some r')
    from verification_history_forward[OF verification_history_fold Some] show ?thesis by simp
  qed simp
qed

text \<open>
  A verification lease survives its canonical payload: parsing the mapping a valid lease is
  recorded as gives that lease back, for every parser that reads the rendered expiry back.
\<close>

theorem verification_lease_payload_roundtrip:
  assumes "verification_lease_ok l" "fromiso (isoformat (vl_expires l)) = Some (vl_expires l)"
  shows "verification_lease_from_mapping fromiso (verification_lease_payload l) = Some l"
  using assms by (rule verification_lease_roundtrip)

theorem verification_lease_payload_roundtrip_witness:
  "verification_lease_from_mapping stage_parse (verification_lease_payload sample_verification_lease)
   = Some sample_verification_lease"
  by (rule verification_lease_payload_roundtrip[OF sample_verification_lease_ok])
    (simp add: stage_parse_def)

end
