(* ===== verification/Schema.thy ===== *)
theory Schema
  imports Json
begin

text \<open>
  \<open>gateway/schema.py\<close>: validation of a model's output against a closed JSON schema subset.
  Every failure raises the one \<open>OutputSchemaError\<close>, so a check is a boolean; the path in the
  message is dropped.
\<close>

section \<open>Numbers and equality\<close>

text \<open>\<open>_as_number\<close>: a boolean is not a number; a frozen float is finite.\<close>

definition as_number :: "json \<Rightarrow> rat option" where
  "as_number v = (case v of JInt i \<Rightarrow> Some (of_int i) | JFloat q _ \<Rightarrow> Some q | _ \<Rightarrow> None)"

text \<open>\<open>_json_equal\<close>.\<close>

fun json_equal :: "json \<Rightarrow> json \<Rightarrow> bool" where
  "json_equal JNull w = (w = JNull)"
| "json_equal (JBool b) w = (w = JBool b)"
| "json_equal (JInt i) w = (as_number w = Some (of_int i))"
| "json_equal (JFloat q r) w = (as_number w = Some q)"
| "json_equal (JStr s) w = (w = JStr s)"
| "json_equal (JArr xs) w = (case w of JArr ys \<Rightarrow> list_all2 json_equal xs ys | _ \<Rightarrow> False)"
| "json_equal (JObj xs) w =
     (case w of JObj ys \<Rightarrow> set (map fst xs) = set (map fst ys)
        \<and> list_all (\<lambda>kx. case map_of ys (fst kx) of None \<Rightarrow> False | Some y \<Rightarrow> json_equal (snd kx) y) xs
      | _ \<Rightarrow> False)"

fun has_equal_pair :: "json list \<Rightarrow> bool" where
  "has_equal_pair [] = False"
| "has_equal_pair (x # xs) = (list_ex (json_equal x) xs \<or> has_equal_pair xs)"

section \<open>Admissible schemas\<close>

definition TYPE_NAMES :: "string list" where
  "TYPE_NAMES = [''null'', ''boolean'', ''integer'', ''number'', ''string'', ''array'', ''object'']"

definition SUPPORTED_KEYWORDS :: "string list" where
  "SUPPORTED_KEYWORDS = [''type'', ''const'', ''enum'', ''properties'', ''required'',
     ''additionalProperties'', ''items'', ''maxItems'', ''uniqueItems'', ''minimum'', ''maximum'',
     ''exclusiveMinimum'', ''exclusiveMaximum'', ''minLength'', ''maxLength'']"

definition ROOT_METADATA_KEYWORDS :: "string list" where
  "ROOT_METADATA_KEYWORDS = [''$schema'']"

text \<open>\<open>_declared_types\<close>: the outer option is the error, the inner one a missing declaration.\<close>

definition declared_types :: "jobject \<Rightarrow> string list option option" where
  "declared_types s = (case map_of s ''type'' of None \<Rightarrow> Some None
     | Some d \<Rightarrow> do {
         names \<leftarrow> (case d of JStr t \<Rightarrow> Some [t]
                   | JArr xs \<Rightarrow> if xs = [] then None else traverse as_str xs | _ \<Rightarrow> None);
         ensure (set names \<subseteq> set TYPE_NAMES);
         ensure (distinct names);
         Some (Some names) })"

text \<open>A keyword that may be absent: \<open>if k in schema: check(schema[k])\<close>.\<close>

definition when_key :: "jobject \<Rightarrow> string \<Rightarrow> (json \<Rightarrow> bool) \<Rightarrow> bool" where
  "when_key s k P = (case map_of s k of None \<Rightarrow> True | Some v \<Rightarrow> P v)"

definition is_string_array :: "json \<Rightarrow> bool" where
  "is_string_array v = (case v of JArr xs \<Rightarrow>
     (case traverse as_str xs of None \<Rightarrow> False | Some names \<Rightarrow> distinct names) | _ \<Rightarrow> False)"

definition is_length :: "json \<Rightarrow> bool" where
  "is_length v = (case v of JInt i \<Rightarrow> 0 \<le> i | _ \<Rightarrow> False)"

definition ordered_bounds :: "(rat \<Rightarrow> rat \<Rightarrow> bool) \<Rightarrow> jobject \<Rightarrow> string \<Rightarrow> string \<Rightarrow> bool" where
  "ordered_bounds le s lower upper = (case (as_number (jget s lower), as_number (jget s upper)) of
     (Some a, Some b) \<Rightarrow> le a b | _ \<Rightarrow> True)"

text \<open>The checks of \<open>_validate_schema\<close> that look at one schema object only.\<close>

definition keywords_ok :: "bool \<Rightarrow> jobject \<Rightarrow> bool" where
  "keywords_ok root_schema s \<longleftrightarrow>
     set (map fst s) \<subseteq>
       set SUPPORTED_KEYWORDS \<union> (if root_schema then set ROOT_METADATA_KEYWORDS else {})
     \<and> declared_types s \<noteq> None
     \<and> when_key s ''enum''
         (\<lambda>v. case v of JArr xs \<Rightarrow> xs \<noteq> [] \<and> \<not> has_equal_pair xs | _ \<Rightarrow> False)
     \<and> when_key s ''$schema'' (\<lambda>v. as_str v \<noteq> None)
     \<and> when_key s ''required'' is_string_array
     \<and> when_key s ''additionalProperties'' (\<lambda>v. as_bool v \<noteq> None)
     \<and> when_key s ''maxItems'' is_length
     \<and> when_key s ''uniqueItems'' (\<lambda>v. as_bool v \<noteq> None)
     \<and> list_all (\<lambda>k. when_key s k (\<lambda>v. as_number v \<noteq> None))
         [''minimum'', ''maximum'', ''exclusiveMinimum'', ''exclusiveMaximum'']
     \<and> list_all (\<lambda>k. when_key s k is_length) [''minLength'', ''maxLength'']
     \<and> ordered_bounds (\<le>) s ''minimum'' ''maximum''
     \<and> ordered_bounds (<) s ''exclusiveMinimum'' ''exclusiveMaximum''
     \<and> ordered_bounds (\<le>) s ''minLength'' ''maxLength''"

lemma map_of_size: "map_of s k = Some v \<Longrightarrow> size v < size (JObj s)"
proof -
  assume "map_of s k = Some v"
  then have "(k, v) \<in> set s" by (rule map_of_SomeD)
  then show ?thesis by (induction s) auto
qed

lemma snd_size: "kv \<in> set s \<Longrightarrow> size (snd kv) < size (JObj s)"
  by (induction s) auto

lemma element_size: "x \<in> set xs \<Longrightarrow> size x < size (JArr xs)"
  by (induction xs) auto

lemma list_all_schema_cong [fundef_cong]:
  assumes "xs = ys" "\<And>x. x \<in> set ys \<Longrightarrow> P x = Q x"
  shows "list_all P xs = list_all Q ys"
  using assms by (rule list.pred_cong)

text \<open>\<open>_validate_schema\<close>: the object itself and, recursively, its properties and items.\<close>

function schema_ok :: "bool \<Rightarrow> jobject \<Rightarrow> bool" where
  "schema_ok root_schema s \<longleftrightarrow> keywords_ok root_schema s
     \<and> (case map_of s ''properties'' of None \<Rightarrow> True
        | Some (JObj ps) \<Rightarrow>
            list_all (\<lambda>np. case snd np of JObj q \<Rightarrow> schema_ok False q | _ \<Rightarrow> False) ps
        | Some _ \<Rightarrow> False)
     \<and> (case map_of s ''items'' of None \<Rightarrow> True
        | Some (JObj q) \<Rightarrow> schema_ok False q | Some _ \<Rightarrow> False)"
  by pat_completeness auto
termination
proof (relation "measure (\<lambda>(r, s). size (JObj s))", goal_cases)
  case 1
  show ?case by simp
next
  case (2 r s v ps np q)
  have "size (JObj q) < size (JObj ps)" using snd_size[OF 2(3)] 2(4) by simp
  also have "size (JObj ps) < size (JObj s)" using map_of_size[of s _ "JObj ps"] 2(1,2) by simp
  finally show ?case by simp
next
  case (3 r s v q)
  then show ?case using map_of_size[of s _ "JObj q"] by simp
qed

declare schema_ok.simps [simp del]

section \<open>Validation\<close>

fun matches_type :: "json \<Rightarrow> string \<Rightarrow> bool" where
  "matches_type v t =
     (if t = ''null'' then v = JNull
      else if t = ''boolean'' then as_bool v \<noteq> None
      else if t = ''integer'' then as_int v \<noteq> None
      else if t = ''number'' then as_number v \<noteq> None
      else if t = ''string'' then as_str v \<noteq> None
      else if t = ''array'' then as_arr v \<noteq> None
      else t = ''object'' \<and> as_obj v \<noteq> None)"

declare matches_type.simps [simp del]

text \<open>The checks of \<open>_validate_value\<close> before it looks at the value's kind.\<close>

definition value_ok :: "json \<Rightarrow> jobject \<Rightarrow> bool" where
  "value_ok v s \<longleftrightarrow>
     (case declared_types s of None \<Rightarrow> False | Some None \<Rightarrow> True
      | Some (Some names) \<Rightarrow> list_ex (matches_type v) names)
     \<and> when_key s ''const'' (json_equal v)
     \<and> when_key s ''enum'' (\<lambda>e. case e of JArr xs \<Rightarrow> list_ex (json_equal v) xs | _ \<Rightarrow> False)"

text \<open>\<open>schema.get("properties", {})\<close>, \<open>schema.get("required", ())\<close>.\<close>

definition schema_properties :: "jobject \<Rightarrow> jobject option" where
  "schema_properties s = (case map_of s ''properties'' of None \<Rightarrow> Some [] | Some v \<Rightarrow> as_obj v)"

definition schema_required :: "jobject \<Rightarrow> string list option" where
  "schema_required s = (case map_of s ''required'' of None \<Rightarrow> Some []
     | Some v \<Rightarrow> map_option (List.map_filter as_str) (as_arr v))"

definition object_ok :: "jobject \<Rightarrow> jobject \<Rightarrow> bool" where
  "object_ok kvs s = (case (schema_required s, schema_properties s) of
     (Some required, Some props) \<Rightarrow> set required \<subseteq> set (map fst kvs)
       \<and> (jget s ''additionalProperties'' = JBool False \<longrightarrow>
            set (map fst kvs) \<subseteq> set (map fst props))
   | _ \<Rightarrow> False)"

text \<open>\<open>isinstance(v, int)\<close>, which a boolean satisfies too.\<close>

definition py_int :: "json \<Rightarrow> int option" where
  "py_int v = (case v of JInt i \<Rightarrow> Some i | JBool b \<Rightarrow> Some (if b then 1 else 0) | _ \<Rightarrow> None)"

definition array_ok :: "json list \<Rightarrow> jobject \<Rightarrow> bool" where
  "array_ok xs s \<longleftrightarrow>
     (case py_int (jget s ''maxItems'') of None \<Rightarrow> True | Some m \<Rightarrow> int (length xs) \<le> m)
     \<and> (jget s ''uniqueItems'' = JBool True \<longrightarrow> \<not> has_equal_pair xs)"

definition number_ok :: "rat \<Rightarrow> jobject \<Rightarrow> bool" where
  "number_ok n s \<longleftrightarrow>
     (case as_number (jget s ''minimum'') of None \<Rightarrow> True | Some m \<Rightarrow> m \<le> n)
     \<and> (case as_number (jget s ''maximum'') of None \<Rightarrow> True | Some m \<Rightarrow> n \<le> m)
     \<and> (case as_number (jget s ''exclusiveMinimum'') of None \<Rightarrow> True | Some m \<Rightarrow> m < n)
     \<and> (case as_number (jget s ''exclusiveMaximum'') of None \<Rightarrow> True | Some m \<Rightarrow> n < m)"

definition string_ok :: "string \<Rightarrow> jobject \<Rightarrow> bool" where
  "string_ok t s \<longleftrightarrow>
     (case as_int (jget s ''minLength'') of None \<Rightarrow> True | Some m \<Rightarrow> m \<le> int (length t))
     \<and> (case as_int (jget s ''maxLength'') of None \<Rightarrow> True | Some m \<Rightarrow> int (length t) \<le> m)"

fun validate_value :: "json \<Rightarrow> jobject \<Rightarrow> bool" where
  "validate_value (JObj kvs) s \<longleftrightarrow> value_ok (JObj kvs) s \<and> object_ok kvs s
     \<and> list_all (\<lambda>kv. case Option.bind (schema_properties s) (\<lambda>ps. map_of ps (fst kv)) of
          Some (JObj q) \<Rightarrow> validate_value (snd kv) q | _ \<Rightarrow> True) kvs"
| "validate_value (JArr xs) s \<longleftrightarrow> value_ok (JArr xs) s \<and> array_ok xs s
     \<and> (case jget s ''items'' of JObj q \<Rightarrow> list_all (\<lambda>x. validate_value x q) xs | _ \<Rightarrow> True)"
| "validate_value (JInt i) s \<longleftrightarrow> value_ok (JInt i) s \<and> number_ok (of_int i) s"
| "validate_value (JFloat q r) s \<longleftrightarrow> value_ok (JFloat q r) s \<and> number_ok q s"
| "validate_value (JStr t) s \<longleftrightarrow> value_ok (JStr t) s \<and> string_ok t s"
| "validate_value (JBool b) s \<longleftrightarrow> value_ok (JBool b) s"
| "validate_value JNull s \<longleftrightarrow> value_ok JNull s"

text \<open>\<open>validate_output\<close>: admissible schema, a root that allows objects, a conforming output.\<close>

definition validate_output :: "jobject \<Rightarrow> jobject \<Rightarrow> bool" where
  "validate_output out s \<longleftrightarrow> schema_ok True s
     \<and> (case declared_types s of None \<Rightarrow> False | Some None \<Rightarrow> True
        | Some (Some names) \<Rightarrow> ''object'' \<in> set names)
     \<and> validate_value (JObj out) s"

section \<open>Reachable schemas and values\<close>

text \<open>The schemas a schema contains, through properties and items.\<close>

inductive subschema :: "jobject \<Rightarrow> jobject \<Rightarrow> bool" where
  self: "subschema s s"
| in_property: "\<lbrakk>subschema s q; map_of q ''properties'' = Some (JObj ps); (n, JObj p) \<in> set ps\<rbrakk>
    \<Longrightarrow> subschema s p"
| in_items: "\<lbrakk>subschema s q; map_of q ''items'' = Some (JObj p)\<rbrakk> \<Longrightarrow> subschema s p"

text \<open>The schema that governs each value nested in an output.\<close>

inductive governs :: "jobject \<Rightarrow> json \<Rightarrow> jobject \<Rightarrow> json \<Rightarrow> bool" where
  self: "governs s v s v"
| in_property: "\<lbrakk>governs s v q (JObj kvs); map_of q ''properties'' = Some (JObj ps);
      (n, w) \<in> set kvs; map_of ps n = Some (JObj p)\<rbrakk> \<Longrightarrow> governs s v p w"
| in_items: "\<lbrakk>governs s v q (JArr xs); map_of q ''items'' = Some (JObj p); w \<in> set xs\<rbrakk>
    \<Longrightarrow> governs s v p w"

lemma schema_ok_sub:
  assumes "subschema s q" "schema_ok r s"
  shows "\<exists>r'. schema_ok r' q \<and> (r' \<longrightarrow> r)"
  using assms
proof (induction arbitrary: r rule: subschema.induct)
  case (self s)
  then show ?case by blast
next
  case (in_property s q ps n p)
  then obtain r' where "schema_ok r' q" by blast
  then have "list_all (\<lambda>np. case snd np of JObj q \<Rightarrow> schema_ok False q | _ \<Rightarrow> False) ps"
    using in_property.hyps(2) by (subst (asm) schema_ok.simps) simp
  with in_property.hyps(3) have "schema_ok False p" by (auto simp: list_all_iff dest!: bspec)
  then show ?case by blast
next
  case (in_items s q p)
  then obtain r' where "schema_ok r' q" by blast
  then have "schema_ok False p"
    using in_items.hyps(2) by (subst (asm) schema_ok.simps) simp
  then show ?case by blast
qed

lemma schema_ok_keywords: "schema_ok r s \<Longrightarrow> keywords_ok r s"
  by (subst (asm) schema_ok.simps) blast

lemma governs_validated: "governs s v q w \<Longrightarrow> validate_value v s \<Longrightarrow> validate_value w q"
proof (induction rule: governs.induct)
  case (in_property s v q kvs ps n w p)
  then have "list_all (\<lambda>kv. case Option.bind (schema_properties q) (\<lambda>ps. map_of ps (fst kv)) of
          Some (JObj q) \<Rightarrow> validate_value (snd kv) q | _ \<Rightarrow> True) kvs" by simp
  with in_property.hyps show ?case
    by (auto simp: list_all_iff schema_properties_def as_obj_def dest!: bspec)
next
  case (in_items s v q xs p w)
  then show ?case by (auto simp: jget_def list_all_iff)
qed simp

lemma validate_value_ok: "validate_value v s \<Longrightarrow> value_ok v s"
  by (cases v) auto

end
