(* ===== verification/Gateway.thy ===== *)
theory Gateway
  imports Events Schema "HOL-Library.Product_Lexorder"
begin

text \<open>
  \<open>gateway/models.py\<close>, \<open>profiles.py\<close> and \<open>router.py\<close>: the policy gateway in front of every
  model call. A model adapter is code outside the gateway: its \<open>invoke\<close> is a field of the
  registered adapter, and every result holds for all adapters. The audit sink is the list of
  records it received, \<open>None\<close> when the gateway has no sink. Exception messages are dropped;
  failures keep their code and the completion they carry.
\<close>

section \<open>Enumerations\<close>

datatype model_capability = Reason | Code | Review | Verify | Embed

datatype data_classification = PublicData | InternalData | PrivateData | SecretData

fun classification_rank :: "data_classification \<Rightarrow> nat" where
  "classification_rank PublicData = 0"
| "classification_rank InternalData = 1"
| "classification_rank PrivateData = 2"
| "classification_rank SecretData = 3"

lemma classification_rank_inj: "classification_rank a = classification_rank b \<Longrightarrow> a = b"
  by (cases a; cases b) simp_all

text \<open>\<open>DataClassification\<close> is an \<open>IntEnum\<close>: it is compared by its number.\<close>

instantiation data_classification :: linorder
begin

definition less_eq_data_classification :: "data_classification \<Rightarrow> data_classification \<Rightarrow> bool" where
  "a \<le> b \<longleftrightarrow> classification_rank a \<le> classification_rank b"

definition less_data_classification :: "data_classification \<Rightarrow> data_classification \<Rightarrow> bool" where
  "a < b \<longleftrightarrow> classification_rank a < classification_rank b"

instance
  by standard
    (auto simp: less_eq_data_classification_def less_data_classification_def
      intro: classification_rank_inj)

end

datatype locality_policy = LocalOnly | RemoteAllowed

datatype gateway_failure_code =
  RequestInputBudgetExceeded | NoProfile | PreparedCallInvalid | AdapterInputBudgetExceeded
  | ProfileInputLimitExceeded | AdapterOutputBudgetExceeded | ProfileOutputLimitExceeded
  | AdapterLatencyBudgetExceeded | AdapterCostBudgetExceeded | ProfileCostLimitExceeded
  | ProfileDeterminismViolated | RequestDeterminismViolated

section \<open>Values\<close>

record gateway_budget =
  max_input_tokens :: int
  max_output_tokens :: int
  max_latency_ms :: int
  max_cost_microusd :: int

definition gateway_budget_ok :: "gateway_budget \<Rightarrow> bool" where
  "gateway_budget_ok b \<longleftrightarrow> 0 \<le> max_input_tokens b \<and> 0 \<le> max_output_tokens b
     \<and> 0 \<le> max_latency_ms b \<and> 0 \<le> max_cost_microusd b"

record model_request =
  mr_request_id :: string
  mr_capability :: model_capability
  mr_input :: jobject
  mr_output_schema :: jobject
  mr_classification :: data_classification
  mr_locality :: locality_policy
  mr_budget :: gateway_budget
  mr_estimated_input_tokens :: int
  mr_correlation_id :: string
  mr_run_id :: string
  mr_node_id :: string
  mr_deterministic_required :: bool
  mr_causation_id :: "string option"
  mr_tools_allowed :: bool

text \<open>\<open>ModelRequest.__post_init__\<close>; the two JSON fields arrive frozen.\<close>

definition model_request_ok :: "model_request \<Rightarrow> bool" where
  "model_request_ok r \<longleftrightarrow>
     list_all (\<lambda>s. py_strip s \<noteq> [])
       [mr_request_id r, mr_correlation_id r, mr_run_id r, mr_node_id r]
     \<and> (case mr_causation_id r of None \<Rightarrow> True | Some c \<Rightarrow> py_strip c \<noteq> [])
     \<and> 0 \<le> mr_estimated_input_tokens r \<and> \<not> mr_tools_allowed r \<and> gateway_budget_ok (mr_budget r)"

record adapter_result =
  ar_output :: jobject
  ar_input_tokens :: "int option"
  ar_output_tokens :: "int option"
  ar_latency_ms :: int
  ar_cost_microusd :: "int option"
  ar_deterministic :: bool

record gateway_completion =
  gc_output_digest :: string
  gc_input_tokens :: "int option"
  gc_output_tokens :: "int option"
  gc_latency_ms :: int
  gc_cost_microusd :: "int option"
  gc_deterministic :: bool
  gc_completed_at :: datetime

definition usage_ok :: "int option \<Rightarrow> bool" where
  "usage_ok v = (case v of None \<Rightarrow> True | Some i \<Rightarrow> 0 \<le> i)"

definition adapter_result_ok :: "adapter_result \<Rightarrow> bool" where
  "adapter_result_ok r \<longleftrightarrow> usage_ok (ar_input_tokens r) \<and> usage_ok (ar_output_tokens r)
     \<and> 0 \<le> ar_latency_ms r \<and> usage_ok (ar_cost_microusd r)"

text \<open>\<open>GatewayCompletion.__post_init__\<close>: the stored timestamp is in UTC.\<close>

definition make_completion :: "gateway_completion \<Rightarrow> gateway_completion option" where
  "make_completion c = do {
     ensure (startswith (gc_output_digest c) ''sha256:''
       \<and> length (removeprefix (gc_output_digest c) ''sha256:'') = 64
       \<and> py_int16_ok (removeprefix (gc_output_digest c) ''sha256:''));
     ensure (usage_ok (gc_input_tokens c) \<and> usage_ok (gc_output_tokens c)
       \<and> 0 \<le> gc_latency_ms c \<and> usage_ok (gc_cost_microusd c));
     ensure (aware (gc_completed_at c));
     Some (c\<lparr>gc_completed_at := utc (dt_utc (gc_completed_at c))\<rparr>) }"

datatype gateway_error =
    GatewayAdmission gateway_failure_code "gateway_completion option"
  | OutputSchema gateway_completion
  | ContractError
  | AdapterRaised string

record routing_decision =
  rd_profile_id :: string
  rd_adapter_id :: string
  rd_model_id :: string
  rd_capability :: model_capability
  rd_local :: bool
  rd_deterministic :: bool

record model_response =
  ms_request_id :: string
  ms_output :: jobject
  ms_profile_id :: string
  ms_adapter_id :: string
  ms_model_id :: string
  ms_input_tokens :: "int option"
  ms_output_tokens :: "int option"
  ms_latency_ms :: int
  ms_cost_microusd :: "int option"
  ms_deterministic :: bool
  ms_completed_at :: datetime

record gateway_audit_record =
  ga_request_id :: string
  ga_capability :: model_capability
  ga_classification :: data_classification
  ga_profile_id :: string
  ga_adapter_id :: string
  ga_model_id :: string
  ga_correlation_id :: string
  ga_run_id :: string
  ga_node_id :: string
  ga_input_tokens :: "int option"
  ga_output_tokens :: "int option"
  ga_latency_ms :: int
  ga_cost_microusd :: "int option"
  ga_deterministic :: bool

record gateway_result =
  gr_decision :: routing_decision
  gr_response :: model_response

record prepared_call =
  pc_request :: model_request
  pc_decision :: routing_decision
  pc_budget :: gateway_budget

text \<open>\<open>PreparedGatewayCall.__post_init__\<close>.\<close>

definition prepared_call_ok :: "prepared_call \<Rightarrow> bool" where
  "prepared_call_ok c \<longleftrightarrow>
     rd_capability (pc_decision c) = mr_capability (pc_request c)
     \<and> (mr_locality (pc_request c) = LocalOnly \<longrightarrow> rd_local (pc_decision c))
     \<and> (mr_deterministic_required (pc_request c) \<longrightarrow> rd_deterministic (pc_decision c))
     \<and> max_input_tokens (pc_budget c) \<le> max_input_tokens (mr_budget (pc_request c))
     \<and> max_output_tokens (pc_budget c) \<le> max_output_tokens (mr_budget (pc_request c))
     \<and> max_latency_ms (pc_budget c) \<le> max_latency_ms (mr_budget (pc_request c))
     \<and> max_cost_microusd (pc_budget c) \<le> max_cost_microusd (mr_budget (pc_request c))"

record gateway_profile =
  gp_profile_id :: string
  gp_capability :: model_capability
  gp_adapter_id :: string
  gp_model_id :: string
  gp_priority :: int
  gp_local :: bool
  gp_deterministic :: bool
  gp_maximum_classification :: data_classification
  gp_max_input_tokens :: int
  gp_max_output_tokens :: int
  gp_max_cost_microusd :: int
  gp_enabled :: bool

definition gateway_profile_ok :: "gateway_profile \<Rightarrow> bool" where
  "gateway_profile_ok p \<longleftrightarrow>
     list_all (\<lambda>s. py_strip s \<noteq> []) [gp_profile_id p, gp_adapter_id p, gp_model_id p]
     \<and> 0 \<le> gp_priority p \<and> 0 \<le> gp_max_input_tokens p \<and> 0 \<le> gp_max_output_tokens p
     \<and> 0 \<le> gp_max_cost_microusd p"

section \<open>The gateway\<close>

record model_adapter =
  ma_adapter_id :: string
  ma_capabilities :: "model_capability list"
  ma_local :: bool
  ma_deterministic :: bool
  ma_invoke :: "model_request \<Rightarrow> string \<Rightarrow> string + adapter_result"

record gateway =
  gw_profiles :: "gateway_profile list"
  gw_adapters :: "(string \<times> model_adapter) list"
  gw_audit :: "gateway_audit_record list option"

text \<open>The checks of the constructor.\<close>

definition gateway_ok :: "gateway \<Rightarrow> bool" where
  "gateway_ok g \<longleftrightarrow> distinct (map gp_profile_id (gw_profiles g))
     \<and> distinct (map fst (gw_adapters g))
     \<and> list_all (\<lambda>ka. fst ka = ma_adapter_id (snd ka)) (gw_adapters g)"

text \<open>One iteration of the candidate loop of \<open>_select\<close>.\<close>

definition candidate ::
    "gateway \<Rightarrow> model_request \<Rightarrow> gateway_profile \<Rightarrow> (gateway_profile \<times> model_adapter) option" where
  "candidate g r p = do {
     a \<leftarrow> map_of (gw_adapters g) (gp_adapter_id p);
     ensure (gp_enabled p \<and> gp_capability p = mr_capability r);
     ensure (mr_capability r \<in> set (ma_capabilities a));
     ensure (gp_local p = ma_local a \<and> gp_deterministic p = ma_deterministic a);
     ensure (mr_locality r = LocalOnly \<longrightarrow> ma_local a);
     ensure (mr_deterministic_required r \<longrightarrow> ma_deterministic a);
     ensure (mr_classification r \<le> gp_maximum_classification p);
     ensure (mr_estimated_input_tokens r \<le> gp_max_input_tokens p);
     Some (p, a) }"

definition select_key :: "gateway_profile \<times> model_adapter \<Rightarrow> int \<times> string" where
  "select_key c = (gp_priority (fst c), gp_profile_id (fst c))"

definition select ::
    "gateway \<Rightarrow> model_request \<Rightarrow> gateway_error + (gateway_profile \<times> model_adapter)" where
  "select g r =
     (if mr_estimated_input_tokens r > max_input_tokens (mr_budget r)
      then Inl (GatewayAdmission RequestInputBudgetExceeded None)
      else (case sort_key select_key (List.map_filter (candidate g r) (gw_profiles g)) of
              [] \<Rightarrow> Inl (GatewayAdmission NoProfile None)
            | c # cs \<Rightarrow> Inr c))"

definition decision_of ::
    "model_request \<Rightarrow> gateway_profile \<Rightarrow> model_adapter \<Rightarrow> routing_decision" where
  "decision_of r p a = \<lparr>rd_profile_id = gp_profile_id p, rd_adapter_id = ma_adapter_id a,
     rd_model_id = gp_model_id p, rd_capability = mr_capability r, rd_local = ma_local a,
     rd_deterministic = ma_deterministic a\<rparr>"

definition effective_budget :: "model_request \<Rightarrow> gateway_profile \<Rightarrow> gateway_budget" where
  "effective_budget r p = \<lparr>
     max_input_tokens = min (max_input_tokens (mr_budget r)) (gp_max_input_tokens p),
     max_output_tokens = min (max_output_tokens (mr_budget r)) (gp_max_output_tokens p),
     max_latency_ms = max_latency_ms (mr_budget r),
     max_cost_microusd = min (max_cost_microusd (mr_budget r)) (gp_max_cost_microusd p)\<rparr>"

definition prepare :: "gateway \<Rightarrow> model_request \<Rightarrow> gateway_error + prepared_call" where
  "prepare g r = ebind (select g r) (\<lambda>(p, a).
     let budget = effective_budget r p;
         call = \<lparr>pc_request = r, pc_decision = decision_of r p a, pc_budget = budget\<rparr>
     in if gateway_budget_ok budget \<and> prepared_call_ok call then Inr call else Inl ContractError)"

definition profile_adapter ::
    "gateway \<Rightarrow> routing_decision \<Rightarrow> gateway_error + (gateway_profile \<times> model_adapter)" where
  "profile_adapter g d =
     (case (find (\<lambda>p. gp_profile_id p = rd_profile_id d) (gw_profiles g),
            map_of (gw_adapters g) (rd_adapter_id d)) of
        (Some p, Some a) \<Rightarrow> Inr (p, a)
      | _ \<Rightarrow> Inl (GatewayAdmission PreparedCallInvalid None))"

text \<open>The checks of \<open>invoke_prepared\<close> on an adapter's result, in the order of the code.\<close>

definition exceeds :: "int option \<Rightarrow> int \<Rightarrow> bool" where
  "exceeds used limit = (case used of None \<Rightarrow> False | Some u \<Rightarrow> limit < u)"

definition admit_result ::
    "model_request \<Rightarrow> gateway_profile \<Rightarrow> adapter_result \<Rightarrow> gateway_completion \<Rightarrow> gateway_error + unit" where
  "admit_result r p res c =
     (if exceeds (ar_input_tokens res) (max_input_tokens (mr_budget r))
      then Inl (GatewayAdmission AdapterInputBudgetExceeded (Some c))
      else if exceeds (ar_input_tokens res) (gp_max_input_tokens p)
      then Inl (GatewayAdmission ProfileInputLimitExceeded (Some c))
      else if exceeds (ar_output_tokens res) (max_output_tokens (mr_budget r))
      then Inl (GatewayAdmission AdapterOutputBudgetExceeded (Some c))
      else if exceeds (ar_output_tokens res) (gp_max_output_tokens p)
      then Inl (GatewayAdmission ProfileOutputLimitExceeded (Some c))
      else if ar_latency_ms res > max_latency_ms (mr_budget r)
      then Inl (GatewayAdmission AdapterLatencyBudgetExceeded (Some c))
      else if exceeds (ar_cost_microusd res) (max_cost_microusd (mr_budget r))
      then Inl (GatewayAdmission AdapterCostBudgetExceeded (Some c))
      else if exceeds (ar_cost_microusd res) (gp_max_cost_microusd p)
      then Inl (GatewayAdmission ProfileCostLimitExceeded (Some c))
      else if gp_deterministic p \<and> \<not> ar_deterministic res
      then Inl (GatewayAdmission ProfileDeterminismViolated (Some c))
      else if mr_deterministic_required r \<and> \<not> ar_deterministic res
      then Inl (GatewayAdmission RequestDeterminismViolated (Some c))
      else if \<not> validate_output (ar_output res) (mr_output_schema r)
      then Inl (OutputSchema c)
      else Inr ())"

definition audit_record :: "model_request \<Rightarrow> model_response \<Rightarrow> gateway_audit_record" where
  "audit_record r m = \<lparr>ga_request_id = mr_request_id r, ga_capability = mr_capability r,
     ga_classification = mr_classification r, ga_profile_id = ms_profile_id m,
     ga_adapter_id = ms_adapter_id m, ga_model_id = ms_model_id m,
     ga_correlation_id = mr_correlation_id r, ga_run_id = mr_run_id r, ga_node_id = mr_node_id r,
     ga_input_tokens = ms_input_tokens m, ga_output_tokens = ms_output_tokens m,
     ga_latency_ms = ms_latency_ms m, ga_cost_microusd = ms_cost_microusd m,
     ga_deterministic = ms_deterministic m\<rparr>"

definition audit :: "gateway \<Rightarrow> model_request \<Rightarrow> model_response \<Rightarrow> gateway" where
  "audit g r m = g\<lparr>gw_audit := map_option (\<lambda>log. log @ [audit_record r m]) (gw_audit g)\<rparr>"

text \<open>
  \<open>invoke_prepared\<close>. \<open>now\<close> is the clock's reading when the adapter returned. The prepared call
  and the fresh one share their request object, so \<open>call != expected\<close> compares the decision and
  the budget.
\<close>

definition invoke_prepared ::
    "gateway \<Rightarrow> datetime \<Rightarrow> prepared_call \<Rightarrow> gateway_error + (gateway_result \<times> gateway)" where
  "invoke_prepared g now call =
     ebind (prepare g (pc_request call)) (\<lambda>expected.
     ebind (check (GatewayAdmission PreparedCallInvalid None)
         (pc_decision call = pc_decision expected \<and> pc_budget call = pc_budget expected)) (\<lambda>_.
     ebind (profile_adapter g (pc_decision expected)) (\<lambda>(p, a).
     ebind (case ma_invoke a ((pc_request call)\<lparr>mr_budget := pc_budget call\<rparr>) (gp_model_id p) of
              Inl x \<Rightarrow> Inl (AdapterRaised x)
            | Inr res \<Rightarrow> if adapter_result_ok res then Inr res else Inl ContractError) (\<lambda>res.
     ebind (efail_on_None ContractError (make_completion
         \<lparr>gc_output_digest = json_digest (JObj (ar_output res)),
          gc_input_tokens = ar_input_tokens res, gc_output_tokens = ar_output_tokens res,
          gc_latency_ms = ar_latency_ms res, gc_cost_microusd = ar_cost_microusd res,
          gc_deterministic = ar_deterministic res, gc_completed_at = now\<rparr>)) (\<lambda>c.
     ebind (admit_result (pc_request call) p res c) (\<lambda>_.
     let m = \<lparr>ms_request_id = mr_request_id (pc_request call), ms_output = ar_output res,
              ms_profile_id = gp_profile_id p, ms_adapter_id = ma_adapter_id a,
              ms_model_id = gp_model_id p, ms_input_tokens = gc_input_tokens c,
              ms_output_tokens = gc_output_tokens c, ms_latency_ms = gc_latency_ms c,
              ms_cost_microusd = gc_cost_microusd c, ms_deterministic = gc_deterministic c,
              ms_completed_at = gc_completed_at c\<rparr>
     in Inr (\<lparr>gr_decision = pc_decision call, gr_response = m\<rparr>,
             audit g (pc_request call) m)))))))"

definition invoke ::
    "gateway \<Rightarrow> datetime \<Rightarrow> model_request \<Rightarrow> gateway_error + (gateway_result \<times> gateway)" where
  "invoke g now r = ebind (prepare g r) (invoke_prepared g now)"

end
