(* ===== verification/SchemaProps.thy ===== *)
theory SchemaProps
  imports Schema
begin

text \<open>What the schema validator guarantees of the schemas and outputs it accepts.\<close>

section \<open>Equality of JSON values\<close>

lemma as_number_Some_cases:
  "as_number w = Some q \<longleftrightarrow> (\<exists>i. w = JInt i \<and> q = of_int i) \<or> (\<exists>r. w = JFloat q r)"
  by (auto simp: as_number_def split: json.splits)

lemma as_number_simps [simp]: "as_number (JInt i) = Some (of_int i)" "as_number (JFloat q r) = Some q"
  "as_number JNull = None" "as_number (JBool b) = None" "as_number (JStr s) = None"
  "as_number (JArr xs) = None" "as_number (JObj kvs) = None"
  by (simp_all add: as_number_def)

lemma json_equal_number: "as_number v = Some q \<Longrightarrow> json_equal v w \<longleftrightarrow> as_number w = Some q"
  by (auto simp: as_number_Some_cases)

lemma json_equal_obj:
  "json_equal (JObj xs) (JObj ys) \<longleftrightarrow> set (map fst xs) = set (map fst ys)
     \<and> (\<forall>k x. (k, x) \<in> set xs \<longrightarrow> (\<exists>y. map_of ys k = Some y \<and> json_equal x y))"
proof -
  have "list_all (\<lambda>kx. case map_of ys (fst kx) of None \<Rightarrow> False | Some y \<Rightarrow> json_equal (snd kx) y) xs
    \<longleftrightarrow> (\<forall>k x. (k, x) \<in> set xs \<longrightarrow> (\<exists>y. map_of ys k = Some y \<and> json_equal x y))"
    by (fastforce simp: list_all_iff split: option.splits)
  then show ?thesis by simp
qed

lemma json_equal_refl: "keys_distinct v \<Longrightarrow> json_equal v v"
proof (induction v rule: json_induct)
  case (JArr xs)
  then show ?case by (auto simp: list_all_iff list_all2_conv_all_nth)
next
  case (JObj kvs)
  then show ?case
    unfolding json_equal_obj by (fastforce simp: list_all_iff)
qed simp_all

lemma json_equal_sym: "keys_distinct v \<Longrightarrow> keys_distinct w \<Longrightarrow> json_equal v w \<Longrightarrow> json_equal w v"
proof (induction v arbitrary: w rule: json_induct)
  case (JArr xs)
  then show ?case
    by (cases w) (auto simp: list_all_iff list_all2_conv_all_nth)
next
  case (JObj kvs)
  then obtain ys where w: "w = JObj ys" by (cases w) auto
  from JObj.prems(3) have eq: "set (map fst kvs) = set (map fst ys)"
    "\<And>k x. (k, x) \<in> set kvs \<Longrightarrow> \<exists>y. map_of ys k = Some y \<and> json_equal x y"
    unfolding w json_equal_obj by blast+
  show ?case unfolding w json_equal_obj
  proof (intro conjI allI impI)
    show "set (map fst ys) = set (map fst kvs)" using eq(1) by simp
    fix k y assume y: "(k, y) \<in> set ys"
    then have "k \<in> set (map fst kvs)" using eq(1) by force
    then obtain x where x: "(k, x) \<in> set kvs" by auto
    have "map_of ys k = Some y" using y JObj.prems(2) w by simp
    with eq(2)[OF x] have "json_equal x y" by simp
    moreover have "keys_distinct x" "keys_distinct y" "map_of kvs k = Some x"
      using x y JObj.prems(1,2) w by (auto simp: list_all_iff)
    ultimately show "\<exists>x. map_of kvs k = Some x \<and> json_equal y x"
      using JObj.IH[OF x, of y] by simp
  qed
qed (simp_all add: json_equal_number)

lemma json_equal_trans:
  "keys_distinct v \<Longrightarrow> json_equal u v \<Longrightarrow> json_equal v w \<Longrightarrow> json_equal u w"
proof (induction u arbitrary: v w rule: json_induct)
  case (JArr xs)
  show ?case
  proof -
    obtain ys zs where yz: "v = JArr ys" "w = JArr zs"
      using JArr.prems(2,3) by (cases v; cases w) auto
    have xy: "list_all2 json_equal xs ys" "list_all2 json_equal ys zs"
      using JArr.prems(2,3) yz by simp_all
    have "list_all2 json_equal xs zs"
    proof (rule list_all2_all_nthI)
      show "length xs = length zs" using xy list_all2_lengthD by metis
      fix i assume i: "i < length xs"
      then have y: "ys ! i \<in> set ys" using xy(1) list_all2_lengthD by fastforce
      show "json_equal (xs ! i) (zs ! i)"
      proof (rule JArr.IH)
        show "xs ! i \<in> set xs" using i by simp
        show "keys_distinct (ys ! i)" using JArr.prems(1) yz(1) y by (simp add: list_all_iff)
        show "json_equal (xs ! i) (ys ! i)" using xy(1) i by (rule list_all2_nthD)
        show "json_equal (ys ! i) (zs ! i)"
          using xy(2) i xy(1)[THEN list_all2_lengthD] by (simp add: list_all2_nthD)
      qed
    qed
    then show ?thesis unfolding yz by simp
  qed
next
  case (JObj kvs)
  then obtain ys where v: "v = JObj ys" by (cases v) auto
  with JObj.prems(3) obtain zs where w: "w = JObj zs" by (cases w) auto
  note a = JObj.prems(2)[unfolded v json_equal_obj] and b = JObj.prems(3)[unfolded v w json_equal_obj]
  show ?case unfolding w json_equal_obj
  proof (intro conjI allI impI)
    show "set (map fst kvs) = set (map fst zs)" using a b by simp
    fix k x assume x: "(k, x) \<in> set kvs"
    then obtain y where y: "map_of ys k = Some y" "json_equal x y" using a by blast
    then have "(k, y) \<in> set ys" by (simp add: map_of_SomeD)
    with b obtain z where z: "map_of zs k = Some z" "json_equal y z" by blast
    have "keys_distinct y" using JObj.prems(1) v \<open>(k, y) \<in> set ys\<close> by (auto simp: list_all_iff)
    with JObj.IH[OF x] y z show "\<exists>z. map_of zs k = Some z \<and> json_equal x z" by force
  qed
qed (simp_all add: json_equal_number)

section \<open>A sample schema\<close>

definition sample_schema :: jobject where
  "sample_schema =
     [(''$schema'', JStr ''draft''), (''type'', JStr ''object''),
      (''additionalProperties'', JBool False), (''required'', JArr [JStr ''n'']),
      (''properties'', JObj
        [(''n'', JObj [(''type'', JStr ''integer''), (''minimum'', JInt 1), (''maximum'', JInt 9)]),
         (''tags'', JObj [(''type'', JStr ''array''), (''maxItems'', JInt 2),
            (''uniqueItems'', JBool True),
            (''items'', JObj [(''type'', JStr ''string''), (''maxLength'', JInt 3)])])])]"

definition sample_output :: jobject where
  "sample_output = [(''n'', JInt 4), (''tags'', JArr [JStr ''a'', JStr ''b''])]"

lemmas schema_eval = schema_ok.simps keywords_ok_def SUPPORTED_KEYWORDS_def ROOT_METADATA_KEYWORDS_def
  declared_types_def TYPE_NAMES_def when_key_def is_string_array_def is_length_def ordered_bounds_def
  jget_def as_str_def as_bool_def as_int_def as_arr_def as_obj_def

lemmas validate_eval = value_ok_def matches_type.simps object_ok_def array_ok_def number_ok_def
  string_ok_def py_int_def schema_required_def schema_properties_def List.map_filter_simps

lemma sample_schema_accepts: "validate_output sample_output sample_schema"
  by (simp add: validate_output_def sample_schema_def sample_output_def schema_eval validate_eval
      del: not_None_eq)

section \<open>Properties\<close>

text \<open>
  The validator's equality of JSON values is an equivalence relation on values without
  duplicate keys, so \<open>enum\<close>, \<open>const\<close> and \<open>uniqueItems\<close> do not depend on which side a
  value stands.
\<close>

theorem json_equality_equivalence:
  assumes "keys_distinct u" "keys_distinct v" "keys_distinct w"
  shows "json_equal u u \<and> (json_equal u v \<longleftrightarrow> json_equal v u)
    \<and> (json_equal u v \<and> json_equal v w \<longrightarrow> json_equal u w)"
  using assms json_equal_refl json_equal_sym json_equal_trans by metis

theorem json_equality_equivalence_witness:
  "json_equal (JObj [(''a'', JInt 1), (''b'', JNull)]) (JObj [(''b'', JNull), (''a'', JFloat 1 ''1.0'')])
   \<and> json_equal (JObj [(''b'', JNull), (''a'', JFloat 1 ''1.0'')]) (JObj [(''a'', JInt 1), (''b'', JNull)])
   \<and> \<not> json_equal (JInt 1) (JBool True)"
  using json_equality_equivalence[of "JObj [(''a'', JInt 1), (''b'', JNull)]"
      "JObj [(''b'', JNull), (''a'', JFloat 1 ''1.0'')]" JNull]
  by (auto simp: insert_commute)

text \<open>
  A keyword the gateway does not enforce is never mistaken for enforcement: as soon as a schema
  contains an unsupported keyword anywhere - at the root, in a property however deeply nested,
  whether required or not, or in array items - no output at all is accepted under it.
\<close>

theorem unsupported_keyword_rejects:
  assumes "subschema s q" "k \<in> set (map fst q)" "k \<notin> set SUPPORTED_KEYWORDS" "k \<noteq> ''$schema''"
  shows "\<not> validate_output out s"
proof
  assume "validate_output out s"
  then have "schema_ok True s" by (simp add: validate_output_def)
  then obtain r where "schema_ok r q" using schema_ok_sub[OF assms(1)] by blast
  then have "set (map fst q) \<subseteq> set SUPPORTED_KEYWORDS \<union> (if r then set ROOT_METADATA_KEYWORDS else {})"
    using schema_ok_keywords unfolding keywords_ok_def by blast
  with assms(2-4) show False
    by (cases r) (auto simp: ROOT_METADATA_KEYWORDS_def)
qed

theorem unsupported_keyword_rejects_witness:
  "\<not> validate_output [] [(''properties'', JObj [(''a'', JObj [(''pattern'', JStr ''x'')])])]"
  by (rule unsupported_keyword_rejects[OF subschema.in_property[OF subschema.self, where n = "''a''"
        and p = "[(''pattern'', JStr ''x'')]" and ps = "[(''a'', JObj [(''pattern'', JStr ''x'')])]"], where k = "''pattern''"])
    (simp_all add: SUPPORTED_KEYWORDS_def)

text \<open>
  Acceptance reaches every nested value: when an output is accepted, each value in it satisfies
  the schema that governs it along properties and items - its type is one of the declared types, a
  closed object has only declared fields, a declared constant is met, arrays, numbers and strings
  respect their bounds, and items are unique where the schema says so.
\<close>

theorem nested_values_conform:
  assumes "validate_output out s" "governs s (JObj out) q w"
  shows "(\<forall>names. declared_types q = Some (Some names) \<longrightarrow> (\<exists>t\<in>set names. matches_type w t))
    \<and> (\<forall>c. map_of q ''const'' = Some c \<longrightarrow> json_equal w c)
    \<and> (\<forall>kvs. w = JObj kvs \<longrightarrow> object_ok kvs q)
    \<and> (\<forall>xs. w = JArr xs \<longrightarrow> array_ok xs q)
    \<and> (\<forall>n. as_number w = Some n \<longrightarrow> number_ok n q)
    \<and> (\<forall>t. w = JStr t \<longrightarrow> string_ok t q)"
proof -
  have v: "validate_value w q"
    using governs_validated[OF assms(2)] assms(1) by (simp add: validate_output_def)
  note ok = validate_value_ok[OF v]
  have "\<forall>names. declared_types q = Some (Some names) \<longrightarrow> (\<exists>t\<in>set names. matches_type w t)"
    using ok by (auto simp: value_ok_def list_ex_iff)
  moreover have "\<forall>c. map_of q ''const'' = Some c \<longrightarrow> json_equal w c"
    using ok by (auto simp: value_ok_def when_key_def)
  moreover have "\<forall>n. as_number w = Some n \<longrightarrow> number_ok n q"
    using v by (auto simp: as_number_Some_cases)
  ultimately show ?thesis using v by auto
qed

theorem nested_values_conform_witness:
  "array_ok [JStr ''a'', JStr ''b''] [(''type'', JStr ''array''), (''maxItems'', JInt 2),
     (''uniqueItems'', JBool True),
     (''items'', JObj [(''type'', JStr ''string''), (''maxLength'', JInt 3)])]"
proof -
  have "governs sample_schema (JObj sample_output) [(''type'', JStr ''array''), (''maxItems'', JInt 2),
     (''uniqueItems'', JBool True),
     (''items'', JObj [(''type'', JStr ''string''), (''maxLength'', JInt 3)])]
     (JArr [JStr ''a'', JStr ''b''])"
    by (rule governs.in_property[OF governs.self])
      (auto simp: sample_schema_def sample_output_def)
  from nested_values_conform[OF sample_schema_accepts this] show ?thesis by blast
qed

end
