(* ===== verification/GatewayProps.thy ===== *)
theory GatewayProps
  imports Gateway SchemaProps
begin

text \<open>
  What the gateway promises of a routed call: the route is the best admissible one, a result is
  returned only within every budget and under the requested schema, and a tampered prepared call
  never reaches an adapter.
\<close>

section \<open>Selection\<close>

text \<open>The policy a profile has to meet to serve a request.\<close>

definition admissible :: "gateway \<Rightarrow> model_request \<Rightarrow> gateway_profile \<Rightarrow> model_adapter \<Rightarrow> bool" where
  "admissible g r p a \<longleftrightarrow> p \<in> set (gw_profiles g)
     \<and> map_of (gw_adapters g) (gp_adapter_id p) = Some a
     \<and> gp_enabled p \<and> gp_capability p = mr_capability r \<and> mr_capability r \<in> set (ma_capabilities a)
     \<and> gp_local p = ma_local a \<and> gp_deterministic p = ma_deterministic a
     \<and> (mr_locality r = LocalOnly \<longrightarrow> ma_local a)
     \<and> (mr_deterministic_required r \<longrightarrow> ma_deterministic a)
     \<and> mr_classification r \<le> gp_maximum_classification p
     \<and> mr_estimated_input_tokens r \<le> gp_max_input_tokens p"

lemma candidate_Some:
  "p \<in> set (gw_profiles g) \<Longrightarrow>
     candidate g r p = Some c \<longleftrightarrow> fst c = p \<and> admissible g r p (snd c)"
  unfolding candidate_def admissible_def
  by (cases c) (auto simp: bind_eq_Some_conv split: if_splits)

lemma candidates_set:
  "c \<in> set (List.map_filter (candidate g r) (gw_profiles g)) \<longleftrightarrow> admissible g r (fst c) (snd c)"
proof
  assume "c \<in> set (List.map_filter (candidate g r) (gw_profiles g))"
  then obtain p where "p \<in> set (gw_profiles g)" "candidate g r p = Some c"
    by (auto simp: List.map_filter_def)
  then show "admissible g r (fst c) (snd c)" by (simp add: candidate_Some)
next
  assume a: "admissible g r (fst c) (snd c)"
  then have p: "fst c \<in> set (gw_profiles g)" by (simp add: admissible_def)
  then have "candidate g r (fst c) = Some c" using a by (simp add: candidate_Some)
  then show "c \<in> set (List.map_filter (candidate g r) (gw_profiles g))"
    using p by (force simp: List.map_filter_def)
qed

lemma sort_key_head:
  assumes "sort_key f xs = c # cs"
  shows "c \<in> set xs" "x \<in> set xs \<Longrightarrow> f c \<le> f x"
proof -
  have s: "set xs = set (c # cs)" by (metis assms set_sort)
  then show "c \<in> set xs" by simp
  have "sorted (map f (c # cs))" by (metis assms sorted_sort_key)
  then show "x \<in> set xs \<Longrightarrow> f c \<le> f x" using s by auto
qed

lemma select_Inr:
  assumes "select g r = Inr (p, a)"
  shows "admissible g r p a" "admissible g r p' a' \<Longrightarrow> select_key (p, a) \<le> select_key (p', a')"
    "mr_estimated_input_tokens r \<le> max_input_tokens (mr_budget r)"
proof -
  from assms obtain cs
    where s: "sort_key select_key (List.map_filter (candidate g r) (gw_profiles g)) = (p, a) # cs"
    by (auto simp: select_def split: if_splits list.splits)
  from sort_key_head[OF s] show "admissible g r p a"
    and "admissible g r p' a' \<Longrightarrow> select_key (p, a) \<le> select_key (p', a')"
    by (auto simp: candidates_set)
  show "mr_estimated_input_tokens r \<le> max_input_tokens (mr_budget r)"
    using assms by (auto simp: select_def split: if_splits)
qed

lemma select_NoProfile:
  assumes "mr_estimated_input_tokens r \<le> max_input_tokens (mr_budget r)"
  shows "select g r = Inl (GatewayAdmission NoProfile None) \<longleftrightarrow> (\<forall>p a. \<not> admissible g r p a)"
proof -
  have "select g r = Inl (GatewayAdmission NoProfile None)
    \<longleftrightarrow> sort_key select_key (List.map_filter (candidate g r) (gw_profiles g)) = []"
    using assms by (auto simp: select_def split: list.splits)
  also have "\<dots> \<longleftrightarrow> set (List.map_filter (candidate g r) (gw_profiles g)) = {}"
    by (metis set_empty set_sort)
  also have "\<dots> \<longleftrightarrow> (\<forall>p a. \<not> admissible g r p a)"
    using candidates_set[of _ g r] by (auto simp: set_eq_iff)
  finally show ?thesis .
qed

section \<open>Preparing\<close>

lemma prepared_is_valid:
  assumes "admissible g r p a"
  shows "prepared_call_ok \<lparr>pc_request = r, pc_decision = decision_of r p a,
    pc_budget = effective_budget r p\<rparr>"
  using assms
  by (simp add: prepared_call_ok_def decision_of_def effective_budget_def admissible_def)

lemma effective_budget_ok:
  "gateway_budget_ok (mr_budget r) \<Longrightarrow> gateway_profile_ok p \<Longrightarrow> gateway_budget_ok (effective_budget r p)"
  by (simp add: gateway_budget_ok_def gateway_profile_ok_def effective_budget_def)

lemma prepare_Inr:
  assumes "prepare g r = Inr c"
  obtains p a where "select g r = Inr (p, a)" "pc_request c = r" "pc_decision c = decision_of r p a"
    "pc_budget c = effective_budget r p" "prepared_call_ok c"
  using assms
  by (auto simp: prepare_def ebind_eq_Inr Let_def split: if_splits)

text \<open>The decision leads back to the very profile and adapter that were selected.\<close>

lemma profile_adapter_selected:
  assumes ok: "gateway_ok g" and adm: "admissible g r p a"
  shows "profile_adapter g (decision_of r p a) = Inr (p, a)"
proof -
  have p: "p \<in> set (gw_profiles g)" and a: "map_of (gw_adapters g) (gp_adapter_id p) = Some a"
    using adm by (simp_all add: admissible_def)
  obtain q where q: "find (\<lambda>p'. gp_profile_id p' = gp_profile_id p) (gw_profiles g) = Some q"
    using p by (cases "find (\<lambda>p'. gp_profile_id p' = gp_profile_id p) (gw_profiles g)")
      (auto simp: find_None_iff)
  then have "q \<in> set (gw_profiles g)" "gp_profile_id q = gp_profile_id p"
    by (auto simp: find_Some_iff)
  then have "q = p"
    using ok p by (auto simp: gateway_ok_def distinct_map dest: inj_onD)
  have "(gp_adapter_id p, a) \<in> set (gw_adapters g)" using a by (rule map_of_SomeD)
  then have "gp_adapter_id p = ma_adapter_id a"
    using ok by (auto simp: gateway_ok_def list_all_iff)
  with a q \<open>q = p\<close> show ?thesis by (simp add: profile_adapter_def decision_of_def)
qed

section \<open>Invoking\<close>

lemma admit_result_Inr:
  assumes "admit_result r p res c = Inr ()"
  shows "\<not> exceeds (ar_input_tokens res) (min (max_input_tokens (mr_budget r)) (gp_max_input_tokens p))"
    "\<not> exceeds (ar_output_tokens res) (min (max_output_tokens (mr_budget r)) (gp_max_output_tokens p))"
    "\<not> exceeds (ar_cost_microusd res) (min (max_cost_microusd (mr_budget r)) (gp_max_cost_microusd p))"
    "ar_latency_ms res \<le> max_latency_ms (mr_budget r)"
    "gp_deterministic p \<or> mr_deterministic_required r \<Longrightarrow> ar_deterministic res"
    "validate_output (ar_output res) (mr_output_schema r)"
  using assms
  by (auto simp: admit_result_def exceeds_def split: if_splits option.splits)

lemma make_completion_Some:
  "make_completion c = Some d \<Longrightarrow>
     d = c\<lparr>gc_completed_at := utc (dt_utc (gc_completed_at c))\<rparr> \<and> aware (gc_completed_at c)"
  by (auto simp: make_completion_def bind_eq_Some_conv split: if_splits)

lemma invoke_prepared_Inr:
  assumes ok: "gateway_ok g" and run: "invoke_prepared g now call = Inr (res, g')"
  obtains p a out where "select g (pc_request call) = Inr (p, a)"
    "pc_decision call = decision_of (pc_request call) p a"
    "pc_budget call = effective_budget (pc_request call) p"
    "ma_invoke a ((pc_request call)\<lparr>mr_budget := pc_budget call\<rparr>) (gp_model_id p) = Inr out"
    "\<exists>c. admit_result (pc_request call) p out c = Inr ()"
    "gr_decision res = pc_decision call"
    "gr_response res = \<lparr>ms_request_id = mr_request_id (pc_request call), ms_output = ar_output out,
       ms_profile_id = gp_profile_id p, ms_adapter_id = ma_adapter_id a, ms_model_id = gp_model_id p,
       ms_input_tokens = ar_input_tokens out, ms_output_tokens = ar_output_tokens out,
       ms_latency_ms = ar_latency_ms out, ms_cost_microusd = ar_cost_microusd out,
       ms_deterministic = ar_deterministic out, ms_completed_at = utc (dt_utc now)\<rparr>"
    "g' = audit g (pc_request call) (gr_response res)"
proof -
  from run obtain e where e: "prepare g (pc_request call) = Inr e"
    and same: "pc_decision call = pc_decision e" "pc_budget call = pc_budget e"
    by (auto simp: invoke_prepared_def ebind_eq_Inr split: if_splits)
  obtain p a where sel: "select g (pc_request call) = Inr (p, a)"
    and dec: "pc_decision e = decision_of (pc_request call) p a"
    and bud: "pc_budget e = effective_budget (pc_request call) p"
    using e by (rule prepare_Inr) metis
  note route = profile_adapter_selected[OF ok select_Inr(1)[OF sel]]
  from run obtain out c where
    out: "ma_invoke a ((pc_request call)\<lparr>mr_budget := pc_budget call\<rparr>) (gp_model_id p) = Inr out"
    and c: "make_completion \<lparr>gc_output_digest = json_digest (JObj (ar_output out)),
        gc_input_tokens = ar_input_tokens out, gc_output_tokens = ar_output_tokens out,
        gc_latency_ms = ar_latency_ms out, gc_cost_microusd = ar_cost_microusd out,
        gc_deterministic = ar_deterministic out, gc_completed_at = now\<rparr> = Some c"
    and adm: "admit_result (pc_request call) p out c = Inr ()"
    and res: "gr_decision res = pc_decision call" "gr_response res =
       \<lparr>ms_request_id = mr_request_id (pc_request call), ms_output = ar_output out,
       ms_profile_id = gp_profile_id p, ms_adapter_id = ma_adapter_id a, ms_model_id = gp_model_id p,
       ms_input_tokens = gc_input_tokens c, ms_output_tokens = gc_output_tokens c,
       ms_latency_ms = gc_latency_ms c, ms_cost_microusd = gc_cost_microusd c,
       ms_deterministic = gc_deterministic c, ms_completed_at = gc_completed_at c\<rparr>"
      "g' = audit g (pc_request call) (gr_response res)"
    unfolding invoke_prepared_def e ebind_simps same dec route
    by (auto simp: ebind_eq_Inr efail_on_None_eq_Inr Let_def same dec bud route
        split: if_splits sum.splits)
  show thesis
    by (rule that[OF sel _ _ out _ res(1) _ res(3)])
      (use same dec bud adm res(2) make_completion_Some[OF c] in auto)
qed

section \<open>A sample gateway\<close>

definition sample_profile :: gateway_profile where
  "sample_profile = \<lparr>gp_profile_id = ''local'', gp_capability = Code, gp_adapter_id = ''a'',
     gp_model_id = ''m'', gp_priority = 1, gp_local = True, gp_deterministic = False,
     gp_maximum_classification = SecretData, gp_max_input_tokens = 100, gp_max_output_tokens = 50,
     gp_max_cost_microusd = 10, gp_enabled = True\<rparr>"

definition sample_adapter :: model_adapter where
  "sample_adapter = \<lparr>ma_adapter_id = ''a'', ma_capabilities = [Code, Review], ma_local = True,
     ma_deterministic = False,
     ma_invoke = (\<lambda>r m. Inr \<lparr>ar_output = sample_output, ar_input_tokens = Some 40,
        ar_output_tokens = None, ar_latency_ms = 7, ar_cost_microusd = Some 10,
        ar_deterministic = False\<rparr>)\<rparr>"

definition sample_remote_profile :: gateway_profile where
  "sample_remote_profile = sample_profile\<lparr>gp_profile_id := ''cloud'', gp_priority := 0,
     gp_local := False, gp_maximum_classification := InternalData\<rparr>"

definition sample_gateway :: gateway where
  "sample_gateway = \<lparr>gw_profiles = [sample_remote_profile, sample_profile],
     gw_adapters = [(''a'', sample_adapter)], gw_audit = Some []\<rparr>"

definition sample_model_request :: model_request where
  "sample_model_request = \<lparr>mr_request_id = ''q'', mr_capability = Code, mr_input = [],
     mr_output_schema = sample_schema, mr_classification = PrivateData, mr_locality = LocalOnly,
     mr_budget = \<lparr>max_input_tokens = 60, max_output_tokens = 80, max_latency_ms = 9,
       max_cost_microusd = 20\<rparr>, mr_estimated_input_tokens = 30, mr_correlation_id = ''c'',
     mr_run_id = ''r'', mr_node_id = ''n'', mr_deterministic_required = False,
     mr_causation_id = None, mr_tools_allowed = False\<rparr>"

lemma sample_gateway_ok: "gateway_ok sample_gateway"
  by (simp add: gateway_ok_def sample_gateway_def sample_profile_def sample_remote_profile_def
      sample_adapter_def)

lemma sample_select: "select sample_gateway sample_model_request = Inr (sample_profile, sample_adapter)"
  by (simp add: select_def candidate_def sample_gateway_def sample_model_request_def
      sample_profile_def sample_remote_profile_def sample_adapter_def List.map_filter_simps
      less_eq_data_classification_def)

lemma sample_request_fields [simp]:
  "mr_output_schema sample_model_request = sample_schema" "mr_capability sample_model_request = Code"
  "mr_locality sample_model_request = LocalOnly" "mr_deterministic_required sample_model_request = False"
  "mr_estimated_input_tokens sample_model_request = 30"
  "mr_budget sample_model_request = \<lparr>max_input_tokens = 60, max_output_tokens = 80,
     max_latency_ms = 9, max_cost_microusd = 20\<rparr>"
  by (simp_all add: sample_model_request_def)

lemma sample_profile_fields [simp]:
  "gp_max_input_tokens sample_profile = 100" "gp_max_output_tokens sample_profile = 50"
  "gp_max_cost_microusd sample_profile = 10" "gp_deterministic sample_profile = False"
  "gp_profile_id sample_profile = ''local''"
  by (simp_all add: sample_profile_def)

lemma sample_adapter_fields [simp]:
  "ma_local sample_adapter" "ma_invoke sample_adapter r m = Inr \<lparr>ar_output = sample_output,
     ar_input_tokens = Some 40, ar_output_tokens = None, ar_latency_ms = 7,
     ar_cost_microusd = Some 10, ar_deterministic = False\<rparr>"
  by (simp_all add: sample_adapter_def)

lemma sample_prepare:
  "prepare sample_gateway sample_model_request = Inr \<lparr>pc_request = sample_model_request,
     pc_decision = decision_of sample_model_request sample_profile sample_adapter,
     pc_budget = effective_budget sample_model_request sample_profile\<rparr>"
  unfolding prepare_def sample_select
  by (simp add: Let_def gateway_budget_ok_def prepared_call_ok_def effective_budget_def decision_of_def)

lemma sample_invoke: "\<exists>res g. invoke sample_gateway (utc 5) sample_model_request = Inr (res, g)"
proof -
  have adm: "admissible sample_gateway sample_model_request sample_profile sample_adapter"
    using select_Inr(1)[OF sample_select] .
  have "make_completion \<lparr>gc_output_digest = json_digest (JObj sample_output),
      gc_input_tokens = Some 40, gc_output_tokens = None, gc_latency_ms = 7,
      gc_cost_microusd = Some 10, gc_deterministic = False, gc_completed_at = utc 5\<rparr> \<noteq> None"
    by (simp add: make_completion_def json_digest_def digest_shape usage_ok_def aware_def utc_def)
  then show ?thesis
    unfolding invoke_def sample_prepare ebind_simps invoke_prepared_def
    by (auto simp: sample_prepare profile_adapter_selected[OF sample_gateway_ok adm] Let_def
        adapter_result_ok_def usage_ok_def admit_result_def exceeds_def sample_schema_accepts)
qed

section \<open>Properties\<close>

text \<open>
  C20: Routing follows policy: a prepared call names a registered, enabled profile of the requested
  capability whose adapter matches it, whose classification ceiling covers the data, which is local
  when the request is local-only and deterministic when that is required, and no other admissible
  profile has a smaller (priority, identifier). Its budget never exceeds the request's or the
  profile's, so the checks on the prepared call itself cannot fail. Preparing fails with "no
  profile" exactly when no registered profile is admissible.
\<close>

theorem routing_follows_policy:
  assumes "gateway_budget_ok (mr_budget r)" "\<forall>p\<in>set (gw_profiles g). gateway_profile_ok p"
    and fits: "mr_estimated_input_tokens r \<le> max_input_tokens (mr_budget r)"
  shows "(prepare g r = Inl (GatewayAdmission NoProfile None) \<and> (\<forall>p a. \<not> admissible g r p a))
    \<or> (\<exists>p a call. prepare g r = Inr call \<and> admissible g r p a
        \<and> (\<forall>p' a'. admissible g r p' a' \<longrightarrow>
              (gp_priority p, gp_profile_id p) \<le> (gp_priority p', gp_profile_id p'))
        \<and> pc_request call = r \<and> pc_decision call = decision_of r p a
        \<and> max_input_tokens (pc_budget call) = min (max_input_tokens (mr_budget r)) (gp_max_input_tokens p)
        \<and> max_output_tokens (pc_budget call) = min (max_output_tokens (mr_budget r)) (gp_max_output_tokens p)
        \<and> max_cost_microusd (pc_budget call) = min (max_cost_microusd (mr_budget r)) (gp_max_cost_microusd p)
        \<and> max_latency_ms (pc_budget call) = max_latency_ms (mr_budget r))"
proof (cases "select g r")
  case (Inl e)
  with fits have "e = GatewayAdmission NoProfile None"
    by (auto simp: select_def split: list.splits)
  with Inl select_NoProfile[OF fits, of g] show ?thesis by (auto simp: prepare_def)
next
  case (Inr pa)
  obtain p a where pa: "pa = (p, a)" by (cases pa)
  note sel = select_Inr[OF Inr[unfolded pa]]
  have "gateway_profile_ok p" using assms(2) sel(1) by (simp add: admissible_def)
  note ok = effective_budget_ok[OF assms(1) this] prepared_is_valid[OF sel(1)]
  have "prepare g r = Inr \<lparr>pc_request = r, pc_decision = decision_of r p a,
      pc_budget = effective_budget r p\<rparr>"
    using ok by (simp add: prepare_def Inr pa Let_def)
  with sel(1,2) show ?thesis
    by (intro disjI2) (auto simp: select_key_def effective_budget_def)
qed

theorem routing_follows_policy_witness:
  "\<exists>call. prepare sample_gateway sample_model_request = Inr call
    \<and> rd_profile_id (pc_decision call) = ''local''"
  using routing_follows_policy[of sample_model_request sample_gateway] sample_prepare
  by (simp add: sample_prepare decision_of_def)



text \<open>
  A prepared call is good only for the route policy admits now: when its decision or its budget
  differs from a fresh preparation - a raised budget, another model, a changed profile - invoking it
  fails as an invalid prepared call before any adapter runs, for every adapter behaviour.
\<close>

theorem tampered_call_rejected:
  assumes "prepare g (pc_request call) = Inr fresh"
    and "pc_decision call \<noteq> pc_decision fresh \<or> pc_budget call \<noteq> pc_budget fresh"
  shows "invoke_prepared g now call = Inl (GatewayAdmission PreparedCallInvalid None)"
  using assms by (auto simp: invoke_prepared_def)

theorem tampered_call_rejected_witness:
  "invoke_prepared sample_gateway (utc 5) \<lparr>pc_request = sample_model_request,
     pc_decision = decision_of sample_model_request sample_profile sample_adapter,
     pc_budget = mr_budget sample_model_request\<rparr> = Inl (GatewayAdmission PreparedCallInvalid None)"
  using tampered_call_rejected[of sample_gateway "\<lparr>pc_request = sample_model_request,
     pc_decision = decision_of sample_model_request sample_profile sample_adapter,
     pc_budget = mr_budget sample_model_request\<rparr>"]
  by (simp add: sample_prepare effective_budget_def)

end
