(* ===== verification/PlanTypes.thy ===== *)
theory PlanTypes
  imports Gateway
begin

text \<open>
  The values of \<open>orchestration/execution_plan.py\<close>: verification checks, goals and tasks with the
  validating constructors that normalise them, their canonical payloads and the readers of those
  payloads. Where a function raises only the default \<open>PlanContractError\<close> its model is an option.
\<close>

datatype plan_error =
  InvalidExecutionContract | PlanCheckCoverageIncomplete | InvalidPlanLineage | PlanPathOutsideGoal
  | PlanCheckOutsideGoal | CyclicPlan | ParallelWriterPlan

section \<open>Texts and paths\<close>

definition plan_identifier :: "string \<Rightarrow> bool" where
  "plan_identifier = re_ident is_alnum (\<lambda>c. is_alnum c \<or> c \<in> set ''._:-'') 127"

definition commit_id :: "string \<Rightarrow> bool" where
  "commit_id = re_hex 40"

definition safe_executable :: "string \<Rightarrow> bool" where
  "safe_executable = re_ident is_alnum (\<lambda>c. is_alnum c \<or> c \<in> set ''._+-'') 63"

text \<open>\<open>_text\<close>: a string that is not blank.\<close>

definition plan_text :: "string \<Rightarrow> string option" where
  "plan_text s = (if py_strip s = [] then None else Some s)"

fun contains :: "string \<Rightarrow> string \<Rightarrow> bool" where
  "contains p [] = (p = [])"
| "contains p (c # cs) = (startswith (c # cs) p \<or> contains p cs)"

definition rstrip_slash :: "string \<Rightarrow> string" where
  "rstrip_slash s = rev (dropWhile (\<lambda>c. c = CHR ''/'') (rev s))"

definition repository_path :: "string \<Rightarrow> string option" where
  "repository_path s = do {
     text \<leftarrow> plan_text s;
     ensure (\<not> (startswith text ''/'' \<or> startswith text ''../''
       \<or> contains ''/../'' (''/'' @ text @ ''/'') \<or> text = ''.'' \<or> text = ''..''
       \<or> CHR 0x5C \<in> set text \<or> CHR 0x00 \<in> set text));
     Some (rstrip_slash text) }"

definition path_tuple :: "string list \<Rightarrow> string list option" where
  "path_tuple value = do {
     ensure (length value \<le> 256);
     paths \<leftarrow> traverse repository_path value;
     ensure (distinct paths);
     Some (sort paths) }"

definition bounded_text_tuple :: "nat \<Rightarrow> string list \<Rightarrow> string list option" where
  "bounded_text_tuple maximum value = do {
     ensure (length value \<le> maximum);
     result \<leftarrow> traverse plan_text value;
     ensure (distinct result);
     Some (sort result) }"

text \<open>An objective: not blank, at most 16 KiB of UTF-8.\<close>

definition objective_ok :: "string \<Rightarrow> bool" where
  "objective_ok s \<longleftrightarrow> py_strip s \<noteq> [] \<and> utf8_length s \<le> 16 * 1024"

section \<open>Checks\<close>

record verification_check =
  ck_id :: string
  ck_argv :: "string list"
  ck_exit :: int

text \<open>\<open>VerificationCheck.__post_init__\<close>.\<close>

definition check_ok :: "verification_check \<Rightarrow> bool" where
  "check_ok c \<longleftrightarrow> plan_identifier (ck_id c) \<and> 1 \<le> length (ck_argv c) \<and> length (ck_argv c) \<le> 64
     \<and> list_all (\<lambda>t. t \<noteq> [] \<and> CHR 0x00 \<notin> set t \<and> utf8_length t \<le> 4096) (ck_argv c)
     \<and> safe_executable (hd (ck_argv c)) \<and> 0 \<le> ck_exit c \<and> ck_exit c \<le> 255"

text \<open>The field order of \<open>@dataclass(order=True)\<close>.\<close>

definition check_key :: "verification_check \<Rightarrow> string \<times> string list \<times> int" where
  "check_key c = (ck_id c, ck_argv c, ck_exit c)"

definition sort_checks :: "verification_check list \<Rightarrow> verification_check list" where
  "sort_checks cs = sort_key check_key cs"

section \<open>Goals\<close>

definition EXECUTION_GOAL_SCHEMA :: string where
  "EXECUTION_GOAL_SCHEMA = ''blackcell.goal/v2''"

record goal_spec =
  go_id :: string
  go_project_id :: string
  go_intent_id :: string
  go_objective :: string
  go_base_commit :: string
  go_constraints :: "string list"
  go_allowed_paths :: "string list"
  go_checks :: "verification_check list"
  go_max_attempts :: int
  go_same_error_limit :: int
  go_schema :: string

text \<open>\<open>GoalSpec.__post_init__\<close>: validate, then store constraints, paths and checks in order.\<close>

definition make_goal :: "goal_spec \<Rightarrow> goal_spec option" where
  "make_goal g = do {
     ensure (go_schema g = EXECUTION_GOAL_SCHEMA);
     ensure (list_all plan_identifier [go_id g, go_project_id g, go_intent_id g]);
     ensure (objective_ok (go_objective g) \<and> commit_id (go_base_commit g));
     constraints \<leftarrow> bounded_text_tuple 64 (go_constraints g);
     paths \<leftarrow> path_tuple (go_allowed_paths g);
     ensure (1 \<le> length (go_checks g) \<and> length (go_checks g) \<le> 32);
     ensure (list_all check_ok (go_checks g));
     ensure (distinct (map ck_id (go_checks g)));
     ensure (1 \<le> go_max_attempts g \<and> go_max_attempts g \<le> 3
       \<and> 1 \<le> go_same_error_limit g \<and> go_same_error_limit g \<le> 2);
     Some (g\<lparr>go_constraints := constraints, go_allowed_paths := paths,
       go_checks := sort_checks (go_checks g)\<rparr>) }"

definition strings :: "string list \<Rightarrow> json" where
  "strings xs = JArr (map JStr xs)"

definition check_payload :: "verification_check \<Rightarrow> json" where
  "check_payload c = JObj [(''check_id'', JStr (ck_id c)), (''argv'', strings (ck_argv c)),
     (''expected_exit_code'', JInt (ck_exit c))]"

definition goal_payload :: "goal_spec \<Rightarrow> jobject" where
  "goal_payload g =
     [(''schema_version'', JStr (go_schema g)), (''goal_id'', JStr (go_id g)),
      (''project_id'', JStr (go_project_id g)), (''intent_id'', JStr (go_intent_id g)),
      (''objective'', JStr (go_objective g)), (''base_commit'', JStr (go_base_commit g)),
      (''constraints'', strings (go_constraints g)), (''allowed_paths'', strings (go_allowed_paths g)),
      (''verification_checks'', JArr (map check_payload (go_checks g))),
      (''max_attempts'', JInt (go_max_attempts g)),
      (''same_error_limit'', JInt (go_same_error_limit g))]"

definition goal_digest :: "goal_spec \<Rightarrow> string" where
  "goal_digest g = json_digest (JObj (goal_payload g))"

text \<open>\<open>_mapping_text\<close>, \<open>_mapping_integer\<close> and a sequence of texts.\<close>

definition json_text :: "json \<Rightarrow> string option" where
  "json_text v = do { s \<leftarrow> as_str v; plan_text s }"

definition mapping_text :: "jobject \<Rightarrow> string \<Rightarrow> string option" where
  "mapping_text raw field = json_text (jget raw field)"

definition mapping_integer :: "jobject \<Rightarrow> string \<Rightarrow> int option" where
  "mapping_integer raw field = do { i \<leftarrow> as_int (jget raw field); ensure (0 \<le> i); Some i }"

definition text_sequence :: "json \<Rightarrow> string list option" where
  "text_sequence v = do { xs \<leftarrow> as_arr v; traverse json_text xs }"

text \<open>One \<open>VerificationCheck(...)\<close> read from a payload.\<close>

definition check_from_payload :: "json \<Rightarrow> verification_check option" where
  "check_from_payload v = do {
     raw \<leftarrow> as_obj v;
     i \<leftarrow> mapping_text raw ''check_id'';
     argv \<leftarrow> text_sequence (jget raw ''argv'');
     code \<leftarrow> mapping_integer raw ''expected_exit_code'';
     let c = \<lparr>ck_id = i, ck_argv = argv, ck_exit = code\<rparr> in do { ensure (check_ok c); Some c } }"

definition checks_from_payload :: "json \<Rightarrow> verification_check list option" where
  "checks_from_payload v = do { xs \<leftarrow> as_arr v; traverse check_from_payload xs }"

definition goal_from_payload :: "json \<Rightarrow> goal_spec option" where
  "goal_from_payload v = do {
     raw \<leftarrow> as_obj v;
     ensure (keys_are raw [''schema_version'', ''goal_id'', ''project_id'', ''intent_id'',
       ''objective'', ''base_commit'', ''constraints'', ''allowed_paths'', ''verification_checks'',
       ''max_attempts'', ''same_error_limit'']);
     checks \<leftarrow> checks_from_payload (jget raw ''verification_checks'');
     schema \<leftarrow> mapping_text raw ''schema_version'';
     i \<leftarrow> mapping_text raw ''goal_id'';
     project \<leftarrow> mapping_text raw ''project_id'';
     intent \<leftarrow> mapping_text raw ''intent_id'';
     objective \<leftarrow> mapping_text raw ''objective'';
     base \<leftarrow> mapping_text raw ''base_commit'';
     constraints \<leftarrow> text_sequence (jget raw ''constraints'');
     paths \<leftarrow> text_sequence (jget raw ''allowed_paths'');
     attempts \<leftarrow> mapping_integer raw ''max_attempts'';
     limit \<leftarrow> mapping_integer raw ''same_error_limit'';
     make_goal \<lparr>go_id = i, go_project_id = project, go_intent_id = intent,
       go_objective = objective, go_base_commit = base, go_constraints = constraints,
       go_allowed_paths = paths, go_checks = checks, go_max_attempts = attempts,
       go_same_error_limit = limit, go_schema = schema\<rparr> }"

text \<open>\<open>planning_payload\<close>: what an untrusted planner is shown; it names checks, never their argv.\<close>

definition planning_payload :: "goal_spec \<Rightarrow> jobject" where
  "planning_payload g =
     [(''schema_version'', JStr (go_schema g)), (''goal_id'', JStr (go_id g)),
      (''project_id'', JStr (go_project_id g)), (''intent_id'', JStr (go_intent_id g)),
      (''objective'', JStr (go_objective g)), (''constraints'', strings (go_constraints g)),
      (''allowed_paths'', strings (go_allowed_paths g)),
      (''verification_check_ids'', strings (map ck_id (go_checks g))),
      (''max_attempts'', JInt (go_max_attempts g)),
      (''same_error_limit'', JInt (go_same_error_limit g))]"

section \<open>Tasks\<close>

record task_spec =
  ta_id :: string
  ta_objective :: string
  ta_depends_on :: "string list"
  ta_allowed_paths :: "string list"
  ta_checks :: "verification_check list"
  ta_max_attempts :: int
  ta_digest :: string

definition task_payload :: "task_spec \<Rightarrow> jobject" where
  "task_payload t =
     [(''task_id'', JStr (ta_id t)), (''objective'', JStr (ta_objective t)),
      (''depends_on'', strings (ta_depends_on t)), (''allowed_paths'', strings (ta_allowed_paths t)),
      (''checks'', JArr (map check_payload (ta_checks t))),
      (''max_attempts'', JInt (ta_max_attempts t))]"

text \<open>\<open>TaskSpec.__post_init__\<close>; the checks are \<open>VerificationCheck\<close> values already.\<close>

definition make_task ::
    "string \<Rightarrow> string \<Rightarrow> string list \<Rightarrow> string list \<Rightarrow> verification_check list \<Rightarrow> int
     \<Rightarrow> task_spec option" where
  "make_task i objective depends_on allowed_paths checks max_attempts = do {
     ensure (plan_identifier i \<and> objective_ok objective);
     let dependencies = sorted_set depends_on in do {
     ensure (i \<notin> set dependencies \<and> list_all plan_identifier dependencies);
     paths \<leftarrow> path_tuple allowed_paths;
     ensure (checks \<noteq> [] \<and> length checks \<le> 32 \<and> distinct (map ck_id checks));
     ensure (1 \<le> max_attempts \<and> max_attempts \<le> 3);
     let t = \<lparr>ta_id = i, ta_objective = objective, ta_depends_on = dependencies,
              ta_allowed_paths = paths, ta_checks = sort_checks checks,
              ta_max_attempts = max_attempts, ta_digest = []\<rparr>
     in Some (t\<lparr>ta_digest := json_digest (JObj (task_payload t))\<rparr>) } }"

definition task_from_payload :: "json \<Rightarrow> task_spec option" where
  "task_from_payload v = do {
     raw \<leftarrow> as_obj v;
     ensure (keys_are raw [''task_id'', ''objective'', ''depends_on'', ''allowed_paths'',
       ''checks'', ''max_attempts'']);
     checks \<leftarrow> checks_from_payload (jget raw ''checks'');
     i \<leftarrow> mapping_text raw ''task_id'';
     objective \<leftarrow> mapping_text raw ''objective'';
     depends \<leftarrow> text_sequence (jget raw ''depends_on'');
     paths \<leftarrow> text_sequence (jget raw ''allowed_paths'');
     attempts \<leftarrow> mapping_integer raw ''max_attempts'';
     make_task i objective depends paths checks attempts }"

end
