(* ===== verification/PlanOrder.thy ===== *)
theory PlanOrder
  imports PlanTypes
begin

text \<open>
  Dependency order of a plan: \<open>_topological_order\<close>, \<open>_validate_writer_order\<close> and \<open>Plan\<close>, and
  what they establish: a plan's order exists exactly for acyclic dependencies, respects them, and
  leaves no two writing tasks unordered.
\<close>

section \<open>The order\<close>

definition dependencies_of :: "task_spec list \<Rightarrow> string \<Rightarrow> string list" where
  "dependencies_of tasks i = (case map_of (map (\<lambda>t. (ta_id t, ta_depends_on t)) tasks) i of
     None \<Rightarrow> [] | Some ds \<Rightarrow> ds)"

text \<open>The loop: every round resolves the pending tasks whose dependencies are resolved.\<close>

definition ready_tasks :: "(string \<Rightarrow> string list) \<Rightarrow> string list \<Rightarrow> string list \<Rightarrow> string list" where
  "ready_tasks deps pending resolved = sort (filter (\<lambda>i. set (deps i) \<subseteq> set resolved) pending)"

function order_loop ::
    "(string \<Rightarrow> string list) \<Rightarrow> string list \<Rightarrow> string list \<Rightarrow> plan_error + string list" where
  "order_loop deps pending resolved =
     (if pending = [] then Inr resolved
      else let ready = ready_tasks deps pending resolved in
        if ready = [] then Inl CyclicPlan
        else order_loop deps (filter (\<lambda>i. i \<notin> set ready) pending) (resolved @ ready))"
  by pat_completeness auto
termination
proof (relation "measure (\<lambda>(deps, pending, resolved). length pending)", goal_cases)
  case (2 deps pending resolved ready)
  then have "set ready \<subseteq> set pending" by (auto simp: ready_tasks_def)
  moreover obtain i where "i \<in> set ready" using 2(3) by (cases ready) auto
  ultimately show ?case by (auto intro: length_filter_less)
qed simp

declare order_loop.simps [simp del]

definition topological_order :: "task_spec list \<Rightarrow> plan_error + string list" where
  "topological_order tasks =
     order_loop (dependencies_of tasks) (remdups (map ta_id tasks)) []"

section \<open>Writers\<close>

text \<open>The dictionary \<open>ancestors\<close> after the loop over the order.\<close>

definition add_ancestors ::
    "(string \<Rightarrow> string list) \<Rightarrow> string \<Rightarrow> (string \<rightharpoonup> string list) \<Rightarrow> (string \<rightharpoonup> string list)" where
  "add_ancestors deps i anc =
     anc(i \<mapsto> deps i @ concat (map (\<lambda>d. case anc d of None \<Rightarrow> [] | Some ds \<Rightarrow> ds) (deps i)))"

fun pairwise_all :: "('a \<Rightarrow> 'a \<Rightarrow> bool) \<Rightarrow> 'a list \<Rightarrow> bool" where
  "pairwise_all P (x # y # ys) = (P x y \<and> pairwise_all P (y # ys))"
| "pairwise_all P _ = True"

definition paths_of :: "task_spec list \<Rightarrow> string \<Rightarrow> string list" where
  "paths_of tasks i = (case map_of (map (\<lambda>t. (ta_id t, ta_allowed_paths t)) tasks) i of
     None \<Rightarrow> [] | Some ps \<Rightarrow> ps)"

definition validate_writer_order :: "task_spec list \<Rightarrow> plan_error + unit" where
  "validate_writer_order tasks = ebind (topological_order tasks) (\<lambda>order.
     let anc = fold (add_ancestors (dependencies_of tasks)) order Map.empty;
         writers = filter (\<lambda>i. paths_of tasks i \<noteq> []) order
     in check ParallelWriterPlan
          (pairwise_all (\<lambda>previous current. case anc current of
             None \<Rightarrow> False | Some ds \<Rightarrow> previous \<in> set ds) writers))"

section \<open>Plans\<close>

definition EXECUTION_PLAN_SCHEMA :: string where
  "EXECUTION_PLAN_SCHEMA = ''blackcell.plan/v2''"

record plan =
  pl_id :: string
  pl_goal_id :: string
  pl_project_id :: string
  pl_intent_id :: string
  pl_revision :: int
  pl_supersedes :: "string option"
  pl_base_commit :: string
  pl_draft_digest :: string
  pl_tasks :: "task_spec list"
  pl_schema :: string
  pl_digest :: string

definition plan_order :: "plan \<Rightarrow> plan_error + string list" where
  "plan_order p = topological_order (pl_tasks p)"

definition plan_payload :: "plan \<Rightarrow> plan_error + jobject" where
  "plan_payload p = ebind (plan_order p) (\<lambda>order. Inr
     [(''schema_version'', JStr (pl_schema p)), (''plan_id'', JStr (pl_id p)),
      (''goal_id'', JStr (pl_goal_id p)), (''project_id'', JStr (pl_project_id p)),
      (''intent_id'', JStr (pl_intent_id p)), (''plan_version'', JInt (pl_revision p)),
      (''supersedes_plan_id'', opt_str (pl_supersedes p)),
      (''base_commit'', JStr (pl_base_commit p)), (''draft_digest'', JStr (pl_draft_digest p)),
      (''tasks'', JArr (map (\<lambda>t. JObj (task_payload t)) (pl_tasks p))),
      (''topological_order'', strings order)])"

text \<open>\<open>Plan.__post_init__\<close>; \<open>pl_digest\<close> is computed.\<close>

definition make_plan :: "plan \<Rightarrow> plan_error + plan" where
  "make_plan p =
     ebind (check InvalidExecutionContract (pl_schema p = EXECUTION_PLAN_SCHEMA
       \<and> list_all plan_identifier [pl_id p, pl_goal_id p, pl_project_id p, pl_intent_id p]
       \<and> 1 \<le> pl_revision p \<and> (pl_revision p = 1 \<longleftrightarrow> pl_supersedes p = None)
       \<and> (case pl_supersedes p of None \<Rightarrow> True | Some q \<Rightarrow> plan_identifier q \<and> q \<noteq> pl_id p)
       \<and> commit_id (pl_base_commit p) \<and> re_digest (pl_draft_digest p))) (\<lambda>_.
     let tasks = sort_key ta_id (pl_tasks p); identifiers = map ta_id tasks in
     ebind (check InvalidExecutionContract (1 \<le> length tasks \<and> length tasks \<le> 64
       \<and> distinct identifiers
       \<and> list_all (\<lambda>t. set (ta_depends_on t) \<subseteq> set identifiers) tasks)) (\<lambda>_.
     ebind (topological_order tasks) (\<lambda>_.
     ebind (validate_writer_order tasks) (\<lambda>_.
     let q = p\<lparr>pl_tasks := tasks\<rparr> in
     ebind (plan_payload q) (\<lambda>payload. Inr (q\<lparr>pl_digest := json_digest (JObj payload)\<rparr>))))))"

section \<open>Correctness of the order\<close>

text \<open>Every element comes after its dependencies.\<close>

definition follows :: "('a \<Rightarrow> 'a list) \<Rightarrow> 'a list \<Rightarrow> bool" where
  "follows deps xs \<longleftrightarrow> (\<forall>ys i zs. xs = ys @ i # zs \<longrightarrow> set (deps i) \<subseteq> set ys)"

definition depends :: "('a \<Rightarrow> 'a list) \<Rightarrow> 'a set \<Rightarrow> ('a \<times> 'a) set" where
  "depends deps ids = {(d, i). i \<in> ids \<and> d \<in> set (deps i)}"

lemma follows_Nil [simp]: "follows deps []"
  by (simp add: follows_def)

lemma follows_snoc: "follows deps (xs @ [i]) \<longleftrightarrow> follows deps xs \<and> set (deps i) \<subseteq> set xs"
proof
  assume r: "follows deps (xs @ [i])"
  have "follows deps xs"
    unfolding follows_def using r[unfolded follows_def] by (metis append.assoc append_Cons)
  with r show "follows deps xs \<and> set (deps i) \<subseteq> set xs" by (auto simp: follows_def)
next
  assume r: "follows deps xs \<and> set (deps i) \<subseteq> set xs"
  show "follows deps (xs @ [i])"
    unfolding follows_def
  proof (intro allI impI)
    fix ys j zs
    assume eq: "xs @ [i] = ys @ j # zs"
    show "set (deps j) \<subseteq> set ys"
    proof (cases zs rule: rev_cases)
      case Nil
      with eq r show ?thesis by simp
    next
      case (snoc zs' k)
      with eq have "xs = ys @ j # zs'" by simp
      with r show ?thesis by (auto simp: follows_def)
    qed
  qed
qed

lemma follows_append:
  "follows deps xs \<Longrightarrow> (\<And>i. i \<in> set ys \<Longrightarrow> set (deps i) \<subseteq> set xs) \<Longrightarrow> follows deps (xs @ ys)"
proof (induction ys rule: rev_induct)
  case (snoc y ys)
  then have "follows deps (xs @ ys)" "set (deps y) \<subseteq> set (xs @ ys)" by auto
  then show ?case using follows_snoc[of deps "xs @ ys" y] by simp
qed simp

lemma set_ready [simp]:
  "set (ready_tasks deps pending resolved) = {i \<in> set pending. set (deps i) \<subseteq> set resolved}"
  by (simp add: ready_tasks_def)

lemma order_loop_Inr:
  assumes "order_loop deps pending resolved = Inr order" "follows deps resolved"
    and "distinct (resolved @ pending)"
  shows "set order = set resolved \<union> set pending \<and> distinct order \<and> follows deps order"
  using assms
proof (induction deps pending resolved rule: order_loop.induct)
  case (1 deps pending resolved)
  let ?ready = "ready_tasks deps pending resolved"
  show ?case
  proof (cases "pending = []")
    case True
    with "1.prems" show ?thesis by (simp add: order_loop.simps)
  next
    case False
    with "1.prems"(1) have ne: "?ready \<noteq> []"
      and loop: "order_loop deps (filter (\<lambda>i. i \<notin> set ?ready) pending) (resolved @ ?ready) = Inr order"
      by (auto simp: order_loop.simps[of deps pending] Let_def split: if_splits)
    have resp: "follows deps (resolved @ ?ready)"
      using "1.prems"(2) by (rule follows_append) auto
    have dist: "distinct ((resolved @ ?ready) @ filter (\<lambda>i. i \<notin> set ?ready) pending)"
      using "1.prems"(3) by (auto simp: ready_tasks_def)
    from "1.IH"[OF False refl ne loop resp dist] show ?thesis by auto
  qed
qed

lemma order_loop_Inl:
  assumes "order_loop deps pending resolved = Inl e"
    and "\<And>i. i \<in> set pending \<Longrightarrow> set (deps i) \<subseteq> set resolved \<union> set pending"
  shows "e = CyclicPlan \<and> (\<exists>S \<subseteq> set pending. S \<noteq> {} \<and> (\<forall>i\<in>S. \<exists>d\<in>S. d \<in> set (deps i)))"
  using assms
proof (induction deps pending resolved rule: order_loop.induct)
  case (1 deps pending resolved)
  let ?ready = "ready_tasks deps pending resolved"
  have ne: "pending \<noteq> []" using "1.prems"(1) by (auto simp: order_loop.simps)
  show ?case
  proof (cases "?ready = []")
    case True
    then have "{i \<in> set pending. set (deps i) \<subseteq> set resolved} = {}" by (metis set_ready set_empty)
    with "1.prems"(2) have "\<forall>i\<in>set pending. \<exists>d\<in>set pending. d \<in> set (deps i)" by blast
    moreover have "e = CyclicPlan"
      using "1.prems"(1) ne True by (simp add: order_loop.simps[of deps pending] Let_def)
    ultimately show ?thesis using ne by (intro conjI exI[of _ "set pending"]) auto
  next
    case False
    with "1.prems"(1) ne
    have loop: "order_loop deps (filter (\<lambda>i. i \<notin> set ?ready) pending) (resolved @ ?ready) = Inl e"
      by (auto simp: order_loop.simps[of deps pending] Let_def split: if_splits)
    have "\<And>i. i \<in> set (filter (\<lambda>i. i \<notin> set ?ready) pending) \<Longrightarrow>
        set (deps i) \<subseteq> set (resolved @ ?ready) \<union> set (filter (\<lambda>i. i \<notin> set ?ready) pending)"
      using "1.prems"(2) by (simp del: set_ready) blast
    from "1.IH"[OF ne refl False loop this] obtain S where "e = CyclicPlan"
      "S \<subseteq> set (filter (\<lambda>i. i \<notin> set ?ready) pending)" "S \<noteq> {}"
      "\<forall>i\<in>S. \<exists>d\<in>S. d \<in> set (deps i)" by blast
    moreover have "set (filter (\<lambda>i. i \<notin> set ?ready) pending) \<subseteq> set pending" by auto
    ultimately show ?thesis by (meson subset_trans)
  qed
qed

text \<open>An order that respects the dependencies rules out cycles, and a cycle-free finite set has one.\<close>

definition position :: "'a list \<Rightarrow> 'a \<Rightarrow> nat" where
  "position xs i = length (takeWhile (\<lambda>j. j \<noteq> i) xs)"

lemma position_split: "distinct (ys @ i # zs) \<Longrightarrow> position (ys @ i # zs) i = length ys"
  by (induction ys) (auto simp: position_def)

lemma follows_position:
  assumes "follows deps xs" "distinct xs" "i \<in> set xs" "d \<in> set (deps i)"
  shows "d \<in> set xs \<and> position xs d < position xs i"
proof -
  obtain ys zs where xs: "xs = ys @ i # zs" using assms(3) by (meson split_list)
  with assms(1,4) have "d \<in> set ys" by (auto simp: follows_def)
  then obtain us vs where ys: "ys = us @ d # vs" by (meson split_list)
  have "position xs d = length us"
    using assms(2) position_split[of us d "vs @ i # zs"] by (simp add: xs ys)
  moreover have "position xs i = length ys" using assms(2) position_split xs by metis
  ultimately show ?thesis using xs ys by simp
qed

lemma follows_acyclic:
  assumes "follows deps xs" "distinct xs" "ids \<subseteq> set xs"
  shows "acyclic (depends deps ids)"
proof (rule wf_acyclic, rule wf_subset)
  show "wf (measure (position xs))" by simp
  show "depends deps ids \<subseteq> measure (position xs)"
    using follows_position[OF assms(1,2)] assms(3) by (auto simp: depends_def)
qed

lemma cycle_not_acyclic:
  assumes "finite S" "S \<noteq> {}" "S \<subseteq> ids" "\<forall>i\<in>S. \<exists>d\<in>S. d \<in> set (deps i)"
  shows "\<not> acyclic (depends deps ids)"
proof
  assume "acyclic (depends deps ids)"
  then have "acyclic (depends deps S)"
    by (rule acyclic_subset) (use assms(3) in \<open>auto simp: depends_def\<close>)
  moreover have "finite (depends deps S)"
    by (rule finite_subset[of _ "(\<Union>i\<in>S. set (deps i)) \<times> S"])
      (use assms(1) in \<open>auto simp: depends_def\<close>)
  ultimately have wf: "wf (depends deps S)" by (rule finite_acyclic_wf[rotated])
  obtain k where "k \<in> S" using assms(2) by auto
  from wfE_min[OF wf this] assms(4) show False by (fastforce simp: depends_def)
qed

section \<open>Correctness of the writer check\<close>

lemma trancl_depends:
  "(d, i) \<in> (depends deps UNIV)\<^sup>+ \<longleftrightarrow>
     d \<in> set (deps i) \<or> (\<exists>e \<in> set (deps i). (d, e) \<in> (depends deps UNIV)\<^sup>+)"
  by (subst trancl_unfold) (auto simp: depends_def)

lemma add_ancestors_at [simp]:
  "add_ancestors deps j anc j =
     Some (deps j @ concat (map (\<lambda>d. case anc d of None \<Rightarrow> [] | Some ds \<Rightarrow> ds) (deps j)))"
  "i \<noteq> j \<Longrightarrow> add_ancestors deps j anc i = anc i"
  by (simp_all add: add_ancestors_def)

text \<open>The dictionary holds exactly the transitive dependencies of the tasks it was built for.\<close>

lemma ancestors_correct:
  assumes "follows deps order" "distinct order" "i \<in> set order"
  shows "\<exists>ds. fold (add_ancestors deps) order Map.empty i = Some ds
    \<and> set ds = {d. (d, i) \<in> (depends deps UNIV)\<^sup>+}"
  using assms
proof (induction order arbitrary: i rule: rev_induct)
  case (snoc j order)
  let ?anc = "fold (add_ancestors deps) order Map.empty"
  have IH: "\<And>k. k \<in> set order \<Longrightarrow> \<exists>ds. ?anc k = Some ds \<and> set ds = {d. (d, k) \<in> (depends deps UNIV)\<^sup>+}"
    using snoc by (auto simp: follows_snoc)
  have deps: "set (deps j) \<subseteq> set order" using snoc.prems(1) by (simp add: follows_snoc)
  show ?case
  proof (cases "i = j")
    case False
    with snoc.prems(3) IH show ?thesis by simp
  next
    case True
    have "(\<Union>d\<in>set (deps j). set (case ?anc d of None \<Rightarrow> [] | Some ds \<Rightarrow> ds))
        = (\<Union>d\<in>set (deps j). {e. (e, d) \<in> (depends deps UNIV)\<^sup>+})"
      using IH deps by (intro SUP_cong refl) force
    then have "set (the (fold (add_ancestors deps) (order @ [j]) Map.empty j))
        = {d. (d, j) \<in> (depends deps UNIV)\<^sup>+}"
      by (subst trancl_depends) auto
    with True show ?thesis by simp
  qed
qed simp

lemma pairwise_all_trans:
  assumes "pairwise_all P xs" "\<And>a b c. P a b \<Longrightarrow> P b c \<Longrightarrow> P a c"
  shows "sorted_wrt P xs"
  using assms(1)
proof (induction xs rule: induct_list012)
  case (3 x y zs)
  then have "P x y" "sorted_wrt P (y # zs)" by simp_all
  with assms(2) show ?case by auto
qed auto

lemma pairwise_all_cong:
  "pairwise_all P xs \<Longrightarrow> (\<And>a b. a \<in> set xs \<Longrightarrow> b \<in> set xs \<Longrightarrow> P a b \<Longrightarrow> Q a b) \<Longrightarrow> pairwise_all Q xs"
  by (induction xs rule: induct_list012) auto

end
