(* ===== verification/PlanCompile.thy ===== *)
theory PlanCompile
  imports PlanOrder
begin

text \<open>
  The compiler and the policy kernel of \<open>orchestration/execution_plan.py\<close>: an untrusted draft
  becomes a host-owned plan, a tool action is authorised, an attempt's evidence is routed. The
  error signature of an attempt (Unicode case folding and regular-expression substitution) is not
  modelled.
\<close>

section \<open>Compiling a draft\<close>

definition EXECUTION_PLAN_DRAFT_SCHEMA :: string where
  "EXECUTION_PLAN_DRAFT_SCHEMA = ''blackcell.plan-draft/v1''"

definition invalid :: "'a option \<Rightarrow> plan_error + 'a" where
  "invalid m = efail_on_None InvalidExecutionContract m"

definition compile_task :: "goal_spec \<Rightarrow> json \<Rightarrow> plan_error + task_spec" where
  "compile_task goal value =
     ebind (invalid (do { raw \<leftarrow> as_obj value;
       ensure (keys_are raw [''task_id'', ''objective'', ''depends_on'', ''allowed_paths'', ''checks'']);
       dependencies \<leftarrow> as_arr (jget raw ''depends_on'');
       raw_paths \<leftarrow> as_arr (jget raw ''allowed_paths'');
       raw_checks \<leftarrow> as_arr (jget raw ''checks'');
       ensure (length raw_paths \<le> 256 \<and> 1 \<le> length raw_checks \<and> length raw_checks \<le> 32);
       paths \<leftarrow> traverse json_text raw_paths;
       Some (raw, dependencies, paths, raw_checks) })) (\<lambda>(raw, dependencies, paths, raw_checks).
     ebind (check PlanPathOutsideGoal (set paths \<subseteq> set (go_allowed_paths goal))) (\<lambda>_.
     ebind (invalid (do { check_ids \<leftarrow> traverse json_text raw_checks;
       ensure (distinct check_ids); Some check_ids })) (\<lambda>check_ids.
     ebind (efail_on_None PlanCheckOutsideGoal
       (traverse (\<lambda>i. find (\<lambda>c. ck_id c = i) (go_checks goal)) check_ids)) (\<lambda>checks.
     invalid (do {
       i \<leftarrow> json_text (jget raw ''task_id'');
       objective \<leftarrow> json_text (jget raw ''objective'');
       depends \<leftarrow> traverse json_text dependencies;
       make_task i objective depends paths checks (go_max_attempts goal) })))))"

definition plan_identity :: "goal_spec \<Rightarrow> int \<Rightarrow> string option \<Rightarrow> string \<Rightarrow> task_spec list \<Rightarrow> string" where
  "plan_identity goal revision supersedes draft_digest tasks =
     json_digest (JObj [(''goal_digest'', JStr (goal_digest goal)), (''plan_version'', JInt revision),
       (''supersedes_plan_id'', opt_str supersedes), (''draft_digest'', JStr draft_digest),
       (''task_digests'', strings (map ta_digest tasks))])"

definition compile_plan :: "goal_spec \<Rightarrow> jobject \<Rightarrow> plan option \<Rightarrow> plan_error + plan" where
  "compile_plan goal draft previous =
     ebind (invalid (do {
       ensure (keys_are draft [''schema_version'', ''tasks'']
         \<and> jget draft ''schema_version'' = JStr EXECUTION_PLAN_DRAFT_SCHEMA);
       raw_tasks \<leftarrow> as_arr (jget draft ''tasks'');
       ensure (1 \<le> length raw_tasks \<and> length raw_tasks \<le> 64);
       Some raw_tasks })) (\<lambda>raw_tasks.
     ebind (etraverse (compile_task goal) raw_tasks) (\<lambda>tasks.
     ebind (check PlanCheckCoverageIncomplete
       (set (concat (map (\<lambda>t. map ck_id (ta_checks t)) tasks)) = set (map ck_id (go_checks goal)))) (\<lambda>_.
     let draft_digest = json_digest (JObj draft) in
     ebind (case previous of None \<Rightarrow> Inr (1, None)
       | Some q \<Rightarrow> if pl_goal_id q = go_id goal \<and> pl_project_id q = go_project_id goal
              \<and> pl_intent_id q = go_intent_id goal \<and> pl_base_commit q = go_base_commit goal
           then Inr (pl_revision q + 1, Some (pl_id q)) else Inl InvalidPlanLineage)
       (\<lambda>(revision, supersedes).
     make_plan \<lparr>pl_id = ''plan-'' @ take 32 (removeprefix
         (plan_identity goal revision supersedes draft_digest tasks) ''sha256:''),
       pl_goal_id = go_id goal, pl_project_id = go_project_id goal,
       pl_intent_id = go_intent_id goal, pl_revision = revision, pl_supersedes = supersedes,
       pl_base_commit = go_base_commit goal, pl_draft_digest = draft_digest, pl_tasks = tasks,
       pl_schema = EXECUTION_PLAN_SCHEMA, pl_digest = []\<rparr>))))"

text \<open>A field that is null or a string.\<close>

definition optional_str :: "json \<Rightarrow> string option option" where
  "optional_str v = (if v = JNull then Some None else map_option Some (as_str v))"

definition plan_from_payload :: "json \<Rightarrow> plan_error + plan" where
  "plan_from_payload v =
     ebind (invalid (do {
       raw \<leftarrow> as_obj v;
       ensure (keys_are raw [''schema_version'', ''plan_id'', ''goal_id'', ''project_id'',
         ''intent_id'', ''plan_version'', ''supersedes_plan_id'', ''base_commit'', ''draft_digest'',
         ''tasks'', ''topological_order'']);
       items \<leftarrow> as_arr (jget raw ''tasks'');
       tasks \<leftarrow> traverse task_from_payload items;
       supersedes \<leftarrow> optional_str (jget raw ''supersedes_plan_id'');
       schema \<leftarrow> mapping_text raw ''schema_version'';
       i \<leftarrow> mapping_text raw ''plan_id'';
       goal \<leftarrow> mapping_text raw ''goal_id'';
       project \<leftarrow> mapping_text raw ''project_id'';
       intent \<leftarrow> mapping_text raw ''intent_id'';
       revision \<leftarrow> mapping_integer raw ''plan_version'';
       base \<leftarrow> mapping_text raw ''base_commit'';
       draft \<leftarrow> mapping_text raw ''draft_digest'';
       Some (raw, \<lparr>pl_id = i, pl_goal_id = goal, pl_project_id = project, pl_intent_id = intent,
         pl_revision = revision, pl_supersedes = supersedes, pl_base_commit = base,
         pl_draft_digest = draft, pl_tasks = tasks, pl_schema = schema, pl_digest = []\<rparr>) }))
     (\<lambda>(raw, p). ebind (make_plan p) (\<lambda>q.
     ebind (invalid (text_sequence (jget raw ''topological_order''))) (\<lambda>order.
     ebind (plan_order q) (\<lambda>expected.
     ebind (check InvalidExecutionContract (order = expected)) (\<lambda>_. Inr q)))))"

section \<open>Authority\<close>

record execution_authority =
  ea_budget :: gateway_budget
  ea_check_timeout_seconds :: int
  ea_max_changed_paths :: int
  ea_consumed_budget :: gateway_budget
  ea_input_tokens_complete :: bool
  ea_output_tokens_complete :: bool
  ea_cost_microusd_complete :: bool

definition execution_authority_ok :: "execution_authority \<Rightarrow> bool" where
  "execution_authority_ok a \<longleftrightarrow>
     max_input_tokens (ea_consumed_budget a) \<le> max_input_tokens (ea_budget a)
     \<and> max_output_tokens (ea_consumed_budget a) \<le> max_output_tokens (ea_budget a)
     \<and> max_latency_ms (ea_consumed_budget a) \<le> max_latency_ms (ea_budget a)
     \<and> max_cost_microusd (ea_consumed_budget a) \<le> max_cost_microusd (ea_budget a)
     \<and> 1 \<le> ea_check_timeout_seconds a \<and> ea_check_timeout_seconds a \<le> 600
     \<and> 0 \<le> ea_max_changed_paths a \<and> ea_max_changed_paths a \<le> 10000"

record planning_request =
  pr_goal :: goal_spec
  pr_classification :: data_classification
  pr_locality :: locality_policy
  pr_budget :: gateway_budget
  pr_estimated_input_tokens :: int
  pr_correlation_id :: string
  pr_run_id :: string

definition planning_request_ok :: "planning_request \<Rightarrow> bool" where
  "planning_request_ok r \<longleftrightarrow> 0 \<le> pr_estimated_input_tokens r
     \<and> plan_identifier (pr_correlation_id r) \<and> plan_identifier (pr_run_id r)"

record planning_result =
  pn_draft :: jobject
  pn_provider_output_digest :: string
  pn_profile_id :: string
  pn_adapter_id :: string
  pn_model_id :: string
  pn_input_tokens :: "int option"
  pn_output_tokens :: "int option"
  pn_latency_ms :: int
  pn_cost_microusd :: "int option"

definition planning_result_ok :: "planning_result \<Rightarrow> bool" where
  "planning_result_ok r \<longleftrightarrow> re_digest (pn_provider_output_digest r)
     \<and> list_all plan_identifier [pn_profile_id r, pn_adapter_id r, pn_model_id r]
     \<and> list_all usage_ok [pn_input_tokens r, pn_output_tokens r, pn_cost_microusd r]
     \<and> 0 \<le> pn_latency_ms r"

record tool_action_request =
  tr_run_id :: string
  tr_plan_id :: string
  tr_task_id :: string
  tr_attempt :: int
  tr_capability :: string
  tr_allowed_paths :: "string list"
  tr_destructive :: bool

text \<open>\<open>ToolActionRequest.__post_init__\<close>.\<close>

definition make_tool_action :: "tool_action_request \<Rightarrow> tool_action_request option" where
  "make_tool_action r = do {
     ensure (list_all plan_identifier [tr_run_id r, tr_plan_id r, tr_task_id r, tr_capability r]);
     ensure (1 \<le> tr_attempt r);
     paths \<leftarrow> path_tuple (tr_allowed_paths r);
     Some (r\<lparr>tr_allowed_paths := paths\<rparr>) }"

definition tool_action_digest :: "tool_action_request \<Rightarrow> string" where
  "tool_action_digest r = json_digest (JObj [(''run_id'', JStr (tr_run_id r)),
     (''plan_id'', JStr (tr_plan_id r)), (''task_id'', JStr (tr_task_id r)),
     (''attempt'', JInt (tr_attempt r)), (''capability'', JStr (tr_capability r)),
     (''allowed_paths'', strings (tr_allowed_paths r)), (''destructive'', JBool (tr_destructive r))])"

record policy_decision =
  pd_allowed :: bool
  pd_reason :: string
  pd_action_digest :: string
  pd_decision_id :: string

text \<open>\<open>PolicyDecision.__post_init__\<close>: the decision identifier binds verdict, reason and action.\<close>

definition make_policy_decision :: "bool \<Rightarrow> string \<Rightarrow> string \<Rightarrow> policy_decision option" where
  "make_policy_decision allowed reason action_digest = do {
     ensure (plan_identifier reason \<and> re_digest action_digest);
     Some \<lparr>pd_allowed = allowed, pd_reason = reason, pd_action_digest = action_digest,
       pd_decision_id = json_digest (JObj [(''allowed'', JBool allowed), (''reason'', JStr reason),
         (''action_digest'', JStr action_digest)])\<rparr> }"

definition action_in_scope :: "goal_spec \<Rightarrow> plan \<Rightarrow> task_spec \<Rightarrow> tool_action_request \<Rightarrow> bool" where
  "action_in_scope goal p task r \<longleftrightarrow> \<not> (tr_run_id r = [] \<or> tr_plan_id r \<noteq> pl_id p
     \<or> tr_task_id r \<noteq> ta_id task \<or> tr_capability r \<noteq> ''repository-task'' \<or> tr_destructive r
     \<or> \<not> (1 \<le> tr_attempt r \<and> tr_attempt r \<le> min (go_max_attempts goal) (ta_max_attempts task))
     \<or> \<not> set (tr_allowed_paths r) \<subseteq> set (go_allowed_paths goal)
     \<or> tr_allowed_paths r \<noteq> ta_allowed_paths task)"

definition authorize ::
    "goal_spec \<Rightarrow> plan \<Rightarrow> task_spec \<Rightarrow> tool_action_request \<Rightarrow> policy_decision option" where
  "authorize goal p task r =
     (if \<not> action_in_scope goal p task r
      then make_policy_decision False ''intent-scope-violation'' (tool_action_digest r)
      else make_policy_decision True ''bounded-task-authorized'' (tool_action_digest r))"

section \<open>Attempts\<close>

datatype failure_class =
  Transient | LogicBug | ContractMismatch | MissingDependency | InvalidAssumption | PolicyFailure
  | Unclassified

datatype attempt_route =
  RouteSucceeded | RouteRepairable | RouteReplanRequired | RouteBlocked | RouteEscalated
  | RouteTerminalFailure

record attempt_evidence =
  ae_workspace_clean :: bool
  ae_verifier_exit_code :: int
  ae_required_checks_passed :: bool
  ae_failure_class :: "failure_class option"
  ae_failure_summary :: "string option"
  ae_artifact_digests :: "string list"
  ae_progress_digests :: "string list"
  ae_head_commit :: string
  ae_input_tokens :: "int option"
  ae_output_tokens :: "int option"
  ae_latency_ms :: int
  ae_cost_microusd :: "int option"
  ae_schema :: string

definition EXECUTION_ATTEMPT_EVIDENCE_SCHEMA :: string where
  "EXECUTION_ATTEMPT_EVIDENCE_SCHEMA = ''blackcell.attempt-evidence/v1''"

definition attempt_succeeded :: "attempt_evidence \<Rightarrow> bool" where
  "attempt_succeeded e \<longleftrightarrow> ae_verifier_exit_code e = 0 \<and> ae_required_checks_passed e"

text \<open>\<open>AttemptEvidence.__post_init__\<close>.\<close>

definition make_attempt_evidence :: "attempt_evidence \<Rightarrow> attempt_evidence option" where
  "make_attempt_evidence e = do {
     ensure (ae_schema e = EXECUTION_ATTEMPT_EVIDENCE_SCHEMA);
     ensure (0 \<le> ae_verifier_exit_code e \<and> ae_verifier_exit_code e \<le> 255
       \<and> commit_id (ae_head_commit e));
     ensure (if attempt_succeeded e
       then ae_failure_class e = None \<and> ae_failure_summary e = None
       else ae_failure_class e \<noteq> None \<and> (case ae_failure_summary e of None \<Rightarrow> False
              | Some s \<Rightarrow> py_strip s \<noteq> [] \<and> utf8_length s \<le> 4096));
     ensure (ae_artifact_digests e \<noteq> [] \<and> ae_progress_digests e \<noteq> []);
     let artifacts = sorted_set (ae_artifact_digests e);
         progress = sorted_set (ae_progress_digests e)
     in do {
       ensure (list_all re_digest (artifacts @ progress) \<and> set progress \<subseteq> set artifacts);
       ensure (list_all usage_ok [ae_input_tokens e, ae_output_tokens e, ae_cost_microusd e]
         \<and> 0 \<le> ae_latency_ms e);
       Some (e\<lparr>ae_artifact_digests := artifacts, ae_progress_digests := progress\<rparr>) } }"

text \<open>\<open>ExecutionPolicyKernel.route\<close>.\<close>

definition route ::
    "goal_spec \<Rightarrow> task_spec \<Rightarrow> attempt_evidence \<Rightarrow> int \<Rightarrow> int \<Rightarrow> bool \<Rightarrow> attempt_route" where
  "route goal task e attempt same_error_count new_evidence =
     (if \<not> ae_workspace_clean e then RouteBlocked
      else if attempt_succeeded e then RouteSucceeded
      else if ae_failure_class e = Some MissingDependency
        \<or> ae_failure_class e = Some InvalidAssumption then RouteReplanRequired
      else if go_same_error_limit goal \<le> same_error_count \<and> \<not> new_evidence then RouteEscalated
      else if min (go_max_attempts goal) (ta_max_attempts task) \<le> attempt then RouteEscalated
      else if ae_failure_class e = Some Transient \<or> ae_failure_class e = Some LogicBug
        \<or> ae_failure_class e = Some ContractMismatch then RouteRepairable
      else if ae_failure_class e = Some PolicyFailure then RouteBlocked
      else RouteTerminalFailure)"

section \<open>Promotion candidates\<close>

record promotion_candidate =
  cd_candidate_id :: string
  cd_run_id :: string
  cd_plan_id :: string
  cd_task_id :: string
  cd_kind :: string
  cd_evidence_event_ids :: "string list"
  cd_evidence_digests :: "string list"
  cd_schema :: string

definition promotion_candidate_ok :: "promotion_candidate \<Rightarrow> bool" where
  "promotion_candidate_ok c \<longleftrightarrow> cd_schema c = ''praxis-promotion-candidate/v1''
     \<and> list_all plan_identifier
         [cd_candidate_id c, cd_run_id c, cd_plan_id c, cd_task_id c, cd_kind c]
     \<and> cd_evidence_event_ids c \<noteq> [] \<and> list_all (\<lambda>i. i \<noteq> []) (cd_evidence_event_ids c)
     \<and> list_all re_digest (cd_evidence_digests c)"

section \<open>The planner's output schema\<close>

definition PLAN_DRAFT_OUTPUT_SCHEMA :: jobject where
  "PLAN_DRAFT_OUTPUT_SCHEMA =
     [(''$schema'', JStr ''https://json-schema.org/draft/2020-12/schema''), (''type'', JStr ''object''),
      (''additionalProperties'', JBool False), (''required'', strings [''schema_version'', ''tasks'']),
      (''properties'', JObj
        [(''schema_version'', JObj [(''type'', JStr ''string''),
            (''const'', JStr EXECUTION_PLAN_DRAFT_SCHEMA)]),
         (''tasks'', JObj [(''type'', JStr ''array''), (''minItems'', JInt 1), (''maxItems'', JInt 64),
            (''items'', JObj [(''type'', JStr ''object''), (''additionalProperties'', JBool False),
              (''required'', strings [''task_id'', ''objective'', ''depends_on'', ''allowed_paths'',
                 ''checks'']),
              (''properties'', JObj
                [(''task_id'', JObj [(''type'', JStr ''string''), (''minLength'', JInt 1),
                    (''maxLength'', JInt 128)]),
                 (''objective'', JObj [(''type'', JStr ''string''), (''minLength'', JInt 1),
                    (''maxLength'', JInt 16384)]),
                 (''depends_on'', JObj [(''type'', JStr ''array''),
                    (''items'', JObj [(''type'', JStr ''string'')])]),
                 (''allowed_paths'', JObj [(''type'', JStr ''array''),
                    (''items'', JObj [(''type'', JStr ''string'')])]),
                 (''checks'', JObj [(''type'', JStr ''array''), (''minItems'', JInt 1),
                    (''maxItems'', JInt 32), (''items'', JObj [(''type'', JStr ''string''),
                      (''minLength'', JInt 1), (''maxLength'', JInt 128)])])])])])])]"

end
