(* ===== verification/PlanFacts.thy ===== *)
theory PlanFacts
  imports PlanCompile
begin

text \<open>
  Lemmas on the plan values: what normalisation does to texts, paths and checks, which payloads
  read back, and what compilation takes over from the goal.
\<close>

section \<open>Texts\<close>

lemma py_strip_Nil: "py_strip s = [] \<longleftrightarrow> list_all py_space s"
proof -
  have "py_strip s = [] \<longleftrightarrow> (\<forall>x\<in>set (dropWhile py_space s). py_space x)"
    by (simp add: py_strip_def)
  also have "\<dots> \<longleftrightarrow> dropWhile py_space s = []"
    by (metis dropWhile_eq_Nil_conv hd_dropWhile hd_in_set list.set(1) empty_iff)
  finally show ?thesis by (simp add: list_all_iff)
qed

lemma alnum_not_space: "is_alnum c \<Longrightarrow> \<not> py_space c"
  by (auto simp: is_alnum_def is_digit_def is_upper_def is_lower_def py_space_def Let_def)

lemma plan_identifier_text [simp]: "plan_identifier s \<Longrightarrow> plan_text s = Some s"
  by (cases s) (auto simp: plan_identifier_def re_ident_def plan_text_def py_strip_Nil
      dest: alnum_not_space)

lemma hex_not_space: "is_lower_hex c \<Longrightarrow> \<not> py_space c"
  by (auto simp: is_lower_hex_def is_digit_def py_space_def Let_def)

lemma commit_id_text [simp]: "commit_id s \<Longrightarrow> plan_text s = Some s"
  by (cases s) (auto simp: commit_id_def re_hex_def plan_text_def py_strip_Nil dest: hex_not_space)

lemma digest_text [simp]: "re_digest s \<Longrightarrow> plan_text s = Some s"
proof -
  assume "re_digest s"
  then have "CHR ''s'' \<in> set s" by (auto simp: re_digest_def startswith_iff)
  moreover have "\<not> py_space (CHR ''s'')" by (simp add: py_space_def code_def Let_def)
  ultimately show ?thesis by (auto simp: plan_text_def py_strip_Nil list_all_iff)
qed

lemma objective_text [simp]: "objective_ok s \<Longrightarrow> plan_text s = Some s"
  by (simp add: objective_ok_def plan_text_def)

lemma optional_str_opt_str [simp]: "optional_str (opt_str x) = Some x"
  by (cases x) (simp_all add: opt_str_def optional_str_def as_str_def)

definition readable :: "string list \<Rightarrow> bool" where
  "readable xs = list_all (\<lambda>s. py_strip s \<noteq> []) xs"

lemma traverse_plan_text: "traverse plan_text xs = (if readable xs then Some xs else None)"
  by (induction xs) (auto simp: readable_def plan_text_def)

lemma text_sequence_strings [simp]:
  "text_sequence (strings xs) = (if readable xs then Some xs else None)"
proof -
  have "traverse json_text (map JStr xs) = traverse plan_text xs"
    by (induction xs) (auto simp: json_text_def as_str_def)
  then show ?thesis by (simp add: text_sequence_def strings_def as_arr_def traverse_plan_text)
qed

lemma bounded_text_tuple_Some:
  assumes "bounded_text_tuple n xs = Some ys"
  shows "readable ys" "sorted ys" "distinct ys" "length ys \<le> n" "set ys = set xs"
  using assms
  by (auto simp: bounded_text_tuple_def traverse_plan_text readable_def list_all_iff split: if_splits)

lemma bounded_text_tuple_again:
  "bounded_text_tuple n xs = Some ys \<Longrightarrow> bounded_text_tuple n ys = Some ys"
  using bounded_text_tuple_Some[of n xs ys]
  by (simp add: bounded_text_tuple_def traverse_plan_text sorted_sort_id)

section \<open>Paths\<close>

lemma contains_iff: "contains p s \<longleftrightarrow> (\<exists>u v. s = u @ p @ v)"
proof (induction s)
  case (Cons c cs)
  have "(\<exists>u v. c # cs = u @ p @ v) \<longleftrightarrow> (\<exists>v. c # cs = p @ v) \<or> (\<exists>u v. cs = u @ p @ v)"
    by (metis append_Cons append_Nil list.inject neq_Nil_conv)
  with Cons show ?case by (simp add: startswith_iff)
qed auto

text \<open>Stripping removes a suffix of slashes and leaves none.\<close>

lemma rstrip_slash_simps [simp]:
  "rstrip_slash [] = []"
  "rstrip_slash (s @ [c]) = (if c = CHR ''/'' then rstrip_slash s else s @ [c])"
  by (simp_all add: rstrip_slash_def)

lemma rstrip_slash_split: "\<exists>k. s = rstrip_slash s @ replicate k (CHR ''/'')"
proof (induction s rule: rev_induct)
  case (snoc c s)
  then obtain k where k: "s = rstrip_slash s @ replicate k (CHR ''/'')" by blast
  show ?case
  proof (cases "c = CHR ''/''")
    case True
    have "s @ [c] = rstrip_slash s @ replicate (Suc k) (CHR ''/'')"
      using k True by (metis append.assoc replicate_append_same replicate_Suc)
    moreover have "rstrip_slash (s @ [c]) = rstrip_slash s" using True by simp
    ultimately show ?thesis by metis
  next
    case False
    then show ?thesis by (intro exI[of _ 0]) simp
  qed
qed simp

lemma rstrip_slash_idem [simp]: "rstrip_slash (rstrip_slash s) = rstrip_slash s"
  by (induction s rule: rev_induct) simp_all

text \<open>What normalisation leaves is accepted again unless it is blank or the single dot.\<close>

lemma repository_path_again:
  assumes "repository_path t = Some p"
  shows "repository_path p = (if p = ''.'' \<or> py_strip p = [] then None else Some p)"
proof -
  from assms have p: "p = rstrip_slash t" and ok: "\<not> startswith t ''/''" "\<not> startswith t ''../''"
    "\<not> contains ''/../'' (''/'' @ t @ ''/'')" "CHR 0x5C \<notin> set t" "CHR 0x00 \<notin> set t"
    by (auto simp: repository_path_def bind_eq_Some_conv plan_text_def split: if_splits)
  obtain k where t: "t = p @ replicate k (CHR ''/'')" using rstrip_slash_split p by blast
  have "\<not> startswith p ''/''" "\<not> startswith p ''../''"
    using ok(1,2) unfolding t startswith_iff by auto
  moreover have "\<not> contains ''/../'' (''/'' @ p @ ''/'')"
  proof (cases k)
    case 0
    with ok(3) t show ?thesis by simp
  next
    case (Suc j)
    then have "''/'' @ t @ ''/'' = (''/'' @ p @ ''/'') @ replicate j (CHR ''/'') @ ''/''"
      by (simp add: t)
    with ok(3) show ?thesis unfolding contains_iff by (metis append.assoc)
  qed
  moreover from this have "p \<noteq> ''..''" by (auto simp: startswith_iff)
  moreover have "CHR 0x5C \<notin> set p" "CHR 0x00 \<notin> set p" using ok(4,5) t by auto
  ultimately show ?thesis using p by (auto simp: repository_path_def plan_text_def)
qed

definition path_stable :: "string \<Rightarrow> bool" where
  "path_stable p \<longleftrightarrow> p \<noteq> ''.'' \<and> py_strip p \<noteq> []"

lemma path_tuple_Some:
  assumes "path_tuple xs = Some ps"
  shows "sorted ps" "distinct ps" "length ps \<le> 256" "\<forall>p\<in>set ps. \<exists>t\<in>set xs. repository_path t = Some p"
proof -
  from assms obtain qs where qs: "traverse repository_path xs = Some qs" "distinct qs"
    "ps = sort qs" "length xs \<le> 256"
    by (auto simp: path_tuple_def bind_eq_Some_conv split: if_splits)
  then have all2: "list_all2 (\<lambda>x y. repository_path x = Some y) xs qs" by (simp add: traverse_Some_iff)
  show "sorted ps" "distinct ps" using qs by auto
  show "length ps \<le> 256" using qs all2 list_all2_lengthD by fastforce
  show "\<forall>p\<in>set ps. \<exists>t\<in>set xs. repository_path t = Some p"
  proof
    fix p assume "p \<in> set ps"
    then obtain j where j: "j < length qs" "qs ! j = p" using qs(3) by (auto simp: in_set_conv_nth)
    with all2 have "j < length xs" "repository_path (xs ! j) = Some p"
      by (auto simp: list_all2_conv_all_nth)
    then show "\<exists>t\<in>set xs. repository_path t = Some p" using nth_mem by blast
  qed
qed

lemma path_tuple_again:
  assumes "path_tuple xs = Some ps"
  shows "path_tuple ps = (if list_all path_stable ps then Some ps else None)"
proof -
  note ps = path_tuple_Some[OF assms]
  have again: "\<And>p. p \<in> set ps \<Longrightarrow> repository_path p = (if path_stable p then Some p else None)"
  proof -
    fix p assume "p \<in> set ps"
    then obtain t where "repository_path t = Some p" using ps(4) by blast
    from repository_path_again[OF this]
    show "repository_path p = (if path_stable p then Some p else None)"
      by (simp add: path_stable_def)
  qed
  have "traverse repository_path ps = (if list_all path_stable ps then Some ps else None)"
    using again by (induction ps) auto
  with ps show ?thesis by (simp add: path_tuple_def sorted_sort_id)
qed

section \<open>Checks\<close>

lemma sort_checks_simps [simp]:
  "set (sort_checks cs) = set cs" "sort_checks (sort_checks cs) = sort_checks cs"
  "length (sort_checks cs) = length cs" "list_all P (sort_checks cs) = list_all P cs"
  by (simp_all add: sort_checks_def sort_key_id_if_sorted sorted_sort_key list_all_iff)

lemma sort_checks_ids [simp]: "distinct (map ck_id (sort_checks cs)) = distinct (map ck_id cs)"
  by (simp add: distinct_map sort_checks_def)

lemma text_fields [simp]:
  "json_text (JStr s) = plan_text s" "as_int (JInt i) = Some i" "as_obj (JObj kvs) = Some kvs"
  "as_arr (JArr xs) = Some xs" "as_str (JStr s) = Some s"
  by (simp_all add: json_text_def as_int_def as_obj_def as_arr_def as_str_def)

lemma check_readback:
  "check_ok c \<Longrightarrow>
     check_from_payload (check_payload c) = (if readable (ck_argv c) then Some c else None)"
  by (cases c) (simp add: check_from_payload_def check_payload_def mapping_text_def
      mapping_integer_def jget_def check_ok_def Let_def)

lemma checks_readback:
  "list_all check_ok cs \<Longrightarrow> checks_from_payload (JArr (map check_payload cs))
     = (if list_all (\<lambda>c. readable (ck_argv c)) cs then Some cs else None)"
proof -
  assume "list_all check_ok cs"
  then have "traverse check_from_payload (map check_payload cs)
      = (if list_all (\<lambda>c. readable (ck_argv c)) cs then Some cs else None)"
    by (induction cs) (auto simp: check_readback)
  then show ?thesis by (simp add: checks_from_payload_def)
qed

section \<open>Goals\<close>

text \<open>What the constructor establishes.\<close>

definition goal_wf :: "goal_spec \<Rightarrow> bool" where
  "goal_wf g \<longleftrightarrow> go_schema g = EXECUTION_GOAL_SCHEMA
     \<and> list_all plan_identifier [go_id g, go_project_id g, go_intent_id g]
     \<and> objective_ok (go_objective g) \<and> commit_id (go_base_commit g)
     \<and> bounded_text_tuple 64 (go_constraints g) = Some (go_constraints g)
     \<and> (\<exists>raw. path_tuple raw = Some (go_allowed_paths g))
     \<and> 1 \<le> length (go_checks g) \<and> length (go_checks g) \<le> 32 \<and> list_all check_ok (go_checks g)
     \<and> distinct (map ck_id (go_checks g)) \<and> sort_checks (go_checks g) = go_checks g
     \<and> 1 \<le> go_max_attempts g \<and> go_max_attempts g \<le> 3
     \<and> 1 \<le> go_same_error_limit g \<and> go_same_error_limit g \<le> 2"

lemma make_goal_wf: "make_goal r = Some g \<Longrightarrow> goal_wf g"
  by (auto simp: make_goal_def goal_wf_def bind_eq_Some_conv intro: bounded_text_tuple_again
      split: if_splits)

text \<open>What a durable payload additionally needs to be read back.\<close>

definition goal_readable :: "goal_spec \<Rightarrow> bool" where
  "goal_readable g \<longleftrightarrow> list_all path_stable (go_allowed_paths g)
     \<and> list_all (\<lambda>c. readable (ck_argv c)) (go_checks g)"

lemma make_goal_again:
  assumes "goal_wf g"
  shows "make_goal g = (if list_all path_stable (go_allowed_paths g) then Some g else None)"
proof -
  obtain raw where "path_tuple raw = Some (go_allowed_paths g)" using assms by (auto simp: goal_wf_def)
  note paths = path_tuple_again[OF this]
  have "g\<lparr>go_constraints := go_constraints g, go_allowed_paths := go_allowed_paths g,
      go_checks := go_checks g\<rparr> = g" by simp
  with assms paths show ?thesis by (simp add: make_goal_def goal_wf_def)
qed

lemma goal_payload_fields [simp]:
  "jget (goal_payload g) ''schema_version'' = JStr (go_schema g)"
  "jget (goal_payload g) ''goal_id'' = JStr (go_id g)"
  "jget (goal_payload g) ''project_id'' = JStr (go_project_id g)"
  "jget (goal_payload g) ''intent_id'' = JStr (go_intent_id g)"
  "jget (goal_payload g) ''objective'' = JStr (go_objective g)"
  "jget (goal_payload g) ''base_commit'' = JStr (go_base_commit g)"
  "jget (goal_payload g) ''constraints'' = strings (go_constraints g)"
  "jget (goal_payload g) ''allowed_paths'' = strings (go_allowed_paths g)"
  "jget (goal_payload g) ''verification_checks'' = JArr (map check_payload (go_checks g))"
  "jget (goal_payload g) ''max_attempts'' = JInt (go_max_attempts g)"
  "jget (goal_payload g) ''same_error_limit'' = JInt (go_same_error_limit g)"
  by (simp_all add: goal_payload_def jget_def)

lemma goal_payload_keys [simp]:
  "keys_are (goal_payload g) [''schema_version'', ''goal_id'', ''project_id'', ''intent_id'',
     ''objective'', ''base_commit'', ''constraints'', ''allowed_paths'', ''verification_checks'',
     ''max_attempts'', ''same_error_limit'']"
  by (simp add: keys_are_def goal_payload_def)

lemma stable_readable: "list_all path_stable ps \<Longrightarrow> readable ps"
  by (auto simp: path_stable_def readable_def list_all_iff)

lemma goal_readback:
  assumes "goal_wf g"
  shows "goal_from_payload (JObj (goal_payload g)) = (if goal_readable g then Some g else None)"
proof -
  have again: "make_goal \<lparr>go_id = go_id g, go_project_id = go_project_id g,
      go_intent_id = go_intent_id g, go_objective = go_objective g,
      go_base_commit = go_base_commit g, go_constraints = go_constraints g,
      go_allowed_paths = go_allowed_paths g, go_checks = go_checks g,
      go_max_attempts = go_max_attempts g, go_same_error_limit = go_same_error_limit g,
      go_schema = EXECUTION_GOAL_SCHEMA\<rparr> = make_goal g"
    using assms by (cases g) (simp add: goal_wf_def)
  have "plan_text (go_schema g) = Some (go_schema g)"
    using assms by (simp add: goal_wf_def EXECUTION_GOAL_SCHEMA_def plan_text_def py_strip_Nil
        py_space_def code_def)
  moreover have "readable (go_constraints g)"
    using assms bounded_text_tuple_Some(1) by (auto simp: goal_wf_def)
  ultimately show ?thesis
    using assms stable_readable[of "go_allowed_paths g"]
    by (auto simp: goal_from_payload_def goal_readable_def mapping_text_def mapping_integer_def
        checks_readback goal_wf_def again make_goal_again[OF assms])
qed

section \<open>Tasks\<close>

definition task_wf :: "task_spec \<Rightarrow> bool" where
  "task_wf t \<longleftrightarrow> plan_identifier (ta_id t) \<and> objective_ok (ta_objective t)
     \<and> sorted (ta_depends_on t) \<and> distinct (ta_depends_on t) \<and> ta_id t \<notin> set (ta_depends_on t)
     \<and> list_all plan_identifier (ta_depends_on t)
     \<and> (\<exists>raw. path_tuple raw = Some (ta_allowed_paths t))
     \<and> ta_checks t \<noteq> [] \<and> length (ta_checks t) \<le> 32 \<and> distinct (map ck_id (ta_checks t))
     \<and> sort_checks (ta_checks t) = ta_checks t \<and> list_all check_ok (ta_checks t)
     \<and> 1 \<le> ta_max_attempts t \<and> ta_max_attempts t \<le> 3
     \<and> ta_digest t = json_digest (JObj (task_payload t))"

lemma task_payload_digest [simp]: "task_payload (t\<lparr>ta_digest := d\<rparr>) = task_payload t"
  by (simp add: task_payload_def)

lemma make_task_wf:
  assumes "make_task i obj deps paths checks n = Some t" "list_all check_ok checks"
  shows "task_wf t"
proof -
  from assms(1) obtain ps where t: "t = \<lparr>ta_id = i, ta_objective = obj,
      ta_depends_on = sorted_set deps, ta_allowed_paths = ps, ta_checks = sort_checks checks,
      ta_max_attempts = n, ta_digest = json_digest (JObj (task_payload \<lparr>ta_id = i, ta_objective = obj,
      ta_depends_on = sorted_set deps, ta_allowed_paths = ps, ta_checks = sort_checks checks,
      ta_max_attempts = n, ta_digest = []\<rparr>))\<rparr>"
    and ok: "plan_identifier i" "objective_ok obj" "i \<notin> set deps"
      "list_all plan_identifier (sorted_set deps)" "path_tuple paths = Some ps" "checks \<noteq> []"
      "length checks \<le> 32" "distinct (map ck_id checks)" "1 \<le> n" "n \<le> 3"
    by (auto simp: make_task_def bind_eq_Some_conv Let_def split: if_splits)
  have "sort_checks checks \<noteq> []" using ok(6) by (metis length_0_conv sort_checks_simps(3))
  with ok assms(2) show ?thesis unfolding t task_wf_def by (auto simp: task_payload_def)
qed

lemma task_payload_fields [simp]:
  "jget (task_payload t) ''task_id'' = JStr (ta_id t)"
  "jget (task_payload t) ''objective'' = JStr (ta_objective t)"
  "jget (task_payload t) ''depends_on'' = strings (ta_depends_on t)"
  "jget (task_payload t) ''allowed_paths'' = strings (ta_allowed_paths t)"
  "jget (task_payload t) ''checks'' = JArr (map check_payload (ta_checks t))"
  "jget (task_payload t) ''max_attempts'' = JInt (ta_max_attempts t)"
  by (simp_all add: task_payload_def jget_def)

lemma task_payload_keys [simp]:
  "keys_are (task_payload t) [''task_id'', ''objective'', ''depends_on'', ''allowed_paths'',
     ''checks'', ''max_attempts'']"
  by (simp add: keys_are_def task_payload_def)

definition task_readable :: "task_spec \<Rightarrow> bool" where
  "task_readable t \<longleftrightarrow> list_all path_stable (ta_allowed_paths t)
     \<and> list_all (\<lambda>c. readable (ck_argv c)) (ta_checks t)"

lemma identifiers_readable: "list_all plan_identifier xs \<Longrightarrow> readable xs"
proof -
  have "plan_identifier x \<Longrightarrow> py_strip x \<noteq> []" for x
    using plan_identifier_text[of x] by (auto simp: plan_text_def split: if_splits)
  then show "list_all plan_identifier xs \<Longrightarrow> readable xs" by (auto simp: readable_def list_all_iff)
qed

lemma task_readback:
  assumes "task_wf t"
  shows "task_from_payload (JObj (task_payload t)) = (if task_readable t then Some t else None)"
proof -
  obtain raw where "path_tuple raw = Some (ta_allowed_paths t)" using assms by (auto simp: task_wf_def)
  note paths = path_tuple_again[OF this]
  have eta: "\<lparr>ta_id = ta_id t, ta_objective = ta_objective t, ta_depends_on = ta_depends_on t,
      ta_allowed_paths = ta_allowed_paths t, ta_checks = ta_checks t,
      ta_max_attempts = ta_max_attempts t, ta_digest = []\<rparr> = t\<lparr>ta_digest := []\<rparr>"
    by (cases t) simp
  have "make_task (ta_id t) (ta_objective t) (ta_depends_on t) (ta_allowed_paths t) (ta_checks t)
      (ta_max_attempts t) = (if list_all path_stable (ta_allowed_paths t) then Some t else None)"
    using assms paths by (simp add: make_task_def task_wf_def Let_def eta)
  moreover have "readable (ta_depends_on t)"
    using assms identifiers_readable by (simp add: task_wf_def)
  ultimately show ?thesis
    using assms stable_readable[of "ta_allowed_paths t"]
    by (auto simp: task_from_payload_def task_readable_def mapping_text_def mapping_integer_def
        checks_readback task_wf_def)
qed

section \<open>Plans\<close>

lemma sort_tasks_simps [simp]:
  "list_all P (sort_key ta_id ts) = list_all P ts"
  "distinct (map ta_id (sort_key ta_id ts)) = distinct (map ta_id ts)"
  by (simp_all add: list_all_iff distinct_map)

text \<open>What the constructor checks of the header, and the shape of its result.\<close>

definition plan_header_ok :: "plan \<Rightarrow> bool" where
  "plan_header_ok p \<longleftrightarrow> pl_schema p = EXECUTION_PLAN_SCHEMA
     \<and> list_all plan_identifier [pl_id p, pl_goal_id p, pl_project_id p, pl_intent_id p]
     \<and> 1 \<le> pl_revision p \<and> (pl_revision p = 1 \<longleftrightarrow> pl_supersedes p = None)
     \<and> (case pl_supersedes p of None \<Rightarrow> True | Some q \<Rightarrow> plan_identifier q \<and> q \<noteq> pl_id p)
     \<and> commit_id (pl_base_commit p) \<and> re_digest (pl_draft_digest p)"

definition tasks_closed :: "task_spec list \<Rightarrow> bool" where
  "tasks_closed ts \<longleftrightarrow> 1 \<le> length ts \<and> length ts \<le> 64 \<and> distinct (map ta_id ts)
     \<and> list_all (\<lambda>t. set (ta_depends_on t) \<subseteq> set (map ta_id ts)) ts"

lemma plan_payload_digest [simp]: "plan_payload (p\<lparr>pl_digest := d\<rparr>) = plan_payload p"
  by (simp add: plan_payload_def plan_order_def)

lemma plan_header_update [simp]:
  "plan_header_ok (p\<lparr>pl_tasks := ts\<rparr>) = plan_header_ok p"
  "plan_header_ok (p\<lparr>pl_digest := d\<rparr>) = plan_header_ok p"
  by (simp_all add: plan_header_ok_def split: option.split)

lemma make_plan_header: "make_plan p =
     ebind (check InvalidExecutionContract (plan_header_ok p)) (\<lambda>_.
     ebind (check InvalidExecutionContract (tasks_closed (sort_key ta_id (pl_tasks p)))) (\<lambda>_.
     ebind (topological_order (sort_key ta_id (pl_tasks p))) (\<lambda>_.
     ebind (validate_writer_order (sort_key ta_id (pl_tasks p))) (\<lambda>_.
     ebind (plan_payload (p\<lparr>pl_tasks := sort_key ta_id (pl_tasks p)\<rparr>)) (\<lambda>doc.
       Inr (p\<lparr>pl_tasks := sort_key ta_id (pl_tasks p), pl_digest := json_digest (JObj doc)\<rparr>))))))"
  by (simp add: make_plan_def plan_header_ok_def tasks_closed_def Let_def)

lemma make_plan_Inr:
  assumes "make_plan p = Inr q"
  obtains order payload where "plan_header_ok p" "tasks_closed (pl_tasks q)"
    "pl_tasks q = sort_key ta_id (pl_tasks p)" "topological_order (pl_tasks q) = Inr order"
    "validate_writer_order (pl_tasks q) = Inr ()" "plan_payload q = Inr payload"
    "q = p\<lparr>pl_tasks := pl_tasks q, pl_digest := json_digest (JObj payload)\<rparr>"
proof -
  let ?ts = "sort_key ta_id (pl_tasks p)"
  from assms obtain order payload where ok: "plan_header_ok p" "tasks_closed ?ts"
    "topological_order ?ts = Inr order" "validate_writer_order ?ts = Inr ()"
    "plan_payload (p\<lparr>pl_tasks := ?ts\<rparr>) = Inr payload"
    and q: "q = p\<lparr>pl_tasks := ?ts, pl_digest := json_digest (JObj payload)\<rparr>"
    unfolding make_plan_header by (auto simp: ebind_eq_Inr split: if_splits)
  show thesis
    by (rule that[of order payload]) (use ok q in simp_all)
qed

lemma make_plan_again:
  assumes "make_plan p = Inr q"
  shows "make_plan (q\<lparr>pl_digest := d\<rparr>) = Inr q"
proof -
  from assms obtain order payload where q: "plan_header_ok p" "tasks_closed (pl_tasks q)"
    "pl_tasks q = sort_key ta_id (pl_tasks p)" "topological_order (pl_tasks q) = Inr order"
    "validate_writer_order (pl_tasks q) = Inr ()" "plan_payload q = Inr payload"
    "q = p\<lparr>pl_tasks := pl_tasks q, pl_digest := json_digest (JObj payload)\<rparr>"
    by (rule make_plan_Inr)
  have header: "plan_header_ok q"
    by (subst q(7)) (use q(1) in simp)
  have sorted: "sort_key ta_id (pl_tasks q) = pl_tasks q"
    by (simp add: q(3) sort_key_id_if_sorted sorted_sort_key)
  have "pl_digest q = json_digest (JObj payload)" by (subst q(7)) simp
  then have "q\<lparr>pl_digest := json_digest (JObj payload)\<rparr> = q" by simp
  with header q(2,4,5,6) show ?thesis
    unfolding make_plan_header by (simp add: sorted)
qed

lemma plan_payload_form:
  assumes "plan_payload q = Inr doc"
  obtains order where "plan_order q = Inr order"
    "keys_are doc [''schema_version'', ''plan_id'', ''goal_id'', ''project_id'',
       ''intent_id'', ''plan_version'', ''supersedes_plan_id'', ''base_commit'', ''draft_digest'',
       ''tasks'', ''topological_order'']"
    "jget doc ''schema_version'' = JStr (pl_schema q)" "jget doc ''plan_id'' = JStr (pl_id q)"
    "jget doc ''goal_id'' = JStr (pl_goal_id q)" "jget doc ''project_id'' = JStr (pl_project_id q)"
    "jget doc ''intent_id'' = JStr (pl_intent_id q)"
    "jget doc ''plan_version'' = JInt (pl_revision q)"
    "jget doc ''supersedes_plan_id'' = opt_str (pl_supersedes q)"
    "jget doc ''base_commit'' = JStr (pl_base_commit q)"
    "jget doc ''draft_digest'' = JStr (pl_draft_digest q)"
    "jget doc ''tasks'' = JArr (map (\<lambda>t. JObj (task_payload t)) (pl_tasks q))"
    "jget doc ''topological_order'' = strings order"
proof -
  from assms obtain order where o: "plan_order q = Inr order"
    by (auto simp: plan_payload_def ebind_eq_Inr)
  with assms have p: "doc = [(''schema_version'', JStr (pl_schema q)),
      (''plan_id'', JStr (pl_id q)), (''goal_id'', JStr (pl_goal_id q)),
      (''project_id'', JStr (pl_project_id q)), (''intent_id'', JStr (pl_intent_id q)),
      (''plan_version'', JInt (pl_revision q)), (''supersedes_plan_id'', opt_str (pl_supersedes q)),
      (''base_commit'', JStr (pl_base_commit q)), (''draft_digest'', JStr (pl_draft_digest q)),
      (''tasks'', JArr (map (\<lambda>t. JObj (task_payload t)) (pl_tasks q))),
      (''topological_order'', strings order)]"
    by (simp add: plan_payload_def)
  show thesis by (rule that[OF o]) (simp_all add: p keys_are_def jget_def)
qed

lemma tasks_readback:
  "list_all task_wf ts \<Longrightarrow> traverse task_from_payload (map (\<lambda>t. JObj (task_payload t)) ts)
     = (if list_all task_readable ts then Some ts else None)"
  by (induction ts) (auto simp: task_readback)

lemma topological_order_set:
  assumes "topological_order ts = Inr order"
  shows "set order = set (map ta_id ts)" "distinct order" "follows (dependencies_of ts) order"
  using order_loop_Inr[OF assms[unfolded topological_order_def]] by simp_all

lemma plan_readback:
  assumes plan: "make_plan p = Inr q" and wf: "list_all task_wf (pl_tasks q)"
    and doc: "plan_payload q = Inr doc"
  shows "plan_from_payload (JObj doc)
    = (if list_all task_readable (pl_tasks q) then Inr q else Inl InvalidExecutionContract)"
proof -
  from plan have header: "plan_header_ok q"
    by (rule make_plan_Inr) (metis plan_header_update)
  obtain order where o: "plan_order q = Inr order" and keys: "keys_are doc [''schema_version'',
      ''plan_id'', ''goal_id'', ''project_id'', ''intent_id'', ''plan_version'',
      ''supersedes_plan_id'', ''base_commit'', ''draft_digest'', ''tasks'', ''topological_order'']"
    and get: "jget doc ''schema_version'' = JStr (pl_schema q)"
      "jget doc ''plan_id'' = JStr (pl_id q)" "jget doc ''goal_id'' = JStr (pl_goal_id q)"
      "jget doc ''project_id'' = JStr (pl_project_id q)"
      "jget doc ''intent_id'' = JStr (pl_intent_id q)"
      "jget doc ''plan_version'' = JInt (pl_revision q)"
      "jget doc ''supersedes_plan_id'' = opt_str (pl_supersedes q)"
      "jget doc ''base_commit'' = JStr (pl_base_commit q)"
      "jget doc ''draft_digest'' = JStr (pl_draft_digest q)"
      "jget doc ''tasks'' = JArr (map (\<lambda>t. JObj (task_payload t)) (pl_tasks q))"
      "jget doc ''topological_order'' = strings order"
    by (rule plan_payload_form[OF doc]) blast
  have eta: "\<lparr>pl_id = pl_id q, pl_goal_id = pl_goal_id q, pl_project_id = pl_project_id q,
      pl_intent_id = pl_intent_id q, pl_revision = pl_revision q, pl_supersedes = pl_supersedes q,
      pl_base_commit = pl_base_commit q, pl_draft_digest = pl_draft_digest q,
      pl_tasks = pl_tasks q, pl_schema = EXECUTION_PLAN_SCHEMA, pl_digest = []\<rparr> = q\<lparr>pl_digest := []\<rparr>"
    using header by (cases q) (simp add: plan_header_ok_def)
  have super: "optional_str (opt_str (pl_supersedes q)) = Some (pl_supersedes q)" by simp
  have schema: "plan_text EXECUTION_PLAN_SCHEMA = Some EXECUTION_PLAN_SCHEMA"
    by (simp add: EXECUTION_PLAN_SCHEMA_def plan_text_def py_strip_Nil py_space_def code_def)
  have ids: "list_all plan_identifier (map ta_id (pl_tasks q))"
    using wf by (auto simp: list_all_iff task_wf_def)
  have "set order = set (map ta_id (pl_tasks q))"
    using o topological_order_set(1) by (simp add: plan_order_def)
  then have "readable order"
    using ids by (intro identifiers_readable) (simp add: list_all_iff)
  then show ?thesis
    using header
    by (simp add: plan_from_payload_def invalid_def keys get tasks_readback[OF wf] super
        mapping_text_def mapping_integer_def plan_header_ok_def schema eta make_plan_again[OF plan] o)
qed

section \<open>Compilation\<close>

lemma invalid_Inr: "invalid m = Inr x \<longleftrightarrow> m = Some x"
  by (simp add: invalid_def efail_on_None_eq_Inr)

lemma find_checks:
  "traverse (\<lambda>i. find (\<lambda>c. ck_id c = i) cs) is = Some ds \<Longrightarrow> set ds \<subseteq> set cs \<and> map ck_id ds = is"
proof (induction "is" arbitrary: ds)
  case (Cons i js)
  then obtain d es where "find (\<lambda>c. ck_id c = i) cs = Some d" "ds = d # es"
    "traverse (\<lambda>i. find (\<lambda>c. ck_id c = i) cs) js = Some es"
    by (auto simp: bind_eq_Some_conv)
  with Cons.IH[of es] show ?case by (auto simp: find_Some_iff)
qed simp

lemma compile_task_Inr:
  assumes "compile_task goal v = Inr t" "goal_wf goal"
  shows "task_wf t \<and> set (ta_allowed_paths t) \<subseteq> set (go_allowed_paths goal)
    \<and> set (ta_checks t) \<subseteq> set (go_checks goal) \<and> ta_max_attempts t = go_max_attempts goal"
proof -
  from assms(1) obtain i obj deps paths check_ids checks where
    paths: "set paths \<subseteq> set (go_allowed_paths goal)"
    and checks: "traverse (\<lambda>i. find (\<lambda>c. ck_id c = i) (go_checks goal)) check_ids = Some checks"
    and t: "make_task i obj deps paths checks (go_max_attempts goal) = Some t"
    by (auto simp: compile_task_def ebind_eq_Inr invalid_Inr efail_on_None_eq_Inr bind_eq_Some_conv
        split: if_splits)
  have sub: "set checks \<subseteq> set (go_checks goal)" using find_checks[OF checks] by blast
  then have "list_all check_ok checks" using assms(2) by (auto simp: goal_wf_def list_all_iff)
  note wf = make_task_wf[OF t this]
  from t have ps: "path_tuple paths = Some (ta_allowed_paths t)"
    and same: "ta_checks t = sort_checks checks" "ta_max_attempts t = go_max_attempts goal"
    by (auto simp: make_task_def bind_eq_Some_conv Let_def split: if_splits)
  obtain raw where raw: "path_tuple raw = Some (go_allowed_paths goal)"
    using assms(2) by (auto simp: goal_wf_def)
  have "set (ta_allowed_paths t) \<subseteq> set (go_allowed_paths goal)"
  proof
    fix p assume "p \<in> set (ta_allowed_paths t)"
    then obtain s where s: "s \<in> set paths" "repository_path s = Some p"
      using path_tuple_Some(4)[OF ps] by blast
    then obtain u where "repository_path u = Some s" using path_tuple_Some(4)[OF raw] paths by blast
    from repository_path_again[OF this] s(2) have "p = s" by (auto split: if_splits)
    with s(1) paths show "p \<in> set (go_allowed_paths goal)" by auto
  qed
  with wf same sub show ?thesis by simp
qed

end
