(* ===== verification/PlanSample.thy ===== *)
theory PlanSample
  imports PlanFacts GatewayProps
begin

text \<open>
  Dependencies between the tasks of a plan as a relation, the writer check against it, and a
  sample goal whose draft compiles.
\<close>

section \<open>Dependencies between tasks\<close>

definition task_edges :: "task_spec list \<Rightarrow> (string \<times> string) set" where
  "task_edges ts = {(d, ta_id t) | d t. t \<in> set ts \<and> d \<in> set (ta_depends_on t)}"

lemma dependencies_of_task:
  "distinct (map ta_id ts) \<Longrightarrow> t \<in> set ts \<Longrightarrow> dependencies_of ts (ta_id t) = ta_depends_on t"
proof -
  assume d: "distinct (map ta_id ts)" and t: "t \<in> set ts"
  have "map_of (map (\<lambda>t. (ta_id t, ta_depends_on t)) ts) (ta_id t) = Some (ta_depends_on t)"
    by (rule map_of_eq_Some_distinct) (use d t in \<open>auto simp: comp_def\<close>)
  then show ?thesis by (simp add: dependencies_of_def)
qed

lemma paths_of_task:
  "distinct (map ta_id ts) \<Longrightarrow> t \<in> set ts \<Longrightarrow> paths_of ts (ta_id t) = ta_allowed_paths t"
proof -
  assume d: "distinct (map ta_id ts)" and t: "t \<in> set ts"
  have "map_of (map (\<lambda>t. (ta_id t, ta_allowed_paths t)) ts) (ta_id t) = Some (ta_allowed_paths t)"
    by (rule map_of_eq_Some_distinct) (use d t in \<open>auto simp: comp_def\<close>)
  then show ?thesis by (simp add: paths_of_def)
qed

lemma dependencies_of_unknown: "i \<notin> set (map ta_id ts) \<Longrightarrow> dependencies_of ts i = []"
  by (auto simp: dependencies_of_def map_of_eq_None_iff image_iff split: option.split dest!: map_of_SomeD)

lemma task_edges_iff:
  assumes "distinct (map ta_id ts)"
  shows "(d, i) \<in> task_edges ts \<longleftrightarrow> d \<in> set (dependencies_of ts i)"
proof (cases "i \<in> set (map ta_id ts)")
  case True
  then obtain t where t: "t \<in> set ts" "i = ta_id t" by auto
  have "u = t" if "u \<in> set ts" "ta_id u = ta_id t" for u
    using assms t(1) that by (auto simp: distinct_map dest: inj_onD)
  moreover have "dependencies_of ts i = ta_depends_on t"
    using dependencies_of_task[OF assms t(1)] t(2) by simp
  moreover have "(d, i) \<in> task_edges ts \<longleftrightarrow> (\<exists>u\<in>set ts. ta_id u = i \<and> d \<in> set (ta_depends_on u))"
    by (auto simp: task_edges_def)
  ultimately show ?thesis using t by metis
next
  case False
  then have "(d, i) \<notin> task_edges ts" by (auto simp: task_edges_def)
  with dependencies_of_unknown[OF False] show ?thesis by simp
qed

lemma task_edges_depends:
  assumes "distinct (map ta_id ts)"
  shows "depends (dependencies_of ts) UNIV = task_edges ts"
    "depends (dependencies_of ts) (set (map ta_id ts)) = task_edges ts"
proof -
  show "depends (dependencies_of ts) UNIV = task_edges ts"
    using task_edges_iff[OF assms] by (simp add: depends_def set_eq_iff)
  moreover have "d \<in> set (dependencies_of ts i) \<Longrightarrow> i \<in> set (map ta_id ts)" for d i
    using dependencies_of_unknown[of i ts] by fastforce
  ultimately show "depends (dependencies_of ts) (set (map ta_id ts)) = task_edges ts"
    unfolding depends_def by blast
qed

lemma writer_order_sound:
  assumes dist: "distinct (map ta_id ts)" and order: "topological_order ts = Inr order"
    and ok: "validate_writer_order ts = Inr ()"
  shows "sorted_wrt (\<lambda>a b. (a, b) \<in> (task_edges ts)\<^sup>+) (filter (\<lambda>i. paths_of ts i \<noteq> []) order)"
proof -
  note o = topological_order_set[OF order]
  let ?anc = "fold (add_ancestors (dependencies_of ts)) order Map.empty"
  let ?writers = "filter (\<lambda>i. paths_of ts i \<noteq> []) order"
  have "pairwise_all (\<lambda>a b. case ?anc b of None \<Rightarrow> False | Some ds \<Rightarrow> a \<in> set ds) ?writers"
    using ok by (simp add: validate_writer_order_def order Let_def)
  then have "pairwise_all (\<lambda>a b. (a, b) \<in> (task_edges ts)\<^sup>+) ?writers"
  proof (rule pairwise_all_cong)
    fix a b assume "b \<in> set ?writers" and a: "case ?anc b of None \<Rightarrow> False | Some ds \<Rightarrow> a \<in> set ds"
    then have "b \<in> set order" by simp
    from ancestors_correct[OF o(3,2) this] obtain ds where
      "?anc b = Some ds" "set ds = {d. (d, b) \<in> (depends (dependencies_of ts) UNIV)\<^sup>+}" by blast
    with a have "(a, b) \<in> (depends (dependencies_of ts) UNIV)\<^sup>+" by simp
    then show "(a, b) \<in> (task_edges ts)\<^sup>+" by (simp only: task_edges_depends(1)[OF dist])
  qed
  then show ?thesis by (rule pairwise_all_trans) (rule trancl_trans)
qed

lemma sorted_wrt_either:
  "sorted_wrt P xs \<Longrightarrow> a \<in> set xs \<Longrightarrow> b \<in> set xs \<Longrightarrow> a \<noteq> b \<Longrightarrow> P a b \<or> P b a"
  by (induction xs) auto

section \<open>A sample plan\<close>

definition sample_check :: verification_check where
  "sample_check = \<lparr>ck_id = ''unit'', ck_argv = [''pytest'', ''-q''], ck_exit = 0\<rparr>"

definition sample_goal :: goal_spec where
  "sample_goal = \<lparr>go_id = ''g'', go_project_id = ''p'', go_intent_id = ''i'', go_objective = ''fix it'',
     go_base_commit = replicate 40 (CHR ''a''), go_constraints = [''keep the api''],
     go_allowed_paths = [''docs'', ''src''], go_checks = [sample_check], go_max_attempts = 3,
     go_same_error_limit = 2, go_schema = EXECUTION_GOAL_SCHEMA\<rparr>"

lemma sample_goal_made: "make_goal sample_goal = Some sample_goal"
  by code_simp

definition sample_draft :: jobject where
  "sample_draft = [(''schema_version'', JStr EXECUTION_PLAN_DRAFT_SCHEMA), (''tasks'', JArr
     [JObj [(''task_id'', JStr ''b''), (''objective'', JStr ''document''), (''depends_on'', strings [''a'']),
        (''allowed_paths'', strings [''docs'']), (''checks'', strings [''unit''])],
      JObj [(''task_id'', JStr ''a''), (''objective'', JStr ''repair''), (''depends_on'', strings []),
        (''allowed_paths'', strings [''src'']), (''checks'', strings [''unit''])]])]"

definition sample_task :: "string \<Rightarrow> string \<Rightarrow> string list \<Rightarrow> string list \<Rightarrow> task_spec" where
  "sample_task i objective deps paths = (let t = \<lparr>ta_id = i, ta_objective = objective,
     ta_depends_on = deps, ta_allowed_paths = paths, ta_checks = [sample_check],
     ta_max_attempts = 3, ta_digest = []\<rparr> in t\<lparr>ta_digest := json_digest (JObj (task_payload t))\<rparr>)"

definition task_a :: task_spec where "task_a = sample_task ''a'' ''repair'' [] [''src'']"
definition task_b :: task_spec where "task_b = sample_task ''b'' ''document'' [''a''] [''docs'']"

lemma sample_task_fields [simp]:
  "ta_id task_a = ''a''" "ta_id task_b = ''b''" "ta_depends_on task_a = []"
  "ta_depends_on task_b = [''a'']" "ta_allowed_paths task_a = [''src'']"
  "ta_allowed_paths task_b = [''docs'']" "ta_checks task_a = [sample_check]"
  "ta_checks task_b = [sample_check]" "ta_max_attempts task_a = 3" "ta_max_attempts task_b = 3"
  by (simp_all add: task_a_def task_b_def sample_task_def Let_def)

lemma sample_paths:
  "path_tuple [''src''] = Some [''src'']" "path_tuple [''docs''] = Some [''docs'']"
  "objective_ok ''repair''" "objective_ok ''document''" "plan_identifier ''a''" "plan_identifier ''b''"
  "plan_text ''a'' = Some ''a''" "plan_text ''b'' = Some ''b''" "plan_text ''repair'' = Some ''repair''"
  "plan_text ''document'' = Some ''document''" "plan_text ''src'' = Some ''src''"
  "plan_text ''docs'' = Some ''docs''" "plan_text ''unit'' = Some ''unit''"
  "sort_checks [sample_check] = [sample_check]"
  by code_simp+

lemma sample_tasks_made:
  "make_task ''a'' ''repair'' [] [''src''] [sample_check] 3 = Some task_a"
  "make_task ''b'' ''document'' [''a''] [''docs''] [sample_check] 3 = Some task_b"
  by (simp_all add: make_task_def sample_paths Let_def task_a_def task_b_def sample_task_def
      sorted_set_def)

lemma sample_check_id: "ck_id sample_check = ''unit''"
  by (simp add: sample_check_def)

lemma sample_compile_tasks:
  "etraverse (compile_task sample_goal) (the (as_arr (jget sample_draft ''tasks''))) = Inr [task_b, task_a]"
  by (simp add: sample_draft_def jget_def strings_def compile_task_def keys_are_def insert_commute
      sample_paths sample_tasks_made invalid_def sample_goal_def sample_check_id)

text \<open>The sample draft compiles; its plan identifier is a digest that is never computed here.\<close>

lemma digest_plan_identifier:
  "plan_identifier (''plan-'' @ take 32 (removeprefix (json_digest j) ''sha256:''))"
proof -
  have "list_all is_alnum (take 32 (sha256_hex (json_bytes j)))"
    using sha256_hex_lower[of "json_bytes j"]
    by (auto simp: list_all_iff is_alnum_def is_lower_hex_def is_lower_def dest!: in_set_takeD)
  then have "list_all (\<lambda>c. is_alnum c \<or> c \<in> set ''._:-'') (take 32 (sha256_hex (json_bytes j)))"
    by (auto simp: list_all_iff)
  then show ?thesis
    by (simp add: plan_identifier_def re_ident_def json_digest_def digest_shape is_alnum_def
        is_lower_def code_def)
qed

lemma sample_sorted: "sort_key ta_id [task_b, task_a] = [task_a, task_b]"
  by simp

lemma sample_deps:
  "dependencies_of [task_a, task_b] = (\<lambda>i. if i = ''b'' then [''a''] else [])"
  "paths_of [task_a, task_b] = (\<lambda>i. if i = ''a'' then [''src''] else if i = ''b'' then [''docs''] else [])"
  by (auto simp: dependencies_of_def paths_of_def fun_eq_iff)

lemma sample_order: "topological_order [task_a, task_b] = Inr [''a'', ''b'']"
  by (simp add: topological_order_def sample_deps order_loop.simps ready_tasks_def Let_def)

lemma sample_writers: "validate_writer_order [task_a, task_b] = Inr ()"
  by (simp add: validate_writer_order_def sample_order sample_deps add_ancestors_def Let_def)

lemma sample_goal_identifiers:
  "list_all plan_identifier [''g'', ''p'', ''i'']" "commit_id (replicate 40 (CHR ''a''))"
  by code_simp+

lemma sample_closed: "tasks_closed [task_a, task_b]"
  by (simp add: tasks_closed_def)

lemma sample_compiles: "\<exists>p. compile_plan sample_goal sample_draft None = Inr p \<and> pl_tasks p = [task_a, task_b]"
proof -
  obtain raw where raw: "as_arr (jget sample_draft ''tasks'') = Some raw" "length raw = 2"
    by (simp add: sample_draft_def jget_def)
  have tasks: "etraverse (compile_task sample_goal) raw = Inr [task_b, task_a]"
    using sample_compile_tasks raw(1) by simp
  have head: "keys_are sample_draft [''schema_version'', ''tasks'']"
    "jget sample_draft ''schema_version'' = JStr EXECUTION_PLAN_DRAFT_SCHEMA"
    by (simp_all add: sample_draft_def jget_def keys_are_def)
  have ids: "go_id sample_goal = ''g''" "go_project_id sample_goal = ''p''"
    "go_intent_id sample_goal = ''i''" "go_base_commit sample_goal = replicate 40 (CHR ''a'')"
    "go_checks sample_goal = [sample_check]"
    by (simp_all add: sample_goal_def)
  show ?thesis
    using sample_goal_identifiers
    by (simp add: compile_plan_def raw tasks head invalid_def sample_check_id ids Let_def
        make_plan_header plan_header_ok_def plan_identity_def digest_plan_identifier[simplified] sample_sorted
        sample_closed sample_order sample_writers plan_payload_def plan_order_def del: sort_key_simps)
qed

end
