(* ===== verification/PlanProps.thy ===== *)
theory PlanProps
  imports PlanSample GatewayProps
begin

text \<open>The properties of plans, of their compilation and of the execution policy.\<close>

section \<open>Compilation\<close>

lemma etraverse_all:
  assumes "etraverse f xs = Inr ys" "\<And>x y. x \<in> set xs \<Longrightarrow> f x = Inr y \<Longrightarrow> P y"
  shows "\<forall>y\<in>set ys. P y"
proof
  fix y assume "y \<in> set ys"
  then obtain j where j: "j < length ys" "ys ! j = y" by (auto simp: in_set_conv_nth)
  with assms(1) have "j < length xs" "f (xs ! j) = Inr y"
    by (auto simp: etraverse_Inr_iff list_all2_conv_all_nth)
  with assms(2)[of "xs ! j" y] show "P y" by simp
qed

lemma compile_plan_Inr:
  assumes "compile_plan goal draft previous = Inr p"
  obtains raw tasks r where "etraverse (compile_task goal) raw = Inr tasks"
    "set (concat (map (\<lambda>t. map ck_id (ta_checks t)) tasks)) = set (map ck_id (go_checks goal))"
    "make_plan r = Inr p" "pl_tasks r = tasks"
    "pl_goal_id r = go_id goal" "pl_project_id r = go_project_id goal"
    "pl_intent_id r = go_intent_id goal" "pl_base_commit r = go_base_commit goal"
    "pl_draft_digest r = json_digest (JObj draft)"
    "case previous of None \<Rightarrow> pl_revision r = 1 \<and> pl_supersedes r = None
     | Some q \<Rightarrow> pl_revision r = pl_revision q + 1 \<and> pl_supersedes r = Some (pl_id q)
         \<and> pl_goal_id q = go_id goal \<and> pl_project_id q = go_project_id goal
         \<and> pl_intent_id q = go_intent_id goal \<and> pl_base_commit q = go_base_commit goal"
proof -
  from assms obtain raw tasks rev sup where t: "etraverse (compile_task goal) raw = Inr tasks"
    and c: "set (concat (map (\<lambda>t. map ck_id (ta_checks t)) tasks)) = set (map ck_id (go_checks goal))"
    and v: "(case previous of None \<Rightarrow> Inr (1, None)
       | Some q \<Rightarrow> if pl_goal_id q = go_id goal \<and> pl_project_id q = go_project_id goal
              \<and> pl_intent_id q = go_intent_id goal \<and> pl_base_commit q = go_base_commit goal
           then Inr (pl_revision q + 1, Some (pl_id q)) else Inl InvalidPlanLineage) = Inr (rev, sup)"
    and m: "make_plan \<lparr>pl_id = ''plan-'' @ take 32 (removeprefix
         (plan_identity goal rev sup (json_digest (JObj draft)) tasks) ''sha256:''),
       pl_goal_id = go_id goal, pl_project_id = go_project_id goal,
       pl_intent_id = go_intent_id goal, pl_revision = rev, pl_supersedes = sup,
       pl_base_commit = go_base_commit goal, pl_draft_digest = json_digest (JObj draft),
       pl_tasks = tasks, pl_schema = EXECUTION_PLAN_SCHEMA, pl_digest = []\<rparr> = Inr p"
    unfolding compile_plan_def Let_def by (auto simp: ebind_eq_Inr ebind_check split: if_splits)
  show thesis
    by (rule that[OF t c m]) (use v in \<open>auto split: option.splits if_splits\<close>)
qed

lemma sample_plan_made: "\<exists>p q. make_plan p = Inr q \<and> pl_tasks q = [task_a, task_b]"
proof -
  obtain p where p: "compile_plan sample_goal sample_draft None = Inr p" "pl_tasks p = [task_a, task_b]"
    using sample_compiles by blast
  from p(1) obtain r where "make_plan r = Inr p" by (rule compile_plan_Inr)
  with p(2) show ?thesis by blast
qed

section \<open>The order of a plan\<close>

text \<open>
  C37: \<open>_topological_order\<close> always answers. For tasks with distinct identifiers whose dependencies
  are tasks of the plan it returns an order exactly when the dependencies have no cycle; the order
  lists every task once and each after its dependencies. With a cycle it raises \<open>CyclicPlanError\<close>.
\<close>
theorem topological_order_exact:
  assumes dist: "distinct (map ta_id ts)"
    and closed: "\<forall>t\<in>set ts. set (ta_depends_on t) \<subseteq> set (map ta_id ts)"
  shows "(if acyclic (task_edges ts)
     then \<exists>order. topological_order ts = Inr order \<and> set order = set (map ta_id ts) \<and> distinct order
       \<and> (\<forall>d i. (d, i) \<in> task_edges ts \<longrightarrow> position order d < position order i)
     else topological_order ts = Inl CyclicPlan)"
proof (cases "topological_order ts")
  case (Inr order)
  note o = topological_order_set[OF Inr]
  have "acyclic (task_edges ts)"
    using follows_acyclic[OF o(3,2), of "set (map ta_id ts)"] o(1)
    by (simp only: task_edges_depends(2)[OF dist] subset_refl simp_thms)
  moreover have "position order d < position order i" if "(d, i) \<in> task_edges ts" for d i
  proof -
    have "i \<in> set order" using that o(1) by (auto simp: task_edges_def)
    with that follows_position[OF o(3,2)] show ?thesis by (simp add: task_edges_iff[OF dist])
  qed
  ultimately show ?thesis using Inr o by simp
next
  case (Inl e)
  have deps: "set (dependencies_of ts i) \<subseteq> set [] \<union> set (remdups (map ta_id ts))" for i
  proof
    fix d assume "d \<in> set (dependencies_of ts i)"
    then have "(d, i) \<in> task_edges ts" by (simp add: task_edges_iff[OF dist])
    with closed show "d \<in> set [] \<union> set (remdups (map ta_id ts))" by (auto simp: task_edges_def)
  qed
  from order_loop_Inl[OF Inl[unfolded topological_order_def] deps] obtain S where
    e: "e = CyclicPlan" and S: "S \<subseteq> set (map ta_id ts)" "S \<noteq> {}"
      "\<forall>i\<in>S. \<exists>d\<in>S. d \<in> set (dependencies_of ts i)" by auto
  have "finite S" using S(1) finite_subset by blast
  from cycle_not_acyclic[OF this S(2,1,3)] have "\<not> acyclic (task_edges ts)"
    by (simp only: task_edges_depends(2)[OF dist] simp_thms)
  with Inl e show ?thesis by simp
qed

theorem topological_order_exact_witness:
  "if acyclic (task_edges [task_a, task_b])
   then \<exists>order. topological_order [task_a, task_b] = Inr order
     \<and> set order = set (map ta_id [task_a, task_b]) \<and> distinct order
     \<and> (\<forall>d i. (d, i) \<in> task_edges [task_a, task_b] \<longrightarrow> position order d < position order i)
   else topological_order [task_a, task_b] = Inl CyclicPlan"
  by (rule topological_order_exact) simp_all

text \<open>
  C16: in a \<open>Plan\<close> that the constructor accepts, two different tasks that may write (their allowed
  paths are not empty) are never unordered: one depends on the other, directly or through others,
  so no schedule that honours dependencies runs two writers at once.
\<close>
theorem writers_never_parallel:
  assumes "make_plan p = Inr q" "t \<in> set (pl_tasks q)" "u \<in> set (pl_tasks q)"
    "ta_id t \<noteq> ta_id u" "ta_allowed_paths t \<noteq> []" "ta_allowed_paths u \<noteq> []"
  shows "(ta_id t, ta_id u) \<in> (task_edges (pl_tasks q))\<^sup>+
    \<or> (ta_id u, ta_id t) \<in> (task_edges (pl_tasks q))\<^sup>+"
proof -
  from assms(1) obtain order where q: "tasks_closed (pl_tasks q)"
    "topological_order (pl_tasks q) = Inr order" "validate_writer_order (pl_tasks q) = Inr ()"
    by (rule make_plan_Inr)
  have dist: "distinct (map ta_id (pl_tasks q))" using q(1) by (simp add: tasks_closed_def)
  note sorted = writer_order_sound[OF dist q(2,3)]
  have "ta_id t \<in> set (filter (\<lambda>i. paths_of (pl_tasks q) i \<noteq> []) order)"
    "ta_id u \<in> set (filter (\<lambda>i. paths_of (pl_tasks q) i \<noteq> []) order)"
    using assms topological_order_set(1)[OF q(2)] by (auto simp: paths_of_task[OF dist])
  from sorted_wrt_either[OF sorted this assms(4)] show ?thesis .
qed

theorem writers_never_parallel_witness:
  "\<exists>q :: plan. pl_tasks q = [task_a, task_b] \<and>
     ((''a'', ''b'') \<in> (task_edges (pl_tasks q))\<^sup>+ \<or> (''b'', ''a'') \<in> (task_edges (pl_tasks q))\<^sup>+)"
proof -
  obtain p q where "make_plan p = Inr q" and q: "pl_tasks q = [task_a, task_b]"
    using sample_plan_made by blast
  from writers_never_parallel[OF this(1), of task_a task_b] q
  have "(''a'', ''b'') \<in> (task_edges (pl_tasks q))\<^sup>+ \<or> (''b'', ''a'') \<in> (task_edges (pl_tasks q))\<^sup>+"
    by simp
  with q show ?thesis by blast
qed

section \<open>What compilation takes from the goal\<close>

text \<open>
  C11: compiling a draft never gives a plan more than its goal grants. Every task of the plan is
  valid, its paths and checks are among the goal's, its attempt limit is the goal's; every check of
  the goal is required by some task; the plan carries the goal's identity and base commit and the
  digest of the draft; and a plan that supersedes one is its next revision for the same goal.
\<close>
theorem compile_plan_authority:
  assumes "compile_plan goal draft previous = Inr p" "goal_wf goal"
  shows "(\<forall>t\<in>set (pl_tasks p). task_wf t \<and> set (ta_allowed_paths t) \<subseteq> set (go_allowed_paths goal)
        \<and> set (ta_checks t) \<subseteq> set (go_checks goal) \<and> ta_max_attempts t = go_max_attempts goal)
    \<and> (\<Union>t\<in>set (pl_tasks p). ck_id ` set (ta_checks t)) = ck_id ` set (go_checks goal)
    \<and> pl_goal_id p = go_id goal \<and> pl_project_id p = go_project_id goal
    \<and> pl_intent_id p = go_intent_id goal \<and> pl_base_commit p = go_base_commit goal
    \<and> pl_draft_digest p = json_digest (JObj draft)
    \<and> (case previous of None \<Rightarrow> pl_revision p = 1 \<and> pl_supersedes p = None
       | Some q \<Rightarrow> pl_revision p = pl_revision q + 1 \<and> pl_supersedes p = Some (pl_id q)
           \<and> pl_goal_id q = pl_goal_id p \<and> pl_base_commit q = pl_base_commit p)"
proof -
  from assms(1) obtain raw tasks r where t: "etraverse (compile_task goal) raw = Inr tasks"
    and c: "set (concat (map (\<lambda>t. map ck_id (ta_checks t)) tasks)) = set (map ck_id (go_checks goal))"
    and m: "make_plan r = Inr p" and r: "pl_tasks r = tasks"
    "pl_goal_id r = go_id goal" "pl_project_id r = go_project_id goal"
    "pl_intent_id r = go_intent_id goal" "pl_base_commit r = go_base_commit goal"
    "pl_draft_digest r = json_digest (JObj draft)"
    "case previous of None \<Rightarrow> pl_revision r = 1 \<and> pl_supersedes r = None
     | Some q \<Rightarrow> pl_revision r = pl_revision q + 1 \<and> pl_supersedes r = Some (pl_id q)
         \<and> pl_goal_id q = go_id goal \<and> pl_project_id q = go_project_id goal
         \<and> pl_intent_id q = go_intent_id goal \<and> pl_base_commit q = go_base_commit goal"
    by (rule compile_plan_Inr)
  from m obtain doc where p: "p = r\<lparr>pl_tasks := sort_key ta_id tasks, pl_digest := json_digest (JObj doc)\<rparr>"
    by (rule make_plan_Inr) (metis r(1))
  have "set (pl_tasks p) = set tasks" by (simp add: p)
  moreover have "\<forall>t\<in>set tasks. task_wf t \<and> set (ta_allowed_paths t) \<subseteq> set (go_allowed_paths goal)
      \<and> set (ta_checks t) \<subseteq> set (go_checks goal) \<and> ta_max_attempts t = go_max_attempts goal"
    by (rule etraverse_all[OF t]) (rule compile_task_Inr[OF _ assms(2)])
  moreover have "(\<Union>t\<in>set tasks. ck_id ` set (ta_checks t)) = ck_id ` set (go_checks goal)"
    using c by simp
  moreover have "pl_goal_id p = pl_goal_id r" "pl_project_id p = pl_project_id r"
    "pl_intent_id p = pl_intent_id r" "pl_base_commit p = pl_base_commit r"
    "pl_draft_digest p = pl_draft_digest r" "pl_revision p = pl_revision r"
    "pl_supersedes p = pl_supersedes r" by (simp_all add: p)
  ultimately show ?thesis using r by (auto split: option.splits)
qed

theorem compile_plan_authority_witness:
  "\<exists>p. compile_plan sample_goal sample_draft None = Inr p \<and> pl_tasks p = [task_a, task_b]
    \<and> (\<forall>t\<in>set (pl_tasks p). set (ta_allowed_paths t) \<subseteq> set (go_allowed_paths sample_goal))
    \<and> pl_revision p = 1"
proof -
  obtain p where p: "compile_plan sample_goal sample_draft None = Inr p" "pl_tasks p = [task_a, task_b]"
    using sample_compiles by blast
  from compile_plan_authority[OF p(1) make_goal_wf[OF sample_goal_made]] p show ?thesis by auto
qed

section \<open>Authority and repair\<close>

lemma compiled_task:
  assumes "compile_plan goal draft previous = Inr p" "goal_wf goal" "t \<in> set (pl_tasks p)"
  shows "task_wf t" "set (ta_allowed_paths t) \<subseteq> set (go_allowed_paths goal)"
    "set (ta_checks t) \<subseteq> set (go_checks goal)" "ta_max_attempts t = go_max_attempts goal"
proof -
  from assms(1) obtain raw tasks r where t: "etraverse (compile_task goal) raw = Inr tasks"
    and m: "make_plan r = Inr p" and r: "pl_tasks r = tasks" by (rule compile_plan_Inr)
  from m r have "set (pl_tasks p) = set tasks" by (metis make_plan_Inr set_sort)
  moreover have "\<forall>t\<in>set tasks. task_wf t \<and> set (ta_allowed_paths t) \<subseteq> set (go_allowed_paths goal)
      \<and> set (ta_checks t) \<subseteq> set (go_checks goal) \<and> ta_max_attempts t = go_max_attempts goal"
    by (rule etraverse_all[OF t]) (rule compile_task_Inr[OF _ assms(2)])
  ultimately show "task_wf t" "set (ta_allowed_paths t) \<subseteq> set (go_allowed_paths goal)"
    "set (ta_checks t) \<subseteq> set (go_checks goal)" "ta_max_attempts t = go_max_attempts goal"
    using assms(3) by auto
qed

lemma policy_reasons: "plan_identifier ''intent-scope-violation''" "plan_identifier ''bounded-task-authorized''"
  by code_simp+

text \<open>
  C19: \<open>ExecutionPolicyKernel.authorize\<close> answers every action with a decision bound to the
  action's digest. For a task of a plan compiled from the goal it allows the action exactly when the
  run is named, plan and task are the ones at hand, the capability is the repository task, nothing
  is destructive, the attempt is one of the goal's (at most three), and the paths are the task's,
  which the goal grants.
\<close>
theorem authorize_exact:
  assumes "compile_plan goal draft previous = Inr p" "goal_wf goal" "t \<in> set (pl_tasks p)"
  shows "\<exists>d. authorize goal p t r = Some d \<and> pd_action_digest d = tool_action_digest r
     \<and> (pd_allowed d \<longleftrightarrow> tr_run_id r \<noteq> [] \<and> tr_plan_id r = pl_id p \<and> tr_task_id r = ta_id t
          \<and> tr_capability r = ''repository-task'' \<and> \<not> tr_destructive r
          \<and> 1 \<le> tr_attempt r \<and> tr_attempt r \<le> go_max_attempts goal
          \<and> tr_allowed_paths r = ta_allowed_paths t)
     \<and> (pd_allowed d \<longrightarrow> tr_attempt r \<le> 3 \<and> set (tr_allowed_paths r) \<subseteq> set (go_allowed_paths goal))"
proof -
  note t = compiled_task[OF assms]
  have "go_max_attempts goal \<le> 3" using assms(2) by (simp add: goal_wf_def)
  moreover have "action_in_scope goal p t r \<longleftrightarrow> tr_run_id r \<noteq> [] \<and> tr_plan_id r = pl_id p
      \<and> tr_task_id r = ta_id t \<and> tr_capability r = ''repository-task'' \<and> \<not> tr_destructive r
      \<and> 1 \<le> tr_attempt r \<and> tr_attempt r \<le> go_max_attempts goal
      \<and> tr_allowed_paths r = ta_allowed_paths t"
    using t(2,4) by (auto simp: action_in_scope_def)
  ultimately show ?thesis
    using t(2) by (auto simp: authorize_def make_policy_decision_def policy_reasons tool_action_digest_def)
qed

theorem authorize_exact_witness:
  "\<exists>p d. compile_plan sample_goal sample_draft None = Inr p \<and>
     authorize sample_goal p task_a \<lparr>tr_run_id = ''r'', tr_plan_id = pl_id p, tr_task_id = ''a'',
       tr_attempt = 1, tr_capability = ''repository-task'', tr_allowed_paths = [''src''],
       tr_destructive = False\<rparr> = Some d \<and> pd_allowed d"
proof -
  obtain p where p: "compile_plan sample_goal sample_draft None = Inr p" "pl_tasks p = [task_a, task_b]"
    using sample_compiles by blast
  have "task_a \<in> set (pl_tasks p)" by (simp add: p(2))
  from authorize_exact[OF p(1) make_goal_wf[OF sample_goal_made] this,
      of "\<lparr>tr_run_id = ''r'', tr_plan_id = pl_id p, tr_task_id = ''a'',
       tr_attempt = 1, tr_capability = ''repository-task'', tr_allowed_paths = [''src''],
       tr_destructive = False\<rparr>"] p(1) show ?thesis
    by (auto simp: sample_goal_def)
qed



section \<open>Durable payloads\<close>

text \<open>
  \<open>goal_from_payload\<close> reads the payload of a constructed goal back as the same goal, unless a
  stored path is the single dot or blank or a check has a blank argument: then it raises.
\<close>
theorem goal_payload_roundtrip:
  assumes "make_goal raw = Some g"
  shows "goal_from_payload (JObj (goal_payload g)) =
     (if (\<forall>p\<in>set (go_allowed_paths g). p \<noteq> ''.'' \<and> py_strip p \<noteq> [])
        \<and> (\<forall>c\<in>set (go_checks g). \<forall>a\<in>set (ck_argv c). py_strip a \<noteq> []) then Some g else None)"
  using goal_readback[OF make_goal_wf[OF assms]]
  by (simp add: goal_readable_def path_stable_def readable_def list_all_iff)

theorem goal_payload_roundtrip_witness:
  "goal_from_payload (JObj (goal_payload sample_goal)) = Some sample_goal"
proof -
  have "\<forall>p\<in>set (go_allowed_paths sample_goal). p \<noteq> ''.'' \<and> py_strip p \<noteq> []"
    "\<forall>c\<in>set (go_checks sample_goal). \<forall>a\<in>set (ck_argv c). py_strip a \<noteq> []"
    by code_simp+
  then show ?thesis using goal_payload_roundtrip[OF sample_goal_made] by simp
qed

text \<open>
  a compiled plan has a payload, and \<open>plan_from_payload\<close> reads it back as the same plan, its
  digests recomputed, with the one exception of task paths and check arguments that the goal's own
  payload cannot carry either.
\<close>
theorem plan_payload_roundtrip:
  assumes "compile_plan goal draft previous = Inr p" "goal_wf goal"
  shows "\<exists>doc. plan_payload p = Inr doc \<and> pl_digest p = json_digest (JObj doc)
    \<and> plan_from_payload (JObj doc)
       = (if list_all task_readable (pl_tasks p) then Inr p else Inl InvalidExecutionContract)
    \<and> (goal_readable goal \<longrightarrow> plan_from_payload (JObj doc) = Inr p)"
proof -
  from assms(1) obtain r where m: "make_plan r = Inr p" by (rule compile_plan_Inr)
  from m obtain doc where doc: "plan_payload p = Inr doc"
    and p: "p = r\<lparr>pl_tasks := pl_tasks p, pl_digest := json_digest (JObj doc)\<rparr>"
    by (rule make_plan_Inr)
  have "pl_digest p = json_digest (JObj doc)" by (subst p) simp
  moreover have "list_all task_wf (pl_tasks p)"
    using compiled_task(1)[OF assms] by (auto simp: list_all_iff)
  note readback = plan_readback[OF m this doc]
  moreover have "goal_readable goal \<Longrightarrow> list_all task_readable (pl_tasks p)"
    using compiled_task(2,3)[OF assms] unfolding goal_readable_def task_readable_def list_all_iff by blast
  ultimately show ?thesis using doc by auto
qed

theorem plan_payload_roundtrip_witness:
  "\<exists>p doc. compile_plan sample_goal sample_draft None = Inr p \<and> plan_payload p = Inr doc
     \<and> plan_from_payload (JObj doc) = Inr p"
proof -
  obtain p where p: "compile_plan sample_goal sample_draft None = Inr p"
    using sample_compiles by blast
  have "goal_readable sample_goal" by code_simp
  with plan_payload_roundtrip[OF p make_goal_wf[OF sample_goal_made]] p show ?thesis by blast
qed

text \<open>
  a goal that allows \<open>"./"\<close> is accepted and stores the path as \<open>"."\<close>, which the same
  normaliser rejects: the goal's own payload cannot be read back.
\<close>
theorem dotted_path_unreadable:
  "\<exists>g. make_goal (sample_goal\<lparr>go_allowed_paths := [''./'']\<rparr>) = Some g
    \<and> go_allowed_paths g = [''.''] \<and> goal_from_payload (JObj (goal_payload g)) = None"
proof -
  have made: "make_goal (sample_goal\<lparr>go_allowed_paths := [''./'']\<rparr>)
      = Some (sample_goal\<lparr>go_allowed_paths := [''.'']\<rparr>)" by code_simp
  from goal_readback[OF make_goal_wf[OF this]]
  have "goal_from_payload (JObj (goal_payload (sample_goal\<lparr>go_allowed_paths := [''.'']\<rparr>))) = None"
    by (simp add: goal_readable_def path_stable_def)
  with made show ?thesis by simp
qed

section \<open>The planner's schema behind the gateway\<close>

text \<open>
  C39: the output schema the model planner sends uses \<open>minItems\<close>, which the gateway's validator does
  not support. No output satisfies it, so no request carrying it ever gets a result from the
  gateway, whatever the adapter returns.
\<close>
theorem plan_schema_never_satisfied:
  assumes "gateway_ok g"
  shows "\<not> validate_output out PLAN_DRAFT_OUTPUT_SCHEMA
    \<and> (mr_output_schema r = PLAN_DRAFT_OUTPUT_SCHEMA \<longrightarrow> (\<nexists>x. invoke g now r = Inr x))"
proof -
  have "\<not> schema_ok True PLAN_DRAFT_OUTPUT_SCHEMA"
  proof
    assume ok: "schema_ok True PLAN_DRAFT_OUTPUT_SCHEMA"
    let ?props = "the (as_obj (jget PLAN_DRAFT_OUTPUT_SCHEMA ''properties''))"
    let ?tasks = "the (as_obj (jget ?props ''tasks''))"
    have "map_of PLAN_DRAFT_OUTPUT_SCHEMA ''properties'' = Some (JObj ?props)"
      "(''tasks'', JObj ?tasks) \<in> set ?props"
      by (simp_all add: PLAN_DRAFT_OUTPUT_SCHEMA_def jget_def as_obj_def)
    from subschema.in_property[OF subschema.self this] have "subschema PLAN_DRAFT_OUTPUT_SCHEMA ?tasks" .
    from schema_ok_sub[OF this ok] obtain k where "keywords_ok k ?tasks"
      using schema_ok_keywords by blast
    then have "''minItems'' \<in> set SUPPORTED_KEYWORDS \<union> set ROOT_METADATA_KEYWORDS"
      by (auto simp: keywords_ok_def PLAN_DRAFT_OUTPUT_SCHEMA_def jget_def as_obj_def split: if_splits)
    then show False by (simp add: SUPPORTED_KEYWORDS_def ROOT_METADATA_KEYWORDS_def)
  qed
  then have never: "\<not> validate_output out PLAN_DRAFT_OUTPUT_SCHEMA" for out
    by (simp add: validate_output_def)
  have False if schema: "mr_output_schema r = PLAN_DRAFT_OUTPUT_SCHEMA" and run: "invoke g now r = Inr x" for x
  proof -
    obtain call where "prepare g r = Inr call" and call: "invoke_prepared g now call = Inr (fst x, snd x)"
      using run by (auto simp: invoke_def ebind_eq_Inr)
    from this(1) have "pc_request call = r" by (rule prepare_Inr)
    moreover obtain p out c where "admit_result (pc_request call) p out c = Inr ()"
      using invoke_prepared_Inr[OF assms call] by metis
    ultimately show False using admit_result_Inr(6) schema never by metis
  qed
  with never show ?thesis by blast
qed

theorem plan_schema_never_satisfied_witness:
  "\<nexists>x. invoke sample_gateway (utc 5)
     (sample_model_request\<lparr>mr_output_schema := PLAN_DRAFT_OUTPUT_SCHEMA\<rparr>) = Inr x"
  using plan_schema_never_satisfied[OF sample_gateway_ok] by simp

end
