(* ===== verification/Paths.thy ===== *)
theory Paths
  imports Lifecycle "HOL-Library.Sublist"
begin

text \<open>
  Repository paths. \<open>orchestration/changes.py\<close>, \<open>orchestration/review.py\<close> and
  \<open>adapters/execution/worktree.py\<close> each have the same normaliser over \<open>PurePosixPath\<close> and their own
  test whether a path lies under an allowed one; both are here, with what they accept.
\<close>

section \<open>The normaliser\<close>

text \<open>\<open>PurePosixPath(s).as_posix()\<close> and \<open>.parts\<close>.\<close>

definition as_posix :: "string \<Rightarrow> string" where
  "as_posix s = (if path_anchor s = [] \<and> path_parts s = [] then ''.''
     else path_anchor s @ join ''/'' (path_parts s))"

definition posix_parts :: "string \<Rightarrow> string list" where
  "posix_parts s = (if path_anchor s = [] then path_parts s else path_anchor s # path_parts s)"

definition normal_path :: "string \<Rightarrow> bool" where
  "normal_path s \<longleftrightarrow> s \<noteq> [] \<and> length s \<le> 4096 \<and> CHR 0x00 \<notin> set s \<and> CHR 0x5C \<notin> set s
     \<and> path_anchor s = [] \<and> as_posix s = s
     \<and> list_all (\<lambda>p. p \<noteq> [] \<and> p \<noteq> ''.'' \<and> p \<noteq> ''..'') (posix_parts s)
     \<and> ''.git'' \<notin> set (posix_parts s)"

text \<open>A policy path may also be the root of the repository.\<close>

definition policy_path :: "string \<Rightarrow> bool" where
  "policy_path s \<longleftrightarrow> s = ''.'' \<or> normal_path s"

section \<open>Splitting and joining\<close>

lemma split_on_not_Nil [simp]: "split_on c s \<noteq> []"
  by (cases s) (auto split: list.splits)

lemma join_split_on: "join [c] (split_on c s) = s"
proof (induction s)
  case (Cons d s)
  obtain x xs where x: "split_on c s = x # xs" by (cases "split_on c s") auto
  with Cons show ?case by (cases xs) auto
qed simp

lemma split_on_pure: "c \<notin> set s \<Longrightarrow> split_on c s = [s]"
  by (induction s) auto

lemma split_on_append: "c \<notin> set s \<Longrightarrow> split_on c (s @ c # t) = s # split_on c t"
  by (induction s) auto

lemma split_on_join:
  "ps \<noteq> [] \<Longrightarrow> \<forall>p\<in>set ps. c \<notin> set p \<Longrightarrow> split_on c (join [c] ps) = ps"
proof (induction ps rule: induct_list012)
  case (3 p q ps)
  then show ?case by (simp add: split_on_append)
qed (simp_all add: split_on_pure)

lemma split_on_parts: "p \<in> set (split_on c s) \<Longrightarrow> c \<notin> set p"
proof (induction s arbitrary: p)
  case (Cons d s)
  then show ?case by (cases "split_on c s") (auto split: if_splits)
qed simp

lemma path_parts_pure: "p \<in> set (path_parts s) \<Longrightarrow> CHR ''/'' \<notin> set p \<and> p \<noteq> [] \<and> p \<noteq> ''.''"
  using split_on_parts by (auto simp: path_parts_def)

text \<open>A relative text is its own normal form exactly when no component was dropped.\<close>

lemma as_posix_fixed:
  assumes "path_anchor s = []"
  shows "as_posix s = s \<longleftrightarrow> s = ''.'' \<or> path_parts s = split_on (CHR ''/'') s"
proof (cases "path_parts s = []")
  case True
  then show ?thesis using assms by (auto simp: as_posix_def split_on_not_Nil[symmetric] simp del: split_on_not_Nil)
next
  case False
  have "as_posix s = join ''/'' (path_parts s)" using assms False by (simp add: as_posix_def)
  moreover have "split_on (CHR ''/'') (join ''/'' (path_parts s)) = path_parts s"
    using False path_parts_pure by (intro split_on_join) auto
  moreover have "s \<noteq> ''.''" using False by (auto simp: path_parts_def)
  ultimately show ?thesis using join_split_on[of "CHR ''/''" s] by metis
qed

lemma path_anchor_Nil: "path_anchor s = [] \<longleftrightarrow> \<not> startswith s ''/''"
  by (auto simp: path_anchor_def startswith_iff)

text \<open>The accepted texts: bounded, relative, every component plain; and the single dot.\<close>

lemma normal_path_iff:
  "normal_path s \<longleftrightarrow> s = ''.'' \<or> length s \<le> 4096 \<and> CHR 0x00 \<notin> set s \<and> CHR 0x5C \<notin> set s
     \<and> (\<forall>p\<in>set (split_on (CHR ''/'') s). p \<noteq> [] \<and> p \<noteq> ''.'' \<and> p \<noteq> ''..'' \<and> p \<noteq> ''.git'')"
proof (cases "s = ''.''")
  case True
  then show ?thesis
    by (simp add: normal_path_def as_posix_def posix_parts_def path_parts_def path_anchor_Nil startswith_iff)
next
  case False
  let ?ps = "split_on (CHR ''/'') s"
  show ?thesis
  proof (cases "path_anchor s = []")
    case True
    have keep: "path_parts s = ?ps \<longleftrightarrow> (\<forall>p\<in>set ?ps. p \<noteq> [] \<and> p \<noteq> ''.'')"
      unfolding path_parts_def by (simp add: filter_id_conv)
    have fixed: "as_posix s = s \<longleftrightarrow> path_parts s = ?ps" using as_posix_fixed[OF True] False by blast
    have parts: "posix_parts s = path_parts s" using True by (simp add: posix_parts_def)
    have ne: "path_parts s = ?ps \<Longrightarrow> s \<noteq> []" by (auto simp: path_parts_def)
    have "normal_path s \<longleftrightarrow> s \<noteq> [] \<and> length s \<le> 4096 \<and> CHR 0x00 \<notin> set s \<and> CHR 0x5C \<notin> set s
        \<and> path_parts s = ?ps
        \<and> (\<forall>p\<in>set (path_parts s). p \<noteq> [] \<and> p \<noteq> ''.'' \<and> p \<noteq> ''..'') \<and> ''.git'' \<notin> set (path_parts s)"
      unfolding normal_path_def fixed parts list_all_iff using True by blast
    also have "\<dots> \<longleftrightarrow> length s \<le> 4096 \<and> CHR 0x00 \<notin> set s \<and> CHR 0x5C \<notin> set s
        \<and> path_parts s = ?ps \<and> (\<forall>p\<in>set ?ps. p \<noteq> [] \<and> p \<noteq> ''.'' \<and> p \<noteq> ''..'') \<and> ''.git'' \<notin> set ?ps"
      using ne by (cases "path_parts s = ?ps") simp_all
    also have "\<dots> \<longleftrightarrow> length s \<le> 4096 \<and> CHR 0x00 \<notin> set s \<and> CHR 0x5C \<notin> set s
        \<and> (\<forall>p\<in>set ?ps. p \<noteq> [] \<and> p \<noteq> ''.'' \<and> p \<noteq> ''..'' \<and> p \<noteq> ''.git'')"
      unfolding keep by blast
    finally show ?thesis using False by simp
  next
    case anchored: False
    then obtain r where "s = CHR ''/'' # r" by (auto simp: path_anchor_Nil startswith_iff)
    then have "[] \<in> set ?ps" by simp
    with anchored \<open>s \<noteq> ''.''\<close> show ?thesis by (auto simp: normal_path_def)
  qed
qed

lemma normal_path_parts:
  "normal_path s \<Longrightarrow> s \<noteq> ''.'' \<Longrightarrow> path_parts s = split_on (CHR ''/'') s"
  by (auto simp: normal_path_iff path_parts_def filter_id_conv)

lemma path_parts_dot [simp]: "path_parts ''.'' = []"
  by (simp add: path_parts_def)

lemma path_parts_inj:
  assumes "policy_path s" "policy_path t" "path_parts s = path_parts t"
  shows "s = t"
proof -
  have *: "u = ''.'' \<and> path_parts u = [] \<or> path_parts u = split_on (CHR ''/'') u" if "policy_path u" for u
    using that normal_path_parts[of u] by (cases "u = ''.''") (auto simp: policy_path_def)
  show ?thesis
    using *[OF assms(1)] *[OF assms(2)] assms(3) join_split_on[of "CHR ''/''"] split_on_not_Nil by metis
qed

section \<open>Allowed paths\<close>

text \<open>\<open>_path_is_allowed\<close> of the worktree and the text changes.\<close>

definition path_is_allowed :: "string \<Rightarrow> string list \<Rightarrow> bool" where
  "path_is_allowed path allowed_paths =
     list_ex (\<lambda>a. a = ''.'' \<or> path = a \<or> startswith path (a @ ''/'')) allowed_paths"

text \<open>\<open>_path_allowed\<close> of the review contracts: \<open>PurePosixPath(allowed) in candidate.parents\<close>.\<close>

definition path_allowed :: "string \<Rightarrow> string list \<Rightarrow> bool" where
  "path_allowed path allowed_paths =
     list_ex (\<lambda>a. a = ''.'' \<or> posix_parts path = posix_parts a
       \<or> strict_prefix (posix_parts a) (posix_parts path)) allowed_paths"

lemma join_append_prefix: "ps \<noteq> [] \<Longrightarrow> qs \<noteq> [] \<Longrightarrow> join sep (ps @ qs) = join sep ps @ sep @ join sep qs"
proof (induction ps rule: induct_list012)
  case (2 p)
  then show ?case by (cases qs) simp_all
qed simp_all

lemma split_on_prefix:
  "startswith t (s @ ''/'') \<longleftrightarrow> strict_prefix (split_on (CHR ''/'') s) (split_on (CHR ''/'') t)"
proof
  assume "startswith t (s @ ''/'')"
  then obtain r where t: "t = s @ CHR ''/'' # r" by (auto simp: startswith_iff)
  have "split_on (CHR ''/'') (s @ CHR ''/'' # r) = split_on (CHR ''/'') s @ split_on (CHR ''/'') r"
  proof (induction s)
    case (Cons d s)
    then show ?case
      by (cases "split_on (CHR ''/'') s") auto
  qed simp
  then show "strict_prefix (split_on (CHR ''/'') s) (split_on (CHR ''/'') t)"
    by (simp add: t strict_prefix_def)
next
  assume "strict_prefix (split_on (CHR ''/'') s) (split_on (CHR ''/'') t)"
  then obtain q qs where "split_on (CHR ''/'') t = split_on (CHR ''/'') s @ q # qs"
    by (rule strict_prefixE')
  then have "t = s @ ''/'' @ join ''/'' (q # qs)"
    using join_split_on[of "CHR ''/''"] join_append_prefix[of "split_on (CHR ''/'') s" "q # qs" "''/''"]
    by (metis list.distinct(1) split_on_not_Nil)
  then show "startswith t (s @ ''/'')" by (simp add: startswith_iff)
qed

section \<open>Joined paths\<close>

lemma path_parts_slash: "path_parts (CHR ''/'' # s) = path_parts s"
  by (simp add: path_parts_def)

lemma path_parts_join:
  assumes "ps \<noteq> []" "\<forall>p\<in>set ps. CHR ''/'' \<notin> set p \<and> p \<noteq> [] \<and> p \<noteq> ''.''"
  shows "path_parts (path_anchor d @ join ''/'' ps) = ps" "path_anchor (path_anchor d @ join ''/'' ps) = path_anchor d"
proof -
  have "split_on (CHR ''/'') (join ''/'' ps) = ps" using assms by (intro split_on_join) auto
  then have "path_parts (join ''/'' ps) = ps" using assms(2) by (simp add: path_parts_def filter_id_conv)
  then show "path_parts (path_anchor d @ join ''/'' ps) = ps"
    by (simp add: path_anchor_def path_parts_slash)
  obtain q qs where ps: "ps = q # qs" using assms(1) by (cases ps) auto
  with assms(2) obtain c cs where q: "q = c # cs" "c \<noteq> CHR ''/''" by (cases q) auto
  have "\<exists>r. join ''/'' ps = c # r" by (cases qs) (simp_all add: ps q)
  then obtain r where r: "join ''/'' ps = c # r" by blast
  show "path_anchor (path_anchor d @ join ''/'' ps) = path_anchor d"
    using q(2) unfolding r by (auto simp: path_anchor_def startswith_def)
qed

lemma path_join_normal:
  assumes "CHR ''/'' \<notin> set n" "n \<noteq> []" "n \<noteq> ''.''"
  shows "as_posix (path_join d n) = path_join d n" "path_anchor (path_join d n) = path_anchor d"
    "posix_parts (path_join d n) = posix_parts d @ [n]"
proof -
  have pure: "\<forall>p\<in>set (path_parts d @ [n]). CHR ''/'' \<notin> set p \<and> p \<noteq> [] \<and> p \<noteq> ''.''"
    using assms path_parts_pure by auto
  note j = path_parts_join[OF _ pure, of d]
  show "as_posix (path_join d n) = path_join d n" "path_anchor (path_join d n) = path_anchor d"
    "posix_parts (path_join d n) = posix_parts d @ [n]"
    using j by (cases "path_anchor d = []"; simp add: as_posix_def path_join_def posix_parts_def)+
qed

section \<open>Properties\<close>

text \<open>
  The two admission tests of the code agree. On normalised paths, the string test of the
  worktree and the text changes (equal, or a prefix ending in a slash) accepts exactly what the
  component test of the review contracts accepts, so no path passes one gate and fails the other.
\<close>
theorem allowed_paths_agree:
  assumes "policy_path p" "\<forall>a\<in>set allowed. policy_path a"
  shows "path_is_allowed p allowed = path_allowed p allowed"
proof -
  have "(p = a \<or> startswith p (a @ ''/'')) \<longleftrightarrow>
      (posix_parts p = posix_parts a \<or> strict_prefix (posix_parts a) (posix_parts p))"
    if a: "policy_path a" and dot: "a \<noteq> ''.''" for a
  proof -
    have anchors: "path_anchor a = []" "path_anchor p = []"
      using a assms(1) by (auto simp: policy_path_def normal_path_def path_anchor_Nil startswith_iff)
    have parts: "path_parts a = split_on (CHR ''/'') a"
      using a dot normal_path_parts by (auto simp: policy_path_def)
    show ?thesis
    proof (cases "p = ''.''")
      case True
      have "\<not> startswith ''.'' (a @ ''/'')" by (cases a) (auto simp: startswith_iff Cons_eq_append_conv)
      moreover have "[] \<noteq> split_on (CHR ''/'') a" by (metis split_on_not_Nil)
      ultimately show ?thesis using True anchors parts dot by (simp add: posix_parts_def)
    next
      case False
      then have "path_parts p = split_on (CHR ''/'') p"
        using assms(1) normal_path_parts by (auto simp: policy_path_def)
      moreover have "p = a \<longleftrightarrow> path_parts p = path_parts a" using path_parts_inj[OF assms(1) a] by auto
      ultimately show ?thesis
        using anchors parts by (simp add: posix_parts_def split_on_prefix)
    qed
  qed
  with assms(2) show ?thesis by (auto simp: path_is_allowed_def path_allowed_def list_ex_iff)
qed

theorem allowed_paths_agree_witness:
  "path_is_allowed ''src/a.py'' [''src'', ''docs''] = path_allowed ''src/a.py'' [''src'', ''docs'']
   \<and> path_is_allowed ''src/a.py'' [''src'', ''docs'']"
proof -
  have "policy_path ''src/a.py''" "\<forall>a\<in>set [''src'', ''docs'']. policy_path a"
    by (simp_all add: policy_path_def normal_path_iff)
  from allowed_paths_agree[OF this] show ?thesis by (simp add: path_is_allowed_def startswith_def)
qed

end
