(* ===== verification/Worktree.thy ===== *)
theory Worktree
  imports Paths PlanFacts
begin

text \<open>
  The values of \<open>adapters/execution/worktree.py\<close>: the lease identity, the execution
  specification, the inspection and removal evidence, their canonical payloads and the readers of
  those payloads. Git and the directory tree are outside: whether a directory is an acceptable
  repository or isolation root is a parameter of the constructor.
\<close>

datatype worktree_failure =
  InvalidSpec | InvalidRepository | InvalidIsolationRoot | UnsafeRepositoryConfiguration
  | BaseCommitNotFound | BaseCommitRetentionFailed | GitUnavailable | GitSpawnFailed | GitTimedOut
  | GitOutputTooLarge | GitOutputIncomplete | GitCommandFailed | InvalidGitOutput | WorktreeConflict
  | WorktreeNotFound | WorktreeDirty | WorktreePathPolicyViolation | CommitFailed | CleanupFailed

section \<open>Lease identities\<close>

definition WORKTREE_LEASE_SCHEMA :: string where
  "WORKTREE_LEASE_SCHEMA = ''blackcell.worktree-lease/v1''"

record worktree_lease =
  wl_run_id :: string
  wl_node_id :: string
  wl_attempt :: int
  wl_fence :: int
  wl_worker :: string
  wl_schema :: string

definition worktree_lease_ok :: "worktree_lease \<Rightarrow> bool" where
  "worktree_lease_ok l \<longleftrightarrow> wl_schema l = WORKTREE_LEASE_SCHEMA
     \<and> list_all stage_identifier [wl_run_id l, wl_node_id l, wl_worker l]
     \<and> 1 \<le> wl_attempt l \<and> 1 \<le> wl_fence l"

definition worktree_lease_payload :: "worktree_lease \<Rightarrow> jobject" where
  "worktree_lease_payload l =
     [(''schema_version'', JStr (wl_schema l)), (''run_id'', JStr (wl_run_id l)),
      (''node_id'', JStr (wl_node_id l)), (''attempt'', JInt (wl_attempt l)),
      (''fencing_token'', JInt (wl_fence l)), (''worker_id'', JStr (wl_worker l))]"

definition worktree_lease_digest :: "worktree_lease \<Rightarrow> string" where
  "worktree_lease_digest l = json_digest (JObj (worktree_lease_payload l))"

section \<open>Specifications\<close>

definition WORKTREE_SPEC_SCHEMA :: string where
  "WORKTREE_SPEC_SCHEMA = ''blackcell.worktree-spec/v1''"

record worktree_spec =
  wt_lease :: worktree_lease
  wt_repository :: string
  wt_isolation :: string
  wt_base :: string
  wt_allowed :: "string list"
  wt_max_changed :: int
  wt_schema :: string

text \<open>What the host's directory tree says of \<open>_canonical_repository_root\<close> and
  \<open>_canonical_isolation_root\<close>; both return the path they were given.\<close>

record host_paths =
  hp_repository :: "string \<Rightarrow> bool"
  hp_isolation :: "string \<Rightarrow> bool"

definition is_relative_to :: "string \<Rightarrow> string \<Rightarrow> bool" where
  "is_relative_to p q = prefix (posix_parts q) (posix_parts p)"

text \<open>\<open>WorktreeExecutionSpec.__post_init__\<close>, for a valid lease identity.\<close>

definition make_worktree_spec :: "host_paths \<Rightarrow> worktree_spec \<Rightarrow> worktree_failure + worktree_spec" where
  "make_worktree_spec host w =
     ebind (check InvalidSpec (wt_schema w = WORKTREE_SPEC_SCHEMA)) (\<lambda>_.
     ebind (check InvalidRepository (path_anchor (wt_repository w) \<noteq> [] \<and> hp_repository host (wt_repository w))) (\<lambda>_.
     ebind (check InvalidIsolationRoot (path_anchor (wt_isolation w) \<noteq> [] \<and> hp_isolation host (wt_isolation w))) (\<lambda>_.
     ebind (check InvalidIsolationRoot (\<not> is_relative_to (wt_repository w) (wt_isolation w)
       \<and> \<not> is_relative_to (wt_isolation w) (wt_repository w))) (\<lambda>_.
     ebind (check InvalidSpec (commit_id (wt_base w))) (\<lambda>_.
     ebind (check InvalidSpec (length (wt_allowed w) \<le> 256)) (\<lambda>_.
     ebind (check InvalidSpec (list_all policy_path (wt_allowed w))) (\<lambda>_.
     ebind (check InvalidSpec (distinct (wt_allowed w))) (\<lambda>_.
     ebind (check InvalidSpec (0 \<le> wt_max_changed w \<and> wt_max_changed w \<le> 10000)) (\<lambda>_.
     Inr (w\<lparr>wt_allowed := sort (wt_allowed w)\<rparr>))))))))))"

text \<open>What \<open>WorktreeExecutionSpec.digest\<close> hashes.\<close>

definition worktree_identity :: "worktree_spec \<Rightarrow> jobject" where
  "worktree_identity w =
     [(''schema_version'', JStr (wt_schema w)),
      (''lease_digest'', JStr (worktree_lease_digest (wt_lease w))),
      (''repository_root'', JStr (wt_repository w)), (''isolation_root'', JStr (wt_isolation w)),
      (''base_commit'', JStr (wt_base w)), (''allowed_paths'', strings (wt_allowed w)),
      (''max_changed_paths'', JInt (wt_max_changed w))]"

definition worktree_digest :: "worktree_spec \<Rightarrow> string" where
  "worktree_digest w = json_digest (JObj (worktree_identity w))"

definition worktree_path :: "worktree_spec \<Rightarrow> string" where
  "worktree_path w = path_join (wt_isolation w)
     (''worktree-'' @ removeprefix (worktree_digest w) ''sha256:'')"

definition branch_name :: "worktree_spec \<Rightarrow> string" where
  "branch_name w = ''blackcell/execution-worktree/'' @ removeprefix (worktree_digest w) ''sha256:''"

definition worktree_spec_payload :: "worktree_spec \<Rightarrow> jobject" where
  "worktree_spec_payload w =
     [(''schema_version'', JStr (wt_schema w)),
      (''lease_digest'', JStr (worktree_lease_digest (wt_lease w))),
      (''lease'', JObj (worktree_lease_payload (wt_lease w))),
      (''repository_root'', JStr (wt_repository w)), (''isolation_root'', JStr (wt_isolation w)),
      (''base_commit'', JStr (wt_base w)), (''allowed_paths'', strings (wt_allowed w)),
      (''max_changed_paths'', JInt (wt_max_changed w))]"

text \<open>\<open>_payload_text_sequence\<close>.\<close>

definition str_sequence :: "json \<Rightarrow> string list option" where
  "str_sequence v = do { xs \<leftarrow> as_arr v; traverse as_str xs }"

definition worktree_lease_from_mapping :: "jobject \<Rightarrow> worktree_lease option" where
  "worktree_lease_from_mapping raw = do {
     run \<leftarrow> as_str (jget raw ''run_id'');
     n \<leftarrow> as_str (jget raw ''node_id'');
     attempt \<leftarrow> as_int (jget raw ''attempt'');
     fence \<leftarrow> as_int (jget raw ''fencing_token'');
     worker \<leftarrow> as_str (jget raw ''worker_id'');
     let l = \<lparr>wl_run_id = run, wl_node_id = n, wl_attempt = attempt, wl_fence = fence,
       wl_worker = worker, wl_schema = WORKTREE_LEASE_SCHEMA\<rparr>
     in do { ensure (worktree_lease_ok l); Some l } }"

text \<open>\<open>Path(text)\<close> normalises: its \<open>str\<close> is the POSIX form of the text.\<close>

definition worktree_spec_from_mapping :: "host_paths \<Rightarrow> jobject \<Rightarrow> worktree_failure + worktree_spec" where
  "worktree_spec_from_mapping host raw =
     ebind (efail_on_None InvalidSpec (do {
       ensure (keys_are raw [''schema_version'', ''lease_digest'', ''lease'', ''repository_root'',
         ''isolation_root'', ''base_commit'', ''allowed_paths'', ''max_changed_paths'']);
       raw_lease \<leftarrow> as_obj (jget raw ''lease'');
       ensure (keys_are raw_lease [''schema_version'', ''run_id'', ''node_id'', ''attempt'',
         ''fencing_token'', ''worker_id'']);
       raw_allowed \<leftarrow> as_arr (jget raw ''allowed_paths'');
       ensure (jget raw_lease ''schema_version'' = JStr WORKTREE_LEASE_SCHEMA
         \<and> jget raw ''schema_version'' = JStr WORKTREE_SPEC_SCHEMA);
       allowed \<leftarrow> traverse as_str raw_allowed;
       l \<leftarrow> worktree_lease_from_mapping raw_lease;
       ensure (jget raw ''lease_digest'' = JStr (worktree_lease_digest l));
       repository \<leftarrow> as_str (jget raw ''repository_root'');
       isolation \<leftarrow> as_str (jget raw ''isolation_root'');
       base \<leftarrow> as_str (jget raw ''base_commit'');
       maximum \<leftarrow> as_int (jget raw ''max_changed_paths'');
       Some \<lparr>wt_lease = l, wt_repository = as_posix repository, wt_isolation = as_posix isolation,
         wt_base = base, wt_allowed = allowed, wt_max_changed = maximum,
         wt_schema = WORKTREE_SPEC_SCHEMA\<rparr> })) (make_worktree_spec host)"

section \<open>Inspections\<close>

definition WORKTREE_INSPECTION_SCHEMA :: string where
  "WORKTREE_INSPECTION_SCHEMA = ''blackcell.worktree-inspection/v1''"

record worktree_inspection =
  wi_spec_digest :: string
  wi_lease_digest :: string
  wi_path :: string
  wi_branch :: string
  wi_base :: string
  wi_head :: string
  wi_allowed :: "string list"
  wi_max_changed :: int
  wi_changed :: "string list"
  wi_uncommitted :: "string list"
  wi_out_of_scope :: "string list"
  wi_limit_exceeded :: bool
  wi_schema :: string

text \<open>\<open>WorktreeInspection.__post_init__\<close>; every failure is \<open>INVALID_GIT_OUTPUT\<close>.\<close>

definition worktree_inspection_ok :: "worktree_inspection \<Rightarrow> bool" where
  "worktree_inspection_ok i \<longleftrightarrow> wi_schema i = WORKTREE_INSPECTION_SCHEMA
     \<and> re_digest (wi_spec_digest i) \<and> re_digest (wi_lease_digest i)
     \<and> path_anchor (wi_path i) \<noteq> [] \<and> startswith (wi_branch i) ''blackcell/execution-worktree/''
     \<and> commit_id (wi_base i) \<and> commit_id (wi_head i)
     \<and> list_all (\<lambda>ps. ps = sorted_set ps)
         [wi_allowed i, wi_changed i, wi_uncommitted i, wi_out_of_scope i]
     \<and> list_all normal_path (wi_changed i) \<and> list_all normal_path (wi_uncommitted i)
     \<and> list_all policy_path (wi_allowed i) \<and> wi_allowed i = sort (wi_allowed i)
     \<and> 0 \<le> wi_max_changed i \<and> wi_max_changed i \<le> 10000
     \<and> wi_out_of_scope i = filter (\<lambda>p. \<not> path_is_allowed p (wi_allowed i)) (wi_changed i)
     \<and> wi_limit_exceeded i = (wi_max_changed i < int (length (wi_changed i)))"

definition inspection_clean :: "worktree_inspection \<Rightarrow> bool" where
  "inspection_clean i \<longleftrightarrow> wi_uncommitted i = []"

definition inspection_compliant :: "worktree_inspection \<Rightarrow> bool" where
  "inspection_compliant i \<longleftrightarrow> wi_out_of_scope i = [] \<and> \<not> wi_limit_exceeded i"

definition worktree_inspection_payload :: "worktree_inspection \<Rightarrow> jobject" where
  "worktree_inspection_payload i =
     [(''schema_version'', JStr (wi_schema i)), (''spec_digest'', JStr (wi_spec_digest i)),
      (''lease_digest'', JStr (wi_lease_digest i)), (''worktree_path'', JStr (wi_path i)),
      (''branch_name'', JStr (wi_branch i)), (''base_commit'', JStr (wi_base i)),
      (''head_commit'', JStr (wi_head i)), (''allowed_paths'', strings (wi_allowed i)),
      (''max_changed_paths'', JInt (wi_max_changed i)), (''changed_paths'', strings (wi_changed i)),
      (''uncommitted_paths'', strings (wi_uncommitted i)),
      (''out_of_scope_paths'', strings (wi_out_of_scope i)),
      (''changed_path_limit_exceeded'', JBool (wi_limit_exceeded i))]"

definition worktree_inspection_from_mapping :: "jobject \<Rightarrow> worktree_inspection option" where
  "worktree_inspection_from_mapping raw = do {
     ensure (keys_are raw [''schema_version'', ''spec_digest'', ''lease_digest'', ''worktree_path'',
       ''branch_name'', ''base_commit'', ''head_commit'', ''allowed_paths'', ''max_changed_paths'',
       ''changed_paths'', ''uncommitted_paths'', ''out_of_scope_paths'',
       ''changed_path_limit_exceeded'']);
     ensure (jget raw ''schema_version'' = JStr WORKTREE_INSPECTION_SCHEMA);
     spec \<leftarrow> as_str (jget raw ''spec_digest'');
     lease \<leftarrow> as_str (jget raw ''lease_digest'');
     path \<leftarrow> as_str (jget raw ''worktree_path'');
     branch \<leftarrow> as_str (jget raw ''branch_name'');
     base \<leftarrow> as_str (jget raw ''base_commit'');
     head \<leftarrow> as_str (jget raw ''head_commit'');
     allowed \<leftarrow> str_sequence (jget raw ''allowed_paths'');
     maximum \<leftarrow> as_int (jget raw ''max_changed_paths'');
     changed \<leftarrow> str_sequence (jget raw ''changed_paths'');
     uncommitted \<leftarrow> str_sequence (jget raw ''uncommitted_paths'');
     outside \<leftarrow> str_sequence (jget raw ''out_of_scope_paths'');
     exceeded \<leftarrow> as_bool (jget raw ''changed_path_limit_exceeded'');
     let i = \<lparr>wi_spec_digest = spec, wi_lease_digest = lease, wi_path = as_posix path,
       wi_branch = branch, wi_base = base, wi_head = head, wi_allowed = allowed,
       wi_max_changed = maximum, wi_changed = changed, wi_uncommitted = uncommitted,
       wi_out_of_scope = outside, wi_limit_exceeded = exceeded,
       wi_schema = WORKTREE_INSPECTION_SCHEMA\<rparr>
     in do { ensure (worktree_inspection_ok i); Some i } }"

text \<open>The evidence \<open>GitWorktreeLifecycle.inspect\<close> builds from what it read out of Git.\<close>

definition observe ::
    "worktree_spec \<Rightarrow> string \<Rightarrow> string list \<Rightarrow> string list \<Rightarrow> string list \<Rightarrow> worktree_inspection" where
  "observe w head_commit base_relative head_relative untracked =
     (let changed = sorted_set (base_relative @ untracked) in
      \<lparr>wi_spec_digest = worktree_digest w, wi_lease_digest = worktree_lease_digest (wt_lease w),
       wi_path = worktree_path w, wi_branch = branch_name w, wi_base = wt_base w,
       wi_head = head_commit, wi_allowed = wt_allowed w, wi_max_changed = wt_max_changed w,
       wi_changed = changed, wi_uncommitted = sorted_set (head_relative @ untracked),
       wi_out_of_scope = filter (\<lambda>p. \<not> path_is_allowed p (wt_allowed w)) changed,
       wi_limit_exceeded = (wt_max_changed w < int (length changed)),
       wi_schema = WORKTREE_INSPECTION_SCHEMA\<rparr>)"

section \<open>Removals\<close>

definition WORKTREE_REMOVAL_SCHEMA :: string where
  "WORKTREE_REMOVAL_SCHEMA = ''blackcell.worktree-removal/v1''"

record worktree_removal =
  wr_spec_digest :: string
  wr_lease_digest :: string
  wr_path :: string
  wr_branch :: string
  wr_head :: string
  wr_disposition :: string
  wr_schema :: string

definition worktree_removal_ok :: "worktree_removal \<Rightarrow> bool" where
  "worktree_removal_ok r \<longleftrightarrow> wr_schema r = WORKTREE_REMOVAL_SCHEMA \<and> wr_disposition r = ''removed''
     \<and> re_digest (wr_spec_digest r) \<and> re_digest (wr_lease_digest r) \<and> path_anchor (wr_path r) \<noteq> []
     \<and> startswith (wr_branch r) ''blackcell/execution-worktree/'' \<and> commit_id (wr_head r)"

definition worktree_removal_payload :: "worktree_removal \<Rightarrow> jobject" where
  "worktree_removal_payload r =
     [(''schema_version'', JStr (wr_schema r)), (''spec_digest'', JStr (wr_spec_digest r)),
      (''lease_digest'', JStr (wr_lease_digest r)), (''worktree_path'', JStr (wr_path r)),
      (''branch_name'', JStr (wr_branch r)), (''retained_head_commit'', JStr (wr_head r)),
      (''disposition'', JStr (wr_disposition r))]"

definition worktree_removal_from_mapping :: "jobject \<Rightarrow> worktree_removal option" where
  "worktree_removal_from_mapping raw = do {
     ensure (keys_are raw [''schema_version'', ''spec_digest'', ''lease_digest'', ''worktree_path'',
       ''branch_name'', ''retained_head_commit'', ''disposition'']);
     ensure (jget raw ''schema_version'' = JStr WORKTREE_REMOVAL_SCHEMA
       \<and> jget raw ''disposition'' = JStr ''removed'');
     spec \<leftarrow> as_str (jget raw ''spec_digest'');
     lease \<leftarrow> as_str (jget raw ''lease_digest'');
     path \<leftarrow> as_str (jget raw ''worktree_path'');
     branch \<leftarrow> as_str (jget raw ''branch_name'');
     head \<leftarrow> as_str (jget raw ''retained_head_commit'');
     let r = \<lparr>wr_spec_digest = spec, wr_lease_digest = lease, wr_path = as_posix path,
       wr_branch = branch, wr_head = head, wr_disposition = ''removed'',
       wr_schema = WORKTREE_REMOVAL_SCHEMA\<rparr>
     in do { ensure (worktree_removal_ok r); Some r } }"

end
