(* ===== verification/WorktreeProps.thy ===== *)
theory WorktreeProps
  imports Worktree RunLifecycle
begin

text \<open>
  The properties of the worktree values: a checkout belongs to one lease, its evidence says
  exactly what was observed, and the durable payloads read back. \<open>RunLifecycle\<close> is imported for
  the digest it recomputes when a lease is claimed.
\<close>

section \<open>Payloads\<close>

lemma str_sequence_strings [simp]: "str_sequence (strings xs) = Some xs"
proof -
  have "traverse as_str (map JStr xs) = Some xs" by (induction xs) auto
  then show ?thesis by (simp add: str_sequence_def strings_def)
qed

lemma traverse_strings [simp]: "Option.bind (as_arr (strings xs)) (traverse as_str) = Some xs"
  using str_sequence_strings[of xs] by (simp add: str_sequence_def)

lemma norm_strings [simp]: "norm_json (strings xs) = strings xs"
  by (simp add: strings_def)

lemma float_free_strings [simp]: "float_free (strings xs)"
  by (simp add: strings_def list_all_iff)

lemma strings_inject [simp]: "strings xs = strings ys \<longleftrightarrow> xs = ys"
proof -
  have "inj JStr" by (rule injI) simp
  then show ?thesis by (simp add: strings_def inj_map_eq_map)
qed

lemma worktree_lease_payload_fields [simp]:
  "jget (worktree_lease_payload l) ''schema_version'' = JStr (wl_schema l)"
  "jget (worktree_lease_payload l) ''run_id'' = JStr (wl_run_id l)"
  "jget (worktree_lease_payload l) ''node_id'' = JStr (wl_node_id l)"
  "jget (worktree_lease_payload l) ''attempt'' = JInt (wl_attempt l)"
  "jget (worktree_lease_payload l) ''fencing_token'' = JInt (wl_fence l)"
  "jget (worktree_lease_payload l) ''worker_id'' = JStr (wl_worker l)"
  "keys_are (worktree_lease_payload l) [''schema_version'', ''run_id'', ''node_id'', ''attempt'',
     ''fencing_token'', ''worker_id'']"
  by (simp_all add: worktree_lease_payload_def jget_def keys_are_def)

lemma worktree_spec_payload_fields [simp]:
  "jget (worktree_spec_payload w) ''schema_version'' = JStr (wt_schema w)"
  "jget (worktree_spec_payload w) ''lease_digest'' = JStr (worktree_lease_digest (wt_lease w))"
  "jget (worktree_spec_payload w) ''lease'' = JObj (worktree_lease_payload (wt_lease w))"
  "jget (worktree_spec_payload w) ''repository_root'' = JStr (wt_repository w)"
  "jget (worktree_spec_payload w) ''isolation_root'' = JStr (wt_isolation w)"
  "jget (worktree_spec_payload w) ''base_commit'' = JStr (wt_base w)"
  "jget (worktree_spec_payload w) ''allowed_paths'' = strings (wt_allowed w)"
  "jget (worktree_spec_payload w) ''max_changed_paths'' = JInt (wt_max_changed w)"
  "keys_are (worktree_spec_payload w) [''schema_version'', ''lease_digest'', ''lease'',
     ''repository_root'', ''isolation_root'', ''base_commit'', ''allowed_paths'', ''max_changed_paths'']"
  by (simp_all add: worktree_spec_payload_def jget_def keys_are_def)

lemma worktree_lease_readback:
  "worktree_lease_ok l \<Longrightarrow> worktree_lease_from_mapping (worktree_lease_payload l) = Some l"
  by (cases l) (simp add: worktree_lease_from_mapping_def worktree_lease_ok_def Let_def)

lemma make_worktree_spec_iff:
  "make_worktree_spec host r = Inr w \<longleftrightarrow> w = r\<lparr>wt_allowed := sort (wt_allowed r)\<rparr>
     \<and> wt_schema r = WORKTREE_SPEC_SCHEMA
     \<and> path_anchor (wt_repository r) \<noteq> [] \<and> hp_repository host (wt_repository r)
     \<and> path_anchor (wt_isolation r) \<noteq> [] \<and> hp_isolation host (wt_isolation r)
     \<and> \<not> is_relative_to (wt_repository r) (wt_isolation r)
     \<and> \<not> is_relative_to (wt_isolation r) (wt_repository r)
     \<and> commit_id (wt_base r) \<and> length (wt_allowed r) \<le> 256 \<and> list_all policy_path (wt_allowed r)
     \<and> distinct (wt_allowed r) \<and> 0 \<le> wt_max_changed r \<and> wt_max_changed r \<le> 10000"
  unfolding make_worktree_spec_def ebind_check
  by (simp only: if_split_eq1 if_cancel sum.inject sum.distinct simp_thms conj_assoc) metis

lemma make_worktree_spec_Inr:
  assumes "make_worktree_spec host r = Inr w"
  shows "w = r\<lparr>wt_allowed := sort (wt_allowed r)\<rparr>" "wt_schema w = WORKTREE_SPEC_SCHEMA"
    "make_worktree_spec host w = Inr w" "sorted (wt_allowed w)" "distinct (wt_allowed w)"
    "list_all policy_path (wt_allowed w)" "commit_id (wt_base w)"
    "0 \<le> wt_max_changed w" "wt_max_changed w \<le> 10000" "path_anchor (wt_isolation w) \<noteq> []"
  using assms unfolding make_worktree_spec_iff by (simp_all add: sorted_sort_id list_all_iff)

text \<open>
  A worktree specification survives its durable payload, lease included, as long as its two
  roots are in the normal form of \<open>pathlib\<close>; and the digest the run lifecycle recomputes from that
  payload when the lease is claimed is the specification's own digest.
\<close>
theorem worktree_spec_roundtrip:
  assumes "make_worktree_spec host r = Inr w" "worktree_lease_ok (wt_lease r)"
    and "as_posix (wt_repository r) = wt_repository r" "as_posix (wt_isolation r) = wt_isolation r"
  shows "worktree_spec_from_mapping host (worktree_spec_payload w) = Inr w
    \<and> worktree_spec_digest (worktree_spec_payload w) (worktree_lease_digest (wt_lease w)) = worktree_digest w"
proof -
  note w = make_worktree_spec_Inr[OF assms(1)]
  have f: "wt_lease w = wt_lease r" "wt_repository w = wt_repository r" "wt_isolation w = wt_isolation r"
    by (simp_all add: w(1))
  have eta: "\<lparr>wt_lease = wt_lease w, wt_repository = wt_repository w, wt_isolation = wt_isolation w,
      wt_base = wt_base w, wt_allowed = wt_allowed w, wt_max_changed = wt_max_changed w,
      wt_schema = WORKTREE_SPEC_SCHEMA\<rparr> = w"
    using w(2) by (cases w) simp
  have l: "worktree_lease_ok (wt_lease w)" "wl_schema (wt_lease w) = WORKTREE_LEASE_SCHEMA"
    using assms(2) f by (simp_all add: worktree_lease_ok_def)
  have norm: "as_posix (wt_repository w) = wt_repository w" "as_posix (wt_isolation w) = wt_isolation w"
    using assms(3,4) f by simp_all
  have arr: "as_arr (strings (wt_allowed w)) = Some (map JStr (wt_allowed w))"
    "traverse as_str (map JStr (wt_allowed w)) = Some (wt_allowed w)"
    using str_sequence_strings[of "wt_allowed w"] by (simp_all add: strings_def str_sequence_def)
  have "worktree_spec_from_mapping host (worktree_spec_payload w) = make_worktree_spec host w"
    by (simp add: worktree_spec_from_mapping_def l w(2) arr norm eta worktree_lease_readback[OF l(1)])
  with w(3) show ?thesis
    by (simp add: worktree_spec_digest_def worktree_digest_def worktree_identity_def)
qed

definition sample_worktree_lease :: worktree_lease where
  "sample_worktree_lease = \<lparr>wl_run_id = ''r'', wl_node_id = ''a'', wl_attempt = 1, wl_fence = 1,
     wl_worker = ''w'', wl_schema = WORKTREE_LEASE_SCHEMA\<rparr>"

definition sample_host :: host_paths where
  "sample_host = \<lparr>hp_repository = (\<lambda>p. p = ''/repo''), hp_isolation = (\<lambda>p. p = ''/work'')\<rparr>"

definition sample_worktree :: worktree_spec where
  "sample_worktree = \<lparr>wt_lease = sample_worktree_lease, wt_repository = ''/repo'',
     wt_isolation = ''/work'', wt_base = replicate 40 (CHR ''a''), wt_allowed = [''docs'', ''src''],
     wt_max_changed = 2, wt_schema = WORKTREE_SPEC_SCHEMA\<rparr>"

lemma sample_worktree_made: "make_worktree_spec sample_host sample_worktree = Inr sample_worktree"
proof -
  have "commit_id (replicate 40 (CHR ''a''))" by code_simp
  then show ?thesis
    by (simp add: make_worktree_spec_def sample_worktree_def sample_host_def is_relative_to_def
        posix_parts_def path_parts_def path_anchor_def startswith_def policy_path_def normal_path_iff)
qed

theorem worktree_spec_roundtrip_witness:
  "worktree_spec_from_mapping sample_host (worktree_spec_payload sample_worktree) = Inr sample_worktree"
proof -
  have "worktree_lease_ok (wt_lease sample_worktree)"
    "as_posix (wt_repository sample_worktree) = wt_repository sample_worktree"
    "as_posix (wt_isolation sample_worktree) = wt_isolation sample_worktree" by code_simp+
  from worktree_spec_roundtrip[OF sample_worktree_made this] show ?thesis by blast
qed

section \<open>Identity\<close>

text \<open>Objects with the same keys and the same normal form have the same normal fields.\<close>

lemma norm_json_fields:
  assumes "norm_json (JObj xs) = norm_json (JObj ys)" "map fst xs = map fst ys" "distinct (map fst xs)"
  shows "map (norm_json \<circ> snd) xs = map (norm_json \<circ> snd) ys"
proof -
  let ?n = "map (\<lambda>kv. (fst kv, norm_json (snd kv)))"
  have "set (sort_key fst (?n xs)) = set (sort_key fst (?n ys))" using assms(1) by simp
  then have "set (?n xs) = set (?n ys)" by (simp only: set_sort)
  moreover have keys: "map fst (?n xs) = map fst xs" "map fst (?n ys) = map fst ys" by (simp_all add: comp_def)
  ultimately have "map_of (?n xs) = map_of (?n ys)"
    using assms(2,3) by (intro map_of_inject_set[THEN iffD2]) (simp_all only:)
  then have "map (the \<circ> map_of (?n xs)) (map fst (?n xs)) = map (the \<circ> map_of (?n ys)) (map fst (?n ys))"
    using keys assms(2) by (simp only:)
  moreover have "map (the \<circ> map_of zs) (map fst zs) = map snd zs" if "distinct (map fst zs)"
    for zs :: "(string \<times> json) list"
    using that by (auto simp: map_of_is_SomeI)
  ultimately have "map snd (?n xs) = map snd (?n ys)" using keys assms(2,3) by metis
  then show ?thesis by (simp add: comp_def)
qed

lemma worktree_lease_binds:
  assumes "worktree_lease_digest l = worktree_lease_digest k"
  shows "l = k \<or> sha_collision (json_bytes (JObj (worktree_lease_payload l)))
    (json_bytes (JObj (worktree_lease_payload k)))"
proof -
  have "float_free (JObj (worktree_lease_payload l))" "float_free (JObj (worktree_lease_payload k))"
    by (simp_all add: worktree_lease_payload_def)
  from json_digest_binds[OF this] assms
  consider "norm_json (JObj (worktree_lease_payload l)) = norm_json (JObj (worktree_lease_payload k))"
    | "sha_collision (json_bytes (JObj (worktree_lease_payload l)))
        (json_bytes (JObj (worktree_lease_payload k)))"
    by (auto simp: worktree_lease_digest_def)
  then show ?thesis
  proof cases
    case 1
    then have "map (norm_json \<circ> snd) (worktree_lease_payload l) = map (norm_json \<circ> snd) (worktree_lease_payload k)"
      by (rule norm_json_fields) (simp_all add: worktree_lease_payload_def)
    then have "l = k" by (intro worktree_lease.equality) (simp_all add: worktree_lease_payload_def)
    then show ?thesis by simp
  qed simp
qed

text \<open>
  A checkout belongs to one specification: two specifications with the same branch name agree
  in every field, the lease with its attempt and fencing token included, unless the texts at hand
  collide under SHA-256. A later attempt therefore never works in the branch of an earlier one.
\<close>
theorem worktree_branch_identifies:
  assumes "branch_name v = branch_name w"
  shows "v = w \<or> sha_collision (json_bytes (JObj (worktree_identity v))) (json_bytes (JObj (worktree_identity w)))
    \<or> sha_collision (json_bytes (JObj (worktree_lease_payload (wt_lease v))))
        (json_bytes (JObj (worktree_lease_payload (wt_lease w))))"
proof -
  have "worktree_digest v = worktree_digest w"
    using assms by (simp add: branch_name_def worktree_digest_def json_digest_def digest_shape(2))
      (simp add: bytes_digest_def)
  moreover have "float_free (JObj (worktree_identity v))" "float_free (JObj (worktree_identity w))"
    by (simp_all add: worktree_identity_def)
  ultimately consider "norm_json (JObj (worktree_identity v)) = norm_json (JObj (worktree_identity w))"
    | "sha_collision (json_bytes (JObj (worktree_identity v))) (json_bytes (JObj (worktree_identity w)))"
    using json_digest_binds unfolding worktree_digest_def by blast
  then show ?thesis
  proof cases
    case 1
    then have "map (norm_json \<circ> snd) (worktree_identity v) = map (norm_json \<circ> snd) (worktree_identity w)"
      by (rule norm_json_fields) (simp_all add: worktree_identity_def)
    then have same: "worktree_lease_digest (wt_lease v) = worktree_lease_digest (wt_lease w)"
      "wt_repository v = wt_repository w" "wt_isolation v = wt_isolation w" "wt_base v = wt_base w"
      "wt_allowed v = wt_allowed w" "wt_max_changed v = wt_max_changed w" "wt_schema v = wt_schema w"
      by (simp_all add: worktree_identity_def)
    from worktree_lease_binds[OF same(1)]
    have "wt_lease v = wt_lease w \<or> sha_collision (json_bytes (JObj (worktree_lease_payload (wt_lease v))))
        (json_bytes (JObj (worktree_lease_payload (wt_lease w))))" .
    then show ?thesis using same(2-) by (metis worktree_spec.equality old.unit.exhaust)
  qed simp
qed

theorem worktree_branch_identifies_witness:
  "sample_worktree = sample_worktree
    \<or> sha_collision (json_bytes (JObj (worktree_identity sample_worktree)))
        (json_bytes (JObj (worktree_identity sample_worktree)))
    \<or> sha_collision (json_bytes (JObj (worktree_lease_payload (wt_lease sample_worktree))))
        (json_bytes (JObj (worktree_lease_payload (wt_lease sample_worktree))))"
  by (rule worktree_branch_identifies) (rule refl)

section \<open>Inspections\<close>

lemma worktree_path_normal:
  "as_posix (worktree_path w) = worktree_path w" "path_anchor (worktree_path w) = path_anchor (wt_isolation w)"
proof -
  let ?n = "''worktree-'' @ removeprefix (worktree_digest w) ''sha256:''"
  have "set ?n \<subseteq> set ''worktree-'' \<union> {c. is_lower_hex c}"
    using sha256_hex_lower by (auto simp: worktree_digest_def json_digest_def digest_shape(2) list_all_iff)
  moreover have "\<not> is_lower_hex (CHR ''/'')" by (simp add: is_lower_hex_def is_digit_def code_def)
  ultimately have "CHR ''/'' \<notin> set ?n" by auto
  then show "as_posix (worktree_path w) = worktree_path w"
    "path_anchor (worktree_path w) = path_anchor (wt_isolation w)"
    unfolding worktree_path_def by (rule path_join_normal; simp)+
qed

lemma worktree_inspection_payload_fields [simp]:
  "jget (worktree_inspection_payload i) ''schema_version'' = JStr (wi_schema i)"
  "jget (worktree_inspection_payload i) ''spec_digest'' = JStr (wi_spec_digest i)"
  "jget (worktree_inspection_payload i) ''lease_digest'' = JStr (wi_lease_digest i)"
  "jget (worktree_inspection_payload i) ''worktree_path'' = JStr (wi_path i)"
  "jget (worktree_inspection_payload i) ''branch_name'' = JStr (wi_branch i)"
  "jget (worktree_inspection_payload i) ''base_commit'' = JStr (wi_base i)"
  "jget (worktree_inspection_payload i) ''head_commit'' = JStr (wi_head i)"
  "jget (worktree_inspection_payload i) ''allowed_paths'' = strings (wi_allowed i)"
  "jget (worktree_inspection_payload i) ''max_changed_paths'' = JInt (wi_max_changed i)"
  "jget (worktree_inspection_payload i) ''changed_paths'' = strings (wi_changed i)"
  "jget (worktree_inspection_payload i) ''uncommitted_paths'' = strings (wi_uncommitted i)"
  "jget (worktree_inspection_payload i) ''out_of_scope_paths'' = strings (wi_out_of_scope i)"
  "jget (worktree_inspection_payload i) ''changed_path_limit_exceeded'' = JBool (wi_limit_exceeded i)"
  "keys_are (worktree_inspection_payload i) [''schema_version'', ''spec_digest'', ''lease_digest'',
     ''worktree_path'', ''branch_name'', ''base_commit'', ''head_commit'', ''allowed_paths'',
     ''max_changed_paths'', ''changed_paths'', ''uncommitted_paths'', ''out_of_scope_paths'',
     ''changed_path_limit_exceeded'']"
  by (simp_all add: worktree_inspection_payload_def jget_def keys_are_def)

lemma worktree_inspection_readback:
  assumes "worktree_inspection_ok i" "as_posix (wi_path i) = wi_path i"
  shows "worktree_inspection_from_mapping (worktree_inspection_payload i) = Some i"
proof -
  have schema: "wi_schema i = WORKTREE_INSPECTION_SCHEMA"
    using assms(1) by (simp add: worktree_inspection_ok_def)
  have eta: "\<lparr>wi_spec_digest = wi_spec_digest i, wi_lease_digest = wi_lease_digest i,
      wi_path = wi_path i, wi_branch = wi_branch i, wi_base = wi_base i, wi_head = wi_head i,
      wi_allowed = wi_allowed i, wi_max_changed = wi_max_changed i, wi_changed = wi_changed i,
      wi_uncommitted = wi_uncommitted i, wi_out_of_scope = wi_out_of_scope i,
      wi_limit_exceeded = wi_limit_exceeded i, wi_schema = WORKTREE_INSPECTION_SCHEMA\<rparr> = i"
    using schema by (cases i) simp
  show ?thesis
    using assms by (simp add: worktree_inspection_from_mapping_def as_bool_def Let_def schema eta)
qed

lemma observed_ok:
  assumes "make_worktree_spec host r = Inr w" "commit_id head_commit"
    and "\<forall>p\<in>set (base_relative @ head_relative @ untracked). normal_path p"
  shows "worktree_inspection_ok (observe w head_commit base_relative head_relative untracked)"
proof -
  note w = make_worktree_spec_Inr[OF assms(1)]
  have "sorted_set (wt_allowed w) = wt_allowed w" "sort (wt_allowed w) = wt_allowed w"
    using w(4,5) by (simp_all add: sorted_sort_id)
  moreover have "sorted_set (filter P (sorted_set xs)) = filter P (sorted_set xs)"
    for P and xs :: "string list" by (rule sorted_set_idem) (simp_all add: sorted_wrt_filter)
  moreover have "branch_name w = ''blackcell/execution-worktree/'' @ removeprefix (worktree_digest w) ''sha256:''"
    by (simp add: branch_name_def)
  moreover have "re_digest (worktree_digest w)" "re_digest (worktree_lease_digest (wt_lease w))"
    by (simp_all add: worktree_digest_def worktree_lease_digest_def)
  moreover have "\<forall>p\<in>set base_relative \<union> set untracked. normal_path p"
    "\<forall>p\<in>set head_relative \<union> set untracked. normal_path p" using assms(3) by auto
  ultimately show ?thesis
    using assms(2) w(6-10) worktree_path_normal(2)[of w]
    by (simp add: worktree_inspection_ok_def observe_def Let_def list_all_iff startswith_iff)
qed

text \<open>
  What \<open>inspect\<close> reports is exact. From normal paths reported by Git, the evidence it builds for
  a valid specification is accepted by its own constructor and survives its payload. It is
  compliant exactly when every changed or untracked path lies under an allowed path and their
  number is within the limit, and clean exactly when nothing is uncommitted or untracked.
\<close>
theorem inspection_exact:
  assumes "make_worktree_spec host r = Inr w" "commit_id head_commit"
    and "\<forall>p\<in>set (base_relative @ head_relative @ untracked). normal_path p"
  shows "worktree_inspection_ok (observe w head_commit base_relative head_relative untracked)
    \<and> worktree_inspection_from_mapping
        (worktree_inspection_payload (observe w head_commit base_relative head_relative untracked))
      = Some (observe w head_commit base_relative head_relative untracked)
    \<and> (inspection_compliant (observe w head_commit base_relative head_relative untracked) \<longleftrightarrow>
        (\<forall>p\<in>set (base_relative @ untracked). path_is_allowed p (wt_allowed r))
        \<and> int (card (set (base_relative @ untracked))) \<le> wt_max_changed r)
    \<and> (inspection_clean (observe w head_commit base_relative head_relative untracked) \<longleftrightarrow>
        head_relative = [] \<and> untracked = [])"
proof -
  note w = make_worktree_spec_Inr[OF assms(1)]
  let ?i = "observe w head_commit base_relative head_relative untracked"
  have ok: "worktree_inspection_ok ?i" by (rule observed_ok[OF assms])
  have "as_posix (wi_path ?i) = wi_path ?i"
    by (simp add: observe_def Let_def worktree_path_normal)
  note readback = worktree_inspection_readback[OF ok this]
  have allowed: "path_is_allowed p (wt_allowed w) = path_is_allowed p (wt_allowed r)" for p
    by (simp add: w(1) path_is_allowed_def list_ex_iff)
  have "length (sorted_set (base_relative @ untracked)) = card (set (base_relative @ untracked))"
    by (metis distinct_card sorted_set_props)
  then have "inspection_compliant ?i \<longleftrightarrow> (\<forall>p\<in>set (base_relative @ untracked). path_is_allowed p (wt_allowed r))
        \<and> int (card (set (base_relative @ untracked))) \<le> wt_max_changed r"
    by (simp add: inspection_compliant_def observe_def Let_def filter_empty_conv allowed not_less)
      (simp add: w(1))
  moreover have "inspection_clean ?i \<longleftrightarrow> head_relative = [] \<and> untracked = []"
  proof -
    have "sorted_set xs = [] \<longleftrightarrow> xs = []" for xs :: "string list"
      by (metis set_empty sorted_set_props(1))
    then show ?thesis by (simp add: inspection_clean_def observe_def Let_def)
  qed
  ultimately show ?thesis using ok readback by blast
qed

theorem inspection_exact_witness:
  "inspection_compliant (observe sample_worktree (replicate 40 (CHR ''b'')) [''src/x''] [] [''docs/y'']) \<longleftrightarrow>
     (\<forall>p\<in>set [''src/x'', ''docs/y'']. path_is_allowed p (wt_allowed sample_worktree))
     \<and> int (card (set [''src/x'', ''docs/y''])) \<le> wt_max_changed sample_worktree"
proof -
  have "commit_id (replicate 40 (CHR ''b''))" by code_simp
  moreover have "\<forall>p\<in>set ([''src/x''] @ [] @ [''docs/y'']). normal_path p"
    by (simp add: normal_path_iff)
  ultimately show ?thesis using inspection_exact[OF sample_worktree_made, of "replicate 40 (CHR ''b'')"
      "[''src/x'']" "[]" "[''docs/y'']"] by simp
qed

end
