(* ===== verification/Changes.thy ===== *)
theory Changes
  imports Paths PlanFacts
begin

text \<open>
  \<open>orchestration/changes.py\<close>: the evidence shown to a provider, the text changes it proposes and
  the envelope of a provider call. A constructor raises one content-free error, whose code is fixed
  by the type (invalid evidence for contexts and calls, invalid proposal for the rest), so it is
  an option or a boolean.
\<close>

datatype text_operation = CreateText | ReplaceText | DeleteText

fun text_operation_value :: "text_operation \<Rightarrow> string" where
  "text_operation_value CreateText = ''create''"
| "text_operation_value ReplaceText = ''replace''"
| "text_operation_value DeleteText = ''delete''"

definition text_operation_of :: "string \<Rightarrow> text_operation option" where
  "text_operation_of s = (if s = ''create'' then Some CreateText
     else if s = ''replace'' then Some ReplaceText
     else if s = ''delete'' then Some DeleteText else None)"

lemma text_operation_of_value [simp]: "text_operation_of (text_operation_value x) = Some x"
  by (cases x) (simp_all add: text_operation_of_def)

definition bounded_utf8 :: "nat \<Rightarrow> bool \<Rightarrow> string \<Rightarrow> bool" where
  "bounded_utf8 maximum allow_empty s \<longleftrightarrow>
     (allow_empty \<or> py_strip s \<noteq> []) \<and> CHR 0x00 \<notin> set s \<and> utf8_length s \<le> maximum"

section \<open>Evidence\<close>

definition MAX_EVIDENCE_FILE_BYTES :: nat where "MAX_EVIDENCE_FILE_BYTES = 256 * 1024"
definition MAX_EVIDENCE_BYTES :: nat where "MAX_EVIDENCE_BYTES = 1024 * 1024"
definition MAX_CHANGE_CONTEXT_BYTES :: nat where "MAX_CHANGE_CONTEXT_BYTES = 16 * 1024 * 1024"
definition CHANGE_CONTEXT_SCHEMA :: string where "CHANGE_CONTEXT_SCHEMA = ''change-context/v1''"

record evidence_file =
  ef_path :: string
  ef_content :: string
  ef_digest :: string

text \<open>\<open>ExecutionEvidenceFile.__post_init__\<close>.\<close>

definition evidence_file_ok :: "evidence_file \<Rightarrow> bool" where
  "evidence_file_ok f \<longleftrightarrow> normal_path (ef_path f)
     \<and> bounded_utf8 MAX_EVIDENCE_FILE_BYTES True (ef_content f)
     \<and> ef_digest f = bytes_digest (utf8_encode (ef_content f))"

record change_context =
  cx_objective :: string
  cx_constraints :: "string list"
  cx_base :: string
  cx_allowed :: "string list"
  cx_max_changed :: int
  cx_files :: "evidence_file list"
  cx_schema :: string

definition evidence_file_payload :: "evidence_file \<Rightarrow> json" where
  "evidence_file_payload f = JObj [(''path'', JStr (ef_path f)), (''content'', JStr (ef_content f)),
     (''content_digest'', JStr (ef_digest f))]"

definition change_context_payload :: "change_context \<Rightarrow> jobject" where
  "change_context_payload c =
     [(''schema_version'', JStr (cx_schema c)), (''objective'', JStr (cx_objective c)),
      (''constraints'', strings (cx_constraints c)), (''base_commit'', JStr (cx_base c)),
      (''allowed_paths'', strings (cx_allowed c)), (''max_changed_paths'', JInt (cx_max_changed c)),
      (''files'', JArr (map evidence_file_payload (cx_files c)))]"

definition change_context_digest :: "change_context \<Rightarrow> string" where
  "change_context_digest c = json_digest (JObj (change_context_payload c))"

text \<open>\<open>ChangeContext.__post_init__\<close>, for evidence files that are valid already.\<close>

definition make_change_context :: "change_context \<Rightarrow> change_context option" where
  "make_change_context c = do {
     ensure (cx_schema c = CHANGE_CONTEXT_SCHEMA);
     ensure (bounded_utf8 (8 * 1024) False (cx_objective c));
     ensure (length (cx_constraints c) \<le> 64 \<and> distinct (cx_constraints c));
     ensure (list_all (bounded_utf8 (2 * 1024) False) (cx_constraints c));
     ensure (commit_id (cx_base c));
     ensure (length (cx_allowed c) \<le> 256);
     ensure (list_all policy_path (cx_allowed c) \<and> distinct (cx_allowed c));
     ensure (0 \<le> cx_max_changed c \<and> cx_max_changed c \<le> 10000);
     ensure (length (cx_files c) \<le> 64);
     let files = sort_key ef_path (cx_files c) in do {
     ensure (distinct (map ef_path files));
     ensure (sum_list (map (\<lambda>f. utf8_length (ef_content f)) files) \<le> MAX_EVIDENCE_BYTES);
     let d = c\<lparr>cx_allowed := sort (cx_allowed c), cx_files := files\<rparr> in do {
     ensure (length (json_bytes (JObj (change_context_payload d))) \<le> MAX_CHANGE_CONTEXT_BYTES);
     Some d } } }"

section \<open>Proposals\<close>

definition MAX_OPERATION_CONTENT_BYTES :: nat where "MAX_OPERATION_CONTENT_BYTES = 1024 * 1024"
definition MAX_PROPOSAL_CONTENT_BYTES :: nat where "MAX_PROPOSAL_CONTENT_BYTES = 4 * 1024 * 1024"
definition MAX_CHANGE_PROPOSAL_BYTES :: nat where "MAX_CHANGE_PROPOSAL_BYTES = 32 * 1024 * 1024"
definition CHANGE_PROPOSAL_SCHEMA :: string where "CHANGE_PROPOSAL_SCHEMA = ''change-proposal/v1''"

record file_change =
  fc_operation :: text_operation
  fc_path :: string
  fc_expected :: "string option"
  fc_content :: "string option"

text \<open>\<open>_DIGEST.fullmatch(self.expected_digest or "")\<close>.\<close>

definition optional_digest_ok :: "string option \<Rightarrow> bool" where
  "optional_digest_ok d = (case d of None \<Rightarrow> False | Some x \<Rightarrow> re_digest x)"

text \<open>\<open>FileChange.__post_init__\<close>.\<close>

definition file_change_ok :: "file_change \<Rightarrow> bool" where
  "file_change_ok c \<longleftrightarrow> normal_path (fc_path c)
     \<and> (case fc_operation c of
          CreateText \<Rightarrow> fc_expected c = None \<and> fc_content c \<noteq> None
        | ReplaceText \<Rightarrow> optional_digest_ok (fc_expected c) \<and> fc_content c \<noteq> None
        | DeleteText \<Rightarrow> optional_digest_ok (fc_expected c) \<and> fc_content c = None)
     \<and> (case fc_content c of None \<Rightarrow> True
        | Some s \<Rightarrow> bounded_utf8 MAX_OPERATION_CONTENT_BYTES True s
            \<and> \<not> (fc_operation c = ReplaceText \<and> Some (bytes_digest (utf8_encode s)) = fc_expected c))"

definition file_change_digest :: "file_change \<Rightarrow> string option" where
  "file_change_digest c = map_option (\<lambda>s. bytes_digest (utf8_encode s)) (fc_content c)"

record change_proposal =
  cg_id :: string
  cg_evidence :: string
  cg_operations :: "file_change list"
  cg_summary :: string
  cg_schema :: string

definition file_change_payload :: "file_change \<Rightarrow> json" where
  "file_change_payload c = JObj [(''operation'', JStr (text_operation_value (fc_operation c))),
     (''path'', JStr (fc_path c)), (''expected_digest'', opt_str (fc_expected c)),
     (''content'', opt_str (fc_content c))]"

definition change_proposal_payload :: "change_proposal \<Rightarrow> jobject" where
  "change_proposal_payload p =
     [(''schema_version'', JStr (cg_schema p)), (''proposal_id'', JStr (cg_id p)),
      (''evidence_digest'', JStr (cg_evidence p)),
      (''operations'', JArr (map file_change_payload (cg_operations p))),
      (''summary'', JStr (cg_summary p))]"

definition change_proposal_digest :: "change_proposal \<Rightarrow> string" where
  "change_proposal_digest p = json_digest (JObj (change_proposal_payload p))"

definition content_size :: "file_change \<Rightarrow> nat" where
  "content_size c = (case fc_content c of None \<Rightarrow> 0 | Some s \<Rightarrow> utf8_length s)"

text \<open>\<open>ChangeProposal.__post_init__\<close>, for changes that are valid already.\<close>

definition make_change_proposal :: "change_proposal \<Rightarrow> change_proposal option" where
  "make_change_proposal p = do {
     ensure (cg_schema p = CHANGE_PROPOSAL_SCHEMA \<and> plan_identifier (cg_id p)
       \<and> re_digest (cg_evidence p));
     ensure (1 \<le> length (cg_operations p) \<and> length (cg_operations p) \<le> 256);
     let operations = sort_key fc_path (cg_operations p) in do {
     ensure (distinct (map fc_path operations));
     ensure (sum_list (map content_size operations) \<le> MAX_PROPOSAL_CONTENT_BYTES);
     ensure (bounded_utf8 (4 * 1024) False (cg_summary p));
     let q = p\<lparr>cg_operations := operations\<rparr> in do {
     ensure (length (json_bytes (JObj (change_proposal_payload q))) \<le> MAX_CHANGE_PROPOSAL_BYTES);
     Some q } } }"

text \<open>One operation of \<open>change_proposal_from_mapping\<close>.\<close>

definition file_change_from_mapping :: "json \<Rightarrow> file_change option" where
  "file_change_from_mapping v = do {
     raw \<leftarrow> as_obj v;
     ensure (keys_are raw [''operation'', ''path'', ''expected_digest'', ''content'']);
     name \<leftarrow> as_str (jget raw ''operation'');
     operation \<leftarrow> text_operation_of name;
     path \<leftarrow> as_str (jget raw ''path'');
     expected \<leftarrow> optional_str (jget raw ''expected_digest'');
     content \<leftarrow> optional_str (jget raw ''content'');
     let c = \<lparr>fc_operation = operation, fc_path = path, fc_expected = expected,
       fc_content = content\<rparr> in do { ensure (file_change_ok c); Some c } }"

definition change_proposal_from_mapping :: "jobject \<Rightarrow> change_proposal option" where
  "change_proposal_from_mapping raw = do {
     ensure (keys_are raw [''schema_version'', ''proposal_id'', ''evidence_digest'', ''operations'',
       ''summary'']);
     raw_operations \<leftarrow> as_arr (jget raw ''operations'');
     ensure (1 \<le> length raw_operations \<and> length raw_operations \<le> 256);
     operations \<leftarrow> traverse file_change_from_mapping raw_operations;
     schema \<leftarrow> as_str (jget raw ''schema_version'');
     i \<leftarrow> as_str (jget raw ''proposal_id'');
     evidence \<leftarrow> as_str (jget raw ''evidence_digest'');
     summary \<leftarrow> as_str (jget raw ''summary'');
     make_change_proposal \<lparr>cg_id = i, cg_evidence = evidence, cg_operations = operations,
       cg_summary = summary, cg_schema = schema\<rparr> }"

section \<open>Provider calls\<close>

record change_call =
  cl_request_id :: string
  cl_correlation_id :: string
  cl_run_id :: string
  cl_node_id :: string
  cl_context :: change_context
  cl_classification :: data_classification
  cl_locality :: locality_policy
  cl_budget :: gateway_budget
  cl_estimated_input_tokens :: int
  cl_causation_id :: "string option"

definition call_text_ok :: "string \<Rightarrow> bool" where
  "call_text_ok s \<longleftrightarrow> py_strip s \<noteq> [] \<and> length s \<le> 256"

definition change_call_ok :: "change_call \<Rightarrow> bool" where
  "change_call_ok c \<longleftrightarrow> list_all call_text_ok
       [cl_request_id c, cl_correlation_id c, cl_run_id c, cl_node_id c]
     \<and> (case cl_causation_id c of None \<Rightarrow> True | Some s \<Rightarrow> call_text_ok s)
     \<and> 0 \<le> cl_estimated_input_tokens c"

definition CHANGE_PROVIDER_RESULT_SCHEMA :: string where
  "CHANGE_PROVIDER_RESULT_SCHEMA = ''change-provider-result/v1''"

record change_result =
  cr_proposal :: change_proposal
  cr_output_digest :: string
  cr_profile_id :: string
  cr_adapter_id :: string
  cr_model_id :: string
  cr_input_tokens :: "int option"
  cr_output_tokens :: "int option"
  cr_latency_ms :: int
  cr_cost_microusd :: "int option"
  cr_completed_at :: datetime
  cr_schema :: string

definition change_result_ok :: "change_result \<Rightarrow> bool" where
  "change_result_ok r \<longleftrightarrow> cr_schema r = CHANGE_PROVIDER_RESULT_SCHEMA \<and> re_digest (cr_output_digest r)
     \<and> list_all call_text_ok [cr_profile_id r, cr_adapter_id r, cr_model_id r]
     \<and> list_all usage_ok [cr_input_tokens r, cr_output_tokens r, cr_cost_microusd r]
     \<and> 0 \<le> cr_latency_ms r \<and> aware (cr_completed_at r)"

definition change_result_payload :: "change_result \<Rightarrow> jobject" where
  "change_result_payload r =
     [(''schema_version'', JStr (cr_schema r)),
      (''proposal_digest'', JStr (change_proposal_digest (cr_proposal r))),
      (''provider_output_digest'', JStr (cr_output_digest r)), (''profile_id'', JStr (cr_profile_id r)),
      (''adapter_id'', JStr (cr_adapter_id r)), (''model_id'', JStr (cr_model_id r)),
      (''input_tokens'', opt_int (cr_input_tokens r)), (''output_tokens'', opt_int (cr_output_tokens r)),
      (''latency_ms'', JInt (cr_latency_ms r)), (''cost_microusd'', opt_int (cr_cost_microusd r)),
      (''completed_at'', JStr (isoformat (cr_completed_at r)))]"

end
