(* ===== verification/TextChanges.thy ===== *)
theory TextChanges
  imports Changes Worktree
begin

text \<open>
  \<open>adapters/execution/text_changes.py\<close>: the host applies an admitted proposal to a worktree.
  The directory tree is a map from path components to entries. The three file effects are
  \<open>AtomicTextFileEffects\<close>: each happens completely or not at all and may raise before or after it
  happened (after: the directory could not be synchronised); which of them fail is a list of
  faults, one per effect, that the environment chooses. The temporary file of an effect, which has
  a fresh name and is unlinked again, is not part of the tree. What Git reports of a tree
  (\<open>GitWorktreeLifecycle.inspect\<close>) is a parameter.
\<close>

section \<open>The tree\<close>

datatype entry = Directory | RegularFile string nat | SymbolicLink | SpecialFile

type_synonym tree = "string list \<rightharpoonup> entry"

text \<open>Strict UTF-8, as \<open>bytes.decode\<close> reads it.\<close>

definition is_continuation :: "nat \<Rightarrow> nat \<Rightarrow> char \<Rightarrow> bool" where
  "is_continuation lo hi c \<longleftrightarrow> lo \<le> code c \<and> code c \<le> hi"

fun utf8_valid :: "string \<Rightarrow> bool" where
  "utf8_valid [] = True"
| "utf8_valid (b # bs) =
     (if code b < 128 then utf8_valid bs
      else if 0xC2 \<le> code b \<and> code b \<le> 0xDF then
        (case bs of c # cs \<Rightarrow> is_continuation 0x80 0xBF c \<and> utf8_valid cs | _ \<Rightarrow> False)
      else if 0xE0 \<le> code b \<and> code b \<le> 0xEF then
        (case bs of c # d # ds \<Rightarrow>
           is_continuation (if code b = 0xE0 then 0xA0 else 0x80) (if code b = 0xED then 0x9F else 0xBF) c
           \<and> is_continuation 0x80 0xBF d \<and> utf8_valid ds
         | _ \<Rightarrow> False)
      else if 0xF0 \<le> code b \<and> code b \<le> 0xF4 then
        (case bs of c # d # e # es \<Rightarrow>
           is_continuation (if code b = 0xF0 then 0x90 else 0x80) (if code b = 0xF4 then 0x8F else 0xBF) c
           \<and> is_continuation 0x80 0xBF d \<and> is_continuation 0x80 0xBF e \<and> utf8_valid es
         | _ \<Rightarrow> False)
      else False)"

section \<open>Failures and results\<close>

datatype text_change_failure =
  InvalidAdmission | WorktreeNotFresh | OperationLimitExceeded | PathPolicyViolation | TargetConflict
  | TargetNotRegularText | BeforeDigestMismatch | EffectFailedRolledBack | EffectEvidenceMismatch
  | EffectUncertain

text \<open>\<open>_is_digest\<close>.\<close>

definition is_digest :: "string \<Rightarrow> bool" where
  "is_digest s \<longleftrightarrow> startswith s ''sha256:'' \<and> length s = 71 \<and> py_int16_ok (removeprefix s ''sha256:'')"

record text_change_admission =
  ta_spec_digest :: string
  ta_lease_digest :: string
  ta_evidence_digest :: string
  ta_proposal_digest :: string
  ta_schema :: string

definition text_change_admission_ok :: "text_change_admission \<Rightarrow> bool" where
  "text_change_admission_ok a \<longleftrightarrow> ta_schema a = ''execution-text-change-admission/v1''
     \<and> list_all is_digest [ta_spec_digest a, ta_lease_digest a, ta_evidence_digest a, ta_proposal_digest a]"

record text_change_effect =
  te_operation :: text_operation
  te_path :: string
  te_before :: "string option"
  te_after :: "string option"

record text_change_result =
  tx_spec_digest :: string
  tx_lease_digest :: string
  tx_evidence_digest :: string
  tx_proposal_digest :: string
  tx_head :: string
  tx_effects :: "text_change_effect list"
  tx_changed :: "string list"
  tx_status :: string
  tx_schema :: string
  tx_digest :: string

definition TEXT_CHANGE_RESULT_SCHEMA :: string where
  "TEXT_CHANGE_RESULT_SCHEMA = ''execution-text-change-result/v1''"

definition MAX_TEXT_CHANGE_RESULT_BYTES :: nat where
  "MAX_TEXT_CHANGE_RESULT_BYTES = 16 * 1024 * 1024"

definition text_change_effect_payload :: "text_change_effect \<Rightarrow> json" where
  "text_change_effect_payload e = JObj [(''operation'', JStr (text_operation_value (te_operation e))),
     (''path'', JStr (te_path e)), (''before_digest'', opt_str (te_before e)),
     (''after_digest'', opt_str (te_after e))]"

definition text_change_result_payload :: "text_change_result \<Rightarrow> jobject" where
  "text_change_result_payload r =
     [(''schema_version'', JStr (tx_schema r)), (''status'', JStr (tx_status r)),
      (''worktree_spec_digest'', JStr (tx_spec_digest r)), (''lease_digest'', JStr (tx_lease_digest r)),
      (''evidence_digest'', JStr (tx_evidence_digest r)),
      (''proposal_digest'', JStr (tx_proposal_digest r)), (''head_commit'', JStr (tx_head r)),
      (''effects'', JArr (map text_change_effect_payload (tx_effects r))),
      (''changed_paths'', strings (tx_changed r))]"

text \<open>\<open>TextChangeExecutionResult.__post_init__\<close>.\<close>

definition make_text_change_result :: "text_change_result \<Rightarrow> text_change_result option" where
  "make_text_change_result r = do {
     ensure (tx_schema r = TEXT_CHANGE_RESULT_SCHEMA \<and> tx_status r = ''applied''
       \<and> re_hex 40 (tx_head r)
       \<and> list_all is_digest [tx_spec_digest r, tx_lease_digest r, tx_evidence_digest r, tx_proposal_digest r]
       \<and> tx_effects r \<noteq> [] \<and> tx_changed r = sorted_set (tx_changed r)
       \<and> map te_path (tx_effects r) = tx_changed r);
     let payload = json_bytes (JObj (text_change_result_payload r)) in do {
     ensure (length payload \<le> MAX_TEXT_CHANGE_RESULT_BYTES);
     Some (r\<lparr>tx_digest := bytes_digest payload\<rparr>) } }"

section \<open>Effects\<close>

datatype fault = NoFault | FaultBefore | FaultAfter

record world =
  w_tree :: tree
  w_faults :: "fault list"

definition parent_exists :: "tree \<Rightarrow> string list \<Rightarrow> bool" where
  "parent_exists t p \<longleftrightarrow> butlast p = [] \<or> t (butlast p) = Some Directory"

text \<open>One effect: the environment's fault, whether the operation itself can succeed, and the entry
  it leaves. The result is whether the call returned normally.\<close>

definition effect :: "(tree \<Rightarrow> bool) \<Rightarrow> string list \<Rightarrow> entry option \<Rightarrow> world \<Rightarrow> bool \<times> world" where
  "effect possible p new w =
     (let f = (case w_faults w of [] \<Rightarrow> NoFault | x # _ \<Rightarrow> x); w' = w\<lparr>w_faults := tl (w_faults w)\<rparr>
      in if f = FaultBefore \<or> \<not> possible (w_tree w) then (False, w')
         else (f = NoFault, w'\<lparr>w_tree := (w_tree w)(p := new)\<rparr>))"

text \<open>\<open>os.link\<close> refuses an existing name, \<open>os.replace\<close> a directory, \<open>unlink\<close> a missing name or a
  directory.\<close>

definition create_effect :: "string list \<Rightarrow> string \<Rightarrow> nat \<Rightarrow> world \<Rightarrow> bool \<times> world" where
  "create_effect p data mode = effect (\<lambda>t. parent_exists t p \<and> t p = None) p (Some (RegularFile data mode))"

definition replace_effect :: "string list \<Rightarrow> string \<Rightarrow> nat \<Rightarrow> world \<Rightarrow> bool \<times> world" where
  "replace_effect p data mode =
     effect (\<lambda>t. parent_exists t p \<and> t p \<noteq> Some Directory) p (Some (RegularFile data mode))"

definition delete_effect :: "string list \<Rightarrow> world \<Rightarrow> bool \<times> world" where
  "delete_effect p = effect (\<lambda>t. t p \<noteq> None \<and> t p \<noteq> Some Directory) p None"

section \<open>Preflight\<close>

record planned_effect =
  pe_change :: file_change
  pe_target :: "string list"
  pe_before :: "string option"
  pe_mode :: "nat option"
  pe_after :: "string option"

text \<open>\<open>_require_existing_regular_parent\<close>: every directory on the way is one, not a link.\<close>

fun directories :: "tree \<Rightarrow> string list \<Rightarrow> string list \<Rightarrow> bool" where
  "directories t current [] = True"
| "directories t current (p # ps) =
     (t (current @ [p]) = Some Directory \<and> directories t (current @ [p]) ps)"

definition MAX_FILE_BYTES :: nat where "MAX_FILE_BYTES = 1024 * 1024"

definition read_regular_text :: "tree \<Rightarrow> string list \<Rightarrow> text_change_failure + (string \<times> nat)" where
  "read_regular_text t p = (case t p of
     Some (RegularFile data mode) \<Rightarrow>
       if length data \<le> MAX_FILE_BYTES \<and> utf8_valid data \<and> CHR 0x00 \<notin> set data then Inr (data, mode)
       else Inl TargetNotRegularText
   | _ \<Rightarrow> Inl TargetNotRegularText)"

text \<open>The target of the path \<open>"."\<close> is the worktree itself, whose parent is outside of it.\<close>

definition plan_change :: "worktree_spec \<Rightarrow> tree \<Rightarrow> file_change \<Rightarrow> text_change_failure + planned_effect" where
  "plan_change w t c =
     ebind (check PathPolicyViolation (path_is_allowed (fc_path c) (wt_allowed w))) (\<lambda>_.
     let target = path_parts (fc_path c) in
     ebind (check PathPolicyViolation (target \<noteq> [])) (\<lambda>_.
     ebind (check TargetNotRegularText (directories t [] (butlast target))) (\<lambda>_.
     ebind (if fc_operation c = CreateText
            then ebind (check TargetConflict (t target = None)) (\<lambda>_. Inr (None, None))
            else ebind (check TargetNotRegularText (t target \<noteq> None \<and> t target \<noteq> Some SymbolicLink)) (\<lambda>_.
                 ebind (read_regular_text t target) (\<lambda>(before, mode).
                 ebind (check BeforeDigestMismatch (Some (bytes_digest before) = fc_expected c)) (\<lambda>_.
                 Inr (Some before, Some mode))))) (\<lambda>(before, mode).
     Inr \<lparr>pe_change = c, pe_target = target, pe_before = before, pe_mode = mode,
       pe_after = map_option utf8_encode (fc_content c)\<rparr>))))"

definition preflight ::
    "worktree_spec \<Rightarrow> tree \<Rightarrow> change_proposal \<Rightarrow> text_change_failure + planned_effect list" where
  "preflight w t p =
     ebind (check OperationLimitExceeded (int (length (cg_operations p)) \<le> wt_max_changed w)) (\<lambda>_.
     etraverse (plan_change w t) (cg_operations p))"

section \<open>Application and rollback\<close>

text \<open>\<open>_apply\<close>; a missing content or mode, which the contracts rule out, raises.\<close>

definition apply_plan :: "planned_effect \<Rightarrow> world \<Rightarrow> bool \<times> world" where
  "apply_plan e w = (case fc_operation (pe_change e) of
     CreateText \<Rightarrow> (case pe_after e of None \<Rightarrow> (False, w)
       | Some data \<Rightarrow> create_effect (pe_target e) data 420 w)
   | ReplaceText \<Rightarrow> (case (pe_after e, pe_mode e) of
         (Some data, Some mode) \<Rightarrow> replace_effect (pe_target e) data mode w | _ \<Rightarrow> (False, w))
   | DeleteText \<Rightarrow> delete_effect (pe_target e) w)"

text \<open>The loop of \<open>execute\<close>: a plan is recorded before it is applied.\<close>

fun apply_plans :: "planned_effect list \<Rightarrow> world \<Rightarrow> bool \<times> planned_effect list \<times> world" where
  "apply_plans [] w = (True, [], w)"
| "apply_plans (e # es) w = (case apply_plan e w of (ok, w') \<Rightarrow>
     if ok then (case apply_plans es w' of (all_ok, applied, w'') \<Rightarrow> (all_ok, e # applied, w''))
     else (False, [e], w'))"

definition is_plain_file :: "entry option \<Rightarrow> bool" where
  "is_plain_file x = (case x of Some (RegularFile _ _) \<Rightarrow> True | _ \<Rightarrow> False)"

text \<open>One step of \<open>_rollback\<close>: the loop goes on only when it returns true.\<close>

definition undo :: "planned_effect \<Rightarrow> world \<Rightarrow> bool \<times> world" where
  "undo e w = (if fc_operation (pe_change e) = CreateText
     then (if w_tree w (pe_target e) = None then (True, w)
           else if \<not> is_plain_file (w_tree w (pe_target e)) then (False, w)
           else delete_effect (pe_target e) w)
     else (case (pe_before e, pe_mode e) of
             (Some data, Some mode) \<Rightarrow>
               if w_tree w (pe_target e) = None then create_effect (pe_target e) data mode w
               else if \<not> is_plain_file (w_tree w (pe_target e)) then (False, w)
               else replace_effect (pe_target e) data mode w
           | _ \<Rightarrow> (False, w)))"

fun undo_all :: "planned_effect list \<Rightarrow> world \<Rightarrow> bool \<times> world" where
  "undo_all [] w = (True, w)"
| "undo_all (e # es) w = (case undo e w of (ok, w') \<Rightarrow> if ok then undo_all es w' else (False, w'))"

type_synonym inspector = "tree \<Rightarrow> worktree_failure + worktree_inspection"

definition rollback ::
    "inspector \<Rightarrow> worktree_inspection \<Rightarrow> planned_effect list \<Rightarrow> world \<Rightarrow> bool \<times> world" where
  "rollback inspect before applied w = (case undo_all (rev applied) w of (ok, w') \<Rightarrow>
     (ok \<and> inspect (w_tree w') = Inr before, w'))"

section \<open>Execution\<close>

definition binding_ok :: "worktree_spec \<Rightarrow> change_proposal \<Rightarrow> text_change_admission \<Rightarrow> bool" where
  "binding_ok w p a \<longleftrightarrow> ta_spec_digest a = worktree_digest w
     \<and> ta_lease_digest a = worktree_lease_digest (wt_lease w)
     \<and> ta_evidence_digest a = cg_evidence p \<and> ta_proposal_digest a = change_proposal_digest p"

definition effect_evidence :: "planned_effect \<Rightarrow> text_change_effect" where
  "effect_evidence e = \<lparr>te_operation = fc_operation (pe_change e), te_path = fc_path (pe_change e),
     te_before = map_option bytes_digest (pe_before e), te_after = map_option bytes_digest (pe_after e)\<rparr>"

datatype execution_error = WorktreeError worktree_failure | TextChangeError text_change_failure

text \<open>After a failed effect or a contradicting inspection the applied plans are undone; the error
  says whether the tree is known to be restored.\<close>

definition recover ::
    "inspector \<Rightarrow> worktree_inspection \<Rightarrow> planned_effect list \<Rightarrow> text_change_failure \<Rightarrow> world
     \<Rightarrow> (execution_error + text_change_result) \<times> world" where
  "recover inspect before applied failure w = (case rollback inspect before applied w of (ok, w') \<Rightarrow>
     (Inl (TextChangeError (if ok then failure else EffectUncertain)), w'))"

definition execute_changes ::
    "inspector \<Rightarrow> worktree_spec \<Rightarrow> change_proposal \<Rightarrow> text_change_admission \<Rightarrow> world
     \<Rightarrow> (execution_error + text_change_result) \<times> world" where
  "execute_changes inspect spec proposal admission w =
     (if \<not> binding_ok spec proposal admission then (Inl (TextChangeError InvalidAdmission), w)
      else case inspect (w_tree w) of
        Inl f \<Rightarrow> (Inl (WorktreeError f), w)
      | Inr before \<Rightarrow>
        if \<not> inspection_clean before \<or> wi_changed before \<noteq> []
        then (Inl (TextChangeError WorktreeNotFresh), w)
        else case preflight spec (w_tree w) proposal of
          Inl f \<Rightarrow> (Inl (TextChangeError f), w)
        | Inr plans \<Rightarrow>
          (case apply_plans plans w of (ok, applied, w1) \<Rightarrow>
            if \<not> ok then recover inspect before applied EffectFailedRolledBack w1
            else case inspect (w_tree w1) of
              Inl f \<Rightarrow> recover inspect before applied EffectEvidenceMismatch w1
            | Inr after \<Rightarrow>
              let expected = map (\<lambda>e. fc_path (pe_change e)) plans in
              if wi_head after \<noteq> wi_head before \<or> wi_changed after \<noteq> expected
                 \<or> wi_uncommitted after \<noteq> expected \<or> \<not> inspection_compliant after
              then recover inspect before applied EffectEvidenceMismatch w1
              else case make_text_change_result \<lparr>tx_spec_digest = worktree_digest spec,
                  tx_lease_digest = worktree_lease_digest (wt_lease spec),
                  tx_evidence_digest = cg_evidence proposal,
                  tx_proposal_digest = change_proposal_digest proposal, tx_head = wi_head after,
                  tx_effects = map effect_evidence plans, tx_changed = wi_changed after,
                  tx_status = ''applied'', tx_schema = TEXT_CHANGE_RESULT_SCHEMA, tx_digest = []\<rparr> of
                None \<Rightarrow> (Inl (TextChangeError EffectEvidenceMismatch), w1)
              | Some r \<Rightarrow> (Inr r, w1)))"

end
