(* ===== verification/JsonSize.thy ===== *)
theory JsonSize
  imports PlanTypes "HOL-Library.Multiset"
begin

text \<open>Upper bounds on the canonical bytes of a value, for the size limits of the contracts.\<close>

definition json_size :: "json \<Rightarrow> nat" where
  "json_size j = length (json_bytes j)"

lemma utf8_encode_append [simp]: "utf8_encode (s @ t) = utf8_encode s @ utf8_encode t"
  by (simp add: utf8_encode_def)

lemma utf8_encode_Cons: "utf8_encode (c # s) = utf8_char c @ utf8_encode s"
  by (simp add: utf8_encode_def)

lemma utf8_encode_Nil [simp]: "utf8_encode [] = []"
  by (simp add: utf8_encode_def)

lemma length_utf8_char: "length (utf8_char c) \<le> 2"
  by (simp add: utf8_char_def)

lemma length_utf8_ascii: "list_all (\<lambda>c. code c < 128) s \<Longrightarrow> length (utf8_encode s) = length s"
  by (induction s) (simp_all add: utf8_encode_Cons utf8_char_def)

lemma length_utf8_encode: "length (utf8_encode s) = utf8_length s"
  by (induction s) (simp_all add: utf8_encode_Cons utf8_char_def utf8_length_def)

text \<open>A character takes at most six bytes: the escape of a control character is the longest.\<close>

lemma hex_digit_ascii: "n < 16 \<Longrightarrow> code (hex_digit n) < 128"
  by (simp add: hex_digit_def code_def)

lemma length_escape: "length (utf8_encode (json_escape c)) \<le> 6"
proof (cases "code c < 32")
  case True
  have "list_all (\<lambda>d. code d < 128) (json_escape c) \<and> length (json_escape c) \<le> 6"
    using True hex_digit_ascii[of "code c div 16"] hex_digit_ascii[of "code c mod 16"]
    by (simp add: json_escape_def) (simp add: code_def)
  then show ?thesis using length_utf8_ascii by metis
next
  case False
  then have "json_escape c \<in> {[CHR 0x5C, CHR 0x22], [CHR 0x5C, CHR 0x5C], [c],
      [CHR 0x5C, CHR ''n''], [CHR 0x5C, CHR ''r''], [CHR 0x5C, CHR ''t''], [CHR 0x5C, CHR ''f''],
      [CHR 0x5C, CHR ''b'']}"
    by (simp add: json_escape_def)
  then show ?thesis using length_utf8_char[of c] by (auto simp: utf8_encode_Cons utf8_char_def)
qed

lemma length_quote: "length (utf8_encode (json_quote s)) \<le> 6 * length s + 2"
proof -
  have "length (utf8_encode (concat (map json_escape s))) \<le> 6 * length s"
  proof (induction s)
    case (Cons c s)
    then show ?case using length_escape[of c] by simp
  qed simp
  then show ?thesis by (simp add: json_quote_def utf8_encode_Cons utf8_char_def code_def)
qed

lemma length_join: "length (utf8_encode (join '','' xs)) \<le> sum_list (map (\<lambda>x. length (utf8_encode x) + 1) xs)"
proof (induction "'',''" xs rule: join.induct)
  case (3 x y ys)
  then show ?case by (simp add: utf8_encode_Cons utf8_char_def code_def)
qed simp_all

lemma json_size_atoms:
  "json_size JNull = 4" "json_size (JBool b) \<le> 5" "json_size (JStr s) \<le> 6 * length s + 2"
  "json_size (opt_str v) \<le> (case v of None \<Rightarrow> 4 | Some s \<Rightarrow> 6 * length s + 2)"
  using length_quote by (auto simp: json_size_def json_bytes_def opt_str_def utf8_encode_Cons
      utf8_char_def code_def split: option.split)

lemma json_size_arr: "json_size (JArr xs) \<le> 2 + sum_list (map (\<lambda>x. json_size x + 1) xs)"
  using length_join[of "map dumps xs"]
  by (simp add: json_size_def json_bytes_def utf8_encode_Cons utf8_char_def code_def comp_def)

lemma json_size_obj:
  "json_size (JObj kvs) \<le> 2 + sum_list (map (\<lambda>kv. 6 * length (fst kv) + 4 + json_size (snd kv)) kvs)"
proof -
  let ?p = "map (\<lambda>kv. (fst kv, dumps (snd kv))) kvs"
  let ?text = "\<lambda>kt :: string \<times> string. json_quote (fst kt) @ '':'' @ snd kt"
  let ?b = "\<lambda>kt :: string \<times> string. 6 * length (fst kt) + 4 + length (utf8_encode (snd kt))"
  have "length (utf8_encode (?text kt)) + 1 \<le> ?b kt" for kt
    using length_quote[of "fst kt"] by (simp add: utf8_encode_Cons utf8_char_def code_def)
  then have 1: "sum_list (map (\<lambda>kt. length (utf8_encode (?text kt)) + 1) (sort_key fst ?p)) \<le> sum_list (map ?b (sort_key fst ?p))"
    by (rule sum_list_mono)
  have "mset (map ?b (sort_key fst ?p)) = mset (map ?b ?p)" by (simp only: mset_map mset_sort)
  from arg_cong[OF this, of sum_mset]
  have 2: "sum_list (map ?b (sort_key fst ?p)) = sum_list (map ?b ?p)" by (simp only: sum_mset_sum_list)
  have 3: "sum_list (map ?b ?p) = sum_list (map (\<lambda>kv. 6 * length (fst kv) + 4 + json_size (snd kv)) kvs)"
    by (simp add: comp_def json_size_def json_bytes_def)
  have 4: "length (utf8_encode (join '','' (map ?text (sort_key fst ?p))))
      \<le> sum_list (map (\<lambda>kt. length (utf8_encode (?text kt)) + 1) (sort_key fst ?p))"
    using length_join[of "map ?text (sort_key fst ?p)"] by (simp add: comp_def)
  from order_trans[OF 4 1] have "length (utf8_encode (join '','' (map ?text (sort_key fst ?p))))
      \<le> sum_list (map (\<lambda>kv. 6 * length (fst kv) + 4 + json_size (snd kv)) kvs)"
    by (simp only: 2 3)
  then show ?thesis
    by (simp add: json_size_def json_bytes_def utf8_encode_Cons utf8_char_def code_def)
qed

lemma json_size_strings:
  "\<forall>s\<in>set xs. length s \<le> n \<Longrightarrow> json_size (strings xs) \<le> 2 + length xs * (6 * n + 3)"
proof -
  assume n: "\<forall>s\<in>set xs. length s \<le> n"
  have "sum_list (map (\<lambda>s. json_size (JStr s) + 1) xs) \<le> sum_list (map (\<lambda>s. 6 * n + 3) xs)"
  proof (rule sum_list_mono)
    fix s assume "s \<in> set xs"
    with n have "length s \<le> n" by blast
    with json_size_atoms(3)[of s] show "json_size (JStr s) + 1 \<le> 6 * n + 3" by simp
  qed
  then show ?thesis
    using json_size_arr[of "map JStr xs"] by (simp add: strings_def comp_def sum_list_triv)
qed

end
