(* ===== verification/TextChangeFacts.thy ===== *)
theory TextChangeFacts
  imports TextChanges JsonSize
begin

text \<open>
  Lemmas on the text change executor: what a preflight that passes has established, the effect of
  one plan and of its undoing on the tree, the loops over plans, and the size of the evidence.
\<close>

section \<open>Accepted proposals\<close>

definition proposal_wf :: "change_proposal \<Rightarrow> bool" where
  "proposal_wf p \<longleftrightarrow> (\<exists>p0. make_change_proposal p0 = Some p) \<and> list_all file_change_ok (cg_operations p)"

lemma sort_key_eq_Nil: "sort_key f xs = [] \<longleftrightarrow> xs = []"
  by (metis length_0_conv length_sort)

lemma make_change_proposal_Some:
  assumes "make_change_proposal p0 = Some p"
  shows "p = p0\<lparr>cg_operations := sort_key fc_path (cg_operations p0)\<rparr>"
    "cg_schema p = CHANGE_PROPOSAL_SCHEMA" "plan_identifier (cg_id p)" "re_digest (cg_evidence p)"
    "cg_operations p \<noteq> []" "length (cg_operations p) \<le> 256"
    "sorted (map fc_path (cg_operations p))" "distinct (map fc_path (cg_operations p))"
  using assms by (auto simp: make_change_proposal_def Let_def bind_eq_Some_conv sort_key_eq_Nil split: if_splits)

lemma proposal_paths:
  assumes "proposal_wf p"
  shows "cg_operations p \<noteq> []" "length (cg_operations p) \<le> 256"
    "sorted (map fc_path (cg_operations p))" "distinct (map fc_path (cg_operations p))"
    "\<And>c. c \<in> set (cg_operations p) \<Longrightarrow> file_change_ok c"
    "\<And>c. c \<in> set (cg_operations p) \<Longrightarrow> normal_path (fc_path c)"
    "distinct (map (\<lambda>c. path_parts (fc_path c)) (cg_operations p))"
proof -
  obtain p0 where p0: "make_change_proposal p0 = Some p" using assms by (auto simp: proposal_wf_def)
  note made = make_change_proposal_Some[OF p0]
  show "cg_operations p \<noteq> []" "length (cg_operations p) \<le> 256"
    "sorted (map fc_path (cg_operations p))" "distinct (map fc_path (cg_operations p))"
    using made by blast+
  show ok: "file_change_ok c" if "c \<in> set (cg_operations p)" for c
    using assms that by (auto simp: proposal_wf_def list_all_iff)
  show np: "normal_path (fc_path c)" if "c \<in> set (cg_operations p)" for c
    using ok[OF that] by (simp add: file_change_ok_def)
  have "inj_on path_parts (set (map fc_path (cg_operations p)))"
    using np path_parts_inj by (auto simp: inj_on_def policy_path_def)
  with made(8) have "distinct (map path_parts (map fc_path (cg_operations p)))"
    by (simp only: distinct_map)
  then show "distinct (map (\<lambda>c. path_parts (fc_path c)) (cg_operations p))" by (simp add: comp_def)
qed

section \<open>One plan\<close>

text \<open>The entries a plan found and wants.\<close>

definition original :: "planned_effect \<Rightarrow> entry option" where
  "original e = (case (pe_before e, pe_mode e) of
     (Some data, Some mode) \<Rightarrow> Some (RegularFile data mode) | _ \<Rightarrow> None)"

definition desired :: "planned_effect \<Rightarrow> entry option" where
  "desired e = map_option (\<lambda>data. RegularFile data (case pe_mode e of None \<Rightarrow> 420 | Some m \<Rightarrow> m)) (pe_after e)"

definition plan_wf :: "planned_effect \<Rightarrow> bool" where
  "plan_wf e \<longleftrightarrow> pe_target e \<noteq> [] \<and> (case fc_operation (pe_change e) of
       CreateText \<Rightarrow> pe_before e = None \<and> pe_mode e = None \<and> pe_after e \<noteq> None
     | ReplaceText \<Rightarrow> pe_before e \<noteq> None \<and> pe_mode e \<noteq> None \<and> pe_after e \<noteq> None
     | DeleteText \<Rightarrow> pe_before e \<noteq> None \<and> pe_mode e \<noteq> None \<and> pe_after e = None)"

lemma plan_wfE:
  assumes "plan_wf e"
  obtains (create) data where "fc_operation (pe_change e) = CreateText" "pe_before e = None"
      "pe_mode e = None" "pe_after e = Some data" "original e = None" "desired e = Some (RegularFile data 420)"
  | (replace) old mode data where "fc_operation (pe_change e) = ReplaceText" "pe_before e = Some old"
      "pe_mode e = Some mode" "pe_after e = Some data"
      "original e = Some (RegularFile old mode)" "desired e = Some (RegularFile data mode)"
  | (delete) old mode where "fc_operation (pe_change e) = DeleteText" "pe_before e = Some old"
      "pe_mode e = Some mode" "pe_after e = None" "original e = Some (RegularFile old mode)" "desired e = None"
  using assms by (cases "fc_operation (pe_change e)") (auto simp: plan_wf_def original_def desired_def)

lemma read_regular_text_Inr:
  "read_regular_text t p = Inr (data, mode) \<Longrightarrow> t p = Some (RegularFile data mode)"
  by (auto simp: read_regular_text_def split: option.splits entry.splits if_splits)

lemma plan_change_Inr:
  assumes "plan_change w t c = Inr e" "file_change_ok c"
  shows "pe_change e = c" "pe_target e = path_parts (fc_path c)" "plan_wf e" "t (pe_target e) = original e"
    "path_is_allowed (fc_path c) (wt_allowed w)" "directories t [] (butlast (pe_target e))"
    "pe_after e = map_option utf8_encode (fc_content c)"
    "fc_expected c = map_option bytes_digest (pe_before e)"
proof -
  have *: "pe_change e = c \<and> pe_target e = path_parts (fc_path c) \<and> plan_wf e \<and> t (pe_target e) = original e
    \<and> path_is_allowed (fc_path c) (wt_allowed w) \<and> directories t [] (butlast (pe_target e))
    \<and> pe_after e = map_option utf8_encode (fc_content c)
    \<and> fc_expected c = map_option bytes_digest (pe_before e)"
  proof (cases "fc_operation c")
    case CreateText
    with assms show ?thesis
      by (auto simp: plan_change_def Let_def plan_wf_def file_change_ok_def original_def split: if_splits)
  next
    case ReplaceText
    with assms show ?thesis
      by (auto simp: plan_change_def Let_def plan_wf_def file_change_ok_def original_def ebind_eq_Inr
          dest: read_regular_text_Inr split: if_splits)
  next
    case DeleteText
    with assms show ?thesis
      by (auto simp: plan_change_def Let_def plan_wf_def file_change_ok_def original_def ebind_eq_Inr
          dest: read_regular_text_Inr split: if_splits)
  qed
  then show "pe_change e = c" "pe_target e = path_parts (fc_path c)" "plan_wf e" "t (pe_target e) = original e"
    "path_is_allowed (fc_path c) (wt_allowed w)" "directories t [] (butlast (pe_target e))"
    "pe_after e = map_option utf8_encode (fc_content c)"
    "fc_expected c = map_option bytes_digest (pe_before e)" by blast+
qed

lemma effect_cases:
  assumes "effect possible p new w = (ok, w')"
  shows "ok \<Longrightarrow> w_tree w' = (w_tree w)(p := new)"
    "w_tree w' = w_tree w \<or> w_tree w' = (w_tree w)(p := new)"
  using assms by (auto simp: effect_def Let_def split: if_splits)

lemma effect_runs: "possible (w_tree w) \<Longrightarrow> w_faults w = [] \<Longrightarrow>
    effect possible p new w = (True, w\<lparr>w_tree := (w_tree w)(p := new)\<rparr>)"
  by (simp add: effect_def Let_def)

lemmas file_effect_defs = create_effect_def replace_effect_def delete_effect_def

lemma apply_plan_tree:
  assumes "plan_wf e" "apply_plan e w = (ok, w')"
  shows "ok \<Longrightarrow> w_tree w' = (w_tree w)(pe_target e := desired e)"
    "w_tree w' = w_tree w \<or> w_tree w' = (w_tree w)(pe_target e := desired e)"
  using assms(2)
  by (cases rule: plan_wfE[OF assms(1)]; auto simp: apply_plan_def file_effect_defs dest: effect_cases)+

lemma undo_tree:
  assumes "plan_wf e" "undo e w = (True, w')"
  shows "w_tree w' = (w_tree w)(pe_target e := original e)"
  using assms(2)
  by (cases rule: plan_wfE[OF assms(1)])
    (auto simp: undo_def file_effect_defs fun_upd_idem dest: effect_cases split: if_splits)

section \<open>The loops\<close>

text \<open>Whatever happened, plans only ever touched their own targets.\<close>

lemma apply_plans_tree:
  assumes "apply_plans es w = (ok, applied, w')" "list_all plan_wf es"
  shows "prefix applied es" "ok \<Longrightarrow> applied = es"
    "p \<notin> pe_target ` set applied \<Longrightarrow> w_tree w' p = w_tree w p"
proof -
  have "prefix applied es \<and> (ok \<longrightarrow> applied = es)
      \<and> (\<forall>p. p \<notin> pe_target ` set applied \<longrightarrow> w_tree w' p = w_tree w p)"
    using assms
  proof (induction es arbitrary: w applied)
    case (Cons e es)
    obtain ok1 w1 where step: "apply_plan e w = (ok1, w1)" by fastforce
    have tree: "w_tree w1 p = w_tree w p" if "p \<noteq> pe_target e" for p
      using apply_plan_tree(2)[OF _ step] Cons.prems(2) that by auto
    show ?case
    proof (cases ok1)
      case True
      obtain ok2 applied2 w2 where rest: "apply_plans es w1 = (ok2, applied2, w2)" by (metis prod_cases3)
      with Cons.prems step True have eq: "ok = ok2" "applied = e # applied2" "w' = w2" by simp_all
      have "prefix applied2 es \<and> (ok2 \<longrightarrow> applied2 = es)
          \<and> (\<forall>p. p \<notin> pe_target ` set applied2 \<longrightarrow> w_tree w2 p = w_tree w1 p)"
        using Cons.IH[of w1 applied2] rest Cons.prems(2) unfolding eq by simp
      then show ?thesis using tree unfolding eq by simp
    next
      case False
      with Cons.prems step have "ok = False" "applied = [e]" "w' = w1" by simp_all
      then show ?thesis using tree by simp
    qed
  qed simp
  then show "prefix applied es" "ok \<Longrightarrow> applied = es"
    "p \<notin> pe_target ` set applied \<Longrightarrow> w_tree w' p = w_tree w p" by blast+
qed

lemma apply_plans_done:
  assumes "apply_plans es w = (True, applied, w')" "list_all plan_wf es" "distinct (map pe_target es)" "e \<in> set es"
  shows "w_tree w' (pe_target e) = desired e"
  using assms
proof (induction es arbitrary: w applied)
  case (Cons x es)
  obtain w1 where step: "apply_plan x w = (True, w1)"
    using Cons.prems(1) by (cases "apply_plan x w") (auto split: if_splits)
  obtain applied2 where rest: "apply_plans es w1 = (True, applied2, w')"
    using Cons.prems(1) step by (auto split: prod.splits)
  show ?case
  proof (cases "e = x")
    case True
    have "pe_target x \<notin> pe_target ` set applied2"
      using Cons.prems(3) apply_plans_tree(2)[OF rest] Cons.prems(2) by auto
    then have "w_tree w' (pe_target x) = w_tree w1 (pe_target x)"
      using apply_plans_tree(3)[OF rest] Cons.prems(2) by simp
    then show ?thesis using apply_plan_tree(1)[OF _ step] Cons.prems(2) True by simp
  next
    case False
    then show ?thesis using Cons.IH[OF rest] Cons.prems by simp
  qed
qed simp

text \<open>Undoing restores a tree whose only differences are at the targets.\<close>

lemma undo_all_restores:
  assumes "undo_all es w = (True, w')" "list_all plan_wf es"
    "\<forall>e\<in>set es. t (pe_target e) = original e" "\<forall>p. p \<notin> pe_target ` set es \<longrightarrow> w_tree w p = t p"
  shows "w_tree w' = t"
  using assms
proof (induction es arbitrary: w)
  case Nil
  then show ?case by (auto simp: fun_eq_iff)
next
  case (Cons e es)
  obtain w1 where step: "undo e w = (True, w1)"
    using Cons.prems(1) by (cases "undo e w") (auto split: if_splits)
  then have rest: "undo_all es w1 = (True, w')" using Cons.prems(1) by simp
  have "w_tree w1 = (w_tree w)(pe_target e := original e)"
    using undo_tree[OF _ step] Cons.prems(2) by simp
  then have "\<forall>p. p \<notin> pe_target ` set es \<longrightarrow> w_tree w1 p = t p"
    using Cons.prems(3,4) by auto
  then show ?case using Cons.IH[OF rest] Cons.prems(2,3) by simp
qed

section \<open>Without faults every plan can be applied\<close>

lemma directories_parent:
  "directories t current ps \<Longrightarrow> ps \<noteq> [] \<Longrightarrow> t (current @ ps) = Some Directory"
proof (induction ps arbitrary: current)
  case (Cons a ps)
  then show ?case using Cons.IH[of "current @ [a]"] by (cases "ps = []") simp_all
qed simp

text \<open>Every plan's parent exists and no plan writes to a directory.\<close>

definition ready :: "tree \<Rightarrow> planned_effect \<Rightarrow> bool" where
  "ready t e \<longleftrightarrow> plan_wf e \<and> t (pe_target e) = original e \<and> parent_exists t (pe_target e)"

lemma ready_after:
  assumes "ready t x" "ready t e" "pe_target e \<noteq> pe_target x"
  shows "ready (t(pe_target x := desired x)) e"
proof -
  have "t (pe_target x) \<noteq> Some Directory"
    using assms(1) by (auto simp: ready_def original_def split: option.splits)
  then have "t (butlast (pe_target e)) = Some Directory \<Longrightarrow> butlast (pe_target e) \<noteq> pe_target x" by auto
  then show ?thesis using assms by (auto simp: ready_def parent_exists_def)
qed

lemma apply_plan_runs:
  assumes "ready (w_tree w) e" "w_faults w = []"
  shows "apply_plan e w = (True, w\<lparr>w_tree := (w_tree w)(pe_target e := desired e)\<rparr>)"
proof -
  have wf: "plan_wf e" and t: "w_tree w (pe_target e) = original e" "parent_exists (w_tree w) (pe_target e)"
    using assms(1) by (auto simp: ready_def)
  show ?thesis
    using t assms(2)
    by (cases rule: plan_wfE[OF wf]) (simp_all add: apply_plan_def file_effect_defs effect_runs)
qed

lemma apply_plans_run:
  assumes "\<forall>e\<in>set es. ready (w_tree w) e" "distinct (map pe_target es)" "w_faults w = []"
  shows "\<exists>w'. apply_plans es w = (True, es, w')"
  using assms
proof (induction es arbitrary: w)
  case (Cons x es)
  let ?w = "w\<lparr>w_tree := (w_tree w)(pe_target x := desired x)\<rparr>"
  have "\<forall>e\<in>set es. ready (w_tree ?w) e"
  proof
    fix e assume "e \<in> set es"
    then show "ready (w_tree ?w) e"
      using ready_after[of "w_tree w" x e] Cons.prems(1,2) by (simp add: image_iff) metis
  qed
  moreover have "distinct (map pe_target es)" "w_faults ?w = []" using Cons.prems(2,3) by simp_all
  ultimately obtain w' where "apply_plans es ?w = (True, es, w')" using Cons.IH[of ?w] by blast
  then show ?case using apply_plan_runs[of w x] Cons.prems(1,3) by simp
qed simp

section \<open>The size of the evidence\<close>

text \<open>Paths have at most 4096 characters, digests 71, and there are at most 256 operations; with
  six bytes per character this stays below the limit of 16 MiB.\<close>

lemma is_digest_re_digest: "re_digest s \<Longrightarrow> is_digest s"
proof -
  assume s: "re_digest s"
  then obtain r where r: "s = ''sha256:'' @ r" and hex: "re_hex 64 r"
    by (auto simp: re_digest_def startswith_iff)
  then have "r \<noteq> []" "list_all is_hex r"
    by (auto simp: re_hex_def list_all_iff is_lower_hex_is_hex)
  then have "py_int16_ok (removeprefix s ''sha256:'')"
    unfolding r removeprefix_append by (rule py_int16_ok_hex)
  then show "is_digest s" using s re_digest_length[OF s] by (simp add: is_digest_def re_digest_def)
qed

lemma size_operation: "json_size (JStr (text_operation_value x)) \<le> 44"
  using json_size_atoms(3)[of "text_operation_value x"] by (cases x) simp_all

lemma size_digest: "case d of None \<Rightarrow> True | Some s \<Rightarrow> length s = 71 \<Longrightarrow> json_size (opt_str d) \<le> 428"
  using json_size_atoms(4)[of d] by (auto split: option.splits)

lemma size_effect:
  assumes "length (te_path e) \<le> 4096" "case te_before e of None \<Rightarrow> True | Some s \<Rightarrow> length s = 71"
    "case te_after e of None \<Rightarrow> True | Some s \<Rightarrow> length s = 71"
  shows "json_size (text_change_effect_payload e) + 1 \<le> 25800"
proof -
  have "json_size (JStr (te_path e)) \<le> 24578" using json_size_atoms(3)[of "te_path e"] assms(1) by simp
  with size_operation[of "te_operation e"] size_digest[OF assms(2)] size_digest[OF assms(3)] show ?thesis
    using json_size_obj[of "[(''operation'', JStr (text_operation_value (te_operation e))),
     (''path'', JStr (te_path e)), (''before_digest'', opt_str (te_before e)),
     (''after_digest'', opt_str (te_after e))]"]
    by (simp add: text_change_effect_payload_def)
qed

lemma size_text: "length s \<le> n \<Longrightarrow> json_size (JStr s) \<le> 6 * n + 2"
  using json_size_atoms(3)[of s] by simp

lemma size_result:
  assumes "tx_schema r = TEXT_CHANGE_RESULT_SCHEMA" "tx_status r = ''applied''" "length (tx_head r) = 40"
    "list_all (\<lambda>d. length d = 71) [tx_spec_digest r, tx_lease_digest r, tx_evidence_digest r, tx_proposal_digest r]"
    "length (tx_effects r) \<le> 256" "map te_path (tx_effects r) = tx_changed r"
    "\<forall>e\<in>set (tx_effects r). length (te_path e) \<le> 4096
       \<and> (case te_before e of None \<Rightarrow> True | Some s \<Rightarrow> length s = 71)
       \<and> (case te_after e of None \<Rightarrow> True | Some s \<Rightarrow> length s = 71)"
  shows "length (json_bytes (JObj (text_change_result_payload r))) \<le> MAX_TEXT_CHANGE_RESULT_BYTES"
proof -
  have "sum_list (map (\<lambda>e. json_size (text_change_effect_payload e) + 1) (tx_effects r))
      \<le> sum_list (map (\<lambda>e. 25800) (tx_effects r))"
    using assms(7) size_effect by (intro sum_list_mono) blast
  also have "\<dots> \<le> 256 * 25800" using assms(5) by (simp add: sum_list_triv)
  finally have effects: "json_size (JArr (map text_change_effect_payload (tx_effects r))) \<le> 2 + 256 * 25800"
    using json_size_arr[of "map text_change_effect_payload (tx_effects r)"] by (simp add: comp_def)
  have "length (tx_changed r) \<le> 256" using assms(5) unfolding assms(6)[symmetric] by simp
  then have "2 + length (tx_changed r) * (6 * 4096 + 3) \<le> 2 + 256 * (6 * 4096 + 3)" by simp
  moreover have "\<forall>p\<in>set (tx_changed r). length p \<le> 4096"
    using assms(7) unfolding assms(6)[symmetric] by auto
  ultimately have changed: "json_size (strings (tx_changed r)) \<le> 2 + 256 * (6 * 4096 + 3)"
    using json_size_strings[of "tx_changed r" 4096] order_trans by blast
  have digests: "json_size (JStr (tx_spec_digest r)) \<le> 428" "json_size (JStr (tx_lease_digest r)) \<le> 428"
    "json_size (JStr (tx_evidence_digest r)) \<le> 428" "json_size (JStr (tx_proposal_digest r)) \<le> 428"
    using assms(4) size_text[of _ 71] by auto
  have texts: "json_size (JStr (tx_schema r)) \<le> 242" "json_size (JStr (tx_status r)) \<le> 242"
    "json_size (JStr (tx_head r)) \<le> 242"
    using assms(1-3) size_text[of _ 40] by (auto simp: TEXT_CHANGE_RESULT_SCHEMA_def)
  have "json_size (JObj (text_change_result_payload r)) \<le> 16 * 1024 * 1024"
    using json_size_obj[of "text_change_result_payload r"] effects changed digests texts
    by (simp add: text_change_result_payload_def)
  then show ?thesis by (simp add: json_size_def MAX_TEXT_CHANGE_RESULT_BYTES_def)
qed

section \<open>Execution\<close>

text \<open>The specification: each change replaces the entry at its path and keeps the mode of a file.\<close>

definition change_target :: "file_change \<Rightarrow> string list" where
  "change_target c = path_parts (fc_path c)"

definition apply_change :: "file_change \<Rightarrow> tree \<Rightarrow> tree" where
  "apply_change c t = t(change_target c := map_option (\<lambda>s. RegularFile (utf8_encode s)
     (case t (change_target c) of Some (RegularFile _ mode) \<Rightarrow> mode | _ \<Rightarrow> 420)) (fc_content c))"

lemma fold_apply_change:
  assumes "distinct (map change_target cs)"
  shows "c \<in> set cs \<Longrightarrow> fold apply_change cs t (change_target c) = apply_change c t (change_target c)"
    "p \<notin> change_target ` set cs \<Longrightarrow> fold apply_change cs t p = t p"
proof -
  have "(\<forall>c\<in>set cs. fold apply_change cs t (change_target c) = apply_change c t (change_target c))
      \<and> (\<forall>p. p \<notin> change_target ` set cs \<longrightarrow> fold apply_change cs t p = t p)"
    using assms
  proof (induction cs arbitrary: t)
    case (Cons x cs)
    have IH: "(\<forall>c\<in>set cs. fold apply_change cs (apply_change x t) (change_target c)
          = apply_change c (apply_change x t) (change_target c))
      \<and> (\<forall>p. p \<notin> change_target ` set cs \<longrightarrow> fold apply_change cs (apply_change x t) p = apply_change x t p)"
      using Cons by simp
    have "apply_change c (apply_change x t) (change_target c) = apply_change c t (change_target c)"
      if "c \<in> set cs" for c
    proof -
      have "change_target c \<noteq> change_target x" using Cons.prems that by (simp add: image_iff) metis
      then show ?thesis by (simp add: apply_change_def)
    qed
    moreover have "apply_change x t p = t p" if "p \<noteq> change_target x" for p
      using that by (simp add: apply_change_def)
    ultimately show ?case using IH Cons.prems by simp
  qed simp
  then show "c \<in> set cs \<Longrightarrow> fold apply_change cs t (change_target c) = apply_change c t (change_target c)"
    "p \<notin> change_target ` set cs \<Longrightarrow> fold apply_change cs t p = t p" by blast+
qed

text \<open>The plans of a preflight that passed.\<close>

lemma preflight_plans:
  assumes "preflight spec t p = Inr plans" "proposal_wf p"
  shows "int (length (cg_operations p)) \<le> wt_max_changed spec" "map pe_change plans = cg_operations p"
    "map pe_target plans = map change_target (cg_operations p)" "distinct (map pe_target plans)"
    "list_all plan_wf plans" "\<And>e. e \<in> set plans \<Longrightarrow> plan_change spec t (pe_change e) = Inr e"
    "\<And>e. e \<in> set plans \<Longrightarrow> t (pe_target e) = original e" "\<And>e. e \<in> set plans \<Longrightarrow> ready t e"
proof -
  note ok = proposal_paths[OF assms(2)]
  have limit: "int (length (cg_operations p)) \<le> wt_max_changed spec"
    and all: "list_all2 (\<lambda>c e. plan_change spec t c = Inr e) (cg_operations p) plans"
    using assms(1) by (auto simp: preflight_def etraverse_Inr_iff split: if_splits)
  show "int (length (cg_operations p)) \<le> wt_max_changed spec" by (rule limit)
  have each: "list_all2 (\<lambda>c e. plan_change spec t c = Inr e \<and> pe_change e = c \<and> pe_target e = change_target c)
      (cg_operations p) plans"
    using all by (rule list.rel_mono_strong) (simp add: plan_change_Inr ok(5) change_target_def)
  then show map1: "map pe_change plans = cg_operations p"
    "map pe_target plans = map change_target (cg_operations p)"
    by (simp_all add: list_all2_conv_all_nth list_eq_iff_nth_eq)
  then show "distinct (map pe_target plans)" using ok(7) by (simp add: change_target_def[abs_def])
  show made: "plan_change spec t (pe_change e) = Inr e" if "e \<in> set plans" for e
    using each that by (auto simp: list_all2_conv_all_nth in_set_conv_nth)
  have good: "file_change_ok (pe_change e)" if "e \<in> set plans" for e
    using that map1(1) ok(5) by (metis image_eqI list.set_map)
  show "t (pe_target e) = original e" if "e \<in> set plans" for e
    using plan_change_Inr(4)[OF made good] that by blast
  have wf: "plan_wf e" if "e \<in> set plans" for e using plan_change_Inr(3)[OF made good] that by blast
  then show "list_all plan_wf plans" by (simp add: list_all_iff)
  show "ready t e" if "e \<in> set plans" for e
    using plan_change_Inr(4,6)[OF made good] wf directories_parent[of t "[]" "butlast (pe_target e)"] that
    by (auto simp: ready_def parent_exists_def)
qed

lemma desired_change:
  assumes "plan_change spec t (pe_change e) = Inr e" "file_change_ok (pe_change e)"
  shows "apply_change (pe_change e) t (change_target (pe_change e)) = desired e"
proof -
  note e = plan_change_Inr[OF assms]
  have wf: "plan_wf e" by (rule e(3))
  show ?thesis
    using e(2,4,7)
    by (cases rule: plan_wfE[OF wf])
      (auto simp: apply_change_def change_target_def desired_def map_option_case split: option.splits)
qed

text \<open>All plans applied: the tree is the specified one.\<close>

lemma applied_tree:
  assumes "preflight spec (w_tree w) p = Inr plans" "proposal_wf p" "apply_plans plans w = (True, applied, w')"
  shows "w_tree w' = fold apply_change (cg_operations p) (w_tree w)"
proof
  fix q
  note pre = preflight_plans[OF assms(1,2)]
  note ok = proposal_paths[OF assms(2)]
  have targets: "pe_target ` set plans = change_target ` set (cg_operations p)"
    using pre(3) by (metis list.set_map)
  have applied: "applied = plans" using apply_plans_tree(2)[OF assms(3) pre(5)] by simp
  have d: "distinct (map change_target (cg_operations p))" using ok(7) by (simp add: change_target_def[abs_def])
  show "w_tree w' q = fold apply_change (cg_operations p) (w_tree w) q"
  proof (cases "q \<in> pe_target ` set plans")
    case True
    then obtain e where e: "e \<in> set plans" "q = pe_target e" by blast
    have c: "pe_change e \<in> set (cg_operations p)" using pre(2) e(1) by (metis image_eqI list.set_map)
    have q: "q = change_target (pe_change e)"
      using plan_change_Inr(2)[OF pre(6)[OF e(1)] ok(5)[OF c]] e(2) by (simp add: change_target_def)
    show ?thesis
      using apply_plans_done[OF assms(3) pre(5,4) e(1)] fold_apply_change(1)[OF d c]
        desired_change[OF pre(6)[OF e(1)] ok(5)[OF c]] e(2) q by metis
  next
    case False
    then show ?thesis
      using apply_plans_tree(3)[OF assms(3) pre(5), of q] fold_apply_change(2)[OF d, of q] targets applied by metis
  qed
qed

text \<open>Recovery restores the tree or says that it does not know.\<close>

lemma recover_tree:
  assumes "preflight spec (w_tree w) p = Inr plans" "proposal_wf p" "apply_plans plans w = (ok, applied, w1)"
    "recover inspect before applied failure w1 = (res, w')"
  shows "res = Inl (TextChangeError EffectUncertain) \<or> res = Inl (TextChangeError failure) \<and> w_tree w' = w_tree w"
proof (cases "undo_all (rev applied) w1")
  case (Pair undone w2)
  note pre = preflight_plans[OF assms(1,2)]
  show ?thesis
  proof (cases undone)
    case True
    have sub: "set applied \<subseteq> set plans"
      using apply_plans_tree(1)[OF assms(3) pre(5)] by (meson set_mono_prefix)
    have "w_tree w2 = w_tree w"
    proof (rule undo_all_restores)
      show "undo_all (rev applied) w1 = (True, w2)" using Pair True by simp
      show "list_all plan_wf (rev applied)" using pre(5) sub by (auto simp: list_all_iff)
      show "\<forall>e\<in>set (rev applied). w_tree w (pe_target e) = original e" using pre(7) sub by auto
      show "\<forall>q. q \<notin> pe_target ` set (rev applied) \<longrightarrow> w_tree w1 q = w_tree w q"
        using apply_plans_tree(3)[OF assms(3) pre(5)] by simp
    qed
    then show ?thesis using assms(4) Pair by (auto simp: recover_def rollback_def)
  next
    case False
    then show ?thesis using assms(4) Pair by (auto simp: recover_def rollback_def)
  qed
qed

definition result_fields ::
    "worktree_spec \<Rightarrow> change_proposal \<Rightarrow> planned_effect list \<Rightarrow> worktree_inspection \<Rightarrow> text_change_result" where
  "result_fields spec p plans after = \<lparr>tx_spec_digest = worktree_digest spec,
     tx_lease_digest = worktree_lease_digest (wt_lease spec), tx_evidence_digest = cg_evidence p,
     tx_proposal_digest = change_proposal_digest p, tx_head = wi_head after,
     tx_effects = map effect_evidence plans, tx_changed = wi_changed after, tx_status = ''applied'',
     tx_schema = TEXT_CHANGE_RESULT_SCHEMA, tx_digest = []\<rparr>"

lemma preflight_certain: "preflight spec t p = Inl f \<Longrightarrow> f \<noteq> EffectUncertain"
proof
  have one: "plan_change spec t c \<noteq> Inl EffectUncertain" for c
    by (auto simp: plan_change_def Let_def read_regular_text_def ebind_eq_Inl
        split: option.splits entry.splits if_splits prod.splits)
  have all: "etraverse (plan_change spec t) cs \<noteq> Inl EffectUncertain" for cs
    using one by (induction cs) (simp_all add: ebind_eq_Inl)
  assume "preflight spec t p = Inl f" "f = EffectUncertain"
  then show False using all by (simp add: preflight_def split: if_splits)
qed

lemma execute_changesE:
  assumes "execute_changes inspect spec p adm w = (res, w')"
  obtains (refused) f where "res = Inl f" "w' = w" "f \<noteq> TextChangeError EffectUncertain"
  | (recovered) before plans ok applied w1 failure where "preflight spec (w_tree w) p = Inr plans"
      "apply_plans plans w = (ok, applied, w1)" "recover inspect before applied failure w1 = (res, w')"
  | (finished) before plans applied after where "binding_ok spec p adm" "inspect (w_tree w) = Inr before"
      "inspection_clean before" "wi_changed before = []" "preflight spec (w_tree w) p = Inr plans"
      "apply_plans plans w = (True, applied, w')" "inspect (w_tree w') = Inr after"
      "wi_head after = wi_head before" "wi_changed after = map (\<lambda>e. fc_path (pe_change e)) plans"
      "wi_uncommitted after = wi_changed after" "inspection_compliant after"
      "res = (case make_text_change_result (result_fields spec p plans after) of
         None \<Rightarrow> Inl (TextChangeError EffectEvidenceMismatch) | Some r \<Rightarrow> Inr r)"
proof (cases "binding_ok spec p adm")
  case False
  then show ?thesis using assms refused[of "TextChangeError InvalidAdmission"] by (simp add: execute_changes_def)
next
  case bound: True
  show ?thesis
  proof (cases "inspect (w_tree w)")
    case (Inl f)
    then show ?thesis using assms bound refused[of "WorktreeError f"] by (simp add: execute_changes_def)
  next
    case before: (Inr before)
    show ?thesis
    proof (cases "inspection_clean before \<and> wi_changed before = []")
      case False
      then show ?thesis using assms bound before refused[of "TextChangeError WorktreeNotFresh"] by (auto simp: execute_changes_def)
    next
      case fresh: True
      show ?thesis
      proof (cases "preflight spec (w_tree w) p")
        case (Inl f)
        then have "f \<noteq> EffectUncertain" by (rule preflight_certain)
        then show ?thesis using assms bound before fresh Inl refused[of "TextChangeError f"] by (simp add: execute_changes_def)
      next
        case plans: (Inr plans)
        obtain ok applied w1 where run: "apply_plans plans w = (ok, applied, w1)" by (metis prod_cases3)
        note sofar = bound before fresh plans run
        show ?thesis
        proof (cases ok)
          case False
          then have "recover inspect before applied EffectFailedRolledBack w1 = (res, w')"
            using assms sofar by (simp add: execute_changes_def)
          then show ?thesis using recovered plans run by blast
        next
          case ok: True
          show ?thesis
          proof (cases "inspect (w_tree w1)")
            case (Inl f)
            then have "recover inspect before applied EffectEvidenceMismatch w1 = (res, w')"
              using assms sofar ok by (simp add: execute_changes_def)
            then show ?thesis using recovered plans run by blast
          next
            case after: (Inr after)
            let ?paths = "map (\<lambda>e. fc_path (pe_change e)) plans"
            show ?thesis
            proof (cases "wi_head after = wi_head before \<and> wi_changed after = ?paths
                \<and> wi_uncommitted after = ?paths \<and> inspection_compliant after")
              case False
              then have "recover inspect before applied EffectEvidenceMismatch w1 = (res, w')"
                using assms sofar ok after by (auto simp: execute_changes_def Let_def)
              then show ?thesis using recovered plans run by blast
            next
              case True
              have "(case make_text_change_result (result_fields spec p plans after) of
                  None \<Rightarrow> (Inl (TextChangeError EffectEvidenceMismatch), w1) | Some r \<Rightarrow> (Inr r, w1)) = (res, w')"
                using assms sofar ok after True
                by (simp add: execute_changes_def Let_def result_fields_def)
              then have "w' = w1" "res = (case make_text_change_result (result_fields spec p plans after) of
                  None \<Rightarrow> Inl (TextChangeError EffectEvidenceMismatch) | Some r \<Rightarrow> Inr r)"
                by (auto split: option.splits)
              then show ?thesis using finished[of before plans applied after] sofar ok after True by simp
            qed
          qed
        qed
      qed
    qed
  qed
qed

section \<open>When the preflight passes\<close>

definition admissible :: "worktree_spec \<Rightarrow> tree \<Rightarrow> file_change \<Rightarrow> bool" where
  "admissible spec t c \<longleftrightarrow> path_is_allowed (fc_path c) (wt_allowed spec) \<and> change_target c \<noteq> []
     \<and> directories t [] (butlast (change_target c))
     \<and> (if fc_operation c = CreateText then t (change_target c) = None
        else (case t (change_target c) of
            Some (RegularFile data mode) \<Rightarrow> length data \<le> MAX_FILE_BYTES \<and> utf8_valid data
              \<and> CHR 0x00 \<notin> set data \<and> fc_expected c = Some (bytes_digest data)
          | _ \<Rightarrow> False))"

lemma plan_change_iff: "(\<exists>e. plan_change spec t c = Inr e) \<longleftrightarrow> admissible spec t c"
proof (cases "t (path_parts (fc_path c))")
  case None
  then show ?thesis
    by (auto simp: plan_change_def admissible_def change_target_def Let_def read_regular_text_def)
next
  case (Some x)
  then show ?thesis
    by (cases x) (auto simp: plan_change_def admissible_def change_target_def Let_def read_regular_text_def)
qed

lemma etraverse_Inr_ex: "(\<exists>ys. etraverse f xs = Inr ys) \<longleftrightarrow> (\<forall>x\<in>set xs. \<exists>y. f x = Inr y)"
  by (induction xs) (auto simp: ebind_eq_Inr)

lemma preflight_iff: "(\<exists>plans. preflight spec t p = Inr plans) \<longleftrightarrow>
    int (length (cg_operations p)) \<le> wt_max_changed spec \<and> (\<forall>c\<in>set (cg_operations p). admissible spec t c)"
  using etraverse_Inr_ex[of "plan_change spec t" "cg_operations p"]
  by (auto simp: preflight_def plan_change_iff)

end
