(* ===== verification/TextChangeProps.thy ===== *)
theory TextChangeProps
  imports TextChangeFacts WorktreeProps
begin

text \<open>Properties of the text change executor, for every inspector and every choice of faults.\<close>

section \<open>The evidence is always accepted\<close>

lemma result_made:
  assumes "preflight spec t p = Inr plans" "proposal_wf p" "worktree_inspection_ok after"
    "wi_changed after = map (\<lambda>e. fc_path (pe_change e)) plans"
  shows "make_text_change_result (result_fields spec p plans after) = Some ((result_fields spec p plans after)
    \<lparr>tx_digest := json_digest (JObj (text_change_result_payload (result_fields spec p plans after)))\<rparr>)"
proof -
  let ?r = "result_fields spec p plans after"
  note pre = preflight_plans[OF assms(1,2)] and ok = proposal_paths[OF assms(2)]
  have evidence: "re_digest (cg_evidence p)"
    using assms(2) make_change_proposal_Some(4) by (auto simp: proposal_wf_def)
  have head: "re_hex 40 (wi_head after)"
    using assms(3) by (simp add: worktree_inspection_ok_def commit_id_def)
  have paths: "wi_changed after = map fc_path (cg_operations p)"
    unfolding assms(4) pre(2)[symmetric] by (simp add: comp_def)
  have len: "length plans = length (cg_operations p)" using pre(2) by (metis length_map)
  have effects: "map te_path (tx_effects ?r) = tx_changed ?r"
    by (simp add: result_fields_def assms(4) effect_evidence_def comp_def)
  have "plans \<noteq> []" using len ok(1) by auto
  have "length (json_bytes (JObj (text_change_result_payload ?r))) \<le> MAX_TEXT_CHANGE_RESULT_BYTES"
  proof (rule size_result)
    show "length (tx_head ?r) = 40" using head by (simp add: result_fields_def re_hex_def)
    show "list_all (\<lambda>d. length d = 71)
        [tx_spec_digest ?r, tx_lease_digest ?r, tx_evidence_digest ?r, tx_proposal_digest ?r]"
      using evidence by (simp add: result_fields_def re_digest_length worktree_digest_def
          worktree_lease_digest_def change_proposal_digest_def)
    show "length (tx_effects ?r) \<le> 256" using len ok(2) by (simp add: result_fields_def)
    show "map te_path (tx_effects ?r) = tx_changed ?r" by (rule effects)
    have "length (fc_path (pe_change e)) \<le> 4096" if "e \<in> set plans" for e
    proof -
      have "pe_change e \<in> set (map pe_change plans)" using that by simp
      then show ?thesis using ok(6)[of "pe_change e"] unfolding pre(2) normal_path_def by blast
    qed
    then show "\<forall>e\<in>set (tx_effects ?r). length (te_path e) \<le> 4096
       \<and> (case te_before e of None \<Rightarrow> True | Some s \<Rightarrow> length s = 71)
       \<and> (case te_after e of None \<Rightarrow> True | Some s \<Rightarrow> length s = 71)"
      by (auto simp: result_fields_def effect_evidence_def re_digest_length split: option.split)
  qed (simp_all add: result_fields_def)
  moreover have "tx_changed ?r = sorted_set (tx_changed ?r)"
    using ok(3,4) by (simp add: result_fields_def paths)
  moreover have "list_all is_digest
      [tx_spec_digest ?r, tx_lease_digest ?r, tx_evidence_digest ?r, tx_proposal_digest ?r]"
    using evidence by (simp add: result_fields_def is_digest_re_digest worktree_digest_def
        worktree_lease_digest_def change_proposal_digest_def)
  moreover have "tx_schema ?r = TEXT_CHANGE_RESULT_SCHEMA" "tx_status ?r = ''applied''"
    "re_hex 40 (tx_head ?r)" "tx_effects ?r \<noteq> []"
    using head \<open>plans \<noteq> []\<close> by (simp_all add: result_fields_def)
  ultimately show ?thesis using effects
    by (simp add: make_text_change_result_def Let_def json_digest_def)
qed

section \<open>A concrete execution\<close>

definition sample_create :: file_change where
  "sample_create = \<lparr>fc_operation = CreateText, fc_path = ''src/a.py'', fc_expected = None, fc_content = Some ''new''\<rparr>"

definition sample_delete :: file_change where
  "sample_delete = \<lparr>fc_operation = DeleteText, fc_path = ''src/b.py'',
     fc_expected = Some (bytes_digest ''old''), fc_content = None\<rparr>"

definition sample_proposal :: change_proposal where
  "sample_proposal = \<lparr>cg_id = ''p1'', cg_evidence = bytes_digest ''evidence'',
     cg_operations = [sample_create, sample_delete], cg_summary = ''s'', cg_schema = CHANGE_PROPOSAL_SCHEMA\<rparr>"

definition sample_admission :: text_change_admission where
  "sample_admission = \<lparr>ta_spec_digest = worktree_digest sample_worktree,
     ta_lease_digest = worktree_lease_digest (wt_lease sample_worktree),
     ta_evidence_digest = bytes_digest ''evidence'',
     ta_proposal_digest = change_proposal_digest sample_proposal,
     ta_schema = ''execution-text-change-admission/v1''\<rparr>"

definition sample_tree :: tree where
  "sample_tree = [[''src''] \<mapsto> Directory, [''src'', ''b.py''] \<mapsto> RegularFile ''old'' 420]"

definition sample_world :: "fault list \<Rightarrow> world" where
  "sample_world faults = \<lparr>w_tree = sample_tree, w_faults = faults\<rparr>"

text \<open>An inspector that reports the two paths whose entries differ from the first tree.\<close>

definition sample_paths :: "tree \<Rightarrow> string list" where
  "sample_paths t = map fst (filter (\<lambda>(path, target). t target \<noteq> sample_tree target)
     [(''src/a.py'', [''src'', ''a.py'']), (''src/b.py'', [''src'', ''b.py''])])"

definition sample_inspector :: inspector where
  "sample_inspector t = Inr (observe sample_worktree (replicate 40 (CHR ''a'')) (sample_paths t) (sample_paths t) [])"

lemma sample_targets [simp]:
  "path_parts ''src/a.py'' = [''src'', ''a.py'']" "path_parts ''src/b.py'' = [''src'', ''b.py'']"
  by (simp_all add: path_parts_def)

lemma sample_normal: "normal_path ''src/a.py''" "normal_path ''src/b.py''"
  by (simp_all add: normal_path_iff)

lemma sample_changes_ok: "list_all file_change_ok (cg_operations sample_proposal)"
  using sample_normal by (simp add: sample_proposal_def file_change_ok_def sample_create_def sample_delete_def
      optional_digest_ok_def bounded_utf8_def MAX_OPERATION_CONTENT_BYTES_def utf8_length_def code_def)

lemma sample_proposal_made: "make_change_proposal sample_proposal = Some sample_proposal"
proof -
  have digest: "length (bytes_digest b) = 71" for b by (simp add: re_digest_length)
  have "json_size (JStr (bytes_digest b)) \<le> 428" for b using size_text[of "bytes_digest b" 71] digest by simp
  note d = this[of "''evidence''"] this[of "''old''"]
  have "json_size (file_change_payload sample_create) \<le> 1000"
    using json_size_obj[of "[(''operation'', JStr ''create''), (''path'', JStr ''src/a.py''),
       (''expected_digest'', JNull), (''content'', JStr ''new'')]"] size_text[of "''create''" 9]
       size_text[of "''src/a.py''" 9] size_text[of "''new''" 9] json_size_atoms(1)
    by (simp add: file_change_payload_def sample_create_def opt_str_def)
  moreover have "json_size (file_change_payload sample_delete) \<le> 1000"
    using json_size_obj[of "[(''operation'', JStr ''delete''), (''path'', JStr ''src/b.py''),
       (''expected_digest'', JStr (bytes_digest ''old'')), (''content'', JNull)]"] size_text[of "''delete''" 9]
       size_text[of "''src/b.py''" 9] d json_size_atoms(1)
    by (simp add: file_change_payload_def sample_delete_def opt_str_def)
  ultimately have "json_size (JArr (map file_change_payload [sample_create, sample_delete])) \<le> 2004"
    using json_size_arr[of "map file_change_payload [sample_create, sample_delete]"] by simp
  then have "json_size (JObj (change_proposal_payload sample_proposal)) \<le> 32 * 1024 * 1024"
    using json_size_obj[of "change_proposal_payload sample_proposal"] d
      size_text[of "CHANGE_PROPOSAL_SCHEMA" 40] size_text[of "''p1''" 9] size_text[of "''s''" 9]
    by (simp add: change_proposal_payload_def sample_proposal_def CHANGE_PROPOSAL_SCHEMA_def)
  moreover have "sample_proposal\<lparr>cg_operations := [sample_create, sample_delete]\<rparr> = sample_proposal"
    by (simp add: sample_proposal_def)
  moreover have "sort_key fc_path [sample_create, sample_delete] = [sample_create, sample_delete]"
    by (simp add: sample_create_def sample_delete_def)
  moreover have "plan_identifier ''p1''" "bounded_utf8 4096 False ''s''" by code_simp+
  moreover have "distinct (map fc_path [sample_create, sample_delete])"
    by (simp add: sample_create_def sample_delete_def)
  moreover have "sum_list (map content_size [sample_create, sample_delete]) \<le> MAX_PROPOSAL_CONTENT_BYTES"
    by (simp add: content_size_def sample_create_def sample_delete_def utf8_length_def
        MAX_PROPOSAL_CONTENT_BYTES_def code_def)
  ultimately show ?thesis
    by (simp add: make_change_proposal_def Let_def json_size_def MAX_CHANGE_PROPOSAL_BYTES_def)
      (simp add: sample_proposal_def)
qed

lemma sample_proposal_wf: "proposal_wf sample_proposal"
  using sample_proposal_made sample_changes_ok by (auto simp: proposal_wf_def)

lemma sample_admissible: "\<forall>c\<in>set (cg_operations sample_proposal). admissible sample_worktree sample_tree c"
proof -
  have "utf8_valid ''old''" by code_simp
  then have "admissible sample_worktree sample_tree sample_delete"
    by (simp add: sample_delete_def admissible_def change_target_def
        sample_tree_def sample_worktree_def path_is_allowed_def startswith_def MAX_FILE_BYTES_def)
  moreover have "admissible sample_worktree sample_tree sample_create"
    by (simp add: sample_create_def admissible_def change_target_def
        sample_tree_def sample_worktree_def path_is_allowed_def startswith_def)
  ultimately show ?thesis by (simp add: sample_proposal_def)
qed

lemma sample_inspections:
  "sample_inspector t = Inr (observe sample_worktree (replicate 40 (CHR ''a'')) (sample_paths t) (sample_paths t) [])"
  "worktree_inspection_ok (observe sample_worktree (replicate 40 (CHR ''a'')) (sample_paths t) (sample_paths t) [])"
proof -
  show "sample_inspector t = Inr (observe sample_worktree (replicate 40 (CHR ''a'')) (sample_paths t) (sample_paths t) [])"
    by (rule sample_inspector_def)
  have "commit_id (replicate 40 (CHR ''a''))" by code_simp
  moreover have "\<forall>p\<in>set (sample_paths t). normal_path p" using sample_normal by (auto simp: sample_paths_def)
  ultimately show "worktree_inspection_ok
      (observe sample_worktree (replicate 40 (CHR ''a'')) (sample_paths t) (sample_paths t) [])"
    using observed_ok[OF sample_worktree_made] by simp
qed

lemma sample_result_tree:
  "sample_paths (fold apply_change (cg_operations sample_proposal) sample_tree) = [''src/a.py'', ''src/b.py'']"
  by (simp add: sample_paths_def sample_proposal_def apply_change_def change_target_def sample_create_def
      sample_delete_def sample_tree_def)

section \<open>Properties\<close>

lemma execute_completes:
  assumes "proposal_wf p" "binding_ok spec p adm" "w_faults w = []"
    "inspect (w_tree w) = Inr before" "inspection_clean before" "wi_changed before = []"
    "int (length (cg_operations p)) \<le> wt_max_changed spec"
    "\<forall>c\<in>set (cg_operations p). admissible spec (w_tree w) c"
    "inspect (fold apply_change (cg_operations p) (w_tree w)) = Inr after" "worktree_inspection_ok after"
    "wi_head after = wi_head before" "wi_changed after = map fc_path (cg_operations p)"
    "wi_uncommitted after = wi_changed after" "inspection_compliant after"
  shows "\<exists>r w'. execute_changes inspect spec p adm w = (Inr r, w')
    \<and> w_tree w' = fold apply_change (cg_operations p) (w_tree w)"
proof -
  obtain plans where plans: "preflight spec (w_tree w) p = Inr plans"
    using preflight_iff assms(7,8) by blast
  note pre = preflight_plans[OF plans assms(1)]
  obtain w' where run: "apply_plans plans w = (True, plans, w')"
    using apply_plans_run[of plans w] pre(4,8) assms(3) by blast
  have tree: "w_tree w' = fold apply_change (cg_operations p) (w_tree w)"
    by (rule applied_tree[OF plans assms(1) run])
  have paths: "map fc_path (cg_operations p) = map (\<lambda>e. fc_path (pe_change e)) plans"
    unfolding pre(2)[symmetric] by (simp add: comp_def)
  note made = result_made[OF plans assms(1,10) assms(12)[unfolded paths]]
  show ?thesis
    using made assms(2,4-6,9,11-14) plans run tree paths
    by (simp add: execute_changes_def Let_def result_fields_def)
qed

text \<open>
  C7: Executing a proposal is atomic. Whatever effects fail, and whatever the inspection reports, a
  returned result means that the tree is exactly the tree of the specification, each change
  replacing the entry at its own path; an error other than the uncertain one means that the tree
  is the one execution started from. In particular the size check of the evidence, which comes
  after the last chance to roll back, never fails.
\<close>
theorem text_change_atomic:
  assumes "proposal_wf p" "\<forall>t i. inspect t = Inr i \<longrightarrow> worktree_inspection_ok i"
    and "execute_changes inspect spec p adm w = (res, w')"
  shows "case res of
      Inr r \<Rightarrow> w_tree w' = fold apply_change (cg_operations p) (w_tree w)
    | Inl f \<Rightarrow> f = TextChangeError EffectUncertain \<or> w_tree w' = w_tree w"
  using assms(3)
proof (cases rule: execute_changesE)
  case (recovered before plans ok applied w1 failure)
  then show ?thesis using recover_tree[OF recovered(1) assms(1) recovered(2,3)] by auto
next
  case (finished before plans applied after)
  have "worktree_inspection_ok after" using assms(2) finished(7) by blast
  from result_made[OF finished(5) assms(1) this finished(9)] show ?thesis
    using applied_tree[OF finished(5) assms(1) finished(6)] finished(12) by simp
qed simp

lemma sample_fresh:
  "sample_inspector sample_tree = Inr (observe sample_worktree (replicate 40 (CHR ''a'')) [] [] [])"
  "inspection_clean (observe sample_worktree (replicate 40 (CHR ''a'')) [] [] [])"
  "wi_changed (observe sample_worktree (replicate 40 (CHR ''a'')) [] [] []) = []"
  by (simp_all add: sample_inspector_def sample_paths_def observe_def Let_def inspection_clean_def sorted_set_def)

lemma sample_binding: "binding_ok sample_worktree sample_proposal sample_admission"
  by (simp add: binding_ok_def sample_admission_def) (simp add: sample_proposal_def)

definition sample_plans :: "planned_effect list" where
  "sample_plans =
     [\<lparr>pe_change = sample_create, pe_target = [''src'', ''a.py''], pe_before = None, pe_mode = None,
        pe_after = Some ''new''\<rparr>,
      \<lparr>pe_change = sample_delete, pe_target = [''src'', ''b.py''], pe_before = Some ''old'', pe_mode = Some 420,
        pe_after = None\<rparr>]"

lemma sample_preflight: "preflight sample_worktree sample_tree sample_proposal = Inr sample_plans"
proof -
  have "utf8_valid ''old''" "utf8_encode ''new'' = ''new''" by code_simp+
  then show ?thesis
    by (simp add: preflight_def sample_proposal_def sample_plans_def sample_worktree_def plan_change_def
        sample_create_def sample_delete_def sample_tree_def path_is_allowed_def startswith_def
        read_regular_text_def MAX_FILE_BYTES_def)
qed

text \<open>The deletion happens but its directory cannot be synchronised: both effects are undone.\<close>

theorem text_change_atomic_witness:
  "\<exists>w'. execute_changes sample_inspector sample_worktree sample_proposal sample_admission
      (sample_world [NoFault, FaultAfter]) = (Inl (TextChangeError EffectFailedRolledBack), w')
    \<and> w_tree w' = sample_tree"
proof -
  have tree: "w_tree (sample_world [NoFault, FaultAfter]) = sample_tree" by (simp add: sample_world_def)
  obtain w1 where run: "apply_plans sample_plans (sample_world [NoFault, FaultAfter]) = (False, sample_plans, w1)"
    and w1: "w1 = \<lparr>w_tree = sample_tree([''src'', ''a.py''] \<mapsto> RegularFile ''new'' 420, [''src'', ''b.py''] := None),
      w_faults = []\<rparr>"
    by (simp add: sample_plans_def sample_create_def sample_delete_def apply_plan_def file_effect_defs
        effect_def sample_world_def parent_exists_def sample_tree_def)
  have undone: "undo_all (rev sample_plans) w1 = (True, \<lparr>w_tree = sample_tree, w_faults = []\<rparr>)"
    unfolding w1
    by (simp add: sample_plans_def sample_create_def sample_delete_def undo_def file_effect_defs
        effect_def parent_exists_def sample_tree_def is_plain_file_def fun_eq_iff)
  have "execute_changes sample_inspector sample_worktree sample_proposal sample_admission
      (sample_world [NoFault, FaultAfter])
      = (Inl (TextChangeError EffectFailedRolledBack), \<lparr>w_tree = sample_tree, w_faults = []\<rparr>)"
    by (simp add: execute_changes_def tree sample_binding sample_fresh sample_preflight run recover_def
        rollback_def undone)
  with text_change_atomic[OF sample_proposal_wf _ this] sample_inspections show ?thesis by simp
qed

text \<open>
  C17: Nothing is changed outside the grant and no update is lost. A result is returned only for an
  admission that binds this worktree, lease and proposal, a number of changes within the limit
  and, for every change, an allowed path below real directories whose entry was absent for a
  creation and otherwise was a regular text with the digest the proposal expects. The returned
  evidence names exactly the changes with their digests before and after, and its own digest.
\<close>
theorem text_change_guarded:
  assumes "proposal_wf p" "execute_changes inspect spec p adm w = (Inr r, w')"
  shows "binding_ok spec p adm \<and> int (length (cg_operations p)) \<le> wt_max_changed spec
    \<and> (\<forall>c\<in>set (cg_operations p). admissible spec (w_tree w) c)
    \<and> tx_spec_digest r = worktree_digest spec \<and> tx_proposal_digest r = change_proposal_digest p
    \<and> tx_effects r = map (\<lambda>c. \<lparr>te_operation = fc_operation c, te_path = fc_path c,
        te_before = fc_expected c, te_after = file_change_digest c\<rparr>) (cg_operations p)
    \<and> tx_digest r = json_digest (JObj (text_change_result_payload r))"
  using assms(2)
proof (cases rule: execute_changesE)
  case (recovered before plans ok applied w1 failure)
  then show ?thesis using recover_tree[OF recovered(1) assms(1) recovered(2,3)] by auto
next
  case (finished before plans applied after)
  note pre = preflight_plans[OF finished(5) assms(1)] and ok = proposal_paths[OF assms(1)]
  have r: "make_text_change_result (result_fields spec p plans after) = Some r"
    using finished(12) by (auto split: option.splits)
  then have r': "r = (result_fields spec p plans after)
      \<lparr>tx_digest := json_digest (JObj (text_change_result_payload r))\<rparr>"
    by (auto simp: make_text_change_result_def Let_def json_digest_def text_change_result_payload_def
        split: if_splits)
  have "effect_evidence e = \<lparr>te_operation = fc_operation (pe_change e), te_path = fc_path (pe_change e),
      te_before = fc_expected (pe_change e), te_after = file_change_digest (pe_change e)\<rparr>" if "e \<in> set plans" for e
  proof -
    have "file_change_ok (pe_change e)" using ok(5) pre(2) that by (metis image_eqI list.set_map)
    from plan_change_Inr(7,8)[OF pre(6)[OF that] this] show ?thesis
      by (simp add: effect_evidence_def file_change_digest_def option.map_comp comp_def)
  qed
  then have "map effect_evidence plans = map (\<lambda>c. \<lparr>te_operation = fc_operation c, te_path = fc_path c,
      te_before = fc_expected c, te_after = file_change_digest c\<rparr>) (map pe_change plans)" by simp
  then have effects: "tx_effects r = map (\<lambda>c. \<lparr>te_operation = fc_operation c, te_path = fc_path c,
      te_before = fc_expected c, te_after = file_change_digest c\<rparr>) (cg_operations p)"
    by (subst r') (simp add: result_fields_def pre(2))
  have "tx_spec_digest r = worktree_digest spec" "tx_proposal_digest r = change_proposal_digest p"
    "tx_digest r = json_digest (JObj (text_change_result_payload r))"
    by (subst r'; simp add: result_fields_def)+
  moreover have "\<forall>c\<in>set (cg_operations p). admissible spec (w_tree w) c"
    using preflight_iff finished(5) by blast
  ultimately show ?thesis using effects finished(1) pre(1) by blast
qed simp

definition sample_after :: worktree_inspection where
  "sample_after =
     observe sample_worktree (replicate 40 (CHR ''a'')) [''src/a.py'', ''src/b.py''] [''src/a.py'', ''src/b.py''] []"

lemma sample_after:
  "sample_inspector (fold apply_change (cg_operations sample_proposal) sample_tree) = Inr sample_after"
  "worktree_inspection_ok sample_after"
  "wi_head sample_after = wi_head (observe sample_worktree (replicate 40 (CHR ''a'')) [] [] [])"
  "wi_changed sample_after = map fc_path (cg_operations sample_proposal)"
  "wi_uncommitted sample_after = wi_changed sample_after" "inspection_compliant sample_after"
proof -
  show "sample_inspector (fold apply_change (cg_operations sample_proposal) sample_tree) = Inr sample_after"
    "worktree_inspection_ok sample_after"
    using sample_inspections[of "fold apply_change (cg_operations sample_proposal) sample_tree"]
    unfolding sample_result_tree sample_after_def by blast+
  show "wi_head sample_after = wi_head (observe sample_worktree (replicate 40 (CHR ''a'')) [] [] [])"
    "wi_changed sample_after = map fc_path (cg_operations sample_proposal)"
    "wi_uncommitted sample_after = wi_changed sample_after" "inspection_compliant sample_after"
    by (simp_all add: sample_after_def observe_def Let_def sorted_set_def sample_proposal_def sample_create_def
        sample_delete_def inspection_compliant_def sample_worktree_def path_is_allowed_def startswith_def)
qed

lemma sample_world_simps [simp]: "w_tree (sample_world fs) = sample_tree" "w_faults (sample_world fs) = fs"
  by (simp_all add: sample_world_def)

lemma sample_limit: "int (length (cg_operations sample_proposal)) \<le> wt_max_changed sample_worktree"
  by (simp add: sample_proposal_def sample_worktree_def)

lemma sample_completed:
  "\<exists>r w'. execute_changes sample_inspector sample_worktree sample_proposal sample_admission (sample_world [])
     = (Inr r, w')"
  using execute_completes[OF sample_proposal_wf sample_binding, of "sample_world []" sample_inspector,
      unfolded sample_world_simps, OF _ sample_fresh sample_limit sample_admissible sample_after] by blast

theorem text_change_guarded_witness:
  "\<exists>r w'. execute_changes sample_inspector sample_worktree sample_proposal sample_admission (sample_world [])
     = (Inr r, w') \<and> admissible sample_worktree sample_tree sample_delete
     \<and> map te_before (tx_effects r) = [None, Some (bytes_digest ''old'')]"
proof -
  obtain r w' where run: "execute_changes sample_inspector sample_worktree sample_proposal sample_admission
      (sample_world []) = (Inr r, w')" using sample_completed by blast
  from text_change_guarded[OF sample_proposal_wf run] run show ?thesis
    by (simp add: sample_proposal_def sample_world_def) (simp add: sample_create_def sample_delete_def)
qed

text \<open>
  C40: Without faults an admitted proposal goes through. If the inspection before is clean, every
  change is admissible in the tree (the guards of the code, no others) and the inspection of
  the resulting tree reports exactly the changed paths within the policy, execution returns a
  result and leaves the specified tree.
\<close>
theorem text_change_completes:
  assumes "proposal_wf p" "binding_ok spec p adm" "w_faults w = []"
    "inspect (w_tree w) = Inr before" "inspection_clean before" "wi_changed before = []"
    "int (length (cg_operations p)) \<le> wt_max_changed spec"
    "\<forall>c\<in>set (cg_operations p). admissible spec (w_tree w) c"
    "inspect (fold apply_change (cg_operations p) (w_tree w)) = Inr after" "worktree_inspection_ok after"
    "wi_head after = wi_head before" "wi_changed after = map fc_path (cg_operations p)"
    "wi_uncommitted after = wi_changed after" "inspection_compliant after"
  shows "\<exists>r w'. execute_changes inspect spec p adm w = (Inr r, w')
    \<and> w_tree w' = fold apply_change (cg_operations p) (w_tree w)"
  by (rule execute_completes[OF assms])

theorem text_change_completes_witness:
  "\<exists>r w'. execute_changes sample_inspector sample_worktree sample_proposal sample_admission (sample_world [])
     = (Inr r, w') \<and> w_tree w' [''src'', ''a.py''] = Some (RegularFile ''new'' 420) \<and> w_tree w' [''src'', ''b.py''] = None"
proof -
  have "utf8_encode ''new'' = ''new''" by code_simp
  then have "fold apply_change (cg_operations sample_proposal) sample_tree [''src'', ''a.py''] = Some (RegularFile ''new'' 420)"
    "fold apply_change (cg_operations sample_proposal) sample_tree [''src'', ''b.py''] = None"
    by (simp_all add: sample_proposal_def apply_change_def change_target_def sample_create_def
        sample_delete_def sample_tree_def)
  then show ?thesis
    using text_change_completes[OF sample_proposal_wf sample_binding, of "sample_world []" sample_inspector,
        unfolded sample_world_simps, OF _ sample_fresh sample_limit sample_admissible sample_after] by auto
qed

end
