(* ===== verification/ChangeProps.thy ===== *)
theory ChangeProps
  imports TextChangeProps
begin

text \<open>Properties of the change proposals: their durable payload, and what their digest binds.\<close>

section \<open>Reading back\<close>

lemma file_change_readback:
  assumes "file_change_ok c"
  shows "file_change_from_mapping (file_change_payload c) = Some c"
proof -
  have eta: "\<lparr>fc_operation = fc_operation c, fc_path = fc_path c, fc_expected = fc_expected c,
      fc_content = fc_content c\<rparr> = c" by simp
  show ?thesis
    using assms by (simp add: file_change_from_mapping_def file_change_payload_def Let_def keys_are_def
        insert_commute jget_def[of "(_, _) # _"] eta)
qed

lemma file_changes_readback:
  "list_all file_change_ok cs \<Longrightarrow> traverse file_change_from_mapping (map file_change_payload cs) = Some cs"
  by (rule traverse_map) (auto simp: list_all_iff intro: file_change_readback)

text \<open>The constructor sorts, so it does not depend on the order of the operations.\<close>

lemma make_change_proposal_perm:
  assumes "make_change_proposal p = Some q" "mset ops = mset (cg_operations p)"
  shows "make_change_proposal (p\<lparr>cg_operations := ops\<rparr>) = Some q"
proof -
  note q = make_change_proposal_Some[OF assms(1)]
  have ops: "cg_operations q = sort_key fc_path (cg_operations p)"
    using arg_cong[OF q(1), of cg_operations] by simp
  have set: "set ops = set (cg_operations p)" by (rule mset_eq_setD[OF assms(2)])
  have "mset (map fc_path (sort_key fc_path ops)) = mset (map fc_path (cg_operations q))"
    by (simp only: mset_map mset_sort assms(2) ops)
  then have distinct: "distinct (map fc_path (sort_key fc_path ops))"
    using q(8) mset_eq_imp_distinct_iff by blast
  have "inj_on fc_path (set (sort_key fc_path ops) \<union> set (cg_operations q))"
    using q(8) set unfolding ops by (simp add: distinct_map)
  then have "sort_key fc_path ops = cg_operations q"
    using map_sorted_distinct_set_unique[of fc_path "sort_key fc_path ops" "cg_operations q"]
      q(7,8) distinct set by (simp add: ops)
  then have sorted: "sort_key fc_path ops = sort_key fc_path (cg_operations p)" using ops by simp
  have len: "length ops = length (cg_operations p)" by (rule mset_eq_length[OF assms(2)])
  show ?thesis using assms(1) by (simp add: make_change_proposal_def sorted len Let_def)
qed

text \<open>
  A proposal survives its durable payload, and the order of its operations does not matter: the
  payload of an accepted proposal, with its operations in any order, reads back as that proposal.
\<close>
theorem change_proposal_roundtrip:
  assumes "make_change_proposal p = Some q" "list_all file_change_ok (cg_operations p)"
    and "mset ops = mset (cg_operations p)"
  shows "change_proposal_from_mapping (change_proposal_payload (q\<lparr>cg_operations := ops\<rparr>)) = Some q"
proof -
  note q = make_change_proposal_Some[OF assms(1)]
  have set: "set ops = set (cg_operations p)" by (rule mset_eq_setD[OF assms(3)])
  have fields: "cg_id q = cg_id p" "cg_evidence q = cg_evidence p" "cg_summary q = cg_summary p"
    "cg_schema q = cg_schema p" by (subst q(1); simp)+
  have eta: "\<lparr>cg_id = cg_id p, cg_evidence = cg_evidence p, cg_operations = ops,
      cg_summary = cg_summary p, cg_schema = cg_schema p\<rparr> = p\<lparr>cg_operations := ops\<rparr>"
    by (cases p) simp
  have len: "1 \<le> length ops" "length ops \<le> 256"
  proof -
    have "length ops = length (cg_operations q)"
      using mset_eq_length[OF assms(3)] arg_cong[OF q(1), of "\<lambda>x. length (cg_operations x)"] by simp
    then show "1 \<le> length ops" "length ops \<le> 256" using q(5,6) by (cases "cg_operations q"; simp)+
  qed
  have "list_all file_change_ok ops" using assms(2) set by (simp add: list_all_iff)
  then show ?thesis
    using len by (simp add: change_proposal_from_mapping_def change_proposal_payload_def keys_are_def
        insert_commute jget_def[of "(_, _) # _"] file_changes_readback fields eta
        make_change_proposal_perm[OF assms(1,3)])
qed

theorem change_proposal_roundtrip_witness:
  "change_proposal_from_mapping (change_proposal_payload
     (sample_proposal\<lparr>cg_operations := [sample_delete, sample_create]\<rparr>)) = Some sample_proposal"
proof -
  have "mset [sample_delete, sample_create] = mset (cg_operations sample_proposal)"
    by (simp add: sample_proposal_def)
  from change_proposal_roundtrip[OF sample_proposal_made sample_changes_ok this] show ?thesis .
qed

section \<open>What the digest binds\<close>

lemma file_change_binds:
  assumes "norm_json (file_change_payload c) = norm_json (file_change_payload d)"
  shows "c = d"
proof -
  let ?xs = "\<lambda>c. [(''operation'', JStr (text_operation_value (fc_operation c))), (''path'', JStr (fc_path c)),
     (''expected_digest'', opt_str (fc_expected c)), (''content'', opt_str (fc_content c))]"
  have "map (norm_json \<circ> snd) (?xs c) = map (norm_json \<circ> snd) (?xs d)"
    using assms unfolding file_change_payload_def by (rule norm_json_fields) simp_all
  moreover have "norm_json (opt_str x) = opt_str x" for x by (simp add: opt_str_def split: option.split)
  moreover have "opt_str x = opt_str y \<Longrightarrow> x = y" for x y
    by (simp add: opt_str_def split: option.splits)
  moreover have "text_operation_value x = text_operation_value y \<Longrightarrow> x = y" for x y
    by (cases x; cases y) simp_all
  ultimately show ?thesis by (cases c; cases d) simp
qed

lemma change_proposal_binds:
  assumes "change_proposal_digest p = change_proposal_digest q"
  shows "p = q \<or> sha_collision (json_bytes (JObj (change_proposal_payload p)))
    (json_bytes (JObj (change_proposal_payload q)))"
proof -
  have "float_free (JObj (change_proposal_payload p))" for p
    by (auto simp: change_proposal_payload_def file_change_payload_def list_all_iff opt_str_def
        split: option.split)
  then consider "norm_json (JObj (change_proposal_payload p)) = norm_json (JObj (change_proposal_payload q))"
    | "sha_collision (json_bytes (JObj (change_proposal_payload p))) (json_bytes (JObj (change_proposal_payload q)))"
    using json_digest_binds assms unfolding change_proposal_digest_def by blast
  then show ?thesis
  proof cases
    case 1
    then have "map (norm_json \<circ> snd) (change_proposal_payload p) = map (norm_json \<circ> snd) (change_proposal_payload q)"
      by (rule norm_json_fields) (simp_all add: change_proposal_payload_def)
    then have "cg_schema p = cg_schema q" "cg_id p = cg_id q" "cg_evidence p = cg_evidence q"
      "cg_summary p = cg_summary q"
      and ops: "map (norm_json \<circ> file_change_payload) (cg_operations p)
        = map (norm_json \<circ> file_change_payload) (cg_operations q)"
      by (simp_all add: change_proposal_payload_def comp_def)
    moreover have "cg_operations p = cg_operations q"
      by (rule map_injective[OF ops]) (auto intro!: injI file_change_binds simp: comp_def)
    ultimately show ?thesis by simp
  qed simp
qed

end
