(* ===== verification/Review.thy ===== *)
theory Review
  imports Changes
begin

text \<open>
  \<open>orchestration/review.py\<close>: what a reviewer is shown (acceptance, evidence, context), what it may
  propose (findings and epistemic assessments with citations) and what of it is admitted. A
  constructor raises one content-free error, so it is an option or a boolean; records that a
  constructor normalises have a \<open>make_\<close> function.
\<close>

section \<open>Vocabularies\<close>

datatype finding_category = Correctness | WeakenedTest | AlteredExpectedOutput | HiddenShortcut
  | SuppressedFailure | ScopeDrift

datatype severity = Blocker | High | Medium | Low

datatype evidence_kind = SourceBefore | SourceAfter | EffectEvidence | CheckCommand | CheckResult
  | CheckStdout | CheckStderr | OutcomeEvidence

datatype epistemic_dimension = EvidenceGrounding | Counterevidence | AcceptanceCoverage
  | CausalOverreach | ScopeChallenge | Uncertainty | ProvenanceFreshness
  | IndependentCorroboration | OrderSensitivity

datatype disposition = Supported | Concern | Unknown | NotApplicable

fun finding_category_value :: "finding_category \<Rightarrow> string" where
  "finding_category_value Correctness = ''correctness''"
| "finding_category_value WeakenedTest = ''weakened-test''"
| "finding_category_value AlteredExpectedOutput = ''altered-expected-output''"
| "finding_category_value HiddenShortcut = ''hidden-shortcut''"
| "finding_category_value SuppressedFailure = ''suppressed-failure''"
| "finding_category_value ScopeDrift = ''scope-drift''"

fun severity_value :: "severity \<Rightarrow> string" where
  "severity_value Blocker = ''blocker''"
| "severity_value High = ''high''"
| "severity_value Medium = ''medium''"
| "severity_value Low = ''low''"

fun evidence_kind_value :: "evidence_kind \<Rightarrow> string" where
  "evidence_kind_value SourceBefore = ''source-before''"
| "evidence_kind_value SourceAfter = ''source-after''"
| "evidence_kind_value EffectEvidence = ''effect''"
| "evidence_kind_value CheckCommand = ''check-command''"
| "evidence_kind_value CheckResult = ''check-result''"
| "evidence_kind_value CheckStdout = ''check-stdout''"
| "evidence_kind_value CheckStderr = ''check-stderr''"
| "evidence_kind_value OutcomeEvidence = ''outcome''"

fun dimension_value :: "epistemic_dimension \<Rightarrow> string" where
  "dimension_value EvidenceGrounding = ''evidence-grounding''"
| "dimension_value Counterevidence = ''counterevidence''"
| "dimension_value AcceptanceCoverage = ''acceptance-coverage''"
| "dimension_value CausalOverreach = ''causal-overreach''"
| "dimension_value ScopeChallenge = ''scope-challenge''"
| "dimension_value Uncertainty = ''uncertainty''"
| "dimension_value ProvenanceFreshness = ''provenance-freshness''"
| "dimension_value IndependentCorroboration = ''independent-corroboration''"
| "dimension_value OrderSensitivity = ''order-sensitivity''"

fun disposition_value :: "disposition \<Rightarrow> string" where
  "disposition_value Supported = ''supported''"
| "disposition_value Concern = ''concern''"
| "disposition_value Unknown = ''unknown''"
| "disposition_value NotApplicable = ''not-applicable''"

definition FINDING_CATEGORIES :: "finding_category list" where
  "FINDING_CATEGORIES =
     [Correctness, WeakenedTest, AlteredExpectedOutput, HiddenShortcut, SuppressedFailure, ScopeDrift]"

definition SEVERITIES :: "severity list" where
  "SEVERITIES = [Blocker, High, Medium, Low]"

definition PRIOR_EPISTEMIC_DIMENSIONS :: "epistemic_dimension list" where
  "PRIOR_EPISTEMIC_DIMENSIONS = [EvidenceGrounding, Counterevidence, AcceptanceCoverage,
     CausalOverreach, ScopeChallenge, Uncertainty]"

definition EPISTEMIC_DIMENSIONS :: "epistemic_dimension list" where
  "EPISTEMIC_DIMENSIONS = PRIOR_EPISTEMIC_DIMENSIONS
     @ [ProvenanceFreshness, IndependentCorroboration, OrderSensitivity]"

definition DISPOSITIONS :: "disposition list" where
  "DISPOSITIONS = [Supported, Concern, Unknown, NotApplicable]"

text \<open>\<open>StrEnum(text)\<close>: the member with that value.\<close>

definition member_of :: "'a list \<Rightarrow> ('a \<Rightarrow> string) \<Rightarrow> string \<Rightarrow> 'a option" where
  "member_of members val s = List.find (\<lambda>x. val x = s) members"

section \<open>Checks of texts\<close>

definition bounded_text :: "nat \<Rightarrow> string \<Rightarrow> bool" where
  "bounded_text maximum s \<longleftrightarrow> py_strip s \<noteq> [] \<and> CHR 0x00 \<notin> set s \<and> utf8_length s \<le> maximum"

definition unique_identifiers :: "nat \<Rightarrow> string list \<Rightarrow> bool" where
  "unique_identifiers maximum xs \<longleftrightarrow>
     length xs \<le> maximum \<and> distinct xs \<and> list_all stage_identifier xs"

definition MAX_TEXT_BYTES :: nat where "MAX_TEXT_BYTES = 4 * 1024"
definition MAX_LINE :: int where "MAX_LINE = 10000000"

text \<open>\<open>_repository_path\<close>; the root is the text \<open>"."\<close>.\<close>

definition review_path :: "bool \<Rightarrow> string \<Rightarrow> bool" where
  "review_path allow_root s = (if s = ''.'' then allow_root else normal_path s)"

section \<open>Acceptance\<close>

record review_check =
  rc_id :: string
  rc_argv :: "string list"
  rc_exit :: int
  rc_command :: string
  rc_result :: string
  rc_passed :: bool

definition review_check_ok :: "review_check \<Rightarrow> bool" where
  "review_check_ok c \<longleftrightarrow> stage_identifier (rc_id c) \<and> 1 \<le> length (rc_argv c) \<and> length (rc_argv c) \<le> 32
     \<and> list_all (\<lambda>t. t \<noteq> [] \<and> CHR 0x00 \<notin> set t \<and> utf8_length t \<le> 2 * 1024) (rc_argv c)
     \<and> 0 \<le> rc_exit c \<and> rc_exit c \<le> 255 \<and> re_digest (rc_command c) \<and> re_digest (rc_result c)"

record review_node =
  rn_id :: string
  rn_objective :: string
  rn_depends_on :: "string list"
  rn_effects :: "string list"
  rn_allowed :: "string list"
  rn_max_changed :: int
  rn_checks :: "review_check list"

text \<open>\<open>ReviewPlanNode.__post_init__\<close>, for checks that are valid already.\<close>

definition make_review_node :: "review_node \<Rightarrow> review_node option" where
  "make_review_node n = do {
     ensure (stage_identifier (rn_id n) \<and> bounded_text MAX_TEXT_BYTES (rn_objective n)
       \<and> unique_identifiers 64 (rn_depends_on n) \<and> rn_id n \<notin> set (rn_depends_on n)
       \<and> rn_effects n \<noteq> [] \<and> distinct (rn_effects n)
       \<and> set (rn_effects n) \<subseteq> {''repository-read'', ''repository-write'', ''process'', ''network''}
       \<and> length (rn_allowed n) \<le> 256 \<and> 0 \<le> rn_max_changed n \<and> rn_max_changed n \<le> 10000
       \<and> 1 \<le> length (rn_checks n) \<and> length (rn_checks n) \<le> 64 \<and> distinct (map rc_id (rn_checks n)));
     ensure (list_all (review_path True) (rn_allowed n) \<and> distinct (rn_allowed n));
     let repository_write = (''repository-write'' \<in> set (rn_effects n)) in do {
     ensure (repository_write = (rn_allowed n \<noteq> []) \<and> repository_write = (0 < rn_max_changed n));
     Some (n\<lparr>rn_allowed := sort (rn_allowed n)\<rparr>) } }"

text \<open>\<open>_has_dependency_cycle\<close>: the dictionary \<open>remaining\<close> is an association list.\<close>

function cycle_loop :: "(string \<times> string list) list \<Rightarrow> bool" where
  "cycle_loop remaining =
     (if remaining = [] then False
      else let ready = map fst (filter (\<lambda>(i, ds). ds = []) remaining) in
        if ready = [] then True
        else cycle_loop (map (\<lambda>(i, ds). (i, filter (\<lambda>d. d \<notin> set ready) ds))
               (filter (\<lambda>(i, ds). i \<notin> set ready) remaining)))"
  by pat_completeness auto
termination
proof (relation "measure length", goal_cases)
  case (2 remaining ready)
  then obtain i where "(i, []) \<in> set remaining" by (auto simp: filter_empty_conv)
  then have "(i, []) \<in> set remaining" "\<not> (\<lambda>(i, ds). i \<notin> set ready) (i, [])"
    using 2(2) by force+
  then show ?case by (auto intro: length_filter_less)
qed simp

declare cycle_loop.simps [simp del]

definition has_dependency_cycle :: "review_node list \<Rightarrow> bool" where
  "has_dependency_cycle nodes = cycle_loop (map (\<lambda>n. (rn_id n, rn_depends_on n)) nodes)"

record review_acceptance =
  ra_run_id :: string
  ra_project_id :: string
  ra_intent_id :: string
  ra_plan_id :: string
  ra_objective :: string
  ra_constraints :: "string list"
  ra_base :: string
  ra_nodes :: "review_node list"
  ra_schema :: string

definition REVIEW_ACCEPTANCE_SCHEMA :: string where
  "REVIEW_ACCEPTANCE_SCHEMA = ''review-acceptance/v1''"

definition review_check_payload :: "review_check \<Rightarrow> json" where
  "review_check_payload c = JObj [(''check_id'', JStr (rc_id c)), (''argv'', strings (rc_argv c)),
     (''expected_exit_code'', JInt (rc_exit c)), (''command_digest'', JStr (rc_command c)),
     (''result_digest'', JStr (rc_result c)), (''passed'', JBool (rc_passed c))]"

definition review_node_payload :: "review_node \<Rightarrow> json" where
  "review_node_payload n = JObj [(''node_id'', JStr (rn_id n)), (''objective'', JStr (rn_objective n)),
     (''depends_on'', strings (rn_depends_on n)), (''effects'', strings (rn_effects n)),
     (''allowed_paths'', strings (rn_allowed n)), (''max_changed_files'', JInt (rn_max_changed n)),
     (''checks'', JArr (map review_check_payload (rn_checks n)))]"

definition review_acceptance_payload :: "review_acceptance \<Rightarrow> jobject" where
  "review_acceptance_payload a =
     [(''schema_version'', JStr (ra_schema a)), (''run_id'', JStr (ra_run_id a)),
      (''project_id'', JStr (ra_project_id a)), (''intent_id'', JStr (ra_intent_id a)),
      (''plan_id'', JStr (ra_plan_id a)), (''objective'', JStr (ra_objective a)),
      (''constraints'', strings (ra_constraints a)), (''base_commit'', JStr (ra_base a)),
      (''nodes'', JArr (map review_node_payload (ra_nodes a)))]"

definition review_acceptance_digest :: "review_acceptance \<Rightarrow> string" where
  "review_acceptance_digest a = json_digest (JObj (review_acceptance_payload a))"

text \<open>\<open>ReviewAcceptance.__post_init__\<close>, for nodes that are valid already.\<close>

definition make_review_acceptance :: "review_acceptance \<Rightarrow> review_acceptance option" where
  "make_review_acceptance a = do {
     ensure (ra_schema a = REVIEW_ACCEPTANCE_SCHEMA
       \<and> list_all stage_identifier [ra_run_id a, ra_project_id a, ra_intent_id a, ra_plan_id a]
       \<and> bounded_text (8 * 1024) (ra_objective a) \<and> length (ra_constraints a) \<le> 64
       \<and> distinct (ra_constraints a) \<and> list_all (bounded_text MAX_TEXT_BYTES) (ra_constraints a)
       \<and> commit_id (ra_base a) \<and> 1 \<le> length (ra_nodes a) \<and> length (ra_nodes a) \<le> 64);
     let nodes = sort_key rn_id (ra_nodes a) in do {
     ensure (distinct (map rn_id nodes)
       \<and> list_all (\<lambda>n. set (rn_depends_on n) \<subseteq> set (map rn_id nodes)) nodes
       \<and> \<not> has_dependency_cycle nodes);
     let b = a\<lparr>ra_nodes := nodes\<rparr> in do {
     ensure (length (json_bytes (JObj (review_acceptance_payload b))) \<le> 2 * 1024 * 1024);
     Some b } } }"

section \<open>Evidence\<close>

text \<open>\<open>str.splitlines\<close>: a carriage return with a line feed is one line break.\<close>

definition line_break :: "char \<Rightarrow> bool" where
  "line_break c = (let n = code c in 10 \<le> n \<and> n \<le> 13 \<or> 28 \<le> n \<and> n \<le> 30 \<or> n = 133)"

fun lines_from :: "bool \<Rightarrow> string \<Rightarrow> string \<Rightarrow> string list" where
  "lines_from after_return current [] = (if current = [] then [] else [current])"
| "lines_from after_return current (c # s) =
     (if after_return \<and> code c = 10 then lines_from False current s
      else if line_break c then current # lines_from (code c = 13) [] s
      else lines_from False (current @ [c]) s)"

definition splitlines :: "string \<Rightarrow> string list" where
  "splitlines s = lines_from False [] s"

record review_evidence =
  re_kind :: evidence_kind
  re_node_id :: string
  re_artifact :: string
  re_excerpt :: string
  re_start :: int
  re_path :: "string option"
  re_check_id :: "string option"
  re_operation :: "text_operation option"
  re_end :: int
  re_id :: string

definition evidence_identity :: "review_evidence \<Rightarrow> jobject" where
  "evidence_identity e =
     [(''kind'', JStr (evidence_kind_value (re_kind e))), (''node_id'', JStr (re_node_id e)),
      (''artifact_digest'', JStr (re_artifact e)),
      (''operation'', opt_str (map_option text_operation_value (re_operation e))),
      (''path'', opt_str (re_path e)), (''check_id'', opt_str (re_check_id e)),
      (''start_line'', JInt (re_start e)), (''end_line'', JInt (re_end e)),
      (''excerpt'', JStr (re_excerpt e))]"

text \<open>\<open>ReviewEvidence.__post_init__\<close>: the last line and the identifier are computed.\<close>

definition make_review_evidence :: "review_evidence \<Rightarrow> review_evidence option" where
  "make_review_evidence e = do {
     ensure (stage_identifier (re_node_id e) \<and> re_digest (re_artifact e) \<and> CHR 0x00 \<notin> set (re_excerpt e)
       \<and> utf8_length (re_excerpt e) \<le> 32 * 1024 \<and> 1 \<le> re_start e \<and> re_start e \<le> MAX_LINE
       \<and> (case re_check_id e of None \<Rightarrow> True | Some c \<Rightarrow> stage_identifier c));
     ensure (case re_path e of None \<Rightarrow> True | Some p \<Rightarrow> review_path False p);
     let source_kind = (re_kind e \<in> {SourceBefore, SourceAfter, EffectEvidence});
         check_kind = (re_kind e \<in> {CheckCommand, CheckResult, CheckStdout, CheckStderr}) in do {
     ensure (source_kind = (re_path e \<noteq> None) \<and> source_kind = (re_operation e \<noteq> None)
       \<and> check_kind = (re_check_id e \<noteq> None)
       \<and> \<not> (re_kind e = SourceBefore \<and> re_operation e = Some CreateText)
       \<and> \<not> (re_kind e = SourceAfter \<and> re_operation e = Some DeleteText));
     ensure (\<not> (re_kind e = OutcomeEvidence \<and> (re_path e \<noteq> None \<or> re_check_id e \<noteq> None)));
     let counted = length (splitlines (re_excerpt e));
         line_count = (if counted = 0 then 1 else counted);
         end_line = re_start e + int line_count - 1 in do {
     ensure (end_line \<le> MAX_LINE);
     let f = e\<lparr>re_end := end_line\<rparr> in
     Some (f\<lparr>re_id := json_digest (JObj (evidence_identity f))\<rparr>) } } }"

section \<open>Contexts\<close>

definition REVIEW_CONTEXT_SCHEMA :: string where "REVIEW_CONTEXT_SCHEMA = ''review-context/v2''"
definition PRIOR_REVIEW_CONTEXT_SCHEMA :: string where
  "PRIOR_REVIEW_CONTEXT_SCHEMA = ''review-context/v1''"
definition REVIEW_PROPOSAL_SCHEMA :: string where "REVIEW_PROPOSAL_SCHEMA = ''review-proposal/v2''"
definition PRIOR_REVIEW_PROPOSAL_SCHEMA :: string where
  "PRIOR_REVIEW_PROPOSAL_SCHEMA = ''review-proposal/v1''"
definition ADMITTED_REVIEW_SCHEMA :: string where
  "ADMITTED_REVIEW_SCHEMA = ''execution-admitted-review/v2''"
definition PRIOR_ADMITTED_REVIEW_SCHEMA :: string where
  "PRIOR_ADMITTED_REVIEW_SCHEMA = ''execution-admitted-review/v1''"

text \<open>\<open>_context_dimensions\<close>, \<open>_proposal_dimensions\<close> and \<open>_admitted_dimensions\<close>.\<close>

definition versioned_dimensions :: "string \<Rightarrow> string \<Rightarrow> string \<Rightarrow> epistemic_dimension list option" where
  "versioned_dimensions current prior schema =
     (if schema = current then Some EPISTEMIC_DIMENSIONS
      else if schema = prior then Some PRIOR_EPISTEMIC_DIMENSIONS else None)"

definition context_dimensions :: "string \<Rightarrow> epistemic_dimension list option" where
  "context_dimensions = versioned_dimensions REVIEW_CONTEXT_SCHEMA PRIOR_REVIEW_CONTEXT_SCHEMA"

definition proposal_dimensions :: "string \<Rightarrow> epistemic_dimension list option" where
  "proposal_dimensions = versioned_dimensions REVIEW_PROPOSAL_SCHEMA PRIOR_REVIEW_PROPOSAL_SCHEMA"

definition admitted_dimensions :: "string \<Rightarrow> epistemic_dimension list option" where
  "admitted_dimensions = versioned_dimensions ADMITTED_REVIEW_SCHEMA PRIOR_ADMITTED_REVIEW_SCHEMA"

record review_context =
  rx_acceptance :: review_acceptance
  rx_state :: string
  rx_artifact_evidence :: string
  rx_evidence :: "review_evidence list"
  rx_schema :: string

definition evidence_payload :: "review_evidence \<Rightarrow> json" where
  "evidence_payload e = JObj ((''evidence_id'', JStr (re_id e)) # evidence_identity e)"

definition review_context_payload :: "review_context \<Rightarrow> jobject" where
  "review_context_payload x =
     [(''schema_version'', JStr (rx_schema x)),
      (''acceptance_digest'', JStr (review_acceptance_digest (rx_acceptance x))),
      (''acceptance'', JObj (review_acceptance_payload (rx_acceptance x))),
      (''state_digest'', JStr (rx_state x)),
      (''artifact_evidence_digest'', JStr (rx_artifact_evidence x)),
      (''review_categories'', strings (map finding_category_value FINDING_CATEGORIES)),
      (''epistemic_dimensions'', strings (map dimension_value
         (case context_dimensions (rx_schema x) of None \<Rightarrow> [] | Some ds \<Rightarrow> ds))),
      (''epistemic_dispositions'', strings (map disposition_value DISPOSITIONS)),
      (''evidence'', JArr (map evidence_payload (rx_evidence x)))]"

definition review_context_digest :: "review_context \<Rightarrow> string" where
  "review_context_digest x = json_digest (JObj (review_context_payload x))"

text \<open>One item of the loop of \<open>ReviewContext.__post_init__\<close>.\<close>

definition evidence_in_plan :: "review_node list \<Rightarrow> review_evidence \<Rightarrow> bool" where
  "evidence_in_plan nodes e = (case List.find (\<lambda>n. rn_id n = re_node_id e) nodes of
     None \<Rightarrow> False
   | Some n \<Rightarrow> (case re_path e of None \<Rightarrow> True | Some p \<Rightarrow> path_allowed p (rn_allowed n))
       \<and> (case re_check_id e of None \<Rightarrow> True | Some c \<Rightarrow> c \<in> set (map rc_id (rn_checks n))))"

text \<open>\<open>ReviewContext.__post_init__\<close>, for an acceptance and evidence that are valid already.\<close>

definition make_review_context :: "review_context \<Rightarrow> review_context option" where
  "make_review_context x = do {
     ensure (rx_schema x \<in> {REVIEW_CONTEXT_SCHEMA, PRIOR_REVIEW_CONTEXT_SCHEMA}
       \<and> re_digest (rx_state x) \<and> re_digest (rx_artifact_evidence x)
       \<and> 1 \<le> length (rx_evidence x) \<and> length (rx_evidence x) \<le> 128
       \<and> sum_list (map (\<lambda>e. utf8_length (re_excerpt e)) (rx_evidence x)) \<le> 512 * 1024);
     let evidence = sort_key re_id (rx_evidence x) in do {
     ensure (distinct (map re_id evidence));
     ensure (list_all (evidence_in_plan (ra_nodes (rx_acceptance x))) evidence);
     let y = x\<lparr>rx_evidence := evidence\<rparr> in do {
     ensure (length (json_bytes (JObj (review_context_payload y))) \<le> 3 * 1024 * 1024);
     Some y } } }"

text \<open>\<open>review_context_matching_digest\<close>: the version of the context that has the durable digest;
  \<open>dataclasses.replace\<close> runs the constructor again.\<close>

definition context_at :: "review_context \<Rightarrow> string \<Rightarrow> review_context option" where
  "context_at x schema =
     (if rx_schema x = schema then Some x else make_review_context (x\<lparr>rx_schema := schema\<rparr>))"

definition review_context_matching_digest :: "review_context \<Rightarrow> string \<Rightarrow> review_context option" where
  "review_context_matching_digest x expected = do {
     ensure (re_digest expected);
     current \<leftarrow> context_at x REVIEW_CONTEXT_SCHEMA;
     if review_context_digest current = expected then Some current
     else do {
       prior \<leftarrow> context_at x PRIOR_REVIEW_CONTEXT_SCHEMA;
       if review_context_digest prior = expected then Some prior else None } }"

end
