(* ===== verification/ReviewAdmission.thy ===== *)
theory ReviewAdmission
  imports Review
begin

text \<open>
  The second half of \<open>orchestration/review.py\<close>: proposals, their admission against a context, the
  durable payloads with their readers, and the provider's call and result.
\<close>

section \<open>Citations, assessments and findings\<close>

record citation =
  ci_evidence :: string
  ci_start :: int
  ci_end :: int

definition citation_ok :: "citation \<Rightarrow> bool" where
  "citation_ok c \<longleftrightarrow> re_digest (ci_evidence c) \<and> 1 \<le> ci_start c \<and> ci_start c \<le> ci_end c
     \<and> ci_end c \<le> MAX_LINE"

record assessment =
  ea_dimension :: epistemic_dimension
  ea_disposition :: disposition
  ea_claim :: string
  ea_question :: string
  ea_citations :: "citation list"
  ea_finding_ids :: "string list"

text \<open>\<open>EpistemicAssessment.__post_init__\<close>, for citations that are valid already.\<close>

definition make_assessment :: "assessment \<Rightarrow> assessment option" where
  "make_assessment a = do {
     ensure (bounded_text MAX_TEXT_BYTES (ea_claim a) \<and> bounded_text MAX_TEXT_BYTES (ea_question a)
       \<and> 1 \<le> length (ea_citations a) \<and> length (ea_citations a) \<le> 8 \<and> distinct (ea_citations a)
       \<and> unique_identifiers 64 (ea_finding_ids a)
       \<and> (ea_disposition a = Concern) = (ea_finding_ids a \<noteq> []));
     Some (a\<lparr>ea_finding_ids := sort (ea_finding_ids a)\<rparr>) }"

record finding =
  fi_id :: string
  fi_category :: finding_category
  fi_severity :: severity
  fi_claim :: string
  fi_impact :: string
  fi_recommendation :: string
  fi_citations :: "citation list"

definition finding_ok :: "finding \<Rightarrow> bool" where
  "finding_ok f \<longleftrightarrow> stage_identifier (fi_id f)
     \<and> list_all (bounded_text MAX_TEXT_BYTES) [fi_claim f, fi_impact f, fi_recommendation f]
     \<and> 1 \<le> length (fi_citations f) \<and> length (fi_citations f) \<le> 8 \<and> distinct (fi_citations f)"

text \<open>\<open>_valid_epistemic_assessments\<close>.\<close>

definition valid_assessments ::
    "assessment list \<Rightarrow> string set \<Rightarrow> epistemic_dimension list \<Rightarrow> bool" where
  "valid_assessments as finding_ids expected \<longleftrightarrow> length as = length expected
     \<and> set (map ea_dimension as) = set expected
     \<and> set (concat (map ea_finding_ids as)) = finding_ids"

definition sort_assessments :: "assessment list \<Rightarrow> assessment list" where
  "sort_assessments = sort_key (\<lambda>a. dimension_value (ea_dimension a))"

section \<open>Payloads\<close>

definition citation_payload :: "citation \<Rightarrow> json" where
  "citation_payload c = JObj [(''evidence_id'', JStr (ci_evidence c)),
     (''start_line'', JInt (ci_start c)), (''end_line'', JInt (ci_end c))]"

definition finding_payload :: "finding \<Rightarrow> json" where
  "finding_payload f = JObj [(''finding_id'', JStr (fi_id f)),
     (''category'', JStr (finding_category_value (fi_category f))),
     (''severity'', JStr (severity_value (fi_severity f))), (''claim'', JStr (fi_claim f)),
     (''impact'', JStr (fi_impact f)), (''recommendation'', JStr (fi_recommendation f)),
     (''citations'', JArr (map citation_payload (fi_citations f)))]"

definition assessment_payload :: "assessment \<Rightarrow> json" where
  "assessment_payload a = JObj [(''dimension'', JStr (dimension_value (ea_dimension a))),
     (''disposition'', JStr (disposition_value (ea_disposition a))), (''claim'', JStr (ea_claim a)),
     (''falsification_question'', JStr (ea_question a)),
     (''citations'', JArr (map citation_payload (ea_citations a))),
     (''finding_ids'', strings (ea_finding_ids a))]"

section \<open>Proposals\<close>

record review_proposal =
  rp_context :: string
  rp_findings :: "finding list"
  rp_summary :: string
  rp_assessments :: "assessment list"
  rp_schema :: string

definition review_proposal_payload :: "review_proposal \<Rightarrow> jobject" where
  "review_proposal_payload p =
     [(''schema_version'', JStr (rp_schema p)), (''context_digest'', JStr (rp_context p)),
      (''findings'', JArr (map finding_payload (rp_findings p))), (''summary'', JStr (rp_summary p)),
      (''epistemic_assessments'', JArr (map assessment_payload (rp_assessments p)))]"

definition review_proposal_digest :: "review_proposal \<Rightarrow> string" where
  "review_proposal_digest p = json_digest (JObj (review_proposal_payload p))"

text \<open>\<open>ReviewProposal.__post_init__\<close>, for findings and assessments that are valid already.\<close>

definition make_review_proposal :: "review_proposal \<Rightarrow> review_proposal option" where
  "make_review_proposal p = do {
     expected \<leftarrow> proposal_dimensions (rp_schema p);
     ensure (re_digest (rp_context p) \<and> length (rp_findings p) \<le> 64
       \<and> distinct (map fi_id (rp_findings p)) \<and> bounded_text MAX_TEXT_BYTES (rp_summary p)
       \<and> valid_assessments (rp_assessments p) (set (map fi_id (rp_findings p))) expected);
     let q = p\<lparr>rp_assessments := sort_assessments (rp_assessments p)\<rparr> in do {
     ensure (length (json_bytes (JObj (review_proposal_payload q))) \<le> 1024 * 1024);
     Some q } }"

section \<open>Admission\<close>

record admitted_review =
  ar_context :: string
  ar_acceptance :: string
  ar_findings :: "finding list"
  ar_summary :: string
  ar_assessments :: "assessment list"
  ar_schema :: string

definition make_admitted_review :: "admitted_review \<Rightarrow> admitted_review option" where
  "make_admitted_review r = do {
     expected \<leftarrow> admitted_dimensions (ar_schema r);
     ensure (re_digest (ar_context r) \<and> re_digest (ar_acceptance r) \<and> length (ar_findings r) \<le> 64
       \<and> distinct (map fi_id (ar_findings r)) \<and> bounded_text MAX_TEXT_BYTES (ar_summary r)
       \<and> valid_assessments (ar_assessments r) (set (map fi_id (ar_findings r))) expected);
     Some (r\<lparr>ar_assessments := sort_assessments (ar_assessments r)\<rparr>) }"

definition admitted_review_payload :: "admitted_review \<Rightarrow> jobject" where
  "admitted_review_payload r =
     [(''schema_version'', JStr (ar_schema r)), (''context_digest'', JStr (ar_context r)),
      (''acceptance_digest'', JStr (ar_acceptance r)),
      (''findings'', JArr (map finding_payload (ar_findings r))), (''summary'', JStr (ar_summary r)),
      (''epistemic_assessments'', JArr (map assessment_payload (ar_assessments r)))]"

definition admitted_review_digest :: "admitted_review \<Rightarrow> string" where
  "admitted_review_digest r = json_digest (JObj (admitted_review_payload r))"

definition review_contracts_align :: "string \<Rightarrow> string \<Rightarrow> bool" where
  "review_contracts_align context proposal \<longleftrightarrow>
     (context, proposal) \<in> {(REVIEW_CONTEXT_SCHEMA, REVIEW_PROPOSAL_SCHEMA),
       (PRIOR_REVIEW_CONTEXT_SCHEMA, PRIOR_REVIEW_PROPOSAL_SCHEMA)}"

definition citations_fit_evidence :: "citation list \<Rightarrow> review_evidence list \<Rightarrow> bool" where
  "citations_fit_evidence citations evidence = list_all (\<lambda>c.
     case List.find (\<lambda>e. re_id e = ci_evidence c) evidence of
       None \<Rightarrow> False
     | Some e \<Rightarrow> re_start e \<le> ci_start c \<and> ci_end c \<le> re_end e) citations"

definition cited :: "review_proposal \<Rightarrow> citation list" where
  "cited p = concat (map fi_citations (rp_findings p)) @ concat (map ea_citations (rp_assessments p))"

definition admit_review :: "review_context \<Rightarrow> review_proposal \<Rightarrow> admitted_review option" where
  "admit_review x p = do {
     ensure (rp_context p = review_context_digest x \<and> review_contracts_align (rx_schema x) (rp_schema p));
     ensure (citations_fit_evidence (cited p) (rx_evidence x));
     make_admitted_review \<lparr>ar_context = review_context_digest x,
       ar_acceptance = review_acceptance_digest (rx_acceptance x), ar_findings = rp_findings p,
       ar_summary = rp_summary p, ar_assessments = rp_assessments p,
       ar_schema = (if rp_schema p = PRIOR_REVIEW_PROPOSAL_SCHEMA then PRIOR_ADMITTED_REVIEW_SCHEMA
         else ADMITTED_REVIEW_SCHEMA)\<rparr> }"

section \<open>Readers\<close>

definition bounded_sequence :: "nat \<Rightarrow> json \<Rightarrow> json list option" where
  "bounded_sequence maximum v = do { xs \<leftarrow> as_arr v; ensure (length xs \<le> maximum); Some xs }"

definition citation_from_mapping :: "json \<Rightarrow> citation option" where
  "citation_from_mapping v = do {
     raw \<leftarrow> as_obj v;
     ensure (keys_are raw [''evidence_id'', ''start_line'', ''end_line'']);
     evidence \<leftarrow> as_str (jget raw ''evidence_id'');
     start \<leftarrow> as_int (jget raw ''start_line'');
     stop \<leftarrow> as_int (jget raw ''end_line'');
     let c = \<lparr>ci_evidence = evidence, ci_start = start, ci_end = stop\<rparr> in do {
     ensure (citation_ok c); Some c } }"

definition text_identifier :: "json \<Rightarrow> string option" where
  "text_identifier v = do { s \<leftarrow> as_str v; ensure (stage_identifier s); Some s }"

definition assessment_from_mapping :: "json \<Rightarrow> assessment option" where
  "assessment_from_mapping v = do {
     raw \<leftarrow> as_obj v;
     ensure (keys_are raw [''dimension'', ''disposition'', ''claim'', ''falsification_question'',
       ''citations'', ''finding_ids'']);
     dimension_text \<leftarrow> as_str (jget raw ''dimension'');
     dimension \<leftarrow> member_of EPISTEMIC_DIMENSIONS dimension_value dimension_text;
     disposition_text \<leftarrow> as_str (jget raw ''disposition'');
     disposition \<leftarrow> member_of DISPOSITIONS disposition_value disposition_text;
     claim \<leftarrow> as_str (jget raw ''claim'');
     question \<leftarrow> as_str (jget raw ''falsification_question'');
     raw_citations \<leftarrow> bounded_sequence 8 (jget raw ''citations'');
     citations \<leftarrow> traverse citation_from_mapping raw_citations;
     raw_ids \<leftarrow> bounded_sequence 64 (jget raw ''finding_ids'');
     finding_ids \<leftarrow> traverse text_identifier raw_ids;
     make_assessment \<lparr>ea_dimension = dimension, ea_disposition = disposition, ea_claim = claim,
       ea_question = question, ea_citations = citations, ea_finding_ids = finding_ids\<rparr> }"

definition finding_from_mapping :: "json \<Rightarrow> finding option" where
  "finding_from_mapping v = do {
     raw \<leftarrow> as_obj v;
     ensure (keys_are raw [''finding_id'', ''category'', ''severity'', ''claim'', ''impact'',
       ''recommendation'', ''citations'']);
     category_text \<leftarrow> as_str (jget raw ''category'');
     category \<leftarrow> member_of FINDING_CATEGORIES finding_category_value category_text;
     severity_text \<leftarrow> as_str (jget raw ''severity'');
     severity \<leftarrow> member_of SEVERITIES severity_value severity_text;
     raw_citations \<leftarrow> bounded_sequence 8 (jget raw ''citations'');
     citations \<leftarrow> traverse citation_from_mapping raw_citations;
     i \<leftarrow> as_str (jget raw ''finding_id'');
     claim \<leftarrow> as_str (jget raw ''claim'');
     impact \<leftarrow> as_str (jget raw ''impact'');
     recommendation \<leftarrow> as_str (jget raw ''recommendation'');
     let f = \<lparr>fi_id = i, fi_category = category, fi_severity = severity, fi_claim = claim,
       fi_impact = impact, fi_recommendation = recommendation, fi_citations = citations\<rparr> in do {
     ensure (finding_ok f); Some f } }"

definition review_proposal_from_mapping :: "jobject \<Rightarrow> review_proposal option" where
  "review_proposal_from_mapping raw = do {
     ensure (keys_are raw [''schema_version'', ''context_digest'', ''findings'', ''summary'',
       ''epistemic_assessments'']);
     schema \<leftarrow> as_str (jget raw ''schema_version'');
     ensure (schema \<in> {REVIEW_PROPOSAL_SCHEMA, PRIOR_REVIEW_PROPOSAL_SCHEMA});
     raw_findings \<leftarrow> bounded_sequence 64 (jget raw ''findings'');
     findings \<leftarrow> traverse finding_from_mapping raw_findings;
     raw_assessments \<leftarrow> bounded_sequence 9 (jget raw ''epistemic_assessments'');
     assessments \<leftarrow> traverse assessment_from_mapping raw_assessments;
     context \<leftarrow> as_str (jget raw ''context_digest'');
     summary \<leftarrow> as_str (jget raw ''summary'');
     make_review_proposal \<lparr>rp_context = context, rp_findings = findings, rp_summary = summary,
       rp_assessments = assessments, rp_schema = schema\<rparr> }"

definition admitted_review_from_mapping :: "jobject \<Rightarrow> admitted_review option" where
  "admitted_review_from_mapping raw = do {
     ensure (keys_are raw [''schema_version'', ''context_digest'', ''acceptance_digest'', ''findings'',
       ''summary'', ''epistemic_assessments'']);
     schema \<leftarrow> as_str (jget raw ''schema_version'');
     ensure (schema \<in> {ADMITTED_REVIEW_SCHEMA, PRIOR_ADMITTED_REVIEW_SCHEMA});
     raw_findings \<leftarrow> bounded_sequence 64 (jget raw ''findings'');
     findings \<leftarrow> traverse finding_from_mapping raw_findings;
     raw_assessments \<leftarrow> bounded_sequence 9 (jget raw ''epistemic_assessments'');
     assessments \<leftarrow> traverse assessment_from_mapping raw_assessments;
     context \<leftarrow> as_str (jget raw ''context_digest'');
     acceptance \<leftarrow> as_str (jget raw ''acceptance_digest'');
     summary \<leftarrow> as_str (jget raw ''summary'');
     make_admitted_review \<lparr>ar_context = context, ar_acceptance = acceptance, ar_findings = findings,
       ar_summary = summary, ar_assessments = assessments, ar_schema = schema\<rparr> }"

section \<open>The provider's call and result\<close>

record review_call =
  rl_request_id :: string
  rl_correlation_id :: string
  rl_review_id :: string
  rl_context :: review_context
  rl_classification :: data_classification
  rl_locality :: locality_policy
  rl_budget :: gateway_budget
  rl_estimated_input_tokens :: int
  rl_causation_id :: "string option"

definition review_call_ok :: "review_call \<Rightarrow> bool" where
  "review_call_ok c \<longleftrightarrow>
     list_all stage_identifier [rl_request_id c, rl_correlation_id c, rl_review_id c]
     \<and> 0 \<le> rl_estimated_input_tokens c
     \<and> (case rl_causation_id c of None \<Rightarrow> True | Some s \<Rightarrow> stage_identifier s)"

definition REVIEW_PROVIDER_RESULT_SCHEMA :: string where
  "REVIEW_PROVIDER_RESULT_SCHEMA = ''review-provider-result/v1''"

record review_result =
  rr_proposal :: review_proposal
  rr_output_digest :: string
  rr_profile_id :: string
  rr_adapter_id :: string
  rr_model_id :: string
  rr_input_tokens :: "int option"
  rr_output_tokens :: "int option"
  rr_latency_ms :: int
  rr_cost_microusd :: "int option"
  rr_completed_at :: datetime
  rr_schema :: string

definition review_result_ok :: "review_result \<Rightarrow> bool" where
  "review_result_ok r \<longleftrightarrow> rr_schema r = REVIEW_PROVIDER_RESULT_SCHEMA \<and> re_digest (rr_output_digest r)
     \<and> list_all (\<lambda>s. s \<noteq> [] \<and> length s \<le> 256) [rr_profile_id r, rr_adapter_id r, rr_model_id r]
     \<and> list_all usage_ok [rr_input_tokens r, rr_output_tokens r, rr_cost_microusd r]
     \<and> 0 \<le> rr_latency_ms r \<and> aware (rr_completed_at r)"

definition review_result_payload :: "review_result \<Rightarrow> jobject" where
  "review_result_payload r =
     [(''schema_version'', JStr (rr_schema r)),
      (''proposal_digest'', JStr (review_proposal_digest (rr_proposal r))),
      (''provider_output_digest'', JStr (rr_output_digest r)), (''profile_id'', JStr (rr_profile_id r)),
      (''adapter_id'', JStr (rr_adapter_id r)), (''model_id'', JStr (rr_model_id r)),
      (''input_tokens'', opt_int (rr_input_tokens r)), (''output_tokens'', opt_int (rr_output_tokens r)),
      (''latency_ms'', JInt (rr_latency_ms r)), (''cost_microusd'', opt_int (rr_cost_microusd r)),
      (''completed_at'', JStr (isoformat (rr_completed_at r)))]"

definition optional_int :: "json \<Rightarrow> int option option" where
  "optional_int v = (if v = JNull then Some None else map_option Some (as_int v))"

definition review_result_from_mapping ::
    "(string \<Rightarrow> datetime option) \<Rightarrow> review_proposal \<Rightarrow> jobject \<Rightarrow> review_result option" where
  "review_result_from_mapping fromiso proposal raw = do {
     ensure (keys_are raw [''schema_version'', ''proposal_digest'', ''provider_output_digest'',
       ''profile_id'', ''adapter_id'', ''model_id'', ''input_tokens'', ''output_tokens'',
       ''latency_ms'', ''cost_microusd'', ''completed_at'']);
     ensure (jget raw ''schema_version'' = JStr REVIEW_PROVIDER_RESULT_SCHEMA);
     ensure (jget raw ''proposal_digest'' = JStr (review_proposal_digest proposal));
     completed_text \<leftarrow> as_str (jget raw ''completed_at'');
     completed \<leftarrow> fromiso completed_text;
     output \<leftarrow> as_str (jget raw ''provider_output_digest'');
     profile \<leftarrow> as_str (jget raw ''profile_id'');
     adapter \<leftarrow> as_str (jget raw ''adapter_id'');
     model \<leftarrow> as_str (jget raw ''model_id'');
     input_tokens \<leftarrow> optional_int (jget raw ''input_tokens'');
     output_tokens \<leftarrow> optional_int (jget raw ''output_tokens'');
     cost \<leftarrow> optional_int (jget raw ''cost_microusd'');
     latency \<leftarrow> as_int (jget raw ''latency_ms'');
     let r = \<lparr>rr_proposal = proposal, rr_output_digest = output, rr_profile_id = profile,
       rr_adapter_id = adapter, rr_model_id = model, rr_input_tokens = input_tokens,
       rr_output_tokens = output_tokens, rr_latency_ms = latency, rr_cost_microusd = cost,
       rr_completed_at = completed, rr_schema = REVIEW_PROVIDER_RESULT_SCHEMA\<rparr> in do {
     ensure (review_result_ok r); Some r } }"

end
