(* ===== verification/AdmissionFacts.thy ===== *)
theory AdmissionFacts
  imports ReviewAdmission PlanOrder
begin

text \<open>
  Lemmas on the review contracts: what each constructor has established, the dependency check, the
  members of the vocabularies, and reading proposals and admitted reviews back.
\<close>

section \<open>The dependency check\<close>

definition pair_edges :: "(string \<times> string list) list \<Rightarrow> (string \<times> string) set" where
  "pair_edges rem = {(d, i). \<exists>ds. (i, ds) \<in> set rem \<and> d \<in> set ds}"

text \<open>Sources lie on no cycle.\<close>

lemma acyclic_drop_sources:
  assumes "\<And>d i. (d, i) \<in> E \<Longrightarrow> i \<notin> R"
  shows "acyclic {(d, i). (d, i) \<in> E \<and> d \<notin> R} \<longleftrightarrow> acyclic E"
proof
  let ?F = "{(d, i). (d, i) \<in> E \<and> d \<notin> R}"
  have step: "(x, y) \<in> E\<^sup>+ \<Longrightarrow> x \<notin> R \<Longrightarrow> (x, y) \<in> ?F\<^sup>+" for x y
  proof (induction rule: trancl_induct)
    case (base y)
    then show ?case by auto
  next
    case (step y z)
    have "y \<notin> R" using step.hyps(1) assms by (metis tranclD2)
    with step.hyps(2) have "(y, z) \<in> ?F" by simp
    with step.IH step.prems show ?case by (meson trancl.trancl_into_trancl)
  qed
  assume acyclic: "acyclic ?F"
  show "acyclic E"
    unfolding acyclic_def
  proof (intro allI notI)
    fix x
    assume cycle: "(x, x) \<in> E\<^sup>+"
    then have "x \<notin> R" using assms by (metis tranclD2)
    from step[OF cycle this] acyclic show False by (simp add: acyclic_def)
  qed
qed (auto elim: acyclic_subset)

lemma finite_pair_edges: "finite (pair_edges rem)"
  by (rule finite_subset[of _ "(\<Union>(i, ds)\<in>set rem. set ds) \<times> fst ` set rem"])
    (force simp: pair_edges_def)+

text \<open>A finite set in which everything has a predecessor contains a cycle.\<close>

lemma all_preceded_cyclic:
  assumes "finite E" "S \<noteq> {}" "\<And>i. i \<in> S \<Longrightarrow> \<exists>d\<in>S. (d, i) \<in> E"
  shows "\<not> acyclic E"
proof
  assume "acyclic E"
  then have wf: "wf E" using assms(1) finite_acyclic_wf by blast
  obtain k where "k \<in> S" using assms(2) by auto
  from wfE_min[OF wf this] assms(3) show False by metis
qed

lemma pair_edges_drop:
  "pair_edges (map (\<lambda>(i, ds). (i, filter (\<lambda>d. d \<notin> R) ds)) (filter (\<lambda>(i, ds). i \<notin> R) rem))
     = {(d, i). (d, i) \<in> pair_edges rem \<and> d \<notin> R \<and> i \<notin> R}"
  by (auto simp: pair_edges_def)

lemma cycle_loop_exact:
  assumes "distinct (map fst rem)" "\<forall>(i, ds)\<in>set rem. set ds \<subseteq> fst ` set rem"
  shows "cycle_loop rem \<longleftrightarrow> \<not> acyclic (pair_edges rem)"
  using assms
proof (induction rem rule: cycle_loop.induct)
  case (1 rem)
  let ?ready = "map fst (filter (\<lambda>(i, ds). ds = []) rem)"
  let ?rest = "map (\<lambda>(i, ds). (i, filter (\<lambda>d. d \<notin> set ?ready) ds)) (filter (\<lambda>(i, ds). i \<notin> set ?ready) rem)"
  show ?case
  proof (cases "rem = []")
    case True
    then show ?thesis by (simp add: cycle_loop.simps[of "[]"] pair_edges_def acyclic_def)
  next
    case False
    show ?thesis
    proof (cases "?ready = []")
      case True
      have "\<exists>d\<in>fst ` set rem. (d, i) \<in> pair_edges rem" if i: "i \<in> fst ` set rem" for i
      proof -
        obtain ds where ds: "(i, ds) \<in> set rem" using i by auto
        moreover have "ds \<noteq> []" using True ds by (auto simp: filter_empty_conv)
        moreover have "set ds \<subseteq> fst ` set rem" using "1.prems"(2) ds by fast
        ultimately obtain d where "d \<in> set ds" "d \<in> fst ` set rem" by (cases ds) auto
        with ds show ?thesis by (auto simp: pair_edges_def)
      qed
      then have "\<not> acyclic (pair_edges rem)"
        using all_preceded_cyclic[OF finite_pair_edges, of "fst ` set rem"] False by force
      with True False show ?thesis by (simp add: cycle_loop.simps[of rem])
    next
      case ready: False
      have keys: "fst ` set ?rest = fst ` set rem - set ?ready" by force
      have no_deps: "ds = []" if i: "(i, ds) \<in> set rem" "i \<in> set ?ready" for i ds
      proof -
        obtain ds' where ds': "(i, ds') \<in> set rem" "ds' = []" using i(2) by auto
        with i(1) "1.prems"(1) show ?thesis by (metis eq_key_imp_eq_value)
      qed
      have distinct: "distinct (map fst ?rest)"
        using "1.prems"(1) by (simp add: comp_def case_prod_beta distinct_map_filter)
      have closed: "\<forall>(i, ds)\<in>set ?rest. set ds \<subseteq> fst ` set ?rest"
        unfolding keys using "1.prems"(2) by auto
      have source: "i \<notin> set ?ready" if "(d, i) \<in> pair_edges rem" for d i
      proof
        assume i: "i \<in> set ?ready"
        obtain ds where "(i, ds) \<in> set rem" "d \<in> set ds" using \<open>(d, i) \<in> pair_edges rem\<close>
          by (auto simp: pair_edges_def)
        with no_deps[of i ds] i show False by simp
      qed
      have edges: "pair_edges ?rest = {(d, i). (d, i) \<in> pair_edges rem \<and> d \<notin> set ?ready}"
        unfolding pair_edges_drop using source by blast
      have "acyclic {(d, i). (d, i) \<in> pair_edges rem \<and> d \<notin> set ?ready} \<longleftrightarrow> acyclic (pair_edges rem)"
        by (rule acyclic_drop_sources) (rule source)
      then show ?thesis
        using "1.IH"[OF False refl ready distinct closed] edges False ready
        by (simp add: cycle_loop.simps[of rem])
    qed
  qed
qed

section \<open>Vocabularies\<close>

lemma vocabularies [simp]:
  "member_of FINDING_CATEGORIES finding_category_value (finding_category_value a) = Some a"
  "member_of SEVERITIES severity_value (severity_value b) = Some b"
  "member_of EPISTEMIC_DIMENSIONS dimension_value (dimension_value c) = Some c"
  "member_of DISPOSITIONS disposition_value (disposition_value d) = Some d"
proof -
  show "member_of FINDING_CATEGORIES finding_category_value (finding_category_value a) = Some a"
    by (cases a) (simp_all add: member_of_def FINDING_CATEGORIES_def)
  show "member_of SEVERITIES severity_value (severity_value b) = Some b"
    by (cases b) (simp_all add: member_of_def SEVERITIES_def)
  show "member_of EPISTEMIC_DIMENSIONS dimension_value (dimension_value c) = Some c"
    by (cases c) (simp_all add: member_of_def EPISTEMIC_DIMENSIONS_def PRIOR_EPISTEMIC_DIMENSIONS_def)
  show "member_of DISPOSITIONS disposition_value (disposition_value d) = Some d"
    by (cases d) (simp_all add: member_of_def DISPOSITIONS_def)
qed

lemma dimension_value_inj: "inj dimension_value"
proof (rule injI)
  fix x y assume "dimension_value x = dimension_value y"
  then have "member_of EPISTEMIC_DIMENSIONS dimension_value (dimension_value x)
      = member_of EPISTEMIC_DIMENSIONS dimension_value (dimension_value y)" by simp
  then show "x = y" by simp
qed

section \<open>Reading back\<close>

lemma citation_readback:
  assumes "citation_ok c"
  shows "citation_from_mapping (citation_payload c) = Some c"
  using assms
  by (cases c) (simp add: citation_from_mapping_def citation_payload_def keys_are_def insert_commute
      jget_def[of "(_, _) # _"] as_obj_def as_str_def as_int_def Let_def)

lemma citations_readback:
  "list_all citation_ok cs \<Longrightarrow> traverse citation_from_mapping (map citation_payload cs) = Some cs"
  by (rule traverse_map) (auto simp: list_all_iff intro: citation_readback)

lemma bounded_sequence_map [simp]:
  "length xs \<le> n \<Longrightarrow> bounded_sequence n (JArr (map f xs)) = Some (map f xs)"
  by (simp add: bounded_sequence_def as_arr_def)

definition finding_wf :: "finding \<Rightarrow> bool" where
  "finding_wf f \<longleftrightarrow> finding_ok f \<and> list_all citation_ok (fi_citations f)"

definition assessment_wf :: "assessment \<Rightarrow> bool" where
  "assessment_wf a \<longleftrightarrow> (\<exists>a0. make_assessment a0 = Some a) \<and> list_all citation_ok (ea_citations a)"

lemma finding_readback:
  assumes "finding_wf f"
  shows "finding_from_mapping (finding_payload f) = Some f"
proof -
  have eta: "\<lparr>fi_id = fi_id f, fi_category = fi_category f, fi_severity = fi_severity f, fi_claim = fi_claim f,
      fi_impact = fi_impact f, fi_recommendation = fi_recommendation f, fi_citations = fi_citations f\<rparr> = f"
    by (cases f) simp
  have "length (fi_citations f) \<le> 8" "finding_ok f" using assms by (simp_all add: finding_wf_def finding_ok_def)
  then show ?thesis
    using citations_readback[of "fi_citations f"] assms
    by (simp add: finding_from_mapping_def finding_payload_def keys_are_def insert_commute
        jget_def[of "(_, _) # _"] as_obj_def as_str_def finding_wf_def Let_def eta)
qed

lemma make_assessment_Some:
  assumes "make_assessment a0 = Some a"
  shows "length (ea_citations a) \<le> 8" "unique_identifiers 64 (ea_finding_ids a)" "sorted (ea_finding_ids a)"
    "(ea_disposition a = Concern) = (ea_finding_ids a \<noteq> [])" "make_assessment a = Some a"
proof -
  have a: "a = a0\<lparr>ea_finding_ids := sort (ea_finding_ids a0)\<rparr>"
    and ok: "bounded_text MAX_TEXT_BYTES (ea_claim a0)" "bounded_text MAX_TEXT_BYTES (ea_question a0)"
      "1 \<le> length (ea_citations a0)" "length (ea_citations a0) \<le> 8" "distinct (ea_citations a0)"
      "unique_identifiers 64 (ea_finding_ids a0)" "(ea_disposition a0 = Concern) = (ea_finding_ids a0 \<noteq> [])"
    using assms by (auto simp: make_assessment_def split: if_splits)
  have unique: "unique_identifiers 64 (sort (ea_finding_ids a0))"
    using ok(6) by (simp add: unique_identifiers_def list_all_iff)
  have nil: "sort xs = [] \<longleftrightarrow> xs = []" for xs :: "string list" by (metis length_0_conv length_sort)
  show "length (ea_citations a) \<le> 8" "unique_identifiers 64 (ea_finding_ids a)" "sorted (ea_finding_ids a)"
    "(ea_disposition a = Concern) = (ea_finding_ids a \<noteq> [])"
    using ok unique nil by (simp_all add: a)
  have "a\<lparr>ea_finding_ids := sort (ea_finding_ids a)\<rparr> = a" by (simp add: a sorted_sort_id)
  then show "make_assessment a = Some a"
    using ok unique nil by (simp add: make_assessment_def) (simp add: a)
qed

lemma assessment_readback:
  assumes "assessment_wf a"
  shows "assessment_from_mapping (assessment_payload a) = Some a"
proof -
  obtain a0 where a0: "make_assessment a0 = Some a" using assms by (auto simp: assessment_wf_def)
  note a = make_assessment_Some[OF a0]
  have eta: "\<lparr>ea_dimension = ea_dimension a, ea_disposition = ea_disposition a, ea_claim = ea_claim a,
      ea_question = ea_question a, ea_citations = ea_citations a, ea_finding_ids = ea_finding_ids a\<rparr> = a"
    by (cases a) simp
  have "traverse text_identifier (map JStr (ea_finding_ids a)) = Some (ea_finding_ids a)"
    by (rule traverse_map) (use a(2) in \<open>auto simp: text_identifier_def as_str_def unique_identifiers_def list_all_iff\<close>)
  moreover have "bounded_sequence 64 (strings (ea_finding_ids a)) = Some (map JStr (ea_finding_ids a))"
    using a(2) by (simp add: strings_def unique_identifiers_def)
  ultimately show ?thesis
    using citations_readback[of "ea_citations a"] assms a(1,5)
    by (simp add: assessment_from_mapping_def assessment_payload_def keys_are_def insert_commute
        jget_def[of "(_, _) # _"] as_obj_def as_str_def assessment_wf_def eta)
qed

section \<open>Proposals and admitted reviews\<close>

lemma sort_assessments_simps [simp]:
  "set (sort_assessments as) = set as" "length (sort_assessments as) = length as"
  "sort_assessments (sort_assessments as) = sort_assessments as"
  "valid_assessments (sort_assessments as) F D = valid_assessments as F D"
proof -
  show 1: "set (sort_assessments as) = set as" "length (sort_assessments as) = length as"
    by (simp_all add: sort_assessments_def)
  show "sort_assessments (sort_assessments as) = sort_assessments as"
    by (simp add: sort_assessments_def sort_key_id_if_sorted sorted_sort_key)
  show "valid_assessments (sort_assessments as) F D = valid_assessments as F D"
    using 1 by (simp add: valid_assessments_def)
qed

definition review_proposal_wf :: "review_proposal \<Rightarrow> bool" where
  "review_proposal_wf p \<longleftrightarrow> (\<exists>p0. make_review_proposal p0 = Some p)
     \<and> list_all finding_wf (rp_findings p) \<and> list_all assessment_wf (rp_assessments p)"

lemma versioned_dimensions_Some:
  assumes "versioned_dimensions current prior schema = Some ds"
  shows "schema \<in> {current, prior}" "ds \<in> {EPISTEMIC_DIMENSIONS, PRIOR_EPISTEMIC_DIMENSIONS}"
    "length ds \<le> 9" "distinct ds"
  using assms
  by (auto simp: versioned_dimensions_def EPISTEMIC_DIMENSIONS_def PRIOR_EPISTEMIC_DIMENSIONS_def
      split: if_splits)

lemma make_review_proposal_Some:
  assumes "make_review_proposal p0 = Some p"
  obtains ds where "proposal_dimensions (rp_schema p) = Some ds" "re_digest (rp_context p)"
    "length (rp_findings p) \<le> 64" "distinct (map fi_id (rp_findings p))"
    "bounded_text MAX_TEXT_BYTES (rp_summary p)"
    "valid_assessments (rp_assessments p) (set (map fi_id (rp_findings p))) ds"
    "length (rp_assessments p) \<le> 9" "make_review_proposal p = Some p"
proof -
  obtain ds where ds: "proposal_dimensions (rp_schema p0) = Some ds"
    and ok: "re_digest (rp_context p0)" "length (rp_findings p0) \<le> 64" "distinct (map fi_id (rp_findings p0))"
      "bounded_text MAX_TEXT_BYTES (rp_summary p0)"
      "valid_assessments (rp_assessments p0) (set (map fi_id (rp_findings p0))) ds"
      "length (json_bytes (JObj (review_proposal_payload
        (p0\<lparr>rp_assessments := sort_assessments (rp_assessments p0)\<rparr>)))) \<le> 1024 * 1024"
    and p: "p = p0\<lparr>rp_assessments := sort_assessments (rp_assessments p0)\<rparr>"
    using assms by (auto simp: make_review_proposal_def Let_def bind_eq_Some_conv split: if_splits)
  have len: "length (rp_assessments p) \<le> 9"
    using ok(5) versioned_dimensions_Some(3)[OF ds[unfolded proposal_dimensions_def]]
    by (simp add: p valid_assessments_def)
  have eta: "p\<lparr>rp_assessments := sort_assessments (rp_assessments p)\<rparr> = p" by (simp add: p)
  have bytes: "length (json_bytes (JObj (review_proposal_payload p))) \<le> 1024 * 1024" using ok(6) by (simp only: p)
  have "make_review_proposal p = Some p"
    using ds ok(1-5) bytes eta unfolding make_review_proposal_def Let_def by (simp add: p)
  with ds ok len show ?thesis by (intro that) (simp_all add: p)
qed

lemma make_admitted_review_Some:
  assumes "make_admitted_review r0 = Some r"
  obtains ds where "r = r0\<lparr>ar_assessments := sort_assessments (ar_assessments r0)\<rparr>"
    "admitted_dimensions (ar_schema r) = Some ds" "re_digest (ar_context r)" "re_digest (ar_acceptance r)"
    "length (ar_findings r) \<le> 64" "distinct (map fi_id (ar_findings r))"
    "bounded_text MAX_TEXT_BYTES (ar_summary r)"
    "valid_assessments (ar_assessments r) (set (map fi_id (ar_findings r))) ds"
    "length (ar_assessments r) \<le> 9" "make_admitted_review r = Some r"
proof -
  obtain ds where ds: "admitted_dimensions (ar_schema r0) = Some ds"
    and ok: "re_digest (ar_context r0)" "re_digest (ar_acceptance r0)" "length (ar_findings r0) \<le> 64"
      "distinct (map fi_id (ar_findings r0))" "bounded_text MAX_TEXT_BYTES (ar_summary r0)"
      "valid_assessments (ar_assessments r0) (set (map fi_id (ar_findings r0))) ds"
    and r: "r = r0\<lparr>ar_assessments := sort_assessments (ar_assessments r0)\<rparr>"
    using assms by (auto simp: make_admitted_review_def bind_eq_Some_conv split: if_splits)
  have len: "length (ar_assessments r) \<le> 9"
    using ok(6) versioned_dimensions_Some(3)[OF ds[unfolded admitted_dimensions_def]]
    by (simp add: r valid_assessments_def)
  have eta: "r\<lparr>ar_assessments := sort_assessments (ar_assessments r)\<rparr> = r" by (simp add: r)
  have "make_admitted_review r = Some r"
    using ds ok eta unfolding make_admitted_review_def by (simp add: r)
  with ds ok len r show ?thesis by (intro that) simp_all
qed

lemma valid_assessments_dimensions:
  assumes "valid_assessments as F ds" "distinct ds"
  shows "distinct (map ea_dimension as)" "set (map ea_dimension as) = set ds"
proof -
  show set: "set (map ea_dimension as) = set ds" using assms(1) by (simp add: valid_assessments_def)
  have "card (set (map ea_dimension as)) = length (map ea_dimension as)"
    unfolding set using assms by (simp add: valid_assessments_def distinct_card)
  then show "distinct (map ea_dimension as)" by (rule card_distinct)
qed

lemma admit_review_Some:
  assumes "admit_review x p = Some r"
  shows "rp_context p = review_context_digest x" "review_contracts_align (rx_schema x) (rp_schema p)"
    "citations_fit_evidence (cited p) (rx_evidence x)"
    "make_admitted_review \<lparr>ar_context = review_context_digest x,
       ar_acceptance = review_acceptance_digest (rx_acceptance x), ar_findings = rp_findings p,
       ar_summary = rp_summary p, ar_assessments = rp_assessments p,
       ar_schema = (if rp_schema p = PRIOR_REVIEW_PROPOSAL_SCHEMA then PRIOR_ADMITTED_REVIEW_SCHEMA
         else ADMITTED_REVIEW_SCHEMA)\<rparr> = Some r"
  using assms by (auto simp: admit_review_def split: if_splits)

lemma find_id: "List.find (\<lambda>e. re_id e = i) es = Some e \<Longrightarrow> e \<in> set es \<and> re_id e = i"
  by (auto simp: find_Some_iff)

text \<open>A citation points into evidence of the context.\<close>

definition grounded :: "review_evidence list \<Rightarrow> citation \<Rightarrow> bool" where
  "grounded evidence c \<longleftrightarrow> (\<exists>e\<in>set evidence. re_id e = ci_evidence c
     \<and> re_start e \<le> ci_start c \<and> ci_end c \<le> re_end e)"

lemma citations_fit_grounded:
  assumes "citations_fit_evidence cs evidence" "c \<in> set cs"
  shows "grounded evidence c"
  using assms find_id[of "ci_evidence c" evidence]
  by (fastforce simp: citations_fit_evidence_def list_all_iff grounded_def split: option.splits)

lemma admitted_readback:
  assumes "make_admitted_review r0 = Some r" "list_all finding_wf (ar_findings r)"
    "list_all assessment_wf (ar_assessments r)"
  shows "admitted_review_from_mapping (admitted_review_payload r) = Some r"
proof -
  obtain ds where r: "admitted_dimensions (ar_schema r) = Some ds" "length (ar_findings r) \<le> 64"
    "length (ar_assessments r) \<le> 9" "make_admitted_review r = Some r"
    using make_admitted_review_Some[OF assms(1)] by metis
  have "traverse finding_from_mapping (map finding_payload (ar_findings r)) = Some (ar_findings r)"
    using assms(2) by (intro traverse_map) (auto simp: list_all_iff finding_readback)
  moreover have "traverse assessment_from_mapping (map assessment_payload (ar_assessments r)) = Some (ar_assessments r)"
    using assms(3) by (intro traverse_map) (auto simp: list_all_iff assessment_readback)
  moreover have eta: "\<lparr>ar_context = ar_context r, ar_acceptance = ar_acceptance r, ar_findings = ar_findings r,
      ar_summary = ar_summary r, ar_assessments = ar_assessments r, ar_schema = ar_schema r\<rparr> = r"
    by (cases r) simp
  moreover have "ar_schema r \<in> {ADMITTED_REVIEW_SCHEMA, PRIOR_ADMITTED_REVIEW_SCHEMA}"
    using versioned_dimensions_Some(1) r(1) unfolding admitted_dimensions_def by blast
  ultimately show ?thesis
    using r(2-4)
    by (simp add: admitted_review_from_mapping_def admitted_review_payload_def keys_are_def insert_commute
        jget_def[of "(_, _) # _"] as_str_def eta)
qed

lemma proposal_readback:
  assumes "make_review_proposal p0 = Some p" "list_all finding_wf (rp_findings p)"
    "list_all assessment_wf (rp_assessments p)"
  shows "review_proposal_from_mapping (review_proposal_payload p) = Some p"
proof -
  obtain ds where p: "proposal_dimensions (rp_schema p) = Some ds" "length (rp_findings p) \<le> 64"
    "length (rp_assessments p) \<le> 9" "make_review_proposal p = Some p"
    using make_review_proposal_Some[OF assms(1)] by metis
  have "traverse finding_from_mapping (map finding_payload (rp_findings p)) = Some (rp_findings p)"
    using assms(2) by (intro traverse_map) (auto simp: list_all_iff finding_readback)
  moreover have "traverse assessment_from_mapping (map assessment_payload (rp_assessments p)) = Some (rp_assessments p)"
    using assms(3) by (intro traverse_map) (auto simp: list_all_iff assessment_readback)
  moreover have eta: "\<lparr>rp_context = rp_context p, rp_findings = rp_findings p, rp_summary = rp_summary p,
      rp_assessments = rp_assessments p, rp_schema = rp_schema p\<rparr> = p"
    by (cases p) simp
  moreover have "rp_schema p \<in> {REVIEW_PROPOSAL_SCHEMA, PRIOR_REVIEW_PROPOSAL_SCHEMA}"
    using versioned_dimensions_Some(1) p(1) unfolding proposal_dimensions_def by blast
  ultimately show ?thesis
    using p(2-4)
    by (simp add: review_proposal_from_mapping_def review_proposal_payload_def keys_are_def insert_commute
        jget_def[of "(_, _) # _"] as_str_def eta)
qed

end
