(* ===== verification/JsonBound.thy ===== *)
theory JsonBound
  imports JsonSize
begin

text \<open>An upper bound on the canonical bytes of a whole value, computed along its structure.\<close>

fun json_bound :: "json \<Rightarrow> nat" where
  "json_bound JNull = 4"
| "json_bound (JBool b) = 5"
| "json_bound (JInt i) = nat \<bar>i\<bar> + 2"
| "json_bound (JFloat v r) = 2 * length r"
| "json_bound (JStr s) = 6 * length s + 2"
| "json_bound (JArr xs) = 2 + sum_list (map (\<lambda>x. json_bound x + 1) xs)"
| "json_bound (JObj kvs) = 2 + sum_list (map (\<lambda>kv. 6 * length (fst kv) + 4 + json_bound (snd kv)) kvs)"

lemma nat_repr_length: "length (nat_repr n) \<le> n + 1"
proof (induction n rule: nat_repr.induct)
  case (1 n)
  show ?case
  proof (cases "n < 10")
    case False
    then have "n div 10 + 2 \<le> n + 1" by simp
    with 1[OF False] False show ?thesis by (subst nat_repr.simps) simp
  qed (simp add: nat_repr.simps[of n])
qed

lemma utf8_length_le: "length (utf8_encode s) \<le> 2 * length s"
proof (induction s)
  case (Cons c s)
  then show ?case using length_utf8_char[of c] by (simp add: utf8_encode_Cons)
qed simp

lemma json_size_bound: "json_size j \<le> json_bound j"
proof (induction j rule: json_induct)
  case (JInt i)
  have "length (utf8_encode (int_repr i)) \<le> length (int_repr i)"
  proof -
    have "list_all (\<lambda>c. code c < 128) (int_repr i)"
      using nat_repr_digits[of "nat i"] nat_repr_digits[of "nat (- i)"]
      by (auto simp: int_repr_def list_all_iff is_digit_def code_def)
    then show ?thesis using length_utf8_ascii by simp
  qed
  also have "length (int_repr i) \<le> nat \<bar>i\<bar> + 2"
    using nat_repr_length[of "nat i"] nat_repr_length[of "nat (- i)"] by (simp add: int_repr_def)
  finally show ?case by (simp add: json_size_def json_bytes_def)
next
  case (JFloat v r)
  then show ?case using utf8_length_le[of r] by (simp add: json_size_def json_bytes_def)
next
  case (JArr xs)
  have "sum_list (map (\<lambda>x. json_size x + 1) xs) \<le> sum_list (map (\<lambda>x. json_bound x + 1) xs)"
    by (rule sum_list_mono) (use JArr in simp)
  then show ?case using json_size_arr[of xs] by simp
next
  case (JObj kvs)
  have "sum_list (map (\<lambda>kv. 6 * length (fst kv) + 4 + json_size (snd kv)) kvs)
      \<le> sum_list (map (\<lambda>kv. 6 * length (fst kv) + 4 + json_bound (snd kv)) kvs)"
    by (rule sum_list_mono) (use JObj in simp)
  then show ?case using json_size_obj[of kvs] by simp
qed (use json_size_atoms in simp_all)

lemma json_size_within: "json_bound j \<le> n \<Longrightarrow> length (json_bytes j) \<le> n"
  using json_size_bound[of j] by (simp add: json_size_def)

end
