(* ===== verification/ReviewSample.thy ===== *)
theory ReviewSample
  imports AdmissionFacts JsonBound
begin

text \<open>A concrete acceptance, context, proposal and admitted review for the witnesses.\<close>

lemma length_json_digest [simp]: "length (json_digest j) = 71"
  by (simp add: json_digest_def)

definition sample_check :: review_check where
  "sample_check = \<lparr>rc_id = ''c1'', rc_argv = [''true''], rc_exit = 0, rc_command = bytes_digest ''c'',
     rc_result = bytes_digest ''r'', rc_passed = True\<rparr>"

definition sample_node :: "string \<Rightarrow> string list \<Rightarrow> review_node" where
  "sample_node i deps = \<lparr>rn_id = i, rn_objective = ''o'', rn_depends_on = deps,
     rn_effects = [''repository-read''], rn_allowed = [], rn_max_changed = 0, rn_checks = [sample_check]\<rparr>"

definition sample_acceptance :: review_acceptance where
  "sample_acceptance = \<lparr>ra_run_id = ''run'', ra_project_id = ''p'', ra_intent_id = ''i'', ra_plan_id = ''plan'',
     ra_objective = ''o'', ra_constraints = [''k''], ra_base = replicate 40 (CHR ''a''),
     ra_nodes = [sample_node ''a'' []], ra_schema = REVIEW_ACCEPTANCE_SCHEMA\<rparr>"

lemma sample_texts:
  "stage_identifier ''run''" "stage_identifier ''p''" "stage_identifier ''i''" "stage_identifier ''plan''"
  "stage_identifier ''a''" "stage_identifier ''c1''" "stage_identifier ''f1''"
  "bounded_text 4096 ''o''" "bounded_text 8192 ''o''" "bounded_text 4096 ''k''" "bounded_text 4096 ''s''"
  "commit_id (replicate 40 (CHR ''a''))"
  by code_simp+

lemma sample_check_ok: "review_check_ok sample_check"
  using sample_texts by (simp add: review_check_ok_def sample_check_def utf8_length_def code_def)

lemma sample_node_made: "make_review_node (sample_node ''a'' []) = Some (sample_node ''a'' [])"
  using sample_texts
  by (simp add: make_review_node_def sample_node_def Let_def MAX_TEXT_BYTES_def unique_identifiers_def)

lemma sample_acceptance_bound:
  "json_bound (JObj (review_acceptance_payload sample_acceptance)) \<le> 10000"
  by (simp add: review_acceptance_payload_def sample_acceptance_def review_node_payload_def sample_node_def
      review_check_payload_def sample_check_def strings_def REVIEW_ACCEPTANCE_SCHEMA_def)

lemma sample_acceptance_made: "make_review_acceptance sample_acceptance = Some sample_acceptance"
proof -
  have "sample_acceptance\<lparr>ra_nodes := ra_nodes sample_acceptance\<rparr> = sample_acceptance" by simp
  moreover have "sort_key rn_id (ra_nodes sample_acceptance) = ra_nodes sample_acceptance"
    by (simp add: sample_acceptance_def)
  moreover have "\<not> has_dependency_cycle (ra_nodes sample_acceptance)"
    by (simp add: has_dependency_cycle_def sample_acceptance_def sample_node_def cycle_loop.simps)
  moreover have "length (json_bytes (JObj (review_acceptance_payload sample_acceptance))) \<le> 2 * 1024 * 1024"
    by (rule json_size_within) (rule order_trans[OF sample_acceptance_bound], simp)
  moreover have "ra_schema sample_acceptance = REVIEW_ACCEPTANCE_SCHEMA
       \<and> list_all stage_identifier [ra_run_id sample_acceptance, ra_project_id sample_acceptance,
           ra_intent_id sample_acceptance, ra_plan_id sample_acceptance]
       \<and> bounded_text (8 * 1024) (ra_objective sample_acceptance) \<and> length (ra_constraints sample_acceptance) \<le> 64
       \<and> distinct (ra_constraints sample_acceptance)
       \<and> list_all (bounded_text MAX_TEXT_BYTES) (ra_constraints sample_acceptance)
       \<and> commit_id (ra_base sample_acceptance) \<and> 1 \<le> length (ra_nodes sample_acceptance)
       \<and> length (ra_nodes sample_acceptance) \<le> 64
       \<and> distinct (map rn_id (ra_nodes sample_acceptance))
       \<and> list_all (\<lambda>n. set (rn_depends_on n) \<subseteq> set (map rn_id (ra_nodes sample_acceptance))) (ra_nodes sample_acceptance)"
    using sample_texts by (simp add: sample_acceptance_def MAX_TEXT_BYTES_def sample_node_def)
  ultimately show ?thesis unfolding make_review_acceptance_def Let_def by simp
qed

definition sample_outcome :: review_evidence where
  "sample_outcome = (let e = \<lparr>re_kind = OutcomeEvidence, re_node_id = ''a'', re_artifact = bytes_digest ''x'',
     re_excerpt = ''ok'', re_start = 1, re_path = None, re_check_id = None, re_operation = None,
     re_end = 1, re_id = []\<rparr> in e\<lparr>re_id := json_digest (JObj (evidence_identity e))\<rparr>)"

lemma sample_outcome_made: "make_review_evidence sample_outcome = Some sample_outcome"
proof -
  have "splitlines ''ok'' = [''ok'']" "utf8_length ''ok'' = 2" by code_simp+
  then show ?thesis
    using sample_texts
    by (simp add: make_review_evidence_def sample_outcome_def Let_def MAX_LINE_def evidence_identity_def)
qed

definition sample_context :: review_context where
  "sample_context = \<lparr>rx_acceptance = sample_acceptance, rx_state = bytes_digest ''s'',
     rx_artifact_evidence = bytes_digest ''e'', rx_evidence = [sample_outcome], rx_schema = REVIEW_CONTEXT_SCHEMA\<rparr>"

lemma sample_context_made: "make_review_context sample_context = Some sample_context"
proof -
  have "json_bound (JObj (review_context_payload sample_context)) \<le> 30000"
    using sample_acceptance_bound
    by (simp add: review_context_payload_def sample_context_def review_acceptance_digest_def
        sample_outcome_def Let_def evidence_payload_def evidence_identity_def strings_def opt_str_def
        FINDING_CATEGORIES_def DISPOSITIONS_def context_dimensions_def versioned_dimensions_def
        EPISTEMIC_DIMENSIONS_def PRIOR_EPISTEMIC_DIMENSIONS_def REVIEW_CONTEXT_SCHEMA_def)
  then have "length (json_bytes (JObj (review_context_payload sample_context))) \<le> 3 * 1024 * 1024"
    by (intro json_size_within) simp
  moreover have "sample_context\<lparr>rx_evidence := rx_evidence sample_context\<rparr> = sample_context" by simp
  moreover have "utf8_length ''ok'' = 2" by code_simp
  moreover have "evidence_in_plan (ra_nodes sample_acceptance) sample_outcome"
    by (simp add: evidence_in_plan_def sample_acceptance_def sample_node_def sample_outcome_def Let_def)
  ultimately show ?thesis
    by (simp add: make_review_context_def Let_def) (simp add: sample_context_def, simp add: sample_outcome_def Let_def)
qed

section \<open>A proposal with one finding\<close>

definition sample_citation :: citation where
  "sample_citation = \<lparr>ci_evidence = re_id sample_outcome, ci_start = 1, ci_end = 1\<rparr>"

definition sample_finding :: finding where
  "sample_finding = \<lparr>fi_id = ''f1'', fi_category = ScopeDrift, fi_severity = Low, fi_claim = ''k'',
     fi_impact = ''k'', fi_recommendation = ''k'', fi_citations = [sample_citation]\<rparr>"

definition sample_assessment :: "epistemic_dimension \<Rightarrow> assessment" where
  "sample_assessment d = \<lparr>ea_dimension = d,
     ea_disposition = (if d = ScopeChallenge then Concern else Supported), ea_claim = ''k'', ea_question = ''k'',
     ea_citations = [sample_citation], ea_finding_ids = (if d = ScopeChallenge then [''f1''] else [])\<rparr>"

definition sample_review :: review_proposal where
  "sample_review = \<lparr>rp_context = review_context_digest sample_context, rp_findings = [sample_finding],
     rp_summary = ''s'', rp_assessments = map sample_assessment [AcceptanceCoverage, CausalOverreach,
       Counterevidence, EvidenceGrounding, IndependentCorroboration, OrderSensitivity,
       ProvenanceFreshness, ScopeChallenge, Uncertainty], rp_schema = REVIEW_PROPOSAL_SCHEMA\<rparr>"

lemma sample_citation_ok: "citation_ok sample_citation"
  by (simp add: citation_ok_def sample_citation_def sample_outcome_def Let_def MAX_LINE_def)

lemma sample_finding_wf: "finding_wf sample_finding"
  using sample_texts sample_citation_ok
  by (simp add: finding_wf_def finding_ok_def sample_finding_def MAX_TEXT_BYTES_def)

lemma sample_assessment_wf: "assessment_wf (sample_assessment d)"
proof -
  have "make_assessment (sample_assessment d) = Some (sample_assessment d)"
    using sample_texts
    by (simp add: make_assessment_def sample_assessment_def MAX_TEXT_BYTES_def unique_identifiers_def)
  then show ?thesis using sample_citation_ok by (auto simp: assessment_wf_def) (simp add: sample_assessment_def)
qed

lemma sample_assessments_sorted: "sort_assessments (rp_assessments sample_review) = rp_assessments sample_review"
  by (simp add: sort_assessments_def sample_review_def sample_assessment_def)

lemma sample_valid_assessments:
  "valid_assessments (rp_assessments sample_review) {''f1''} EPISTEMIC_DIMENSIONS"
  by (auto simp: valid_assessments_def sample_review_def sample_assessment_def EPISTEMIC_DIMENSIONS_def
      PRIOR_EPISTEMIC_DIMENSIONS_def)

lemma sample_review_made: "make_review_proposal sample_review = Some sample_review"
proof -
  have "json_bound (JObj (review_proposal_payload sample_review)) \<le> 60000"
    by (simp add: review_proposal_payload_def sample_review_def review_context_digest_def finding_payload_def
        sample_finding_def citation_payload_def sample_citation_def sample_outcome_def Let_def
        assessment_payload_def sample_assessment_def strings_def REVIEW_PROPOSAL_SCHEMA_def)
  then have "length (json_bytes (JObj (review_proposal_payload sample_review))) \<le> 1024 * 1024"
    by (intro json_size_within) simp
  moreover have "sample_review\<lparr>rp_assessments := rp_assessments sample_review\<rparr> = sample_review" by simp
  moreover have "proposal_dimensions (rp_schema sample_review) = Some EPISTEMIC_DIMENSIONS"
    by (simp add: proposal_dimensions_def versioned_dimensions_def sample_review_def)
  moreover have "re_digest (rp_context sample_review)" "map fi_id (rp_findings sample_review) = [''f1'']"
    "bounded_text MAX_TEXT_BYTES (rp_summary sample_review)" "length (rp_findings sample_review) \<le> 64"
    using sample_texts
    by (simp_all add: sample_review_def review_context_digest_def sample_finding_def MAX_TEXT_BYTES_def)
  ultimately show ?thesis
    using sample_valid_assessments sample_assessments_sorted by (simp add: make_review_proposal_def Let_def)
qed

lemma sample_review_wf: "review_proposal_wf sample_review"
proof -
  have "list_all finding_wf (rp_findings sample_review)" "list_all assessment_wf (rp_assessments sample_review)"
    using sample_finding_wf sample_assessment_wf by (simp_all add: sample_review_def)
  with sample_review_made show ?thesis by (auto simp: review_proposal_wf_def)
qed

definition sample_admitted :: admitted_review where
  "sample_admitted = \<lparr>ar_context = review_context_digest sample_context,
     ar_acceptance = review_acceptance_digest sample_acceptance, ar_findings = rp_findings sample_review,
     ar_summary = ''s'', ar_assessments = rp_assessments sample_review, ar_schema = ADMITTED_REVIEW_SCHEMA\<rparr>"

lemma sample_admission: "admit_review sample_context sample_review = Some sample_admitted"
proof -
  have fit: "citations_fit_evidence (cited sample_review) (rx_evidence sample_context)"
    by (simp add: citations_fit_evidence_def cited_def sample_review_def sample_finding_def
        sample_assessment_def sample_context_def sample_citation_def sample_outcome_def Let_def)
  have "rp_context sample_review = review_context_digest sample_context"
    "rp_schema sample_review = REVIEW_PROPOSAL_SCHEMA" "rx_schema sample_context = REVIEW_CONTEXT_SCHEMA"
    "rp_summary sample_review = ''s''" "rx_acceptance sample_context = sample_acceptance"
    by (simp_all add: sample_review_def sample_context_def)
  moreover have "make_admitted_review sample_admitted = Some sample_admitted"
  proof -
    have "sample_admitted\<lparr>ar_assessments := ar_assessments sample_admitted\<rparr> = sample_admitted" by simp
    moreover have "ar_assessments sample_admitted = rp_assessments sample_review"
      "map fi_id (ar_findings sample_admitted) = [''f1'']" "bounded_text MAX_TEXT_BYTES (ar_summary sample_admitted)"
      "length (ar_findings sample_admitted) \<le> 64"
      "re_digest (ar_context sample_admitted)" "re_digest (ar_acceptance sample_admitted)"
      "admitted_dimensions (ar_schema sample_admitted) = Some EPISTEMIC_DIMENSIONS"
      using sample_texts
      by (simp_all add: sample_admitted_def sample_review_def sample_finding_def review_context_digest_def
          review_acceptance_digest_def MAX_TEXT_BYTES_def admitted_dimensions_def versioned_dimensions_def)
    ultimately show ?thesis
      using sample_valid_assessments sample_assessments_sorted by (simp add: make_admitted_review_def)
  qed
  moreover have "REVIEW_PROPOSAL_SCHEMA \<noteq> PRIOR_REVIEW_PROPOSAL_SCHEMA"
    by (simp add: REVIEW_PROPOSAL_SCHEMA_def PRIOR_REVIEW_PROPOSAL_SCHEMA_def)
  ultimately show ?thesis
    using fit by (simp add: admit_review_def review_contracts_align_def sample_admitted_def)
qed

end
