(* ===== verification/AdmissionProps.thy ===== *)
theory AdmissionProps
  imports ReviewSample
begin

text \<open>Properties of the review contracts.\<close>

text \<open>
  The dependency check of an acceptance is exact. For nodes with distinct identifiers and known
  dependencies it answers, and finds a cycle exactly when the dependency relation has one.
\<close>
theorem dependency_cycle_exact:
  assumes "distinct (map rn_id nodes)" "\<forall>n\<in>set nodes. set (rn_depends_on n) \<subseteq> set (map rn_id nodes)"
  shows "has_dependency_cycle nodes
    \<longleftrightarrow> \<not> acyclic {(d, i). \<exists>n\<in>set nodes. i = rn_id n \<and> d \<in> set (rn_depends_on n)}"
proof -
  let ?pairs = "map (\<lambda>n. (rn_id n, rn_depends_on n)) nodes"
  have edges: "pair_edges ?pairs = {(d, i). \<exists>n\<in>set nodes. i = rn_id n \<and> d \<in> set (rn_depends_on n)}"
    by (auto simp: pair_edges_def)
  have "cycle_loop ?pairs \<longleftrightarrow> \<not> acyclic (pair_edges ?pairs)"
  proof (rule cycle_loop_exact)
    show "distinct (map fst ?pairs)" using assms(1) by (simp add: comp_def)
    show "\<forall>(i, ds)\<in>set ?pairs. set ds \<subseteq> fst ` set ?pairs" using assms(2) by (auto simp: image_image)
  qed
  then show ?thesis unfolding has_dependency_cycle_def edges .
qed

theorem dependency_cycle_exact_witness:
  "has_dependency_cycle [sample_node ''a'' [''b''], sample_node ''b'' [''a'']]
   \<and> \<not> acyclic {(d, i). \<exists>n\<in>set [sample_node ''a'' [''b''], sample_node ''b'' [''a'']].
       i = rn_id n \<and> d \<in> set (rn_depends_on n)}"
proof -
  have "has_dependency_cycle [sample_node ''a'' [''b''], sample_node ''b'' [''a'']]"
    by (simp add: has_dependency_cycle_def sample_node_def cycle_loop.simps)
  then show ?thesis
    using dependency_cycle_exact[of "[sample_node ''a'' [''b''], sample_node ''b'' [''a'']]"]
    by (simp add: sample_node_def)
qed

section \<open>Admission\<close>

text \<open>
  C12: Admission only lets grounded reviews through. An admitted review is bound to the digests of
  the context and its acceptance, takes the findings and assessments over unchanged, assesses
  every dimension of its contract version exactly once, every citation in it lies inside the
  lines of evidence of the context, and it has a finding exactly when some dimension is a concern.
\<close>
theorem admit_review_grounded:
  assumes "admit_review x p = Some r" "review_proposal_wf p"
  shows "ar_context r = review_context_digest x \<and> ar_acceptance r = review_acceptance_digest (rx_acceptance x)
    \<and> ar_findings r = rp_findings p \<and> set (ar_assessments r) = set (rp_assessments p)
    \<and> distinct (map ea_dimension (ar_assessments r))
    \<and> context_dimensions (rx_schema x) \<noteq> None
    \<and> set (map ea_dimension (ar_assessments r)) = set (the (context_dimensions (rx_schema x)))
    \<and> (\<forall>c\<in>set (cited p). grounded (rx_evidence x) c)
    \<and> (ar_findings r \<noteq> [] \<longleftrightarrow> (\<exists>a\<in>set (ar_assessments r). ea_disposition a = Concern))"
proof -
  note admit = admit_review_Some[OF assms(1)]
  obtain ds where r: "admitted_dimensions (ar_schema r) = Some ds"
    "valid_assessments (ar_assessments r) (set (map fi_id (ar_findings r))) ds"
    and rec: "r = \<lparr>ar_context = review_context_digest x,
       ar_acceptance = review_acceptance_digest (rx_acceptance x), ar_findings = rp_findings p,
       ar_summary = rp_summary p, ar_assessments = sort_assessments (rp_assessments p),
       ar_schema = (if rp_schema p = PRIOR_REVIEW_PROPOSAL_SCHEMA then PRIOR_ADMITTED_REVIEW_SCHEMA
         else ADMITTED_REVIEW_SCHEMA)\<rparr>"
    by (rule make_admitted_review_Some[OF admit(4)]) simp
  have fields: "ar_context r = review_context_digest x" "ar_findings r = rp_findings p"
    "ar_acceptance r = review_acceptance_digest (rx_acceptance x)"
    "set (ar_assessments r) = set (rp_assessments p)"
    "ar_schema r = (if rp_schema p = PRIOR_REVIEW_PROPOSAL_SCHEMA then PRIOR_ADMITTED_REVIEW_SCHEMA
         else ADMITTED_REVIEW_SCHEMA)"
    unfolding rec by simp_all
  have "distinct ds" using versioned_dimensions_Some(4) r(1) unfolding admitted_dimensions_def by blast
  note dims = valid_assessments_dimensions[OF r(2) this]
  have versions: "context_dimensions (rx_schema x) = Some ds"
    using admit(2) r(1)
    by (auto simp: review_contracts_align_def fields(5) admitted_dimensions_def context_dimensions_def
        versioned_dimensions_def PRIOR_REVIEW_PROPOSAL_SCHEMA_def REVIEW_PROPOSAL_SCHEMA_def
        PRIOR_REVIEW_CONTEXT_SCHEMA_def REVIEW_CONTEXT_SCHEMA_def PRIOR_ADMITTED_REVIEW_SCHEMA_def
        ADMITTED_REVIEW_SCHEMA_def)
  have linked: "set (concat (map ea_finding_ids (ar_assessments r))) = set (map fi_id (ar_findings r))"
    using r(2) by (simp add: valid_assessments_def)
  have concern: "ea_disposition a = Concern \<longleftrightarrow> ea_finding_ids a \<noteq> []" if "a \<in> set (ar_assessments r)" for a
  proof -
    have "assessment_wf a" using assms(2) that fields(4) by (simp add: review_proposal_wf_def list_all_iff)
    then show ?thesis using make_assessment_Some(4) by (auto simp: assessment_wf_def)
  qed
  have "ar_findings r \<noteq> [] \<longleftrightarrow> set (concat (map ea_finding_ids (ar_assessments r))) \<noteq> {}"
    unfolding linked by simp
  also have "\<dots> \<longleftrightarrow> (\<exists>a\<in>set (ar_assessments r). ea_finding_ids a \<noteq> [])" by auto
  also have "\<dots> \<longleftrightarrow> (\<exists>a\<in>set (ar_assessments r). ea_disposition a = Concern)" using concern by blast
  finally show ?thesis
    using fields(1-4) dims versions citations_fit_grounded[OF admit(3)] by auto
qed

theorem admit_review_grounded_witness:
  "admit_review sample_context sample_review = Some sample_admitted
   \<and> grounded (rx_evidence sample_context) sample_citation
   \<and> set (map ea_dimension (ar_assessments sample_admitted)) = set (the (context_dimensions REVIEW_CONTEXT_SCHEMA))"
proof -
  have "sample_citation \<in> set (cited sample_review)" by (simp add: cited_def sample_review_def sample_finding_def)
  moreover have "rx_schema sample_context = REVIEW_CONTEXT_SCHEMA" by (simp add: sample_context_def)
  ultimately show ?thesis
    using admit_review_grounded[OF sample_admission sample_review_wf] sample_admission by metis
qed

text \<open>
  Review documents survive their durable payloads: a valid proposal and the review admitted
  from it read back from the payloads the runtime stores.
\<close>
theorem review_payload_roundtrip:
  assumes "review_proposal_wf p"
  shows "review_proposal_from_mapping (review_proposal_payload p) = Some p
    \<and> (\<forall>r. admit_review x p = Some r \<longrightarrow>
        admitted_review_from_mapping (admitted_review_payload r) = Some r)"
proof -
  obtain p0 where p0: "make_review_proposal p0 = Some p"
    and wf: "list_all finding_wf (rp_findings p)" "list_all assessment_wf (rp_assessments p)"
    using assms by (auto simp: review_proposal_wf_def)
  have "admitted_review_from_mapping (admitted_review_payload r) = Some r" if "admit_review x p = Some r" for r
  proof (rule admitted_readback[OF admit_review_Some(4)[OF that]])
    from make_admitted_review_Some[OF admit_review_Some(4)[OF that]]
    obtain s where "r = \<lparr>ar_context = review_context_digest x,
       ar_acceptance = review_acceptance_digest (rx_acceptance x), ar_findings = rp_findings p,
       ar_summary = rp_summary p, ar_assessments = sort_assessments (rp_assessments p), ar_schema = s\<rparr>"
      by (metis (no_types, lifting) admitted_review.simps(5) admitted_review.update_convs(5))
    then show "list_all finding_wf (ar_findings r)" "list_all assessment_wf (ar_assessments r)"
      using wf by (simp_all add: list_all_iff)
  qed
  with proposal_readback[OF p0 wf] show ?thesis by blast
qed

theorem review_payload_roundtrip_witness:
  "review_proposal_from_mapping (review_proposal_payload sample_review) = Some sample_review
   \<and> admitted_review_from_mapping (admitted_review_payload sample_admitted) = Some sample_admitted"
  using review_payload_roundtrip[OF sample_review_wf, of sample_context] sample_admission by blast

end
