(* ===== verification/Verify.thy ===== *)
theory Verify
  imports ReviewAdmission Verdict
begin

text \<open>
  \<open>orchestration/verification.py\<close>: the matrix rows with their reason codes, the deterministic
  verdict over an admitted review and the durable report. Rows and reports raise one content-free
  code (invalid input) and are options; \<open>verify_review\<close> has two more codes.
\<close>

section \<open>Vocabularies\<close>

datatype criterion_kind = Objective | Constraint | NodeCriterion | WriteScope | CheckCriterion
  | ReviewPolicy | EpistemicPolicy

datatype reason_code = EvidenceComplete | ReviewClear | UnresolvedReviewFinding | NodeOutcomeMissing
  | EvidenceAmbiguous | CheckEvidenceMissing | EvidenceIdentityMismatch | CheckFailed
  | ChangeEvidenceMissing | EpistemicCoverageComplete | EpistemicNotApplicable | EpistemicConcern
  | EpistemicUnknown

datatype verification_error = InvalidInput | BindingMismatch | CitationMismatch

fun criterion_kind_value :: "criterion_kind \<Rightarrow> string" where
  "criterion_kind_value Objective = ''objective''"
| "criterion_kind_value Constraint = ''constraint''"
| "criterion_kind_value NodeCriterion = ''node''"
| "criterion_kind_value WriteScope = ''write-scope''"
| "criterion_kind_value CheckCriterion = ''check''"
| "criterion_kind_value ReviewPolicy = ''review-policy''"
| "criterion_kind_value EpistemicPolicy = ''epistemic-policy''"

fun reason_code_value :: "reason_code \<Rightarrow> string" where
  "reason_code_value EvidenceComplete = ''evidence-complete''"
| "reason_code_value ReviewClear = ''review-clear''"
| "reason_code_value UnresolvedReviewFinding = ''unresolved-review-finding''"
| "reason_code_value NodeOutcomeMissing = ''node-outcome-missing''"
| "reason_code_value EvidenceAmbiguous = ''evidence-ambiguous''"
| "reason_code_value CheckEvidenceMissing = ''check-evidence-missing''"
| "reason_code_value EvidenceIdentityMismatch = ''evidence-identity-mismatch''"
| "reason_code_value CheckFailed = ''check-failed''"
| "reason_code_value ChangeEvidenceMissing = ''change-evidence-missing''"
| "reason_code_value EpistemicCoverageComplete = ''epistemic-coverage-complete''"
| "reason_code_value EpistemicNotApplicable = ''epistemic-not-applicable''"
| "reason_code_value EpistemicConcern = ''epistemic-concern''"
| "reason_code_value EpistemicUnknown = ''epistemic-unknown''"

definition CRITERION_KINDS :: "criterion_kind list" where
  "CRITERION_KINDS = [Objective, Constraint, NodeCriterion, WriteScope, CheckCriterion, ReviewPolicy,
     EpistemicPolicy]"

definition REASON_CODES :: "reason_code list" where
  "REASON_CODES = [EvidenceComplete, ReviewClear, UnresolvedReviewFinding, NodeOutcomeMissing,
     EvidenceAmbiguous, CheckEvidenceMissing, EvidenceIdentityMismatch, CheckFailed,
     ChangeEvidenceMissing, EpistemicCoverageComplete, EpistemicNotApplicable, EpistemicConcern,
     EpistemicUnknown]"

section \<open>Statuses\<close>

definition status_for_reasons :: "reason_code list \<Rightarrow> verification_status" where
  "status_for_reasons reasons =
     (if list_ex (\<lambda>r. r \<in> {UnresolvedReviewFinding, EvidenceIdentityMismatch, CheckFailed,
          EpistemicConcern}) reasons then VFail
      else if list_ex (\<lambda>r. r \<in> {NodeOutcomeMissing, EvidenceAmbiguous, CheckEvidenceMissing,
          ChangeEvidenceMissing, EpistemicUnknown}) reasons then VInconclusive
      else VPass)"

record matrix_row =
  vm_id :: string
  vm_kind :: criterion_kind
  vm_claim :: string
  vm_status :: verification_status
  vm_reasons :: "reason_code list"
  vm_evidence :: "string list"
  vm_findings :: "string list"
  vm_node :: "string option"
  vm_check :: "string option"

definition aggregate_status :: "matrix_row list \<Rightarrow> verification_status" where
  "aggregate_status matrix =
     (if list_ex (\<lambda>r. vm_status r = VFail) matrix then VFail
      else if list_ex (\<lambda>r. vm_status r = VInconclusive) matrix then VInconclusive
      else VPass)"

section \<open>Rows\<close>

definition EPISTEMIC_REASONS :: "reason_code set" where
  "EPISTEMIC_REASONS =
     {EpistemicCoverageComplete, EpistemicNotApplicable, EpistemicConcern, EpistemicUnknown}"

definition sort_reasons :: "reason_code list \<Rightarrow> reason_code list" where
  "sort_reasons rs = sort_key reason_code_value (remdups rs)"

text \<open>The conditions on the sorted reasons of a row.\<close>

definition reasons_consistent :: "criterion_kind \<Rightarrow> reason_code list \<Rightarrow> string list \<Rightarrow> bool" where
  "reasons_consistent kind reasons findings \<longleftrightarrow>
     (UnresolvedReviewFinding \<in> set reasons \<or> EpistemicConcern \<in> set reasons) = (findings \<noteq> [])
     \<and> \<not> (EvidenceComplete \<in> set reasons \<and> length reasons \<noteq> 1)
     \<and> \<not> (ReviewClear \<in> set reasons \<and> (length reasons \<noteq> 1 \<or> kind \<noteq> ReviewPolicy \<or> findings \<noteq> []))
     \<and> \<not> (kind = ReviewPolicy \<and> UnresolvedReviewFinding \<notin> set reasons \<and> ReviewClear \<notin> set reasons)
     \<and> \<not> (kind = EpistemicPolicy \<and> (length reasons \<noteq> 1 \<or> card (set reasons \<inter> EPISTEMIC_REASONS) \<noteq> 1))
     \<and> \<not> (kind \<noteq> EpistemicPolicy \<and> set reasons \<inter> EPISTEMIC_REASONS \<noteq> {})"

text \<open>\<open>VerificationMatrixRow.__post_init__\<close>.\<close>

definition make_matrix_row :: "matrix_row \<Rightarrow> matrix_row option" where
  "make_matrix_row r = do {
     ensure (stage_identifier (vm_id r) \<and> re_digest (vm_claim r) \<and> vm_reasons r \<noteq> []
       \<and> list_all re_digest (vm_evidence r) \<and> list_all stage_identifier (vm_findings r)
       \<and> (case vm_node r of None \<Rightarrow> True | Some i \<Rightarrow> stage_identifier i)
       \<and> (case vm_check r of None \<Rightarrow> True | Some i \<Rightarrow> stage_identifier i));
     ensure ((vm_kind r \<in> {NodeCriterion, WriteScope, CheckCriterion}) = (vm_node r \<noteq> None)
       \<and> (vm_kind r = CheckCriterion) = (vm_check r \<noteq> None));
     let reasons = sort_reasons (vm_reasons r); findings = sorted_set (vm_findings r) in do {
     ensure (reasons_consistent (vm_kind r) reasons findings);
     ensure (vm_status r = status_for_reasons reasons);
     Some (r\<lparr>vm_reasons := reasons, vm_evidence := sorted_set (vm_evidence r),
       vm_findings := findings\<rparr>) } }"

text \<open>\<open>_row\<close>, with the identifiers of the evidence and the findings.\<close>

definition verdict_row ::
    "string \<Rightarrow> criterion_kind \<Rightarrow> jobject \<Rightarrow> reason_code list \<Rightarrow> string list \<Rightarrow> string list
     \<Rightarrow> string option \<Rightarrow> string option \<Rightarrow> matrix_row option" where
  "verdict_row i kind claim reasons evidence findings node check_id =
     make_matrix_row \<lparr>vm_id = i, vm_kind = kind, vm_claim = json_digest (JObj claim),
       vm_status = status_for_reasons reasons, vm_reasons = reasons, vm_evidence = evidence,
       vm_findings = findings, vm_node = node, vm_check = check_id\<rparr>"

section \<open>Indexes\<close>

definition select_evidence ::
    "review_evidence list \<Rightarrow> evidence_kind \<Rightarrow> string \<Rightarrow> string option \<Rightarrow> review_evidence list" where
  "select_evidence evidence kind node check_id =
     filter (\<lambda>e. re_kind e = kind \<and> re_node_id e = node \<and> re_check_id e = check_id) evidence"

definition evidence_by_id :: "review_evidence list \<Rightarrow> string \<Rightarrow> review_evidence option" where
  "evidence_by_id evidence i = List.find (\<lambda>e. re_id e = i) evidence"

text \<open>A finding cites evidence with a property; the citations were validated before.\<close>

definition cites :: "review_evidence list \<Rightarrow> (review_evidence \<Rightarrow> bool) \<Rightarrow> finding \<Rightarrow> bool" where
  "cites evidence P f = list_ex (\<lambda>c. case evidence_by_id evidence (ci_evidence c) of
     None \<Rightarrow> False | Some e \<Rightarrow> P e) (fi_citations f)"

definition for_node :: "review_evidence list \<Rightarrow> finding list \<Rightarrow> string \<Rightarrow> finding list" where
  "for_node evidence findings node = filter (cites evidence (\<lambda>e. re_node_id e = node)) findings"

definition for_check :: "review_evidence list \<Rightarrow> finding list \<Rightarrow> string \<Rightarrow> string \<Rightarrow> finding list" where
  "for_check evidence findings node check_id =
     filter (cites evidence (\<lambda>e. re_node_id e = node \<and> re_check_id e = Some check_id)) findings"

definition scope_for_node :: "review_evidence list \<Rightarrow> finding list \<Rightarrow> string \<Rightarrow> finding list" where
  "scope_for_node evidence findings node =
     filter (\<lambda>f. fi_category f = ScopeDrift) (for_node evidence findings node)"

text \<open>\<open>f"{number:03d}"\<close>.\<close>

definition pad3 :: "nat \<Rightarrow> string" where
  "pad3 n = (let s = nat_repr n in replicate (3 - length s) (CHR ''0'') @ s)"

definition or_complete :: "reason_code list \<Rightarrow> reason_code list" where
  "or_complete reasons = (if reasons = [] then [EvidenceComplete] else reasons)"

section \<open>Check rows\<close>

definition CHECK_KINDS :: "evidence_kind list" where
  "CHECK_KINDS = [CheckCommand, CheckResult, CheckStdout, CheckStderr]"

definition check_reasons ::
    "review_node \<Rightarrow> review_check \<Rightarrow> review_evidence list \<Rightarrow> finding list \<Rightarrow> reason_code list" where
  "check_reasons n c evidence findings =
     (let sel = (\<lambda>k. select_evidence evidence k (rn_id n) (Some (rc_id c)));
          commands = sel CheckCommand; results = sel CheckResult in
      or_complete (
        (if list_ex (\<lambda>k. length (sel k) = 0) CHECK_KINDS then [CheckEvidenceMissing] else [])
        @ (if list_ex (\<lambda>k. length (sel k) > 1) CHECK_KINDS then [EvidenceAmbiguous] else [])
        @ (if length commands = 1 \<and> re_artifact (hd commands) \<noteq> rc_command c
              \<or> length results = 1 \<and> re_artifact (hd results) \<noteq> rc_result c
           then [EvidenceIdentityMismatch] else [])
        @ (if \<not> rc_passed c then [CheckFailed] else [])
        @ (if for_check evidence findings (rn_id n) (rc_id c) \<noteq> [] then [UnresolvedReviewFinding] else [])))"

definition check_row ::
    "nat \<Rightarrow> nat \<Rightarrow> review_node \<Rightarrow> review_check \<Rightarrow> review_evidence list \<Rightarrow> finding list
     \<Rightarrow> matrix_row option" where
  "check_row node_number check_number n c evidence findings =
     verdict_row (''check-'' @ pad3 node_number @ ''-'' @ pad3 check_number) CheckCriterion
       [(''kind'', JStr ''check''), (''node_id'', JStr (rn_id n)), (''check_id'', JStr (rc_id c)),
        (''argv'', strings (rc_argv c)), (''expected_exit_code'', JInt (rc_exit c)),
        (''command_digest'', JStr (rc_command c)), (''result_digest'', JStr (rc_result c))]
       (check_reasons n c evidence findings)
       (map re_id (concat (map (\<lambda>k. select_evidence evidence k (rn_id n) (Some (rc_id c))) CHECK_KINDS)))
       (map fi_id (for_check evidence findings (rn_id n) (rc_id c)))
       (Some (rn_id n)) (Some (rc_id c))"

section \<open>Write scope rows\<close>

definition CHANGE_KINDS :: "evidence_kind list" where
  "CHANGE_KINDS = [SourceBefore, SourceAfter, EffectEvidence]"

fun required_kinds :: "text_operation \<Rightarrow> evidence_kind list" where
  "required_kinds CreateText = [SourceAfter, EffectEvidence]"
| "required_kinds ReplaceText = CHANGE_KINDS"
| "required_kinds DeleteText = [SourceBefore, EffectEvidence]"

definition path_reasons :: "review_evidence list \<Rightarrow> string \<Rightarrow> reason_code list" where
  "path_reasons selected p =
     (let path_evidence = filter (\<lambda>e. re_path e = Some p) selected;
          operations = remdups (map re_operation path_evidence) in
      case operations of
        [Some operation] \<Rightarrow>
          (let counts = map (\<lambda>k. length (filter (\<lambda>e. re_kind e = k) path_evidence)) (required_kinds operation)
           in (if 0 \<in> set counts then [ChangeEvidenceMissing] else [])
              @ (if list_ex (\<lambda>n. n > 1) counts then [EvidenceAmbiguous] else []))
      | _ \<Rightarrow> [EvidenceAmbiguous])"

definition scope_selected :: "review_node \<Rightarrow> review_evidence list \<Rightarrow> review_evidence list" where
  "scope_selected n evidence = concat (map (\<lambda>k. select_evidence evidence k (rn_id n) None) CHANGE_KINDS)"

definition scope_reasons ::
    "review_node \<Rightarrow> review_evidence list \<Rightarrow> finding list \<Rightarrow> reason_code list" where
  "scope_reasons n evidence findings =
     (let selected = scope_selected n evidence;
          paths = sorted_set (List.map_filter re_path selected) in
      or_complete (
        (if paths = [] then [ChangeEvidenceMissing] else [])
        @ concat (map (path_reasons selected) paths)
        @ (if scope_for_node evidence findings (rn_id n) \<noteq> [] then [UnresolvedReviewFinding] else [])))"

definition scope_row ::
    "nat \<Rightarrow> review_node \<Rightarrow> review_evidence list \<Rightarrow> finding list \<Rightarrow> matrix_row option" where
  "scope_row node_number n evidence findings =
     verdict_row (''scope-'' @ pad3 node_number) WriteScope
       [(''kind'', JStr ''write-scope''), (''node_id'', JStr (rn_id n)), (''effects'', strings (rn_effects n)),
        (''allowed_paths'', strings (rn_allowed n)), (''max_changed_files'', JInt (rn_max_changed n))]
       (scope_reasons n evidence findings) (map re_id (scope_selected n evidence))
       (map fi_id (scope_for_node evidence findings (rn_id n))) (Some (rn_id n)) None"

section \<open>Node, intent, review and epistemic rows\<close>

text \<open>The reasons the rows below a criterion pass on.\<close>

definition inherited :: "matrix_row list \<Rightarrow> reason_code list" where
  "inherited rows = filter (\<lambda>r. r \<noteq> EvidenceComplete) (concat (map vm_reasons rows))"

definition node_row ::
    "nat \<Rightarrow> review_node \<Rightarrow> review_evidence list \<Rightarrow> finding list \<Rightarrow> matrix_row list
     \<Rightarrow> matrix_row option" where
  "node_row node_number n evidence findings child_rows =
     (let outcomes = select_evidence evidence OutcomeEvidence (rn_id n) None;
          matched = for_node evidence findings (rn_id n) in
      verdict_row (''node-'' @ pad3 node_number) NodeCriterion
        [(''kind'', JStr ''node''), (''node_id'', JStr (rn_id n)), (''objective'', JStr (rn_objective n)),
         (''depends_on'', strings (rn_depends_on n))]
        (or_complete (
          (if outcomes = [] then [NodeOutcomeMissing]
           else if length outcomes > 1 then [EvidenceAmbiguous] else [])
          @ inherited child_rows
          @ (if matched \<noteq> [] then [UnresolvedReviewFinding] else [])))
        (map re_id (outcomes @ concat (map (\<lambda>row. filter (\<lambda>e. re_id e \<in> set (vm_evidence row)) evidence) child_rows)))
        (map fi_id matched) (Some (rn_id n)) None)"

definition intent_row ::
    "string \<Rightarrow> criterion_kind \<Rightarrow> jobject \<Rightarrow> matrix_row list \<Rightarrow> finding list \<Rightarrow> matrix_row option" where
  "intent_row i kind claim node_rows findings =
     verdict_row i kind claim
       (or_complete (inherited node_rows @ (if findings \<noteq> [] then [UnresolvedReviewFinding] else [])))
       (concat (map vm_evidence node_rows)) (map fi_id findings) None None"

definition review_row :: "admitted_review \<Rightarrow> matrix_row option" where
  "review_row r =
     verdict_row ''review'' ReviewPolicy
       [(''kind'', JStr ''review-policy''), (''admitted_review_digest'', JStr (admitted_review_digest r)),
        (''policy'', JStr ''unresolved-findings-block'')]
       [if ar_findings r \<noteq> [] then UnresolvedReviewFinding else ReviewClear]
       (map ci_evidence (concat (map fi_citations (ar_findings r)))) (map fi_id (ar_findings r)) None None"

fun disposition_reason :: "disposition \<Rightarrow> reason_code" where
  "disposition_reason Supported = EpistemicCoverageComplete"
| "disposition_reason NotApplicable = EpistemicNotApplicable"
| "disposition_reason Concern = EpistemicConcern"
| "disposition_reason Unknown = EpistemicUnknown"

definition epistemic_row :: "assessment \<Rightarrow> matrix_row option" where
  "epistemic_row a =
     verdict_row (''epistemic-'' @ dimension_value (ea_dimension a)) EpistemicPolicy
       [(''kind'', JStr ''epistemic-policy''), (''dimension'', JStr (dimension_value (ea_dimension a))),
        (''disposition'', JStr (disposition_value (ea_disposition a))), (''claim'', JStr (ea_claim a)),
        (''falsification_question'', JStr (ea_question a)),
        (''citations'', JArr (map citation_payload (ea_citations a))),
        (''finding_ids'', strings (ea_finding_ids a))]
       [disposition_reason (ea_disposition a)] (map ci_evidence (ea_citations a)) (ea_finding_ids a) None None"

section \<open>Reports\<close>

record verification_report =
  vp_run_id :: string
  vp_context :: string
  vp_acceptance :: string
  vp_state :: string
  vp_artifact_evidence :: string
  vp_admitted :: string
  vp_status :: verification_status
  vp_matrix :: "matrix_row list"
  vp_schema :: string

definition VERIFICATION_REPORT_SCHEMA :: string where
  "VERIFICATION_REPORT_SCHEMA = ''verification-report/v1''"

definition VERIFICATION_MATRIX_SCHEMA :: string where
  "VERIFICATION_MATRIX_SCHEMA = ''verification-matrix/v1''"

definition MAX_MATRIX_ROWS :: nat where "MAX_MATRIX_ROWS = 4290"
definition MAX_REPORT_BYTES :: nat where "MAX_REPORT_BYTES = 4 * 1024 * 1024"

definition matrix_row_payload :: "matrix_row \<Rightarrow> json" where
  "matrix_row_payload r = JObj [(''criterion_id'', JStr (vm_id r)),
     (''kind'', JStr (criterion_kind_value (vm_kind r))), (''claim_digest'', JStr (vm_claim r)),
     (''status'', JStr (verification_status_value (vm_status r))),
     (''reason_codes'', strings (map reason_code_value (vm_reasons r))),
     (''evidence_ids'', strings (vm_evidence r)), (''finding_ids'', strings (vm_findings r)),
     (''node_id'', opt_str (vm_node r)), (''check_id'', opt_str (vm_check r))]"

definition verification_report_payload :: "verification_report \<Rightarrow> jobject" where
  "verification_report_payload p =
     [(''schema_version'', JStr (vp_schema p)), (''run_id'', JStr (vp_run_id p)),
      (''context_digest'', JStr (vp_context p)), (''acceptance_digest'', JStr (vp_acceptance p)),
      (''state_digest'', JStr (vp_state p)), (''artifact_evidence_digest'', JStr (vp_artifact_evidence p)),
      (''admitted_review_digest'', JStr (vp_admitted p)),
      (''status'', JStr (verification_status_value (vp_status p))),
      (''matrix'', JArr (map matrix_row_payload (vp_matrix p)))]"

definition verification_report_digest :: "verification_report \<Rightarrow> string" where
  "verification_report_digest p = json_digest (JObj (verification_report_payload p))"

definition verification_matrix_payload :: "verification_report \<Rightarrow> jobject" where
  "verification_matrix_payload p = [(''schema_version'', JStr VERIFICATION_MATRIX_SCHEMA),
     (''rows'', JArr (map matrix_row_payload (vp_matrix p)))]"

definition verification_matrix_digest :: "verification_report \<Rightarrow> string" where
  "verification_matrix_digest p = json_digest (JObj (verification_matrix_payload p))"

text \<open>\<open>VerificationReport.__post_init__\<close>, for rows that are valid already.\<close>

definition verification_report_ok :: "verification_report \<Rightarrow> bool" where
  "verification_report_ok p \<longleftrightarrow> vp_schema p = VERIFICATION_REPORT_SCHEMA \<and> stage_identifier (vp_run_id p)
     \<and> list_all re_digest [vp_context p, vp_acceptance p, vp_state p, vp_artifact_evidence p, vp_admitted p]
     \<and> 1 \<le> length (vp_matrix p) \<and> length (vp_matrix p) \<le> MAX_MATRIX_ROWS
     \<and> distinct (map vm_id (vp_matrix p)) \<and> vp_status p = aggregate_status (vp_matrix p)
     \<and> length (json_bytes (JObj (verification_report_payload p))) \<le> MAX_REPORT_BYTES"

section \<open>The verdict\<close>

definition validate_citations :: "admitted_review \<Rightarrow> review_evidence list \<Rightarrow> bool" where
  "validate_citations r evidence = list_all (\<lambda>c. case evidence_by_id evidence (ci_evidence c) of
       None \<Rightarrow> False
     | Some e \<Rightarrow> \<not> (ci_start c < re_start e \<or> re_end e < ci_end c))
     (concat (map fi_citations (ar_findings r)) @ concat (map ea_citations (ar_assessments r)))"

text \<open>The rows of one node: the supporting rows, and the node row over them.\<close>

definition node_rows ::
    "review_evidence list \<Rightarrow> finding list \<Rightarrow> nat \<times> review_node \<Rightarrow> (matrix_row list \<times> matrix_row) option" where
  "node_rows evidence findings = (\<lambda>(node_number, n). do {
     scope \<leftarrow> (if ''repository-write'' \<in> set (rn_effects n)
       then map_option (\<lambda>r. [r]) (scope_row node_number n evidence findings) else Some []);
     checks \<leftarrow> traverse (\<lambda>(check_number, c). check_row node_number check_number n c evidence findings)
       (List.enumerate 1 (rn_checks n));
     row \<leftarrow> node_row node_number n evidence findings (scope @ checks);
     Some (scope @ checks, row) })"

definition objective_claim :: "review_acceptance \<Rightarrow> jobject" where
  "objective_claim a = [(''kind'', JStr ''objective''),
     (''acceptance_digest'', JStr (review_acceptance_digest a)), (''objective'', JStr (ra_objective a))]"

definition constraint_claim :: "review_acceptance \<Rightarrow> nat \<times> string \<Rightarrow> jobject" where
  "constraint_claim a = (\<lambda>(i, s). [(''kind'', JStr ''constraint''),
     (''acceptance_digest'', JStr (review_acceptance_digest a)), (''index'', JInt (int i)),
     (''constraint'', JStr s)])"

definition verification_matrix :: "review_context \<Rightarrow> admitted_review \<Rightarrow> matrix_row list option" where
  "verification_matrix x r = (let a = rx_acceptance x; findings = ar_findings r in do {
     per_node \<leftarrow> traverse (node_rows (rx_evidence x) findings) (List.enumerate 1 (ra_nodes a));
     let rows = map snd per_node in do {
     objective \<leftarrow> intent_row ''objective'' Objective (objective_claim a) rows findings;
     constraints \<leftarrow> traverse (\<lambda>(i, s). intent_row (''constraint-'' @ pad3 i) Constraint
       (constraint_claim a (i, s)) rows findings) (List.enumerate 1 (ra_constraints a));
     epistemic \<leftarrow> traverse epistemic_row (ar_assessments r);
     review \<leftarrow> review_row r;
     Some ([objective] @ constraints @ rows @ concat (map fst per_node) @ epistemic @ [review]) } })"

definition verify_review ::
    "review_context \<Rightarrow> admitted_review \<Rightarrow> verification_error + verification_report" where
  "verify_review x r =
     ebind (check BindingMismatch (ar_context r = review_context_digest x
       \<and> ar_acceptance r = review_acceptance_digest (rx_acceptance x))) (\<lambda>_.
     ebind (check CitationMismatch (validate_citations r (rx_evidence x))) (\<lambda>_.
     ebind (efail_on_None InvalidInput (verification_matrix x r)) (\<lambda>matrix.
     let p = \<lparr>vp_run_id = ra_run_id (rx_acceptance x), vp_context = review_context_digest x,
       vp_acceptance = review_acceptance_digest (rx_acceptance x), vp_state = rx_state x,
       vp_artifact_evidence = rx_artifact_evidence x, vp_admitted = admitted_review_digest r,
       vp_status = aggregate_status matrix, vp_matrix = matrix,
       vp_schema = VERIFICATION_REPORT_SCHEMA\<rparr> in
     ebind (check InvalidInput (verification_report_ok p)) (\<lambda>_. Inr p))))"

section \<open>Reading a report\<close>

definition report_text :: "json \<Rightarrow> string option" where
  "report_text v = do { s \<leftarrow> as_str v; ensure (s \<noteq> [] \<and> CHR 0x00 \<notin> set s); Some s }"

definition report_sequence :: "nat \<Rightarrow> nat \<Rightarrow> json \<Rightarrow> json list option" where
  "report_sequence minimum maximum v = do {
     xs \<leftarrow> as_arr v; ensure (minimum \<le> length xs \<and> length xs \<le> maximum); Some xs }"

definition report_optional_text :: "json \<Rightarrow> string option option" where
  "report_optional_text v = (if v = JNull then Some None else map_option Some (report_text v))"

definition reason_from_json :: "json \<Rightarrow> reason_code option" where
  "reason_from_json v = do { s \<leftarrow> as_str v; member_of REASON_CODES reason_code_value s }"

definition matrix_row_from_mapping :: "json \<Rightarrow> matrix_row option" where
  "matrix_row_from_mapping v = do {
     raw \<leftarrow> as_obj v;
     ensure (keys_are raw [''criterion_id'', ''kind'', ''claim_digest'', ''status'', ''reason_codes'',
       ''evidence_ids'', ''finding_ids'', ''node_id'', ''check_id'']);
     kind_text \<leftarrow> as_str (jget raw ''kind'');
     kind \<leftarrow> member_of CRITERION_KINDS criterion_kind_value kind_text;
     status_text \<leftarrow> as_str (jget raw ''status'');
     status \<leftarrow> verification_status_of status_text;
     raw_reasons \<leftarrow> report_sequence 1 13 (jget raw ''reason_codes'');
     reasons \<leftarrow> traverse reason_from_json raw_reasons;
     i \<leftarrow> report_text (jget raw ''criterion_id'');
     claim \<leftarrow> report_text (jget raw ''claim_digest'');
     raw_evidence \<leftarrow> report_sequence 0 128 (jget raw ''evidence_ids'');
     evidence \<leftarrow> traverse report_text raw_evidence;
     raw_findings \<leftarrow> report_sequence 0 64 (jget raw ''finding_ids'');
     findings \<leftarrow> traverse report_text raw_findings;
     node \<leftarrow> report_optional_text (jget raw ''node_id'');
     check_id \<leftarrow> report_optional_text (jget raw ''check_id'');
     make_matrix_row \<lparr>vm_id = i, vm_kind = kind, vm_claim = claim, vm_status = status,
       vm_reasons = reasons, vm_evidence = evidence, vm_findings = findings, vm_node = node,
       vm_check = check_id\<rparr> }"

definition verification_report_from_mapping :: "jobject \<Rightarrow> verification_report option" where
  "verification_report_from_mapping raw = do {
     ensure (keys_are raw [''schema_version'', ''run_id'', ''context_digest'', ''acceptance_digest'',
       ''state_digest'', ''artifact_evidence_digest'', ''admitted_review_digest'', ''status'', ''matrix'']);
     ensure (jget raw ''schema_version'' = JStr VERIFICATION_REPORT_SCHEMA);
     status_text \<leftarrow> as_str (jget raw ''status'');
     status \<leftarrow> verification_status_of status_text;
     raw_matrix \<leftarrow> report_sequence 1 MAX_MATRIX_ROWS (jget raw ''matrix'');
     matrix \<leftarrow> traverse matrix_row_from_mapping raw_matrix;
     run_id \<leftarrow> report_text (jget raw ''run_id'');
     context \<leftarrow> report_text (jget raw ''context_digest'');
     acceptance \<leftarrow> report_text (jget raw ''acceptance_digest'');
     state \<leftarrow> report_text (jget raw ''state_digest'');
     artifact \<leftarrow> report_text (jget raw ''artifact_evidence_digest'');
     admitted \<leftarrow> report_text (jget raw ''admitted_review_digest'');
     let p = \<lparr>vp_run_id = run_id, vp_context = context, vp_acceptance = acceptance, vp_state = state,
       vp_artifact_evidence = artifact, vp_admitted = admitted, vp_status = status,
       vp_matrix = matrix, vp_schema = VERIFICATION_REPORT_SCHEMA\<rparr> in do {
     ensure (verification_report_ok p); Some p } }"

end
