(* ===== verification/VerdictFacts.thy ===== *)
theory VerdictFacts
  imports Verify AdmissionFacts
begin

text \<open>
  Lemmas on the verdict: a status depends on the set of reasons, a row keeps the reasons it was
  built from, and the reasons of the whole matrix are those found at the evidence.
\<close>

section \<open>Reasons and statuses\<close>

definition blocking_codes :: "reason_code set" where
  "blocking_codes = {UnresolvedReviewFinding, EvidenceIdentityMismatch, CheckFailed, EpistemicConcern}"

definition incomplete_codes :: "reason_code set" where
  "incomplete_codes = {NodeOutcomeMissing, EvidenceAmbiguous, CheckEvidenceMissing, ChangeEvidenceMissing,
     EpistemicUnknown}"

definition set_status :: "reason_code set \<Rightarrow> verification_status" where
  "set_status R = (if R \<inter> blocking_codes \<noteq> {} then VFail
     else if R \<inter> incomplete_codes \<noteq> {} then VInconclusive else VPass)"

lemma status_for_reasons_set: "status_for_reasons rs = set_status (set rs)"
  by (auto simp: status_for_reasons_def set_status_def blocking_codes_def incomplete_codes_def list_ex_iff)

lemma set_status_cong:
  "(\<And>c. c \<in> blocking_codes \<union> incomplete_codes \<Longrightarrow> c \<in> R \<longleftrightarrow> c \<in> S) \<Longrightarrow> set_status R = set_status S"
proof -
  assume *: "\<And>c. c \<in> blocking_codes \<union> incomplete_codes \<Longrightarrow> c \<in> R \<longleftrightarrow> c \<in> S"
  then have "R \<inter> blocking_codes = S \<inter> blocking_codes" "R \<inter> incomplete_codes = S \<inter> incomplete_codes" by auto
  then show ?thesis by (simp add: set_status_def)
qed

lemma set_sort_reasons [simp]: "set (sort_reasons rs) = set rs"
  by (simp add: sort_reasons_def)

lemma set_or_complete: "set (or_complete rs) - {EvidenceComplete} = set rs - {EvidenceComplete}"
  by (simp add: or_complete_def)

lemma set_inherited: "set (inherited rows) = (\<Union>r\<in>set rows. set (vm_reasons r)) - {EvidenceComplete}"
  by (auto simp: inherited_def)

definition row_ok :: "matrix_row \<Rightarrow> bool" where
  "row_ok r \<longleftrightarrow> vm_status r = status_for_reasons (vm_reasons r)"

lemma make_matrix_row_Some:
  assumes "make_matrix_row r = Some q"
  shows "q = r\<lparr>vm_reasons := sort_reasons (vm_reasons r), vm_evidence := sorted_set (vm_evidence r),
    vm_findings := sorted_set (vm_findings r)\<rparr>" "vm_status r = status_for_reasons (vm_reasons r)" "row_ok q"
  using assms
  by (auto simp: make_matrix_row_def Let_def row_ok_def status_for_reasons_set split: if_splits)

lemma verdict_row_Some:
  assumes "verdict_row i kind claim reasons evidence findings node check_id = Some q"
  shows "set (vm_reasons q) = set reasons" "row_ok q" "vm_id q = i" "vm_kind q = kind"
    "set (vm_evidence q) = set evidence" "set (vm_findings q) = set findings"
  using make_matrix_row_Some[OF assms[unfolded verdict_row_def]] by simp_all

lemma aggregate_status_set:
  assumes "list_all row_ok matrix"
  shows "aggregate_status matrix = set_status (\<Union>r\<in>set matrix. set (vm_reasons r))"
proof -
  have "vm_status r = set_status (set (vm_reasons r))" if "r \<in> set matrix" for r
    using assms that by (simp add: list_all_iff row_ok_def status_for_reasons_set)
  then show ?thesis
    by (auto simp: aggregate_status_def list_ex_iff set_status_def split: if_splits)
qed

section \<open>What the rows find\<close>

definition check_findings ::
    "review_node \<Rightarrow> review_check \<Rightarrow> review_evidence list \<Rightarrow> finding list \<Rightarrow> reason_code set" where
  "check_findings n c evidence findings = set (check_reasons n c evidence findings) - {EvidenceComplete}"

definition node_findings :: "review_node \<Rightarrow> review_evidence list \<Rightarrow> finding list \<Rightarrow> reason_code set" where
  "node_findings n evidence findings =
     (if ''repository-write'' \<in> set (rn_effects n) then set (scope_reasons n evidence findings) - {EvidenceComplete}
      else {})
     \<union> (\<Union>c\<in>set (rn_checks n). check_findings n c evidence findings)"

definition outcome_findings :: "review_node \<Rightarrow> review_evidence list \<Rightarrow> reason_code set" where
  "outcome_findings n evidence =
     (let outcomes = select_evidence evidence OutcomeEvidence (rn_id n) None in
      if outcomes = [] then {NodeOutcomeMissing} else if length outcomes > 1 then {EvidenceAmbiguous} else {})"

lemma enumerate_traverse:
  assumes "traverse f (List.enumerate k xs) = Some ys"
  shows "\<forall>x\<in>set xs. \<exists>i. \<exists>y\<in>set ys. f (i, x) = Some y"
    "\<forall>y\<in>set ys. \<exists>i. \<exists>x\<in>set xs. f (i, x) = Some y" "length ys = length xs"
proof -
  have all: "list_all2 (\<lambda>p y. f p = Some y) (List.enumerate k xs) ys"
    using assms by (simp add: traverse_Some_iff)
  then have len: "length ys = length xs" by (simp add: list_all2_conv_all_nth)
  have at: "f (k + i, xs ! i) = Some (ys ! i)" if "i < length xs" for i
    using all that by (simp add: list_all2_conv_all_nth nth_enumerate_eq)
  show "\<forall>x\<in>set xs. \<exists>i. \<exists>y\<in>set ys. f (i, x) = Some y"
    using at len by (metis in_set_conv_nth nth_mem)
  show "\<forall>y\<in>set ys. \<exists>i. \<exists>x\<in>set xs. f (i, x) = Some y"
    using at len by (metis in_set_conv_nth nth_mem)
  show "length ys = length xs" by (rule len)
qed

lemma union_of_rows:
  assumes "\<forall>q\<in>Q. \<exists>j. \<exists>c\<in>C. P j c q" "\<forall>c\<in>C. \<exists>j. \<exists>q\<in>Q. P j c q"
    and "\<And>j c q. P j c q \<Longrightarrow> F q - X = G c"
  shows "(\<Union>q\<in>Q. F q) - X = (\<Union>c\<in>C. G c)"
proof -
  have 1: "F q - X \<subseteq> (\<Union>c\<in>C. G c)" if q: "q \<in> Q" for q
  proof -
    obtain j c where "c \<in> C" "P j c q" using assms(1) q by blast
    then have "F q - X = G c" using assms(3) by simp
    with \<open>c \<in> C\<close> show ?thesis by blast
  qed
  have 2: "G c \<subseteq> (\<Union>q\<in>Q. F q) - X" if "c \<in> C" for c
  proof -
    obtain j q where "q \<in> Q" "P j c q" using assms(2) \<open>c \<in> C\<close> by blast
    from assms(3)[OF this(2)] have "F q - X = G c" .
    with \<open>q \<in> Q\<close> show ?thesis by blast
  qed
  show ?thesis
  proof
    show "(\<Union>q\<in>Q. F q) - X \<subseteq> (\<Union>c\<in>C. G c)" using 1 by auto
    show "(\<Union>c\<in>C. G c) \<subseteq> (\<Union>q\<in>Q. F q) - X" using 2 by (rule UN_least)
  qed
qed

lemma check_row_Some:
  assumes "check_row i j n c evidence findings = Some q"
  shows "set (vm_reasons q) - {EvidenceComplete} = check_findings n c evidence findings" "row_ok q"
  using verdict_row_Some(1,2)[OF assms[unfolded check_row_def]] by (simp_all add: check_findings_def)

text \<open>The supporting rows of one node.\<close>

lemma support_findings:
  assumes scope: "(if ''repository-write'' \<in> set (rn_effects n)
       then map_option (\<lambda>r. [r]) (scope_row i n evidence findings) else Some []) = Some scope"
    and checks: "traverse (\<lambda>(j, c). check_row i j n c evidence findings) (List.enumerate 1 (rn_checks n)) = Some checks"
  shows "(\<Union>r\<in>set (scope @ checks). set (vm_reasons r)) - {EvidenceComplete} = node_findings n evidence findings"
    "list_all row_ok (scope @ checks)"
proof -
  have scope': "(\<Union>r\<in>set scope. set (vm_reasons r)) - {EvidenceComplete} =
      (if ''repository-write'' \<in> set (rn_effects n) then set (scope_reasons n evidence findings) - {EvidenceComplete}
       else {})" "list_all row_ok scope"
    using scope verdict_row_Some(1,2) by (auto simp: scope_row_def split: if_splits)
  have rows: "\<forall>c\<in>set (rn_checks n). \<exists>j. \<exists>q\<in>set checks. check_row i j n c evidence findings = Some q"
    "\<forall>q\<in>set checks. \<exists>j. \<exists>c\<in>set (rn_checks n). check_row i j n c evidence findings = Some q"
    using enumerate_traverse(1,2)[OF checks] by simp_all
  have checks': "(\<Union>r\<in>set checks. set (vm_reasons r)) - {EvidenceComplete}
      = (\<Union>c\<in>set (rn_checks n). check_findings n c evidence findings)"
    by (rule union_of_rows[OF rows(2,1)]) (rule check_row_Some(1))
  show "list_all row_ok (scope @ checks)"
    using scope'(2) rows(2) check_row_Some(2) by (force simp: list_all_iff)
  show "(\<Union>r\<in>set (scope @ checks). set (vm_reasons r)) - {EvidenceComplete} = node_findings n evidence findings"
    using scope'(1) checks' unfolding node_findings_def by (simp add: Un_Diff UN_Un del: UN_simps)
qed

lemma node_rows_Some:
  assumes "node_rows evidence findings (i, n) = Some (supporting, row)"
  shows "(\<Union>r\<in>set supporting. set (vm_reasons r)) - {EvidenceComplete} = node_findings n evidence findings"
    "list_all row_ok supporting" "row_ok row"
    "set (vm_reasons row) - {EvidenceComplete} = outcome_findings n evidence \<union> node_findings n evidence findings
      \<union> (if for_node evidence findings (rn_id n) \<noteq> [] then {UnresolvedReviewFinding} else {})"
proof -
  obtain scope checks where
    scope: "(if ''repository-write'' \<in> set (rn_effects n)
       then map_option (\<lambda>r. [r]) (scope_row i n evidence findings) else Some []) = Some scope"
    and checks: "traverse (\<lambda>(j, c). check_row i j n c evidence findings) (List.enumerate 1 (rn_checks n)) = Some checks"
    and row: "node_row i n evidence findings (scope @ checks) = Some row"
    and sup: "supporting = scope @ checks"
    using assms by (auto simp: node_rows_def bind_eq_Some_conv)
  note sf = support_findings[OF scope checks]
  show "list_all row_ok supporting" unfolding sup by (rule sf(2))
  show all: "(\<Union>r\<in>set supporting. set (vm_reasons r)) - {EvidenceComplete} = node_findings n evidence findings"
    unfolding sup by (rule sf(1))
  note r = verdict_row_Some[OF row[unfolded node_row_def Let_def]]
  show "row_ok row" by (rule r(2))
  have "set (vm_reasons row) - {EvidenceComplete} = outcome_findings n evidence \<union> set (inherited supporting)
      \<union> (if for_node evidence findings (rn_id n) \<noteq> [] then {UnresolvedReviewFinding} else {})"
    unfolding r(1) set_or_complete sup by (auto simp: outcome_findings_def Let_def set_inherited)
  then show "set (vm_reasons row) - {EvidenceComplete} = outcome_findings n evidence \<union> node_findings n evidence findings
      \<union> (if for_node evidence findings (rn_id n) \<noteq> [] then {UnresolvedReviewFinding} else {})"
    unfolding set_inherited all .
qed

section \<open>The reasons of the whole matrix\<close>

definition matrix_findings :: "review_context \<Rightarrow> admitted_review \<Rightarrow> reason_code set" where
  "matrix_findings x r =
     (\<Union>n\<in>set (ra_nodes (rx_acceptance x)). outcome_findings n (rx_evidence x)
        \<union> node_findings n (rx_evidence x) (ar_findings r))
     \<union> (\<lambda>a. disposition_reason (ea_disposition a)) ` set (ar_assessments r)
     \<union> (if ar_findings r \<noteq> [] then {UnresolvedReviewFinding} else {})"

lemma traverse_set:
  assumes "traverse f xs = Some ys"
  shows "\<forall>x\<in>set xs. \<exists>y\<in>set ys. f x = Some y" "\<forall>y\<in>set ys. \<exists>x\<in>set xs. f x = Some y"
proof -
  have all: "list_all2 (\<lambda>p y. f p = Some y) xs ys" using assms by (simp add: traverse_Some_iff)
  then have len: "length ys = length xs" by (simp add: list_all2_conv_all_nth)
  have at: "f (xs ! i) = Some (ys ! i)" if "i < length xs" for i
    using all that by (simp add: list_all2_conv_all_nth)
  show "\<forall>x\<in>set xs. \<exists>y\<in>set ys. f x = Some y"
    using at len by (metis in_set_conv_nth nth_mem)
  show "\<forall>y\<in>set ys. \<exists>x\<in>set xs. f x = Some y"
    using at len by (metis in_set_conv_nth nth_mem)
qed

lemma verification_matrix_Some:
  assumes "verification_matrix x r = Some matrix"
  obtains objective constraints per_node epistemic review where
    "matrix = [objective] @ constraints @ map snd per_node @ concat (map fst per_node) @ epistemic @ [review]"
    "traverse (node_rows (rx_evidence x) (ar_findings r)) (List.enumerate 1 (ra_nodes (rx_acceptance x))) = Some per_node"
    "intent_row ''objective'' Objective (objective_claim (rx_acceptance x)) (map snd per_node) (ar_findings r) = Some objective"
    "traverse (\<lambda>(i, s). intent_row (''constraint-'' @ pad3 i) Constraint (constraint_claim (rx_acceptance x) (i, s))
       (map snd per_node) (ar_findings r)) (List.enumerate 1 (ra_constraints (rx_acceptance x))) = Some constraints"
    "traverse epistemic_row (ar_assessments r) = Some epistemic" "review_row r = Some review"
  using assms by (auto simp: verification_matrix_def Let_def bind_eq_Some_conv)

lemma intent_row_Some:
  assumes "intent_row i kind claim rows findings = Some q"
  shows "set (vm_reasons q) - {EvidenceComplete} = (\<Union>r\<in>set rows. set (vm_reasons r)) - {EvidenceComplete}
      \<union> (if findings \<noteq> [] then {UnresolvedReviewFinding} else {})" "row_ok q"
  using verdict_row_Some(1,2)[OF assms[unfolded intent_row_def]]
  by (auto simp: set_or_complete set_inherited)

lemma for_node_subset: "for_node evidence findings n \<noteq> [] \<Longrightarrow> findings \<noteq> []"
  by (auto simp: for_node_def)

lemma matrix_reasons:
  assumes "verification_matrix x r = Some matrix"
  shows "list_all row_ok matrix"
    "c \<in> blocking_codes \<union> incomplete_codes \<Longrightarrow>
      c \<in> (\<Union>q\<in>set matrix. set (vm_reasons q)) \<longleftrightarrow> c \<in> matrix_findings x r"
proof -
  let ?ev = "rx_evidence x" and ?fs = "ar_findings r" and ?nodes = "set (ra_nodes (rx_acceptance x))"
  let ?U = "if ?fs \<noteq> [] then {UnresolvedReviewFinding} else {}"
  obtain objective constraints per_node epistemic review where
    m: "matrix = [objective] @ constraints @ map snd per_node @ concat (map fst per_node) @ epistemic @ [review]"
    and nodes: "traverse (node_rows ?ev ?fs) (List.enumerate 1 (ra_nodes (rx_acceptance x))) = Some per_node"
    and obj: "intent_row ''objective'' Objective (objective_claim (rx_acceptance x)) (map snd per_node) ?fs = Some objective"
    and con: "traverse (\<lambda>(i, s). intent_row (''constraint-'' @ pad3 i) Constraint (constraint_claim (rx_acceptance x) (i, s))
       (map snd per_node) ?fs) (List.enumerate 1 (ra_constraints (rx_acceptance x))) = Some constraints"
    and epi: "traverse epistemic_row (ar_assessments r) = Some epistemic" and rev: "review_row r = Some review"
    by (rule verification_matrix_Some[OF assms(1)])
  note each = enumerate_traverse(1,2)[OF nodes]
  have node: "row_ok (snd q) \<and> list_all row_ok (fst q)
      \<and> (\<Union>s\<in>set (fst q). set (vm_reasons s)) - {EvidenceComplete} = node_findings n ?ev ?fs
      \<and> set (vm_reasons (snd q)) - {EvidenceComplete} = outcome_findings n ?ev \<union> node_findings n ?ev ?fs
        \<union> (if for_node ?ev ?fs (rn_id n) \<noteq> [] then {UnresolvedReviewFinding} else {})"
    if "node_rows ?ev ?fs (i, n) = Some q" for i n q
    using node_rows_Some[of ?ev ?fs i n "fst q" "snd q"] that by simp
  have node_ok: "row_ok (snd q) \<and> list_all row_ok (fst q)" if q: "q \<in> set per_node" for q
    using each(2) node q by blast
  have con_ok: "set (vm_reasons q) - {EvidenceComplete} = (\<Union>p\<in>set per_node. set (vm_reasons (snd p))) - {EvidenceComplete} \<union> ?U
      \<and> row_ok q" if q: "q \<in> set constraints" for q
  proof -
    from enumerate_traverse(2)[OF con] q obtain i s where
      "intent_row (''constraint-'' @ pad3 i) Constraint (constraint_claim (rx_acceptance x) (i, s))
       (map snd per_node) ?fs = Some q" by auto
    from intent_row_Some[OF this] show ?thesis by simp
  qed
  have epi_ok: "row_ok q" if q: "q \<in> set epistemic" for q
    using traverse_set(2)[OF epi] q verdict_row_Some(2) by (fastforce simp: epistemic_row_def)
  have epi_set: "(\<Union>q\<in>set epistemic. set (vm_reasons q)) = (\<lambda>a. disposition_reason (ea_disposition a)) ` set (ar_assessments r)"
  proof -
    have one: "set (vm_reasons q) = {disposition_reason (ea_disposition a)}" if "epistemic_row a = Some q" for a q
      using verdict_row_Some(1)[OF that[unfolded epistemic_row_def]] by simp
    show ?thesis
    proof (intro equalityI subsetI)
      fix c assume "c \<in> (\<Union>q\<in>set epistemic. set (vm_reasons q))"
      then obtain q where "q \<in> set epistemic" "c \<in> set (vm_reasons q)" by auto
      with traverse_set(2)[OF epi] one show "c \<in> (\<lambda>a. disposition_reason (ea_disposition a)) ` set (ar_assessments r)" by blast
    next
      fix c assume "c \<in> (\<lambda>a. disposition_reason (ea_disposition a)) ` set (ar_assessments r)"
      then obtain a where "a \<in> set (ar_assessments r)" "c = disposition_reason (ea_disposition a)" by auto
      with traverse_set(1)[OF epi] one show "c \<in> (\<Union>q\<in>set epistemic. set (vm_reasons q))" by blast
    qed
  qed
  note review = verdict_row_Some(1,2)[OF rev[unfolded review_row_def]]
  note objective = intent_row_Some[OF obj]
  show "list_all row_ok matrix"
    using node_ok con_ok epi_ok review(2) objective(2) unfolding m by (auto simp: list_all_iff)
  let ?rows = "(\<Union>p\<in>set per_node. set (vm_reasons (snd p))) - {EvidenceComplete}"
  let ?sup = "(\<Union>p\<in>set per_node. \<Union>s\<in>set (fst p). set (vm_reasons s)) - {EvidenceComplete}"
  let ?found = "(\<Union>n\<in>?nodes. outcome_findings n ?ev \<union> node_findings n ?ev ?fs)"
  have rows: "?rows = (\<Union>n\<in>?nodes. outcome_findings n ?ev \<union> node_findings n ?ev ?fs
      \<union> (if for_node ?ev ?fs (rn_id n) \<noteq> [] then {UnresolvedReviewFinding} else {}))"
    by (rule union_of_rows[OF each(2,1)]) (use node in blast)
  have sup: "?sup = (\<Union>n\<in>?nodes. node_findings n ?ev ?fs)"
    by (rule union_of_rows[OF each(2,1)]) (use node in blast)
  have between: "?found \<subseteq> ?rows" "?rows \<subseteq> ?found \<union> ?U" "?sup \<subseteq> ?found"
    unfolding rows sup by (auto dest: for_node_subset split: if_splits)
  assume code: "c \<in> blocking_codes \<union> incomplete_codes"
  then have c: "c \<noteq> EvidenceComplete" "c \<noteq> ReviewClear"
    by (auto simp: blocking_codes_def incomplete_codes_def)
  have in_obj: "c \<in> set (vm_reasons objective) \<longleftrightarrow> c \<in> ?rows \<or> c \<in> ?U"
    using objective(1)[unfolded set_eq_iff, rule_format, of c] c by simp
  have in_con: "(c \<in> (\<Union>q\<in>set constraints. set (vm_reasons q))) \<longrightarrow> c \<in> ?rows \<or> c \<in> ?U"
    using con_ok[THEN conjunct1, unfolded set_eq_iff, rule_format, of _ c] c by auto
  have in_rev: "c \<in> set (vm_reasons review) \<longleftrightarrow> c \<in> ?U"
    using review(1) c by simp
  have parts: "c \<in> (\<Union>q\<in>set matrix. set (vm_reasons q)) \<longleftrightarrow>
      c \<in> set (vm_reasons objective) \<or> c \<in> (\<Union>q\<in>set constraints. set (vm_reasons q))
      \<or> c \<in> ?rows \<or> c \<in> ?sup \<or> c \<in> (\<Union>q\<in>set epistemic. set (vm_reasons q)) \<or> c \<in> set (vm_reasons review)"
    unfolding m using c(1) by auto
  have "c \<in> (\<Union>q\<in>set matrix. set (vm_reasons q)) \<longleftrightarrow>
      c \<in> ?found \<or> c \<in> ?U \<or> c \<in> (\<Union>q\<in>set epistemic. set (vm_reasons q))"
    unfolding parts in_obj in_rev using in_con subsetD[OF between(1), of c] subsetD[OF between(2), of c]
      subsetD[OF between(3), of c] unfolding Un_iff by argo
  then show "c \<in> (\<Union>q\<in>set matrix. set (vm_reasons q)) \<longleftrightarrow> c \<in> matrix_findings x r"
    unfolding matrix_findings_def epi_set by blast
qed

end
