(* ===== verification/VerdictRows.thy ===== *)
theory VerdictRows
  imports VerdictFacts
begin

text \<open>
  Every row of the matrix of an admitted review is valid: its identifiers, digests and reasons meet
  the conditions of the constructor, and the criterion identifiers of the matrix are distinct.
\<close>

section \<open>A row that is made\<close>

lemma sort_reasons_props [simp]: "distinct (sort_reasons rs)" "length (sort_reasons rs) = card (set rs)"
  by (simp_all add: sort_reasons_def length_remdups_card_conv)

lemma verdict_row_made:
  assumes "stage_identifier i" "reasons \<noteq> []" "\<forall>e\<in>set evidence. re_digest e"
    "\<forall>f\<in>set findings. stage_identifier f" "\<forall>n\<in>set_option node. stage_identifier n"
    "\<forall>c\<in>set_option check_id. stage_identifier c"
    "(kind \<in> {NodeCriterion, WriteScope, CheckCriterion}) = (node \<noteq> None)"
    "(kind = CheckCriterion) = (check_id \<noteq> None)"
    "reasons_consistent kind (sort_reasons reasons) (sorted_set findings)"
  shows "\<exists>q. verdict_row i kind claim reasons evidence findings node check_id = Some q"
  using assms
  by (auto simp: verdict_row_def make_matrix_row_def Let_def status_for_reasons_set list_all_iff split: option.splits)

definition plain_codes :: "reason_code set" where
  "plain_codes = {UnresolvedReviewFinding, NodeOutcomeMissing, EvidenceAmbiguous, CheckEvidenceMissing,
     EvidenceIdentityMismatch, CheckFailed, ChangeEvidenceMissing}"

lemma sorted_set_Nil [simp]: "sorted_set xs = [] \<longleftrightarrow> xs = []"
  by (metis set_empty sorted_set_props(1))

lemma plain_consistent:
  assumes "kind \<notin> {ReviewPolicy, EpistemicPolicy}" "set reasons \<subseteq> plain_codes"
    "UnresolvedReviewFinding \<in> set reasons \<longleftrightarrow> findings \<noteq> []"
  shows "reasons_consistent kind (sort_reasons (or_complete reasons)) (sorted_set findings)"
proof -
  have "EvidenceComplete \<notin> set reasons" "ReviewClear \<notin> set reasons" "EpistemicConcern \<notin> set reasons"
    "set reasons \<inter> EPISTEMIC_REASONS = {}"
    using assms(2) by (auto simp: plain_codes_def EPISTEMIC_REASONS_def)
  then show ?thesis
    using assms(1,3) by (cases "reasons = []") (auto simp: reasons_consistent_def or_complete_def EPISTEMIC_REASONS_def)
qed

lemma plain_row_made:
  assumes "kind \<notin> {ReviewPolicy, EpistemicPolicy}" "set reasons \<subseteq> plain_codes"
    "UnresolvedReviewFinding \<in> set reasons \<longleftrightarrow> findings \<noteq> []"
    "stage_identifier i" "\<forall>e\<in>set evidence. re_digest e" "\<forall>f\<in>set findings. stage_identifier f"
    "\<forall>n\<in>set_option node. stage_identifier n" "\<forall>c\<in>set_option check_id. stage_identifier c"
    "(kind \<in> {NodeCriterion, WriteScope, CheckCriterion}) = (node \<noteq> None)"
    "(kind = CheckCriterion) = (check_id \<noteq> None)"
  shows "\<exists>q. verdict_row i kind claim (or_complete reasons) evidence findings node check_id = Some q"
  by (rule verdict_row_made[OF assms(4) _ assms(5-10) plain_consistent[OF assms(1-3)]])
    (simp add: or_complete_def)

lemma traverse_total: "(\<And>x. x \<in> set xs \<Longrightarrow> \<exists>y. f x = Some y) \<Longrightarrow> \<exists>ys. traverse f xs = Some ys"
  by (induction xs) fastforce+

lemma traverse_map_in:
  assumes "traverse f xs = Some ys" "\<And>x y. x \<in> set xs \<Longrightarrow> f x = Some y \<Longrightarrow> g y = h x"
  shows "map g ys = map h xs"
  using assms by (induction xs arbitrary: ys) (auto simp: bind_eq_Some_conv)

lemma map_enumerate_numbers:
  "map (\<lambda>(j, c). g j) (List.enumerate k xs) = map g [k..<k + length xs]"
proof -
  have "map (\<lambda>(j, c). g j) (List.enumerate k xs) = map (g \<circ> fst) (List.enumerate k xs)"
    by (rule map_cong) auto
  then show ?thesis by (simp only: map_map[symmetric] map_fst_enumerate)
qed

section \<open>Criterion identifiers\<close>

lemma pad3_digits: "list_all is_digit (pad3 n)"
  using nat_repr_digits[of n] by (auto simp: pad3_def Let_def list_all_iff is_digit_def code_def)

lemma pad3_cancel:
  assumes "pad3 m @ x = pad3 n @ y" "x = [] \<or> \<not> is_digit (hd x)" "y = [] \<or> \<not> is_digit (hd y)"
  shows "m = n \<and> x = y"
proof -
  have val: "digits_value (pad3 k) = k" for k
  proof -
    have zeros: "foldl (\<lambda>acc c. acc * 10 + (code c - 48)) 0 (replicate z (CHR ''0'')) = 0" for z
      by (induction z) (simp_all add: code_def)
    have "digits_value (pad3 k) = digits_value (nat_repr k)"
      by (simp add: pad3_def Let_def digits_value_def zeros)
    then show ?thesis by simp
  qed
  from digits_cancel[OF pad3_digits pad3_digits assms(2,3,1)] val show ?thesis by metis
qed

lemma pad3_inj [simp]: "pad3 m = pad3 n \<longleftrightarrow> m = n"
  using pad3_cancel[of m "[]" n "[]"] by auto

lemma pad3_pair [simp]: "pad3 a @ CHR ''-'' # x = pad3 b @ CHR ''-'' # y \<longleftrightarrow> a = b \<and> x = y"
  using pad3_cancel[of a "CHR ''-'' # x" b "CHR ''-'' # y"] by (auto simp: is_digit_def code_def)

lemma stage_identifier_Cons:
  "is_alnum c \<Longrightarrow> list_all (\<lambda>c. is_alnum c \<or> c \<in> set ''._-'') s \<Longrightarrow> length s \<le> 127 \<Longrightarrow> stage_identifier (c # s)"
  by (simp add: stage_identifier_def re_ident_def)

lemma nat_repr_digits_le: "n < 10 ^ k \<Longrightarrow> 0 < k \<Longrightarrow> length (nat_repr n) \<le> k"
proof (induction n arbitrary: k rule: nat_repr.induct)
  case (1 n)
  show ?case
  proof (cases "n < 10")
    case True
    then show ?thesis using 1(3) by (simp add: nat_repr.simps[of n])
  next
    case False
    then obtain l where k: "k = Suc l" "0 < l" using 1(2,3) by (cases k; cases "k - 1") auto
    then have "n div 10 < 10 ^ l" using 1(2) by auto
    then show ?thesis using 1(1)[OF False _ k(2)] False k by (simp add: nat_repr.simps[of n])
  qed
qed

lemma pad3_length: "n < 1000 \<Longrightarrow> length (pad3 n) = 3"
  using nat_repr_digits_le[of n 3] by (simp add: pad3_def Let_def)

lemma pad3_alnum: "list_all (\<lambda>c. is_alnum c \<or> c \<in> set ''._-'') (pad3 n)"
  using pad3_digits[of n] by (auto simp: list_all_iff is_alnum_def)

section \<open>The rows of an admitted review\<close>

text \<open>What a valid context and an admitted review give to the rows.\<close>

definition verdict_inputs :: "review_context \<Rightarrow> admitted_review \<Rightarrow> bool" where
  "verdict_inputs x r \<longleftrightarrow> length (ra_nodes (rx_acceptance x)) \<le> 64 \<and> length (ra_constraints (rx_acceptance x)) \<le> 64
     \<and> (\<forall>n\<in>set (ra_nodes (rx_acceptance x)). stage_identifier (rn_id n) \<and> length (rn_checks n) \<le> 64
          \<and> (\<forall>c\<in>set (rn_checks n). stage_identifier (rc_id c)))
     \<and> (\<forall>e\<in>set (rx_evidence x). re_digest (re_id e))
     \<and> (\<forall>f\<in>set (ar_findings r). stage_identifier (fi_id f) \<and> list_all citation_ok (fi_citations f))
     \<and> (\<forall>a\<in>set (ar_assessments r). list_all citation_ok (ea_citations a) \<and> list_all stage_identifier (ea_finding_ids a)
          \<and> (ea_disposition a = Concern) = (ea_finding_ids a \<noteq> []))"

lemma select_evidence_subset: "set (select_evidence evidence k n c) \<subseteq> set evidence"
  by (auto simp: select_evidence_def)

lemma for_subsets:
  "set (for_node evidence fs n) \<subseteq> set fs" "set (for_check evidence fs n c) \<subseteq> set (for_node evidence fs n)"
  "set (scope_for_node evidence fs n) \<subseteq> set (for_node evidence fs n)"
  by (auto simp: for_node_def for_check_def scope_for_node_def cites_def list_ex_iff split: option.splits)

lemma verdict_row_reasons:
  assumes "verdict_row i kind claim (or_complete reasons) evidence findings node check_id = Some q"
  shows "set (vm_reasons q) - {EvidenceComplete} = set reasons - {EvidenceComplete}" "vm_id q = i" "set (vm_evidence q) = set evidence"
  using verdict_row_Some[OF assms] set_or_complete by auto

lemma criterion_id:
  assumes "a < 1000" "b < 1000"
  shows "stage_identifier (''check-'' @ pad3 b @ ''-'' @ pad3 a)" "stage_identifier (''scope-'' @ pad3 a)"
    "stage_identifier (''node-'' @ pad3 a)" "stage_identifier (''constraint-'' @ pad3 a)"
  using pad3_length[OF assms(1)] pad3_length[OF assms(2)] pad3_alnum
  by (auto intro!: stage_identifier_Cons simp: is_alnum_def is_digit_def is_lower_def is_upper_def code_def)

lemma check_reasons_form:
  "\<exists>rs. check_reasons n c evidence fs = or_complete rs \<and> set rs \<subseteq> plain_codes
    \<and> (UnresolvedReviewFinding \<in> set rs \<longleftrightarrow> for_check evidence fs (rn_id n) (rc_id c) \<noteq> [])"
  unfolding check_reasons_def Let_def by (rule exI, rule conjI, rule refl) (auto simp: plain_codes_def)

lemma path_reasons_incomplete: "set (path_reasons selected p) \<subseteq> {ChangeEvidenceMissing, EvidenceAmbiguous}"
  by (auto simp: path_reasons_def Let_def split: list.splits option.splits)

lemma scope_reasons_form:
  "\<exists>rs. scope_reasons n evidence fs = or_complete rs \<and> set rs \<subseteq> plain_codes
    \<and> (UnresolvedReviewFinding \<in> set rs \<longleftrightarrow> scope_for_node evidence fs (rn_id n) \<noteq> [])"
proof -
  let ?paths = "sorted_set (List.map_filter re_path (scope_selected n evidence))"
  let ?each = "concat (map (path_reasons (scope_selected n evidence)) ?paths)"
  have each: "set ?each \<subseteq> {ChangeEvidenceMissing, EvidenceAmbiguous}"
    using path_reasons_incomplete[of "scope_selected n evidence"] by (simp add: UN_least)
  show ?thesis
    unfolding scope_reasons_def Let_def
    by (rule exI, rule conjI, rule refl) (use each in \<open>auto simp: plain_codes_def\<close>)
qed

lemma check_row_made:
  assumes "verdict_inputs x r" "n \<in> set (ra_nodes (rx_acceptance x))" "c \<in> set (rn_checks n)" "i \<le> 64" "j \<le> 64"
  shows "\<exists>q. check_row i j n c (rx_evidence x) (ar_findings r) = Some q"
proof -
  obtain rs where rs: "check_reasons n c (rx_evidence x) (ar_findings r) = or_complete rs" "set rs \<subseteq> plain_codes"
    "UnresolvedReviewFinding \<in> set rs \<longleftrightarrow> for_check (rx_evidence x) (ar_findings r) (rn_id n) (rc_id c) \<noteq> []"
    using check_reasons_form by blast
  have "\<forall>f\<in>set (for_check (rx_evidence x) (ar_findings r) (rn_id n) (rc_id c)). f \<in> set (ar_findings r)"
    by (simp add: for_check_def)
  moreover have "\<forall>k. \<forall>e\<in>set (select_evidence (rx_evidence x) k (rn_id n) (Some (rc_id c))). e \<in> set (rx_evidence x)"
    using select_evidence_subset by blast
  ultimately show ?thesis
    using assms rs(2,3) criterion_id[of j i] unfolding check_row_def rs(1) verdict_inputs_def
    by (intro plain_row_made) auto
qed

lemma scope_row_made:
  assumes "verdict_inputs x r" "n \<in> set (ra_nodes (rx_acceptance x))" "i \<le> 64"
  shows "\<exists>q. scope_row i n (rx_evidence x) (ar_findings r) = Some q"
proof -
  obtain rs where rs: "scope_reasons n (rx_evidence x) (ar_findings r) = or_complete rs" "set rs \<subseteq> plain_codes"
    "UnresolvedReviewFinding \<in> set rs \<longleftrightarrow> scope_for_node (rx_evidence x) (ar_findings r) (rn_id n) \<noteq> []"
    using scope_reasons_form by blast
  have "\<forall>f\<in>set (scope_for_node (rx_evidence x) (ar_findings r) (rn_id n)). f \<in> set (ar_findings r)"
    by (simp add: scope_for_node_def for_node_def)
  moreover have "\<forall>e\<in>set (scope_selected n (rx_evidence x)). e \<in> set (rx_evidence x)"
    using select_evidence_subset by (simp add: scope_selected_def) blast
  ultimately show ?thesis
    using assms rs(2,3) criterion_id[of i i] unfolding scope_row_def rs(1) verdict_inputs_def
    by (intro plain_row_made) auto
qed

lemma findings_plain:
  "outcome_findings n evidence \<subseteq> plain_codes - {UnresolvedReviewFinding}"
  "node_findings n evidence fs \<subseteq> plain_codes"
  "UnresolvedReviewFinding \<in> node_findings n evidence fs \<Longrightarrow> for_node evidence fs (rn_id n) \<noteq> []"
proof -
  show "outcome_findings n evidence \<subseteq> plain_codes - {UnresolvedReviewFinding}"
    by (auto simp: outcome_findings_def Let_def plain_codes_def)
  have check: "check_findings n c evidence fs \<subseteq> plain_codes"
    "UnresolvedReviewFinding \<in> check_findings n c evidence fs \<Longrightarrow> for_node evidence fs (rn_id n) \<noteq> []" for c
    using check_reasons_form[of n c evidence fs] for_subsets(2)[of evidence fs "rn_id n" "rc_id c"]
    by (auto simp: check_findings_def or_complete_def split: if_splits)
  have scope: "set (scope_reasons n evidence fs) - {EvidenceComplete} \<subseteq> plain_codes"
    "UnresolvedReviewFinding \<in> set (scope_reasons n evidence fs) \<Longrightarrow> for_node evidence fs (rn_id n) \<noteq> []"
    using scope_reasons_form[of n evidence fs] for_subsets(3)[of evidence fs "rn_id n"]
    by (auto simp: or_complete_def split: if_splits)
  show "node_findings n evidence fs \<subseteq> plain_codes"
    using check(1) scope(1) by (auto simp: node_findings_def split: if_splits)
  show "UnresolvedReviewFinding \<in> node_findings n evidence fs \<Longrightarrow> for_node evidence fs (rn_id n) \<noteq> []"
    using check(2) scope(2) by (auto simp: node_findings_def split: if_splits)
qed

text \<open>The identifiers and the evidence of the rows of one node.\<close>

definition support_ids :: "nat \<Rightarrow> review_node \<Rightarrow> string list" where
  "support_ids i n = (if ''repository-write'' \<in> set (rn_effects n) then [''scope-'' @ pad3 i] else [])
     @ map (\<lambda>j. ''check-'' @ pad3 i @ ''-'' @ pad3 j) [1..<1 + length (rn_checks n)]"

lemma check_rows_made:
  assumes "verdict_inputs x r" "n \<in> set (ra_nodes (rx_acceptance x))" "i \<le> 64"
  shows "\<exists>checks. traverse (\<lambda>(j, c). check_row i j n c (rx_evidence x) (ar_findings r)) (List.enumerate 1 (rn_checks n)) = Some checks
    \<and> map vm_id checks = map (\<lambda>j. ''check-'' @ pad3 i @ ''-'' @ pad3 j) [1..<1 + length (rn_checks n)]"
proof -
  let ?f = "\<lambda>(j, c). check_row i j n c (rx_evidence x) (ar_findings r)"
  have len: "length (rn_checks n) \<le> 64" using assms(1,2) by (auto simp: verdict_inputs_def)
  have "\<exists>q. ?f p = Some q" if p: "p \<in> set (List.enumerate 1 (rn_checks n))" for p
  proof -
    obtain j c where jc: "p = (j, c)" by (cases p)
    with p have "j - 1 < length (rn_checks n)" "1 \<le> j" "c = rn_checks n ! (j - 1)" by (auto simp: in_set_enumerate_eq)
    then have "c \<in> set (rn_checks n)" "j \<le> 64" using len by auto
    then show ?thesis using check_row_made[OF assms(1,2) _ assms(3)] jc by simp
  qed
  then obtain checks where t: "traverse ?f (List.enumerate 1 (rn_checks n)) = Some checks"
    using traverse_total by blast
  have id: "check_row i j n c (rx_evidence x) (ar_findings r) = Some q \<Longrightarrow> vm_id q = ''check-'' @ pad3 i @ ''-'' @ pad3 j" for j c q
    unfolding check_row_def by (drule verdict_row_Some(3)) simp
  have "map vm_id checks = map (\<lambda>(j, c). ''check-'' @ pad3 i @ ''-'' @ pad3 j) (List.enumerate 1 (rn_checks n))"
    by (rule traverse_map_in[OF t]) (use id in auto)
  also have "\<dots> = map (\<lambda>j. ''check-'' @ pad3 i @ ''-'' @ pad3 j) [1..<1 + length (rn_checks n)]"
    unfolding map_enumerate_numbers by simp
  finally show ?thesis using t by blast
qed

lemma node_rows_made:
  assumes "verdict_inputs x r" "n \<in> set (ra_nodes (rx_acceptance x))" "i \<le> 64"
  shows "\<exists>supporting row. node_rows (rx_evidence x) (ar_findings r) (i, n) = Some (supporting, row)
    \<and> map vm_id supporting = support_ids i n \<and> vm_id row = ''node-'' @ pad3 i
    \<and> set (vm_evidence row) \<subseteq> re_id ` set (rx_evidence x)"
proof -
  let ?ev = "rx_evidence x" and ?fs = "ar_findings r"
  obtain checks where
    checks: "traverse (\<lambda>(j, c). check_row i j n c ?ev ?fs) (List.enumerate 1 (rn_checks n)) = Some checks"
    and check_ids: "map vm_id checks = map (\<lambda>j. ''check-'' @ pad3 i @ ''-'' @ pad3 j) [1..<1 + length (rn_checks n)]"
    using check_rows_made[OF assms] by blast
  obtain scope where
    scope: "(if ''repository-write'' \<in> set (rn_effects n) then map_option (\<lambda>r. [r]) (scope_row i n ?ev ?fs)
        else Some []) = Some scope"
    and scope_ids: "map vm_id scope = (if ''repository-write'' \<in> set (rn_effects n) then [''scope-'' @ pad3 i] else [])"
  proof (cases "''repository-write'' \<in> set (rn_effects n)")
    case True
    obtain q where q: "scope_row i n ?ev ?fs = Some q" using scope_row_made[OF assms] by blast
    have "vm_id q = ''scope-'' @ pad3 i" by (rule verdict_row_Some(3)[OF q[unfolded scope_row_def]])
    then show thesis using that[of "[q]"] q True by simp
  qed (use that in auto)
  let ?out = "select_evidence ?ev OutcomeEvidence (rn_id n) None"
  let ?first = "if ?out = [] then [NodeOutcomeMissing] else if length ?out > 1 then [EvidenceAmbiguous] else []"
  let ?last = "if for_node ?ev ?fs (rn_id n) \<noteq> [] then [UnresolvedReviewFinding] else []"
  have inherited: "set (inherited (scope @ checks)) = node_findings n ?ev ?fs"
  proof -
    have sup: "(\<Union>r\<in>set (scope @ checks). set (vm_reasons r)) - {EvidenceComplete} = node_findings n ?ev ?fs"
      by (rule support_findings[OF scope checks])
    then show ?thesis by (simp only: set_inherited)
  qed
  have ids: "\<forall>e\<in>set ?ev. re_digest (re_id e)" and node: "stage_identifier (rn_id n)"
    and fids: "\<forall>f\<in>set ?fs. stage_identifier (fi_id f)"
    using assms(1,2) by (auto simp: verdict_inputs_def)
  let ?items = "?out @ concat (map (\<lambda>row. filter (\<lambda>e. re_id e \<in> set (vm_evidence row)) ?ev) (scope @ checks))"
  have items: "set ?items \<subseteq> set ?ev" using select_evidence_subset by auto
  have "\<exists>q. node_row i n ?ev ?fs (scope @ checks) = Some q"
    unfolding node_row_def Let_def
  proof (rule plain_row_made)
    show "set (?first @ inherited (scope @ checks) @ ?last) \<subseteq> plain_codes"
      unfolding set_append inherited using findings_plain(2) by (auto simp: plain_codes_def)
    show "UnresolvedReviewFinding \<in> set (?first @ inherited (scope @ checks) @ ?last) \<longleftrightarrow>
        map fi_id (for_node ?ev ?fs (rn_id n)) \<noteq> []"
      unfolding set_append inherited using findings_plain(3) by (auto split: if_splits)
    show "\<forall>e\<in>set (map re_id ?items). re_digest e" using ids items by auto
    show "\<forall>f\<in>set (map fi_id (for_node ?ev ?fs (rn_id n))). stage_identifier f" using fids for_subsets(1) by fastforce
  qed (use criterion_id[of i i] assms(3) node in auto)
  then obtain row where row: "node_row i n ?ev ?fs (scope @ checks) = Some row" by blast
  note r = verdict_row_Some[OF row[unfolded node_row_def Let_def]]
  have "set (vm_evidence row) \<subseteq> re_id ` set ?ev" unfolding r(5) using items by auto
  moreover have "node_rows ?ev ?fs (i, n) = Some (scope @ checks, row)"
    using scope checks row by (simp add: node_rows_def)
  moreover have "map vm_id (scope @ checks) = support_ids i n"
    using check_ids scope_ids by (simp add: support_ids_def)
  ultimately show ?thesis using r(3) by blast
qed

text \<open>What the node rows hand to the rows above them.\<close>

lemma node_rows_above:
  assumes "verdict_inputs x r"
  shows "\<exists>per_node. traverse (node_rows (rx_evidence x) (ar_findings r)) (List.enumerate 1 (ra_nodes (rx_acceptance x))) = Some per_node
    \<and> map (\<lambda>p. (map vm_id (fst p), vm_id (snd p))) per_node
        = map (\<lambda>(i, n). (support_ids i n, ''node-'' @ pad3 i)) (List.enumerate 1 (ra_nodes (rx_acceptance x)))
    \<and> (\<forall>q\<in>set (map snd per_node). set (vm_evidence q) \<subseteq> re_id ` set (rx_evidence x)
        \<and> set (vm_reasons q) - {EvidenceComplete} \<subseteq> plain_codes
        \<and> (UnresolvedReviewFinding \<in> set (vm_reasons q) \<longrightarrow> ar_findings r \<noteq> []))"
proof -
  let ?f = "node_rows (rx_evidence x) (ar_findings r)" and ?ns = "List.enumerate 1 (ra_nodes (rx_acceptance x))"
  have len: "length (ra_nodes (rx_acceptance x)) \<le> 64" using assms by (simp add: verdict_inputs_def)
  have at: "\<exists>supporting row. ?f p = Some (supporting, row) \<and> map vm_id supporting = support_ids (fst p) (snd p)
      \<and> vm_id row = ''node-'' @ pad3 (fst p) \<and> set (vm_evidence row) \<subseteq> re_id ` set (rx_evidence x)" if p: "p \<in> set ?ns" for p
  proof -
    obtain i n where pair: "p = (i, n)" by (cases p)
    with p have "i - 1 < length (ra_nodes (rx_acceptance x))" "1 \<le> i" "n = ra_nodes (rx_acceptance x) ! (i - 1)"
      by (auto simp: in_set_enumerate_eq)
    then have "n \<in> set (ra_nodes (rx_acceptance x))" "i \<le> 64" using len by auto
    from node_rows_made[OF assms this] show ?thesis unfolding pair by simp
  qed
  then obtain per_node where t: "traverse ?f ?ns = Some per_node" using traverse_total by (metis (no_types, lifting))
  have ids: "map (\<lambda>p. (map vm_id (fst p), vm_id (snd p))) per_node = map (\<lambda>(i, n). (support_ids i n, ''node-'' @ pad3 i)) ?ns"
    by (rule traverse_map_in[OF t]) (use at in \<open>fastforce simp: case_prod_unfold\<close>)
  have row: "set (vm_evidence q) \<subseteq> re_id ` set (rx_evidence x) \<and> set (vm_reasons q) - {EvidenceComplete} \<subseteq> plain_codes
        \<and> (UnresolvedReviewFinding \<in> set (vm_reasons q) \<longrightarrow> ar_findings r \<noteq> [])" if q: "q \<in> set (map snd per_node)" for q
  proof -
    obtain i n supporting where made: "(i, n) \<in> set ?ns" "?f (i, n) = Some (supporting, q)"
      using q traverse_set(2)[OF t] by fastforce
    note reasons = node_rows_Some(4)[OF made(2)]
    have "set (vm_evidence q) \<subseteq> re_id ` set (rx_evidence x)" using at[OF made(1)] made(2) by auto
    moreover have "set (vm_reasons q) - {EvidenceComplete} \<subseteq> plain_codes"
      unfolding reasons using findings_plain by (auto simp: plain_codes_def split: if_splits)
    moreover have "UnresolvedReviewFinding \<in> set (vm_reasons q) \<Longrightarrow> ar_findings r \<noteq> []"
    proof -
      assume "UnresolvedReviewFinding \<in> set (vm_reasons q)"
      then have "UnresolvedReviewFinding \<in> set (vm_reasons q) - {EvidenceComplete}" by simp
      then have "for_node (rx_evidence x) (ar_findings r) (rn_id n) \<noteq> []"
        unfolding reasons using findings_plain(1,3) by (auto split: if_splits)
      then show "ar_findings r \<noteq> []" by (rule for_node_subset)
    qed
    ultimately show ?thesis by blast
  qed
  show ?thesis using t ids row by blast
qed

lemma intent_row_made:
  assumes "verdict_inputs x r" "stage_identifier i" "kind \<in> {Objective, Constraint}"
    "\<forall>q\<in>set rows. set (vm_evidence q) \<subseteq> re_id ` set (rx_evidence x)
        \<and> set (vm_reasons q) - {EvidenceComplete} \<subseteq> plain_codes
        \<and> (UnresolvedReviewFinding \<in> set (vm_reasons q) \<longrightarrow> ar_findings r \<noteq> [])"
  shows "\<exists>q. intent_row i kind claim rows (ar_findings r) = Some q"
  unfolding intent_row_def
proof (rule plain_row_made)
  let ?rs = "inherited rows @ (if ar_findings r \<noteq> [] then [UnresolvedReviewFinding] else [])"
  show "set ?rs \<subseteq> plain_codes" using assms(4) by (auto simp: set_inherited plain_codes_def)
  show "UnresolvedReviewFinding \<in> set ?rs \<longleftrightarrow> map fi_id (ar_findings r) \<noteq> []"
    using assms(4) by (auto simp: set_inherited)
  show "\<forall>e\<in>set (concat (map vm_evidence rows)). re_digest e" using assms(1,4) by (fastforce simp: verdict_inputs_def)
  show "\<forall>f\<in>set (map fi_id (ar_findings r)). stage_identifier f" using assms(1) by (auto simp: verdict_inputs_def)
qed (use assms(2,3) in auto)

lemma review_row_made:
  assumes "verdict_inputs x r"
  shows "\<exists>q. review_row r = Some q"
  unfolding review_row_def
proof (rule verdict_row_made)
  show "stage_identifier ''review''" by code_simp
  show "\<forall>e\<in>set (map ci_evidence (concat (map fi_citations (ar_findings r)))). re_digest e"
    using assms by (auto simp: verdict_inputs_def list_all_iff citation_ok_def)
  show "\<forall>f\<in>set (map fi_id (ar_findings r)). stage_identifier f" using assms by (auto simp: verdict_inputs_def)
  show "reasons_consistent ReviewPolicy (sort_reasons [if ar_findings r \<noteq> [] then UnresolvedReviewFinding else ReviewClear])
      (sorted_set (map fi_id (ar_findings r)))"
    by (auto simp: reasons_consistent_def EPISTEMIC_REASONS_def)
qed simp_all

lemma epistemic_row_made:
  assumes "verdict_inputs x r" "a \<in> set (ar_assessments r)"
  shows "\<exists>q. epistemic_row a = Some q"
  unfolding epistemic_row_def
proof (rule verdict_row_made)
  show "stage_identifier (''epistemic-'' @ dimension_value (ea_dimension a))"
    by (cases "ea_dimension a") (simp; code_simp)+
  show "\<forall>e\<in>set (map ci_evidence (ea_citations a)). re_digest e"
    using assms by (auto simp: verdict_inputs_def list_all_iff citation_ok_def)
  show "\<forall>f\<in>set (ea_finding_ids a). stage_identifier f" using assms by (auto simp: verdict_inputs_def list_all_iff)
  have "(ea_disposition a = Concern) = (ea_finding_ids a \<noteq> [])" using assms by (auto simp: verdict_inputs_def)
  then show "reasons_consistent EpistemicPolicy (sort_reasons [disposition_reason (ea_disposition a)])
      (sorted_set (ea_finding_ids a))"
    by (cases "ea_disposition a") (auto simp: reasons_consistent_def EPISTEMIC_REASONS_def)
qed simp_all

section \<open>The matrix of an admitted review\<close>

definition criterion_ids :: "review_context \<Rightarrow> admitted_review \<Rightarrow> string list" where
  "criterion_ids x r = (let a = rx_acceptance x; numbered = List.enumerate 1 (ra_nodes a) in
     [''objective''] @ map (\<lambda>i. ''constraint-'' @ pad3 i) [1..<1 + length (ra_constraints a)]
     @ map (\<lambda>i. ''node-'' @ pad3 i) [1..<1 + length (ra_nodes a)]
     @ concat (map (\<lambda>(i, n). support_ids i n) numbered)
     @ map (\<lambda>q. ''epistemic-'' @ dimension_value (ea_dimension q)) (ar_assessments r) @ [''review''])"

lemma map_pair_parts:
  assumes "map (\<lambda>p. (f (fst p), g (snd p))) xs = map (\<lambda>(i, n). (F i n, G i)) ys"
  shows "map f (map fst xs) = map (\<lambda>(i, n). F i n) ys" "map g (map snd xs) = map (\<lambda>(i, n). G i) ys"
  using arg_cong[OF assms, of "map fst"] arg_cong[OF assms, of "map snd"]
  by (simp_all add: comp_def case_prod_unfold)

lemma matrix_made:
  assumes "verdict_inputs x r"
  shows "\<exists>matrix. verification_matrix x r = Some matrix \<and> map vm_id matrix = criterion_ids x r"
proof -
  let ?a = "rx_acceptance x" and ?fs = "ar_findings r"
  let ?ns = "List.enumerate 1 (ra_nodes ?a)" and ?cs = "List.enumerate 1 (ra_constraints ?a)"
  obtain per_node where
    t: "traverse (node_rows (rx_evidence x) ?fs) ?ns = Some per_node"
    and pairs: "map (\<lambda>p. (map vm_id (fst p), vm_id (snd p))) per_node = map (\<lambda>(i, n). (support_ids i n, ''node-'' @ pad3 i)) ?ns"
    and above: "\<forall>q\<in>set (map snd per_node). set (vm_evidence q) \<subseteq> re_id ` set (rx_evidence x)
        \<and> set (vm_reasons q) - {EvidenceComplete} \<subseteq> plain_codes
        \<and> (UnresolvedReviewFinding \<in> set (vm_reasons q) \<longrightarrow> ?fs \<noteq> [])"
    using node_rows_above[OF assms] by blast
  note parts = map_pair_parts[OF pairs]
  have "stage_identifier ''objective''" by code_simp
  then obtain objective where
    obj: "intent_row ''objective'' Objective (objective_claim ?a) (map snd per_node) ?fs = Some objective"
    using intent_row_made[OF assms _ _ above] by blast
  let ?con = "\<lambda>(i, s). intent_row (''constraint-'' @ pad3 i) Constraint (constraint_claim ?a (i, s)) (map snd per_node) ?fs"
  have "\<exists>q. ?con p = Some q" if p: "p \<in> set ?cs" for p
  proof -
    obtain i s where pair: "p = (i, s)" by (cases p)
    have "length (ra_constraints ?a) \<le> 64" using assms by (simp add: verdict_inputs_def)
    with p pair have "i < 1000" by (auto simp: in_set_enumerate_eq)
    then have "stage_identifier (''constraint-'' @ pad3 i)" using criterion_id(4)[of i i] by simp
    from intent_row_made[OF assms this _ above] show ?thesis unfolding pair by simp
  qed
  then obtain constraints where con: "traverse ?con ?cs = Some constraints"
    using traverse_total[of ?cs ?con] by blast
  obtain epistemic where epi: "traverse epistemic_row (ar_assessments r) = Some epistemic"
    using traverse_total[of "ar_assessments r" epistemic_row] epistemic_row_made[OF assms] by blast
  obtain review where rev: "review_row r = Some review" using review_row_made[OF assms] by blast
  have con_ids: "map vm_id constraints = map (\<lambda>i. ''constraint-'' @ pad3 i) [1..<1 + length (ra_constraints ?a)]"
  proof -
    have "map vm_id constraints = map (\<lambda>(i, s). ''constraint-'' @ pad3 i) ?cs"
      by (rule traverse_map_in[OF con]) (auto simp: intent_row_def dest: verdict_row_Some(3))
    then show ?thesis unfolding map_enumerate_numbers .
  qed
  have epi_ids: "map vm_id epistemic = map (\<lambda>q. ''epistemic-'' @ dimension_value (ea_dimension q)) (ar_assessments r)"
    by (rule traverse_map_in[OF epi]) (auto simp: epistemic_row_def dest: verdict_row_Some(3))
  have one: "vm_id objective = ''objective''" "vm_id review = ''review''"
    using verdict_row_Some(3) obj rev unfolding intent_row_def review_row_def by blast+
  have node_ids: "map vm_id (map snd per_node) = map (\<lambda>i. ''node-'' @ pad3 i) [1..<1 + length (ra_nodes ?a)]"
    using parts(2) unfolding map_enumerate_numbers .
  have support: "map vm_id (concat (map fst per_node)) = concat (map (\<lambda>(i, n). support_ids i n) ?ns)"
    unfolding map_concat parts(1) ..
  let ?m = "[objective] @ constraints @ map snd per_node @ concat (map fst per_node) @ epistemic @ [review]"
  have "verification_matrix x r = Some ?m"
    using t obj con epi rev by (simp add: verification_matrix_def Let_def)
  moreover have "map vm_id ?m = criterion_ids x r"
    unfolding criterion_ids_def Let_def map_append list.map con_ids epi_ids node_ids support one ..
  ultimately show ?thesis by blast
qed

lemma concat_support_distinct: "distinct (concat (map (\<lambda>(i, n). support_ids i n) (List.enumerate k nodes)))"
proof (induction nodes arbitrary: k)
  case (Cons n nodes)
  have later: "s \<notin> set (support_ids k n)" if s: "s \<in> set (concat (map (\<lambda>(i, n). support_ids i n) (List.enumerate (Suc k) nodes)))" for s
  proof -
    obtain i m where "(i, m) \<in> set (List.enumerate (Suc k) nodes)" "s \<in> set (support_ids i m)" using s by auto
    moreover from this have "i \<noteq> k" by (auto simp: in_set_enumerate_eq)
    ultimately show ?thesis by (auto simp: support_ids_def split: if_splits)
  qed
  have own: "distinct (support_ids k n)"
    by (auto simp: support_ids_def distinct_map inj_on_def)
  show ?case using Cons.IH[of "Suc k"] own later by (simp add: enumerate_simps) blast
qed simp

lemma distinct_append_tagged:
  "distinct xs \<Longrightarrow> distinct ys \<Longrightarrow> f ` set xs \<inter> f ` set ys = {} \<Longrightarrow> distinct (xs @ ys)"
  by auto

lemma disjoint_subsets: "A \<subseteq> X \<Longrightarrow> B \<subseteq> Y \<Longrightarrow> X \<inter> Y = {} \<Longrightarrow> A \<inter> B = {}"
  by blast

lemma criterion_ids_distinct:
  assumes "distinct (map ea_dimension (ar_assessments r))"
  shows "distinct (criterion_ids x r)"
proof -
  let ?cs = "map (\<lambda>i. ''constraint-'' @ pad3 i) [1..<1 + length (ra_constraints (rx_acceptance x))]"
  let ?ns = "map (\<lambda>i. ''node-'' @ pad3 i) [1..<1 + length (ra_nodes (rx_acceptance x))]"
  let ?ss = "concat (map (\<lambda>(i, n). support_ids i n) (List.enumerate 1 (ra_nodes (rx_acceptance x))))"
  let ?es = "map (\<lambda>q. ''epistemic-'' @ dimension_value (ea_dimension q)) (ar_assessments r)"
  have es: "distinct ?es"
  proof -
    have "distinct (map (\<lambda>d. ''epistemic-'' @ dimension_value d) (map ea_dimension (ar_assessments r)))"
      using assms dimension_value_inj by (simp add: distinct_map inj_on_def inj_def)
    then show ?thesis by (simp add: comp_def)
  qed
  have numbered: "distinct (map (\<lambda>i. p @ pad3 i) [1..<k])" for p k
    by (simp add: distinct_map inj_on_def)
  have tags: "take 2 ` set ?cs \<subseteq> {''co''}" "take 2 ` set ?ns \<subseteq> {''no''}" "take 2 ` set ?es \<subseteq> {''ep''}"
    "take 2 ` set [''objective''] \<subseteq> {''ob''}" "take 2 ` set [''review''] \<subseteq> {''re''}"
    by auto
  have tag: "take 2 ` set ?ss \<subseteq> {''sc'', ''ch''}" by (auto simp: support_ids_def split: if_splits)
  show ?thesis
    unfolding criterion_ids_def Let_def
  proof (intro distinct_append_tagged[where f = "take 2"])
    show "take 2 ` set ?es \<inter> take 2 ` set [''review''] = {}"
      by (rule disjoint_subsets[OF tags(3,5)]) simp
    have ends: "take 2 ` set (?es @ [''review'']) \<subseteq> {''ep'', ''re''}"
      using tags(3,5) unfolding set_append image_Un by blast
    show "take 2 ` set ?ss \<inter> take 2 ` set (?es @ [''review'']) = {}"
      by (rule disjoint_subsets[OF tag ends]) simp
    have ss: "take 2 ` set (?ss @ ?es @ [''review'']) \<subseteq> {''sc'', ''ch'', ''ep'', ''re''}"
      using tag ends unfolding set_append image_Un by blast
    show "take 2 ` set ?ns \<inter> take 2 ` set (?ss @ ?es @ [''review'']) = {}"
      by (rule disjoint_subsets[OF tags(2) ss]) simp
    have ns: "take 2 ` set (?ns @ ?ss @ ?es @ [''review'']) \<subseteq> {''no'', ''sc'', ''ch'', ''ep'', ''re''}"
      using tags(2) ss unfolding set_append image_Un by blast
    show "take 2 ` set ?cs \<inter> take 2 ` set (?ns @ ?ss @ ?es @ [''review'']) = {}"
      by (rule disjoint_subsets[OF tags(1) ns]) simp
    have cs: "take 2 ` set (?cs @ ?ns @ ?ss @ ?es @ [''review'']) \<subseteq> {''co'', ''no'', ''sc'', ''ch'', ''ep'', ''re''}"
      using tags(1) ns unfolding set_append image_Un by blast
    show "take 2 ` set [''objective''] \<inter> take 2 ` set (?cs @ ?ns @ ?ss @ ?es @ [''review'']) = {}"
      by (rule disjoint_subsets[OF tags(4) cs]) simp
  qed (rule es concat_support_distinct numbered | simp)+
qed

lemma criterion_ids_length:
  "length (criterion_ids x r) = 2 + length (ra_constraints (rx_acceptance x)) + length (ar_assessments r)
     + (\<Sum>n\<leftarrow>ra_nodes (rx_acceptance x). 1 + (if ''repository-write'' \<in> set (rn_effects n) then 1 else 0) + length (rn_checks n))"
proof -
  have "length (support_ids i n) = (if ''repository-write'' \<in> set (rn_effects n) then 1 else 0) + length (rn_checks n)" for i n
    by (simp add: support_ids_def del: upt_Suc)
  then have "length (concat (map (\<lambda>(i, n). support_ids i n) (List.enumerate k ns))) + length ns =
      (\<Sum>n\<leftarrow>ns. 1 + (if ''repository-write'' \<in> set (rn_effects n) then 1 else 0) + length (rn_checks n))" for k ns
    by (induction ns arbitrary: k) (simp_all add: enumerate_simps)
  from this[of 1 "ra_nodes (rx_acceptance x)"] show ?thesis by (simp add: criterion_ids_def Let_def del: upt_Suc)
qed

end
