(* ===== verification/VerdictReport.thy ===== *)
theory VerdictReport
  imports VerdictRows JsonBound
begin

text \<open>
  Reading a report back: the rows of a matrix name at most the evidence of the context and the
  findings of the review, and a row that was made is read from its payload.
\<close>

section \<open>What the rows name\<close>

definition row_bounded :: "review_context \<Rightarrow> admitted_review \<Rightarrow> matrix_row \<Rightarrow> bool" where
  "row_bounded x r q \<longleftrightarrow> set (vm_evidence q) \<subseteq> re_id ` set (rx_evidence x)
     \<and> set (vm_findings q) \<subseteq> fi_id ` set (ar_findings r) \<and> (\<exists>q0. make_matrix_row q0 = Some q)"

lemma verdict_row_bounded:
  assumes "verdict_row i kind claim reasons evidence findings node check_id = Some q"
    "set evidence \<subseteq> re_id ` set (rx_evidence x)" "set findings \<subseteq> fi_id ` set (ar_findings r)"
  shows "row_bounded x r q"
  using verdict_row_Some(5,6)[OF assms(1)] assms unfolding row_bounded_def verdict_row_def by auto

lemma support_bounded:
  "check_row i j n c (rx_evidence x) (ar_findings r) = Some q \<Longrightarrow> row_bounded x r q"
  "scope_row i n (rx_evidence x) (ar_findings r) = Some q \<Longrightarrow> row_bounded x r q"
proof -
  show "row_bounded x r q" if "check_row i j n c (rx_evidence x) (ar_findings r) = Some q"
  proof (rule verdict_row_bounded[OF that[unfolded check_row_def]])
    show "set (map re_id (concat (map (\<lambda>k. select_evidence (rx_evidence x) k (rn_id n) (Some (rc_id c))) CHECK_KINDS)))
        \<subseteq> re_id ` set (rx_evidence x)"
      using select_evidence_subset by fastforce
    show "set (map fi_id (for_check (rx_evidence x) (ar_findings r) (rn_id n) (rc_id c))) \<subseteq> fi_id ` set (ar_findings r)"
      by (auto simp: for_check_def)
  qed
  show "row_bounded x r q" if "scope_row i n (rx_evidence x) (ar_findings r) = Some q"
  proof (rule verdict_row_bounded[OF that[unfolded scope_row_def]])
    show "set (map re_id (scope_selected n (rx_evidence x))) \<subseteq> re_id ` set (rx_evidence x)"
      using select_evidence_subset unfolding scope_selected_def by fastforce
    show "set (map fi_id (scope_for_node (rx_evidence x) (ar_findings r) (rn_id n))) \<subseteq> fi_id ` set (ar_findings r)"
      by (auto simp: scope_for_node_def for_node_def)
  qed
qed

lemma node_rows_bounded:
  assumes "node_rows (rx_evidence x) (ar_findings r) (i, n) = Some (supporting, row)"
  shows "list_all (row_bounded x r) supporting" "row_bounded x r row"
proof -
  let ?ev = "rx_evidence x" and ?fs = "ar_findings r"
  obtain scope checks where
    scope: "(if ''repository-write'' \<in> set (rn_effects n)
       then map_option (\<lambda>r. [r]) (scope_row i n ?ev ?fs) else Some []) = Some scope"
    and checks: "traverse (\<lambda>(j, c). check_row i j n c ?ev ?fs) (List.enumerate 1 (rn_checks n)) = Some checks"
    and row: "node_row i n ?ev ?fs (scope @ checks) = Some row"
    and sup: "supporting = scope @ checks"
    using assms by (auto simp: node_rows_def bind_eq_Some_conv)
  have "row_bounded x r q" if "q \<in> set checks" for q
    using traverse_set(2)[OF checks] that support_bounded(1) by fastforce
  moreover have "row_bounded x r q" if "q \<in> set scope" for q
    using scope that support_bounded(2) by (auto split: if_splits)
  ultimately show "list_all (row_bounded x r) supporting" unfolding sup by (auto simp: list_all_iff)
  show "row_bounded x r row"
  proof (rule verdict_row_bounded[OF row[unfolded node_row_def Let_def]])
    let ?out = "select_evidence ?ev OutcomeEvidence (rn_id n) None"
    have "set ?out \<subseteq> set ?ev" by (rule select_evidence_subset)
    then show "set (map re_id (?out @ concat (map (\<lambda>row. filter (\<lambda>e. re_id e \<in> set (vm_evidence row)) ?ev) (scope @ checks))))
        \<subseteq> re_id ` set ?ev" by auto
    show "set (map fi_id (for_node ?ev ?fs (rn_id n))) \<subseteq> fi_id ` set ?fs" by (auto simp: for_node_def)
  qed
qed

lemma validated_citation:
  assumes "validate_citations r evidence"
    "c \<in> set (concat (map fi_citations (ar_findings r)) @ concat (map ea_citations (ar_assessments r)))"
  shows "ci_evidence c \<in> re_id ` set evidence"
proof -
  have "evidence_by_id evidence (ci_evidence c) \<noteq> None"
    using assms(1)[unfolded validate_citations_def list_all_iff, rule_format, OF assms(2)] by (auto split: option.splits)
  then obtain e where "List.find (\<lambda>e. re_id e = ci_evidence c) evidence = Some e" by (auto simp: evidence_by_id_def)
  from find_id[OF this] show ?thesis by (metis image_eqI)
qed

lemma matrix_bounded:
  assumes "verification_matrix x r = Some matrix" "validate_citations r (rx_evidence x)"
    "set (concat (map ea_finding_ids (ar_assessments r))) \<subseteq> fi_id ` set (ar_findings r)"
  shows "\<forall>q\<in>set matrix. row_bounded x r q"
proof -
  let ?ev = "rx_evidence x" and ?fs = "ar_findings r" and ?a = "rx_acceptance x"
  obtain objective constraints per_node epistemic review where
    m: "matrix = [objective] @ constraints @ map snd per_node @ concat (map fst per_node) @ epistemic @ [review]"
    and nodes: "traverse (node_rows ?ev ?fs) (List.enumerate 1 (ra_nodes ?a)) = Some per_node"
    and obj: "intent_row ''objective'' Objective (objective_claim ?a) (map snd per_node) ?fs = Some objective"
    and con: "traverse (\<lambda>(i, s). intent_row (''constraint-'' @ pad3 i) Constraint (constraint_claim ?a (i, s))
       (map snd per_node) ?fs) (List.enumerate 1 (ra_constraints ?a)) = Some constraints"
    and epi: "traverse epistemic_row (ar_assessments r) = Some epistemic" and rev: "review_row r = Some review"
    by (rule verification_matrix_Some[OF assms(1)])
  have node: "list_all (row_bounded x r) (fst p) \<and> row_bounded x r (snd p)" if p: "p \<in> set per_node" for p
  proof -
    obtain i n where "node_rows ?ev ?fs (i, n) = Some p" using traverse_set(2)[OF nodes] p by force
    then show ?thesis using node_rows_bounded[of x r i n "fst p" "snd p"] by simp
  qed
  have intent: "row_bounded x r q" if "intent_row i kind claim (map snd per_node) ?fs = Some q" for i kind claim q
  proof (rule verdict_row_bounded[OF that[unfolded intent_row_def]])
    show "set (concat (map vm_evidence (map snd per_node))) \<subseteq> re_id ` set ?ev"
      using node by (fastforce simp: row_bounded_def)
  qed simp
  have constraint: "row_bounded x r q" if "q \<in> set constraints" for q
    using traverse_set(2)[OF con] that intent by fastforce
  have epistemic: "row_bounded x r q" if q: "q \<in> set epistemic" for q
  proof -
    obtain a where a: "a \<in> set (ar_assessments r)" "epistemic_row a = Some q" using traverse_set(2)[OF epi] q by blast
    show ?thesis
    proof (rule verdict_row_bounded[OF a(2)[unfolded epistemic_row_def]])
      show "set (map ci_evidence (ea_citations a)) \<subseteq> re_id ` set ?ev"
        using validated_citation[OF assms(2)] a(1) by fastforce
      show "set (ea_finding_ids a) \<subseteq> fi_id ` set ?fs" using assms(3) a(1) by auto
    qed
  qed
  have "row_bounded x r review"
  proof (rule verdict_row_bounded[OF rev[unfolded review_row_def]])
    show "set (map ci_evidence (concat (map fi_citations ?fs))) \<subseteq> re_id ` set ?ev"
      using validated_citation[OF assms(2)] by fastforce
  qed simp
  then show ?thesis
    unfolding m using intent[OF obj] constraint node epistemic by (auto simp: list_all_iff)
qed

section \<open>Reading a row\<close>

lemma kinds_member [simp]: "member_of CRITERION_KINDS criterion_kind_value (criterion_kind_value k) = Some k"
  by (cases k) (simp_all add: member_of_def CRITERION_KINDS_def)

lemma reason_read [simp]: "reason_from_json (JStr (reason_code_value c)) = Some c"
  by (cases c) (simp_all add: reason_from_json_def as_str_def member_of_def REASON_CODES_def)

lemma reason_code_value_inj: "inj reason_code_value"
  by (rule injI) (metis reason_read option.inject)

lemma digest_no_nul: "re_digest s \<Longrightarrow> CHR 0x00 \<notin> set s"
proof
  assume s: "re_digest s" "CHR 0x00 \<in> set s"
  then have "CHR 0x00 \<in> set (drop 7 s)" by (auto simp: re_digest_def startswith_iff)
  then have "is_lower_hex (CHR 0x00)" using s(1) by (auto simp: re_digest_def re_hex_def list_all_iff)
  then show False by (simp add: is_lower_hex_def is_digit_def code_def)
qed

lemma report_text_digest [simp]: "re_digest s \<Longrightarrow> report_text (JStr s) = Some s"
  using digest_no_nul by (auto simp: report_text_def as_str_def re_digest_def startswith_iff)

lemma report_text_identifier [simp]: "stage_identifier s \<Longrightarrow> report_text (JStr s) = Some s"
  by (auto simp: report_text_def as_str_def stage_identifier_def re_ident_def list_all_iff is_alnum_def
      is_digit_def is_lower_def is_upper_def code_def split: list.splits)

lemma report_optional_read [simp]:
  "(case v of None \<Rightarrow> True | Some i \<Rightarrow> stage_identifier i) \<Longrightarrow> report_optional_text (opt_str v) = Some v"
  by (auto simp: report_optional_text_def opt_str_def split: option.splits)

lemma make_matrix_row_again:
  assumes "make_matrix_row q0 = Some q"
  shows "make_matrix_row q = Some q" "vm_reasons q \<noteq> []" "length (vm_reasons q) \<le> 13" "distinct (vm_evidence q)"
    "distinct (vm_findings q)" "re_digest (vm_claim q)" "stage_identifier (vm_id q)" "\<forall>e\<in>set (vm_evidence q). re_digest e"
    "\<forall>f\<in>set (vm_findings q). stage_identifier f" "case vm_node q of None \<Rightarrow> True | Some i \<Rightarrow> stage_identifier i"
    "case vm_check q of None \<Rightarrow> True | Some i \<Rightarrow> stage_identifier i"
proof -
  note q = make_matrix_row_Some(1)[OF assms]
  have again: "sort_reasons (sort_reasons rs) = sort_reasons rs" for rs
    by (simp add: sort_reasons_def distinct_remdups_id sort_key_id_if_sorted)
  have all_codes: "length (sort_reasons rs) \<le> 13" for rs
  proof -
    have "set rs \<subseteq> set REASON_CODES" using reason_code.exhaust by (auto simp: REASON_CODES_def)
    then have "card (set rs) \<le> card (set REASON_CODES)" by (rule card_mono[OF finite_set])
    also have "\<dots> \<le> 13" using card_length[of REASON_CODES] by (simp add: REASON_CODES_def)
    finally show ?thesis by simp
  qed
  have nonempty: "sort_reasons rs = [] \<longleftrightarrow> rs = []" for rs by (metis set_empty set_sort_reasons)
  show "make_matrix_row q = Some q"
    using assms unfolding q
    by (auto simp: make_matrix_row_def Let_def again nonempty list_all_iff status_for_reasons_set split: if_splits)
  show "vm_reasons q \<noteq> []" using assms by (auto simp: make_matrix_row_def Let_def nonempty split: if_splits)
  show "length (vm_reasons q) \<le> 13" using all_codes by (simp add: q)
  show "distinct (vm_evidence q)"
    "distinct (vm_findings q)" "re_digest (vm_claim q)" "stage_identifier (vm_id q)" "\<forall>e\<in>set (vm_evidence q). re_digest e"
    "\<forall>f\<in>set (vm_findings q). stage_identifier f" "case vm_node q of None \<Rightarrow> True | Some i \<Rightarrow> stage_identifier i"
    "case vm_check q of None \<Rightarrow> True | Some i \<Rightarrow> stage_identifier i"
    using assms by (auto simp: make_matrix_row_def Let_def list_all_iff split: if_splits)
qed

lemma matrix_row_readback:
  assumes "make_matrix_row q0 = Some q" "length (vm_evidence q) \<le> 128" "length (vm_findings q) \<le> 64"
  shows "matrix_row_from_mapping (matrix_row_payload q) = Some q"
proof -
  note q = make_matrix_row_again[OF assms(1)]
  have eta: "\<lparr>vm_id = vm_id q, vm_kind = vm_kind q, vm_claim = vm_claim q, vm_status = vm_status q,
       vm_reasons = vm_reasons q, vm_evidence = vm_evidence q, vm_findings = vm_findings q, vm_node = vm_node q,
       vm_check = vm_check q\<rparr> = q" by (cases q) simp
  have "report_sequence 1 13 (strings (map reason_code_value (vm_reasons q))) = Some (map (JStr \<circ> reason_code_value) (vm_reasons q))"
    "report_sequence 0 128 (strings (vm_evidence q)) = Some (map JStr (vm_evidence q))"
    "report_sequence 0 64 (strings (vm_findings q)) = Some (map JStr (vm_findings q))"
    using q(2,3) assms(2,3) by (cases "vm_reasons q"; simp add: report_sequence_def strings_def as_arr_def)+
  moreover have "traverse reason_from_json (map (JStr \<circ> reason_code_value) (vm_reasons q)) = Some (vm_reasons q)"
    by (rule traverse_map) simp
  moreover have "traverse report_text (map JStr (vm_evidence q)) = Some (vm_evidence q)"
    "traverse report_text (map JStr (vm_findings q)) = Some (vm_findings q)"
    using q(8,9) by (auto intro!: traverse_map)
  ultimately show ?thesis
    using q(1,6,7,10,11)
    by (simp add: matrix_row_from_mapping_def matrix_row_payload_def as_obj_def keys_are_def insert_commute
        jget_def[of "(_, _) # _"] as_str_def eta)
qed

lemma distinct_subset_length:
  assumes "distinct xs" "set xs \<subseteq> f ` set ys"
  shows "length xs \<le> length ys"
proof -
  have "card (set xs) \<le> card (f ` set ys)" using assms(2) by (simp add: card_mono)
  also have "\<dots> \<le> card (set ys)" by (simp add: card_image_le)
  also have "\<dots> \<le> length ys" by (rule card_length)
  finally show ?thesis using assms(1) by (simp add: distinct_card)
qed

lemma row_bounded_lengths:
  assumes "row_bounded x r q"
  shows "length (vm_evidence q) \<le> length (rx_evidence x)" "length (vm_findings q) \<le> length (ar_findings r)"
proof -
  obtain q0 where "make_matrix_row q0 = Some q" using assms by (auto simp: row_bounded_def)
  note q = make_matrix_row_again(4,5)[OF this]
  show "length (vm_evidence q) \<le> length (rx_evidence x)" "length (vm_findings q) \<le> length (ar_findings r)"
    using q assms by (auto simp: row_bounded_def intro: distinct_subset_length)
qed

lemma report_readback:
  assumes "verification_report_ok p" "\<forall>q\<in>set (vp_matrix p). row_bounded x r q"
    "length (rx_evidence x) \<le> 128" "length (ar_findings r) \<le> 64"
  shows "verification_report_from_mapping (verification_report_payload p) = Some p"
proof -
  have eta: "\<lparr>vp_run_id = vp_run_id p, vp_context = vp_context p, vp_acceptance = vp_acceptance p, vp_state = vp_state p,
       vp_artifact_evidence = vp_artifact_evidence p, vp_admitted = vp_admitted p, vp_status = vp_status p,
       vp_matrix = vp_matrix p, vp_schema = VERIFICATION_REPORT_SCHEMA\<rparr> = p"
    using assms(1) by (cases p) (simp add: verification_report_ok_def)
  have row: "matrix_row_from_mapping (matrix_row_payload q) = Some q" if "q \<in> set (vp_matrix p)" for q
  proof -
    have b: "row_bounded x r q" using assms(2) that by blast
    then obtain q0 where "make_matrix_row q0 = Some q" by (auto simp: row_bounded_def)
    then show ?thesis using row_bounded_lengths[OF b] assms(3,4) by (intro matrix_row_readback) auto
  qed
  have "traverse matrix_row_from_mapping (map matrix_row_payload (vp_matrix p)) = Some (vp_matrix p)"
    by (rule traverse_map) (rule row)
  moreover have "report_sequence 1 MAX_MATRIX_ROWS (JArr (map matrix_row_payload (vp_matrix p)))
      = Some (map matrix_row_payload (vp_matrix p))"
    using assms(1) by (simp add: report_sequence_def as_arr_def verification_report_ok_def)
  moreover have "vp_schema p = VERIFICATION_REPORT_SCHEMA" "stage_identifier (vp_run_id p)" "re_digest (vp_context p)"
    "re_digest (vp_acceptance p)" "re_digest (vp_state p)" "re_digest (vp_artifact_evidence p)" "re_digest (vp_admitted p)"
    using assms(1) by (simp_all add: verification_report_ok_def)
  ultimately show ?thesis
    using assms(1)
    by (simp add: verification_report_from_mapping_def verification_report_payload_def keys_are_def insert_commute
        jget_def[of "(_, _) # _"] as_str_def Let_def eta)
qed

section \<open>The size of a report\<close>

lemma stage_identifier_size: "stage_identifier s \<Longrightarrow> length s \<le> 128"
  using re_ident_length unfolding stage_identifier_def by fastforce

lemma sum_list_bound: "(\<And>y. y \<in> set ys \<Longrightarrow> f y \<le> (k::nat)) \<Longrightarrow> sum_list (map f ys) \<le> k * length ys"
  by (induction ys) force+

lemma strings_bound: "(\<And>s. s \<in> set xs \<Longrightarrow> length s \<le> k) \<Longrightarrow> json_bound (strings xs) \<le> 2 + (6 * k + 3) * length xs"
  using sum_list_bound[of xs "\<lambda>s. json_bound (JStr s) + 1" "6 * k + 3"] by (simp add: strings_def comp_def)

lemma matrix_row_bound:
  assumes "row_bounded x r q"
  shows "json_bound (matrix_row_payload q) \<le> 7000 + 429 * length (rx_evidence x) + 771 * length (ar_findings r)"
proof -
  obtain q0 where "make_matrix_row q0 = Some q" using assms by (auto simp: row_bounded_def)
  note q = make_matrix_row_again[OF this] and lens = row_bounded_lengths[OF assms]
  have "json_bound (strings (vm_evidence q)) \<le> 2 + (6 * 71 + 3) * length (vm_evidence q)"
    by (rule strings_bound) (use q(8) re_digest_length in auto)
  moreover have "json_bound (strings (vm_findings q)) \<le> 2 + (6 * 128 + 3) * length (vm_findings q)"
    by (rule strings_bound) (use q(9) stage_identifier_size in auto)
  moreover have "json_bound (strings (map reason_code_value (vm_reasons q))) \<le> 2 + (6 * 27 + 3) * length (vm_reasons q)"
  proof -
    have "length (reason_code_value c) \<le> 27" for c by (cases c) simp_all
    then show ?thesis using strings_bound[of "map reason_code_value (vm_reasons q)" 27] by auto
  qed
  moreover have "json_bound (opt_str v) \<le> 770" if "case v of None \<Rightarrow> True | Some i \<Rightarrow> stage_identifier i" for v
    using that stage_identifier_size by (fastforce simp: opt_str_def split: option.splits)
  then have "json_bound (opt_str (vm_node q)) \<le> 770" "json_bound (opt_str (vm_check q)) \<le> 770" using q(10,11) by auto
  moreover have "length (criterion_kind_value (vm_kind q)) \<le> 16" by (cases "vm_kind q") simp_all
  moreover have "length (verification_status_value (vm_status q)) \<le> 12" by (cases "vm_status q") simp_all
  moreover have "length (vm_id q) \<le> 128" "length (vm_claim q) = 71" using q(6,7) re_digest_length stage_identifier_size by auto
  ultimately show ?thesis using q(3) lens by (simp add: matrix_row_payload_def)
qed

lemma report_fits:
  assumes "list_all re_digest [vp_context p, vp_acceptance p, vp_state p, vp_artifact_evidence p, vp_admitted p]"
    "stage_identifier (vp_run_id p)" "vp_schema p = VERIFICATION_REPORT_SCHEMA" "\<forall>q\<in>set (vp_matrix p). row_bounded x r q"
    "(7001 + 429 * length (rx_evidence x) + 771 * length (ar_findings r)) * length (vp_matrix p) \<le> 4000000"
  shows "length (json_bytes (JObj (verification_report_payload p))) \<le> MAX_REPORT_BYTES"
proof (rule json_size_within)
  have "json_bound (JArr (map matrix_row_payload (vp_matrix p))) \<le> 4000002"
    using sum_list_bound[of "vp_matrix p" "\<lambda>q. json_bound (matrix_row_payload q) + 1"
        "7001 + 429 * length (rx_evidence x) + 771 * length (ar_findings r)"] matrix_row_bound assms(4,5)
    by (force simp: comp_def)
  moreover have "length (verification_status_value (vp_status p)) \<le> 12" by (cases "vp_status p") simp_all
  moreover have "length (vp_context p) = 71" "length (vp_acceptance p) = 71" "length (vp_state p) = 71"
    "length (vp_artifact_evidence p) = 71" "length (vp_admitted p) = 71"
    using assms(1) re_digest_length by auto
  moreover have "length (vp_run_id p) \<le> 128" using assms(2) stage_identifier_size by auto
  ultimately show "json_bound (JObj (verification_report_payload p)) \<le> MAX_REPORT_BYTES"
    using assms(3) by (simp add: verification_report_payload_def MAX_REPORT_BYTES_def VERIFICATION_REPORT_SCHEMA_def)
qed

end
