(* ===== verification/VerdictProps.thy ===== *)
theory VerdictProps
  imports VerdictReport ReviewSample
begin

text \<open>
  Properties of the verdict of \<open>orchestration/verification.py\<close>: what the status says of the review
  and its evidence, the round trip of a report and the bound on the rows of its matrix.
\<close>

section \<open>What a verdict should say\<close>

text \<open>The digest of a check disagrees with the one artifact that should prove it.\<close>

definition identity_mismatch :: "review_evidence list \<Rightarrow> review_node \<Rightarrow> review_check \<Rightarrow> bool" where
  "identity_mismatch evidence n c \<longleftrightarrow>
     (\<exists>e. select_evidence evidence CheckCommand (rn_id n) (Some (rc_id c)) = [e] \<and> re_artifact e \<noteq> rc_command c)
     \<or> (\<exists>e. select_evidence evidence CheckResult (rn_id n) (Some (rc_id c)) = [e] \<and> re_artifact e \<noteq> rc_result c)"

definition verdict_blocked :: "review_context \<Rightarrow> admitted_review \<Rightarrow> bool" where
  "verdict_blocked x r \<longleftrightarrow> ar_findings r \<noteq> []
     \<or> (\<exists>a\<in>set (ar_assessments r). ea_disposition a = Concern)
     \<or> (\<exists>n\<in>set (ra_nodes (rx_acceptance x)). \<exists>c\<in>set (rn_checks n).
          \<not> rc_passed c \<or> identity_mismatch (rx_evidence x) n c)"

text \<open>Exactly one outcome, one item of each kind for each check, and for a writing node one item of
  each required kind for each changed path, all of one operation.\<close>

definition path_complete :: "review_evidence list \<Rightarrow> string \<Rightarrow> bool" where
  "path_complete selected p \<longleftrightarrow> (\<exists>operation.
     (\<forall>e\<in>set selected. re_path e = Some p \<longrightarrow> re_operation e = Some operation)
     \<and> (\<forall>k\<in>set (required_kinds operation).
          length (filter (\<lambda>e. re_path e = Some p \<and> re_kind e = k) selected) = 1))"

definition change_complete :: "review_evidence list \<Rightarrow> review_node \<Rightarrow> bool" where
  "change_complete evidence n \<longleftrightarrow>
     (\<exists>e\<in>set (scope_selected n evidence). re_path e \<noteq> None)
     \<and> (\<forall>e\<in>set (scope_selected n evidence). \<forall>p. re_path e = Some p \<longrightarrow> path_complete (scope_selected n evidence) p)"

definition node_complete :: "review_evidence list \<Rightarrow> review_node \<Rightarrow> bool" where
  "node_complete evidence n \<longleftrightarrow>
     length (select_evidence evidence OutcomeEvidence (rn_id n) None) = 1
     \<and> (\<forall>c\<in>set (rn_checks n). \<forall>k\<in>set CHECK_KINDS.
          length (select_evidence evidence k (rn_id n) (Some (rc_id c))) = 1)
     \<and> (''repository-write'' \<in> set (rn_effects n) \<longrightarrow> change_complete evidence n)"

definition verdict_complete :: "review_context \<Rightarrow> admitted_review \<Rightarrow> bool" where
  "verdict_complete x r \<longleftrightarrow> (\<forall>n\<in>set (ra_nodes (rx_acceptance x)). node_complete (rx_evidence x) n)
     \<and> (\<forall>a\<in>set (ar_assessments r). ea_disposition a \<noteq> Unknown)"

section \<open>The reasons against that\<close>

lemma one_iff: "length xs = 1 \<longleftrightarrow> xs \<noteq> [] \<and> \<not> length xs > 1"
  by (cases xs) auto

lemma count_one: "(n::nat) = 1 \<longleftrightarrow> n \<noteq> 0 \<and> \<not> n > 1"
  by auto

lemma distinct_single: "distinct xs \<Longrightarrow> set xs = {a} \<Longrightarrow> xs = [a]"
  by (cases xs) (auto simp: subset_singleton_iff)

lemma check_findings_mem:
  "CheckFailed \<in> check_findings n c evidence fs \<longleftrightarrow> \<not> rc_passed c"
  "EvidenceIdentityMismatch \<in> check_findings n c evidence fs \<longleftrightarrow> identity_mismatch evidence n c"
  "UnresolvedReviewFinding \<in> check_findings n c evidence fs \<longleftrightarrow> for_check evidence fs (rn_id n) (rc_id c) \<noteq> []"
  "EpistemicConcern \<notin> check_findings n c evidence fs"
proof -
  have hd_one: "length xs = 1 \<and> P (hd xs) \<longleftrightarrow> (\<exists>e. xs = [e] \<and> P e)" for xs :: "review_evidence list" and P
    by (cases xs) auto
  note d = check_findings_def check_reasons_def Let_def or_complete_def
  show "CheckFailed \<in> check_findings n c evidence fs \<longleftrightarrow> \<not> rc_passed c" by (auto simp: d)
  show "EvidenceIdentityMismatch \<in> check_findings n c evidence fs \<longleftrightarrow> identity_mismatch evidence n c"
    unfolding identity_mismatch_def hd_one[symmetric] by (auto simp: d)
  show "UnresolvedReviewFinding \<in> check_findings n c evidence fs \<longleftrightarrow> for_check evidence fs (rn_id n) (rc_id c) \<noteq> []"
    by (auto simp: d)
  show "EpistemicConcern \<notin> check_findings n c evidence fs" by (auto simp: d)
qed

lemma check_findings_incomplete:
  "check_findings n c evidence fs \<inter> incomplete_codes = {} \<longleftrightarrow>
    (\<forall>k\<in>set CHECK_KINDS. length (select_evidence evidence k (rn_id n) (Some (rc_id c))) = 1)"
  unfolding one_iff check_findings_def check_reasons_def Let_def or_complete_def incomplete_codes_def
  by (auto simp: list_ex_iff)

lemma path_reasons_complete:
  assumes "e \<in> set selected" "re_path e = Some p"
  shows "set (path_reasons selected p) = {} \<longleftrightarrow> path_complete selected p"
proof -
  let ?at = "filter (\<lambda>e. re_path e = Some p) selected"
  have ne: "?at \<noteq> []" using assms by (auto simp: filter_empty_conv)
  have all: "remdups (map re_operation ?at) = [Some operation] \<longleftrightarrow>
      (\<forall>e\<in>set selected. re_path e = Some p \<longrightarrow> re_operation e = Some operation)" for operation
  proof
    assume "remdups (map re_operation ?at) = [Some operation]"
    then have "set (map re_operation ?at) = {Some operation}" by (metis set_remdups list.set(1,2))
    then show "\<forall>e\<in>set selected. re_path e = Some p \<longrightarrow> re_operation e = Some operation" by fastforce
  next
    assume "\<forall>e\<in>set selected. re_path e = Some p \<longrightarrow> re_operation e = Some operation"
    then have "set (remdups (map re_operation ?at)) = {Some operation}" using ne by (force simp: filter_empty_conv)
    then show "remdups (map re_operation ?at) = [Some operation]"
      by (rule distinct_single[OF distinct_remdups])
  qed
  have counts: "filter (\<lambda>e. re_kind e = k) ?at = filter (\<lambda>e. re_path e = Some p \<and> re_kind e = k) selected" for k
    by (simp add: conj_commute)
  show ?thesis
  proof (cases "\<exists>operation. remdups (map re_operation ?at) = [Some operation]")
    case True
    then obtain operation where op: "remdups (map re_operation ?at) = [Some operation]" by blast
    then have "path_complete selected p \<longleftrightarrow> (\<forall>k\<in>set (required_kinds operation).
        length (filter (\<lambda>e. re_path e = Some p \<and> re_kind e = k) selected) = 1)"
      unfolding path_complete_def all[symmetric] by auto
    also have "\<dots> \<longleftrightarrow> set (path_reasons selected p) = {}"
      unfolding path_reasons_def Let_def op counts count_one by (auto simp: list_ex_iff image_iff)
    finally show ?thesis by simp
  next
    case False
    then have "\<not> path_complete selected p" unfolding path_complete_def all[symmetric] by blast
    moreover have "set (path_reasons selected p) = {EvidenceAmbiguous}"
      using False unfolding path_reasons_def Let_def by (auto split: list.splits option.splits)
    ultimately show ?thesis by simp
  qed
qed

lemma scope_selected_paths:
  fixes selected :: "review_evidence list"
  shows "p \<in> set (sorted_set (List.map_filter re_path selected)) \<longleftrightarrow> (\<exists>e\<in>set selected. re_path e = Some p)"
  by (auto simp: List.map_filter_def image_iff)

lemma scope_findings_incomplete:
  "(set (scope_reasons n evidence fs) - {EvidenceComplete}) \<inter> incomplete_codes = {} \<longleftrightarrow> change_complete evidence n"
proof -
  let ?sel = "scope_selected n evidence"
  let ?paths = "sorted_set (List.map_filter re_path ?sel)"
  have none: "?paths = [] \<longleftrightarrow> \<not> (\<exists>e\<in>set ?sel. re_path e \<noteq> None)"
  proof -
    have "?paths = [] \<longleftrightarrow> (\<forall>p. p \<notin> set ?paths)" by (cases ?paths) auto
    then show ?thesis unfolding scope_selected_paths by (metis not_None_eq option.distinct(1))
  qed
  have each: "set (path_reasons ?sel p) \<inter> incomplete_codes = {} \<longleftrightarrow> path_complete ?sel p" if "p \<in> set ?paths" for p
  proof -
    obtain e where "e \<in> set ?sel" "re_path e = Some p" using \<open>p \<in> set ?paths\<close> scope_selected_paths by blast
    moreover have "set (path_reasons ?sel p) \<subseteq> incomplete_codes"
      using path_reasons_incomplete[of ?sel p] by (auto simp: incomplete_codes_def)
    ultimately show ?thesis using path_reasons_complete by (metis inf.absorb1)
  qed
  have "(set (scope_reasons n evidence fs) - {EvidenceComplete}) \<inter> incomplete_codes = {} \<longleftrightarrow>
      ?paths \<noteq> [] \<and> (\<forall>p\<in>set ?paths. set (path_reasons ?sel p) \<inter> incomplete_codes = {})"
    unfolding scope_reasons_def Let_def set_or_complete by (auto simp: incomplete_codes_def)
  also have "\<dots> \<longleftrightarrow> change_complete evidence n"
    unfolding change_complete_def none using each scope_selected_paths[of _ ?sel] by blast
  finally show ?thesis .
qed

lemma scope_findings_blocking:
  assumes c: "c \<in> blocking_codes"
  shows "c \<in> set (scope_reasons n evidence fs) \<longleftrightarrow>
    c = UnresolvedReviewFinding \<and> scope_for_node evidence fs (rn_id n) \<noteq> []"
proof -
  have "c \<notin> set (path_reasons (scope_selected n evidence) p)" for p
    using c path_reasons_incomplete[of "scope_selected n evidence" p] by (auto simp: blocking_codes_def)
  then show ?thesis using c by (auto simp: scope_reasons_def Let_def or_complete_def blocking_codes_def)
qed

lemma outcome_findings_codes:
  "outcome_findings n evidence \<inter> blocking_codes = {}"
  "outcome_findings n evidence \<inter> incomplete_codes = {} \<longleftrightarrow>
     length (select_evidence evidence OutcomeEvidence (rn_id n) None) = 1"
  unfolding one_iff by (auto simp: outcome_findings_def Let_def blocking_codes_def incomplete_codes_def)

lemma node_findings_incomplete:
  "(outcome_findings n evidence \<union> node_findings n evidence fs) \<inter> incomplete_codes = {} \<longleftrightarrow> node_complete evidence n"
proof -
  have "(outcome_findings n evidence \<union> node_findings n evidence fs) \<inter> incomplete_codes = {} \<longleftrightarrow>
      outcome_findings n evidence \<inter> incomplete_codes = {}
      \<and> (''repository-write'' \<in> set (rn_effects n) \<longrightarrow>
          (set (scope_reasons n evidence fs) - {EvidenceComplete}) \<inter> incomplete_codes = {})
      \<and> (\<forall>c\<in>set (rn_checks n). check_findings n c evidence fs \<inter> incomplete_codes = {})"
    unfolding node_findings_def by (auto split: if_splits)
  then show ?thesis
    unfolding node_complete_def outcome_findings_codes(2) check_findings_incomplete scope_findings_incomplete by blast
qed

lemma node_findings_blocking:
  assumes "c \<in> blocking_codes"
  shows "c \<in> node_findings n evidence fs \<Longrightarrow> c = UnresolvedReviewFinding \<Longrightarrow> fs \<noteq> []"
    "c \<noteq> UnresolvedReviewFinding \<Longrightarrow> c \<in> node_findings n evidence fs \<longleftrightarrow>
      (\<exists>k\<in>set (rn_checks n). c = CheckFailed \<and> \<not> rc_passed k
        \<or> c = EvidenceIdentityMismatch \<and> identity_mismatch evidence n k)"
proof -
  have c: "c = UnresolvedReviewFinding \<or> c = EvidenceIdentityMismatch \<or> c = CheckFailed \<or> c = EpistemicConcern"
    using assms by (simp add: blocking_codes_def)
  have mem: "c \<in> node_findings n evidence fs \<longleftrightarrow>
      ''repository-write'' \<in> set (rn_effects n) \<and> c = UnresolvedReviewFinding \<and> scope_for_node evidence fs (rn_id n) \<noteq> []
      \<or> (\<exists>k\<in>set (rn_checks n). c \<in> check_findings n k evidence fs)"
    using scope_findings_blocking[OF assms] c unfolding node_findings_def by auto
  show "c \<in> node_findings n evidence fs \<Longrightarrow> c = UnresolvedReviewFinding \<Longrightarrow> fs \<noteq> []"
    unfolding mem by (auto simp: check_findings_mem scope_for_node_def for_node_def for_check_def)
  show "c \<noteq> UnresolvedReviewFinding \<Longrightarrow> c \<in> node_findings n evidence fs \<longleftrightarrow>
      (\<exists>k\<in>set (rn_checks n). c = CheckFailed \<and> \<not> rc_passed k
        \<or> c = EvidenceIdentityMismatch \<and> identity_mismatch evidence n k)"
    unfolding mem using c by (auto simp: check_findings_mem)
qed

lemma disposition_reason_codes:
  "disposition_reason d = EpistemicConcern \<longleftrightarrow> d = Concern"
  "disposition_reason d = EpistemicUnknown \<longleftrightarrow> d = Unknown"
  "disposition_reason d \<in> blocking_codes \<longleftrightarrow> d = Concern"
  "disposition_reason d \<in> incomplete_codes \<longleftrightarrow> d = Unknown"
  by (cases d; simp add: blocking_codes_def incomplete_codes_def)+

lemma matrix_findings_blocking: "matrix_findings x r \<inter> blocking_codes \<noteq> {} \<longleftrightarrow> verdict_blocked x r"
proof
  assume "matrix_findings x r \<inter> blocking_codes \<noteq> {}"
  then obtain c where c: "c \<in> blocking_codes" "c \<in> matrix_findings x r" by blast
  have outcome: "c \<notin> outcome_findings n ev" for n ev using outcome_findings_codes(1) c(1) by blast
  show "verdict_blocked x r"
  proof (cases "c = UnresolvedReviewFinding")
    case True
    have "c \<noteq> disposition_reason d" for d using True by (cases d) auto
    then show ?thesis
      using c True node_findings_blocking(1)[OF c(1)] outcome
      unfolding matrix_findings_def verdict_blocked_def by (auto split: if_splits)
  next
    case False
    then show ?thesis
      using c node_findings_blocking(2)[OF c(1) False] outcome disposition_reason_codes(3)
      unfolding matrix_findings_def verdict_blocked_def by (auto split: if_splits)
  qed
next
  have blocking: "CheckFailed \<in> blocking_codes" "EvidenceIdentityMismatch \<in> blocking_codes"
    "UnresolvedReviewFinding \<in> blocking_codes" "EpistemicConcern \<in> blocking_codes"
    by (simp_all add: blocking_codes_def)
  assume "verdict_blocked x r"
  then consider "ar_findings r \<noteq> []" | a where "a \<in> set (ar_assessments r)" "ea_disposition a = Concern"
    | n k where "n \<in> set (ra_nodes (rx_acceptance x))" "k \<in> set (rn_checks n)" "\<not> rc_passed k"
    | n k where "n \<in> set (ra_nodes (rx_acceptance x))" "k \<in> set (rn_checks n)" "identity_mismatch (rx_evidence x) n k"
    unfolding verdict_blocked_def by blast
  then have "\<exists>c\<in>blocking_codes. c \<in> matrix_findings x r"
  proof cases
    case 1 then show ?thesis using blocking(3) by (auto simp: matrix_findings_def)
  next
    case (2 a)
    then have "disposition_reason (ea_disposition a) \<in> matrix_findings x r" unfolding matrix_findings_def by blast
    then show ?thesis using 2 blocking(4) by auto
  next
    case (3 n k)
    then have "CheckFailed \<in> node_findings n (rx_evidence x) (ar_findings r)"
      using node_findings_blocking(2)[OF blocking(1)] by blast
    then show ?thesis using 3(1) blocking(1) unfolding matrix_findings_def by blast
  next
    case (4 n k)
    then have "EvidenceIdentityMismatch \<in> node_findings n (rx_evidence x) (ar_findings r)"
      using node_findings_blocking(2)[OF blocking(2)] by blast
    then show ?thesis using 4(1) blocking(2) unfolding matrix_findings_def by blast
  qed
  then show "matrix_findings x r \<inter> blocking_codes \<noteq> {}" by blast
qed

lemma matrix_findings_complete: "matrix_findings x r \<inter> incomplete_codes = {} \<longleftrightarrow> verdict_complete x r"
proof -
  have "matrix_findings x r \<inter> incomplete_codes = {} \<longleftrightarrow>
      (\<forall>n\<in>set (ra_nodes (rx_acceptance x)).
        (outcome_findings n (rx_evidence x) \<union> node_findings n (rx_evidence x) (ar_findings r)) \<inter> incomplete_codes = {})
      \<and> (\<forall>a\<in>set (ar_assessments r). disposition_reason (ea_disposition a) \<notin> incomplete_codes)"
  proof -
    have "UnresolvedReviewFinding \<notin> incomplete_codes" by (simp add: incomplete_codes_def)
    then show ?thesis unfolding matrix_findings_def by (simp add: Int_Un_distrib2 split: if_splits) blast
  qed
  then show ?thesis unfolding verdict_complete_def node_findings_incomplete disposition_reason_codes(4) .
qed

section \<open>The verdict\<close>

lemma verify_review_Inr:
  assumes "verify_review x r = Inr p"
  obtains matrix where "verification_matrix x r = Some matrix" "ar_context r = review_context_digest x"
    "ar_acceptance r = review_acceptance_digest (rx_acceptance x)" "validate_citations r (rx_evidence x)"
    "verification_report_ok p"
    "p = \<lparr>vp_run_id = ra_run_id (rx_acceptance x), vp_context = review_context_digest x,
       vp_acceptance = review_acceptance_digest (rx_acceptance x), vp_state = rx_state x,
       vp_artifact_evidence = rx_artifact_evidence x, vp_admitted = admitted_review_digest r,
       vp_status = aggregate_status matrix, vp_matrix = matrix, vp_schema = VERIFICATION_REPORT_SCHEMA\<rparr>"
  using assms by (cases "verification_matrix x r") (auto simp: verify_review_def Let_def split: if_splits)

lemma verdict_status:
  assumes "verify_review x r = Inr p"
  shows "vp_status p = (if verdict_blocked x r then VFail else if verdict_complete x r then VPass else VInconclusive)
    \<and> vp_context p = review_context_digest x \<and> vp_admitted p = admitted_review_digest r
    \<and> vp_acceptance p = ar_acceptance r \<and> vp_state p = rx_state x"
proof -
  obtain matrix where m: "verification_matrix x r = Some matrix" "ar_acceptance r = review_acceptance_digest (rx_acceptance x)"
    and p: "p = \<lparr>vp_run_id = ra_run_id (rx_acceptance x), vp_context = review_context_digest x,
       vp_acceptance = review_acceptance_digest (rx_acceptance x), vp_state = rx_state x,
       vp_artifact_evidence = rx_artifact_evidence x, vp_admitted = admitted_review_digest r,
       vp_status = aggregate_status matrix, vp_matrix = matrix, vp_schema = VERIFICATION_REPORT_SCHEMA\<rparr>"
    by (rule verify_review_Inr[OF assms]) blast
  have "aggregate_status matrix = set_status (matrix_findings x r)"
    unfolding aggregate_status_set[OF matrix_reasons(1)[OF m(1)]]
    by (rule set_status_cong) (rule matrix_reasons(2)[OF m(1)])
  also have "\<dots> = (if verdict_blocked x r then VFail else if verdict_complete x r then VPass else VInconclusive)"
    unfolding set_status_def matrix_findings_blocking matrix_findings_complete by simp
  finally show ?thesis using m(2) by (simp add: p)
qed

text \<open>
  C1: The verdict is exactly what the evidence allows. A report is bound to the digests of the
  context, the acceptance, the state and the admitted review; its status is fail exactly when the
  review has a finding or a dimension of concern, a required check did not pass, or the artifact of
  a check's command or result is not the expected one; otherwise it is pass exactly when the
  evidence is complete: one outcome for each node, one command, result, output and error stream for
  each check, for each path a writing node changed one item of every kind its operation requires,
  and no dimension left unknown; and it is inconclusive in the remaining cases.
\<close>
theorem verdict_exact:
  assumes "verify_review x r = Inr p"
  shows "vp_status p = (if verdict_blocked x r then VFail else if verdict_complete x r then VPass else VInconclusive)
    \<and> vp_context p = review_context_digest x \<and> vp_admitted p = admitted_review_digest r
    \<and> vp_acceptance p = ar_acceptance r \<and> vp_state p = rx_state x"
  using assms by (rule verdict_status)

section \<open>Every admitted review is decided\<close>

text \<open>A context whose parts the constructors made.\<close>

definition context_wf :: "review_context \<Rightarrow> bool" where
  "context_wf x \<longleftrightarrow> (\<exists>x0. make_review_context x0 = Some x) \<and> (\<exists>a0. make_review_acceptance a0 = Some (rx_acceptance x))
     \<and> (\<forall>n\<in>set (ra_nodes (rx_acceptance x)). (\<exists>n0. make_review_node n0 = Some n) \<and> list_all review_check_ok (rn_checks n))
     \<and> (\<forall>e\<in>set (rx_evidence x). \<exists>e0. make_review_evidence e0 = Some e)"

lemma make_review_acceptance_Some:
  assumes "make_review_acceptance a0 = Some a"
  shows "length (ra_nodes a) \<le> 64" "length (ra_constraints a) \<le> 64" "stage_identifier (ra_run_id a)"
proof -
  have "length (ra_nodes a0) \<le> 64" "length (ra_constraints a0) \<le> 64" "stage_identifier (ra_run_id a0)"
    "a = a0\<lparr>ra_nodes := sort_key rn_id (ra_nodes a0)\<rparr>"
    using assms by (auto simp: make_review_acceptance_def Let_def split: if_splits)
  then show "length (ra_nodes a) \<le> 64" "length (ra_constraints a) \<le> 64" "stage_identifier (ra_run_id a)"
    by simp_all
qed

lemma context_wf_facts:
  assumes "context_wf x"
  shows "length (ra_nodes (rx_acceptance x)) \<le> 64" "length (ra_constraints (rx_acceptance x)) \<le> 64"
    "stage_identifier (ra_run_id (rx_acceptance x))"
    "re_digest (rx_state x)" "re_digest (rx_artifact_evidence x)" "length (rx_evidence x) \<le> 128"
    "\<forall>e\<in>set (rx_evidence x). re_digest (re_id e)"
    "\<forall>n\<in>set (ra_nodes (rx_acceptance x)). stage_identifier (rn_id n) \<and> length (rn_checks n) \<le> 64
          \<and> (\<forall>c\<in>set (rn_checks n). stage_identifier (rc_id c))"
proof -
  obtain x0 a0 where made: "make_review_context x0 = Some x" "make_review_acceptance a0 = Some (rx_acceptance x)"
    using assms by (auto simp: context_wf_def)
  show "length (ra_nodes (rx_acceptance x)) \<le> 64" "length (ra_constraints (rx_acceptance x)) \<le> 64"
    "stage_identifier (ra_run_id (rx_acceptance x))"
    by (rule make_review_acceptance_Some[OF made(2)])+
  show "re_digest (rx_state x)" "re_digest (rx_artifact_evidence x)" "length (rx_evidence x) \<le> 128"
    using made(1) by (auto simp: make_review_context_def Let_def split: if_splits)
  show "\<forall>e\<in>set (rx_evidence x). re_digest (re_id e)"
  proof
    fix e assume "e \<in> set (rx_evidence x)"
    then obtain e0 where "make_review_evidence e0 = Some e" using assms by (auto simp: context_wf_def)
    then show "re_digest (re_id e)" by (auto simp: make_review_evidence_def Let_def split: if_splits)
  qed
  show "\<forall>n\<in>set (ra_nodes (rx_acceptance x)). stage_identifier (rn_id n) \<and> length (rn_checks n) \<le> 64
          \<and> (\<forall>c\<in>set (rn_checks n). stage_identifier (rc_id c))"
  proof
    fix n assume n: "n \<in> set (ra_nodes (rx_acceptance x))"
    then obtain n0 where "make_review_node n0 = Some n" and "list_all review_check_ok (rn_checks n)"
      using assms by (auto simp: context_wf_def)
    then show "stage_identifier (rn_id n) \<and> length (rn_checks n) \<le> 64 \<and> (\<forall>c\<in>set (rn_checks n). stage_identifier (rc_id c))"
      by (auto simp: make_review_node_def Let_def list_all_iff review_check_ok_def split: if_splits)
  qed
qed

lemma validate_citations_fit:
  "validate_citations r evidence \<longleftrightarrow> citations_fit_evidence
     (concat (map fi_citations (ar_findings r)) @ concat (map ea_citations (ar_assessments r))) evidence"
  unfolding validate_citations_def citations_fit_evidence_def evidence_by_id_def de_Morgan_disj not_less by simp

lemma admitted_facts:
  assumes "admit_review x p = Some r" "review_proposal_wf p"
  shows "ar_context r = review_context_digest x" "ar_acceptance r = review_acceptance_digest (rx_acceptance x)"
    "list_all finding_wf (ar_findings r)" "list_all assessment_wf (ar_assessments r)"
    "length (ar_findings r) \<le> 64" "distinct (map ea_dimension (ar_assessments r))"
    "set (concat (map ea_finding_ids (ar_assessments r))) = set (map fi_id (ar_findings r))"
    "validate_citations r (rx_evidence x)" "length (ar_assessments r) \<le> 9"
proof -
  note admit = admit_review_Some[OF assms(1)]
  obtain ds where r: "admitted_dimensions (ar_schema r) = Some ds"
    "valid_assessments (ar_assessments r) (set (map fi_id (ar_findings r))) ds" "length (ar_findings r) \<le> 64"
    "length (ar_assessments r) \<le> 9"
    and rec: "r = \<lparr>ar_context = review_context_digest x,
       ar_acceptance = review_acceptance_digest (rx_acceptance x), ar_findings = rp_findings p,
       ar_summary = rp_summary p, ar_assessments = sort_assessments (rp_assessments p),
       ar_schema = (if rp_schema p = PRIOR_REVIEW_PROPOSAL_SCHEMA then PRIOR_ADMITTED_REVIEW_SCHEMA
         else ADMITTED_REVIEW_SCHEMA)\<rparr>"
    by (rule make_admitted_review_Some[OF admit(4)]) simp
  show "ar_context r = review_context_digest x" "ar_acceptance r = review_acceptance_digest (rx_acceptance x)"
    by (simp_all add: rec)
  show "list_all finding_wf (ar_findings r)" "list_all assessment_wf (ar_assessments r)"
    using assms(2) by (simp_all add: rec review_proposal_wf_def list_all_iff)
  show "length (ar_findings r) \<le> 64" "length (ar_assessments r) \<le> 9" by (rule r(3), rule r(4))
  have "distinct ds" using versioned_dimensions_Some(4) r(1) unfolding admitted_dimensions_def by blast
  then show "distinct (map ea_dimension (ar_assessments r))" by (rule valid_assessments_dimensions(1)[OF r(2)])
  show "set (concat (map ea_finding_ids (ar_assessments r))) = set (map fi_id (ar_findings r))"
    using r(2) by (simp add: valid_assessments_def)
  show "validate_citations r (rx_evidence x)"
    using admit(3) unfolding validate_citations_fit by (simp add: citations_fit_evidence_def cited_def rec list_all_iff)
qed

lemma admitted_inputs:
  assumes "context_wf x" "admit_review x p = Some r" "review_proposal_wf p"
  shows "verdict_inputs x r"
proof -
  have "\<forall>f\<in>set (ar_findings r). stage_identifier (fi_id f) \<and> list_all citation_ok (fi_citations f)"
    using admitted_facts(3)[OF assms(2,3)] by (auto simp: list_all_iff finding_wf_def finding_ok_def)
  moreover have "\<forall>a\<in>set (ar_assessments r). list_all citation_ok (ea_citations a) \<and> list_all stage_identifier (ea_finding_ids a)
          \<and> (ea_disposition a = Concern) = (ea_finding_ids a \<noteq> [])"
  proof
    fix a assume "a \<in> set (ar_assessments r)"
    then obtain a0 where "make_assessment a0 = Some a" "list_all citation_ok (ea_citations a)"
      using admitted_facts(4)[OF assms(2,3)] by (auto simp: list_all_iff assessment_wf_def)
    then show "list_all citation_ok (ea_citations a) \<and> list_all stage_identifier (ea_finding_ids a)
          \<and> (ea_disposition a = Concern) = (ea_finding_ids a \<noteq> [])"
      using make_assessment_Some(2,4) by (auto simp: unique_identifiers_def)
  qed
  ultimately show ?thesis
    using context_wf_facts[OF assms(1)] by (simp add: verdict_inputs_def)
qed

definition matrix_rows :: "review_context \<Rightarrow> admitted_review \<Rightarrow> nat" where
  "matrix_rows x r = 2 + length (ra_constraints (rx_acceptance x)) + length (ar_assessments r)
     + (\<Sum>n\<leftarrow>ra_nodes (rx_acceptance x). 1 + (if ''repository-write'' \<in> set (rn_effects n) then 1 else 0) + length (rn_checks n))"

text \<open>
  C9: Every admitted review is decided. For a valid context and a review admitted against it the
  verifier builds the whole matrix, one row for each criterion of the acceptance and the review,
  and returns a report over it; the only refusals left are the bounds of a report, its number of
  rows and its encoded size, and never a binding or citation mismatch.
\<close>
theorem admitted_review_decided:
  assumes "context_wf x" "review_proposal_wf p" "admit_review x p = Some r"
  shows "\<exists>report. verification_matrix x r = Some (vp_matrix report) \<and> length (vp_matrix report) = matrix_rows x r
    \<and> verify_review x r =
        (if matrix_rows x r \<le> MAX_MATRIX_ROWS
            \<and> length (json_bytes (JObj (verification_report_payload report))) \<le> MAX_REPORT_BYTES
         then Inr report else Inl InvalidInput)"
proof -
  note facts = admitted_facts[OF assms(3,2)] and ctx = context_wf_facts[OF assms(1)]
  obtain matrix where m: "verification_matrix x r = Some matrix" "map vm_id matrix = criterion_ids x r"
    using matrix_made[OF admitted_inputs[OF assms(1,3,2)]] by blast
  have len: "length matrix = matrix_rows x r"
    using arg_cong[OF m(2), of length] by (simp add: criterion_ids_length matrix_rows_def)
  then have pos: "1 \<le> length matrix" by (simp add: matrix_rows_def)
  have dist: "distinct (map vm_id matrix)" unfolding m(2) by (rule criterion_ids_distinct[OF facts(6)])
  define report where "report = \<lparr>vp_run_id = ra_run_id (rx_acceptance x), vp_context = review_context_digest x,
       vp_acceptance = review_acceptance_digest (rx_acceptance x), vp_state = rx_state x,
       vp_artifact_evidence = rx_artifact_evidence x, vp_admitted = admitted_review_digest r,
       vp_status = aggregate_status matrix, vp_matrix = matrix, vp_schema = VERIFICATION_REPORT_SCHEMA\<rparr>"
  have ok: "verification_report_ok report \<longleftrightarrow> matrix_rows x r \<le> MAX_MATRIX_ROWS
            \<and> length (json_bytes (JObj (verification_report_payload report))) \<le> MAX_REPORT_BYTES"
    unfolding verification_report_ok_def
    using ctx(3-5) len pos dist
    by (auto simp: report_def review_context_digest_def review_acceptance_digest_def admitted_review_digest_def)
  have "verify_review x r = (if verification_report_ok report then Inr report else Inl InvalidInput)"
    using m(1) facts(1,2,8) by (simp add: verify_review_def Let_def report_def)
  then show ?thesis using m(1) len unfolding ok by (intro exI[of _ report]) (simp add: report_def)
qed

text \<open>
  A report survives its durable payload: the report over an admitted review reads back as
  itself, matrix included, so the reader's own bounds never refuse what the verifier produced.
\<close>
theorem verification_report_roundtrip:
  assumes "context_wf x" "review_proposal_wf p" "admit_review x p = Some r" "verify_review x r = Inr report"
  shows "verification_report_from_mapping (verification_report_payload report) = Some report"
proof -
  note facts = admitted_facts[OF assms(3,2)]
  obtain matrix where "verification_matrix x r = Some matrix" "verification_report_ok report" "vp_matrix report = matrix"
    by (rule verify_review_Inr[OF assms(4)]) simp
  then show ?thesis
    using report_readback matrix_bounded[of x r matrix] facts(5,7,8) context_wf_facts(6)[OF assms(1)] by auto
qed

section \<open>A sample verdict\<close>

lemma sample_context_wf: "context_wf sample_context"
proof -
  have "rx_acceptance sample_context = sample_acceptance" "rx_evidence sample_context = [sample_outcome]"
    "ra_nodes sample_acceptance = [sample_node ''a'' []]" "rn_checks (sample_node ''a'' []) = [sample_check]"
    by (simp_all add: sample_context_def sample_acceptance_def sample_node_def)
  then show ?thesis
    using sample_context_made sample_acceptance_made sample_node_made sample_check_ok sample_outcome_made
    by (auto simp: context_wf_def)
qed

lemma sample_decided: "\<exists>report. verify_review sample_context sample_admitted = Inr report"
proof -
  note given = sample_context_wf sample_review_wf sample_admission
  note facts = admitted_facts[OF given(3,2)] and ctx = context_wf_facts[OF given(1)]
  have rows: "matrix_rows sample_context sample_admitted = 14"
    by (simp add: matrix_rows_def sample_context_def sample_acceptance_def sample_node_def sample_admitted_def sample_review_def)
  obtain matrix where m: "verification_matrix sample_context sample_admitted = Some matrix"
    "map vm_id matrix = criterion_ids sample_context sample_admitted"
    using matrix_made[OF admitted_inputs[OF given(1,3,2)]] by blast
  have len: "length matrix = 14"
    using arg_cong[OF m(2), of length] rows by (simp add: criterion_ids_length matrix_rows_def)
  define report where "report = \<lparr>vp_run_id = ra_run_id (rx_acceptance sample_context),
       vp_context = review_context_digest sample_context,
       vp_acceptance = review_acceptance_digest (rx_acceptance sample_context), vp_state = rx_state sample_context,
       vp_artifact_evidence = rx_artifact_evidence sample_context, vp_admitted = admitted_review_digest sample_admitted,
       vp_status = aggregate_status matrix, vp_matrix = matrix, vp_schema = VERIFICATION_REPORT_SCHEMA\<rparr>"
  have digests: "list_all re_digest [vp_context report, vp_acceptance report, vp_state report,
      vp_artifact_evidence report, vp_admitted report]"
    using ctx(4,5) by (simp add: report_def review_context_digest_def review_acceptance_digest_def admitted_review_digest_def)
  have bounded: "\<forall>q\<in>set (vp_matrix report). row_bounded sample_context sample_admitted q"
    using matrix_bounded[OF m(1)] facts(7,8) by (auto simp: report_def)
  have "length (json_bytes (JObj (verification_report_payload report))) \<le> MAX_REPORT_BYTES"
  proof (rule report_fits[OF digests _ _ bounded])
    show "stage_identifier (vp_run_id report)" using ctx(3) by (simp add: report_def)
    show "vp_schema report = VERIFICATION_REPORT_SCHEMA" by (simp add: report_def)
    show "(7001 + 429 * length (rx_evidence sample_context) + 771 * length (ar_findings sample_admitted)) * length (vp_matrix report) \<le> 4000000"
      using len by (simp add: report_def sample_context_def sample_admitted_def sample_review_def)
  qed
  moreover have "distinct (map vm_id matrix)" unfolding m(2) by (rule criterion_ids_distinct[OF facts(6)])
  ultimately have "verification_report_ok report"
    using digests ctx(3) len unfolding verification_report_ok_def by (auto simp: report_def MAX_MATRIX_ROWS_def)
  then show ?thesis using m(1) facts(1,2,8) by (simp add: verify_review_def Let_def report_def)
qed

lemma sample_blocked: "verdict_blocked sample_context sample_admitted"
  by (simp add: verdict_blocked_def sample_admitted_def sample_review_def)

theorem verdict_exact_witness:
  "\<exists>report. verify_review sample_context sample_admitted = Inr report \<and> vp_status report = VFail"
  using sample_decided verdict_exact sample_blocked by (metis (no_types, lifting))

theorem admitted_review_decided_witness:
  "admit_review sample_context sample_review = Some sample_admitted
   \<and> (\<exists>matrix. verification_matrix sample_context sample_admitted = Some matrix \<and> length matrix = 14)"
proof -
  have "matrix_rows sample_context sample_admitted = 14"
    by (simp add: matrix_rows_def sample_context_def sample_acceptance_def sample_node_def sample_admitted_def sample_review_def)
  then show ?thesis
    using admitted_review_decided[OF sample_context_wf sample_review_wf sample_admission] sample_admission by auto
qed

theorem verification_report_roundtrip_witness:
  "\<exists>report. verify_review sample_context sample_admitted = Inr report
    \<and> verification_report_from_mapping (verification_report_payload report) = Some report"
  using sample_decided verification_report_roundtrip[OF sample_context_wf sample_review_wf sample_admission] by blast

end
