(* ===== verification/Acceptance.thy ===== *)
theory Acceptance
  imports Lifecycle Worktree Review
begin

text \<open>
  \<open>orchestration/acceptance.py\<close>: the command of a check and the result an isolation adapter
  returns. A constructor raises one content-free error, so both checks are booleans.
\<close>

section \<open>Commands\<close>

definition ACCEPTANCE_COMMAND_SCHEMA :: string where
  "ACCEPTANCE_COMMAND_SCHEMA = ''blackcell.acceptance-command/v1''"
definition ACCEPTANCE_RESULT_SCHEMA :: string where
  "ACCEPTANCE_RESULT_SCHEMA = ''blackcell.acceptance-result/v1''"
definition ACCEPTANCE_STREAM_SCHEMA :: string where
  "ACCEPTANCE_STREAM_SCHEMA = ''blackcell.acceptance-stream/v1''"
definition MAX_ACCEPTANCE_STREAM_BYTES :: nat where
  "MAX_ACCEPTANCE_STREAM_BYTES = 16 * 1024 * 1024"

definition acceptance_check_id :: "string \<Rightarrow> bool" where
  "acceptance_check_id = re_ident is_alnum (\<lambda>c. is_alnum c \<or> c \<in> set ''._-'') 119"

definition executable_alias :: "string \<Rightarrow> bool" where
  "executable_alias = re_ident is_alnum (\<lambda>c. is_alnum c \<or> c \<in> set ''._+-'') 63"

text \<open>The timeout is an integer or a finite float, kept as the JSON number it is.\<close>

record acceptance_command =
  ac_check_id :: string
  ac_argv :: "string list"
  ac_exit :: int
  ac_timeout :: json
  ac_stdout_limit :: int
  ac_stderr_limit :: int
  ac_schema :: string

fun timeout_ok :: "json \<Rightarrow> bool" where
  "timeout_ok (JInt i) = (0 < i \<and> i \<le> 600)"
| "timeout_ok (JFloat v r) = (0 < v \<and> v \<le> 600)"
| "timeout_ok v = False"

definition stream_limit_ok :: "int \<Rightarrow> bool" where
  "stream_limit_ok n \<longleftrightarrow> 1 \<le> n \<and> n \<le> int MAX_ACCEPTANCE_STREAM_BYTES"

text \<open>\<open>AcceptanceCommand.__post_init__\<close>.\<close>

definition acceptance_command_ok :: "acceptance_command \<Rightarrow> bool" where
  "acceptance_command_ok c \<longleftrightarrow> ac_schema c = ACCEPTANCE_COMMAND_SCHEMA \<and> acceptance_check_id (ac_check_id c)
     \<and> 1 \<le> length (ac_argv c) \<and> length (ac_argv c) \<le> 32 \<and> executable_alias (hd (ac_argv c))
     \<and> list_all (\<lambda>t. t \<noteq> [] \<and> length t \<le> 2048 \<and> CHR 0x00 \<notin> set t) (ac_argv c)
     \<and> 0 \<le> ac_exit c \<and> ac_exit c \<le> 255 \<and> timeout_ok (ac_timeout c)
     \<and> stream_limit_ok (ac_stdout_limit c) \<and> stream_limit_ok (ac_stderr_limit c)"

definition acceptance_command_payload :: "acceptance_command \<Rightarrow> jobject" where
  "acceptance_command_payload c =
     [(''schema_version'', JStr (ac_schema c)), (''check_id'', JStr (ac_check_id c)),
      (''argv'', strings (ac_argv c)), (''expected_exit_code'', JInt (ac_exit c)),
      (''timeout_seconds'', ac_timeout c), (''stdout_limit_bytes'', JInt (ac_stdout_limit c)),
      (''stderr_limit_bytes'', JInt (ac_stderr_limit c))]"

definition acceptance_command_digest :: "acceptance_command \<Rightarrow> string" where
  "acceptance_command_digest c = json_digest (JObj (acceptance_command_payload c))"

section \<open>Results\<close>

text \<open>\<open>AcceptanceStream\<close>: its size and digest are those of the captured bytes.\<close>

definition acceptance_stream_payload :: "string \<Rightarrow> json" where
  "acceptance_stream_payload captured = JObj [(''schema_version'', JStr ACCEPTANCE_STREAM_SCHEMA),
     (''size_bytes'', JInt (int (length captured))), (''digest'', JStr (bytes_digest captured))]"

record acceptance_result =
  az_check_id :: string
  az_command :: string
  az_spec :: string
  az_isolation :: string
  az_before :: string
  az_after :: string
  az_return :: int
  az_expected :: int
  az_passed :: bool
  az_stdout :: string
  az_stderr :: string
  az_schema :: string

text \<open>\<open>AcceptanceResult.__post_init__\<close>.\<close>

definition acceptance_result_ok :: "acceptance_result \<Rightarrow> bool" where
  "acceptance_result_ok r \<longleftrightarrow> az_schema r = ACCEPTANCE_RESULT_SCHEMA \<and> acceptance_check_id (az_check_id r)
     \<and> list_all re_digest [az_command r, az_spec r, az_isolation r, az_before r, az_after r]
     \<and> 0 \<le> az_return r \<and> az_return r \<le> 255 \<and> 0 \<le> az_expected r \<and> az_expected r \<le> 255
     \<and> az_passed r = (az_return r = az_expected r)"

definition acceptance_result_payload :: "acceptance_result \<Rightarrow> jobject" where
  "acceptance_result_payload r =
     [(''schema_version'', JStr (az_schema r)), (''check_id'', JStr (az_check_id r)),
      (''command_digest'', JStr (az_command r)), (''worktree_spec_digest'', JStr (az_spec r)),
      (''isolation_policy_digest'', JStr (az_isolation r)),
      (''inspection_before_digest'', JStr (az_before r)), (''inspection_after_digest'', JStr (az_after r)),
      (''return_code'', JInt (az_return r)), (''expected_exit_code'', JInt (az_expected r)),
      (''passed'', JBool (az_passed r)), (''stdout'', acceptance_stream_payload (az_stdout r)),
      (''stderr'', acceptance_stream_payload (az_stderr r))]"

definition acceptance_result_digest :: "acceptance_result \<Rightarrow> string" where
  "acceptance_result_digest r = json_digest (JObj (acceptance_result_payload r))"

end
