(* ===== verification/Manifest.thy ===== *)
theory Manifest
  imports Acceptance Artifacts
begin

text \<open>
  \<open>orchestration/execution_artifacts.py\<close>: the manifest of a node's outcome, which links the
  artifacts of the attempt by digest, its payload and its reader.
\<close>

section \<open>Links\<close>

definition NODE_OUTCOME_SCHEMA :: string where "NODE_OUTCOME_SCHEMA = ''node-outcome/v2''"

definition CONTEXT_MEDIA_TYPE :: string where
  "CONTEXT_MEDIA_TYPE = ''application/vnd.blackcell.change-context+json''"
definition PROPOSAL_MEDIA_TYPE :: string where
  "PROPOSAL_MEDIA_TYPE = ''application/vnd.blackcell.change-proposal+json''"
definition PROVIDER_MEDIA_TYPE :: string where
  "PROVIDER_MEDIA_TYPE = ''application/vnd.blackcell.change-provider-result+json''"
definition EFFECT_MEDIA_TYPE :: string where
  "EFFECT_MEDIA_TYPE = ''application/vnd.blackcell.text-change-result+json''"
definition ACCEPTANCE_COMMAND_MEDIA_TYPE :: string where
  "ACCEPTANCE_COMMAND_MEDIA_TYPE = ''application/vnd.blackcell.acceptance-command+json''"
definition ACCEPTANCE_RESULT_MEDIA_TYPE :: string where
  "ACCEPTANCE_RESULT_MEDIA_TYPE = ''application/vnd.blackcell.acceptance-result+json''"
definition OUTCOME_MEDIA_TYPE :: string where
  "OUTCOME_MEDIA_TYPE = ''application/vnd.blackcell.node-outcome+json''"

datatype contract_failure = InvalidOutcome | UnsupportedOutcomeSchema

record artifact_link =
  lk_digest :: string
  lk_size :: int
  lk_media :: string
  lk_encoding :: "string option"

text \<open>The visible ASCII characters of a media type or an encoding.\<close>

definition token_ok :: "nat \<Rightarrow> string \<Rightarrow> bool" where
  "token_ok maximum s \<longleftrightarrow> s \<noteq> [] \<and> length s \<le> maximum \<and> list_all (\<lambda>c. 0x21 \<le> code c \<and> code c \<le> 0x7E) s"

text \<open>\<open>ExecutionArtifactLink.__post_init__\<close>.\<close>

definition artifact_link_ok :: "artifact_link \<Rightarrow> bool" where
  "artifact_link_ok l \<longleftrightarrow> re_digest (lk_digest l) \<and> 0 \<le> lk_size l \<and> lk_size l \<le> 2 ^ 63 - 1
     \<and> token_ok 256 (lk_media l) \<and> (case lk_encoding l of None \<Rightarrow> True | Some e \<Rightarrow> token_ok 64 e)"

definition link_from_reference :: "artifact_ref \<Rightarrow> artifact_link option" where
  "link_from_reference r = (let l = \<lparr>lk_digest = ar_digest r, lk_size = ar_size r, lk_media = ar_media r,
     lk_encoding = ar_encoding r\<rparr> in do { ensure (artifact_link_ok l); Some l })"

definition link_payload :: "artifact_link \<Rightarrow> json" where
  "link_payload l = JObj [(''digest'', JStr (lk_digest l)), (''size_bytes'', JInt (lk_size l)),
     (''media_type'', JStr (lk_media l)), (''encoding'', opt_str (lk_encoding l))]"

definition optional_link_payload :: "artifact_link option \<Rightarrow> json" where
  "optional_link_payload l = (case l of None \<Rightarrow> JNull | Some k \<Rightarrow> link_payload k)"

definition link_from_mapping :: "json \<Rightarrow> artifact_link option" where
  "link_from_mapping v = do {
     raw \<leftarrow> as_obj v;
     ensure (keys_are raw [''digest'', ''size_bytes'', ''media_type'', ''encoding'']);
     digest \<leftarrow> as_str (jget raw ''digest'');
     bytes \<leftarrow> as_int (jget raw ''size_bytes'');
     media \<leftarrow> as_str (jget raw ''media_type'');
     encoding \<leftarrow> optional_str (jget raw ''encoding'');
     let l = \<lparr>lk_digest = digest, lk_size = bytes, lk_media = media, lk_encoding = encoding\<rparr> in do {
     ensure (artifact_link_ok l); Some l } }"

definition optional_link_from_mapping :: "json \<Rightarrow> artifact_link option option" where
  "optional_link_from_mapping v = (if v = JNull then Some None else map_option Some (link_from_mapping v))"

section \<open>Checks\<close>

record check_artifacts =
  ca_check_id :: string
  ca_command_digest :: string
  ca_result_digest :: string
  ca_passed :: bool
  ca_command :: artifact_link
  ca_result :: artifact_link
  ca_stdout :: artifact_link
  ca_stderr :: artifact_link

text \<open>\<open>CheckArtifacts.__post_init__\<close>, for links that are valid already.\<close>

definition check_artifacts_ok :: "check_artifacts \<Rightarrow> bool" where
  "check_artifacts_ok c \<longleftrightarrow> stage_identifier (ca_check_id c) \<and> re_digest (ca_command_digest c)
     \<and> re_digest (ca_result_digest c) \<and> lk_digest (ca_command c) = ca_command_digest c
     \<and> lk_digest (ca_result c) = ca_result_digest c"

definition check_artifacts_payload :: "check_artifacts \<Rightarrow> json" where
  "check_artifacts_payload c = JObj [(''check_id'', JStr (ca_check_id c)),
     (''command_digest'', JStr (ca_command_digest c)), (''result_digest'', JStr (ca_result_digest c)),
     (''passed'', JBool (ca_passed c)), (''command_artifact'', link_payload (ca_command c)),
     (''result_artifact'', link_payload (ca_result c)), (''stdout_artifact'', link_payload (ca_stdout c)),
     (''stderr_artifact'', link_payload (ca_stderr c))]"

definition check_artifacts_from_mapping :: "json \<Rightarrow> check_artifacts option" where
  "check_artifacts_from_mapping v = do {
     raw \<leftarrow> as_obj v;
     ensure (keys_are raw [''check_id'', ''command_digest'', ''result_digest'', ''passed'',
       ''command_artifact'', ''result_artifact'', ''stdout_artifact'', ''stderr_artifact'']);
     i \<leftarrow> as_str (jget raw ''check_id'');
     command_digest \<leftarrow> as_str (jget raw ''command_digest'');
     result_digest \<leftarrow> as_str (jget raw ''result_digest'');
     passed \<leftarrow> as_bool (jget raw ''passed'');
     command \<leftarrow> link_from_mapping (jget raw ''command_artifact'');
     result \<leftarrow> link_from_mapping (jget raw ''result_artifact'');
     stdout \<leftarrow> link_from_mapping (jget raw ''stdout_artifact'');
     stderr \<leftarrow> link_from_mapping (jget raw ''stderr_artifact'');
     let c = \<lparr>ca_check_id = i, ca_command_digest = command_digest, ca_result_digest = result_digest,
       ca_passed = passed, ca_command = command, ca_result = result, ca_stdout = stdout,
       ca_stderr = stderr\<rparr> in do { ensure (check_artifacts_ok c); Some c } }"

section \<open>Manifests\<close>

record outcome_manifest =
  om_run_id :: string
  om_node_id :: string
  om_attempt :: int
  om_fencing :: int
  om_lease :: string
  om_spec :: string
  om_base :: string
  om_head :: "string option"
  om_write :: bool
  om_status :: string
  om_failure :: "string option"
  om_context :: "artifact_link option"
  om_proposal :: "artifact_link option"
  om_provider :: "artifact_link option"
  om_effect :: "artifact_link option"
  om_checks :: "check_artifacts list"
  om_schema :: string

definition manifest_links :: "outcome_manifest \<Rightarrow> artifact_link option list" where
  "manifest_links m = [om_context m, om_proposal m, om_provider m, om_effect m]"

text \<open>\<open>NodeOutcomeManifest.__post_init__\<close>, for links and checks that are valid already.\<close>

definition outcome_manifest_ok :: "outcome_manifest \<Rightarrow> bool" where
  "outcome_manifest_ok m \<longleftrightarrow> om_schema m = NODE_OUTCOME_SCHEMA \<and> stage_identifier (om_run_id m)
     \<and> stage_identifier (om_node_id m) \<and> 1 \<le> om_attempt m \<and> 1 \<le> om_fencing m
     \<and> re_digest (om_lease m) \<and> re_digest (om_spec m) \<and> commit_id (om_base m)
     \<and> (case om_head m of None \<Rightarrow> True | Some h \<Rightarrow> commit_id h)
     \<and> om_status m \<in> {''succeeded'', ''failed'', ''canceled''}
     \<and> (case om_failure m of None \<Rightarrow> True | Some f \<Rightarrow> stage_identifier f)
     \<and> distinct (map ca_check_id (om_checks m))
     \<and> \<not> (om_proposal m \<noteq> None \<and> om_context m = None)
     \<and> \<not> (om_provider m \<noteq> None \<and> (om_context m = None \<or> om_proposal m = None))
     \<and> \<not> (om_effect m \<noteq> None \<and> (om_context m = None \<or> om_proposal m = None \<or> om_provider m = None))
     \<and> (if om_status m = ''succeeded''
        then om_failure m = None \<and> om_head m \<noteq> None \<and> om_checks m \<noteq> [] \<and> list_all ca_passed (om_checks m)
          \<and> om_write m = list_all (\<lambda>l. l \<noteq> None) (manifest_links m)
        else \<not> (om_status m = ''failed'' \<and> (om_failure m = None \<or> om_failure m = Some []))
          \<and> \<not> (om_status m = ''canceled'' \<and> om_failure m \<noteq> None))
     \<and> \<not> (\<not> om_write m \<and> list_ex (\<lambda>l. l \<noteq> None) (manifest_links m))"

definition node_outcome_payload :: "outcome_manifest \<Rightarrow> jobject" where
  "node_outcome_payload m =
     [(''schema_version'', JStr (om_schema m)), (''run_id'', JStr (om_run_id m)),
      (''node_id'', JStr (om_node_id m)), (''attempt'', JInt (om_attempt m)),
      (''fencing_token'', JInt (om_fencing m)), (''lease_digest'', JStr (om_lease m)),
      (''worktree_spec_digest'', JStr (om_spec m)), (''base_commit'', JStr (om_base m)),
      (''head_commit'', opt_str (om_head m)), (''repository_write'', JBool (om_write m)),
      (''status'', JStr (om_status m)), (''failure_code'', opt_str (om_failure m)),
      (''context_artifact'', optional_link_payload (om_context m)),
      (''proposal_artifact'', optional_link_payload (om_proposal m)),
      (''provider_artifact'', optional_link_payload (om_provider m)),
      (''effect_artifact'', optional_link_payload (om_effect m)),
      (''checks'', JArr (map check_artifacts_payload (om_checks m)))]"

definition node_outcome_digest :: "outcome_manifest \<Rightarrow> string" where
  "node_outcome_digest m = json_digest (JObj (node_outcome_payload m))"

text \<open>The fields of a mapping whose keys and schema were checked.\<close>

definition node_outcome_fields :: "jobject \<Rightarrow> outcome_manifest option" where
  "node_outcome_fields raw = do {
     raw_checks \<leftarrow> as_arr (jget raw ''checks'');
     checks \<leftarrow> traverse check_artifacts_from_mapping raw_checks;
     run_id \<leftarrow> as_str (jget raw ''run_id'');
     node_id \<leftarrow> as_str (jget raw ''node_id'');
     attempt \<leftarrow> as_int (jget raw ''attempt'');
     fencing \<leftarrow> as_int (jget raw ''fencing_token'');
     lease \<leftarrow> as_str (jget raw ''lease_digest'');
     spec \<leftarrow> as_str (jget raw ''worktree_spec_digest'');
     base \<leftarrow> as_str (jget raw ''base_commit'');
     head \<leftarrow> optional_str (jget raw ''head_commit'');
     repository_write \<leftarrow> as_bool (jget raw ''repository_write'');
     status \<leftarrow> as_str (jget raw ''status'');
     failure \<leftarrow> optional_str (jget raw ''failure_code'');
     change_context \<leftarrow> optional_link_from_mapping (jget raw ''context_artifact'');
     proposal \<leftarrow> optional_link_from_mapping (jget raw ''proposal_artifact'');
     provider \<leftarrow> optional_link_from_mapping (jget raw ''provider_artifact'');
     effect \<leftarrow> optional_link_from_mapping (jget raw ''effect_artifact'');
     let m = \<lparr>om_run_id = run_id, om_node_id = node_id, om_attempt = attempt, om_fencing = fencing,
       om_lease = lease, om_spec = spec, om_base = base, om_head = head, om_write = repository_write,
       om_status = status, om_failure = failure, om_context = change_context, om_proposal = proposal,
       om_provider = provider, om_effect = effect, om_checks = checks, om_schema = NODE_OUTCOME_SCHEMA\<rparr>
     in do { ensure (outcome_manifest_ok m); Some m } }"

definition node_outcome_from_mapping :: "jobject \<Rightarrow> contract_failure + outcome_manifest" where
  "node_outcome_from_mapping raw =
     ebind (check InvalidOutcome (keys_are raw [''schema_version'', ''run_id'', ''node_id'', ''attempt'',
       ''fencing_token'', ''lease_digest'', ''worktree_spec_digest'', ''base_commit'', ''head_commit'',
       ''repository_write'', ''status'', ''failure_code'', ''context_artifact'', ''proposal_artifact'',
       ''provider_artifact'', ''effect_artifact'', ''checks''])) (\<lambda>_.
     ebind (check UnsupportedOutcomeSchema (jget raw ''schema_version'' = JStr NODE_OUTCOME_SCHEMA)) (\<lambda>_.
     efail_on_None InvalidOutcome (node_outcome_fields raw)))"

end
