(* ===== verification/JsonLoads.thy ===== *)
theory JsonLoads
  imports TextChanges "HOL-Library.AList"
begin

text \<open>
  \<open>json.loads\<close> as \<open>orchestration/replay.py\<close> calls it on stored bytes: the decoding of the bytes, the
  scanner of the JSON grammar with the constants Python adds (\<open>NaN\<close>, \<open>Infinity\<close>), dictionaries in
  which the last of equal keys wins, and the interpreter's limit on the digits of an integer, whose
  \<open>ValueError\<close> is not a decoding error. What \<open>float(text)\<close> reads is a parameter. Texts here have
  characters up to 255: bytes that are UTF-8 of a wider text are marked as outside the model
  (\<open>WideText\<close>), and the UTF-16 and UTF-32 forms \<open>json.loads\<close> detects and the escapes of wider
  characters are read as undecodable (canonical bytes have neither, so replay refuses both forms in
  either case). The interpreter's recursion limit is left out.

  The scanner has fuel twice the length of the text: every two nested calls consume a character
  (\<open>scan_fuel\<close> in JsonReading shows that more changes nothing).
\<close>

datatype loads_error = JsonDecodeError | IntegerDigitsLimit | WideText

section \<open>Bytes\<close>

fun utf8_decode :: "string \<Rightarrow> string option" where
  "utf8_decode [] = Some []"
| "utf8_decode (b # bs) =
     (if code b < 128 then map_option ((#) b) (utf8_decode bs)
      else if 194 \<le> code b \<and> code b < 196
      then (case bs of
          [] \<Rightarrow> None
        | c # cs \<Rightarrow> if 128 \<le> code c \<and> code c < 192
            then map_option ((#) (char_of ((code b - 192) * 64 + (code c - 128)))) (utf8_decode cs)
            else None)
      else None)"

text \<open>\<open>bytes.decode("utf-8")\<close>.\<close>

definition decode_text :: "string \<Rightarrow> loads_error + string" where
  "decode_text data = (case utf8_decode data of Some s \<Rightarrow> Inr s
     | None \<Rightarrow> Inl (if utf8_valid data then WideText else JsonDecodeError))"

text \<open>A leading byte order mark is dropped (\<open>utf-8-sig\<close>).\<close>

definition decode_document :: "string \<Rightarrow> loads_error + string" where
  "decode_document data = decode_text (removeprefix data (map char_of [239, 187, 191 :: nat]))"

section \<open>Scanner\<close>

definition json_space :: "char \<Rightarrow> bool" where
  "json_space c \<longleftrightarrow> c = CHR '' '' \<or> c = CHR 0x09 \<or> c = CHR 0x0A \<or> c = CHR 0x0D"

definition skip_space :: "string \<Rightarrow> string" where
  "skip_space s = dropWhile json_space s"

definition unescaped :: "char \<Rightarrow> char option" where
  "unescaped e = (if e \<in> {CHR 0x22, CHR 0x5C, CHR 0x2F} then Some e
     else if e = CHR ''b'' then Some (CHR 0x08) else if e = CHR ''f'' then Some (CHR 0x0C)
     else if e = CHR ''n'' then Some (CHR 0x0A) else if e = CHR ''r'' then Some (CHR 0x0D)
     else if e = CHR ''t'' then Some (CHR 0x09) else None)"

definition hex_code :: "char \<Rightarrow> nat" where
  "hex_code c = (if code c < 58 then code c - 48 else if code c < 71 then code c - 55 else code c - 87)"

text \<open>The text after an opening quote: the string and what follows its closing quote.\<close>

fun scan_string :: "string \<Rightarrow> (string \<times> string) option" where
  "scan_string [] = None"
| "scan_string (c # s) =
     (if c = CHR 0x22 then Some ([], s)
      else if c = CHR 0x5C
      then (case s of
          [] \<Rightarrow> None
        | e # t \<Rightarrow> if e = CHR ''u''
            then (case t of
                h1 # h2 # h3 # h4 # r \<Rightarrow>
                  let v = ((hex_code h1 * 16 + hex_code h2) * 16 + hex_code h3) * 16 + hex_code h4 in
                  if list_all is_hex [h1, h2, h3, h4] \<and> v < 256
                  then map_option (apfst ((#) (char_of v))) (scan_string r) else None
              | _ \<Rightarrow> None)
            else (case unescaped e of None \<Rightarrow> None
              | Some x \<Rightarrow> map_option (apfst ((#) x)) (scan_string t)))
      else if code c < 32 then None
      else map_option (apfst ((#) c)) (scan_string s))"

text \<open>A number: optional sign, integer part, fraction and exponent.\<close>

definition integer_part :: "string \<Rightarrow> string" where
  "integer_part s = (if s \<noteq> [] \<and> hd s = CHR ''0'' then ''0'' else takeWhile is_digit s)"

definition fraction_part :: "string \<Rightarrow> string" where
  "fraction_part s = (case s of
     c # t \<Rightarrow> if c = CHR ''.'' \<and> takeWhile is_digit t \<noteq> [] then c # takeWhile is_digit t else []
   | [] \<Rightarrow> [])"

definition exponent_part :: "string \<Rightarrow> string" where
  "exponent_part s = (case s of
     c # t \<Rightarrow> if c \<in> {CHR ''e'', CHR ''E''}
       then let sign = (if t \<noteq> [] \<and> hd t \<in> {CHR ''+'', CHR ''-''} then [hd t] else []);
                ds = takeWhile is_digit (drop (length sign) t)
            in if ds = [] then [] else c # sign @ ds
       else []
   | [] \<Rightarrow> [])"

definition MAX_INT_DIGITS :: nat where "MAX_INT_DIGITS = 4300"

definition scan_number :: "(string \<Rightarrow> pyfloat) \<Rightarrow> string \<Rightarrow> loads_error + pyval \<times> string" where
  "scan_number fl s =
     (let sign = (if s \<noteq> [] \<and> hd s = CHR ''-'' then ''-'' else []);
          ds = integer_part (drop (length sign) s);
          after = drop (length sign + length ds) s;
          fraction = fraction_part after;
          exponent = exponent_part (drop (length fraction) after);
          rest = drop (length fraction + length exponent) after
      in if ds = [] then Inl JsonDecodeError
         else if fraction @ exponent \<noteq> [] then Inr (PyFloat (fl (sign @ ds @ fraction @ exponent)), rest)
         else if length ds > MAX_INT_DIGITS then Inl IntegerDigitsLimit
         else Inr (PyInt (if sign = [] then int (digits_value ds) else - int (digits_value ds)), rest))"

text \<open>The dictionary of the pairs read: the last of equal keys wins, at the place of the first.\<close>

definition dict_of :: "(pyval \<times> pyval) list \<Rightarrow> (pyval \<times> pyval) list" where
  "dict_of pairs = fold (\<lambda>(k, v) d. AList.update k v d) pairs []"

fun scan_value :: "(string \<Rightarrow> pyfloat) \<Rightarrow> nat \<Rightarrow> string \<Rightarrow> loads_error + pyval \<times> string"
  and scan_items :: "(string \<Rightarrow> pyfloat) \<Rightarrow> nat \<Rightarrow> string \<Rightarrow> loads_error + pyval list \<times> string"
  and scan_members :: "(string \<Rightarrow> pyfloat) \<Rightarrow> nat \<Rightarrow> string \<Rightarrow> loads_error + (pyval \<times> pyval) list \<times> string" where
  "scan_value fl 0 s = Inl JsonDecodeError"
| "scan_value fl (Suc n) s =
     (case s of
        [] \<Rightarrow> Inl JsonDecodeError
      | c # t \<Rightarrow>
          if c = CHR 0x22 then efail_on_None JsonDecodeError (map_option (apfst PyStr) (scan_string t))
          else if c = CHR ''{'' then
            (let u = skip_space t in
             if u \<noteq> [] \<and> hd u = CHR ''}'' then Inr (PyDict [], tl u)
             else ebind (scan_members fl n u) (\<lambda>(ms, r). Inr (PyDict (dict_of ms), r)))
          else if c = CHR ''['' then
            (let u = skip_space t in
             if u \<noteq> [] \<and> hd u = CHR '']'' then Inr (PyList [], tl u)
             else ebind (scan_items fl n u) (\<lambda>(xs, r). Inr (PyList xs, r)))
          else if startswith s ''null'' then Inr (PyNone, drop 4 s)
          else if startswith s ''true'' then Inr (PyBool True, drop 4 s)
          else if startswith s ''false'' then Inr (PyBool False, drop 5 s)
          else if startswith s ''NaN'' then Inr (PyFloat NotANumber, drop 3 s)
          else if startswith s ''Infinity'' then Inr (PyFloat (Infinity True), drop 8 s)
          else if startswith s ''-Infinity'' then Inr (PyFloat (Infinity False), drop 9 s)
          else scan_number fl s)"
| "scan_items fl 0 s = Inl JsonDecodeError"
| "scan_items fl (Suc n) s =
     ebind (scan_value fl n s) (\<lambda>(x, r).
     let u = skip_space r in
     if u \<noteq> [] \<and> hd u = CHR '']'' then Inr ([x], tl u)
     else if u \<noteq> [] \<and> hd u = CHR '','' then
       ebind (scan_items fl n (skip_space (tl u))) (\<lambda>(xs, r'). Inr (x # xs, r'))
     else Inl JsonDecodeError)"
| "scan_members fl 0 s = Inl JsonDecodeError"
| "scan_members fl (Suc n) s =
     (if s = [] \<or> hd s \<noteq> CHR 0x22 then Inl JsonDecodeError
      else ebind (efail_on_None JsonDecodeError (scan_string (tl s))) (\<lambda>(k, r).
      let u = skip_space r in
      if u = [] \<or> hd u \<noteq> CHR '':'' then Inl JsonDecodeError
      else ebind (scan_value fl n (skip_space (tl u))) (\<lambda>(v, r2).
      let w = skip_space r2 in
      if w \<noteq> [] \<and> hd w = CHR ''}'' then Inr ([(PyStr k, v)], tl w)
      else if w \<noteq> [] \<and> hd w = CHR '','' then
        ebind (scan_members fl n (skip_space (tl w))) (\<lambda>(ms, r'). Inr ((PyStr k, v) # ms, r'))
      else Inl JsonDecodeError)))"

definition json_loads :: "(string \<Rightarrow> pyfloat) \<Rightarrow> string \<Rightarrow> loads_error + pyval" where
  "json_loads fl data =
     ebind (decode_document data) (\<lambda>s.
     ebind (scan_value fl (2 * length s + 2) (skip_space s)) (\<lambda>(v, r).
     ebind (check JsonDecodeError (skip_space r = [])) (\<lambda>_. Inr v)))"

end
