(* ===== verification/JsonReading.thy ===== *)
theory JsonReading
  imports JsonLoads
begin

text \<open>
  Reading canonical JSON: the scanner's fuel is enough, and \<open>json.loads\<close> reads the canonical bytes
  of a value back as the value with its keys in order.
\<close>

section \<open>Scanning consumes\<close>

lemma skip_space_length: "length (skip_space s) \<le> length s"
  by (simp add: skip_space_def length_dropWhile_le)

lemma scan_string_length: "scan_string s = Some (v, r) \<Longrightarrow> length r < length s"
proof (induction "length s" arbitrary: s v r rule: less_induct)
  case less
  show ?case
  proof (cases s)
    case (Cons c t)
    have shorter: "length r' < length t'" if "scan_string t' = Some (v', r')" "length t' < length s" for t' v' r'
      using less.hyps that by blast
    consider "c = CHR 0x22" | e u where "c = CHR 0x5C" "t = e # u" "e \<noteq> CHR ''u''"
      | h1 h2 h3 h4 u where "c = CHR 0x5C" "t = CHR ''u'' # h1 # h2 # h3 # h4 # u"
      | "c \<noteq> CHR 0x22" "c \<noteq> CHR 0x5C"
      using less.prems Cons by (auto split: if_splits list.splits)
    then show ?thesis
    proof cases
      case 1 then show ?thesis using less.prems Cons by simp
    next
      case (2 e u)
      then obtain w where "scan_string u = Some (w, r)"
        using less.prems Cons by (auto split: option.splits)
      then show ?thesis using shorter[of u w r] 2 Cons by simp
    next
      case (3 h1 h2 h3 h4 u)
      then obtain w where "scan_string u = Some (w, r)"
        using less.prems Cons by (auto simp: Let_def split: if_splits)
      then show ?thesis using shorter[of u w r] 3 Cons by simp
    next
      case 4
      then obtain w where "scan_string t = Some (w, r)" using less.prems Cons by (auto split: if_splits)
      then show ?thesis using shorter[of t w r] Cons by simp
    qed
  qed (use less.prems in simp)
qed

lemma integer_part_length: "length (integer_part s) \<le> length s"
  using length_takeWhile_le[of is_digit s] by (cases s) (auto simp: integer_part_def)

lemma scan_number_length:
  assumes "scan_number fl s = Inr (v, r)"
  shows "length r < length s"
proof -
  let ?sign = "if s \<noteq> [] \<and> hd s = CHR ''-'' then ''-'' else []"
  let ?ds = "integer_part (drop (length ?sign) s)"
  have ds: "?ds \<noteq> []" using assms by (auto simp: scan_number_def Let_def)
  have "length ?ds \<le> length (drop (length ?sign) s)" by (rule integer_part_length)
  then have "length (drop (length ?sign + length ?ds) s) < length s" using ds by (cases s) auto
  moreover have "length r \<le> length (drop (length ?sign + length ?ds) s)"
    using assms ds by (auto simp: scan_number_def Let_def split: if_splits)
  ultimately show ?thesis by simp
qed

lemma startswith_length: "startswith s p \<Longrightarrow> length p \<le> length s"
  by (auto simp: startswith_iff)

lemma scan_lengths:
  "scan_value fl n s = Inr (v, r) \<Longrightarrow> length r < length s"
  "scan_items fl n s = Inr (vs, r) \<Longrightarrow> length r < length s"
  "scan_members fl n s = Inr (ms, r) \<Longrightarrow> length r < length s"
proof (induction n arbitrary: s v vs ms r)
  case (Suc n)
  note ih = Suc.IH
  have space: "length (skip_space (tl u)) < length u" "length (tl u) < length u" if "u \<noteq> []" for u
    using that skip_space_length[of "tl u"] by (cases u; simp)+
  {
    case 1
    obtain c t where s: "s = c # t" using 1 by (cases s) auto
    have t: "length (skip_space t) \<le> length t" by (rule skip_space_length)
    show ?case
    proof (cases "c \<in> {CHR 0x22, CHR ''{'', CHR ''[''}")
      case True
      then show ?thesis
        using 1 s t ih(2,3)[of "skip_space t"] space(2)[of "skip_space t"] scan_string_length[of t]
        by (fastforce simp: Let_def efail_on_None_eq_Inr ebind_eq_Inr split: if_splits)
    next
      case False
      then have "scan_value fl (Suc n) s =
          (if startswith s ''null'' then Inr (PyNone, drop 4 s)
          else if startswith s ''true'' then Inr (PyBool True, drop 4 s)
          else if startswith s ''false'' then Inr (PyBool False, drop 5 s)
          else if startswith s ''NaN'' then Inr (PyFloat NotANumber, drop 3 s)
          else if startswith s ''Infinity'' then Inr (PyFloat (Infinity True), drop 8 s)
          else if startswith s ''-Infinity'' then Inr (PyFloat (Infinity False), drop 9 s)
          else scan_number fl s)"
        unfolding s by simp
      then show ?thesis using 1 scan_number_length[of fl s v r] s by (auto split: if_splits)
    qed
  next
    case 2
    then obtain x r1 where x: "scan_value fl n s = Inr (x, r1)" by (auto simp: ebind_eq_Inr)
    let ?u = "skip_space r1"
    have u: "length ?u < length s" using ih(1)[OF x] skip_space_length[of r1] by simp
    have "?u \<noteq> []" "r = tl ?u \<or> (\<exists>xs. scan_items fl n (skip_space (tl ?u)) = Inr (xs, r))"
      using 2 x by (auto simp: Let_def ebind_eq_Inr split: if_splits)
    then show ?case using u space[of ?u] ih(2)[of "skip_space (tl ?u)"] by fastforce
  next
    case 3
    then obtain k r0 v r1 where k: "s \<noteq> []" "scan_string (tl s) = Some (k, r0)" "skip_space r0 \<noteq> []"
      and v: "scan_value fl n (skip_space (tl (skip_space r0))) = Inr (v, r1)"
      by (auto simp: Let_def ebind_eq_Inr efail_on_None_eq_Inr split: if_splits)
    let ?u = "skip_space r1"
    have "length r0 < length s" using scan_string_length[OF k(2)] k(1) by simp
    then have u: "length ?u < length s"
      using ih(1)[OF v] skip_space_length[of r1] skip_space_length[of r0] space(1)[OF k(3)] by simp
    have "?u \<noteq> []" "r = tl ?u \<or> (\<exists>ms. scan_members fl n (skip_space (tl ?u)) = Inr (ms, r))"
      using 3 k v by (auto simp: Let_def ebind_eq_Inr split: if_splits)
    then show ?case using u space[of ?u] ih(3)[of "skip_space (tl ?u)"] by fastforce
  }
qed simp_all

section \<open>Fuel\<close>

lemma scan_fuel:
  "2 * length s + 1 \<le> n \<Longrightarrow> scan_value fl (Suc n) s = scan_value fl n s"
  "2 * length s + 2 \<le> n \<Longrightarrow> scan_items fl (Suc n) s = scan_items fl n s"
  "2 * length s + 2 \<le> n \<Longrightarrow> scan_members fl (Suc n) s = scan_members fl n s"
proof (induction n arbitrary: s)
  case (Suc n)
  note ih = Suc.IH
  have rest: "length (skip_space (tl u)) < length u" if "u \<noteq> []" for u
    using that skip_space_length[of "tl u"] by (cases u) auto
  {
    case 1
    show ?case
    proof (cases s)
      case (Cons c t)
      have "scan_items fl (Suc n) (skip_space t) = scan_items fl n (skip_space t)"
        "scan_members fl (Suc n) (skip_space t) = scan_members fl n (skip_space t)"
        using Cons 1 skip_space_length[of t] ih(2,3)[of "skip_space t"] by simp_all
      then show ?thesis
        unfolding scan_value.simps(2)[of fl "Suc n"] scan_value.simps(2)[of fl n] Cons list.case Let_def
        by (simp only:)
    qed simp
  next
    case 2
    have first: "scan_value fl (Suc n) s = scan_value fl n s" using ih(1)[of s] 2 by simp
    have items: "scan_items fl (Suc n) (skip_space (tl (skip_space r))) = scan_items fl n (skip_space (tl (skip_space r)))"
      if "scan_value fl n s = Inr (x, r)" "skip_space r \<noteq> []" for x r
      using scan_lengths(1)[OF that(1)] rest[OF that(2)] skip_space_length[of r] 2 by (intro ih(2)) linarith
    show ?case
      unfolding scan_items.simps(2)[of fl "Suc n" s] scan_items.simps(2)[of fl n s] first
      by (rule ebind_cong) (auto simp: Let_def items simp del: scan_items.simps)
  next
    case 3
    have first: "scan_value fl (Suc n) (skip_space (tl (skip_space r))) = scan_value fl n (skip_space (tl (skip_space r)))"
      and after: "length (skip_space (tl (skip_space r))) \<le> length s"
      if "scan_string (tl s) = Some (k, r)" "skip_space r \<noteq> []" "s \<noteq> []" for k r
    proof -
      show len: "length (skip_space (tl (skip_space r))) \<le> length s"
        using scan_string_length[OF that(1)] rest[OF that(2)] skip_space_length[of r] by simp
      show "scan_value fl (Suc n) (skip_space (tl (skip_space r))) = scan_value fl n (skip_space (tl (skip_space r)))"
        using len 3 by (intro ih(1)) linarith
    qed
    have members: "scan_members fl (Suc n) (skip_space (tl (skip_space r2))) = scan_members fl n (skip_space (tl (skip_space r2)))"
      if "scan_string (tl s) = Some (k, r)" "skip_space r \<noteq> []" "s \<noteq> []"
        "scan_value fl n (skip_space (tl (skip_space r))) = Inr (v, r2)" "skip_space r2 \<noteq> []" for k r v r2
      using scan_lengths(1)[OF that(4)] after[OF that(1-3)] rest[OF that(5)] skip_space_length[of r2] 3
      by (intro ih(3)) linarith
    show ?case
      unfolding scan_members.simps(2)[of fl "Suc n" s] scan_members.simps(2)[of fl n s]
      by (intro if_cong refl ebind_cong)
        (auto simp: Let_def efail_on_None_eq_Inr first members simp del: scan_value.simps scan_members.simps intro!: ebind_cong)
  }
qed simp_all

section \<open>Reading what the encoder writes\<close>

text \<open>What \<open>json.loads\<close> can read back: distinct keys, no floats and integers within the
  interpreter's digit limit.\<close>

fun loadable :: "json \<Rightarrow> bool" where
  "loadable (JArr xs) = list_all loadable xs"
| "loadable (JObj kvs) = (distinct (map fst kvs) \<and> list_all (\<lambda>kv. loadable (snd kv)) kvs)"
| "loadable (JFloat v r) = False"
| "loadable (JInt i) = (length (nat_repr (nat \<bar>i\<bar>)) \<le> MAX_INT_DIGITS)"
| "loadable j = True"

lemma loadable_float_free: "loadable j \<Longrightarrow> float_free j"
  by (induction j rule: json_induct) (auto simp: list_all_iff)

lemma utf8_decode_encode [simp]: "utf8_decode (utf8_encode s) = Some s"
proof (induction s)
  case (Cons c s)
  have "utf8_decode (utf8_char c @ x) = map_option ((#) c) (utf8_decode x)" for x
  proof (cases "code c < 128")
    case False
    have small: "code c div 64 < 4" "2 \<le> code c div 64" "code c mod 64 < 64"
      using code_less_256[of c] False by auto
    then have codes: "code (char_of (192 + code c div 64)) = 192 + code c div 64"
      "code (char_of (128 + code c mod 64)) = 128 + code c mod 64"
      by (simp_all add: code_def)
    have "char_of (code c div 64 * 64 + code c mod 64) = c"
      unfolding div_mult_mod_eq by (simp add: code_def)
    with False small show ?thesis by (simp add: utf8_char_def codes)
  qed (simp add: utf8_char_def)
  then show ?case using Cons by (simp add: utf8_encode_def)
qed (simp add: utf8_encode_def)

lemma hex_code_hex_digit: "n < 16 \<Longrightarrow> hex_code (hex_digit n) = n \<and> is_hex (hex_digit n)"
  by (auto simp: hex_code_def hex_digit_def code_def is_hex_def is_lower_hex_def is_digit_def)

lemma scan_escape: "scan_string (json_escape c @ x) = map_option (apfst ((#) c)) (scan_string x)"
proof -
  let ?special = "[CHR 0x22, CHR 0x5C, CHR 0x0A, CHR 0x0D, CHR 0x09, CHR 0x0C, CHR 0x08]"
  have special: ?thesis if "c \<in> set ?special"
    using that by (elim set_ConsD[elim_format] disjE) (auto simp: json_escape_def unescaped_def)
  have control: ?thesis if c: "code c < 32" "c \<notin> set ?special"
  proof -
    have "code c div 16 < 16" "code c mod 16 < 16" using c by simp_all
    note hex = this[THEN hex_code_hex_digit]
    have "is_hex (CHR ''0'')" "hex_code (CHR ''0'') = 0"
      by (simp_all add: is_hex_def is_lower_hex_def is_digit_def hex_code_def code_def)
    moreover have "code c div 16 * 16 + code c mod 16 < 256" unfolding div_mult_mod_eq by (rule code_less_256)
    moreover have "char_of (code c div 16 * 16 + code c mod 16) = c"
      unfolding div_mult_mod_eq by (simp add: code_def)
    moreover have "json_escape c = [CHR 0x5C, CHR ''u'', CHR ''0'', CHR ''0'', hex_digit (code c div 16),
        hex_digit (code c mod 16)]"
      using c by (simp add: json_escape_def)
    ultimately show ?thesis using hex by (simp add: Let_def)
  qed
  have plain: ?thesis if "\<not> code c < 32" "c \<notin> set ?special"
    using that by (simp add: json_escape_def)
  show ?thesis using special control plain by blast
qed

lemma scan_quoted: "scan_string (concat (map json_escape s) @ CHR 0x22 # r) = Some (s, r)"
  by (induction s) (simp_all add: scan_escape del: scan_string.simps(2), simp)

lemma nat_repr_leading_zero: "hd (nat_repr n) = CHR ''0'' \<Longrightarrow> n = 0"
proof (induction n rule: nat_repr.induct)
  case (1 n)
  show ?case
  proof (cases "n < 10")
    case True
    then have "char_of (48 + n) = CHR ''0''" using "1.prems" by (simp add: nat_repr.simps[of n])
    from arg_cong[OF this, of code] True show ?thesis by (simp add: code_def)
  next
    case False
    then have "hd (nat_repr (n div 10)) = CHR ''0''"
      using "1.prems" nat_repr_digits[of "n div 10"] by (simp add: nat_repr.simps[of n] hd_append)
    with "1.IH" False show ?thesis by simp
  qed
qed

lemma integer_part_nat_repr:
  assumes "json_ends r" shows "integer_part (nat_repr n @ r) = nat_repr n"
proof (cases "n = 0")
  case True
  have "(char_of (48 :: nat) :: char) = CHR ''0''" by code_simp
  with True show ?thesis by (simp add: nat_repr.simps integer_part_def)
next
  case False
  then have "hd (nat_repr n) \<noteq> CHR ''0''" using nat_repr_leading_zero by blast
  moreover have "takeWhile is_digit (nat_repr n @ r) = nat_repr n"
    using nat_repr_digits[of n] json_ends_not_digit[OF assms]
    by (cases r) (auto simp: list_all_iff takeWhile_append)
  ultimately show ?thesis using nat_repr_digits[of n] by (simp add: integer_part_def hd_append)
qed

lemma scan_int_repr:
  assumes "json_ends r" "length (nat_repr (nat \<bar>i\<bar>)) \<le> MAX_INT_DIGITS"
  shows "scan_number fl (int_repr i @ r) = Inr (PyInt i, r)"
proof -
  have tail: "fraction_part r = []" "exponent_part r = []"
    using assms(1) by (auto simp: fraction_part_def exponent_part_def json_ends_def json_delim_def split: list.splits)
  have ne: "nat_repr n \<noteq> []" "hd (nat_repr n) \<noteq> CHR ''-''" for n
    using nat_repr_digits[of n] hd_nat_repr[of n] by (auto simp: is_digit_def code_def)
  show ?thesis
    using assms ne tail integer_part_nat_repr[OF assms(1)]
    by (cases "i < 0") (simp_all add: scan_number_def int_repr_def Let_def hd_append)
qed

lemma skip_space_dumps:
  assumes "float_free j" shows "skip_space (dumps j @ r) = dumps j @ r"
proof -
  from dumps_head[OF assms] have "dumps j \<noteq> []" by simp
  then obtain c t where c: "dumps j = c # t" by (cases "dumps j") auto
  have "\<not> json_space c"
  proof
    assume "json_space c"
    then have "head_kind c = 6" by (auto simp: json_space_def head_kind_def is_digit_def code_def)
    then have "json_kind j = 6" using dumps_head[OF assms] c by simp
    then show False using c \<open>json_space c\<close>
      by (auto simp: json_kind_def json_space_def split: json.splits if_splits)
  qed
  then show ?thesis by (simp add: c skip_space_def)
qed

lemma skip_space_delims [simp]:
  "skip_space (CHR '','' # s) = CHR '','' # s" "skip_space (CHR '']'' # s) = CHR '']'' # s"
  "skip_space (CHR ''}'' # s) = CHR ''}'' # s" "skip_space (CHR '':'' # s) = CHR '':'' # s"
  "skip_space (CHR 0x22 # s) = CHR 0x22 # s" "skip_space [] = []"
  by (simp_all add: skip_space_def json_space_def)

lemma json_ends_delims [simp]:
  "json_ends (CHR '','' # s)" "json_ends (CHR '']'' # s)" "json_ends (CHR ''}'' # s)" "json_ends []"
  by (simp_all add: json_ends_def json_delim_def)

lemma scan_items_join:
  assumes "\<And>x n r. x \<in> set xs \<Longrightarrow> json_ends r \<Longrightarrow> 2 * length (dumps x) \<le> n
      \<Longrightarrow> scan_value fl n (dumps x @ r) = Inr (f x, r)"
    and "\<forall>x\<in>set xs. float_free x" "xs \<noteq> []" "2 * length (join '','' (map dumps xs)) < n"
  shows "scan_items fl n (join '','' (map dumps xs) @ CHR '']'' # r) = Inr (map f xs, r)"
  using assms
proof (induction xs arbitrary: n)
  case (Cons x xs)
  obtain m where n: "n = Suc m" using Cons.prems(4) by (cases n) auto
  have x: "scan_value fl m (dumps x @ u) = Inr (f x, u)" if "json_ends u" for u
    using Cons.prems(1)[of x u m] Cons.prems(4) that n by (auto simp: join_Cons split: if_splits)
  show ?case
  proof (cases "xs = []")
    case True then show ?thesis using x n by simp
  next
    case False
    let ?tail = "join '','' (map dumps xs) @ CHR '']'' # r"
    have "scan_items fl m ?tail = Inr (map f xs, r)"
      using Cons.prems False n by (intro Cons.IH) (auto simp: join_Cons)
    moreover have "skip_space ?tail = ?tail"
      using False Cons.prems(2) skip_space_dumps by (cases xs) (simp_all add: join_Cons)
    ultimately show ?thesis using x[of "CHR '','' # ?tail"] n False by (simp add: join_Cons)
  qed
qed simp

abbreviation member_text :: "string \<times> json \<Rightarrow> string" where
  "member_text kv \<equiv> json_quote (fst kv) @ '':'' @ dumps (snd kv)"

lemma scan_members_join:
  assumes "\<And>x n r. x \<in> snd ` set kvs \<Longrightarrow> json_ends r \<Longrightarrow> 2 * length (dumps x) \<le> n
      \<Longrightarrow> scan_value fl n (dumps x @ r) = Inr (f x, r)"
    and "\<forall>x\<in>snd ` set kvs. float_free x" "kvs \<noteq> []" "2 * length (join '','' (map member_text kvs)) < n"
  shows "scan_members fl n (join '','' (map member_text kvs) @ CHR ''}'' # r)
    = Inr (map (\<lambda>kv. (PyStr (fst kv), f (snd kv))) kvs, r)"
  using assms
proof (induction kvs arbitrary: n)
  case (Cons kv kvs)
  obtain k x where kv: "kv = (k, x)" by (cases kv)
  obtain m where n: "n = Suc m" using Cons.prems(4) by (cases n) auto
  have x: "scan_value fl m (dumps x @ u) = Inr (f x, u)" if "json_ends u" for u
    using Cons.prems(1)[of x u m] Cons.prems(4) that n kv by (auto simp: join_Cons split: if_splits)
  have space: "skip_space (dumps x @ u) = dumps x @ u" for u
    using Cons.prems(2) kv by (intro skip_space_dumps) simp
  have key: "scan_string (concat (map json_escape k) @ CHR 0x22 # u) = Some (k, u)" for u
    by (rule scan_quoted)
  show ?case
  proof (cases "kvs = []")
    case True then show ?thesis using x n kv key space by (simp add: json_quote_def)
  next
    case False
    let ?tail = "join '','' (map member_text kvs) @ CHR ''}'' # r"
    have "scan_members fl m ?tail = Inr (map (\<lambda>kv. (PyStr (fst kv), f (snd kv))) kvs, r)"
      using Cons.prems False n by (intro Cons.IH) (auto simp: join_Cons)
    moreover have "skip_space ?tail = ?tail"
      using False by (cases kvs) (simp_all add: join_Cons json_quote_def)
    ultimately show ?thesis
      using x[of "CHR '','' # ?tail"] n False kv key space by (simp add: join_Cons json_quote_def)
  qed
qed simp

lemma dict_of_distinct:
  assumes "distinct (map fst ps)" shows "dict_of ps = ps"
proof -
  have "fold (\<lambda>(k, v) d. AList.update k v d) ps acc = acc @ ps"
    if "distinct (map fst (acc @ ps))" for acc
    using that
  proof (induction ps arbitrary: acc)
    case (Cons p ps)
    have "fst p \<notin> fst ` set acc \<Longrightarrow> AList.update (fst p) (snd p) acc = acc @ [p]"
      by (induction acc) auto
    then have "AList.update (fst p) (snd p) acc = acc @ [p]" using Cons.prems by auto
    then show ?case using Cons by (cases p) simp
  qed simp
  from this[of "[]"] assms show ?thesis by (simp add: dict_of_def)
qed

lemma scan_value_number:
  assumes "is_digit c \<or> c = CHR ''-''" "\<not> startswith (c # s) ''-Infinity''"
  shows "scan_value fl (Suc n) (c # s) = scan_number fl (c # s)"
proof -
  have "c \<notin> {CHR 0x22, CHR ''{'', CHR ''['', CHR ''n'', CHR ''t'', CHR ''f'', CHR ''N'', CHR ''I''}"
    using assms(1) by (auto simp: is_digit_def code_def)
  then show ?thesis using assms(2) by (auto simp: startswith_def)
qed

lemma scan_dumps:
  assumes "loadable j" "json_ends r" "2 * length (dumps j) \<le> n"
  shows "scan_value fl n (dumps j @ r) = Inr (thaw_json (norm_json j), r)"
  using assms
proof (induction j arbitrary: n r rule: json_induct)
  case (JInt i)
  obtain m where n: "n = Suc m" using JInt.prems(3) nat_repr_digits[of "nat i"] nat_repr_digits[of "nat (- i)"]
    by (cases n) (auto simp: int_repr_def split: if_splits)
  obtain c t where c: "int_repr i = c # t" "is_digit c \<or> c = CHR ''-''"
    using hd_nat_repr[of "nat i"] nat_repr_digits[of "nat i"]
    by (cases "i < 0"; cases "nat_repr (nat i)") (auto simp: int_repr_def)
  have "\<not> startswith (c # t @ r) ''-Infinity''"
  proof
    assume "startswith (c # t @ r) ''-Infinity''"
    then have "c = CHR ''-''" "hd (t @ r) = CHR ''I''" "t @ r \<noteq> []" by (auto simp: startswith_iff)
    moreover from this c have "i < 0" "t = nat_repr (nat (- i))"
      using hd_nat_repr[of "nat i"] by (auto simp: int_repr_def is_digit_def code_def split: if_splits)
    ultimately show False using hd_nat_repr[of "nat (- i)"] nat_repr_digits[of "nat (- i)"]
      by (simp add: hd_append is_digit_def code_def)
  qed
  then have "scan_value fl n (dumps (JInt i) @ r) = scan_number fl (int_repr i @ r)"
    unfolding dumps.simps c(1) n append_Cons by (rule scan_value_number[OF c(2)])
  then show ?case using scan_int_repr[OF JInt.prems(2)] JInt.prems(1) by simp
next
  case (JStr s)
  then show ?case
    by (cases n) (simp_all add: json_quote_def scan_quoted)
next
  case (JArr xs)
  obtain m where n: "n = Suc m" using JArr.prems(3) by (cases n) auto
  have items: "scan_items fl m (join '','' (map dumps xs) @ CHR '']'' # r)
      = Inr (map (\<lambda>x. thaw_json (norm_json x)) xs, r)" if "xs \<noteq> []"
    using that JArr.prems n
    by (intro scan_items_join JArr.IH) (auto simp: list_all_iff intro: loadable_float_free)
  show ?case
  proof (cases "xs = []")
    case False
    then obtain x ys where xs: "xs = x # ys" by (cases xs) auto
    then have x: "float_free x" using JArr.prems(1) loadable_float_free by simp
    have space: "skip_space (join '','' (map dumps xs) @ CHR '']'' # r) = join '','' (map dumps xs) @ CHR '']'' # r"
      using skip_space_dumps[OF x] by (simp add: xs join_Cons)
    have first: "hd (join '','' (map dumps xs) @ CHR '']'' # r) \<noteq> CHR '']''"
      using dumps_head[OF x] dumps_head_not_delim[OF x, of "CHR '']''"]
      by (simp add: xs join_Cons hd_append json_delim_def)
    show ?thesis using items[OF False] space first n by (simp add: comp_def)
  qed (simp add: n)
next
  case (JObj kvs)
  let ?kvs = "sort_key fst kvs"
  let ?text = "join '','' (map member_text ?kvs)"
  have written: "dumps (JObj kvs) = CHR ''{'' # ?text @ ''}''"
    by (simp add: sort_key_fst_map comp_def)
  obtain m where n: "n = Suc m" "2 * length ?text < m"
    using JObj.prems(3) unfolding written by (cases n) auto
  let ?ps = "map (\<lambda>kv. (PyStr (fst kv), thaw_json (norm_json (snd kv)))) ?kvs"
  have load: "loadable x" if "x \<in> snd ` set kvs" for x
    using that JObj.prems(1) by (auto simp: list_all_iff)
  have members: "scan_members fl m (?text @ CHR ''}'' # r) = Inr (?ps, r)" if "kvs \<noteq> []"
  proof (rule scan_members_join)
    show "?kvs \<noteq> []" using that by (metis length_sort length_0_conv)
    show "\<forall>x\<in>snd ` set ?kvs. float_free x" using load loadable_float_free by simp
    fix x n' r' assume "x \<in> snd ` set ?kvs" "json_ends r'" "2 * length (dumps x) \<le> n'"
    then show "scan_value fl n' (dumps x @ r') = Inr (thaw_json (norm_json x), r')"
      using JObj.IH load by auto
  qed (use n in simp)
  have "distinct (map fst ?ps)"
  proof -
    have "map fst ?ps = map PyStr (map fst ?kvs)" by simp
    moreover have "distinct (map fst ?kvs)" using JObj.prems(1) by (simp add: distinct_map)
    ultimately show ?thesis by (simp add: distinct_map inj_on_def)
  qed
  then have dict: "dict_of ?ps = ?ps" by (rule dict_of_distinct)
  have result: "thaw_json (norm_json (JObj kvs)) = PyDict ?ps"
    by (simp add: sort_key_fst_map comp_def)
  show ?case
  proof (cases "kvs = []")
    case False
    then obtain kv ys where ks: "?kvs = kv # ys" by (cases ?kvs) (auto dest: arg_cong[of _ _ length])
    have space: "skip_space (?text @ CHR ''}'' # r) = ?text @ CHR ''}'' # r"
      and first: "hd (?text @ CHR ''}'' # r) \<noteq> CHR ''}''"
      by (simp_all add: ks join_Cons json_quote_def)
    show ?thesis unfolding written result using members[OF False] space first n dict by simp
  qed (simp add: n)
next
  case JNull then show ?case by (cases n) (simp_all add: startswith_iff)
next
  case (JBool b) then show ?case by (cases n; cases b) (simp_all add: startswith_iff)
qed simp

lemma json_bytes_length: "length (dumps j) \<le> length (json_bytes j)"
proof -
  have "length s \<le> length (utf8_encode s)" for s
    by (induction s) (auto simp: utf8_encode_def utf8_char_def)
  then show ?thesis by (simp add: json_bytes_def)
qed

lemma decode_json_bytes:
  assumes "float_free j" shows "decode_document (json_bytes j) = Inr (dumps j)"
proof -
  have "\<not> startswith (json_bytes j) (map char_of [239, 187, 191 :: nat])"
  proof
    assume "startswith (json_bytes j) (map char_of [239, 187, 191 :: nat])"
    then have "hd (json_bytes j) = char_of (239 :: nat)" by (auto simp: startswith_iff)
    moreover obtain c t where c: "dumps j = c # t" using dumps_head[OF assms] by (cases "dumps j") auto
    ultimately have "code (hd (utf8_char c)) = 239"
      by (auto simp: json_bytes_def utf8_encode_def utf8_char_def code_def)
    moreover have "code (hd (utf8_char c)) < 196"
    proof (cases "code c < 128")
      case False
      have "code c div 64 < 4" using code_less_256[of c] by auto
      then show ?thesis using False by (simp add: utf8_char_def) (simp add: code_def)
    qed (simp add: utf8_char_def)
    ultimately show False by simp
  qed
  then show ?thesis by (simp add: decode_document_def decode_text_def removeprefix_def json_bytes_def)
qed

lemma json_loads_bytes:
  assumes "loadable j"
  shows "json_loads fl (json_bytes j) = Inr (thaw_json (norm_json j))"
proof -
  have ff: "float_free j" using assms by (rule loadable_float_free)
  have "scan_value fl (2 * length (dumps j) + 2) (dumps j @ []) = Inr (thaw_json (norm_json j), [])"
    using assms by (intro scan_dumps) auto
  moreover have "skip_space (dumps j) = dumps j" using skip_space_dumps[OF ff, of "[]"] by simp
  ultimately show ?thesis
    by (simp add: json_loads_def decode_json_bytes[OF ff] del: scan_value.simps)
qed

text \<open>
  \<open>json.loads\<close> reads the canonical bytes of every value with distinct keys, no floats and
  integers within the interpreter's digit limit, and the value read is the one written, its keys in
  order: no escape, no nesting and no key order is lost.\<close>
theorem json_loads_roundtrip:
  assumes "loadable j"
  shows "json_loads fl (json_bytes j) = Inr (thaw_json (norm_json j))"
  using assms by (rule json_loads_bytes)

theorem json_loads_roundtrip_witness:
  "json_loads (\<lambda>_. NotANumber)
     (json_bytes (JObj [(''b'', JArr [JInt (- 10), JStr [CHR 0x22, CHR 0x0A, CHR 0xE9]]), (''a'', JNull)]))
   = Inr (PyDict [(PyStr ''a'', PyNone),
       (PyStr ''b'', PyList [PyInt (- 10), PyStr [CHR 0x22, CHR 0x0A, CHR 0xE9]])])"
proof -
  have "loadable (JObj [(''b'', JArr [JInt (- 10), JStr [CHR 0x22, CHR 0x0A, CHR 0xE9]]), (''a'', JNull)])"
    by (simp add: nat_repr.simps MAX_INT_DIGITS_def)
  from json_loads_roundtrip[OF this, of "\<lambda>_. NotANumber"] show ?thesis by simp
qed

end
