(* ===== verification/Replay.thy ===== *)
theory Replay
  imports Manifest JsonReading
begin

text \<open>
  \<open>orchestration/replay.py\<close>, the session: what replay expects of a node, the findings it reports,
  and the reads of recorded artifacts with their metadata checks, the cache and the budgets.

  A read is a function of the session that returns the session with its value or its error: the
  session object keeps what it recorded when a read raises. The port of the artifact reader is a
  record of its two methods; a reader that answers differently over time is outside the model.
\<close>

section \<open>Expectations\<close>

record check_expectation =
  xk_id :: string
  xk_argv :: "string list"
  xk_exit :: int
  xk_timeout :: json

record node_expectation =
  xe_id :: string
  xe_objective :: string
  xe_constraints :: "string list"
  xe_depends_on :: "string list"
  xe_write :: bool
  xe_effects :: "string list"
  xe_allowed :: "string list"
  xe_max_changed :: int
  xe_checks :: "check_expectation list"
  xe_status :: string
  xe_attempt :: int
  xe_fencing :: int
  xe_lease :: "string option"
  xe_spec :: "string option"
  xe_base :: "string option"
  xe_head :: "string option"
  xe_failure :: "string option"
  xe_result :: "string option"
  xe_provider_context :: "string option"

section \<open>Reports\<close>

datatype replay_status = ReplayNotApplicable | ReplayVerified | ReplayInconclusive | ReplayFailed

fun replay_status_value :: "replay_status \<Rightarrow> string" where
  "replay_status_value ReplayNotApplicable = ''not-applicable''"
| "replay_status_value ReplayVerified = ''verified''"
| "replay_status_value ReplayInconclusive = ''inconclusive''"
| "replay_status_value ReplayFailed = ''failed''"

datatype artifact_role = RoleOutcome | RoleContext | RoleProposal | RoleProvider | RoleEffect
  | RoleCommand | RoleResult | RoleStdout | RoleStderr

fun artifact_role_value :: "artifact_role \<Rightarrow> string" where
  "artifact_role_value RoleOutcome = ''outcome''"
| "artifact_role_value RoleContext = ''context''"
| "artifact_role_value RoleProposal = ''proposal''"
| "artifact_role_value RoleProvider = ''provider''"
| "artifact_role_value RoleEffect = ''effect''"
| "artifact_role_value RoleCommand = ''check-command''"
| "artifact_role_value RoleResult = ''check-result''"
| "artifact_role_value RoleStdout = ''check-stdout''"
| "artifact_role_value RoleStderr = ''check-stderr''"

datatype replay_code = StoreUnavailable | OutcomeReferenceAbsent | ArtifactMissing
  | ArtifactIntegrityFailed | MetadataMismatch | ReadUnavailable | BudgetExceeded | JsonInvalid
  | Noncanonical | OutcomeSchemaUnsupported | OutcomeInvalid | BindingMismatch

fun replay_code_value :: "replay_code \<Rightarrow> string" where
  "replay_code_value StoreUnavailable = ''replay-artifact-store-unavailable''"
| "replay_code_value OutcomeReferenceAbsent = ''replay-outcome-reference-absent''"
| "replay_code_value ArtifactMissing = ''replay-artifact-missing''"
| "replay_code_value ArtifactIntegrityFailed = ''replay-artifact-integrity-failed''"
| "replay_code_value MetadataMismatch = ''replay-artifact-metadata-mismatch''"
| "replay_code_value ReadUnavailable = ''replay-artifact-read-unavailable''"
| "replay_code_value BudgetExceeded = ''replay-artifact-budget-exceeded''"
| "replay_code_value JsonInvalid = ''replay-artifact-json-invalid''"
| "replay_code_value Noncanonical = ''replay-artifact-noncanonical''"
| "replay_code_value OutcomeSchemaUnsupported = ''replay-outcome-schema-unsupported''"
| "replay_code_value OutcomeInvalid = ''replay-outcome-invalid''"
| "replay_code_value BindingMismatch = ''replay-artifact-binding-mismatch''"

record artifact_evidence =
  ae_node :: string
  ae_role :: artifact_role
  ae_check :: "string option"
  ae_digest :: string
  ae_size :: int
  ae_media :: string
  ae_encoding :: "string option"
  ae_verified :: bool

record replay_finding =
  rf_code :: replay_code
  rf_node :: "string option"
  rf_role :: "artifact_role option"
  rf_check :: "string option"
  rf_digest :: "string option"

record replay_report =
  rr_status :: replay_status
  rr_artifacts :: "artifact_evidence list"
  rr_findings :: "replay_finding list"
  rr_digest :: string

definition replay_report_payload :: "replay_status \<Rightarrow> artifact_evidence list \<Rightarrow> replay_finding list \<Rightarrow> jobject" where
  "replay_report_payload status artifacts findings =
     [(''status'', JStr (replay_status_value status)),
      (''artifacts'', JArr (map (\<lambda>a. JObj [(''node_id'', JStr (ae_node a)),
          (''role'', JStr (artifact_role_value (ae_role a))), (''check_id'', opt_str (ae_check a)),
          (''digest'', JStr (ae_digest a)), (''size_bytes'', JInt (ae_size a)),
          (''media_type'', JStr (ae_media a)), (''encoding'', opt_str (ae_encoding a)),
          (''verified'', JBool (ae_verified a))]) artifacts)),
      (''findings'', JArr (map (\<lambda>f. JObj [(''code'', JStr (replay_code_value (rf_code f))),
          (''node_id'', opt_str (rf_node f)), (''role'', opt_str (map_option artifact_role_value (rf_role f))),
          (''check_id'', opt_str (rf_check f)), (''artifact_digest'', opt_str (rf_digest f))]) findings))]"

definition make_report :: "replay_status \<Rightarrow> artifact_evidence list \<Rightarrow> replay_finding list \<Rightarrow> replay_report" where
  "make_report status artifacts findings = \<lparr>rr_status = status, rr_artifacts = artifacts,
     rr_findings = findings, rr_digest = json_digest (JObj (replay_report_payload status artifacts findings))\<rparr>"

section \<open>Failures\<close>

datatype evidence_failure = ArtifactsNotVerified | DefinitionMismatch | EvidenceBudgetExceeded

text \<open>\<open>_ReplayIssue\<close>: the status the report takes and its finding.\<close>

record replay_issue =
  ri_status :: replay_status
  ri_finding :: replay_finding

text \<open>What a call raises: an issue, a \<open>ReviewEvidenceError\<close>, or the \<open>ValueError\<close> of
  \<open>json.loads\<close> on an integer beyond the interpreter's digit limit, which no handler of replay
  names. \<open>BeyondModel\<close> marks texts with characters above 255.\<close>

datatype replay_error = Issue replay_issue | EvidenceError evidence_failure | IntegerValueError | BeyondModel

text \<open>The node, role and check every read is for.\<close>

record replay_site =
  si_node :: string
  si_role :: artifact_role
  si_check :: "string option"

definition issue_at :: "replay_status \<Rightarrow> replay_code \<Rightarrow> replay_site \<Rightarrow> string option \<Rightarrow> replay_error" where
  "issue_at status failure site digest = Issue \<lparr>ri_status = status,
     ri_finding = \<lparr>rf_code = failure, rf_node = Some (si_node site), rf_role = Some (si_role site),
       rf_check = si_check site, rf_digest = digest\<rparr>\<rparr>"

definition binding_issue :: "replay_site \<Rightarrow> string \<Rightarrow> replay_error" where
  "binding_issue site digest = issue_at ReplayFailed BindingMismatch site (Some digest)"

section \<open>The session\<close>

text \<open>\<open>ExecutionArtifactReaderPort\<close>; \<open>get_bytes\<close> is called with \<open>verify=True\<close>.\<close>

record artifact_reader =
  rd_stat :: "string \<Rightarrow> kernel_error + artifact_ref"
  rd_get :: "artifact_ref \<Rightarrow> kernel_error + string"

definition store_reader :: "artifact_db \<Rightarrow> artifact_reader" where
  "store_reader db = \<lparr>rd_stat = stat db, rd_get = (\<lambda>r. get_bytes db (ar_digest r) True)\<rparr>"

record replay_session =
  ss_artifacts :: "artifact_evidence list"
  ss_bytes :: "string \<rightharpoonup> string"
  ss_counted :: "string set"
  ss_references :: "string \<rightharpoonup> artifact_ref"
  ss_total :: int

definition empty_session :: replay_session where
  "empty_session = \<lparr>ss_artifacts = [], ss_bytes = Map.empty, ss_counted = {},
     ss_references = Map.empty, ss_total = 0\<rparr>"

definition MAX_OUTCOME_BYTES :: int where "MAX_OUTCOME_BYTES = 4 * 1024 * 1024"
definition MAX_JSON_ARTIFACT_BYTES :: int where "MAX_JSON_ARTIFACT_BYTES = 4 * 1024 * 1024"
definition MAX_REVIEW_EVIDENCE_ITEMS :: nat where "MAX_REVIEW_EVIDENCE_ITEMS = 128"
definition MAX_TOTAL_BYTES :: int where
  "MAX_TOTAL_BYTES = int MAX_REVIEW_EVIDENCE_ITEMS * int MAX_ACCEPTANCE_STREAM_BYTES"
definition MAX_ARTIFACT_RELATIONSHIPS :: nat where "MAX_ARTIFACT_RELATIONSHIPS = 16384"

type_synonym 'a replay = "replay_session \<Rightarrow> (replay_error + 'a) \<times> replay_session"

definition rreturn :: "'a \<Rightarrow> 'a replay" where "rreturn x = (\<lambda>s. (Inr x, s))"

definition rraise :: "replay_error \<Rightarrow> 'a replay" where "rraise e = (\<lambda>s. (Inl e, s))"

definition rbind :: "'a replay \<Rightarrow> ('a \<Rightarrow> 'b replay) \<Rightarrow> 'b replay" where
  "rbind m f = (\<lambda>s. case m s of (Inl e, t) \<Rightarrow> (Inl e, t) | (Inr x, t) \<Rightarrow> f x t)"

definition rcheck :: "replay_error \<Rightarrow> bool \<Rightarrow> unit replay" where
  "rcheck e b = (if b then rreturn () else rraise e)"

definition rlift :: "replay_error + 'a \<Rightarrow> 'a replay" where "rlift m = (\<lambda>s. (m, s))"

fun rtraverse :: "('a \<Rightarrow> 'b replay) \<Rightarrow> 'a list \<Rightarrow> 'b list replay" where
  "rtraverse f [] = rreturn []"
| "rtraverse f (x # xs) = rbind (f x) (\<lambda>y. rbind (rtraverse f xs) (\<lambda>ys. rreturn (y # ys)))"

text \<open>The issue an exception of the reader becomes.\<close>

definition reader_issue :: "replay_site \<Rightarrow> string \<Rightarrow> kernel_error \<Rightarrow> replay_error" where
  "reader_issue site digest e = (case e of
     ArtifactNotFoundError \<Rightarrow> issue_at ReplayFailed ArtifactMissing site (Some digest)
   | ArtifactIntegrityError \<Rightarrow> issue_at ReplayFailed ArtifactIntegrityFailed site (Some digest)
   | _ \<Rightarrow> issue_at ReplayInconclusive ReadUnavailable site (Some digest))"

definition stat_session :: "artifact_reader \<Rightarrow> replay_site \<Rightarrow> string \<Rightarrow> artifact_ref replay" where
  "stat_session rd site digest = (\<lambda>s. case ss_references s digest of
     Some r \<Rightarrow> (Inr r, s)
   | None \<Rightarrow> (case rd_stat rd digest of
       Inl e \<Rightarrow> (Inl (reader_issue site digest e), s)
     | Inr r \<Rightarrow> (Inr r, s\<lparr>ss_references := (ss_references s)(digest \<mapsto> r)\<rparr>)))"

text \<open>The part of \<open>_read\<close> that fetches bytes the session does not hold.\<close>

definition fetch_bytes :: "artifact_reader \<Rightarrow> replay_site \<Rightarrow> bool \<Rightarrow> artifact_link \<Rightarrow> artifact_ref \<Rightarrow> string replay" where
  "fetch_bytes rd site retain link reference = (\<lambda>s.
     let first_read = (lk_digest link \<notin> ss_counted s) in
     if first_read \<and> ss_total s + lk_size link > MAX_TOTAL_BYTES
     then (Inl (issue_at ReplayInconclusive BudgetExceeded site (Some (lk_digest link))), s)
     else case rd_get rd reference of
         Inl e \<Rightarrow> (Inl (reader_issue site (lk_digest link) e), s)
       | Inr data \<Rightarrow>
           if int (length data) \<noteq> lk_size link \<or> bytes_digest data \<noteq> lk_digest link
           then (Inl (issue_at ReplayFailed ArtifactIntegrityFailed site (Some (lk_digest link))), s)
           else
             let kept = (if retain then s\<lparr>ss_bytes := (ss_bytes s)(lk_digest link \<mapsto> data)\<rparr> else s);
                 counted = (if first_read
                   then kept\<lparr>ss_counted := insert (lk_digest link) (ss_counted kept),
                     ss_total := ss_total kept + int (length data)\<rparr> else kept)
             in (Inr data, counted))"

text \<open>\<open>_read\<close>, which \<open>read_link\<close> calls with its own arguments.\<close>

definition read_link :: "artifact_reader \<Rightarrow> replay_site \<Rightarrow> string \<Rightarrow> string option \<Rightarrow> int \<Rightarrow> bool
    \<Rightarrow> artifact_link \<Rightarrow> string replay" where
  "read_link rd site media encoding maximum retain link =
     rbind (stat_session rd site (lk_digest link)) (\<lambda>reference.
     rbind (rcheck (issue_at ReplayFailed MetadataMismatch site (Some (lk_digest link)))
       (\<not> (ar_size reference \<noteq> lk_size link \<or> ar_media reference \<noteq> lk_media link
          \<or> ar_encoding reference \<noteq> lk_encoding link
          \<or> si_role site \<notin> {RoleStdout, RoleStderr} \<and> (lk_media link \<noteq> media \<or> lk_encoding link \<noteq> encoding))))
       (\<lambda>_.
     rbind (rcheck (issue_at ReplayInconclusive BudgetExceeded site (Some (lk_digest link)))
       (\<not> lk_size link > maximum)) (\<lambda>_.
     rbind (\<lambda>s. case ss_bytes s (lk_digest link) of
         Some data \<Rightarrow> (Inr data, s)
       | None \<Rightarrow> fetch_bytes rd site retain link reference s) (\<lambda>data.
     rbind (\<lambda>s. rcheck (issue_at ReplayInconclusive BudgetExceeded site (Some (lk_digest link)))
       (\<not> length (ss_artifacts s) \<ge> MAX_ARTIFACT_RELATIONSHIPS) s) (\<lambda>_.
     \<lambda>s. (Inr data, s\<lparr>ss_artifacts := ss_artifacts s @ [\<lparr>ae_node = si_node site, ae_role = si_role site,
       ae_check = si_check site, ae_digest = lk_digest link, ae_size = lk_size link,
       ae_media = lk_media link, ae_encoding = lk_encoding link, ae_verified = True\<rparr>]\<rparr>))))))"

definition read_digest :: "artifact_reader \<Rightarrow> replay_site \<Rightarrow> string \<Rightarrow> string option \<Rightarrow> int \<Rightarrow> string
    \<Rightarrow> (string \<times> artifact_link) replay" where
  "read_digest rd site media encoding maximum digest =
     rbind (stat_session rd site digest) (\<lambda>reference.
     case link_from_reference reference of
       None \<Rightarrow> rraise (issue_at ReplayFailed MetadataMismatch site (Some digest))
     | Some link \<Rightarrow>
         rbind (rcheck (issue_at ReplayFailed MetadataMismatch site (Some digest)) (lk_digest link = digest)) (\<lambda>_.
         rbind (read_link rd site media encoding maximum True link) (\<lambda>data. rreturn (data, link))))"

section \<open>Canonical mappings\<close>

definition canonical_mapping :: "(string \<Rightarrow> pyfloat) \<Rightarrow> replay_site \<Rightarrow> string \<Rightarrow> string \<Rightarrow> replay_error + jobject" where
  "canonical_mapping fl site digest data =
     (case json_loads fl data of
        Inl JsonDecodeError \<Rightarrow> Inl (issue_at ReplayFailed JsonInvalid site (Some digest))
      | Inl IntegerDigitsLimit \<Rightarrow> Inl IntegerValueError
      | Inl WideText \<Rightarrow> Inl BeyondModel
      | Inr v \<Rightarrow>
          (case v of PyDict _ \<Rightarrow>
             (case freeze_json v of
                Inr (JObj kvs) \<Rightarrow>
                  if json_bytes (JObj kvs) = data then Inr kvs
                  else Inl (issue_at ReplayFailed Noncanonical site (Some digest))
              | _ \<Rightarrow> Inl (issue_at ReplayFailed JsonInvalid site (Some digest)))
           | _ \<Rightarrow> Inl (issue_at ReplayFailed JsonInvalid site (Some digest))))"

end
