(* ===== verification/ReplayNode.thy ===== *)
theory ReplayNode
  imports Replay ReviewAdmission
begin

text \<open>
  \<open>orchestration/replay.py\<close>, the verification of one node and of a run: the readers of the recorded
  contexts, provider results, effects, commands and results, the checks that bind them to each other
  and to what the plan expects, and the report. A reader whose every exception becomes one binding
  issue is an option. \<open>fl\<close> is \<open>float\<close> of a text and \<open>fromiso\<close> the parser of timestamps.
\<close>

section \<open>Excerpt sources\<close>

definition MAX_REVIEW_EXCERPT_BYTES :: nat where "MAX_REVIEW_EXCERPT_BYTES = 32 * 1024"

record excerpt_source =
  xs_prefix :: string
  xs_size :: nat
  xs_binary :: bool

definition review_excerpt_source :: "bool \<Rightarrow> string \<Rightarrow> replay_error + excerpt_source" where
  "review_excerpt_source binary_allowed data =
     (let source = (\<lambda>binary. \<lparr>xs_prefix = take MAX_REVIEW_EXCERPT_BYTES data, xs_size = length data,
            xs_binary = binary\<rparr>);
          binary_source = (if binary_allowed then Inr (source True) else Inl (EvidenceError DefinitionMismatch))
      in case decode_text data of
           Inl WideText \<Rightarrow> Inl BeyondModel
         | Inl _ \<Rightarrow> binary_source
         | Inr decoded \<Rightarrow> if CHR 0x00 \<in> set decoded then binary_source else Inr (source False))"

section \<open>Readers\<close>

text \<open>\<open>_string\<close> without \<open>allow_empty\<close>, and \<open>_number\<close>.\<close>

definition nonempty_str :: "json \<Rightarrow> string option" where
  "nonempty_str v = do { s \<leftarrow> as_str v; ensure (s \<noteq> []); Some s }"

definition as_number :: "json \<Rightarrow> json option" where
  "as_number v = (case v of JInt i \<Rightarrow> Some v | JFloat q r \<Rightarrow> Some v | _ \<Rightarrow> None)"

definition evidence_file_from_mapping :: "json \<Rightarrow> evidence_file option" where
  "evidence_file_from_mapping v = do {
     raw \<leftarrow> as_obj v;
     ensure (keys_are raw [''path'', ''content'', ''content_digest'']);
     path \<leftarrow> nonempty_str (jget raw ''path'');
     content \<leftarrow> as_str (jget raw ''content'');
     digest \<leftarrow> nonempty_str (jget raw ''content_digest'');
     let f = \<lparr>ef_path = path, ef_content = content, ef_digest = digest\<rparr> in do {
     ensure (evidence_file_ok f); Some f } }"

definition context_from_mapping :: "jobject \<Rightarrow> change_context option" where
  "context_from_mapping raw = do {
     ensure (keys_are raw [''schema_version'', ''objective'', ''constraints'', ''base_commit'',
       ''allowed_paths'', ''max_changed_paths'', ''files'']);
     ensure (jget raw ''schema_version'' = JStr CHANGE_CONTEXT_SCHEMA);
     constraints \<leftarrow> str_sequence (jget raw ''constraints'');
     allowed \<leftarrow> str_sequence (jget raw ''allowed_paths'');
     raw_files \<leftarrow> as_arr (jget raw ''files'');
     files \<leftarrow> traverse evidence_file_from_mapping raw_files;
     objective \<leftarrow> nonempty_str (jget raw ''objective'');
     base \<leftarrow> nonempty_str (jget raw ''base_commit'');
     max_changed \<leftarrow> as_int (jget raw ''max_changed_paths'');
     make_change_context \<lparr>cx_objective = objective, cx_constraints = constraints, cx_base = base,
       cx_allowed = allowed, cx_max_changed = max_changed, cx_files = files,
       cx_schema = CHANGE_CONTEXT_SCHEMA\<rparr> }"

definition provider_from_mapping ::
    "(string \<Rightarrow> datetime option) \<Rightarrow> jobject \<Rightarrow> change_proposal \<Rightarrow> change_result option" where
  "provider_from_mapping fromiso raw proposal = do {
     ensure (keys_are raw [''schema_version'', ''proposal_digest'', ''provider_output_digest'',
       ''profile_id'', ''adapter_id'', ''model_id'', ''input_tokens'', ''output_tokens'',
       ''latency_ms'', ''cost_microusd'', ''completed_at'']);
     ensure (jget raw ''schema_version'' = JStr CHANGE_PROVIDER_RESULT_SCHEMA);
     ensure (jget raw ''proposal_digest'' = JStr (change_proposal_digest proposal));
     output \<leftarrow> nonempty_str (jget raw ''provider_output_digest'');
     profile \<leftarrow> nonempty_str (jget raw ''profile_id'');
     adapter \<leftarrow> nonempty_str (jget raw ''adapter_id'');
     model \<leftarrow> nonempty_str (jget raw ''model_id'');
     input_tokens \<leftarrow> optional_int (jget raw ''input_tokens'');
     output_tokens \<leftarrow> optional_int (jget raw ''output_tokens'');
     latency \<leftarrow> as_int (jget raw ''latency_ms'');
     cost \<leftarrow> optional_int (jget raw ''cost_microusd'');
     completed_text \<leftarrow> nonempty_str (jget raw ''completed_at'');
     completed \<leftarrow> fromiso completed_text;
     let r = \<lparr>cr_proposal = proposal, cr_output_digest = output, cr_profile_id = profile,
       cr_adapter_id = adapter, cr_model_id = model, cr_input_tokens = input_tokens,
       cr_output_tokens = output_tokens, cr_latency_ms = latency, cr_cost_microusd = cost,
       cr_completed_at = completed, cr_schema = CHANGE_PROVIDER_RESULT_SCHEMA\<rparr> in do {
     ensure (change_result_ok r); Some r } }"

definition command_from_mapping :: "jobject \<Rightarrow> acceptance_command option" where
  "command_from_mapping raw = do {
     ensure (keys_are raw [''schema_version'', ''check_id'', ''argv'', ''expected_exit_code'',
       ''timeout_seconds'', ''stdout_limit_bytes'', ''stderr_limit_bytes'']);
     ensure (jget raw ''schema_version'' = JStr ACCEPTANCE_COMMAND_SCHEMA);
     i \<leftarrow> nonempty_str (jget raw ''check_id'');
     argv \<leftarrow> str_sequence (jget raw ''argv'');
     exit_code \<leftarrow> as_int (jget raw ''expected_exit_code'');
     timeout \<leftarrow> as_number (jget raw ''timeout_seconds'');
     stdout_limit \<leftarrow> as_int (jget raw ''stdout_limit_bytes'');
     stderr_limit \<leftarrow> as_int (jget raw ''stderr_limit_bytes'');
     let c = \<lparr>ac_check_id = i, ac_argv = argv, ac_exit = exit_code, ac_timeout = timeout,
       ac_stdout_limit = stdout_limit, ac_stderr_limit = stderr_limit,
       ac_schema = ACCEPTANCE_COMMAND_SCHEMA\<rparr> in do {
     ensure (acceptance_command_ok c); Some c } }"

text \<open>The recorded size and digest of a stream are those of the bytes read for it.\<close>

definition stream_matches :: "jobject \<Rightarrow> string \<Rightarrow> bool" where
  "stream_matches raw data \<longleftrightarrow> keys_are raw [''schema_version'', ''size_bytes'', ''digest'']
     \<and> jget raw ''schema_version'' = JStr ACCEPTANCE_STREAM_SCHEMA
     \<and> py_eq (jget raw ''size_bytes'') (JInt (int (length data)))
     \<and> jget raw ''digest'' = JStr (bytes_digest data)"

definition result_from_mapping :: "jobject \<Rightarrow> string \<Rightarrow> string \<Rightarrow> acceptance_result option" where
  "result_from_mapping raw stdout stderr = do {
     ensure (keys_are raw [''schema_version'', ''check_id'', ''command_digest'', ''worktree_spec_digest'',
       ''isolation_policy_digest'', ''inspection_before_digest'', ''inspection_after_digest'',
       ''return_code'', ''expected_exit_code'', ''passed'', ''stdout'', ''stderr'']);
     ensure (jget raw ''schema_version'' = JStr ACCEPTANCE_RESULT_SCHEMA);
     stdout_value \<leftarrow> as_obj (jget raw ''stdout'');
     stderr_value \<leftarrow> as_obj (jget raw ''stderr'');
     ensure (stream_matches stdout_value stdout \<and> stream_matches stderr_value stderr);
     passed \<leftarrow> as_bool (jget raw ''passed'');
     i \<leftarrow> nonempty_str (jget raw ''check_id'');
     command \<leftarrow> nonempty_str (jget raw ''command_digest'');
     spec \<leftarrow> nonempty_str (jget raw ''worktree_spec_digest'');
     isolation \<leftarrow> nonempty_str (jget raw ''isolation_policy_digest'');
     before \<leftarrow> nonempty_str (jget raw ''inspection_before_digest'');
     after \<leftarrow> nonempty_str (jget raw ''inspection_after_digest'');
     return_code \<leftarrow> as_int (jget raw ''return_code'');
     expected_exit \<leftarrow> as_int (jget raw ''expected_exit_code'');
     let r = \<lparr>az_check_id = i, az_command = command, az_spec = spec, az_isolation = isolation,
       az_before = before, az_after = after, az_return = return_code, az_expected = expected_exit,
       az_passed = passed, az_stdout = stdout, az_stderr = stderr,
       az_schema = ACCEPTANCE_RESULT_SCHEMA\<rparr> in do {
     ensure (acceptance_result_ok r); Some r } }"

section \<open>Effects\<close>

definition TEXT_CHANGE_RESULT_SCHEMA :: string where
  "TEXT_CHANGE_RESULT_SCHEMA = ''execution-text-change-result/v1''"

definition effect_item_matches :: "json \<Rightarrow> file_change \<Rightarrow> bool" where
  "effect_item_matches v change = (case as_obj v of None \<Rightarrow> False | Some raw \<Rightarrow>
     keys_are raw [''operation'', ''path'', ''before_digest'', ''after_digest'']
     \<and> (let before = (if fc_operation change = CreateText then None else fc_expected change);
            after = (if fc_operation change = DeleteText then None else file_change_digest change)
        in jget raw ''operation'' = JStr (text_operation_value (fc_operation change))
           \<and> jget raw ''path'' = JStr (fc_path change) \<and> jget raw ''before_digest'' = opt_str before
           \<and> jget raw ''after_digest'' = opt_str after))"

definition effect_matches :: "jobject \<Rightarrow> node_expectation \<Rightarrow> change_context \<Rightarrow> change_proposal \<Rightarrow> bool" where
  "effect_matches raw expectation context proposal \<longleftrightarrow>
     keys_are raw [''schema_version'', ''status'', ''worktree_spec_digest'', ''lease_digest'',
       ''evidence_digest'', ''proposal_digest'', ''head_commit'', ''effects'', ''changed_paths'']
     \<and> jget raw ''schema_version'' = JStr TEXT_CHANGE_RESULT_SCHEMA
     \<and> jget raw ''status'' = JStr ''applied''
     \<and> jget raw ''worktree_spec_digest'' = opt_str (xe_spec expectation)
     \<and> jget raw ''lease_digest'' = opt_str (xe_lease expectation)
     \<and> jget raw ''evidence_digest'' = JStr (change_context_digest context)
     \<and> jget raw ''proposal_digest'' = JStr (change_proposal_digest proposal)
     \<and> jget raw ''head_commit'' = opt_str (xe_base expectation)
     \<and> (case (str_sequence (jget raw ''changed_paths''), as_arr (jget raw ''effects'')) of
          (Some changed, Some effects) \<Rightarrow> changed = map fc_path (cg_operations proposal)
            \<and> length effects = length (cg_operations proposal)
            \<and> list_all2 effect_item_matches effects (cg_operations proposal)
        | _ \<Rightarrow> False)"

section \<open>The manifest\<close>

definition manifest_matches :: "outcome_manifest \<Rightarrow> node_expectation \<Rightarrow> string \<Rightarrow> bool" where
  "manifest_matches m x run_id =
     (let check_ids = map ca_check_id (om_checks m); declared = map xk_id (xe_checks x) in
      if xe_status x \<notin> {''succeeded'', ''failed'', ''canceled''} \<or> om_run_id m \<noteq> run_id
        \<or> om_node_id m \<noteq> xe_id x \<or> om_attempt m \<noteq> xe_attempt x \<or> om_fencing m \<noteq> xe_fencing x
        \<or> Some (om_lease m) \<noteq> xe_lease x \<or> Some (om_spec m) \<noteq> xe_spec x \<or> Some (om_base m) \<noteq> xe_base x
        \<or> om_write m \<noteq> xe_write x \<or> om_status m \<noteq> xe_status x \<or> om_failure m \<noteq> xe_failure x
        \<or> check_ids \<noteq> take (length check_ids) declared
      then False
      else if xe_status x = ''succeeded'' \<and> om_head m \<noteq> xe_head x then False
      else if xe_status x \<noteq> ''succeeded'' \<and> om_head m \<noteq> None \<and> om_head m \<noteq> xe_head x then False
      else if xe_status x = ''succeeded'' \<and> check_ids \<noteq> declared then False
      else if xe_write x \<and> xe_status x = ''succeeded''
      then \<not> (xe_provider_context x = None \<or> om_context m = None
             \<or> map_option lk_digest (om_context m) \<noteq> xe_provider_context x)
      else \<not> (xe_provider_context x \<noteq> None \<and> om_context m \<noteq> None
             \<and> map_option lk_digest (om_context m) \<noteq> xe_provider_context x))"

section \<open>Recorded artifacts\<close>

definition site_of :: "node_expectation \<Rightarrow> artifact_role \<Rightarrow> string option \<Rightarrow> replay_site" where
  "site_of x role check_id = \<lparr>si_node = xe_id x, si_role = role, si_check = check_id\<rparr>"

definition read_mapping :: "(string \<Rightarrow> pyfloat) \<Rightarrow> artifact_reader \<Rightarrow> replay_site \<Rightarrow> string \<Rightarrow> int \<Rightarrow> bool
    \<Rightarrow> artifact_link \<Rightarrow> (string \<times> jobject) replay" where
  "read_mapping fl rd site media maximum retain link =
     rbind (read_link rd site media (Some ''utf-8'') maximum retain link) (\<lambda>data.
     rbind (rlift (canonical_mapping fl site (lk_digest link) data)) (\<lambda>raw. rreturn (data, raw)))"

definition verify_context :: "(string \<Rightarrow> pyfloat) \<Rightarrow> artifact_reader \<Rightarrow> node_expectation \<Rightarrow> artifact_link
    \<Rightarrow> change_context replay" where
  "verify_context fl rd x link =
     (let site = site_of x RoleContext None; mismatch = binding_issue site (lk_digest link) in
      rbind (read_mapping fl rd site CONTEXT_MEDIA_TYPE (int MAX_CHANGE_CONTEXT_BYTES) False link) (\<lambda>(_, raw).
      rbind (rlift (efail_on_None mismatch (context_from_mapping raw))) (\<lambda>c.
      rbind (rcheck mismatch (change_context_digest c = lk_digest link \<and> cx_objective c = xe_objective x
        \<and> cx_constraints c = xe_constraints x \<and> Some (cx_base c) = xe_base x
        \<and> cx_allowed c = xe_allowed x \<and> cx_max_changed c = xe_max_changed x)) (\<lambda>_. rreturn c))))"

definition verify_proposal :: "(string \<Rightarrow> pyfloat) \<Rightarrow> artifact_reader \<Rightarrow> node_expectation \<Rightarrow> artifact_link
    \<Rightarrow> change_context \<Rightarrow> change_proposal replay" where
  "verify_proposal fl rd x link c =
     (let site = site_of x RoleProposal None; mismatch = binding_issue site (lk_digest link) in
      rbind (read_mapping fl rd site PROPOSAL_MEDIA_TYPE (int MAX_CHANGE_PROPOSAL_BYTES) False link) (\<lambda>(_, raw).
      rbind (rlift (efail_on_None mismatch (change_proposal_from_mapping raw))) (\<lambda>p.
      rbind (rcheck mismatch (change_proposal_digest p = lk_digest link
        \<and> cg_evidence p = change_context_digest c)) (\<lambda>_. rreturn p))))"

definition verify_provider :: "(string \<Rightarrow> pyfloat) \<Rightarrow> (string \<Rightarrow> datetime option) \<Rightarrow> artifact_reader
    \<Rightarrow> node_expectation \<Rightarrow> artifact_link \<Rightarrow> change_proposal \<Rightarrow> unit replay" where
  "verify_provider fl fromiso rd x link p =
     (let site = site_of x RoleProvider None; mismatch = binding_issue site (lk_digest link) in
      rbind (read_mapping fl rd site PROVIDER_MEDIA_TYPE MAX_JSON_ARTIFACT_BYTES False link) (\<lambda>(_, raw).
      rbind (rlift (efail_on_None mismatch (provider_from_mapping fromiso raw p))) (\<lambda>r.
      rcheck mismatch (json_digest (JObj raw) = lk_digest link
        \<and> change_proposal_digest (cr_proposal r) = change_proposal_digest p))))"

definition verify_effect :: "(string \<Rightarrow> pyfloat) \<Rightarrow> artifact_reader \<Rightarrow> node_expectation \<Rightarrow> artifact_link
    \<Rightarrow> change_context \<Rightarrow> change_proposal \<Rightarrow> excerpt_source replay" where
  "verify_effect fl rd x link c p =
     (let site = site_of x RoleEffect None in
      rbind (read_mapping fl rd site EFFECT_MEDIA_TYPE (int MAX_TEXT_CHANGE_RESULT_BYTES) False link)
        (\<lambda>(data, raw).
      rbind (rcheck (binding_issue site (lk_digest link)) (effect_matches raw x c p)) (\<lambda>_.
      rlift (review_excerpt_source False data))))"

record check_material =
  km_command :: acceptance_command
  km_result_digest :: string
  km_passed :: bool
  km_recorded :: check_artifacts
  km_command_bytes :: string
  km_result_bytes :: string
  km_stdout :: excerpt_source
  km_stderr :: excerpt_source

definition command_as_expected :: "acceptance_command \<Rightarrow> check_artifacts \<Rightarrow> check_expectation \<Rightarrow> bool" where
  "command_as_expected c links expected \<longleftrightarrow> acceptance_command_digest c = ca_command_digest links
     \<and> ac_check_id c = xk_id expected \<and> ac_argv c = xk_argv expected \<and> ac_exit c = xk_exit expected
     \<and> py_eq (ac_timeout c) (xk_timeout expected)"

definition result_as_expected :: "acceptance_result \<Rightarrow> acceptance_command \<Rightarrow> check_artifacts
    \<Rightarrow> check_expectation \<Rightarrow> string option \<Rightarrow> bool" where
  "result_as_expected r c links expected spec \<longleftrightarrow>
     acceptance_result_digest r = ca_result_digest links \<and> az_check_id r = xk_id expected
     \<and> az_command r = acceptance_command_digest c \<and> Some (az_spec r) = spec
     \<and> az_expected r = xk_exit expected \<and> az_passed r = ca_passed links
     \<and> \<not> int (length (az_stdout r)) > ac_stdout_limit c \<and> \<not> int (length (az_stderr r)) > ac_stderr_limit c"

definition verify_check :: "(string \<Rightarrow> pyfloat) \<Rightarrow> artifact_reader \<Rightarrow> node_expectation
    \<Rightarrow> check_expectation \<times> check_artifacts \<Rightarrow> check_material replay" where
  "verify_check fl rd x pair =
     (case pair of (expected, links) \<Rightarrow>
      let site = (\<lambda>role. site_of x role (Some (xk_id expected)));
          command_mismatch = binding_issue (site RoleCommand) (lk_digest (ca_command links));
          result_mismatch = binding_issue (site RoleResult) (lk_digest (ca_result links));
          read_stream = (\<lambda>role. read_link rd (site role) ''application/octet-stream'' None
            (int MAX_ACCEPTANCE_STREAM_BYTES) False) in
      rbind (read_mapping fl rd (site RoleCommand) ACCEPTANCE_COMMAND_MEDIA_TYPE MAX_JSON_ARTIFACT_BYTES True
        (ca_command links)) (\<lambda>(command_bytes, raw_command).
      rbind (rlift (efail_on_None command_mismatch (command_from_mapping raw_command))) (\<lambda>command.
      rbind (rcheck command_mismatch (command_as_expected command links expected)) (\<lambda>_.
      rbind (read_mapping fl rd (site RoleResult) ACCEPTANCE_RESULT_MEDIA_TYPE MAX_JSON_ARTIFACT_BYTES True
        (ca_result links)) (\<lambda>(result_bytes, raw_result).
      rbind (read_stream RoleStdout (ca_stdout links)) (\<lambda>stdout.
      rbind (read_stream RoleStderr (ca_stderr links)) (\<lambda>stderr.
      rbind (rlift (efail_on_None result_mismatch (result_from_mapping raw_result stdout stderr))) (\<lambda>result.
      rbind (rcheck result_mismatch
        (result_as_expected result command links expected (xe_spec x))) (\<lambda>_.
      rbind (rlift (review_excerpt_source True stdout)) (\<lambda>stdout_source.
      rbind (rlift (review_excerpt_source True stderr)) (\<lambda>stderr_source.
      rreturn \<lparr>km_command = command, km_result_digest = acceptance_result_digest result,
        km_passed = az_passed result, km_recorded = links, km_command_bytes = command_bytes,
        km_result_bytes = result_bytes, km_stdout = stdout_source,
        km_stderr = stderr_source\<rparr>)))))))))))"

section \<open>Nodes and runs\<close>

record node_material =
  nm_expectation :: node_expectation
  nm_manifest :: outcome_manifest
  nm_outcome_link :: artifact_link
  nm_outcome_bytes :: string
  nm_context :: "change_context option"
  nm_proposal :: "change_proposal option"
  nm_effect :: "excerpt_source option"
  nm_checks :: "check_material list"

text \<open>An optional artifact: skipped when the manifest has no link, otherwise read with what it
  depends on, whose absence is a binding issue.\<close>

definition verify_optional :: "node_expectation \<Rightarrow> artifact_role \<Rightarrow> artifact_link option \<Rightarrow> 'd option
    \<Rightarrow> (artifact_link \<Rightarrow> 'd \<Rightarrow> 'a replay) \<Rightarrow> 'a option replay" where
  "verify_optional x role links needed verify = (case links of
     None \<Rightarrow> rreturn None
   | Some link \<Rightarrow> (case needed of
       None \<Rightarrow> rraise (binding_issue (site_of x role None) (lk_digest link))
     | Some d \<Rightarrow> rbind (verify link d) (\<lambda>y. rreturn (Some y))))"

definition both :: "'a option \<Rightarrow> 'b option \<Rightarrow> ('a \<times> 'b) option" where
  "both a b = do { x \<leftarrow> a; y \<leftarrow> b; Some (x, y) }"

definition outcome_failure :: "contract_failure \<Rightarrow> replay_site \<Rightarrow> string \<Rightarrow> replay_error" where
  "outcome_failure failure site digest = (case failure of
     UnsupportedOutcomeSchema \<Rightarrow> issue_at ReplayInconclusive OutcomeSchemaUnsupported site (Some digest)
   | InvalidOutcome \<Rightarrow> issue_at ReplayFailed OutcomeInvalid site (Some digest))"

definition verify_node :: "(string \<Rightarrow> pyfloat) \<Rightarrow> (string \<Rightarrow> datetime option) \<Rightarrow> artifact_reader \<Rightarrow> string
    \<Rightarrow> node_expectation \<Rightarrow> string \<Rightarrow> node_material replay" where
  "verify_node fl fromiso rd run_id x outcome_digest =
     (let site = site_of x RoleOutcome None in
      rbind (read_digest rd site OUTCOME_MEDIA_TYPE (Some ''utf-8'') MAX_OUTCOME_BYTES outcome_digest)
        (\<lambda>(outcome_bytes, outcome_link).
      rbind (rlift (canonical_mapping fl site outcome_digest outcome_bytes)) (\<lambda>raw.
      rbind (rlift (case node_outcome_from_mapping raw of
          Inl failure \<Rightarrow> Inl (outcome_failure failure site outcome_digest) | Inr m \<Rightarrow> Inr m)) (\<lambda>m.
      rbind (rcheck (binding_issue site outcome_digest)
        (node_outcome_digest m = outcome_digest \<and> manifest_matches m x run_id)) (\<lambda>_.
      rbind (verify_optional x RoleContext (om_context m) (Some ()) (\<lambda>link _.
        verify_context fl rd x link)) (\<lambda>context.
      rbind (verify_optional x RoleProposal (om_proposal m) context (\<lambda>link c.
        verify_proposal fl rd x link c)) (\<lambda>proposal.
      rbind (verify_optional x RoleProvider (om_provider m) proposal (\<lambda>link p.
        verify_provider fl fromiso rd x link p)) (\<lambda>_.
      rbind (verify_optional x RoleEffect (om_effect m) (both context proposal) (\<lambda>link (c, p).
        verify_effect fl rd x link c p)) (\<lambda>effect.
      rbind (rtraverse (verify_check fl rd x) (zip (xe_checks x) (om_checks m))) (\<lambda>checks.
      rreturn \<lparr>nm_expectation = x, nm_manifest = m, nm_outcome_link = outcome_link,
        nm_outcome_bytes = outcome_bytes, nm_context = context, nm_proposal = proposal,
        nm_effect = effect, nm_checks = checks\<rparr>))))))))))"

definition verify_required :: "(string \<Rightarrow> pyfloat) \<Rightarrow> (string \<Rightarrow> datetime option) \<Rightarrow> artifact_reader \<Rightarrow> string
    \<Rightarrow> node_expectation \<Rightarrow> node_material replay" where
  "verify_required fl fromiso rd run_id x = (case xe_result x of
     None \<Rightarrow> rraise (issue_at ReplayInconclusive OutcomeReferenceAbsent (site_of x RoleOutcome None) None)
   | Some digest \<Rightarrow> verify_node fl fromiso rd run_id x digest)"

text \<open>\<open>_verify_run_materials\<close>; the result is an error only when a call raised what no handler names.\<close>

definition required_nodes :: "node_expectation list \<Rightarrow> node_expectation list" where
  "required_nodes nodes = filter (\<lambda>x. xe_result x \<noteq> None
     \<or> xe_status x \<in> {''succeeded'', ''failed'', ''canceled''}) nodes"

definition verify_run_materials :: "(string \<Rightarrow> pyfloat) \<Rightarrow> (string \<Rightarrow> datetime option)
    \<Rightarrow> artifact_reader option \<Rightarrow> string \<Rightarrow> node_expectation list
    \<Rightarrow> replay_error + replay_report \<times> node_material list" where
  "verify_run_materials fl fromiso reader run_id nodes =
     (if required_nodes nodes = [] then Inr (make_report ReplayNotApplicable [] [], [])
      else case reader of
        None \<Rightarrow> Inr (make_report ReplayInconclusive [] [\<lparr>rf_code = StoreUnavailable, rf_node = None,
            rf_role = None, rf_check = None, rf_digest = None\<rparr>], [])
      | Some rd \<Rightarrow>
          (case rtraverse (verify_required fl fromiso rd run_id) (required_nodes nodes) empty_session of
             (Inl (Issue i), s) \<Rightarrow> Inr (make_report (ri_status i) (ss_artifacts s) [ri_finding i], [])
           | (Inl e, s) \<Rightarrow> Inl e
           | (Inr materials, s) \<Rightarrow> Inr (make_report ReplayVerified (ss_artifacts s) [], materials)))"

definition verify_run_artifacts :: "(string \<Rightarrow> pyfloat) \<Rightarrow> (string \<Rightarrow> datetime option)
    \<Rightarrow> artifact_reader option \<Rightarrow> string \<Rightarrow> node_expectation list \<Rightarrow> replay_error + replay_report" where
  "verify_run_artifacts fl fromiso reader run_id nodes =
     ebind (verify_run_materials fl fromiso reader run_id nodes) (\<lambda>(report, _). Inr report)"

end
