(* ===== verification/ReplayReview.thy ===== *)
theory ReplayReview
  imports ReplayNode
begin

text \<open>
  \<open>orchestration/replay.py\<close>, the review context built from verified artifacts: the excerpts with
  their byte budget (text cut with a marker, binary streams as base64), the evidence of a node in the
  code's order, and \<open>build_review_context_from_artifacts\<close>.
\<close>

section \<open>Excerpts\<close>

definition MAX_REVIEW_EVIDENCE_BYTES :: nat where "MAX_REVIEW_EVIDENCE_BYTES = 512 * 1024"

definition REVIEW_TRUNCATION_MARKER :: string where
  "REVIEW_TRUNCATION_MARKER =
     CHR 0x0A # ''...[truncated; complete artifact retained by digest]'' @ [CHR 0x0A]"

text \<open>\<open>base64.b64encode\<close>.\<close>

definition base64_char :: "nat \<Rightarrow> char" where
  "base64_char n = ''ABCDEFGHIJKLMNOPQRSTUVWXYZabcdefghijklmnopqrstuvwxyz0123456789+/'' ! (n mod 64)"

fun base64 :: "string \<Rightarrow> string" where
  "base64 (a # b # c # r) =
     base64_char (code a div 4) # base64_char (code a mod 4 * 16 + code b div 16)
       # base64_char (code b mod 16 * 4 + code c div 64) # base64_char (code c) # base64 r"
| "base64 [a, b] = [base64_char (code a div 4), base64_char (code a mod 4 * 16 + code b div 16),
     base64_char (code b mod 16 * 4), CHR ''='']"
| "base64 [a] = [base64_char (code a div 4), base64_char (code a mod 4 * 16), CHR ''='', CHR ''='']"
| "base64 [] = []"

text \<open>\<open>bytes.decode("utf-8", errors="ignore")\<close> on the bytes of a text cut anywhere.\<close>

fun utf8_ignore :: "string \<Rightarrow> string" where
  "utf8_ignore [] = []"
| "utf8_ignore (b # bs) =
     (if code b < 128 then b # utf8_ignore bs
      else if 194 \<le> code b \<and> code b < 196
      then (case bs of
          [] \<Rightarrow> []
        | c # cs \<Rightarrow> if is_continuation 0x80 0xBF c
            then char_of ((code b - 192) * 64 + (code c - 128)) # utf8_ignore cs else utf8_ignore bs)
      else utf8_ignore bs)"

definition bounded_base64_excerpt :: "excerpt_source \<Rightarrow> nat \<Rightarrow> replay_error + string" where
  "bounded_base64_excerpt origin maximum =
     (let complete = ''base64:'' @ base64 (xs_prefix origin);
          label = ''base64-prefix:'';
          reserved = length label + length REVIEW_TRUNCATION_MARKER;
          available = int maximum - int reserved;
          raw = min (int (length (xs_prefix origin))) (available div 4 * 3);
          excerpt = label @ base64 (take (nat raw) (xs_prefix origin)) @ REVIEW_TRUNCATION_MARKER
      in if xs_size origin = length (xs_prefix origin) \<and> utf8_length complete \<le> maximum then Inr complete
         else if raw < 1 then Inl (EvidenceError EvidenceBudgetExceeded)
         else if utf8_length excerpt > maximum then Inl (EvidenceError EvidenceBudgetExceeded)
         else Inr excerpt)"

definition bounded_review_excerpt :: "excerpt_source \<Rightarrow> nat \<Rightarrow> replay_error + string" where
  "bounded_review_excerpt origin maximum =
     (if xs_binary origin then bounded_base64_excerpt origin maximum
      else if xs_size origin \<le> maximum
      then (case utf8_decode (xs_prefix origin) of None \<Rightarrow> Inl BeyondModel | Some t \<Rightarrow> Inr t)
      else if maximum \<le> length REVIEW_TRUNCATION_MARKER then Inl (EvidenceError EvidenceBudgetExceeded)
      else Inr (utf8_ignore (take (maximum - length REVIEW_TRUNCATION_MARKER) (xs_prefix origin))
        @ REVIEW_TRUNCATION_MARKER))"

section \<open>Evidence\<close>

text \<open>\<open>_append_review_evidence\<close> for a source, and for bytes; the \<open>ReviewContractError\<close> of an invalid
  item becomes a definition mismatch.\<close>

definition evidence_item :: "evidence_kind \<Rightarrow> string \<Rightarrow> string \<Rightarrow> excerpt_source \<Rightarrow> string option
    \<Rightarrow> string option \<Rightarrow> text_operation option \<Rightarrow> nat \<Rightarrow> replay_error + review_evidence" where
  "evidence_item kind node_id artifact origin path check_id operation maximum =
     ebind (bounded_review_excerpt origin maximum) (\<lambda>excerpt.
     efail_on_None (EvidenceError DefinitionMismatch) (make_review_evidence
       \<lparr>re_kind = kind, re_node_id = node_id, re_artifact = artifact, re_excerpt = excerpt, re_start = 1,
        re_path = path, re_check_id = check_id, re_operation = operation, re_end = 0, re_id = []\<rparr>))"

definition evidence_bytes :: "evidence_kind \<Rightarrow> string \<Rightarrow> string \<Rightarrow> string \<Rightarrow> string option
    \<Rightarrow> string option \<Rightarrow> text_operation option \<Rightarrow> nat \<Rightarrow> replay_error + review_evidence" where
  "evidence_bytes kind node_id artifact data path check_id operation maximum =
     ebind (review_excerpt_source False data) (\<lambda>origin.
     evidence_item kind node_id artifact origin path check_id operation maximum)"

definition evidence_mismatch :: replay_error where "evidence_mismatch = EvidenceError DefinitionMismatch"

text \<open>The loop over the operations of a proposal.\<close>

definition before_evidence :: "node_material \<Rightarrow> change_context \<Rightarrow> artifact_link \<Rightarrow> nat \<Rightarrow> file_change
    \<Rightarrow> replay_error + review_evidence list" where
  "before_evidence nm context link maximum change =
     (if fc_operation change = CreateText then Inr []
      else case map_of (rev (map (\<lambda>f. (ef_path f, ef_content f)) (cx_files context))) (fc_path change) of
          None \<Rightarrow> Inl evidence_mismatch
        | Some content \<Rightarrow>
            ebind (evidence_bytes SourceBefore (xe_id (nm_expectation nm)) (lk_digest link)
              (utf8_encode content) (Some (fc_path change)) None (Some (fc_operation change)) maximum)
              (\<lambda>e. Inr [e]))"

definition after_evidence :: "node_material \<Rightarrow> artifact_link \<Rightarrow> nat \<Rightarrow> file_change
    \<Rightarrow> replay_error + review_evidence list" where
  "after_evidence nm link maximum change =
     (if fc_operation change = DeleteText then Inr []
      else case fc_content change of
          None \<Rightarrow> Inl evidence_mismatch
        | Some content \<Rightarrow>
            ebind (evidence_bytes SourceAfter (xe_id (nm_expectation nm)) (lk_digest link)
              (utf8_encode content) (Some (fc_path change)) None (Some (fc_operation change)) maximum)
              (\<lambda>e. Inr [e]))"

definition operation_evidence :: "node_material \<Rightarrow> change_context \<Rightarrow> artifact_link \<Rightarrow> artifact_link
    \<Rightarrow> artifact_link \<Rightarrow> excerpt_source \<Rightarrow> nat \<Rightarrow> file_change \<Rightarrow> replay_error + review_evidence list" where
  "operation_evidence nm context context_link proposal_link effect_link applied maximum change =
     ebind (before_evidence nm context context_link maximum change) (\<lambda>before.
     ebind (after_evidence nm proposal_link maximum change) (\<lambda>after.
     ebind (evidence_item EffectEvidence (xe_id (nm_expectation nm)) (lk_digest effect_link) applied
       (Some (fc_path change)) None (Some (fc_operation change)) maximum) (\<lambda>e.
     Inr (before @ after @ [e]))))"

definition change_evidence :: "node_material \<Rightarrow> nat \<Rightarrow> replay_error + review_evidence list" where
  "change_evidence nm maximum =
     (if \<not> xe_write (nm_expectation nm) then Inr []
      else case (nm_context nm, nm_proposal nm, om_context (nm_manifest nm), om_proposal (nm_manifest nm),
             om_effect (nm_manifest nm), nm_effect nm) of
          (Some context, Some proposal, Some context_link, Some proposal_link, Some effect_link, Some applied) \<Rightarrow>
            ebind (etraverse (operation_evidence nm context context_link proposal_link effect_link applied maximum)
              (cg_operations proposal)) (\<lambda>items. Inr (concat items))
        | _ \<Rightarrow> Inl evidence_mismatch)"

definition check_evidence :: "node_material \<Rightarrow> nat \<Rightarrow> check_material \<Rightarrow> replay_error + review_evidence list" where
  "check_evidence nm maximum k =
     (let node_id = xe_id (nm_expectation nm); check_id = Some (ac_check_id (km_command k));
          links = km_recorded k in
      ebind (evidence_bytes CheckCommand node_id (lk_digest (ca_command links)) (km_command_bytes k) None
        check_id None maximum) (\<lambda>command.
      ebind (evidence_bytes CheckResult node_id (lk_digest (ca_result links)) (km_result_bytes k) None
        check_id None maximum) (\<lambda>result.
      ebind (evidence_item CheckStdout node_id (lk_digest (ca_stdout links)) (km_stdout k) None
        check_id None maximum) (\<lambda>stdout.
      ebind (evidence_item CheckStderr node_id (lk_digest (ca_stderr links)) (km_stderr k) None
        check_id None maximum) (\<lambda>stderr. Inr [command, result, stdout, stderr])))))"

definition review_evidence_for_node :: "node_material \<Rightarrow> nat \<Rightarrow> replay_error + review_evidence list" where
  "review_evidence_for_node nm maximum =
     ebind (evidence_bytes OutcomeEvidence (xe_id (nm_expectation nm)) (lk_digest (nm_outcome_link nm))
       (nm_outcome_bytes nm) None None None maximum) (\<lambda>outcome.
     ebind (change_evidence nm maximum) (\<lambda>changes.
     ebind (etraverse (check_evidence nm maximum) (nm_checks nm)) (\<lambda>checks.
     Inr (outcome # changes @ concat checks))))"

definition review_evidence_item_count :: "node_material \<Rightarrow> replay_error + nat" where
  "review_evidence_item_count nm =
     (let base = 1 + 4 * length (nm_checks nm) in
      if xe_write (nm_expectation nm)
      then case nm_proposal nm of
          None \<Rightarrow> Inl evidence_mismatch
        | Some p \<Rightarrow> Inr (base + sum_list (map (\<lambda>c. if fc_operation c = ReplaceText then 3 else 2)
            (cg_operations p)))
      else Inr base)"

section \<open>The review context\<close>

definition material_node :: "node_material \<Rightarrow> replay_error + review_node" where
  "material_node nm =
     (let x = nm_expectation nm in
      ebind (etraverse (\<lambda>k.
        let c = \<lparr>rc_id = ac_check_id (km_command k), rc_argv = ac_argv (km_command k),
          rc_exit = ac_exit (km_command k), rc_command = acceptance_command_digest (km_command k),
          rc_result = km_result_digest k, rc_passed = km_passed k\<rparr>
        in ebind (check evidence_mismatch (review_check_ok c)) (\<lambda>_. Inr c)) (nm_checks nm)) (\<lambda>checks.
      efail_on_None evidence_mismatch (make_review_node \<lparr>rn_id = xe_id x, rn_objective = xe_objective x,
        rn_depends_on = xe_depends_on x, rn_effects = xe_effects x, rn_allowed = xe_allowed x,
        rn_max_changed = xe_max_changed x, rn_checks = checks\<rparr>)))"

definition material_review :: "nat \<Rightarrow> node_material \<Rightarrow> replay_error + review_node \<times> review_evidence list" where
  "material_review maximum nm =
     ebind (material_node nm) (\<lambda>n. ebind (review_evidence_for_node nm maximum) (\<lambda>es. Inr (n, es)))"

text \<open>The arguments of \<open>build_review_context_from_artifacts\<close> that name the run and its plan.\<close>

record review_request =
  rq_run_id :: string
  rq_project_id :: string
  rq_intent_id :: string
  rq_plan_id :: string
  rq_objective :: string
  rq_constraints :: "string list"
  rq_base :: string
  rq_state :: string
  rq_exact :: bool

definition definitions_match :: "review_request \<Rightarrow> node_expectation list \<Rightarrow> node_material list \<Rightarrow> bool" where
  "definitions_match rq nodes materials \<longleftrightarrow> length materials = length nodes
     \<and> list_all (\<lambda>x. xe_status x = ''succeeded'') nodes
     \<and> (rq_exact rq \<longrightarrow> list_all (\<lambda>x. xe_constraints x = rq_constraints rq) nodes)
     \<and> list_all (\<lambda>x. xe_write x = (''repository-write'' \<in> set (xe_effects x))) nodes
     \<and> list_all (\<lambda>x. xe_depends_on x = [] \<longrightarrow> xe_base x = Some (rq_base rq)) nodes
     \<and> list_all (\<lambda>nm. nm_checks nm \<noteq> []) materials
     \<and> list_all (\<lambda>nm. list_all km_passed (nm_checks nm)) materials"

definition review_context_of :: "review_request \<Rightarrow> replay_report \<Rightarrow> node_material list
    \<Rightarrow> replay_error + review_context" where
  "review_context_of rq report materials =
     ebind (etraverse review_evidence_item_count materials) (\<lambda>counts.
     let item_count = sum_list counts; budget = EvidenceError EvidenceBudgetExceeded in
     ebind (check budget (1 \<le> item_count \<and> item_count \<le> MAX_REVIEW_EVIDENCE_ITEMS)) (\<lambda>_.
     let maximum = min MAX_REVIEW_EXCERPT_BYTES (MAX_REVIEW_EVIDENCE_BYTES div item_count) in
     ebind (check budget (\<not> maximum < 1)) (\<lambda>_.
     ebind (etraverse (material_review maximum) materials) (\<lambda>parts.
     let evidence = concat (map snd parts) in
     ebind (check budget (length evidence = item_count
       \<and> sum_list (map (\<lambda>e. utf8_length (re_excerpt e)) evidence) \<le> MAX_REVIEW_EVIDENCE_BYTES)) (\<lambda>_.
     ebind (efail_on_None evidence_mismatch (make_review_acceptance
       \<lparr>ra_run_id = rq_run_id rq, ra_project_id = rq_project_id rq, ra_intent_id = rq_intent_id rq,
        ra_plan_id = rq_plan_id rq, ra_objective = rq_objective rq, ra_constraints = rq_constraints rq,
        ra_base = rq_base rq, ra_nodes = map fst parts, ra_schema = REVIEW_ACCEPTANCE_SCHEMA\<rparr>)) (\<lambda>acceptance.
     efail_on_None evidence_mismatch (make_review_context
       \<lparr>rx_acceptance = acceptance, rx_state = rq_state rq, rx_artifact_evidence = rr_digest report,
        rx_evidence = evidence, rx_schema = REVIEW_CONTEXT_SCHEMA\<rparr>)))))))"

definition build_review_context_from_artifacts :: "(string \<Rightarrow> pyfloat) \<Rightarrow> (string \<Rightarrow> datetime option)
    \<Rightarrow> artifact_reader option \<Rightarrow> review_request \<Rightarrow> node_expectation list \<Rightarrow> replay_error + review_context" where
  "build_review_context_from_artifacts fl fromiso reader rq nodes =
     ebind (verify_run_materials fl fromiso reader (rq_run_id rq) nodes) (\<lambda>(report, materials).
     ebind (check (EvidenceError ArtifactsNotVerified) (rr_status report = ReplayVerified)) (\<lambda>_.
     ebind (check evidence_mismatch (definitions_match rq nodes materials)) (\<lambda>_.
     review_context_of rq report materials)))"

end
