(* ===== verification/ReplayFacts.thy ===== *)
theory ReplayFacts
  imports ReplayNode
begin

text \<open>
  Lemmas on a replay: a small Hoare logic for the operations on the session, the invariant of the
  session (what it recorded is in the store, and the budgets hold) and what a verified node and its
  checks are known to satisfy.
\<close>

section \<open>Operations that keep an invariant\<close>

text \<open>From a session with the invariant, the operation ends in one, and a value it returns satisfies
  the postcondition.\<close>

definition rvalid :: "(replay_session \<Rightarrow> bool) \<Rightarrow> 'a replay \<Rightarrow> ('a \<Rightarrow> bool) \<Rightarrow> bool" where
  "rvalid I m Q \<longleftrightarrow> (\<forall>s x t. I s \<longrightarrow> m s = (x, t) \<longrightarrow> I t \<and> (\<forall>y. x = Inr y \<longrightarrow> Q y))"

lemma rvalidI:
  assumes "\<And>s x t. I s \<Longrightarrow> m s = (x, t) \<Longrightarrow> I t \<and> (\<forall>y. x = Inr y \<longrightarrow> Q y)"
  shows "rvalid I m Q"
  using assms by (auto simp: rvalid_def)

lemma rvalidD:
  assumes "rvalid I m Q" "I s" "m s = (x, t)"
  shows "I t" "x = Inr y \<Longrightarrow> Q y"
  using assms unfolding rvalid_def by blast+

lemma rvalid_weaken: "rvalid I m P \<Longrightarrow> (\<And>x. P x \<Longrightarrow> Q x) \<Longrightarrow> rvalid I m Q"
  by (auto simp: rvalid_def)

lemma rvalid_return: "Q x \<Longrightarrow> rvalid I (rreturn x) Q"
  by (simp add: rvalid_def rreturn_def)

lemma rvalid_raise: "rvalid I (rraise e) Q"
  by (simp add: rvalid_def rraise_def)

lemma rvalid_check: "(b \<Longrightarrow> Q ()) \<Longrightarrow> rvalid I (rcheck e b) Q"
  by (auto simp: rvalid_def rcheck_def rreturn_def rraise_def)

lemma rvalid_lift: "(\<And>y. m = Inr y \<Longrightarrow> Q y) \<Longrightarrow> rvalid I (rlift m) Q"
  by (auto simp: rvalid_def rlift_def)

lemma rvalid_bind:
  assumes m: "rvalid I m P" and f: "\<And>x. P x \<Longrightarrow> rvalid I (f x) Q"
  shows "rvalid I (rbind m f) Q"
proof (rule rvalidI)
  fix s x t assume s: "I s" "rbind m f s = (x, t)"
  obtain r u where r: "m s = (r, u)" by fastforce
  then have u: "I u" "\<forall>y. r = Inr y \<longrightarrow> P y" using m s(1) by (auto simp: rvalid_def)
  show "I t \<and> (\<forall>y. x = Inr y \<longrightarrow> Q y)"
  proof (cases r)
    case (Inl e)
    then show ?thesis using s(2) r u(1) by (auto simp: rbind_def)
  next
    case (Inr y)
    then have "f y u = (x, t)" using s(2) r by (simp add: rbind_def)
    then show ?thesis using f[of y] u Inr by (auto simp: rvalid_def)
  qed
qed

lemma rvalid_traverse:
  assumes "\<And>x. x \<in> set xs \<Longrightarrow> rvalid I (f x) (Q x)"
  shows "rvalid I (rtraverse f xs) (list_all2 Q xs)"
  using assms
proof (induction xs)
  case (Cons x xs)
  have "rvalid I (rbind (rtraverse f xs) (\<lambda>ys. rreturn (y # ys))) (list_all2 Q (x # xs))" if "Q x y" for y
    using Cons that by (intro rvalid_bind[of I "rtraverse f xs" "list_all2 Q xs"] rvalid_return) auto
  then show ?case unfolding rtraverse.simps using Cons.prems by (intro rvalid_bind[of I "f x" "Q x"]) simp_all
qed (simp add: rvalid_return)

section \<open>The invariant of the session\<close>

text \<open>The bytes a link stands for: the reader has them under the link's digest with the link's
  metadata, and they hash to it.\<close>

definition reads_as :: "artifact_reader \<Rightarrow> artifact_link \<Rightarrow> string \<Rightarrow> bool" where
  "reads_as rd link data \<longleftrightarrow> (\<exists>r. rd_stat rd (lk_digest link) = Inr r \<and> rd_get rd r = Inr data
     \<and> ar_size r = lk_size link \<and> ar_media r = lk_media link \<and> ar_encoding r = lk_encoding link)
     \<and> bytes_digest data = lk_digest link \<and> int (length data) = lk_size link"

definition evidence_link :: "artifact_evidence \<Rightarrow> artifact_link" where
  "evidence_link a = \<lparr>lk_digest = ae_digest a, lk_size = ae_size a, lk_media = ae_media a,
     lk_encoding = ae_encoding a\<rparr>"

definition evidence_readable :: "artifact_reader \<Rightarrow> artifact_evidence \<Rightarrow> bool" where
  "evidence_readable rd a \<longleftrightarrow> ae_verified a \<and> (\<exists>data. reads_as rd (evidence_link a) data)"

text \<open>The bytes counted so far, by the sizes of the references.\<close>

definition reference_size :: "replay_session \<Rightarrow> string \<Rightarrow> int" where
  "reference_size s d = (case ss_references s d of None \<Rightarrow> 0 | Some r \<Rightarrow> ar_size r)"

definition session_ok :: "artifact_reader \<Rightarrow> replay_session \<Rightarrow> bool" where
  "session_ok rd s \<longleftrightarrow>
     (\<forall>d r. ss_references s d = Some r \<longrightarrow> rd_stat rd d = Inr r)
     \<and> (\<forall>d data. ss_bytes s d = Some data \<longrightarrow> bytes_digest data = d
          \<and> (\<exists>r. ss_references s d = Some r \<and> rd_get rd r = Inr data \<and> int (length data) = ar_size r))
     \<and> (\<forall>a\<in>set (ss_artifacts s). evidence_readable rd a \<and> ae_digest a \<in> ss_counted s)
     \<and> dom (ss_bytes s) \<subseteq> ss_counted s \<and> ss_counted s \<subseteq> dom (ss_references s) \<and> finite (ss_counted s)
     \<and> (\<forall>d\<in>ss_counted s. 0 \<le> reference_size s d) \<and> ss_total s = (\<Sum>d\<in>ss_counted s. reference_size s d)
     \<and> length (ss_artifacts s) \<le> MAX_ARTIFACT_RELATIONSHIPS \<and> ss_total s \<le> MAX_TOTAL_BYTES"

lemma session_ok_empty: "session_ok rd empty_session"
  by (simp add: session_ok_def empty_session_def MAX_TOTAL_BYTES_def)

lemma stat_session_valid:
  "rvalid (session_ok rd) (stat_session rd site d) (\<lambda>r. rd_stat rd d = Inr r)"
proof (rule rvalidI)
  fix s x t assume ok: "session_ok rd s" and run: "stat_session rd site d s = (x, t)"
  show "session_ok rd t \<and> (\<forall>y. x = Inr y \<longrightarrow> rd_stat rd d = Inr y)"
  proof (cases "ss_references s d")
    case (Some r)
    then show ?thesis using ok run by (auto simp: stat_session_def session_ok_def)
  next
    case None
    show ?thesis
    proof (cases "rd_stat rd d")
      case (Inl e)
      then show ?thesis using ok run None by (auto simp: stat_session_def)
    next
      case (Inr r)
      then have t: "t = s\<lparr>ss_references := (ss_references s)(d \<mapsto> r)\<rparr>" "x = Inr r"
        using run None by (auto simp: stat_session_def)
      have d: "d \<notin> ss_counted s" using ok None by (auto simp: session_ok_def)
      then have "(\<Sum>d\<in>ss_counted s. reference_size t d) = (\<Sum>d\<in>ss_counted s. reference_size s d)"
        by (intro sum.cong) (auto simp: t reference_size_def)
      moreover have "\<forall>d'\<in>ss_counted s. 0 \<le> reference_size t d'"
        using ok d by (auto simp: session_ok_def t reference_size_def)
      moreover have "\<forall>d' data. ss_bytes s d' = Some data \<longrightarrow> d' \<noteq> d" using ok d by (auto simp: session_ok_def)
      ultimately show ?thesis using ok Inr by (auto simp: session_ok_def t)
    qed
  qed
qed

text \<open>A reference once looked up stays.\<close>

definition session_at :: "artifact_reader \<Rightarrow> string \<Rightarrow> artifact_ref \<Rightarrow> replay_session \<Rightarrow> bool" where
  "session_at rd d r s \<longleftrightarrow> session_ok rd s \<and> ss_references s d = Some r"

lemma stat_session_at:
  assumes "session_ok rd s" "stat_session rd site d s = (Inr r, t)"
  shows "session_at rd d r t"
proof -
  have "session_ok rd t" using stat_session_valid[of rd site d] assms by (auto simp: rvalid_def)
  then show ?thesis using assms(2) by (auto simp: session_at_def stat_session_def split: option.splits sum.splits)
qed

lemma rvalid_after_stat:
  assumes "\<And>r. rd_stat rd d = Inr r \<Longrightarrow> rvalid (session_at rd d r) (f r) Q"
  shows "rvalid (session_ok rd) (rbind (stat_session rd site d) f) Q"
proof (rule rvalidI)
  fix s x t assume s: "session_ok rd s" "rbind (stat_session rd site d) f s = (x, t)"
  obtain y u where y: "stat_session rd site d s = (y, u)" by fastforce
  have u: "session_ok rd u" "\<forall>r. y = Inr r \<longrightarrow> rd_stat rd d = Inr r"
    using stat_session_valid[of rd site d] s(1) y by (auto simp: rvalid_def)
  show "session_ok rd t \<and> (\<forall>y. x = Inr y \<longrightarrow> Q y)"
  proof (cases y)
    case (Inl e)
    then show ?thesis using s(2) y u(1) by (auto simp: rbind_def)
  next
    case (Inr r)
    then have "f r u = (x, t)" using s(2) y by (simp add: rbind_def)
    moreover have "session_at rd d r u" using y Inr by (intro stat_session_at[OF s(1)]) simp
    moreover have "rvalid (session_at rd d r) (f r) Q" using u(2) Inr by (intro assms) simp
    ultimately have "session_at rd d r t" "\<And>z. x = Inr z \<Longrightarrow> Q z" by (metis rvalidD)+
    then show ?thesis by (simp add: session_at_def)
  qed
qed

lemma fetch_bytes_valid:
  assumes "ar_size r = lk_size link" "ss_bytes s (lk_digest link) = None"
    and at: "session_at rd (lk_digest link) r s" and run: "fetch_bytes rd site retain link r s = (x, t)"
  shows "session_at rd (lk_digest link) r t \<and> (\<forall>data. x = Inr data \<longrightarrow> rd_get rd r = Inr data
    \<and> bytes_digest data = lk_digest link \<and> int (length data) = lk_size link \<and> lk_digest link \<in> ss_counted t)"
proof (cases "rd_get rd r")
  case (Inl e)
  then show ?thesis using at run by (auto simp: fetch_bytes_def Let_def split: if_splits)
next
  case (Inr data)
  let ?d = "lk_digest link"
  define kept where "kept = (if retain then s\<lparr>ss_bytes := (ss_bytes s)(?d \<mapsto> data)\<rparr> else s)"
  have same: "ss_references kept = ss_references s" "ss_counted kept = ss_counted s" "ss_total kept = ss_total s"
    "ss_artifacts kept = ss_artifacts s" "ss_bytes kept = (if retain then (ss_bytes s)(?d \<mapsto> data) else ss_bytes s)"
    by (simp_all add: kept_def)
  show ?thesis
  proof (cases "int (length data) = lk_size link \<and> bytes_digest data = ?d
      \<and> \<not> (?d \<notin> ss_counted s \<and> ss_total s + lk_size link > MAX_TOTAL_BYTES)")
    case False
    then show ?thesis using at run Inr by (auto simp: fetch_bytes_def Let_def split: if_splits)
  next
    case True
    then have x: "x = Inr data" and t: "t = (if ?d \<notin> ss_counted s
        then kept\<lparr>ss_counted := insert ?d (ss_counted kept), ss_total := ss_total kept + int (length data)\<rparr>
        else kept)"
      using run Inr by (auto simp: fetch_bytes_def Let_def kept_def split: if_splits)
    have counted: "ss_counted t = insert ?d (ss_counted s)" "ss_references t = ss_references s"
      "ss_artifacts t = ss_artifacts s" "ss_bytes t = ss_bytes kept"
      "ss_total t = ss_total s + (if ?d \<in> ss_counted s then 0 else lk_size link)"
      using True by (auto simp: t same)
    have ref: "ss_references s ?d = Some r" and ok: "session_ok rd s" using at by (simp_all add: session_at_def)
    have fin: "finite (ss_counted s)" using ok by (simp add: session_ok_def)
    have sizes: "reference_size t = reference_size s" by (simp add: fun_eq_iff reference_size_def counted)
    have "reference_size s ?d = lk_size link" by (simp add: reference_size_def ref assms(1))
    then have "ss_total t = (\<Sum>d\<in>ss_counted t. reference_size t d)"
      using ok fin by (auto simp: counted sizes session_ok_def sum.insert_if)
    moreover have "\<forall>d\<in>ss_counted t. 0 \<le> reference_size t d"
      using ok True \<open>reference_size s ?d = lk_size link\<close> by (auto simp: counted sizes session_ok_def)
    moreover have "ss_total t \<le> MAX_TOTAL_BYTES" using True ok by (auto simp: counted session_ok_def)
    moreover have "\<forall>d dt. ss_bytes t d = Some dt \<longrightarrow> bytes_digest dt = d
          \<and> (\<exists>r. ss_references s d = Some r \<and> rd_get rd r = Inr dt \<and> int (length dt) = ar_size r)"
      using ok ref Inr True assms(1) by (auto simp: counted same session_ok_def)
    moreover have "dom (ss_bytes t) \<subseteq> ss_counted t" using ok by (auto simp: counted same session_ok_def)
    ultimately have "session_ok rd t"
      using ok ref fin by (auto simp: session_ok_def counted)
    then show ?thesis using x True Inr ref by (simp add: session_at_def counted)
  qed
qed

lemma cached_or_fetched:
  assumes "ar_size r = lk_size link" and at: "session_at rd (lk_digest link) r s"
    and run: "(case ss_bytes s (lk_digest link) of Some data \<Rightarrow> (Inr data, s)
         | None \<Rightarrow> fetch_bytes rd site retain link r s) = (x, t)"
  shows "session_at rd (lk_digest link) r t \<and> (\<forall>data. x = Inr data \<longrightarrow> rd_get rd r = Inr data
    \<and> bytes_digest data = lk_digest link \<and> int (length data) = lk_size link \<and> lk_digest link \<in> ss_counted t)"
proof (cases "ss_bytes s (lk_digest link)")
  case None
  then show ?thesis using fetch_bytes_valid[OF assms(1) None at] run by simp
next
  case (Some data)
  moreover have "lk_digest link \<in> ss_counted s" using at Some by (auto simp: session_at_def session_ok_def)
  moreover have "bytes_digest data = lk_digest link \<and> rd_get rd r = Inr data \<and> int (length data) = ar_size r"
  proof -
    obtain q where "bytes_digest data = lk_digest link" "ss_references s (lk_digest link) = Some q"
      "rd_get rd q = Inr data" "int (length data) = ar_size q"
      using at Some unfolding session_at_def session_ok_def by blast
    then show ?thesis using at by (simp add: session_at_def)
  qed
  ultimately show ?thesis using at run assms(1) by auto
qed

lemma record_artifact:
  assumes "session_at rd d r s" "evidence_readable rd a" "ae_digest a \<in> ss_counted s"
    "length (ss_artifacts s) < MAX_ARTIFACT_RELATIONSHIPS"
  shows "session_at rd d r (s\<lparr>ss_artifacts := ss_artifacts s @ [a]\<rparr>)"
  using assms by (auto simp: session_at_def session_ok_def reference_size_def)

lemma read_tail_valid:
  assumes stat: "rd_stat rd (lk_digest link) = Inr r"
    and same: "ar_size r = lk_size link" "ar_media r = lk_media link" "ar_encoding r = lk_encoding link"
    and entry: "evidence_link a = link" "ae_verified a"
  shows "rvalid (session_at rd (lk_digest link) r)
     (rbind (\<lambda>s. case ss_bytes s (lk_digest link) of Some data \<Rightarrow> (Inr data, s)
         | None \<Rightarrow> fetch_bytes rd site retain link r s) (\<lambda>data.
      rbind (\<lambda>s. rcheck e (\<not> length (ss_artifacts s) \<ge> MAX_ARTIFACT_RELATIONSHIPS) s) (\<lambda>_.
      \<lambda>s. (Inr data, s\<lparr>ss_artifacts := ss_artifacts s @ [a]\<rparr>))))
     (reads_as rd link)"
proof (rule rvalidI, goal_cases)
  case (1 s x t)
  let ?d = "lk_digest link"
  obtain y u where y: "(case ss_bytes s ?d of Some data \<Rightarrow> (Inr data, s)
         | None \<Rightarrow> fetch_bytes rd site retain link r s) = (y, u)" by fastforce
  note u = cached_or_fetched[OF same(1) 1(1) y]
  show ?case
  proof (cases y)
    case (Inl f)
    then show ?thesis using 1(2) u y by (auto simp: rbind_def)
  next
    case (Inr data)
    have reads: "reads_as rd link data" using u Inr stat same unfolding reads_as_def by blast
    have "ae_digest a = ?d" using entry(1) by (auto simp: evidence_link_def)
    moreover have "evidence_readable rd a" using reads entry by (auto simp: evidence_readable_def)
    ultimately have "session_at rd ?d r (u\<lparr>ss_artifacts := ss_artifacts u @ [a]\<rparr>)"
      if "\<not> length (ss_artifacts u) \<ge> MAX_ARTIFACT_RELATIONSHIPS"
      using u Inr that by (intro record_artifact) auto
    moreover have "(x, t) = (if length (ss_artifacts u) \<ge> MAX_ARTIFACT_RELATIONSHIPS then (Inl e, u)
        else (Inr data, u\<lparr>ss_artifacts := ss_artifacts u @ [a]\<rparr>))"
      using 1(2) Inr y by (auto simp: rbind_def rcheck_def rreturn_def rraise_def)
    ultimately show ?thesis using u reads by (auto split: if_splits)
  qed
qed

lemma read_link_valid:
  "rvalid (session_ok rd) (read_link rd site media encoding maximum retain link)
     (\<lambda>data. reads_as rd link data \<and> lk_size link \<le> maximum
        \<and> (si_role site \<notin> {RoleStdout, RoleStderr} \<longrightarrow> lk_media link = media \<and> lk_encoding link = encoding))"
  (is "rvalid _ _ ?Q")
  unfolding read_link_def
proof (rule rvalid_after_stat)
  fix r assume r: "rd_stat rd (lk_digest link) = Inr r"
  let ?I = "session_at rd (lk_digest link) r"
  let ?meta = "\<not> (ar_size r \<noteq> lk_size link \<or> ar_media r \<noteq> lk_media link \<or> ar_encoding r \<noteq> lk_encoding link
      \<or> si_role site \<notin> {RoleStdout, RoleStderr} \<and> (lk_media link \<noteq> media \<or> lk_encoding link \<noteq> encoding))"
  show "rvalid ?I (rbind (rcheck (issue_at ReplayFailed MetadataMismatch site (Some (lk_digest link))) ?meta) (\<lambda>_.
     rbind (rcheck (issue_at ReplayInconclusive BudgetExceeded site (Some (lk_digest link))) (\<not> lk_size link > maximum))
       (\<lambda>_.
     rbind (\<lambda>s. case ss_bytes s (lk_digest link) of Some data \<Rightarrow> (Inr data, s)
       | None \<Rightarrow> fetch_bytes rd site retain link r s) (\<lambda>data.
     rbind (\<lambda>s. rcheck (issue_at ReplayInconclusive BudgetExceeded site (Some (lk_digest link)))
       (\<not> length (ss_artifacts s) \<ge> MAX_ARTIFACT_RELATIONSHIPS) s) (\<lambda>_.
     \<lambda>s. (Inr data, s\<lparr>ss_artifacts := ss_artifacts s @ [\<lparr>ae_node = si_node site, ae_role = si_role site,
       ae_check = si_check site, ae_digest = lk_digest link, ae_size = lk_size link,
       ae_media = lk_media link, ae_encoding = lk_encoding link, ae_verified = True\<rparr>]\<rparr>)))))) ?Q"
  proof (rule rvalid_bind[OF rvalid_check[where Q = "\<lambda>_. ?meta"]], assumption,
      rule rvalid_bind[OF rvalid_check[where Q = "\<lambda>_. lk_size link \<le> maximum"]], simp,
      rule rvalid_weaken[OF read_tail_valid[OF r]])
  qed (auto simp: evidence_link_def)
qed

lemma read_digest_valid:
  "rvalid (session_ok rd) (read_digest rd site media encoding maximum d)
     (\<lambda>(data, link). reads_as rd link data \<and> lk_digest link = d \<and> artifact_link_ok link \<and> lk_size link \<le> maximum
        \<and> (si_role site \<notin> {RoleStdout, RoleStderr} \<longrightarrow> lk_media link = media \<and> lk_encoding link = encoding))"
  (is "rvalid _ _ ?Q")
  unfolding read_digest_def
proof (rule rvalid_bind[OF stat_session_valid])
  fix r assume "rd_stat rd d = Inr r"
  show "rvalid (session_ok rd) (case link_from_reference r of
       None \<Rightarrow> rraise (issue_at ReplayFailed MetadataMismatch site (Some d))
     | Some link \<Rightarrow>
         rbind (rcheck (issue_at ReplayFailed MetadataMismatch site (Some d)) (lk_digest link = d)) (\<lambda>_.
         rbind (read_link rd site media encoding maximum True link) (\<lambda>data. rreturn (data, link)))) ?Q"
  proof (cases "link_from_reference r")
    case (Some link)
    then have "artifact_link_ok link" by (auto simp: link_from_reference_def Let_def split: if_splits)
    then show ?thesis unfolding Some option.case
      by (intro rvalid_bind[OF rvalid_check[where Q = "\<lambda>_. lk_digest link = d"]] rvalid_bind[OF read_link_valid]
          rvalid_return) auto
  qed (simp add: rvalid_raise)
qed

section \<open>What a verified node is\<close>

text \<open>The store holds the canonical bytes of the mapping under the link, with its media type, its
  encoding and a size within the bound.\<close>

definition recorded_mapping :: "artifact_reader \<Rightarrow> string \<Rightarrow> int \<Rightarrow> artifact_link \<Rightarrow> jobject \<Rightarrow> bool" where
  "recorded_mapping rd media maximum link raw \<longleftrightarrow> reads_as rd link (json_bytes (JObj raw))
     \<and> lk_size link \<le> maximum \<and> lk_media link = media \<and> lk_encoding link = Some ''utf-8''"

definition context_verified :: "artifact_reader \<Rightarrow> node_expectation \<Rightarrow> artifact_link \<Rightarrow> change_context \<Rightarrow> bool" where
  "context_verified rd x link c \<longleftrightarrow> (\<exists>raw. recorded_mapping rd CONTEXT_MEDIA_TYPE (int MAX_CHANGE_CONTEXT_BYTES) link raw
       \<and> context_from_mapping raw = Some c)
     \<and> change_context_digest c = lk_digest link \<and> cx_objective c = xe_objective x
     \<and> cx_constraints c = xe_constraints x \<and> Some (cx_base c) = xe_base x \<and> cx_allowed c = xe_allowed x
     \<and> cx_max_changed c = xe_max_changed x"

definition proposal_verified :: "artifact_reader \<Rightarrow> artifact_link \<Rightarrow> change_context \<Rightarrow> change_proposal \<Rightarrow> bool" where
  "proposal_verified rd link c p \<longleftrightarrow> (\<exists>raw. recorded_mapping rd PROPOSAL_MEDIA_TYPE (int MAX_CHANGE_PROPOSAL_BYTES) link raw
       \<and> change_proposal_from_mapping raw = Some p)
     \<and> change_proposal_digest p = lk_digest link \<and> cg_evidence p = change_context_digest c"

definition provider_verified :: "(string \<Rightarrow> datetime option) \<Rightarrow> artifact_reader \<Rightarrow> artifact_link \<Rightarrow> change_proposal \<Rightarrow> bool" where
  "provider_verified fromiso rd link p \<longleftrightarrow> (\<exists>raw r. recorded_mapping rd PROVIDER_MEDIA_TYPE MAX_JSON_ARTIFACT_BYTES link raw
       \<and> provider_from_mapping fromiso raw p = Some r
       \<and> change_proposal_digest (cr_proposal r) = change_proposal_digest p)"

definition effect_verified :: "artifact_reader \<Rightarrow> node_expectation \<Rightarrow> artifact_link \<Rightarrow> change_context
    \<Rightarrow> change_proposal \<Rightarrow> excerpt_source \<Rightarrow> bool" where
  "effect_verified rd x link c p src \<longleftrightarrow> (\<exists>raw. recorded_mapping rd EFFECT_MEDIA_TYPE (int MAX_TEXT_CHANGE_RESULT_BYTES) link raw
       \<and> effect_matches raw x c p \<and> review_excerpt_source False (json_bytes (JObj raw)) = Inr src)"

definition stream_read :: "artifact_reader \<Rightarrow> artifact_link \<Rightarrow> string \<Rightarrow> bool" where
  "stream_read rd link data \<longleftrightarrow> reads_as rd link data \<and> lk_size link \<le> int MAX_ACCEPTANCE_STREAM_BYTES"

text \<open>The result of a check was read with the two streams that were captured for it.\<close>

definition check_verified :: "artifact_reader \<Rightarrow> node_expectation \<Rightarrow> check_expectation \<times> check_artifacts
    \<Rightarrow> check_material \<Rightarrow> bool" where
  "check_verified rd x pair k \<longleftrightarrow> (\<exists>raw_command raw_result stdout stderr result.
     recorded_mapping rd ACCEPTANCE_COMMAND_MEDIA_TYPE MAX_JSON_ARTIFACT_BYTES (ca_command (snd pair)) raw_command
     \<and> command_from_mapping raw_command = Some (km_command k)
     \<and> command_as_expected (km_command k) (snd pair) (fst pair)
     \<and> recorded_mapping rd ACCEPTANCE_RESULT_MEDIA_TYPE MAX_JSON_ARTIFACT_BYTES (ca_result (snd pair)) raw_result
     \<and> stream_read rd (ca_stdout (snd pair)) stdout \<and> stream_read rd (ca_stderr (snd pair)) stderr
     \<and> result_from_mapping raw_result stdout stderr = Some result
     \<and> result_as_expected result (km_command k) (snd pair) (fst pair) (xe_spec x)
     \<and> review_excerpt_source True stdout = Inr (km_stdout k) \<and> review_excerpt_source True stderr = Inr (km_stderr k)
     \<and> km_result_digest k = acceptance_result_digest result \<and> km_passed k = az_passed result
     \<and> km_command_bytes k = json_bytes (JObj raw_command) \<and> km_result_bytes k = json_bytes (JObj raw_result)
     \<and> km_recorded k = snd pair)"

text \<open>A material is missing exactly when the manifest links none.\<close>

definition optional_verified :: "artifact_link option \<Rightarrow> 'a option \<Rightarrow> (artifact_link \<Rightarrow> 'a \<Rightarrow> bool) \<Rightarrow> bool" where
  "optional_verified link y P \<longleftrightarrow> (case (link, y) of (None, None) \<Rightarrow> True | (Some l, Some z) \<Rightarrow> P l z | _ \<Rightarrow> False)"

definition node_verified :: "(string \<Rightarrow> datetime option) \<Rightarrow> artifact_reader \<Rightarrow> string \<Rightarrow> node_expectation
    \<Rightarrow> node_material \<Rightarrow> bool" where
  "node_verified fromiso rd run_id x nm \<longleftrightarrow>
     (let m = nm_manifest nm in nm_expectation nm = x \<and> manifest_matches m x run_id
      \<and> xe_result x = Some (node_outcome_digest m)
      \<and> (\<exists>raw. node_outcome_from_mapping raw = Inr m \<and> nm_outcome_bytes nm = json_bytes (JObj raw)
           \<and> recorded_mapping rd OUTCOME_MEDIA_TYPE MAX_OUTCOME_BYTES (nm_outcome_link nm) raw)
      \<and> lk_digest (nm_outcome_link nm) = node_outcome_digest m
      \<and> optional_verified (om_context m) (nm_context nm) (context_verified rd x)
      \<and> optional_verified (om_proposal m) (nm_proposal nm)
          (\<lambda>l p. \<exists>c. nm_context nm = Some c \<and> proposal_verified rd l c p)
      \<and> (\<forall>l. om_provider m = Some l \<longrightarrow> (\<exists>p. nm_proposal nm = Some p \<and> provider_verified fromiso rd l p))
      \<and> optional_verified (om_effect m) (nm_effect nm)
          (\<lambda>l src. \<exists>c p. nm_context nm = Some c \<and> nm_proposal nm = Some p \<and> effect_verified rd x l c p src)
      \<and> list_all2 (check_verified rd x) (zip (xe_checks x) (om_checks m)) (nm_checks nm))"

section \<open>Verification establishes it\<close>

lemma canonical_mapping_Inr: "canonical_mapping fl site d data = Inr raw \<Longrightarrow> data = json_bytes (JObj raw)"
  by (auto simp: canonical_mapping_def split: sum.splits loads_error.splits pyval.splits json.splits if_splits)

lemma read_mapping_valid:
  assumes "si_role site \<notin> {RoleStdout, RoleStderr}"
  shows "rvalid (session_ok rd) (read_mapping fl rd site media maximum retain link)
     (\<lambda>(data, raw). data = json_bytes (JObj raw) \<and> recorded_mapping rd media maximum link raw)"
  unfolding read_mapping_def
  by (intro rvalid_bind[OF read_link_valid]
      rvalid_bind[OF rvalid_lift[where Q = "\<lambda>raw. data = json_bytes (JObj raw)" for data]] rvalid_return
      canonical_mapping_Inr)
    (use assms in \<open>auto simp: recorded_mapping_def\<close>)

lemma rvalid_bind_pair:
  assumes "rvalid I m (\<lambda>(a, b). P a b)" "\<And>a b. P a b \<Longrightarrow> rvalid I (f a b) Q"
  shows "rvalid I (rbind m (\<lambda>(a, b). f a b)) Q"
  by (rule rvalid_bind[OF assms(1)]) (auto intro: assms(2))

lemma rvalid_check_then:
  assumes "b \<Longrightarrow> rvalid I m Q" shows "rvalid I (rbind (rcheck e b) (\<lambda>_. m)) Q"
  using assms by (intro rvalid_bind[OF rvalid_check[where Q = "\<lambda>_. b"]])

lemma rvalid_lift_then:
  assumes "\<And>y. m = Inr y \<Longrightarrow> rvalid I (f y) Q" shows "rvalid I (rbind (rlift m) f) Q"
  using assms by (intro rvalid_bind[OF rvalid_lift[where Q = "\<lambda>y. m = Inr y"]])

lemma verify_context_valid: "rvalid (session_ok rd) (verify_context fl rd x link) (context_verified rd x link)"
  unfolding verify_context_def Let_def
  by (intro rvalid_bind_pair[OF read_mapping_valid] rvalid_lift_then rvalid_check_then rvalid_return)
    (auto simp: site_of_def efail_on_None_eq_Inr context_verified_def)

lemma verify_proposal_valid: "rvalid (session_ok rd) (verify_proposal fl rd x link c) (proposal_verified rd link c)"
  unfolding verify_proposal_def Let_def
  by (intro rvalid_bind_pair[OF read_mapping_valid] rvalid_lift_then rvalid_check_then rvalid_return)
    (auto simp: site_of_def efail_on_None_eq_Inr proposal_verified_def)

lemma verify_provider_valid:
  "rvalid (session_ok rd) (verify_provider fl fromiso rd x link p) (\<lambda>_. provider_verified fromiso rd link p)"
  unfolding verify_provider_def Let_def
  by (intro rvalid_bind_pair[OF read_mapping_valid] rvalid_lift_then rvalid_check)
    (auto simp: site_of_def efail_on_None_eq_Inr provider_verified_def)

lemma verify_effect_valid: "rvalid (session_ok rd) (verify_effect fl rd x link c p) (effect_verified rd x link c p)"
  unfolding verify_effect_def Let_def
  by (intro rvalid_bind_pair[OF read_mapping_valid] rvalid_check_then rvalid_lift)
    (auto simp: site_of_def effect_verified_def)

lemma read_stream_valid:
  "rvalid (session_ok rd) (read_link rd site media encoding (int MAX_ACCEPTANCE_STREAM_BYTES) retain link)
     (stream_read rd link)"
  by (rule rvalid_weaken[OF read_link_valid]) (simp add: stream_read_def)

lemma verify_check_valid: "rvalid (session_ok rd) (verify_check fl rd x pair) (check_verified rd x pair)"
proof (cases pair)
  case (Pair expected links)
  show ?thesis unfolding Pair verify_check_def prod.case Let_def
  proof (rule rvalid_bind_pair[OF read_mapping_valid], simp add: site_of_def, rule rvalid_lift_then,
      rule rvalid_check_then, rule rvalid_bind_pair[OF read_mapping_valid], simp add: site_of_def,
      rule rvalid_bind[OF read_stream_valid], rule rvalid_bind[OF read_stream_valid],
      rule rvalid_lift_then, rule rvalid_check_then, rule rvalid_lift_then, rule rvalid_lift_then,
      rule rvalid_return, goal_cases)
    case (1 command_bytes raw_command command result_bytes raw_result stdout stderr result source1 source2)
    then show ?case unfolding check_verified_def efail_on_None_eq_Inr fst_conv snd_conv
      by (intro exI[of _ raw_command] exI[of _ raw_result] exI[of _ stdout] exI[of _ stderr] exI[of _ result])
        (simp add: stream_read_def)
  qed
qed

lemma rvalid_optional_then:
  assumes "\<And>l d. needed = Some d \<Longrightarrow> rvalid I (verify l d) (P d l)"
    and "\<And>y. optional_verified link y (\<lambda>l z. \<exists>d. needed = Some d \<and> P d l z) \<Longrightarrow> rvalid I (f y) Q"
  shows "rvalid I (rbind (verify_optional x role link needed verify) f) Q"
proof (rule rvalid_bind[OF _ assms(2)])
  let ?Q = "\<lambda>y. optional_verified link y (\<lambda>l z. \<exists>d. needed = Some d \<and> P d l z)"
  show "rvalid I (verify_optional x role link needed verify) ?Q"
  proof (cases link)
    case None
    then show ?thesis by (simp add: verify_optional_def rvalid_return optional_verified_def)
  next
    case (Some l)
    show ?thesis
    proof (cases needed)
      case None
      then show ?thesis using Some by (simp add: verify_optional_def rvalid_raise)
    next
      fix d assume d: "needed = Some d"
      show ?thesis unfolding verify_optional_def Some d option.case
        by (intro rvalid_bind[OF assms(1)[OF d]] rvalid_return) (simp add: optional_verified_def)
    qed
  qed
qed

lemma both_Some [simp]: "both a b = Some (c, p) \<longleftrightarrow> a = Some c \<and> b = Some p"
  by (auto simp: both_def bind_eq_Some_conv)

lemma verify_node_valid:
  assumes "xe_result x = Some d"
  shows "rvalid (session_ok rd) (verify_node fl fromiso rd run_id x d) (node_verified fromiso rd run_id x)"
  unfolding verify_node_def Let_def
proof (rule rvalid_bind_pair[OF read_digest_valid], rule rvalid_lift_then, rule rvalid_lift_then,
    rule rvalid_check_then,
    rule rvalid_optional_then[where P = "\<lambda>_. context_verified rd x"], rule verify_context_valid,
    rule rvalid_optional_then[where P = "\<lambda>c l. proposal_verified rd l c"], rule verify_proposal_valid,
    rule rvalid_optional_then[where P = "\<lambda>p l _. provider_verified fromiso rd l p"], rule verify_provider_valid,
    rule rvalid_optional_then[where P = "\<lambda>(c, p) l. effect_verified rd x l c p"], simp add: verify_effect_valid split: prod.splits,
    rule rvalid_bind[OF rvalid_traverse[OF verify_check_valid]], rule rvalid_return, goal_cases)
  case (1 bytes link raw m cx proposal u applied checks)
  have m: "node_outcome_from_mapping raw = Inr m" using 1(3) by (simp split: sum.splits)
  have bytes: "bytes = json_bytes (JObj raw)" using 1(2) by (rule canonical_mapping_Inr)
  have "recorded_mapping rd OUTCOME_MEDIA_TYPE MAX_OUTCOME_BYTES link raw"
    using 1(1) by (simp add: bytes recorded_mapping_def site_of_def)
  moreover have "lk_digest link = node_outcome_digest m" using 1(1,4) by simp
  moreover have "optional_verified (om_context m) cx (context_verified rd x)" using 1(5) by simp
  moreover have "\<forall>l. om_provider m = Some l \<longrightarrow> (\<exists>p. proposal = Some p \<and> provider_verified fromiso rd l p)"
    using 1(7) by (auto simp: optional_verified_def split: option.splits)
  moreover have "optional_verified (om_effect m) applied
      (\<lambda>l src. \<exists>c p. cx = Some c \<and> proposal = Some p \<and> effect_verified rd x l c p src)"
    using 1(8) by (simp add: optional_verified_def split: option.splits)
  ultimately show ?case
    using 1(4,6,9) m bytes assms by (auto simp: node_verified_def Let_def)
qed

section \<open>Issues\<close>

text \<open>Every issue an operation raises makes the report inconclusive or failed.\<close>

definition refuses :: "replay_error \<Rightarrow> bool" where
  "refuses e \<longleftrightarrow> (\<forall>i. e = Issue i \<longrightarrow> ri_status i = ReplayInconclusive \<or> ri_status i = ReplayFailed)"

lemma refuses_simps [simp]:
  "refuses (issue_at ReplayInconclusive c site d)" "refuses (issue_at ReplayFailed c site d)"
  "refuses (binding_issue site g)" "refuses (outcome_failure fa site g)"
  "refuses (EvidenceError f)" "refuses IntegerValueError" "refuses BeyondModel"
  by (auto simp: refuses_def issue_at_def binding_issue_def outcome_failure_def split: contract_failure.splits)

definition refusing :: "'a replay \<Rightarrow> bool" where
  "refusing m \<longleftrightarrow> (\<forall>s e t. m s = (Inl e, t) \<longrightarrow> refuses e)"

lemma refusing_basic:
  "refusing (rreturn x)" "refuses e \<Longrightarrow> refusing (rraise e)" "refuses e \<Longrightarrow> refusing (rcheck e b)"
  "(\<And>e. m = Inl e \<Longrightarrow> refuses e) \<Longrightarrow> refusing (rlift m)"
  by (auto simp: refusing_def rreturn_def rraise_def rcheck_def rlift_def)

lemma refusing_bind: "refusing m \<Longrightarrow> (\<And>x. refusing (f x)) \<Longrightarrow> refusing (rbind m f)"
  unfolding refusing_def rbind_def by (fastforce split: prod.splits sum.splits)

lemma refusing_bind_pair: "refusing m \<Longrightarrow> (\<And>x y. refusing (f x y)) \<Longrightarrow> refusing (rbind m (\<lambda>(x, y). f x y))"
  by (rule refusing_bind) auto

lemma refusing_traverse: "(\<And>x. refusing (f x)) \<Longrightarrow> refusing (rtraverse f xs)"
  by (induction xs) (auto intro!: refusing_bind refusing_basic)

lemma refusing_optional:
  "(\<And>l d. refusing (verify l d)) \<Longrightarrow> refusing (verify_optional x role link needed verify)"
  by (auto simp: verify_optional_def intro!: refusing_bind refusing_basic split: option.splits)

lemmas refusing_intros = refusing_bind_pair refusing_bind refusing_basic refusing_traverse refusing_optional

lemma refuses_reader [simp]: "refuses (reader_issue site d e)"
  by (simp add: reader_issue_def split: kernel_error.splits)

lemma refusing_stat: "refusing (stat_session rd site d)"
  by (auto simp: refusing_def stat_session_def split: option.splits sum.splits)

lemma refusing_fetch: "refusing (fetch_bytes rd site retain link r)"
  by (auto simp: refusing_def fetch_bytes_def Let_def split: sum.splits if_splits)

lemma refusing_read: "refusing (read_link rd site media encoding maximum retain link)"
proof -
  have cached: "refusing (\<lambda>s. case ss_bytes s d of Some data \<Rightarrow> (Inr data, s) | None \<Rightarrow> fetch_bytes rd site retain link r s)"
    for d r using refusing_fetch by (auto simp: refusing_def split: option.splits)
  have counted: "refusing (\<lambda>s. rcheck (issue_at ReplayInconclusive BudgetExceeded site (Some d)) (P s) s)" for d P
    by (auto simp: refusing_def rcheck_def rreturn_def rraise_def split: if_splits)
  have "refusing (\<lambda>s. (Inr data, f s))" for data :: string and f by (simp add: refusing_def)
  then show ?thesis unfolding read_link_def
    by (intro refusing_bind refusing_stat refusing_basic cached counted) simp_all
qed

lemma refuses_efail [simp]: "refuses f \<Longrightarrow> efail_on_None f y = Inl e \<Longrightarrow> refuses e"
  by (cases y) (auto simp: efail_on_None_def)

lemma refuses_canonical: "canonical_mapping fl site d data = Inl e \<Longrightarrow> refuses e"
  by (auto simp: canonical_mapping_def split: sum.splits loads_error.splits pyval.splits json.splits if_splits)

lemma refuses_excerpt_source: "review_excerpt_source b data = Inl e \<Longrightarrow> refuses e"
  by (auto simp: review_excerpt_source_def Let_def split: sum.splits loads_error.splits if_splits)

lemma refusing_mapping: "refusing (read_mapping fl rd site media maximum retain link)"
  unfolding read_mapping_def by (intro refusing_intros refusing_read) (rule refuses_canonical)

lemma refusing_efail: "refuses e \<Longrightarrow> refusing (rlift (efail_on_None e y))"
  by (intro refusing_basic) simp

lemma refusing_digest: "refusing (read_digest rd site media encoding maximum d)"
  unfolding read_digest_def
  by (auto intro!: refusing_bind refusing_basic refusing_stat refusing_read split: option.splits)

lemma refusing_source: "refusing (rlift (review_excerpt_source b data))"
  by (intro refusing_basic) (rule refuses_excerpt_source)

lemmas refusing_reads = refusing_bind_pair[OF refusing_mapping] refusing_bind[OF refusing_read]
  refusing_bind[OF refusing_efail] refusing_bind[OF refusing_basic(3)] refusing_bind[OF refusing_source]
  refusing_source refusing_basic(1) refusing_basic(3)

lemma refusing_parts:
  "refusing (verify_context fl rd x link)" "refusing (verify_proposal fl rd x link c)"
  "refusing (verify_provider fl fromiso rd x link p)" "refusing (verify_effect fl rd x link c p)"
  unfolding verify_context_def verify_proposal_def verify_provider_def verify_effect_def Let_def
  by (intro refusing_reads; simp)+

lemma refusing_verify_check: "refusing (verify_check fl rd x pair)"
  unfolding verify_check_def Let_def
  by (cases pair, simp only: prod.case) (intro refusing_reads; simp)

lemma refusing_node: "refusing (verify_node fl fromiso rd run_id x d)"
  unfolding verify_node_def Let_def
proof (intro refusing_bind_pair[OF refusing_digest] refusing_bind[OF refusing_basic(4)]
    refusing_bind[OF refusing_basic(3)] refusing_bind[OF refusing_optional] refusing_bind[OF refusing_traverse]
    refusing_parts refusing_verify_check refusing_basic(1), goal_cases)
  case (1 bytes link e) then show ?case by (rule refuses_canonical)
qed (auto simp: refusing_parts split: sum.splits)

section \<open>Runs\<close>

lemma run_materials_valid:
  "rvalid (session_ok rd) (rtraverse (verify_required fl fromiso rd run_id) nodes)
     (list_all2 (node_verified fromiso rd run_id) nodes)"
proof (rule rvalid_traverse)
  fix x show "rvalid (session_ok rd) (verify_required fl fromiso rd run_id x) (node_verified fromiso rd run_id x)"
    using verify_node_valid by (cases "xe_result x") (simp_all add: verify_required_def rvalid_raise)
qed

lemma make_report_simps [simp]:
  "rr_status (make_report st as fs) = st" "rr_artifacts (make_report st as fs) = as"
  "rr_findings (make_report st as fs) = fs"
  "rr_digest (make_report st as fs) = json_digest (JObj (replay_report_payload st as fs))"
  by (simp_all add: make_report_def)

text \<open>Every report is drawn from a session with the invariant.\<close>

lemma run_report_session:
  assumes "verify_run_materials fl fromiso (Some rd) run_id nodes = Inr (report, materials)"
  obtains s where "session_ok rd s" "rr_artifacts report = ss_artifacts s"
proof (cases "required_nodes nodes = []")
  case True
  then have "rr_artifacts report = []" using assms by (auto simp: verify_run_materials_def)
  then show ?thesis using that[OF session_ok_empty[of rd]] by (simp add: empty_session_def)
next
  case False
  obtain x t where run: "rtraverse (verify_required fl fromiso rd run_id) (required_nodes nodes) empty_session = (x, t)"
    by fastforce
  have "session_ok rd t" by (rule rvalidD(1)[OF run_materials_valid session_ok_empty run])
  moreover have "rr_artifacts report = ss_artifacts t"
    using assms False run by (auto simp: verify_run_materials_def split: sum.splits replay_error.splits)
  ultimately show ?thesis by (rule that)
qed

lemma run_verified:
  assumes "verify_run_materials fl fromiso reader run_id nodes = Inr (report, materials)"
    and "rr_status report = ReplayVerified"
  obtains rd where "reader = Some rd" "list_all2 (node_verified fromiso rd run_id) (required_nodes nodes) materials"
proof -
  have required: "required_nodes nodes \<noteq> []" using assms by (auto simp: verify_run_materials_def)
  then obtain rd where rd: "reader = Some rd"
    using assms by (cases reader) (auto simp: verify_run_materials_def)
  obtain x t where run: "rtraverse (verify_required fl fromiso rd run_id) (required_nodes nodes) empty_session = (x, t)"
    by fastforce
  show ?thesis
  proof (cases x)
    case (Inr ms)
    then have "ms = materials" using assms required rd run by (auto simp: verify_run_materials_def)
    then show ?thesis using rvalidD(2)[OF run_materials_valid session_ok_empty run Inr] that rd by simp
  next
    case (Inl e)
    show ?thesis
    proof (cases e)
      case (Issue i)
      have "refusing (rtraverse (verify_required fl fromiso rd run_id) (required_nodes nodes))"
        by (intro refusing_traverse) (auto simp: verify_required_def refusing_node intro!: refusing_basic split: option.splits)
      then have "refuses (Issue i)" using run Inl Issue unfolding refusing_def by blast
      moreover have "ri_status i = ReplayVerified" using assms required rd run Inl Issue
        by (auto simp: verify_run_materials_def)
      ultimately show ?thesis by (simp add: refuses_def)
    qed (use assms required rd run Inl in \<open>auto simp: verify_run_materials_def\<close>)
  qed
qed

end
