(* ===== verification/ReplayReviewFacts.thy ===== *)
theory ReplayReviewFacts
  imports ReplayReview ReplayFacts VerdictProps
begin

text \<open>
  Lemmas on the review context built from verified artifacts: the evidence of a node is exactly what
  the verifier looks for, one outcome, the four items of each check and for each operation of a
  writing node the items its kind requires.
\<close>

section \<open>Filtering concatenations\<close>

lemma filter_concat_key:
  assumes "distinct (map g xs)" "x \<in> set xs"
    and "\<And>y e. y \<in> set xs \<Longrightarrow> e \<in> set (h y) \<Longrightarrow> P e \<Longrightarrow> g y = g x"
  shows "filter P (concat (map h xs)) = filter P (h x)"
  using assms
proof (induction xs)
  case (Cons a xs)
  show ?case
  proof (cases "a = x")
    case True
    have "e \<notin> set (h y) \<or> \<not> P e" if "y \<in> set xs" for y e
      using Cons.prems(1) Cons.prems(3)[of y e] that True by (auto simp: image_iff)
    then have "filter P (concat (map h xs)) = []" by (auto simp: filter_empty_conv)
    then show ?thesis using True by simp
  next
    case False
    then have x: "x \<in> set xs" using Cons.prems(2) by simp
    then have "filter P (h a) = []"
      using Cons.prems(1) Cons.prems(3)[of a] by (auto simp: filter_empty_conv image_iff)
    moreover have "filter P (concat (map h xs)) = filter P (h x)"
      using Cons.prems x by (intro Cons.IH) auto
    ultimately show ?thesis by simp
  qed
qed simp

lemma etraverse_projr:
  assumes "etraverse f xs = Inr ys"
  shows "ys = map (\<lambda>x. projr (f x)) xs" "\<And>x. x \<in> set xs \<Longrightarrow> f x = Inr (projr (f x))"
proof -
  have all: "list_all2 (\<lambda>x y. f x = Inr y) xs ys" using assms by (simp add: etraverse_Inr_iff)
  then show "ys = map (\<lambda>x. projr (f x)) xs" by (induction rule: list_all2_induct) auto
  show "f x = Inr (projr (f x))" if "x \<in> set xs" for x
    using all that by (auto simp: list_all2_conv_all_nth in_set_conv_nth)
qed

lemma list_all2_right: "list_all2 P xs ys \<Longrightarrow> y \<in> set ys \<Longrightarrow> \<exists>x\<in>set xs. P x y"
  by (induction rule: list_all2_induct) auto

section \<open>Items\<close>

definition item_of :: "evidence_kind \<Rightarrow> string \<Rightarrow> string \<Rightarrow> string option \<Rightarrow> string option
    \<Rightarrow> text_operation option \<Rightarrow> review_evidence \<Rightarrow> bool" where
  "item_of kind n a path check_id operation e \<longleftrightarrow> re_kind e = kind \<and> re_node_id e = n \<and> re_artifact e = a
     \<and> re_path e = path \<and> re_check_id e = check_id \<and> re_operation e = operation
     \<and> (\<exists>e0. make_review_evidence e0 = Some e)"

lemma make_review_evidence_Some:
  assumes "make_review_evidence e0 = Some e" shows "\<exists>l i. e0\<lparr>re_end := l, re_id := i\<rparr> = e"
proof -
  have "Option.bind (ensure b) f = Some y \<Longrightarrow> f () = Some y" for b f and y :: review_evidence
    by (simp split: if_splits)
  note bind = this
  show ?thesis using assms unfolding make_review_evidence_def Let_def
    by (elim bind[elim_format]) (drule option.inject[THEN iffD1], intro exI)
qed

lemma evidence_item_Inr:
  assumes "evidence_item kind n a origin path check_id operation maximum = Inr e"
  shows "item_of kind n a path check_id operation e"
proof -
  obtain excerpt where e: "make_review_evidence \<lparr>re_kind = kind, re_node_id = n, re_artifact = a, re_excerpt = excerpt,
      re_start = 1, re_path = path, re_check_id = check_id, re_operation = operation, re_end = 0, re_id = []\<rparr> = Some e"
    using assms by (auto simp: evidence_item_def ebind_eq_Inr efail_on_None_eq_Inr)
  obtain l i where "e = \<lparr>re_kind = kind, re_node_id = n, re_artifact = a, re_excerpt = excerpt,
      re_start = 1, re_path = path, re_check_id = check_id, re_operation = operation, re_end = l, re_id = i\<rparr>"
    using make_review_evidence_Some[OF e] by auto
  moreover have "\<exists>e0. make_review_evidence e0 = Some e" using e by blast
  ultimately show ?thesis by (simp add: item_of_def)
qed

lemma evidence_bytes_Inr:
  "evidence_bytes kind n a data path check_id operation maximum = Inr e \<Longrightarrow> item_of kind n a path check_id operation e"
  by (auto simp: evidence_bytes_def ebind_eq_Inr dest: evidence_item_Inr)

text \<open>The items of one check, and of one operation.\<close>

lemma check_evidence_Inr:
  assumes "check_evidence nm maximum k = Inr es"
  obtains command result stdout stderr a b where "es = [command, result, stdout, stderr]"
    "item_of CheckCommand (xe_id (nm_expectation nm)) (lk_digest (ca_command (km_recorded k))) None
       (Some (ac_check_id (km_command k))) None command"
    "item_of CheckResult (xe_id (nm_expectation nm)) (lk_digest (ca_result (km_recorded k))) None
       (Some (ac_check_id (km_command k))) None result"
    "item_of CheckStdout (xe_id (nm_expectation nm)) a None (Some (ac_check_id (km_command k))) None stdout"
    "item_of CheckStderr (xe_id (nm_expectation nm)) b None (Some (ac_check_id (km_command k))) None stderr"
proof -
  obtain command result stdout stderr where
    "es = [command, result, stdout, stderr]"
    "evidence_bytes CheckCommand (xe_id (nm_expectation nm)) (lk_digest (ca_command (km_recorded k)))
       (km_command_bytes k) None (Some (ac_check_id (km_command k))) None maximum = Inr command"
    "evidence_bytes CheckResult (xe_id (nm_expectation nm)) (lk_digest (ca_result (km_recorded k)))
       (km_result_bytes k) None (Some (ac_check_id (km_command k))) None maximum = Inr result"
    "evidence_item CheckStdout (xe_id (nm_expectation nm)) (lk_digest (ca_stdout (km_recorded k)))
       (km_stdout k) None (Some (ac_check_id (km_command k))) None maximum = Inr stdout"
    "evidence_item CheckStderr (xe_id (nm_expectation nm)) (lk_digest (ca_stderr (km_recorded k)))
       (km_stderr k) None (Some (ac_check_id (km_command k))) None maximum = Inr stderr"
    using assms by (auto simp: check_evidence_def Let_def ebind_eq_Inr)
  then show ?thesis by (intro that) (assumption | rule evidence_bytes_Inr evidence_item_Inr)+
qed

lemma operation_evidence_Inr:
  assumes "operation_evidence nm cx cl pl el applied maximum change = Inr es"
  shows "map re_kind es = required_kinds (fc_operation change)"
    "e \<in> set es \<Longrightarrow> \<exists>k a. item_of k (xe_id (nm_expectation nm)) a (Some (fc_path change)) None
      (Some (fc_operation change)) e"
proof -
  obtain bs as e where es: "es = bs @ as @ [e]" and b: "before_evidence nm cx cl maximum change = Inr bs"
    and a: "after_evidence nm pl maximum change = Inr as"
    and applied: "item_of EffectEvidence (xe_id (nm_expectation nm)) (lk_digest el) (Some (fc_path change)) None
      (Some (fc_operation change)) e"
    using assms by (auto simp: operation_evidence_def ebind_eq_Inr dest!: evidence_item_Inr)
  have bs: "bs = [] \<and> fc_operation change = CreateText \<or> fc_operation change \<noteq> CreateText \<and>
      (\<exists>x. bs = [x] \<and> item_of SourceBefore (xe_id (nm_expectation nm)) (lk_digest cl) (Some (fc_path change)) None
      (Some (fc_operation change)) x)"
    using b by (auto simp: before_evidence_def ebind_eq_Inr split: if_splits option.splits dest!: evidence_bytes_Inr)
  have as: "as = [] \<and> fc_operation change = DeleteText \<or> fc_operation change \<noteq> DeleteText \<and>
      (\<exists>x. as = [x] \<and> item_of SourceAfter (xe_id (nm_expectation nm)) (lk_digest pl) (Some (fc_path change)) None
      (Some (fc_operation change)) x)"
    using a by (auto simp: after_evidence_def ebind_eq_Inr split: if_splits option.splits dest!: evidence_bytes_Inr)
  show "map re_kind es = required_kinds (fc_operation change)"
    using bs as applied by (cases "fc_operation change") (auto simp: es CHANGE_KINDS_def item_of_def)
  show "e \<in> set es \<Longrightarrow> \<exists>k a. item_of k (xe_id (nm_expectation nm)) a (Some (fc_path change)) None
      (Some (fc_operation change)) e"
    for e using bs as applied unfolding es by (elim disjE conjE exE; simp; blast)
qed

section \<open>What the verifier looks for depends on the selections\<close>

lemma mset_filter_length: "mset xs = mset ys \<Longrightarrow> length (filter P xs) = length (filter P ys)"
  by (metis mset_filter size_mset)

lemma selections_cong:
  assumes "\<And>k c. mset (select_evidence a k (rn_id n) c) = mset (select_evidence b k (rn_id n) c)"
  shows "identity_mismatch a n c = identity_mismatch b n c" "node_complete a n = node_complete b n"
proof -
  have one: "select_evidence a k (rn_id n) c = [e] \<longleftrightarrow> select_evidence b k (rn_id n) c = [e]" for k c e
    using assms[of k c] by (metis mset_single_iff_right)
  show "identity_mismatch a n c = identity_mismatch b n c" unfolding identity_mismatch_def one ..
  have len: "length (select_evidence a k (rn_id n) c) = length (select_evidence b k (rn_id n) c)" for k c
    using assms[of k c] by (metis size_mset)
  have scope: "mset (scope_selected n a) = mset (scope_selected n b)"
    by (simp add: scope_selected_def CHANGE_KINDS_def assms)
  have set: "set (scope_selected n a) = set (scope_selected n b)" using scope by (rule mset_eq_setD)
  show "node_complete a n = node_complete b n"
    unfolding node_complete_def change_complete_def path_complete_def len set mset_filter_length[OF scope] ..
qed

text \<open>The evidence of one node among that of all of them, in the order of the context.\<close>

lemma select_node_evidence:
  assumes "distinct (map (\<lambda>p. rn_id (fst p)) parts)" "(n, es) \<in> set parts"
    and "\<And>m fs e. (m, fs) \<in> set parts \<Longrightarrow> e \<in> set fs \<Longrightarrow> re_node_id e = rn_id m"
  shows "mset (select_evidence (sort_key re_id (concat (map snd parts))) k (rn_id n) c)
    = mset (select_evidence es k (rn_id n) c)"
proof -
  let ?P = "\<lambda>e. re_kind e = k \<and> re_node_id e = rn_id n \<and> re_check_id e = c"
  have "filter ?P (concat (map snd parts)) = filter ?P (snd (n, es))"
    using assms by (intro filter_concat_key[where g = "\<lambda>p. rn_id (fst p)"]) auto
  from arg_cong[OF this, of mset] show ?thesis by (simp add: select_evidence_def)
qed

section \<open>The evidence of one node\<close>

lemma review_evidence_for_node_Inr:
  assumes "review_evidence_for_node nm maximum = Inr es"
  obtains outcome changes a where
    "es = outcome # changes @ concat (map (\<lambda>k. projr (check_evidence nm maximum k)) (nm_checks nm))"
    "item_of OutcomeEvidence (xe_id (nm_expectation nm)) a None None None outcome"
    "change_evidence nm maximum = Inr changes"
    "\<And>k. k \<in> set (nm_checks nm) \<Longrightarrow> check_evidence nm maximum k = Inr (projr (check_evidence nm maximum k))"
proof -
  obtain outcome changes checks where es: "es = outcome # changes @ concat checks"
    and o: "evidence_bytes OutcomeEvidence (xe_id (nm_expectation nm)) (lk_digest (nm_outcome_link nm))
       (nm_outcome_bytes nm) None None None maximum = Inr outcome"
    and c: "change_evidence nm maximum = Inr changes"
    and k: "etraverse (check_evidence nm maximum) (nm_checks nm) = Inr checks"
    using assms by (auto simp: review_evidence_for_node_def ebind_eq_Inr)
  show ?thesis
    by (rule that[OF _ evidence_bytes_Inr[OF o] c etraverse_projr(2)[OF k]])
      (simp add: es etraverse_projr(1)[OF k])
qed

text \<open>The evidence of the operations \<open>f\<close> assigns.\<close>

definition change_items :: "string \<Rightarrow> file_change list \<Rightarrow> (file_change \<Rightarrow> review_evidence list) \<Rightarrow> bool" where
  "change_items n operations f \<longleftrightarrow> (\<forall>c\<in>set operations. map re_kind (f c) = required_kinds (fc_operation c)
     \<and> (\<forall>e\<in>set (f c). \<exists>k a. item_of k n a (Some (fc_path c)) None (Some (fc_operation c)) e))"

lemma change_evidence_Inr:
  assumes "change_evidence nm maximum = Inr changes" "xe_write (nm_expectation nm)"
  shows "\<exists>p f. nm_proposal nm = Some p \<and> changes = concat (map f (cg_operations p))
    \<and> change_items (xe_id (nm_expectation nm)) (cg_operations p) f"
proof -
  obtain cx p cl pl el applied items where p: "nm_proposal nm = Some p"
    and items: "etraverse (operation_evidence nm cx cl pl el applied maximum) (cg_operations p) = Inr items"
    and c: "changes = concat items"
    using assms by (auto simp: change_evidence_def ebind_eq_Inr split: option.splits)
  let ?f = "\<lambda>c. projr (operation_evidence nm cx cl pl el applied maximum c)"
  note made = operation_evidence_Inr[OF etraverse_projr(2)[OF items]]
  have "change_items (xe_id (nm_expectation nm)) (cg_operations p) ?f"
    unfolding change_items_def using made by blast
  moreover have "changes = concat (map ?f (cg_operations p))" using c etraverse_projr(1)[OF items] by simp
  ultimately show ?thesis using p by blast
qed

lemma change_evidence_items:
  assumes "change_evidence nm maximum = Inr changes" "e \<in> set changes"
  shows "re_node_id e = xe_id (nm_expectation nm) \<and> re_check_id e = None \<and> re_kind e \<in> set CHANGE_KINDS
    \<and> (\<exists>e0. make_review_evidence e0 = Some e)"
proof (cases "xe_write (nm_expectation nm)")
  case True
  obtain p f where "nm_proposal nm = Some p" and f: "changes = concat (map f (cg_operations p))"
    and made: "change_items (xe_id (nm_expectation nm)) (cg_operations p) f"
    using change_evidence_Inr[OF assms(1) True] by blast
  obtain c where c: "c \<in> set (cg_operations p)" "e \<in> set (f c)" using assms(2) f by auto
  have "re_kind e \<in> set (map re_kind (f c))" using c(2) by simp
  moreover have "set (required_kinds x) \<subseteq> set CHANGE_KINDS" for x by (cases x) (auto simp: CHANGE_KINDS_def)
  moreover have "map re_kind (f c) = required_kinds (fc_operation c)" using made c(1) by (simp add: change_items_def)
  ultimately have "re_kind e \<in> set CHANGE_KINDS" by auto
  moreover have "\<exists>k a. item_of k (xe_id (nm_expectation nm)) a (Some (fc_path c)) None (Some (fc_operation c)) e"
    using made c unfolding change_items_def by blast
  ultimately show ?thesis by (auto simp: item_of_def)
next
  case False
  then show ?thesis using assms by (simp add: change_evidence_def)
qed

lemma check_evidence_items:
  assumes "check_evidence nm maximum k = Inr es" "e \<in> set es"
  shows "re_node_id e = xe_id (nm_expectation nm) \<and> re_check_id e = Some (ac_check_id (km_command k))
    \<and> re_kind e \<in> set CHECK_KINDS \<and> (\<exists>e0. make_review_evidence e0 = Some e)"
  by (rule check_evidence_Inr[OF assms(1)]) (use assms(2) in \<open>auto simp: item_of_def CHECK_KINDS_def\<close>)

lemma node_evidence_items:
  assumes "review_evidence_for_node nm maximum = Inr es" "e \<in> set es"
  shows "re_node_id e = xe_id (nm_expectation nm) \<and> (\<exists>e0. make_review_evidence e0 = Some e)"
  using assms(1)
proof (rule review_evidence_for_node_Inr)
  fix outcome changes a
  assume es: "es = outcome # changes @ concat (map (\<lambda>k. projr (check_evidence nm maximum k)) (nm_checks nm))"
    and o: "item_of OutcomeEvidence (xe_id (nm_expectation nm)) a None None None outcome"
    and c: "change_evidence nm maximum = Inr changes"
    and k: "\<And>k. k \<in> set (nm_checks nm) \<Longrightarrow> check_evidence nm maximum k = Inr (projr (check_evidence nm maximum k))"
  have "e = outcome \<or> e \<in> set changes
        \<or> (\<exists>k\<in>set (nm_checks nm). e \<in> set (projr (check_evidence nm maximum k)))"
    using assms(2) by (auto simp: es)
  then show ?thesis
    using o change_evidence_items[OF c] check_evidence_items[OF k] by (auto simp: item_of_def)
qed

text \<open>The selections of the verifier among the evidence of the node.\<close>

lemma node_selections:
  assumes es: "review_evidence_for_node nm maximum = Inr es"
    and dist: "distinct (map (\<lambda>k. ac_check_id (km_command k)) (nm_checks nm))"
  shows "length (select_evidence es OutcomeEvidence (xe_id (nm_expectation nm)) None) = 1"
    "k \<in> set (nm_checks nm) \<Longrightarrow> kind \<in> set CHECK_KINDS \<Longrightarrow>
      \<exists>e. select_evidence es kind (xe_id (nm_expectation nm)) (Some (ac_check_id (km_command k))) = [e]
        \<and> (kind = CheckCommand \<longrightarrow> re_artifact e = lk_digest (ca_command (km_recorded k)))
        \<and> (kind = CheckResult \<longrightarrow> re_artifact e = lk_digest (ca_result (km_recorded k)))"
    "kind \<in> set CHANGE_KINDS \<Longrightarrow> change_evidence nm maximum = Inr changes \<Longrightarrow>
      select_evidence es kind (xe_id (nm_expectation nm)) None = filter (\<lambda>e. re_kind e = kind) changes"
proof -
  let ?N = "xe_id (nm_expectation nm)" and ?id = "\<lambda>k. ac_check_id (km_command k)"
  let ?h = "\<lambda>k. projr (check_evidence nm maximum k)"
  obtain outcome changes' a where es': "es = outcome # changes' @ concat (map ?h (nm_checks nm))"
    and o: "item_of OutcomeEvidence ?N a None None None outcome"
    and c: "change_evidence nm maximum = Inr changes'"
    and k: "\<And>k. k \<in> set (nm_checks nm) \<Longrightarrow> check_evidence nm maximum k = Inr (?h k)"
    by (rule review_evidence_for_node_Inr[OF es]) blast
  note cs = change_evidence_items[OF c] and ks = check_evidence_items[OF k]
  have kinds: "OutcomeEvidence \<notin> set CHANGE_KINDS" "OutcomeEvidence \<notin> set CHECK_KINDS"
    "set CHANGE_KINDS \<inter> set CHECK_KINDS = {}" by (auto simp: CHANGE_KINDS_def CHECK_KINDS_def)
  have checks_none: "filter (\<lambda>e. re_kind e = kind \<and> re_node_id e = ?N \<and> re_check_id e = None) (concat (map ?h (nm_checks nm))) = []"
    for kind using ks by (fastforce simp: filter_empty_conv)
  have "filter (\<lambda>e. re_kind e = OutcomeEvidence \<and> re_node_id e = ?N \<and> re_check_id e = None) changes' = []"
    using cs kinds(1) by (fastforce simp: filter_empty_conv)
  then show "length (select_evidence es OutcomeEvidence ?N None) = 1"
    using o checks_none[of OutcomeEvidence] by (simp add: select_evidence_def es' item_of_def)
  show "select_evidence es kind ?N None = filter (\<lambda>e. re_kind e = kind) changes"
    if "kind \<in> set CHANGE_KINDS" "change_evidence nm maximum = Inr changes"
  proof -
    have "filter (\<lambda>e. re_kind e = kind \<and> re_node_id e = ?N \<and> re_check_id e = None) changes'
        = filter (\<lambda>e. re_kind e = kind) changes'"
      by (rule filter_cong) (use cs in auto)
    then show ?thesis using that c o checks_none[of kind] kinds(1)
      by (auto simp: select_evidence_def es' item_of_def)
  qed
  show "\<exists>e. select_evidence es kind ?N (Some (?id k)) = [e]
        \<and> (kind = CheckCommand \<longrightarrow> re_artifact e = lk_digest (ca_command (km_recorded k)))
        \<and> (kind = CheckResult \<longrightarrow> re_artifact e = lk_digest (ca_result (km_recorded k)))"
    if "k \<in> set (nm_checks nm)" "kind \<in> set CHECK_KINDS"
  proof -
    let ?P = "\<lambda>e. re_kind e = kind \<and> re_node_id e = ?N \<and> re_check_id e = Some (?id k)"
    have "filter ?P (concat (map ?h (nm_checks nm))) = filter ?P (?h k)"
    proof (rule filter_concat_key[OF dist that(1)])
      fix y e assume "y \<in> set (nm_checks nm)" "e \<in> set (?h y)" "?P e"
      then show "?id y = ?id k" using ks[of y e] by simp
    qed
    moreover have "filter ?P changes' = []" using cs by (fastforce simp: filter_empty_conv)
    ultimately have sel: "select_evidence es kind ?N (Some (?id k)) = filter ?P (?h k)"
      using o by (simp add: select_evidence_def es' item_of_def)
    show ?thesis unfolding sel
      by (rule check_evidence_Inr[OF k[OF that(1)]]) (use that(2) in \<open>auto simp: CHECK_KINDS_def item_of_def\<close>)
  qed
qed

lemma item_one_path:
  fixes p :: change_proposal
  assumes f: "changes = concat (map f (cg_operations p))"
    and made: "change_items n (cg_operations p) f"
    and dist: "distinct (map fc_path (cg_operations p))" and c: "c \<in> set (cg_operations p)"
  shows "\<forall>e\<in>set changes. re_path e = Some (fc_path c) \<longrightarrow> re_operation e = Some (fc_operation c)"
    "k \<in> set (required_kinds (fc_operation c)) \<Longrightarrow>
      length (filter (\<lambda>e. re_path e = Some (fc_path c) \<and> re_kind e = k) changes) = 1"
proof -
  have path: "re_path e = Some (fc_path d) \<and> re_operation e = Some (fc_operation d)"
    if "d \<in> set (cg_operations p)" "e \<in> set (f d)" for d e
    using made that unfolding change_items_def item_of_def by blast
  have kinds: "map re_kind (f c) = required_kinds (fc_operation c)" using made c by (simp add: change_items_def)
  have same: "d = c" if "d \<in> set (cg_operations p)" "fc_path d = fc_path c" for d
    using dist that c by (auto simp: distinct_map inj_on_def)
  show "\<forall>e\<in>set changes. re_path e = Some (fc_path c) \<longrightarrow> re_operation e = Some (fc_operation c)"
  proof (intro ballI impI)
    fix e assume "e \<in> set changes" and p: "re_path e = Some (fc_path c)"
    then obtain d where d: "d \<in> set (cg_operations p)" "e \<in> set (f d)" using f by auto
    then have "d = c" using path[OF d] p same[of d] by simp
    then show "re_operation e = Some (fc_operation c)" using path[OF d] by simp
  qed
  assume k: "k \<in> set (required_kinds (fc_operation c))"
  have "filter (\<lambda>e. re_path e = Some (fc_path c) \<and> re_kind e = k) changes
      = filter (\<lambda>e. re_path e = Some (fc_path c) \<and> re_kind e = k) (f c)"
    unfolding f using dist c path by (intro filter_concat_key[where g = fc_path]) auto
  also have "\<dots> = filter (\<lambda>e. re_kind e = k) (f c)" by (rule filter_cong) (use path[OF c] in auto)
  finally have "length (filter (\<lambda>e. re_path e = Some (fc_path c) \<and> re_kind e = k) changes)
      = length (filter (\<lambda>x. x = k) (map re_kind (f c)))"
    by (simp add: filter_map comp_def)
  then show "length (filter (\<lambda>e. re_path e = Some (fc_path c) \<and> re_kind e = k) changes) = 1"
    using k unfolding kinds by (cases "fc_operation c") (auto simp: CHANGE_KINDS_def)
qed

lemma scope_selected_changes:
  assumes "\<And>kind. kind \<in> set CHANGE_KINDS \<Longrightarrow> select_evidence es kind (rn_id n) None = filter (\<lambda>e. re_kind e = kind) changes"
    and "\<forall>e\<in>set changes. re_kind e \<in> set CHANGE_KINDS"
  shows "set (scope_selected n es) = set changes"
    "k \<in> set CHANGE_KINDS \<Longrightarrow> length (filter (\<lambda>e. P e \<and> re_kind e = k) (scope_selected n es))
      = length (filter (\<lambda>e. P e \<and> re_kind e = k) changes)"
proof -
  have scope: "scope_selected n es = concat (map (\<lambda>kind. filter (\<lambda>e. re_kind e = kind) changes) CHANGE_KINDS)"
    unfolding scope_selected_def using assms(1) by (simp add: CHANGE_KINDS_def)
  show "set (scope_selected n es) = set changes" using assms(2) unfolding scope by auto
  assume "k \<in> set CHANGE_KINDS"
  then have "filter (\<lambda>e. P e \<and> re_kind e = k) (scope_selected n es)
      = filter (\<lambda>e. P e \<and> re_kind e = k) (filter (\<lambda>e. re_kind e = k) changes)"
    unfolding scope by (intro filter_concat_key[where g = id]) (auto simp: CHANGE_KINDS_def)
  also have "\<dots> = filter (\<lambda>e. P e \<and> re_kind e = k) changes" by (simp add: conj_commute conj_left_commute)
  finally show "length (filter (\<lambda>e. P e \<and> re_kind e = k) (scope_selected n es))
      = length (filter (\<lambda>e. P e \<and> re_kind e = k) changes)" by simp
qed

lemma node_evidence_complete:
  assumes es: "review_evidence_for_node nm maximum = Inr es"
    and n: "rn_id n = xe_id (nm_expectation nm)"
    and checks: "map rc_id (rn_checks n) = map (\<lambda>k. ac_check_id (km_command k)) (nm_checks nm)" "distinct (map rc_id (rn_checks n))"
    and writes: "''repository-write'' \<in> set (rn_effects n) \<Longrightarrow> xe_write (nm_expectation nm)"
    and proposal: "\<And>p. nm_proposal nm = Some p \<Longrightarrow> distinct (map fc_path (cg_operations p)) \<and> cg_operations p \<noteq> []"
  shows "node_complete es n"
proof -
  have dist: "distinct (map (\<lambda>k. ac_check_id (km_command k)) (nm_checks nm))" using checks by simp
  note sel = node_selections[OF es dist, folded n]
  have "length (select_evidence es kind (rn_id n) (Some (rc_id c))) = 1"
    if c: "c \<in> set (rn_checks n)" and kind: "kind \<in> set CHECK_KINDS" for c kind
  proof -
    have "rc_id c \<in> set (map (\<lambda>k. ac_check_id (km_command k)) (nm_checks nm))" using c by (simp flip: checks(1))
    then obtain k where "k \<in> set (nm_checks nm)" "rc_id c = ac_check_id (km_command k)" by auto
    then show ?thesis using sel(2)[OF _ kind] by force
  qed
  moreover have "change_complete es n" if w: "''repository-write'' \<in> set (rn_effects n)"
  proof -
    obtain changes where changes: "change_evidence nm maximum = Inr changes"
      using es by (auto simp: review_evidence_for_node_def ebind_eq_Inr)
    obtain p f where p: "nm_proposal nm = Some p" and f: "changes = concat (map f (cg_operations p))"
      and made: "change_items (xe_id (nm_expectation nm)) (cg_operations p) f"
      using change_evidence_Inr[OF changes writes[OF w]] by blast
    note dist = proposal[OF p, THEN conjunct1]
    have kinds: "\<forall>e\<in>set changes. re_kind e \<in> set CHANGE_KINDS" using change_evidence_items[OF changes] by blast
    have selected: "select_evidence es kind (rn_id n) None = filter (\<lambda>e. re_kind e = kind) changes"
      if "kind \<in> set CHANGE_KINDS" for kind using sel(3)[OF that changes] .
    have same: "set (scope_selected n es) = set changes" by (rule scope_selected_changes(1)[OF _ kinds]) (rule selected)
    have counts: "length (filter (\<lambda>e. P e \<and> re_kind e = k) (scope_selected n es))
      = length (filter (\<lambda>e. P e \<and> re_kind e = k) changes)" if k: "k \<in> set CHANGE_KINDS" for k P
      by (rule scope_selected_changes(2)[OF _ kinds k]) (rule selected)
    have path: "\<exists>c\<in>set (cg_operations p). re_path e = Some (fc_path c)" if e: "e \<in> set changes" for e
    proof -
      obtain c where c: "c \<in> set (cg_operations p)" "e \<in> set (f c)" using e f by auto
      then show ?thesis using made unfolding change_items_def item_of_def by blast
    qed
    have complete: "path_complete (scope_selected n es) (fc_path c)" if c: "c \<in> set (cg_operations p)" for c
    proof -
      note one = item_one_path[OF f made dist c]
      have "set (required_kinds (fc_operation c)) \<subseteq> set CHANGE_KINDS"
        by (cases "fc_operation c") (auto simp: CHANGE_KINDS_def)
      then show ?thesis
        unfolding path_complete_def unfolding same using one counts by (intro exI[of _ "fc_operation c"]) auto
    qed
    obtain c where c: "c \<in> set (cg_operations p)" using proposal[OF p] by (cases "cg_operations p") auto
    then have "f c \<noteq> []" using made c by (cases "fc_operation c") (auto simp: CHANGE_KINDS_def change_items_def)
    then have "hd (f c) \<in> set changes" using c f by (auto intro!: bexI[of _ c])
    then show ?thesis unfolding change_complete_def same using path complete by force
  qed
  ultimately show ?thesis using sel(1) by (simp add: node_complete_def)
qed

section \<open>The context\<close>

lemma material_node_Inr:
  assumes "material_node nm = Inr n"
  shows "rn_id n = xe_id (nm_expectation nm)" "rn_effects n = xe_effects (nm_expectation nm)"
    "rn_checks n = map (\<lambda>k. \<lparr>rc_id = ac_check_id (km_command k), rc_argv = ac_argv (km_command k),
          rc_exit = ac_exit (km_command k), rc_command = acceptance_command_digest (km_command k),
          rc_result = km_result_digest k, rc_passed = km_passed k\<rparr>) (nm_checks nm)"
    "distinct (map rc_id (rn_checks n))" "list_all review_check_ok (rn_checks n)"
    "\<exists>n0. make_review_node n0 = Some n"
proof -
  let ?c = "\<lambda>k. \<lparr>rc_id = ac_check_id (km_command k), rc_argv = ac_argv (km_command k),
          rc_exit = ac_exit (km_command k), rc_command = acceptance_command_digest (km_command k),
          rc_result = km_result_digest k, rc_passed = km_passed k\<rparr>"
  let ?x = "nm_expectation nm"
  obtain checks where checks: "etraverse (\<lambda>k. ebind (check evidence_mismatch (review_check_ok (?c k))) (\<lambda>_. Inr (?c k)))
      (nm_checks nm) = Inr checks"
    and n: "make_review_node \<lparr>rn_id = xe_id ?x, rn_objective = xe_objective ?x, rn_depends_on = xe_depends_on ?x,
        rn_effects = xe_effects ?x, rn_allowed = xe_allowed ?x, rn_max_changed = xe_max_changed ?x,
        rn_checks = checks\<rparr> = Some n"
    using assms by (auto simp: material_node_def Let_def ebind_eq_Inr efail_on_None_eq_Inr)
  have "list_all2 (\<lambda>k c. c = ?c k \<and> review_check_ok c) (nm_checks nm) checks"
    using checks unfolding etraverse_Inr_iff by (rule list_all2_mono) (auto split: if_splits)
  then have c: "checks = map ?c (nm_checks nm)" "list_all review_check_ok checks"
    by (induction rule: list_all2_induct) auto
  show "rn_id n = xe_id ?x" "rn_effects n = xe_effects ?x" "rn_checks n = map ?c (nm_checks nm)"
    "distinct (map rc_id (rn_checks n))" "list_all review_check_ok (rn_checks n)"
    using n c(2) unfolding c(1) by (auto simp: make_review_node_def Let_def split: if_splits)
  show "\<exists>n0. make_review_node n0 = Some n" using n by blast
qed

lemma change_proposal_operations:
  assumes "make_change_proposal p0 = Some p"
  shows "distinct (map fc_path (cg_operations p))" "cg_operations p \<noteq> []"
proof -
  have "1 \<le> length (cg_operations p0)" "distinct (map fc_path (sort_key fc_path (cg_operations p0)))"
    "p = p0\<lparr>cg_operations := sort_key fc_path (cg_operations p0)\<rparr>"
    using assms by (auto simp: make_change_proposal_def Let_def split: if_splits)
  then show "distinct (map fc_path (cg_operations p))" "cg_operations p \<noteq> []"
    by (auto dest: arg_cong[of _ _ length])
qed

lemma proposal_from_mapping_Some:
  assumes "change_proposal_from_mapping raw = Some p"
  shows "distinct (map fc_path (cg_operations p)) \<and> cg_operations p \<noteq> []"
  using assms change_proposal_operations
  by (auto simp: change_proposal_from_mapping_def bind_eq_Some_conv split: if_splits)

text \<open>What is needed of verified materials: the digests of a check are those of its artifacts and
  the proposal of a node is valid.\<close>

definition material_bound :: "node_material \<Rightarrow> bool" where
  "material_bound nm \<longleftrightarrow> (\<forall>k\<in>set (nm_checks nm).
       acceptance_command_digest (km_command k) = lk_digest (ca_command (km_recorded k))
       \<and> km_result_digest k = lk_digest (ca_result (km_recorded k)))
     \<and> (\<forall>p. nm_proposal nm = Some p \<longrightarrow> distinct (map fc_path (cg_operations p)) \<and> cg_operations p \<noteq> [])"

lemma check_links_ok:
  assumes "node_outcome_from_mapping raw = Inr m" "c \<in> set (om_checks m)"
  shows "lk_digest (ca_command c) = ca_command_digest c" "lk_digest (ca_result c) = ca_result_digest c"
proof -
  obtain raw_checks where "traverse check_artifacts_from_mapping raw_checks = Some (om_checks m)"
    using assms(1) by (auto simp: node_outcome_from_mapping_def node_outcome_fields_def ebind_eq_Inr
        efail_on_None_eq_Inr bind_eq_Some_conv Let_def split: if_splits)
  then obtain v where "check_artifacts_from_mapping v = Some c"
    using assms(2) by (auto simp: traverse_Some_iff list_all2_conv_all_nth in_set_conv_nth)
  then have "check_artifacts_ok c"
    by (auto simp: check_artifacts_from_mapping_def bind_eq_Some_conv Let_def split: if_splits)
  then show "lk_digest (ca_command c) = ca_command_digest c" "lk_digest (ca_result c) = ca_result_digest c"
    by (simp_all add: check_artifacts_ok_def)
qed

lemma node_verified_bound:
  assumes "node_verified fromiso rd run_id x nm"
  shows "material_bound nm"
  unfolding material_bound_def
proof (intro conjI ballI allI impI)
  let ?m = "nm_manifest nm"
  obtain raw where raw: "node_outcome_from_mapping raw = Inr ?m" using assms by (auto simp: node_verified_def Let_def)
  {
    fix k assume "k \<in> set (nm_checks nm)"
    moreover have "list_all2 (check_verified rd x) (zip (xe_checks x) (om_checks ?m)) (nm_checks nm)"
      using assms by (simp add: node_verified_def Let_def)
    ultimately obtain pair where pair: "pair \<in> set (zip (xe_checks x) (om_checks ?m))" and k: "check_verified rd x pair k"
      using list_all2_right by meson
    have "snd pair \<in> set (om_checks ?m)" using pair by (metis in_set_zipE prod.collapse)
    note links = check_links_ok[OF raw this]
    have rec: "km_recorded k = snd pair" using k unfolding check_verified_def by blast
    show "acceptance_command_digest (km_command k) = lk_digest (ca_command (km_recorded k))"
      using k links(1) unfolding rec check_verified_def command_as_expected_def by auto
    show "km_result_digest k = lk_digest (ca_result (km_recorded k))"
      using k links(2) unfolding rec check_verified_def result_as_expected_def by auto
  }
  fix p assume "nm_proposal nm = Some p"
  then have "\<exists>raw. change_proposal_from_mapping raw = Some p"
    using assms by (auto simp: node_verified_def Let_def optional_verified_def proposal_verified_def split: option.splits)
  then show "distinct (map fc_path (cg_operations p))" "cg_operations p \<noteq> []"
    using proposal_from_mapping_Some by blast+
qed

lemma material_review_Inr:
  assumes "material_review maximum nm = Inr (n, es)" "material_bound nm" "list_all km_passed (nm_checks nm)"
    and "xe_write (nm_expectation nm) = (''repository-write'' \<in> set (xe_effects (nm_expectation nm)))"
  shows "node_complete es n" "\<And>c. c \<in> set (rn_checks n) \<Longrightarrow> rc_passed c \<and> \<not> identity_mismatch es n c"
    "\<And>e. e \<in> set es \<Longrightarrow> re_node_id e = rn_id n \<and> (\<exists>e0. make_review_evidence e0 = Some e)"
proof -
  have n: "material_node nm = Inr n" and es: "review_evidence_for_node nm maximum = Inr es"
    using assms(1) by (auto simp: material_review_def ebind_eq_Inr)
  note node = material_node_Inr[OF n]
  have ids: "map rc_id (rn_checks n) = map (\<lambda>k. ac_check_id (km_command k)) (nm_checks nm)"
    unfolding node(3) by simp
  have dist: "distinct (map (\<lambda>k. ac_check_id (km_command k)) (nm_checks nm))" using node(4) unfolding ids .
  show "node_complete es n"
    by (rule node_evidence_complete[OF es node(1) ids node(4)])
      (use assms(2,4) node(2) in \<open>auto simp: material_bound_def\<close>)
  show "rc_passed c \<and> \<not> identity_mismatch es n c" if c: "c \<in> set (rn_checks n)" for c
  proof -
    obtain k where k: "k \<in> set (nm_checks nm)" "rc_id c = ac_check_id (km_command k)"
      "rc_command c = acceptance_command_digest (km_command k)" "rc_result c = km_result_digest k"
      "rc_passed c = km_passed k"
      using c unfolding node(3) by auto
    have bound: "acceptance_command_digest (km_command k) = lk_digest (ca_command (km_recorded k))"
      "km_result_digest k = lk_digest (ca_result (km_recorded k))"
      using assms(2) k(1) by (auto simp: material_bound_def)
    have kinds: "CheckCommand \<in> set CHECK_KINDS" "CheckResult \<in> set CHECK_KINDS" by (simp_all add: CHECK_KINDS_def)
    note sel = node_selections(2)[OF es dist k(1), folded k(2) node(1)]
    have "\<not> identity_mismatch es n c"
      using sel[OF kinds(1)] sel[OF kinds(2)] k(3,4) bound by (auto simp: identity_mismatch_def)
    moreover have "rc_passed c" using assms(3) k(1,5) by (simp add: list_all_iff)
    ultimately show ?thesis by simp
  qed
  show "re_node_id e = rn_id n \<and> (\<exists>e0. make_review_evidence e0 = Some e)" if "e \<in> set es" for e
    using node_evidence_items[OF es that] node(1) by simp
qed

lemma review_context_of_Inr:
  assumes "review_context_of rq report materials = Inr x"
  obtains maximum parts where "etraverse (material_review maximum) materials = Inr parts"
    "ra_nodes (rx_acceptance x) = sort_key rn_id (map fst parts)" "distinct (map (\<lambda>p. rn_id (fst p)) parts)"
    "rx_evidence x = sort_key re_id (concat (map snd parts))"
    "\<exists>x0. make_review_context x0 = Some x" "\<exists>a0. make_review_acceptance a0 = Some (rx_acceptance x)"
    "rx_artifact_evidence x = rr_digest report" "rx_state x = rq_state rq"
proof -
  obtain maximum parts a where parts: "etraverse (material_review maximum) materials = Inr parts"
    and a: "make_review_acceptance \<lparr>ra_run_id = rq_run_id rq, ra_project_id = rq_project_id rq, ra_intent_id = rq_intent_id rq,
        ra_plan_id = rq_plan_id rq, ra_objective = rq_objective rq, ra_constraints = rq_constraints rq,
        ra_base = rq_base rq, ra_nodes = map fst parts, ra_schema = REVIEW_ACCEPTANCE_SCHEMA\<rparr> = Some a"
    and x: "make_review_context \<lparr>rx_acceptance = a, rx_state = rq_state rq, rx_artifact_evidence = rr_digest report,
        rx_evidence = concat (map snd parts), rx_schema = REVIEW_CONTEXT_SCHEMA\<rparr> = Some x"
    using assms by (auto simp: review_context_of_def Let_def ebind_eq_Inr efail_on_None_eq_Inr split: if_splits)
  have acc: "rx_acceptance x = a" "rx_evidence x = sort_key re_id (concat (map snd parts))"
    "rx_artifact_evidence x = rr_digest report" "rx_state x = rq_state rq"
    using x by (auto simp: make_review_context_def Let_def split: if_splits)
  have nodes: "ra_nodes a = sort_key rn_id (map fst parts)" "distinct (map rn_id (sort_key rn_id (map fst parts)))"
    using a by (auto simp: make_review_acceptance_def Let_def split: if_splits)
  have "mset (map rn_id (sort_key rn_id (map fst parts))) = mset (map (\<lambda>p. rn_id (fst p)) parts)"
    by (simp add: multiset.map_comp comp_def)
  then have "distinct (map (\<lambda>p. rn_id (fst p)) parts)" using nodes(2) by (metis mset_eq_imp_distinct_iff)
  then show ?thesis using that parts acc nodes(1) a x by blast
qed

definition material_reviewable :: "node_material \<Rightarrow> bool" where
  "material_reviewable nm \<longleftrightarrow> material_bound nm \<and> list_all km_passed (nm_checks nm)
      \<and> xe_write (nm_expectation nm) = (''repository-write'' \<in> set (xe_effects (nm_expectation nm)))"

lemma review_context_of_complete:
  assumes x: "review_context_of rq report materials = Inr x"
    and reviewable: "\<forall>nm\<in>set materials. material_reviewable nm"
  shows "context_wf x"
    "\<And>n. n \<in> set (ra_nodes (rx_acceptance x)) \<Longrightarrow> node_complete (rx_evidence x) n
      \<and> (\<forall>c\<in>set (rn_checks n). rc_passed c \<and> \<not> identity_mismatch (rx_evidence x) n c)"
proof -
  obtain maximum parts where parts: "etraverse (material_review maximum) materials = Inr parts"
    and nodes: "ra_nodes (rx_acceptance x) = sort_key rn_id (map fst parts)"
    and dist: "distinct (map (\<lambda>p. rn_id (fst p)) parts)"
    and ev: "rx_evidence x = sort_key re_id (concat (map snd parts))"
    and made: "\<exists>x0. make_review_context x0 = Some x" "\<exists>a0. make_review_acceptance a0 = Some (rx_acceptance x)"
    by (rule review_context_of_Inr[OF x])
  note ok = reviewable[rule_format, unfolded material_reviewable_def]
  have part: "\<exists>nm\<in>set materials. material_review maximum nm = Inr p" if "p \<in> set parts" for p
    using parts that unfolding etraverse_Inr_iff by (rule list_all2_right)
  have each: "node_complete es n" "\<And>c. c \<in> set (rn_checks n) \<Longrightarrow> rc_passed c \<and> \<not> identity_mismatch es n c"
    "\<And>e. e \<in> set es \<Longrightarrow> re_node_id e = rn_id n \<and> (\<exists>e0. make_review_evidence e0 = Some e)"
    if "(n, es) \<in> set parts" for n es
    using part[OF that] material_review_Inr[of maximum _ n es] ok by blast+
  show "node_complete (rx_evidence x) n
      \<and> (\<forall>c\<in>set (rn_checks n). rc_passed c \<and> \<not> identity_mismatch (rx_evidence x) n c)"
    if n: "n \<in> set (ra_nodes (rx_acceptance x))" for n
  proof -
    obtain es where p: "(n, es) \<in> set parts" using n unfolding nodes by force
    have sel: "mset (select_evidence (rx_evidence x) k (rn_id n) c) = mset (select_evidence es k (rn_id n) c)" for k c
      unfolding ev using dist p by (rule select_node_evidence) (use each(3) in blast)
    show ?thesis unfolding selections_cong[of "rx_evidence x" n es, OF sel] using each(1,2)[OF p] by blast
  qed
  show "context_wf x"
    unfolding context_wf_def
  proof (intro conjI made ballI)
    fix n assume "n \<in> set (ra_nodes (rx_acceptance x))"
    then obtain es where p: "(n, es) \<in> set parts" unfolding nodes by force
    obtain nm where "material_review maximum nm = Inr (n, es)" using part[OF p] by blast
    then have "material_node nm = Inr n" by (auto simp: material_review_def ebind_eq_Inr)
    then show "\<exists>n0. make_review_node n0 = Some n" "list_all review_check_ok (rn_checks n)"
      by (rule material_node_Inr(6), rule material_node_Inr(5))
  next
    fix e assume "e \<in> set (rx_evidence x)"
    then obtain n es where "(n, es) \<in> set parts" "e \<in> set es" unfolding ev by auto
    then show "\<exists>e0. make_review_evidence e0 = Some e" using each(3) by blast
  qed
qed

text \<open>A context built by replay has verified materials.\<close>

lemma built_context:
  assumes "build_review_context_from_artifacts fl fromiso reader rq nodes = Inr x"
  obtains report materials where "review_context_of rq report materials = Inr x"
    "verify_run_materials fl fromiso reader (rq_run_id rq) nodes = Inr (report, materials)"
    "rr_status report = ReplayVerified" "definitions_match rq nodes materials"
    "\<forall>nm\<in>set materials. material_reviewable nm"
proof -
  obtain report materials where x: "review_context_of rq report materials = Inr x"
    and run: "verify_run_materials fl fromiso reader (rq_run_id rq) nodes = Inr (report, materials)"
    and ok: "rr_status report = ReplayVerified" and defs: "definitions_match rq nodes materials"
    using assms by (auto simp: build_review_context_from_artifacts_def ebind_eq_Inr split: if_splits)
  obtain rd where all: "list_all2 (node_verified fromiso rd (rq_run_id rq)) (required_nodes nodes) materials"
    by (rule run_verified[OF run ok])
  have "material_reviewable nm"
    if nm: "nm \<in> set materials" for nm
  proof -
    obtain y where y: "y \<in> set (required_nodes nodes)" and v: "node_verified fromiso rd (rq_run_id rq) y nm"
      using list_all2_right[OF all nm] by blast
    have "nm_expectation nm = y" using v by (simp add: node_verified_def Let_def)
    moreover have "y \<in> set nodes" using y by (simp add: required_nodes_def)
    ultimately show ?thesis using defs nm node_verified_bound[OF v]
      by (auto simp: definitions_match_def list_all_iff material_reviewable_def)
  qed
  then show ?thesis using that x run ok defs by blast
qed

end
