(* ===== verification/ReplaySample.thy ===== *)
theory ReplaySample
  imports ReplayReviewFacts
begin

text \<open>
  A stored outcome on which properties of replay are exercised: the manifest of a node that failed
  before it recorded any artifact, put into an empty artifact store.
\<close>

definition stored_manifest :: outcome_manifest where
  "stored_manifest = \<lparr>om_run_id = ''run-1'', om_node_id = ''node-1'', om_attempt = 1, om_fencing = 1,
     om_lease = ''sha256:'' @ replicate 64 CHR ''0'', om_spec = ''sha256:'' @ replicate 64 CHR ''1'',
     om_base = replicate 40 CHR ''a'', om_head = None, om_write = False, om_status = ''failed'',
     om_failure = Some ''lease-expired'', om_context = None, om_proposal = None, om_provider = None,
     om_effect = None, om_checks = [], om_schema = NODE_OUTCOME_SCHEMA\<rparr>"

definition stored_outcome :: string where
  "stored_outcome = json_bytes (JObj (node_outcome_payload stored_manifest))"

definition stored_expectation :: node_expectation where
  "stored_expectation = \<lparr>xe_id = ''node-1'', xe_objective = ''Inspect'', xe_constraints = [], xe_depends_on = [],
     xe_write = False, xe_effects = [''repository-read''], xe_allowed = [], xe_max_changed = 0, xe_checks = [],
     xe_status = ''failed'', xe_attempt = 1, xe_fencing = 1, xe_lease = Some (om_lease stored_manifest),
     xe_spec = Some (om_spec stored_manifest), xe_base = Some (om_base stored_manifest), xe_head = None,
     xe_failure = Some ''lease-expired'', xe_result = Some (node_outcome_digest stored_manifest),
     xe_provider_context = None\<rparr>"

definition stored_reader :: artifact_reader where
  "stored_reader = store_reader (snd (put_bytes None (utc 0) stored_outcome
     OUTCOME_MEDIA_TYPE (Some ''utf-8'') \<lparr>artifact_rows = [], blobs = Map.empty\<rparr>))"

lemma canonical_mapping_bytes:
  assumes "loadable (JObj p)" "norm_json (JObj p) = JObj kvs"
  shows "canonical_mapping fl site d (json_bytes (JObj p)) = Inr kvs"
proof -
  have "json_loads fl (json_bytes (JObj p)) = Inr (thaw_json (JObj kvs))"
    using json_loads_bytes[OF assms(1)] assms(2) by metis
  moreover have "json_bytes (JObj kvs) = json_bytes (JObj p)"
    unfolding json_bytes_def using dumps_norm[of "JObj p"] assms(2) by simp
  moreover have "freeze_json (thaw_json (JObj kvs)) = Inr (JObj kvs)" by (rule freeze_thaw)
  ultimately show ?thesis by (simp add: canonical_mapping_def)
qed

lemma stored_outcome_length: "length stored_outcome = 547"
  unfolding stored_outcome_def by code_simp

lemma stored_digest: "bytes_digest stored_outcome = node_outcome_digest stored_manifest"
  by (simp add: node_outcome_digest_def json_digest_def stored_outcome_def)

definition stored_reference :: artifact_ref where
  "stored_reference = \<lparr>ar_digest = bytes_digest stored_outcome, ar_size = 547, ar_media = OUTCOME_MEDIA_TYPE,
     ar_encoding = Some ''utf-8'', ar_created = utc 0\<rparr>"

lemma stored_reader_facts:
  "rd_stat stored_reader (bytes_digest stored_outcome) = Inr stored_reference"
  "rd_get stored_reader stored_reference = Inr stored_outcome"
proof -
  have put: "snd (put_bytes None (utc 0) stored_outcome OUTCOME_MEDIA_TYPE (Some ''utf-8'')
      \<lparr>artifact_rows = [], blobs = Map.empty\<rparr>)
    = \<lparr>artifact_rows = [stored_reference], blobs = [address (bytes_digest stored_outcome) \<mapsto> stored_outcome]\<rparr>"
    by (simp add: put_bytes_def Let_def find_artifact_def write_once_def relative_path_digest stored_reference_def
        stored_outcome_length OUTCOME_MEDIA_TYPE_def py_strip_def py_space_def code_def)
  show "rd_stat stored_reader (bytes_digest stored_outcome) = Inr stored_reference"
    by (simp add: stored_reader_def store_reader_def put stat_def validate_bytes_digest find_artifact_def stored_reference_def)
  show "rd_get stored_reader stored_reference = Inr stored_outcome"
    by (simp add: stored_reader_def store_reader_def put stat_def get_bytes_def validate_bytes_digest find_artifact_def
        relative_path_digest stored_outcome_length stored_reference_def)
qed

lemma stored_mapping:
  obtains kvs where "canonical_mapping fl site d stored_outcome = Inr kvs"
    "node_outcome_from_mapping kvs = Inr stored_manifest"
proof -
  let ?p = "node_outcome_payload stored_manifest"
  have load: "loadable (JObj ?p)"
    by (simp add: stored_manifest_def node_outcome_payload_def opt_str_def optional_link_payload_def nat_repr.simps
        MAX_INT_DIGITS_def)
  obtain kvs where kvs: "norm_json (JObj ?p) = JObj kvs" by simp
  have "node_outcome_from_mapping (case norm_json (JObj ?p) of JObj kvs \<Rightarrow> kvs) = Inr stored_manifest"
    by code_simp
  then have "node_outcome_from_mapping kvs = Inr stored_manifest" by (simp only: kvs json.case)
  then show ?thesis using that canonical_mapping_bytes[OF load kvs] by (simp add: stored_outcome_def)
qed

section \<open>The replay of the sample\<close>

definition stored_evidence :: artifact_evidence where
  "stored_evidence = \<lparr>ae_node = ''node-1'', ae_role = RoleOutcome, ae_check = None,
     ae_digest = bytes_digest stored_outcome, ae_size = 547, ae_media = OUTCOME_MEDIA_TYPE,
     ae_encoding = Some ''utf-8'', ae_verified = True\<rparr>"

lemma stored_verified:
  "\<exists>materials. verify_run_materials fl fromiso (Some stored_reader) ''run-1'' [stored_expectation]
    = Inr (make_report ReplayVerified [stored_evidence] [], materials)"
proof -
  let ?site = "site_of stored_expectation RoleOutcome None"
  let ?d = "node_outcome_digest stored_manifest"
  obtain kvs where kvs: "canonical_mapping fl ?site ?d stored_outcome = Inr kvs"
    "node_outcome_from_mapping kvs = Inr stored_manifest"
    by (rule stored_mapping)
  have link: "link_from_reference stored_reference = Some \<lparr>lk_digest = bytes_digest stored_outcome, lk_size = 547,
      lk_media = OUTCOME_MEDIA_TYPE, lk_encoding = Some ''utf-8''\<rparr>"
    by (simp add: link_from_reference_def stored_reference_def artifact_link_ok_def token_ok_def OUTCOME_MEDIA_TYPE_def code_def)
  let ?link = "\<lparr>lk_digest = bytes_digest stored_outcome, lk_size = 547,
      lk_media = OUTCOME_MEDIA_TYPE, lk_encoding = Some ''utf-8''\<rparr>"
  let ?done = "\<lparr>ss_artifacts = [stored_evidence], ss_bytes = [bytes_digest stored_outcome \<mapsto> stored_outcome],
      ss_counted = {bytes_digest stored_outcome}, ss_references = [bytes_digest stored_outcome \<mapsto> stored_reference],
      ss_total = 547\<rparr>"
  have reference: "ar_size stored_reference = 547" "ar_media stored_reference = OUTCOME_MEDIA_TYPE"
    "ar_encoding stored_reference = Some ''utf-8''"
    by (simp_all add: stored_reference_def)
  have read: "read_digest stored_reader ?site OUTCOME_MEDIA_TYPE (Some ''utf-8'') MAX_OUTCOME_BYTES
      (bytes_digest stored_outcome) empty_session = (Inr (stored_outcome, ?link), ?done)"
    by (simp add: read_digest_def read_link_def rbind_def rcheck_def rreturn_def link fetch_bytes_def stat_session_def
        empty_session_def stored_reader_facts reference stored_outcome_length MAX_OUTCOME_BYTES_def MAX_TOTAL_BYTES_def
        MAX_REVIEW_EVIDENCE_ITEMS_def MAX_ACCEPTANCE_STREAM_BYTES_def MAX_ARTIFACT_RELATIONSHIPS_def
        site_of_def stored_evidence_def) (simp add: stored_expectation_def)
  have matches: "manifest_matches stored_manifest stored_expectation ''run-1''"
    by (simp add: manifest_matches_def stored_manifest_def stored_expectation_def)
  have none: "om_context stored_manifest = None" "om_proposal stored_manifest = None"
    "om_provider stored_manifest = None" "om_effect stored_manifest = None" "om_checks stored_manifest = []"
    by (simp_all add: stored_manifest_def)
  have "\<exists>nm. verify_node fl fromiso stored_reader ''run-1'' stored_expectation ?d empty_session = (Inr nm, ?done)"
    unfolding verify_node_def Let_def
    by (simp add: read[unfolded stored_digest] rbind_def rlift_def kvs matches rcheck_def rreturn_def verify_optional_def none stored_digest)
  then obtain nm where "verify_required fl fromiso stored_reader ''run-1'' stored_expectation empty_session = (Inr nm, ?done)"
    by (auto simp: verify_required_def stored_expectation_def)
  then show ?thesis
    by (simp add: verify_run_materials_def required_nodes_def rbind_def rreturn_def) (simp add: stored_expectation_def)
qed

end
