(* ===== verification/ReplayProps.thy ===== *)
theory ReplayProps
  imports ReplaySample JsonSize
begin

text \<open>
  Properties of replay: what a verified report says of the store, the budgets of a replay, the bound
  on an excerpt, and that a review context built from verified artifacts leaves the verdict to the
  review alone.
\<close>

section \<open>Verified reports\<close>

text \<open>
  C3: A verified report is evidence. When replay reports the artifacts of a run as verified, the
  store holds under every reported digest bytes that hash to it, with the reported size, media type
  and encoding; every node that ended has a manifest stored under the digest its result names,
  which agrees with the plan, the lease and the run; and each context, proposal, provider result,
  effect, command, result and stream it links is stored as canonical JSON (or raw bytes for a
  stream), parses under its contract and is bound to the others.
\<close>
theorem verified_replay_sound:
  assumes "verify_run_materials fl fromiso (Some rd) run_id nodes = Inr (report, materials)"
    and "rr_status report = ReplayVerified"
  shows "(\<forall>a\<in>set (rr_artifacts report). evidence_readable rd a)
    \<and> list_all2 (node_verified fromiso rd run_id) (required_nodes nodes) materials"
proof -
  obtain s where "session_ok rd s" "rr_artifacts report = ss_artifacts s" by (rule run_report_session[OF assms(1)])
  moreover obtain rd' where "Some rd = Some rd'" "list_all2 (node_verified fromiso rd' run_id) (required_nodes nodes) materials"
    by (rule run_verified[OF assms])
  ultimately show ?thesis by (auto simp: session_ok_def)
qed


section \<open>Excerpts\<close>

lemma utf8_encode_ascii: "list_all (\<lambda>c. code c < 128) s \<Longrightarrow> utf8_encode s = s"
  by (induction s) (auto simp: utf8_encode_def utf8_char_def)

lemma utf8_pair:
  assumes "194 \<le> code b" "code b < 196" "is_continuation 0x80 0xBF c"
  shows "utf8_char (char_of ((code b - 192) * 64 + (code c - 128))) = [b, c]"
proof -
  define n where "n = (code b - 192) * 64 + (code c - 128)"
  have small: "code c - 128 < 64" "code b - 192 < 4" "2 \<le> code b - 192"
    using assms by (auto simp: is_continuation_def)
  then have n: "n < 256" "128 \<le> n" "n div 64 = code b - 192" "n mod 64 = code c - 128"
    by (auto simp: n_def)
  then have "code (char_of n) = n" by (simp add: code_def)
  then have "utf8_char (char_of n) = [char_of (192 + (code b - 192)), char_of (128 + (code c - 128))]"
    using n by (simp add: utf8_char_def)
  moreover have "192 + (code b - 192) = code b" "128 + (code c - 128) = code c"
    using assms by (auto simp: is_continuation_def)
  ultimately show ?thesis by (simp add: n_def) (simp add: code_def)
qed

lemma utf8_encode_decode: "utf8_decode b = Some t \<Longrightarrow> utf8_encode t = b"
proof (induction b arbitrary: t rule: utf8_decode.induct)
  case (2 b bs)
  show ?case
  proof (cases "code b < 128")
    case True
    then obtain u where "utf8_decode bs = Some u" "t = b # u" using 2(3) by auto
    then show ?thesis using 2(1)[OF True] True by (simp add: utf8_encode_def utf8_char_def)
  next
    case False
    then obtain c cs u where c: "bs = c # cs" "is_continuation 0x80 0xBF c" "194 \<le> code b" "code b < 196"
      and u: "utf8_decode cs = Some u" "t = char_of ((code b - 192) * 64 + (code c - 128)) # u"
      using 2(3) by (auto simp: is_continuation_def split: list.splits if_splits)
    have "utf8_encode u = cs" using 2(2)[OF False] c u by (simp add: is_continuation_def)
    then show ?thesis using utf8_pair[OF c(3,4,2)] u c(1) by (simp add: utf8_encode_def)
  qed
qed (simp add: utf8_encode_def)

lemma utf8_ignore_length: "length (utf8_encode (utf8_ignore b)) \<le> length b"
proof (induction b rule: utf8_ignore.induct)
  case (2 b bs)
  have two: "length (utf8_char c) \<le> 2" for c by (simp add: utf8_char_def)
  show ?case
  proof (cases "code b < 128")
    case True
    then show ?thesis using 2(1) by (simp add: utf8_encode_def utf8_char_def)
  next
    case False
    note ih = 2(2,3,4)[OF False]
    show ?thesis
    proof (cases "194 \<le> code b \<and> code b < 196")
      case True
      show ?thesis
      proof (cases bs)
        case (Cons c cs)
        let ?c = "char_of ((code b - 192) * 64 + (code c - 128)) :: char"
        show ?thesis using ih(1,2)[OF True Cons] two[of ?c] False True Cons
          by (cases "is_continuation 0x80 0xBF c") (simp_all add: utf8_encode_def)
      qed (use False True in \<open>simp add: utf8_encode_def\<close>)
    next
      case f: False
      then have "utf8_ignore (b # bs) = utf8_ignore bs" using False by (simp only: utf8_ignore.simps if_False)
      then show ?thesis using ih(3)[OF f] by simp
    qed
  qed
qed (simp add: utf8_encode_def)

lemma base64_length: "length (base64 s) = 4 * ((length s + 2) div 3)"
proof (induction s rule: base64.induct)
  case (1 a b c r)
  have "(5 + length r) div 3 = Suc (Suc (Suc (length r)) div 3)" by presburger
  with 1 show ?case by simp
qed simp_all

lemma base64_ascii: "list_all (\<lambda>c. code c < 128) (base64 s)"
proof -
  let ?alphabet = "''ABCDEFGHIJKLMNOPQRSTUVWXYZabcdefghijklmnopqrstuvwxyz0123456789+/''"
  have "list_all (\<lambda>c. code c < 128) ?alphabet" by (simp add: code_def)
  moreover have "length ?alphabet = 64" by simp
  ultimately have ch: "code (base64_char n) < 128" for n
    unfolding base64_char_def list_all_length by (metis mod_less_divisor zero_less_numeral)
  have "code (CHR ''='') < 128" by (simp add: code_def)
  then show ?thesis by (induction s rule: base64.induct) (simp_all add: ch)
qed

lemma marker_length: "length REVIEW_TRUNCATION_MARKER = 54"
  by (simp add: REVIEW_TRUNCATION_MARKER_def)

lemma marker_ascii: "utf8_encode REVIEW_TRUNCATION_MARKER = REVIEW_TRUNCATION_MARKER"
  by (rule utf8_encode_ascii) (simp add: REVIEW_TRUNCATION_MARKER_def code_def)

lemma base64_excerpt_length:
  "utf8_length (''base64-prefix:'' @ base64 s @ REVIEW_TRUNCATION_MARKER) = 14 + 4 * ((length s + 2) div 3) + 54"
proof -
  have "utf8_encode ''base64-prefix:'' = ''base64-prefix:''" by (rule utf8_encode_ascii) (simp add: code_def)
  then show ?thesis
    unfolding length_utf8_encode[symmetric] utf8_encode_append utf8_encode_ascii[OF base64_ascii] marker_ascii
      length_append base64_length marker_length by simp
qed

lemma excerpt_source_Inr:
  assumes "review_excerpt_source binary_allowed data = Inr src"
  shows "xs_prefix src = take MAX_REVIEW_EXCERPT_BYTES data" "xs_size src = length data"
    "\<not> xs_binary src \<Longrightarrow> \<exists>t. utf8_decode data = Some t \<and> CHR 0x00 \<notin> set t"
    "xs_binary src \<Longrightarrow> data \<noteq> []"
  using assms
  by (auto simp: review_excerpt_source_def Let_def decode_text_def split: sum.splits loads_error.splits option.splits if_splits)

text \<open>
  C29: Every excerpt fits its share of the evidence budget. For any share a review can get (4 KiB to
  32 KiB) every source has an excerpt of at most that many UTF-8 bytes: a text that fits is quoted
  whole, a longer text or a binary stream is cut with the marker, and the arithmetic guard after the
  base64 cut never fires.
\<close>
theorem excerpt_within_share:
  assumes "review_excerpt_source binary_allowed data = Inr src"
    and "4096 \<le> maximum" "maximum \<le> MAX_REVIEW_EXCERPT_BYTES"
  shows "\<exists>excerpt. bounded_review_excerpt src maximum = Inr excerpt \<and> utf8_length excerpt \<le> maximum
    \<and> (xs_binary src \<or> length data > maximum \<or> utf8_encode excerpt = data)"
proof -
  define shown where "shown = take MAX_REVIEW_EXCERPT_BYTES data"
  define binary where "binary = xs_binary src"
  note made = excerpt_source_Inr[OF assms(1), folded binary_def shown_def]
  have src: "src = \<lparr>xs_prefix = shown, xs_size = length data, xs_binary = binary\<rparr>"
    using made(1,2) by (cases src) (simp add: binary_def)
  show ?thesis
  proof (cases binary)
    case False
    show ?thesis
    proof (cases "length data \<le> maximum")
      case True
      then have "shown = data" using assms(3) by (simp add: shown_def)
      moreover obtain t where "utf8_decode data = Some t" using made(3) False by blast
      ultimately show ?thesis using False True src utf8_encode_decode
        by (auto simp: bounded_review_excerpt_def length_utf8_encode[symmetric])
    next
      case long: False
      let ?cut = "take (maximum - length REVIEW_TRUNCATION_MARKER) shown"
      have "utf8_length (utf8_ignore ?cut @ REVIEW_TRUNCATION_MARKER) \<le> maximum"
      proof -
        have "length (utf8_encode (utf8_ignore ?cut)) \<le> maximum - length REVIEW_TRUNCATION_MARKER"
          using utf8_ignore_length[of ?cut] by simp
        then show ?thesis using assms(2)
          unfolding length_utf8_encode[symmetric] utf8_encode_append marker_ascii length_append marker_length
          by linarith
      qed
      then show ?thesis using False long src assms(2)
        by (simp add: bounded_review_excerpt_def marker_length)
    qed
  next
    case True
    then have ne: "shown \<noteq> []" using made(4) by (simp add: shown_def MAX_REVIEW_EXCERPT_BYTES_def)
    let ?raw = "min (int (length shown)) ((int maximum - 68) div 4 * 3)"
    have raw: "1 \<le> ?raw" using ne assms(2) by (cases shown) auto
    have "length (take (nat ?raw) shown) = nat ?raw" by simp
    moreover have "4 * ((nat ?raw + 2) div 3) + 68 \<le> maximum"
    proof -
      have "nat ?raw \<le> (maximum - 68) div 4 * 3" using assms(2) by (simp add: nat_le_iff zdiv_int of_nat_diff)
      moreover have "(n + 2) div 3 \<le> q" if "n \<le> q * 3" for n q :: nat using that by presburger
      ultimately have "(nat ?raw + 2) div 3 \<le> (maximum - 68) div 4" by blast
      moreover have "4 * q + 68 \<le> maximum" if "q \<le> (maximum - 68) div 4" for q
        using that assms(2) by presburger
      ultimately show ?thesis by blast
    qed
    ultimately have fits: "utf8_length (''base64-prefix:'' @ base64 (take (nat ?raw) shown) @ REVIEW_TRUNCATION_MARKER) \<le> maximum"
      unfolding base64_excerpt_length by simp
    have choice: "\<exists>e. (if A \<and> utf8_length c \<le> maximum then Inr c else if r < 1 then Inl f
        else if utf8_length x > maximum then Inl f else Inr x) = Inr e \<and> utf8_length e \<le> maximum"
      if "1 \<le> r" "utf8_length x \<le> maximum" for A c x and r :: int and f :: replay_error
      using that by auto
    have eq: "bounded_base64_excerpt src maximum =
        (if length data = length shown \<and> utf8_length (''base64:'' @ base64 shown) \<le> maximum
         then Inr (''base64:'' @ base64 shown)
         else if ?raw < 1 then Inl (EvidenceError EvidenceBudgetExceeded)
         else if utf8_length (''base64-prefix:'' @ base64 (take (nat ?raw) shown) @ REVIEW_TRUNCATION_MARKER) > maximum
         then Inl (EvidenceError EvidenceBudgetExceeded)
         else Inr (''base64-prefix:'' @ base64 (take (nat ?raw) shown) @ REVIEW_TRUNCATION_MARKER))"
      by (simp add: bounded_base64_excerpt_def Let_def src marker_length)
    have "\<exists>e. bounded_base64_excerpt src maximum = Inr e \<and> utf8_length e \<le> maximum"
      unfolding eq by (rule choice[OF raw fits])
    moreover have "bounded_review_excerpt src maximum = bounded_base64_excerpt src maximum" "xs_binary src"
      using True by (simp_all add: bounded_review_excerpt_def src)
    ultimately show ?thesis by auto
  qed
qed

section \<open>Verdicts on verified runs\<close>

text \<open>The status the admitted review alone asks for.\<close>

definition review_verdict :: "admitted_review \<Rightarrow> verification_status" where
  "review_verdict r = (if ar_findings r \<noteq> [] \<or> list_ex (\<lambda>a. ea_disposition a = Concern) (ar_assessments r) then VFail
     else if list_ex (\<lambda>a. ea_disposition a = Unknown) (ar_assessments r) then VInconclusive else VPass)"

lemma built_verdict:
  assumes "build_review_context_from_artifacts fl fromiso reader rq nodes = Inr x"
    and "verify_review x r = Inr p"
  shows "vp_status p = review_verdict r"
proof -
  obtain report materials where x: "review_context_of rq report materials = Inr x"
    and ok: "\<forall>nm\<in>set materials. material_reviewable nm"
    by (rule built_context[OF assms(1)])
  note complete = review_context_of_complete(2)[OF x ok]
  have "verdict_blocked x r \<longleftrightarrow> ar_findings r \<noteq> [] \<or> list_ex (\<lambda>a. ea_disposition a = Concern) (ar_assessments r)"
    using complete unfolding verdict_blocked_def list_ex_iff by blast
  moreover have "verdict_complete x r \<longleftrightarrow> \<not> list_ex (\<lambda>a. ea_disposition a = Unknown) (ar_assessments r)"
    using complete unfolding verdict_complete_def list_ex_iff by blast
  ultimately show ?thesis using verdict_status[OF assms(2)] by (simp add: review_verdict_def)
qed


section \<open>Recorded mappings\<close>

text \<open>
  C28: Replay reads back exactly what was recorded: the canonical bytes of an object with distinct
  keys, no floats and integers within the interpreter's digit limit are read as that object with its
  keys in order, and whatever bytes are accepted are the canonical bytes of the mapping they give:
  no other spelling, key order or repeated key gets through.
\<close>
theorem recorded_mapping_exact:
  assumes "loadable (JObj p)"
  shows "(\<exists>kvs. canonical_mapping fl site d (json_bytes (JObj p)) = Inr kvs \<and> JObj kvs = norm_json (JObj p))
    \<and> (canonical_mapping fl site d data = Inr raw \<longrightarrow> data = json_bytes (JObj raw))"
proof -
  obtain kvs where "norm_json (JObj p) = JObj kvs" by simp
  then show ?thesis using canonical_mapping_bytes[OF assms] canonical_mapping_Inr by (metis (no_types))
qed

lemma long_integer_document:
  assumes ds: "list_all is_digit ds" "ds = CHR ''1'' # t" "length ds > MAX_INT_DIGITS"
  shows "json_loads fl ([CHR ''{'', CHR 0x22, CHR ''a'', CHR 0x22, CHR '':''] @ ds @ ''}'') = Inl IntegerDigitsLimit"
proof -
  let ?doc = "[CHR ''{'', CHR 0x22, CHR ''a'', CHR 0x22, CHR '':''] @ ds @ ''}''"
  have brace: "\<not> is_digit (CHR ''}'')" "is_digit (CHR ''1'')" by (simp_all add: is_digit_def code_def)
  have "takeWhile is_digit (ds @ ''}'') = ds" using ds(1) brace by (simp add: list_all_iff takeWhile_append)
  then have part: "integer_part (ds @ ''}'') = ds" using ds(2) by (simp add: integer_part_def)
  have number: "scan_number fl (ds @ ''}'') = Inl IntegerDigitsLimit"
    using part ds by (simp add: scan_number_def Let_def fraction_part_def exponent_part_def)
  have "scan_value fl (Suc n) (ds @ ''}'') = scan_number fl (ds @ ''}'')" for n
    unfolding ds(2) append_Cons by (rule scan_value_number) (use brace in \<open>simp_all add: startswith_def\<close>)
  then have inner: "scan_value fl (Suc n) (ds @ ''}'') = Inl IntegerDigitsLimit" for n using number by simp
  have space: "skip_space (ds @ ''}'') = ds @ ''}''" by (simp add: ds(2) skip_space_def json_space_def)
  have first: "skip_space (CHR ''{'' # s) = CHR ''{'' # s" for s by (simp add: skip_space_def json_space_def)
  have nested: "scan_value fl (Suc (Suc (Suc n))) ?doc = Inl IntegerDigitsLimit" for n
    using inner[of n] space by (simp add: code_def scan_value.simps(2)[of fl "Suc (Suc n)"] del: scan_value.simps(2))
  have value3: "scan_value fl m ?doc = Inl IntegerDigitsLimit" if "3 \<le> m" for m
  proof -
    obtain n where "m = 3 + n" using le_Suc_ex[OF \<open>3 \<le> m\<close>] by blast
    then have "m = Suc (Suc (Suc n))" by simp
    then show ?thesis using nested by (simp only:)
  qed
  have ascii: "code c < 128 \<Longrightarrow> utf8_char c = [c]" for c by (simp add: utf8_char_def)
  have "list_all (\<lambda>c. code c < 128) ?doc"
    using ds(1) by (auto simp: list_all_iff is_digit_def code_def)
  then have "utf8_encode ?doc = ?doc" by (rule utf8_encode_ascii)
  then have decoded: "utf8_decode ?doc = Some ?doc" using utf8_decode_encode[of ?doc] by (simp only:)
  have "map char_of [239, 187, 191 :: nat] = [CHR 0xEF, CHR 0xBB, CHR 0xBF]" by code_simp
  then have bom: "removeprefix ?doc (map char_of [239, 187, 191 :: nat]) = ?doc"
    by (simp only:) (simp add: removeprefix_def startswith_def)
  have doc: "decode_document ?doc = Inr ?doc"
    unfolding decode_document_def bom decode_text_def decoded by simp
  show ?thesis unfolding json_loads_def doc ebind_simps using value3 by (simp add: first del: scan_value.simps)
qed

text \<open>
  An integer beyond the interpreter's digit limit escapes replay: a stored JSON object with a
  number of 4301 digits is reported neither as invalid nor as non-canonical, because the
  \<open>ValueError\<close> of \<open>json.loads\<close> is not among the exceptions the reader handles.
\<close>
theorem long_integer_escapes:
  "canonical_mapping fl site d ([CHR ''{'', CHR 0x22, CHR ''a'', CHR 0x22, CHR '':''] @ replicate 4301 (CHR ''1'') @ ''}'')
   = Inl IntegerValueError"
proof -
  have "replicate 4301 (CHR ''1'') = CHR ''1'' # replicate 4300 (CHR ''1'')" by (simp flip: replicate_Suc)
  moreover have "is_digit (CHR ''1'')" "list_all is_digit (replicate n (CHR ''1''))" for n
    by (simp_all add: list_all_iff is_digit_def code_def)
  ultimately show ?thesis
    unfolding canonical_mapping_def by (subst long_integer_document) (simp_all add: MAX_INT_DIGITS_def)
qed

section \<open>Witnesses\<close>

theorem verified_replay_sound_witness:
  "\<exists>materials. verify_run_materials (\<lambda>_. NotANumber) (\<lambda>_. None) (Some stored_reader) ''run-1'' [stored_expectation]
      = Inr (make_report ReplayVerified [stored_evidence] [], materials)
    \<and> evidence_readable stored_reader stored_evidence"
proof -
  obtain materials where run: "verify_run_materials (\<lambda>_. NotANumber) (\<lambda>_. None) (Some stored_reader) ''run-1''
      [stored_expectation] = Inr (make_report ReplayVerified [stored_evidence] [], materials)"
    using stored_verified by blast
  then show ?thesis using verified_replay_sound[OF run] by simp
qed


theorem excerpt_within_share_witness:
  "\<exists>src excerpt. review_excerpt_source True ''ok'' = Inr src \<and> bounded_review_excerpt src 4096 = Inr excerpt
    \<and> utf8_length excerpt \<le> 4096"
proof -
  have src: "review_excerpt_source True ''ok'' = Inr \<lparr>xs_prefix = ''ok'', xs_size = 2, xs_binary = False\<rparr>" by code_simp
  then show ?thesis using excerpt_within_share[OF src, of 4096] by (auto simp: MAX_REVIEW_EXCERPT_BYTES_def)
qed

theorem recorded_mapping_exact_witness:
  "\<exists>kvs. canonical_mapping (\<lambda>_. NotANumber) \<lparr>si_node = ''n'', si_role = RoleOutcome, si_check = None\<rparr> ''d''
      (json_bytes (JObj [(''b'', JArr [JInt (- 10), JStr [CHR 0x22, CHR 0xE9]]), (''a'', JNull)])) = Inr kvs
    \<and> JObj kvs = JObj [(''a'', JNull), (''b'', JArr [JInt (- 10), JStr [CHR 0x22, CHR 0xE9]])]"
proof -
  have "loadable (JObj [(''b'', JArr [JInt (- 10), JStr [CHR 0x22, CHR 0xE9]]), (''a'', JNull)])"
    by (simp add: nat_repr.simps MAX_INT_DIGITS_def)
  moreover have "norm_json (JObj [(''b'', JArr [JInt (- 10), JStr [CHR 0x22, CHR 0xE9]]), (''a'', JNull)])
      = JObj [(''a'', JNull), (''b'', JArr [JInt (- 10), JStr [CHR 0x22, CHR 0xE9]])]" by code_simp
  ultimately show ?thesis
    using recorded_mapping_exact[of "[(''b'', JArr [JInt (- 10), JStr [CHR 0x22, CHR 0xE9]]), (''a'', JNull)]"] by metis
qed

end
