(* ===== verification/Quota.thy ===== *)
theory Quota
  imports Complex_Main Prelude
begin

text \<open>
  \<open>interfaces/http/quota.py\<close> and \<open>runtime/quotas.py\<close>: the sliding window of accepted requests and the
  admission over the bytes of the active storage. The clock is exact (a rational); each call has its
  own reading, taken before the lock, so the readings need not be in the order in which the calls get
  the lock. The files are a tree of what \<open>lstat\<close> reports; an entry whose metadata or children cannot
  be read raises \<open>OSError\<close>.
\<close>

section \<open>Requests\<close>

text \<open>One call of \<open>consume\<close> under the lock: the decision and the deque it leaves.\<close>

definition consume :: "nat \<Rightarrow> rat \<Rightarrow> rat list \<Rightarrow> bool \<times> rat list" where
  "consume limit now accepted =
     (let kept = dropWhile (\<lambda>t. t \<le> now - 60) accepted in
      if length kept \<ge> limit then (False, kept) else (True, kept @ [now]))"

text \<open>Calls in the order of the lock, with the times they were accepted at.\<close>

fun serve :: "nat \<Rightarrow> rat list \<Rightarrow> rat list \<Rightarrow> rat list" where
  "serve limit accepted [] = []"
| "serve limit accepted (now # calls) =
     (case consume limit now accepted of (decision, left) \<Rightarrow>
        (if decision then [now] else []) @ serve limit left calls)"

section \<open>Storage\<close>

datatype storage_error = UnsafeEntry | StorageOSError

datatype fs_entry = FsFile nat | FsDirectory "fs_entry list option" | FsLink | FsSpecial | FsUnreadable

text \<open>\<open>_regular_file_size\<close>; a missing file has no bytes.\<close>

definition regular_file_size :: "fs_entry option \<Rightarrow> storage_error + nat" where
  "regular_file_size e = (case e of None \<Rightarrow> Inr 0 | Some (FsFile n) \<Rightarrow> Inr n
     | Some FsUnreadable \<Rightarrow> Inl StorageOSError | Some _ \<Rightarrow> Inl UnsafeEntry)"

text \<open>The entries below an entry, which bound the loop of \<open>_tree_bytes\<close> over its stack (the top is the
  end of the list).\<close>

fun entry_weight :: "fs_entry \<Rightarrow> nat" where
  "entry_weight (FsDirectory (Some es)) = Suc (sum_list (map entry_weight es))"
| "entry_weight e = 1"

lemma weight_last:
  "pending \<noteq> [] \<Longrightarrow> sum_list (map entry_weight pending)
     = sum_list (map entry_weight (butlast pending)) + entry_weight (last pending)"
  by (induction pending) auto

function tree_loop :: "fs_entry list \<Rightarrow> nat \<Rightarrow> storage_error + nat" where
  "tree_loop pending n =
     (if pending = [] then Inr n
      else case last pending of
          FsLink \<Rightarrow> Inl UnsafeEntry
        | FsDirectory None \<Rightarrow> Inl StorageOSError
        | FsDirectory (Some es) \<Rightarrow> tree_loop (butlast pending @ es) n
        | FsFile k \<Rightarrow> tree_loop (butlast pending) (n + k)
        | FsSpecial \<Rightarrow> Inl UnsafeEntry
        | FsUnreadable \<Rightarrow> Inl StorageOSError)"
  by pat_completeness auto

termination
proof (relation "measure (\<lambda>(pending, _). sum_list (map entry_weight pending))", goal_cases)
  case (2 pending n es)
  then show ?case using weight_last[of pending] by simp
next
  case (3 pending n k)
  then show ?case using weight_last[of pending] by simp
qed simp

declare tree_loop.simps [simp del]

definition tree_bytes :: "fs_entry option \<Rightarrow> storage_error + nat" where
  "tree_bytes base = (case base of None \<Rightarrow> Inr 0
     | Some (FsDirectory (Some entries)) \<Rightarrow> tree_loop entries 0
     | Some (FsDirectory None) \<Rightarrow> Inl StorageOSError
     | Some FsUnreadable \<Rightarrow> Inl StorageOSError
     | Some _ \<Rightarrow> Inl UnsafeEntry)"

record storage_paths =
  sp_database :: "fs_entry option"
  sp_wal :: "fs_entry option"
  sp_shm :: "fs_entry option"
  sp_artifacts :: "fs_entry option"

text \<open>\<open>RuntimeStorageQuota.__init__\<close>, \<open>active_bytes\<close> and \<open>has_mutation_capacity\<close>.\<close>

definition storage_quota_ok :: "int \<Rightarrow> int \<Rightarrow> bool" where
  "storage_quota_ok maximum reserve \<longleftrightarrow> \<not> maximum < 1 \<and> 0 < reserve \<and> reserve < maximum"

definition active_bytes :: "storage_paths \<Rightarrow> storage_error + nat" where
  "active_bytes p =
     ebind (regular_file_size (sp_database p)) (\<lambda>a.
     ebind (regular_file_size (sp_wal p)) (\<lambda>b.
     ebind (regular_file_size (sp_shm p)) (\<lambda>c.
     ebind (tree_bytes (sp_artifacts p)) (\<lambda>d. Inr (a + b + c + d)))))"

definition has_mutation_capacity :: "int \<Rightarrow> int \<Rightarrow> storage_paths \<Rightarrow> bool" where
  "has_mutation_capacity maximum reserve p = (case active_bytes p of
     Inl e \<Rightarrow> False | Inr n \<Rightarrow> int n + reserve \<le> maximum)"

end
