(* ===== verification/QuotaProps.thy ===== *)
theory QuotaProps
  imports Quota
begin

text \<open>
  Properties of the quotas: on a clock read in order the deque decides as a count over the whole record
  of accepted requests would, out of order it can admit more than the limit, and the admission over
  the active storage is closed on every entry it cannot account for.
\<close>

section \<open>The sliding window\<close>

text \<open>The reference: every accepted time is remembered, and a call is accepted when fewer than
  \<open>limit\<close> of them lie in the sixty seconds up to it.\<close>

definition in_window :: "rat list \<Rightarrow> rat \<Rightarrow> nat" where
  "in_window seen t = length (filter (\<lambda>a. t - 60 < a \<and> a \<le> t) seen)"

fun serve_reference :: "nat \<Rightarrow> rat list \<Rightarrow> rat list \<Rightarrow> rat list" where
  "serve_reference limit seen [] = []"
| "serve_reference limit seen (now # calls) =
     (if in_window seen now < limit then now # serve_reference limit (seen @ [now]) calls
      else serve_reference limit seen calls)"

text \<open>The deque is the part of the seen after the last cutoff.\<close>

definition deque_ok :: "rat list \<Rightarrow> rat list \<Rightarrow> rat \<Rightarrow> bool" where
  "deque_ok accepted seen now \<longleftrightarrow> sorted seen \<and> (\<forall>a\<in>set seen. a \<le> now)
     \<and> (\<exists>c\<le>now. accepted = filter (\<lambda>a. c - 60 < a) seen)"

lemma dropWhile_sorted:
  "sorted xs \<Longrightarrow> dropWhile (\<lambda>t. t \<le> c) xs = filter (\<lambda>a. c < a) xs" for c :: rat
proof (induction xs)
  case (Cons x xs)
  show ?case
  proof (cases "x \<le> c")
    case False
    then have "filter (\<lambda>a. c < a) xs = xs" using Cons.prems by (auto simp: filter_id_conv)
    then show ?thesis using False by simp
  qed (use Cons in simp)
qed simp

lemma consume_log:
  assumes ok: "deque_ok accepted seen t" and "t \<le> now"
  shows "consume limit now accepted =
      (if in_window seen now < limit then (True, filter (\<lambda>a. now - 60 < a) seen @ [now])
       else (False, filter (\<lambda>a. now - 60 < a) seen))"
    "deque_ok (filter (\<lambda>a. now - 60 < a) seen) seen now"
    "deque_ok (filter (\<lambda>a. now - 60 < a) seen @ [now]) (seen @ [now]) now"
proof -
  obtain c where c: "c \<le> t" "accepted = filter (\<lambda>a. c - 60 < a) seen" and seen: "sorted seen" "\<forall>a\<in>set seen. a \<le> t"
    using ok by (auto simp: deque_ok_def)
  have "sorted accepted" using seen(1) unfolding c(2) by (rule sorted_wrt_filter)
  then have "dropWhile (\<lambda>t. t \<le> now - 60) accepted = filter (\<lambda>a. now - 60 < a) accepted" by (rule dropWhile_sorted)
  also have "\<dots> = filter (\<lambda>a. now - 60 < a) seen"
    unfolding c(2) filter_filter by (rule filter_cong) (use c(1) assms(2) in auto)
  finally have kept: "dropWhile (\<lambda>t. t \<le> now - 60) accepted = filter (\<lambda>a. now - 60 < a) seen" .
  have "filter (\<lambda>a. now - 60 < a \<and> a \<le> now) seen = filter (\<lambda>a. now - 60 < a) seen"
    by (rule filter_cong) (use seen(2) assms(2) in auto)
  then have count: "in_window seen now = length (filter (\<lambda>a. now - 60 < a) seen)" by (simp add: in_window_def)
  show "consume limit now accepted =
      (if in_window seen now < limit then (True, filter (\<lambda>a. now - 60 < a) seen @ [now])
       else (False, filter (\<lambda>a. now - 60 < a) seen))"
    by (simp add: consume_def Let_def kept count)
  show "deque_ok (filter (\<lambda>a. now - 60 < a) seen) seen now"
    using seen assms(2) by (auto simp: deque_ok_def)
  have "\<exists>c\<le>now. filter (\<lambda>a. now - 60 < a) seen @ [now] = filter (\<lambda>a. c - 60 < a) (seen @ [now])"
    by (rule exI[of _ now]) simp
  then show "deque_ok (filter (\<lambda>a. now - 60 < a) seen @ [now]) (seen @ [now]) now"
    using seen assms(2) by (auto simp: deque_ok_def sorted_append)
qed

lemma serve_log:
  assumes "deque_ok accepted seen t" "sorted (t # calls)"
  shows "serve limit accepted calls = serve_reference limit seen calls"
  using assms
proof (induction calls arbitrary: accepted seen t)
  case (Cons now calls)
  have le: "t \<le> now" and sorted: "sorted (now # calls)" using Cons.prems(2) by auto
  note step = consume_log[OF Cons.prems(1) le]
  show ?case
    using Cons.IH[OF step(2) sorted] Cons.IH[OF step(3) sorted] by (simp add: step(1))
qed simp

lemma reference_window:
  assumes "sorted seen" "\<forall>a\<in>set seen. \<forall>b\<in>set calls. a \<le> b" "sorted calls" "\<And>t. in_window seen t \<le> limit"
  shows "in_window (seen @ serve_reference limit seen calls) t \<le> limit"
  using assms
proof (induction calls arbitrary: seen)
  case (Cons now calls)
  show ?case
  proof (cases "in_window seen now < limit")
    case True
    have "in_window (seen @ [now]) u \<le> limit" for u
    proof (cases "u - 60 < now \<and> now \<le> u")
      case inside: True
      have "filter (\<lambda>a. u - 60 < a \<and> a \<le> u) seen = filter (\<lambda>a. u - 60 < a \<and> a \<le> now) seen"
        by (rule filter_cong) (use Cons.prems(2) inside in auto)
      moreover have "length (filter (\<lambda>a. u - 60 < a \<and> a \<le> now) seen) \<le> in_window seen now"
        unfolding in_window_def using inside by (induction seen) auto
      ultimately show ?thesis using True inside by (simp add: in_window_def)
    next
      case False
      then show ?thesis using Cons.prems(4)[of u] by (auto simp: in_window_def)
    qed
    moreover have "sorted (seen @ [now])" using Cons.prems(1,2) by (simp add: sorted_append)
    ultimately have "in_window ((seen @ [now]) @ serve_reference limit (seen @ [now]) calls) t \<le> limit"
      using Cons.prems(2,3) by (intro Cons.IH) auto
    then show ?thesis using True by simp
  next
    case False
    then show ?thesis using Cons by simp
  qed
qed simp

text \<open>
  C26: On a clock whose readings are in the order of the lock the request quota is exact: the deque
  accepts the calls a count over the whole record would accept, and never more than the limit in any
  sixty seconds.
\<close>
theorem request_quota_exact:
  assumes "sorted calls"
  shows "serve limit [] calls = serve_reference limit [] calls
    \<and> (\<forall>t. in_window (serve limit [] calls) t \<le> limit)"
proof -
  have "serve limit [] calls = serve_reference limit [] calls"
  proof (cases calls)
    case (Cons t rest)
    have "deque_ok [] [] t" by (auto simp: deque_ok_def)
    then show ?thesis using assms Cons by (intro serve_log[of _ _ t]) auto
  qed simp
  moreover have "in_window ([] @ serve_reference limit [] calls) t \<le> limit" for t
    using assms by (intro reference_window) (auto simp: in_window_def)
  ultimately show ?thesis by simp
qed

text \<open>
  The lock does not order the readings of the clock. A call that read the clock before another
  but gets the lock after it can be accepted beyond the limit: with a limit of two, calls at 0,
  1/10, 605/10 and 599/10 are all accepted, three of them within sixty seconds.
\<close>
theorem request_quota_race:
  "serve 2 [] [0, 1 / 10, 605 / 10, 599 / 10] = [0, 1 / 10, 605 / 10, 599 / 10]
   \<and> in_window (serve 2 [] [0, 1 / 10, 605 / 10, 599 / 10]) (599 / 10) = 3"
  by (simp add: consume_def in_window_def)

section \<open>The active storage\<close>

text \<open>The reference: the bytes of an entry, by recursion over the tree.\<close>

fun entry_bytes :: "fs_entry \<Rightarrow> nat option" where
  "entry_bytes (FsFile n) = Some n"
| "entry_bytes (FsDirectory (Some es)) = map_option sum_list (traverse entry_bytes es)"
| "entry_bytes e = None"

definition path_bytes :: "fs_entry option \<Rightarrow> nat option" where
  "path_bytes e = (case e of None \<Rightarrow> Some 0 | Some (FsFile n) \<Rightarrow> Some n | _ \<Rightarrow> None)"

definition root_bytes :: "fs_entry option \<Rightarrow> nat option" where
  "root_bytes e = (case e of None \<Rightarrow> Some 0 | Some (FsDirectory es) \<Rightarrow> entry_bytes (FsDirectory es) | _ \<Rightarrow> None)"

definition all_bytes :: "fs_entry list \<Rightarrow> nat option" where
  "all_bytes es = map_option sum_list (traverse entry_bytes es)"

definition as_option :: "storage_error + nat \<Rightarrow> nat option" where
  "as_option r = (case r of Inl e \<Rightarrow> None | Inr n \<Rightarrow> Some n)"

lemma all_bytes_simps:
  "all_bytes [] = Some 0"
  "all_bytes (e # es) = do { a \<leftarrow> entry_bytes e; b \<leftarrow> all_bytes es; Some (a + b) }"
  "entry_bytes (FsDirectory (Some es)) = all_bytes es"
  by (auto simp: all_bytes_def split: bind_splits)

lemma all_bytes_append:
  "all_bytes (xs @ ys) = do { a \<leftarrow> all_bytes xs; b \<leftarrow> all_bytes ys; Some (a + b) }"
  by (induction xs) (auto simp: all_bytes_simps split: bind_splits)

lemma tree_loop_bytes: "as_option (tree_loop pending n) = map_option ((+) n) (all_bytes pending)"
proof (induction pending n rule: tree_loop.induct)
  case (1 pending n)
  show ?case
  proof (cases "pending = []")
    case True
    then show ?thesis by (simp add: tree_loop.simps as_option_def all_bytes_simps)
  next
    case False
    have parts: "all_bytes pending = do { a \<leftarrow> all_bytes (butlast pending); b \<leftarrow> entry_bytes (last pending); Some (a + b) }"
      using all_bytes_append[of "butlast pending" "[last pending]"] False by (simp add: all_bytes_simps)
    show ?thesis
    proof (cases "last pending")
      case (FsFile k)
      then show ?thesis using 1(1)[OF False FsFile] False
        by (simp add: tree_loop.simps[of pending] parts ac_simps split: bind_splits)
    next
      case (FsDirectory es)
      then show ?thesis
      proof (cases es)
        case (Some xs)
        then show ?thesis using 1(2)[OF False FsDirectory Some] FsDirectory False
          by (simp add: tree_loop.simps[of pending] parts all_bytes_append all_bytes_simps del: entry_bytes.simps)
      qed (use False in \<open>auto simp: tree_loop.simps[of pending] parts as_option_def split: bind_splits\<close>)
    qed (use False in \<open>auto simp: tree_loop.simps[of pending] parts as_option_def split: bind_splits\<close>)
  qed
qed

text \<open>
  C27: Admission to the active storage fails closed: a mutation is admitted exactly when the database,
  its two side files and every entry below the artifact root are plain files or directories that can
  be read and their bytes with the reserve stay within the maximum; one link, special or unreadable
  entry at any depth refuses it. The loop over the stack visits every entry once.
\<close>
theorem storage_quota_closed:
  "has_mutation_capacity maximum reserve p \<longleftrightarrow>
     (\<exists>a b c d. path_bytes (sp_database p) = Some a \<and> path_bytes (sp_wal p) = Some b \<and> path_bytes (sp_shm p) = Some c
       \<and> root_bytes (sp_artifacts p) = Some d \<and> int (a + b + c + d) + reserve \<le> maximum)"
proof -
  have sizes: "as_option (regular_file_size e) = path_bytes e" for e
    by (simp add: as_option_def regular_file_size_def path_bytes_def split: option.splits fs_entry.splits)
  have tree: "as_option (tree_bytes e) = root_bytes e" for e
  proof -
    have "as_option (tree_loop es 0) = all_bytes es" for es using tree_loop_bytes[of es 0] by (cases "all_bytes es") simp_all
    then show ?thesis
      by (auto simp: tree_bytes_def root_bytes_def all_bytes_simps simp del: entry_bytes.simps(2)
          split: option.splits fs_entry.splits) (simp_all add: as_option_def)
  qed
  have some: "as_option r = Some n \<longleftrightarrow> r = Inr n" for r n by (cases r) (simp_all add: as_option_def)
  show ?thesis
    unfolding sizes[symmetric] tree[symmetric] some
    by (auto simp: has_mutation_capacity_def active_bytes_def ebind_eq_Inr split: sum.splits)
qed

theorem request_quota_exact_witness:
  "serve 2 [] [0, 1, 2, 61] = serve_reference 2 [] [0, 1, 2, 61] \<and> in_window (serve 2 [] [0, 1, 2, 61]) 61 \<le> 2"
proof -
  have "sorted [0, 1, 2, 61 :: rat]" by simp
  from request_quota_exact[OF this, of 2] show ?thesis by blast
qed

end
