(* ===== verification/VerificationReplay.thy ===== *)
theory VerificationReplay
  imports Replay ReviewLifecycle VerificationLifecycle Verify Store
begin

text \<open>
  \<open>orchestration/verification_replay.py\<close>: the read-only replay of a verification. It folds the
  recorded stream, compares the lease with the run and review events it names, reads the recorded
  report and binds it to the lease. The readers of events and artifacts are records of their methods;
  an \<open>OSError\<close> of a reader counts as a \<open>RuntimeError\<close>, with which every handler names it. The left of
  a result is an exception no handler names.
\<close>

section \<open>Reports\<close>

datatype replay_lifecycle = LifecycleNotStarted | LifecycleClaimed | LifecycleRequeued
  | LifecycleCompleted | LifecycleVerifierError

fun replay_lifecycle_value :: "replay_lifecycle \<Rightarrow> string" where
  "replay_lifecycle_value LifecycleNotStarted = ''not-started''"
| "replay_lifecycle_value LifecycleClaimed = ''claimed''"
| "replay_lifecycle_value LifecycleRequeued = ''requeued''"
| "replay_lifecycle_value LifecycleCompleted = ''completed''"
| "replay_lifecycle_value LifecycleVerifierError = ''verifier-error''"

datatype report_finding = EventStoreUnavailable | LifecycleInvalid | SourceBindingMismatch
  | ArtifactStoreUnavailable | ReportMissing | ReportIntegrityFailed | ReportMetadataMismatch
  | ReportReadUnavailable | ReportJsonInvalid | ReportNoncanonical | ReportInvalid | ReportBindingMismatch

fun report_finding_value :: "report_finding \<Rightarrow> string" where
  "report_finding_value EventStoreUnavailable = ''verification-replay-event-store-unavailable''"
| "report_finding_value LifecycleInvalid = ''verification-replay-lifecycle-invalid''"
| "report_finding_value SourceBindingMismatch = ''verification-replay-source-binding-mismatch''"
| "report_finding_value ArtifactStoreUnavailable = ''verification-replay-artifact-store-unavailable''"
| "report_finding_value ReportMissing = ''verification-replay-report-missing''"
| "report_finding_value ReportIntegrityFailed = ''verification-replay-report-integrity-failed''"
| "report_finding_value ReportMetadataMismatch = ''verification-replay-report-metadata-mismatch''"
| "report_finding_value ReportReadUnavailable = ''verification-replay-report-read-unavailable''"
| "report_finding_value ReportJsonInvalid = ''verification-replay-report-json-invalid''"
| "report_finding_value ReportNoncanonical = ''verification-replay-report-noncanonical''"
| "report_finding_value ReportInvalid = ''verification-replay-report-invalid''"
| "report_finding_value ReportBindingMismatch = ''verification-replay-report-binding-mismatch''"

record event_reader =
  er_stream :: "string \<Rightarrow> kernel_error + event list"
  er_get :: "string \<Rightarrow> kernel_error + event option"

definition ledger_reader :: "database \<Rightarrow> event_reader" where
  "ledger_reader db = \<lparr>er_stream = (\<lambda>s. read_stream db s 0 None None), er_get = get_event db\<rparr>"

record verification_replay =
  vy_run_id :: string
  vy_lifecycle :: replay_lifecycle
  vy_verification_id :: "string option"
  vy_review_id :: "string option"
  vy_attempt :: "int option"
  vy_fence :: "int option"
  vy_verdict :: "verification_status option"
  vy_failure :: "string option"
  vy_report :: "string option"
  vy_size :: "int option"
  vy_media :: "string option"
  vy_encoding :: "string option"
  vy_matrix :: "string option"
  vy_integrity :: replay_status
  vy_finding :: "report_finding option"
  vy_processed :: nat
  vy_digest :: string

definition verification_replay_payload :: "verification_replay \<Rightarrow> jobject" where
  "verification_replay_payload r =
     [(''run_id'', JStr (vy_run_id r)), (''lifecycle_status'', JStr (replay_lifecycle_value (vy_lifecycle r))),
      (''verification_id'', opt_str (vy_verification_id r)), (''review_id'', opt_str (vy_review_id r)),
      (''attempt'', opt_int (vy_attempt r)), (''fencing_token'', opt_int (vy_fence r)),
      (''verdict'', opt_str (map_option verification_status_value (vy_verdict r))),
      (''failure_code'', opt_str (vy_failure r)), (''report_artifact_digest'', opt_str (vy_report r)),
      (''report_size_bytes'', opt_int (vy_size r)), (''report_media_type'', opt_str (vy_media r)),
      (''report_encoding'', opt_str (vy_encoding r)), (''matrix_digest'', opt_str (vy_matrix r)),
      (''artifact_integrity'', JStr (replay_status_value (vy_integrity r))),
      (''finding_code'', opt_str (map_option report_finding_value (vy_finding r))),
      (''processed_events'', JInt (int (vy_processed r)))]"

text \<open>\<open>_result\<close>: the report and the digest of its fields.\<close>

definition replay_outcome :: "string \<Rightarrow> replay_lifecycle \<Rightarrow> verification_lifecycle option \<Rightarrow> replay_status
    \<Rightarrow> report_finding option \<Rightarrow> string option \<Rightarrow> artifact_ref option \<Rightarrow> string option \<Rightarrow> nat \<Rightarrow> verification_replay" where
  "replay_outcome run_id lifecycle state integrity finding report reference matrix processed =
     (let r = \<lparr>vy_run_id = run_id, vy_lifecycle = lifecycle,
        vy_verification_id = map_option vs_verification_id state,
        vy_review_id = map_option (\<lambda>s. vl_review_id (vs_lease s)) state,
        vy_attempt = map_option (\<lambda>s. vl_attempt (vs_lease s)) state,
        vy_fence = map_option (\<lambda>s. vl_fence (vs_lease s)) state,
        vy_verdict = Option.bind state (\<lambda>s. vf_verdict (vs_fold s)),
        vy_failure = Option.bind state (\<lambda>s. vf_failure (vs_fold s)),
        vy_report = report, vy_size = map_option ar_size reference, vy_media = map_option ar_media reference,
        vy_encoding = Option.bind reference ar_encoding, vy_matrix = matrix, vy_integrity = integrity,
        vy_finding = finding, vy_processed = processed, vy_digest = []\<rparr>
      in r\<lparr>vy_digest := json_digest (JObj (verification_replay_payload r))\<rparr>)"

fun lifecycle_of :: "verification_lifecycle_status \<Rightarrow> replay_lifecycle" where
  "lifecycle_of VerificationClaimed = LifecycleClaimed"
| "lifecycle_of VerificationRequeued = LifecycleRequeued"
| "lifecycle_of VerificationCompleted = LifecycleCompleted"
| "lifecycle_of VerificationFailed = LifecycleVerifierError"

definition state_outcome :: "verification_lifecycle \<Rightarrow> replay_status \<Rightarrow> report_finding option \<Rightarrow> string option
    \<Rightarrow> artifact_ref option \<Rightarrow> string option \<Rightarrow> nat \<Rightarrow> verification_replay" where
  "state_outcome state integrity finding report reference matrix processed =
     replay_outcome (vs_run_id state) (lifecycle_of (vs_status state)) (Some state) integrity finding
       report reference matrix processed"

definition empty_failure :: "string \<Rightarrow> replay_status \<Rightarrow> report_finding \<Rightarrow> nat \<Rightarrow> verification_replay" where
  "empty_failure run_id status finding processed =
     replay_outcome run_id LifecycleNotStarted None status (Some finding) None None None processed"

definition artifact_failure :: "verification_lifecycle \<Rightarrow> string \<Rightarrow> report_finding \<Rightarrow> nat \<Rightarrow> artifact_ref option
    \<Rightarrow> replay_status \<Rightarrow> verification_replay" where
  "artifact_failure state report finding processed reference status =
     state_outcome state status (Some finding) (Some report) reference (vf_matrix (vs_fold state)) processed"

section \<open>Sources\<close>

datatype replay_escape = StoreEscape kernel_error | LifecycleEscape | JsonEscape | OutsideModel

definition RUN_SUCCEEDED :: string where "RUN_SUCCEEDED = ''run.succeeded''"
definition REVIEW_SUCCEEDED :: string where "REVIEW_SUCCEEDED = ''review.succeeded''"

definition run_event_matches :: "verification_lease \<Rightarrow> string \<Rightarrow> event \<Rightarrow> bool" where
  "run_event_matches l correlation e \<longleftrightarrow> stream_id e = ''run:'' @ vl_run_id l \<and> event_type e = RUN_SUCCEEDED
     \<and> source e = RUNTIME_EVENT_SOURCE \<and> correlation_id e = correlation
     \<and> payload_hash e = vl_run_event_digest l \<and> jget (payload e) ''run_id'' = JStr (vl_run_id l)
     \<and> jget (payload e) ''status'' = JStr ''succeeded''"

definition review_event_matches :: "verification_lease \<Rightarrow> string \<Rightarrow> event \<Rightarrow> bool" where
  "review_event_matches l correlation e \<longleftrightarrow> Some (stream_id e) = review_stream (vl_run_id l)
     \<and> event_type e = REVIEW_SUCCEEDED \<and> source e = RUNTIME_EVENT_SOURCE
     \<and> correlation_id e = correlation \<and> payload_hash e = vl_review_event_digest l"

definition review_lease_matches :: "review_lease \<Rightarrow> verification_lease \<Rightarrow> bool" where
  "review_lease_matches w l \<longleftrightarrow> rvl_run_event_id w = vl_run_event_id l
     \<and> rvl_run_event_digest w = vl_run_event_digest l \<and> rvl_state_digest w = vl_state_digest l
     \<and> rvl_artifact_evidence_digest w = vl_artifact_evidence_digest l"

definition review_matches :: "verification_lease \<Rightarrow> event \<Rightarrow> review_lifecycle \<Rightarrow> bool" where
  "review_matches l e w \<longleftrightarrow> rs_status w = ReviewSucceeded \<and> event_id (rs_latest w) = event_id e
     \<and> review_lease_matches (rs_lease w) l \<and> rs_review_id w = vl_review_id l
     \<and> rv_acceptance (rs_fold w) = Some (vl_acceptance_digest l)
     \<and> rv_context (rs_fold w) = Some (vl_context_digest l)
     \<and> rv_proposal (rs_fold w) = Some (vl_proposal_artifact_digest l)
     \<and> rv_result (rs_fold w) = Some (vl_provider_result_artifact_digest l)
     \<and> rv_admitted (rs_fold w) = Some (vl_admitted_review_digest l)
     \<and> rv_findings (rs_fold w) = Some (vl_finding_count l)"

text \<open>A read of \<open>_source_events_match\<close>: \<open>None\<close> when its exception means no match.\<close>

definition source_read :: "kernel_error + 'a \<Rightarrow> replay_escape + 'a option" where
  "source_read m = (case m of Inr x \<Rightarrow> Inr (Some x) | Inl EventIntegrityError \<Rightarrow> Inr None
     | Inl (RuntimeError s) \<Rightarrow> Inr None | Inl e \<Rightarrow> Inl (StoreEscape e))"

definition obind :: "replay_escape + 'a option \<Rightarrow> ('a \<Rightarrow> replay_escape + bool) \<Rightarrow> replay_escape + bool" where
  "obind m f = ebind m (\<lambda>v. case v of None \<Rightarrow> Inr False | Some x \<Rightarrow> f x)"

definition source_events_match :: "(string \<Rightarrow> datetime option) \<Rightarrow> event_reader \<Rightarrow> verification_lifecycle
    \<Rightarrow> replay_escape + bool" where
  "source_events_match fromiso er state =
     (let l = vs_lease state; correlation = correlation_id (vs_latest state) in
      obind (source_read (er_get er (vl_run_event_id l))) (\<lambda>execution.
      obind (source_read (er_get er (vl_review_event_id l))) (\<lambda>review.
      obind (Inr (review_stream (vl_run_id l))) (\<lambda>stream.
      obind (source_read (er_stream er stream)) (\<lambda>events.
      obind (Inr (fold_review_lifecycle fromiso (vl_run_id l) events)) (\<lambda>w.
      Inr (case (execution, review) of
          (Some x, Some e) \<Rightarrow> run_event_matches l correlation x \<and> review_event_matches l correlation e
            \<and> review_matches l e w
        | _ \<Rightarrow> False)))))))"

section \<open>The report\<close>

definition VERIFICATION_REPORT_MEDIA_TYPE :: string where
  "VERIFICATION_REPORT_MEDIA_TYPE = ''application/vnd.blackcell.verification-report+json''"

definition report_reference_ok :: "string \<Rightarrow> artifact_ref \<Rightarrow> bool" where
  "report_reference_ok digest r \<longleftrightarrow> \<not> (ar_digest r \<noteq> digest \<or> ar_media r \<noteq> VERIFICATION_REPORT_MEDIA_TYPE
     \<or> ar_encoding r \<noteq> Some ''utf-8'' \<or> \<not> (1 \<le> ar_size r \<and> ar_size r \<le> 4 * 1024 * 1024))"

text \<open>The exceptions of the artifact reader; \<open>ValueError\<close> and \<open>TypeError\<close> are not named.\<close>

definition read_failure :: "kernel_error \<Rightarrow> (report_finding \<times> replay_status) option" where
  "read_failure e = (case e of ArtifactNotFoundError \<Rightarrow> Some (ReportMissing, ReplayFailed)
     | ArtifactIntegrityError \<Rightarrow> Some (ReportIntegrityFailed, ReplayFailed)
     | ValueError s \<Rightarrow> None | TypeError s \<Rightarrow> None
     | _ \<Rightarrow> Some (ReportReadUnavailable, ReplayInconclusive))"

datatype report_problem = ReportFinding report_finding | ReportEscape replay_escape

text \<open>\<open>json.loads\<close> of the decoded text; a byte order mark is refused in a text.\<close>

definition json_loads_text :: "(string \<Rightarrow> pyfloat) \<Rightarrow> string \<Rightarrow> loads_error + pyval" where
  "json_loads_text fl data =
     (if startswith data (map char_of [239, 187, 191 :: nat]) then Inl JsonDecodeError else json_loads fl data)"

definition load_report :: "(string \<Rightarrow> pyfloat) \<Rightarrow> string \<Rightarrow> report_problem + verification_report" where
  "load_report fl data =
     (case json_loads_text fl data of
        Inl JsonDecodeError \<Rightarrow> Inl (ReportFinding ReportJsonInvalid)
      | Inl IntegerDigitsLimit \<Rightarrow> Inl (ReportEscape JsonEscape)
      | Inl WideText \<Rightarrow> Inl (ReportEscape OutsideModel)
      | Inr v \<Rightarrow>
          (case v of PyDict _ \<Rightarrow>
             (case freeze_json v of
                Inr (JObj raw) \<Rightarrow>
                  if json_bytes (JObj raw) \<noteq> data then Inl (ReportFinding ReportNoncanonical)
                  else efail_on_None (ReportFinding ReportInvalid) (verification_report_from_mapping raw)
              | _ \<Rightarrow> Inl (ReportEscape JsonEscape))
           | _ \<Rightarrow> Inl (ReportFinding ReportJsonInvalid)))"

definition report_matches_state :: "verification_report \<Rightarrow> verification_lifecycle \<Rightarrow> string \<Rightarrow> bool" where
  "report_matches_state p state digest =
     (let l = vs_lease state;
          bindings = (verification_report_digest p = digest \<and> vp_run_id p = vl_run_id l
            \<and> vp_context p = vl_context_digest l \<and> vp_acceptance p = vl_acceptance_digest l
            \<and> vp_state p = vl_state_digest l \<and> vp_artifact_evidence p = vl_artifact_evidence_digest l
            \<and> vp_admitted p = vl_admitted_review_digest l)
      in if vs_status state = VerificationCompleted
         then bindings \<and> Some (vp_status p) = vf_verdict (vs_fold state)
           \<and> Some (verification_matrix_digest p) = vf_matrix (vs_fold state)
         else bindings \<and> vs_status state = VerificationFailed)"

definition replay_report_artifact :: "(string \<Rightarrow> pyfloat) \<Rightarrow> artifact_reader \<Rightarrow> verification_lifecycle
    \<Rightarrow> string \<Rightarrow> nat \<Rightarrow> replay_escape + verification_replay" where
  "replay_report_artifact fl rd state digest processed =
     (let unread = (\<lambda>e reference. case read_failure e of
            None \<Rightarrow> Inl (StoreEscape e)
          | Some (finding, status) \<Rightarrow> Inr (artifact_failure state digest finding processed reference status));
          failed = (\<lambda>finding reference. Inr (artifact_failure state digest finding processed (Some reference) ReplayFailed))
      in case rd_stat rd digest of
           Inl e \<Rightarrow> unread e None
         | Inr reference \<Rightarrow>
             if \<not> report_reference_ok digest reference then failed ReportMetadataMismatch reference
             else case rd_get rd reference of
                 Inl e \<Rightarrow> unread e (Some reference)
               | Inr data \<Rightarrow>
                   (case load_report fl data of
                      Inl (ReportFinding finding) \<Rightarrow> failed finding reference
                    | Inl (ReportEscape e) \<Rightarrow> Inl e
                    | Inr p \<Rightarrow>
                        if \<not> report_matches_state p state digest then failed ReportBindingMismatch reference
                        else Inr (state_outcome state ReplayVerified None (Some digest) (Some reference)
                          (Some (verification_matrix_digest p)) processed)))"

section \<open>The replay\<close>

definition recorded_report :: "verification_lifecycle \<Rightarrow> string option" where
  "recorded_report state = (if vs_status state = VerificationCompleted then vf_report (vs_fold state)
     else vf_result (vs_fold state))"

text \<open>\<open>replay_verification\<close> after the stream was folded.\<close>

definition replay_state :: "(string \<Rightarrow> pyfloat) \<Rightarrow> (string \<Rightarrow> datetime option) \<Rightarrow> event_reader
    \<Rightarrow> artifact_reader option \<Rightarrow> verification_lifecycle \<Rightarrow> nat \<Rightarrow> replay_escape + verification_replay" where
  "replay_state fl fromiso er reader state processed =
     ebind (source_events_match fromiso er state) (\<lambda>matching.
     let matrix = vf_matrix (vs_fold state) in
     if \<not> matching
     then Inr (state_outcome state ReplayFailed (Some SourceBindingMismatch)
       (case vf_report (vs_fold state) of None \<Rightarrow> vf_result (vs_fold state) | Some d \<Rightarrow> Some d) None matrix processed)
     else case recorded_report state of
         None \<Rightarrow> Inr (state_outcome state ReplayNotApplicable None None None matrix processed)
       | Some digest \<Rightarrow> (case reader of
             None \<Rightarrow> Inr (state_outcome state ReplayInconclusive (Some ArtifactStoreUnavailable) (Some digest)
               None matrix processed)
           | Some rd \<Rightarrow> replay_report_artifact fl rd state digest processed))"

definition replay_verification :: "(string \<Rightarrow> pyfloat) \<Rightarrow> (string \<Rightarrow> datetime option) \<Rightarrow> event_reader
    \<Rightarrow> artifact_reader option \<Rightarrow> string \<Rightarrow> replay_escape + verification_replay" where
  "replay_verification fl fromiso er reader run_id =
     (case verification_stream run_id of
        None \<Rightarrow> Inl LifecycleEscape
      | Some stream \<Rightarrow>
          (case er_stream er stream of
             Inl EventIntegrityError \<Rightarrow> Inr (empty_failure run_id ReplayFailed LifecycleInvalid 0)
           | Inl (RuntimeError s) \<Rightarrow> Inr (empty_failure run_id ReplayInconclusive EventStoreUnavailable 0)
           | Inl e \<Rightarrow> Inl (StoreEscape e)
           | Inr events \<Rightarrow>
               if events = []
               then Inr (replay_outcome run_id LifecycleNotStarted None ReplayNotApplicable None None None None 0)
               else case fold_verification_lifecycle fromiso run_id events of
                   None \<Rightarrow> Inr (empty_failure run_id ReplayFailed LifecycleInvalid (length events))
                 | Some state \<Rightarrow> replay_state fl fromiso er reader state (length events)))"

end
