(* ===== verification/VerificationReplayFacts.thy ===== *)
theory VerificationReplayFacts
  imports VerificationReplay ReplayFacts ReplaySample VerificationFacts VerdictReport Artifacts
begin

text \<open>
  What a verified replay of a verification rests on: the recorded sources, the stored report, and that
  the canonical bytes of a report are read back as the report.
\<close>

section \<open>Sources\<close>

definition sources_recorded :: "(string \<Rightarrow> datetime option) \<Rightarrow> event_reader \<Rightarrow> verification_lifecycle \<Rightarrow> bool" where
  "sources_recorded fromiso er state \<longleftrightarrow> (let l = vs_lease state; correlation = correlation_id (vs_latest state) in
     \<exists>execution review stream events w.
       er_get er (vl_run_event_id l) = Inr (Some execution) \<and> er_get er (vl_review_event_id l) = Inr (Some review)
     \<and> review_stream (vl_run_id l) = Some stream \<and> er_stream er stream = Inr events
     \<and> fold_review_lifecycle fromiso (vl_run_id l) events = Some w
     \<and> run_event_matches l correlation execution \<and> review_event_matches l correlation review
     \<and> review_matches l review w)"

lemma source_read_Some: "source_read m = Inr (Some x) \<longleftrightarrow> m = Inr x"
  by (auto simp: source_read_def split: sum.splits kernel_error.splits)

lemma obind_True: "obind m f = Inr True \<longleftrightarrow> (\<exists>x. m = Inr (Some x) \<and> f x = Inr True)"
  by (auto simp: obind_def ebind_eq_Inr split: option.splits)

lemma source_events_match_True:
  "source_events_match fromiso er state = Inr True \<longleftrightarrow> sources_recorded fromiso er state"
proof -
  have both: "(case (a, b) of (Some x, Some e) \<Rightarrow> P x e | _ \<Rightarrow> False) \<longleftrightarrow> (\<exists>x e. a = Some x \<and> b = Some e \<and> P x e)"
    for a :: "event option" and b :: "event option" and P by (cases a; cases b) simp_all
  show ?thesis
    unfolding source_events_match_def sources_recorded_def Let_def obind_True source_read_Some both by auto
qed

section \<open>The stored report\<close>

lemma report_from_mapping_ok: "verification_report_from_mapping raw = Some p \<Longrightarrow> verification_report_ok p"
  by (auto simp: verification_report_from_mapping_def Let_def bind_eq_Some_conv split: if_splits)

lemma load_report_Inr:
  assumes "load_report fl data = Inr p"
  obtains raw where "data = json_bytes (JObj raw)" "verification_report_from_mapping raw = Some p"
  using assms
  by (auto simp: load_report_def efail_on_None_eq_Inr split: sum.splits loads_error.splits pyval.splits
      json.splits if_splits)

text \<open>A mapping replay reads as canonical is read the same way here.\<close>

lemma load_report_canonical:
  assumes "canonical_mapping fl site d data = Inr raw"
  shows "load_report fl data = efail_on_None (ReportFinding ReportInvalid) (verification_report_from_mapping raw)"
proof -
  have data: "data = json_bytes (JObj raw)" using assms by (rule canonical_mapping_Inr)
  have bom: "map char_of [239, 187, 191 :: nat] = [CHR 0xEF, CHR 0xBB, CHR 0xBF]" by code_simp
  have "hd (json_bytes (JObj raw)) = CHR ''{''"
    by (simp add: json_bytes_def utf8_encode_Cons utf8_char_def code_def)
  then have "json_loads_text fl data = json_loads fl data"
    unfolding json_loads_text_def bom data by (cases "json_bytes (JObj raw)") (auto simp: startswith_def)
  then show ?thesis
    using assms data
    by (auto simp: load_report_def canonical_mapping_def split: sum.splits loads_error.splits pyval.splits
        json.splits if_splits)
qed

text \<open>Sorting the keys of an object changes no field.\<close>

lemma norm_fields:
  assumes "norm_json (JObj p) = JObj kvs" "distinct (map fst p)"
  shows "keys_are kvs ks = keys_are p ks" "jget kvs k = norm_json (jget p k)"
proof -
  let ?q = "map (\<lambda>(k, v). (k, norm_json v)) p"
  have kvs: "kvs = sort_key fst ?q" using assms(1) by (auto simp: case_prod_unfold)
  have keys: "map fst ?q = map fst p" by (simp add: case_prod_unfold)
  have "mset (map fst kvs) = mset (map fst ?q)" unfolding kvs mset_map mset_sort ..
  then have same: "mset (map fst kvs) = mset (map fst p)" unfolding keys .
  then have "distinct (map fst kvs)" using assms(2) by (metis mset_eq_imp_distinct_iff)
  moreover have "set kvs = set ?q" by (simp only: kvs set_sort)
  ultimately have "map_of kvs = map_of ?q" using assms(2) map_of_inject_set[of kvs ?q] by (simp only: keys)
  then show "jget kvs k = norm_json (jget p k)" by (simp add: jget_def map_of_map split: option.splits)
  show "keys_are kvs ks = keys_are p ks" using arg_cong[OF same, of set_mset] by (simp add: keys_are_def)
qed

lemma norm_plain [simp]:
  "norm_json (strings xs) = strings xs" "norm_json (opt_str v) = opt_str v"
  by (simp_all add: strings_def opt_str_def comp_def split: option.splits)

lemma matrix_row_norm:
  "matrix_row_from_mapping (norm_json (matrix_row_payload q)) = matrix_row_from_mapping (matrix_row_payload q)"
proof -
  obtain p where p: "matrix_row_payload q = JObj p" "distinct (map fst p)" "\<forall>v\<in>snd ` set p. norm_json v = v"
    by (simp add: matrix_row_payload_def)
  obtain kvs where kvs: "norm_json (JObj p) = JObj kvs" by simp
  have "norm_json (jget p k) = jget p k" for k
    using p(3) by (force simp: jget_def dest: map_of_SomeD split: option.splits)
  then have "jget kvs = jget p" "keys_are kvs = keys_are p" using norm_fields[OF kvs p(2)] by auto
  then show ?thesis unfolding p(1) kvs by (simp add: matrix_row_from_mapping_def as_obj_def)
qed

lemma report_payload_plain:
  "loadable (JObj (verification_report_payload p))" "distinct (map fst (verification_report_payload p))"
proof -
  have "loadable (matrix_row_payload q)" for q
    by (simp add: matrix_row_payload_def strings_def opt_str_def list_all_iff split: option.splits)
  then show "loadable (JObj (verification_report_payload p))" "distinct (map fst (verification_report_payload p))"
    by (simp_all add: verification_report_payload_def list_all_iff)
qed

lemma report_norm:
  assumes "norm_json (JObj (verification_report_payload p)) = JObj kvs"
  shows "verification_report_from_mapping kvs = verification_report_from_mapping (verification_report_payload p)"
proof -
  note same = norm_fields[OF assms report_payload_plain(2)]
  have "traverse matrix_row_from_mapping (map norm_json (map matrix_row_payload rows))
      = traverse matrix_row_from_mapping (map matrix_row_payload rows)" for rows
    by (induction rows) (simp_all add: matrix_row_norm)
  then show ?thesis
    by (simp add: verification_report_from_mapping_def same verification_report_payload_def
        jget_def[of "(_, _) # _"] report_sequence_def as_arr_def bind_ensure cong: if_cong)
qed

lemma load_report_payload:
  assumes "verification_report_from_mapping (verification_report_payload p) = Some p"
  shows "load_report fl (json_bytes (JObj (verification_report_payload p))) = Inr p"
proof -
  obtain kvs where kvs: "norm_json (JObj (verification_report_payload p)) = JObj kvs" by simp
  show ?thesis
    using load_report_canonical[OF canonical_mapping_bytes[OF report_payload_plain(1) kvs]] report_norm[OF kvs] assms
    by simp
qed

section \<open>A verified replay\<close>

lemma replay_verified:
  assumes "replay_verification fl fromiso er reader run_id = Inr r" "vy_integrity r = ReplayVerified"
  obtains stream events state rd digest reference data p where
    "verification_stream run_id = Some stream" "er_stream er stream = Inr events"
    "fold_verification_lifecycle fromiso run_id events = Some state" "sources_recorded fromiso er state"
    "reader = Some rd" "recorded_report state = Some digest"
    "rd_stat rd digest = Inr reference" "report_reference_ok digest reference" "rd_get rd reference = Inr data"
    "load_report fl data = Inr p" "report_matches_state p state digest"
    "r = state_outcome state ReplayVerified None (Some digest) (Some reference)
      (Some (verification_matrix_digest p)) (length events)"
proof -
  have other: "vy_integrity (replay_outcome i l s g f d rf m n) = g" for i l s g f d rf m n
    by (simp add: replay_outcome_def Let_def)
  note simps = other state_outcome_def artifact_failure_def empty_failure_def
  have unread: "g \<noteq> ReplayVerified" if "read_failure e = Some (f, g)" for e f g
    using that by (auto simp: read_failure_def split: kernel_error.splits)
  obtain stream events state where s: "verification_stream run_id = Some stream" "er_stream er stream = Inr events"
    "fold_verification_lifecycle fromiso run_id events = Some state"
    "replay_state fl fromiso er reader state (length events) = Inr r"
    using assms by (auto simp: replay_verification_def simps split: option.splits sum.splits kernel_error.splits if_splits)
  obtain rd digest where t: "source_events_match fromiso er state = Inr True" "recorded_report state = Some digest"
    "reader = Some rd" "replay_report_artifact fl rd state digest (length events) = Inr r"
    using s(4) assms(2) by (auto simp: replay_state_def Let_def ebind_eq_Inr simps split: option.splits if_splits)
  obtain reference data p where u: "rd_stat rd digest = Inr reference" "report_reference_ok digest reference"
    "rd_get rd reference = Inr data" "load_report fl data = Inr p" "report_matches_state p state digest"
    "r = state_outcome state ReplayVerified None (Some digest) (Some reference)
      (Some (verification_matrix_digest p)) (length events)"
    using t(4) assms(2)
    by (auto simp: replay_report_artifact_def Let_def simps split: sum.splits option.splits if_splits
        report_problem.splits prod.splits dest: unread)
  show ?thesis using that s(1-3) t(1-3) u by (simp add: source_events_match_True)
qed

end
