(* ===== verification/VerificationReplaySample.thy ===== *)
theory VerificationReplaySample
  imports VerificationReplayFacts VerificationProps VerdictProps
begin

text \<open>
  One verification recorded in full: a run that succeeded, a review of it and a verification whose
  report is stored, each with events that name the others by identifier and digest. The report is a
  parameter \<open>p\<close> of the run \<open>run\<close>.
\<close>

section \<open>The run and the review\<close>

definition run_end_event :: event where
  "run_end_event = stage_event ''run:run'' ''0'' ''x'' 1 RUN_SUCCEEDED ''h''
     [(''run_id'', JStr ''run''), (''status'', JStr ''succeeded'')]"

definition joined_review_id :: string where
  "joined_review_id = the (review_id ''run'' (payload_hash run_end_event))"

lemma run_stage [simp]: "stage_identifier ''run''"
  by (simp add: stage_identifier_def re_ident_def is_alnum_def is_digit_def is_upper_def is_lower_def code_def)

lemma digit_ids [simp]: "stage_identifier ''0''" "stage_identifier ''3''"
  by (simp_all add: stage_identifier_def re_ident_def is_alnum_def is_digit_def code_def)

lemma stage_hash [simp]: "payload_hash (stage_event st i cause n ty who p) = json_digest (JObj p)"
  by (simp add: stage_event_def)

lemma joined_review_id:
  "review_id ''run'' (payload_hash run_end_event) = Some joined_review_id" "stage_identifier joined_review_id"
proof -
  show id: "review_id ''run'' (payload_hash run_end_event) = Some joined_review_id"
    by (simp add: joined_review_id_def review_id_def Let_def run_end_event_def)
  then show "stage_identifier joined_review_id" by (rule review_id_identifier)
qed

definition joined_review_lease :: "verification_report \<Rightarrow> review_lease" where
  "joined_review_lease p = \<lparr>rvl_run_id = ''run'', rvl_review_id = joined_review_id, rvl_attempt = 1, rvl_fence = 1,
     rvl_worker = ''w'', rvl_run_event_id = ''0'', rvl_run_event_digest = payload_hash run_end_event,
     rvl_state_digest = vp_state p, rvl_artifact_evidence_digest = vp_artifact_evidence p,
     rvl_expires = utc 100, rvl_schema = REVIEW_LEASE_SCHEMA\<rparr>"

definition joined_request :: "verification_report \<Rightarrow> string" where
  "joined_request p = the (review_provider_request_id (review_lease_digest (joined_review_lease p)))"

definition joined_review :: "verification_report \<Rightarrow> event list" where
  "joined_review p =
     [stage_event ''review:run'' ''1'' ''0'' 1 ''review.claimed'' ''w''
        [(''principal_id'', JStr ''w''), (''lease_digest'', JStr (review_lease_digest (joined_review_lease p))),
         (''lease'', JObj (review_lease_payload (joined_review_lease p))), (''status'', JStr ''claimed'')],
      stage_event ''review:run'' ''2'' ''1'' 2 ''review.provider-dispatch-started'' ''w''
        [(''principal_id'', JStr ''w''), (''run_id'', JStr ''run''), (''review_id'', JStr joined_review_id),
         (''lease_digest'', JStr (review_lease_digest (joined_review_lease p))),
         (''provider_request_id'', JStr (joined_request p)),
         (''acceptance_digest'', JStr (vp_acceptance p)), (''context_digest'', JStr (vp_context p)),
         (''context_artifact_digest'', JStr (vp_context p)), (''status'', JStr ''provider-dispatch-started'')],
      stage_event ''review:run'' ''3'' ''2'' 3 REVIEW_SUCCEEDED ''w''
        [(''principal_id'', JStr ''w''), (''run_id'', JStr ''run''), (''review_id'', JStr joined_review_id),
         (''lease_digest'', JStr (review_lease_digest (joined_review_lease p))),
         (''context_digest'', JStr (vp_context p)), (''proposal_artifact_digest'', JStr some_digest),
         (''provider_result_artifact_digest'', JStr some_digest),
         (''admitted_artifact_digest'', JStr (vp_admitted p)), (''finding_count'', JInt 0),
         (''status'', JStr ''succeeded'')]]"

definition joined_review_end :: "verification_report \<Rightarrow> review_fold" where
  "joined_review_end p = review_init\<lparr>rv_baseline := Some (joined_review_lease p),
     rv_lease := Some (joined_review_lease p), rv_acceptance := Some (vp_acceptance p), rv_context := Some (vp_context p),
     rv_request := Some (joined_request p), rv_dispatch := Some ''2'', rv_proposal := Some some_digest,
     rv_result := Some some_digest, rv_admitted := Some (vp_admitted p), rv_findings := Some 0,
     rv_status := Some ReviewSucceeded\<rparr>"

lemma joined_request:
  "review_provider_request_id (review_lease_digest (joined_review_lease p)) = Some (joined_request p)"
  "stage_identifier (joined_request p)"
proof -
  show id: "review_provider_request_id (review_lease_digest (joined_review_lease p)) = Some (joined_request p)"
    by (simp add: joined_request_def review_provider_request_id_def review_lease_digest_def Let_def)
  show "stage_identifier (joined_request p)"
    unfolding joined_request_def review_lease_digest_def
    by (simp add: review_provider_request_id_def Let_def del: append_Cons append_Nil, rule digest_identifier) simp_all
qed

lemma joined_review_values [simp]:
  "rvl_run_id (joined_review_lease p) = ''run''" "rvl_review_id (joined_review_lease p) = joined_review_id"
  "rvl_attempt (joined_review_lease p) = 1" "rvl_fence (joined_review_lease p) = 1"
  "rvl_worker (joined_review_lease p) = ''w''" "rvl_run_event_id (joined_review_lease p) = ''0''"
  "rvl_expires (joined_review_lease p) = utc 100"
  by (simp_all add: joined_review_lease_def)

text \<open>The digests of a report that is valid.\<close>

lemma report_digests:
  assumes "verification_report_ok p"
  shows "re_digest (vp_context p)" "re_digest (vp_acceptance p)" "re_digest (vp_state p)"
    "re_digest (vp_artifact_evidence p)" "re_digest (vp_admitted p)"
  using assms by (simp_all add: verification_report_ok_def)

lemma joined_review_fold:
  assumes "verification_report_ok p"
  shows "fold_review_lifecycle stage_parse ''run'' (joined_review p)
    = Some \<lparr>rs_run_id = ''run'', rs_review_id = joined_review_id, rs_status = ReviewSucceeded,
        rs_lease = joined_review_lease p, rs_fold = joined_review_end p, rs_latest = last (joined_review p)\<rparr>"
proof -
  note digests [simp] = report_digests[OF assms]
  have ok: "review_lease_ok (joined_review_lease p)"
    by (simp add: review_lease_ok_def joined_review_lease_def aware_def utc_def joined_review_id(2) run_end_event_def)
  have read: "review_lease_from_mapping stage_parse (review_lease_payload (joined_review_lease p)) = Some (joined_review_lease p)"
    by (rule review_lease_roundtrip[OF ok]) (simp add: stage_parse_def)
  define s1 where "s1 = review_init\<lparr>rv_baseline := Some (joined_review_lease p),
     rv_lease := Some (joined_review_lease p), rv_status := Some ReviewClaimed\<rparr>"
  define s2 where "s2 = s1\<lparr>rv_acceptance := Some (vp_acceptance p), rv_context := Some (vp_context p),
     rv_request := Some (joined_request p), rv_dispatch := Some ''2'', rv_status := Some ReviewDispatched\<rparr>"
  have claim: "review_step stage_parse ''run'' review_init (joined_review p ! 0) = Some s1"
    by (simp add: joined_review_def review_step_def Let_def stage_principal_def on_review_claimed_def keys_are_def
        jget_def[of "(_, _) # _"] as_obj_def read review_init_def s1_def utc_def insert_commute)
  have dispatch: "review_step stage_parse ''run'' s1 (joined_review p ! 1) = Some s2"
    by (simp add: joined_review_def review_step_def Let_def stage_principal_def on_review_dispatch_def keys_are_def
        jget_def[of "(_, _) # _"] review_active_def review_host_def s1_def review_init_def joined_request
        s2_def utc_def insert_commute)
  have succeed: "review_step stage_parse ''run'' s2 (joined_review p ! 2) = Some (joined_review_end p)"
    by (simp add: joined_review_def review_step_def Let_def stage_principal_def on_review_succeeded_def keys_are_def
        jget_def[of "(_, _) # _"] review_active_def review_host_def s1_def review_init_def bounded_integer_def
        opt_str_def s2_def joined_review_end_def utc_def insert_commute REVIEW_SUCCEEDED_def)
  have three: "joined_review p = [joined_review p ! 0, joined_review p ! 1, joined_review p ! 2]"
    by (simp add: joined_review_def)
  have steps: "ofold (review_step stage_parse ''run'') review_init (joined_review p) = Some (joined_review_end p)"
    by (subst three) (simp del: One_nat_def add: claim dispatch succeed)
  have "stage_stream_ok ''review:run'' REVIEW_EVENT_TYPES (joined_review p)"
    by (simp add: stage_stream_ok_def joined_review_def REVIEW_EVENT_TYPES_def REVIEW_SUCCEEDED_def)
  moreover have "review_stream ''run'' = Some ''review:run''" by (simp add: review_stream_def)
  ultimately show ?thesis
    by (simp add: fold_review_lifecycle_def steps) (simp add: joined_review_end_def)
qed

section \<open>The verification\<close>

definition joined_review_event :: "verification_report \<Rightarrow> event" where
  "joined_review_event p = last (joined_review p)"

definition joined_verification_id :: "verification_report \<Rightarrow> string" where
  "joined_verification_id p = the (verification_id ''run'' (payload_hash (joined_review_event p)))"

definition joined_lease :: "verification_report \<Rightarrow> verification_lease" where
  "joined_lease p = \<lparr>vl_run_id = ''run'', vl_verification_id = joined_verification_id p,
     vl_attempt = 1, vl_fence = 1, vl_worker = ''w'', vl_run_event_id = ''0'',
     vl_run_event_digest = payload_hash run_end_event, vl_state_digest = vp_state p,
     vl_artifact_evidence_digest = vp_artifact_evidence p, vl_review_id = joined_review_id,
     vl_review_event_id = ''3'', vl_review_event_digest = payload_hash (joined_review_event p),
     vl_acceptance_digest = vp_acceptance p, vl_context_digest = vp_context p,
     vl_proposal_artifact_digest = some_digest, vl_provider_result_artifact_digest = some_digest,
     vl_admitted_review_digest = vp_admitted p, vl_finding_count = 0, vl_expires = utc 100,
     vl_schema = VERIFICATION_LEASE_SCHEMA\<rparr>"

lemma joined_lease_values [simp]:
  "vl_run_id (joined_lease p) = ''run''" "vl_verification_id (joined_lease p) = joined_verification_id p"
  "vl_attempt (joined_lease p) = 1" "vl_fence (joined_lease p) = 1" "vl_worker (joined_lease p) = ''w''"
  "vl_run_event_id (joined_lease p) = ''0''" "vl_review_event_id (joined_lease p) = ''3''"
  "vl_expires (joined_lease p) = utc 100"
  by (simp_all add: joined_lease_def)

definition joined_verification :: "verification_report \<Rightarrow> event list" where
  "joined_verification p =
     [stage_event ''verification:run'' ''4'' ''3'' 1 ''verification.claimed'' ''w''
        [(''principal_id'', JStr ''w''), (''lease_digest'', JStr (verification_lease_digest (joined_lease p))),
         (''lease'', JObj (verification_lease_payload (joined_lease p))), (''status'', JStr ''claimed'')],
      stage_event ''verification:run'' ''5'' ''4'' 2 ''verification.completed'' ''w''
        [(''principal_id'', JStr ''w''), (''run_id'', JStr ''run''),
         (''verification_id'', JStr (joined_verification_id p)),
         (''lease_digest'', JStr (verification_lease_digest (joined_lease p))),
         (''verdict'', JStr (verification_status_value (vp_status p))),
         (''report_artifact_digest'', JStr (verification_report_digest p)),
         (''matrix_digest'', JStr (verification_matrix_digest p)), (''status'', JStr ''completed'')]]"

definition joined_end :: "verification_report \<Rightarrow> verification_fold" where
  "joined_end p = verification_init\<lparr>vf_baseline := Some (joined_lease p), vf_lease := Some (joined_lease p),
     vf_verdict := Some (vp_status p), vf_report := Some (verification_report_digest p),
     vf_matrix := Some (verification_matrix_digest p), vf_status := Some VerificationCompleted\<rparr>"

definition joined_state :: "verification_report \<Rightarrow> verification_lifecycle" where
  "joined_state p = \<lparr>vs_run_id = ''run'', vs_verification_id = joined_verification_id p,
     vs_status = VerificationCompleted, vs_lease = joined_lease p, vs_fold = joined_end p,
     vs_latest = last (joined_verification p)\<rparr>"

lemma joined_verification_id:
  "verification_id ''run'' (payload_hash (joined_review_event p)) = Some (joined_verification_id p)"
  "stage_identifier (joined_verification_id p)"
proof -
  show id: "verification_id ''run'' (payload_hash (joined_review_event p)) = Some (joined_verification_id p)"
    by (simp add: joined_verification_id_def verification_id_def Let_def joined_review_event_def joined_review_def)
  then show "stage_identifier (joined_verification_id p)" by (rule verification_id_identifier)
qed

lemma joined_fold:
  assumes "verification_report_ok p"
  shows "fold_verification_lifecycle stage_parse ''run'' (joined_verification p) = Some (joined_state p)"
proof -
  note digests [simp] = report_digests[OF assms]
  have hash [simp]: "re_digest (payload_hash run_end_event)" "re_digest (payload_hash (joined_review_event p))"
    by (simp_all add: run_end_event_def joined_review_event_def joined_review_def)
  have ok: "verification_lease_ok (joined_lease p)"
    by (simp add: verification_lease_ok_def verification_candidate_ok_def verification_lease_candidate_def
        joined_lease_def joined_review_id joined_verification_id aware_def utc_def)
  have read: "verification_lease_from_mapping stage_parse (verification_lease_payload (joined_lease p)) = Some (joined_lease p)"
    by (rule verification_lease_roundtrip[OF ok]) (simp add: stage_parse_def)
  define s1 where "s1 = verification_init\<lparr>vf_baseline := Some (joined_lease p),
     vf_lease := Some (joined_lease p), vf_status := Some VerificationClaimed\<rparr>"
  have claim: "verification_step stage_parse ''run'' verification_init (joined_verification p ! 0) = Some s1"
    by (simp add: joined_verification_def verification_step_def Let_def stage_principal_def on_verification_claimed_def
        keys_are_def jget_def[of "(_, _) # _"] as_obj_def read verification_init_def s1_def utc_def insert_commute)
  have digest: "re_digest (verification_report_digest p)" "re_digest (verification_matrix_digest p)"
    by (simp_all add: verification_report_digest_def verification_matrix_digest_def)
  have verdict: "verification_status_value v \<noteq> []" for v by (cases v) simp_all
  have complete: "verification_step stage_parse ''run'' s1 (joined_verification p ! 1) = Some (joined_end p)"
    by (simp add: joined_verification_def verification_step_def Let_def stage_principal_def digest verdict
        on_verification_completed_def keys_are_def jget_def[of "(_, _) # _"] verification_active_def
        verification_host_def s1_def verification_init_def string_where_def joined_end_def insert_commute)
  have two: "joined_verification p = [joined_verification p ! 0, joined_verification p ! 1]"
    by (simp add: joined_verification_def)
  have steps: "ofold (verification_step stage_parse ''run'') verification_init (joined_verification p) = Some (joined_end p)"
    by (subst two) (simp del: One_nat_def add: claim complete)
  have "stage_stream_ok ''verification:run'' VERIFICATION_EVENT_TYPES (joined_verification p)"
    by (simp add: stage_stream_ok_def joined_verification_def VERIFICATION_EVENT_TYPES_def)
  moreover have "verification_stream ''run'' = Some ''verification:run''" by (simp add: verification_stream_def)
  ultimately show ?thesis
    by (simp add: fold_verification_lifecycle_def steps joined_state_def) (simp add: joined_end_def)
qed

section \<open>The ledger\<close>

definition joined_reader :: "verification_report \<Rightarrow> event_reader" where
  "joined_reader p = \<lparr>er_stream = (\<lambda>s. Inr (if s = ''review:run'' then joined_review p
       else if s = ''verification:run'' then joined_verification p else [])),
     er_get = (\<lambda>i. Inr (if i = ''0'' then Some run_end_event else if i = ''3'' then Some (joined_review_event p) else None))\<rparr>"

lemma joined_sources:
  assumes "verification_report_ok p"
  shows "sources_recorded stage_parse (joined_reader p) (joined_state p)"
proof -
  let ?w = "\<lparr>rs_run_id = ''run'', rs_review_id = joined_review_id, rs_status = ReviewSucceeded,
        rs_lease = joined_review_lease p, rs_fold = joined_review_end p, rs_latest = last (joined_review p)\<rparr>"
  have "correlation_id (vs_latest (joined_state p)) = ''c''" by (simp add: joined_state_def joined_verification_def)
  moreover have "run_event_matches (joined_lease p) ''c'' run_end_event"
    by (simp add: run_event_matches_def run_end_event_def joined_lease_def jget_def)
  moreover have "review_event_matches (joined_lease p) ''c'' (joined_review_event p)"
    by (simp add: review_event_matches_def joined_lease_def joined_review_event_def joined_review_def review_stream_def)
  moreover have "review_matches (joined_lease p) (joined_review_event p) ?w"
    by (simp add: review_matches_def review_lease_matches_def joined_lease_def joined_review_lease_def
        joined_review_end_def joined_review_event_def)
  moreover have "review_stream ''run'' = Some ''review:run''" by (simp add: review_stream_def)
  moreover have "vs_lease (joined_state p) = joined_lease p" by (simp add: joined_state_def)
  ultimately show ?thesis
    unfolding sources_recorded_def Let_def using joined_review_fold[OF assms]
    by (intro exI[of _ run_end_event] exI[of _ "joined_review_event p"] exI[of _ "''review:run''"]
        exI[of _ "joined_review p"] exI[of _ ?w]) (simp add: joined_reader_def)
qed

lemma joined_report_matches:
  "vp_run_id p = ''run'' \<Longrightarrow> report_matches_state p (joined_state p) (verification_report_digest p)"
  by (simp add: report_matches_state_def joined_state_def joined_lease_def joined_end_def)

end
