(* ===== verification/VerificationReplayProps.thy ===== *)
theory VerificationReplayProps
  imports VerificationReplaySample
begin

text \<open>
  Properties of the replay of a verification: a verdict it calls verified is the verdict of a stored
  report over the review the run's recorded review admitted, and a verdict that was recorded with its
  report in the artifact store replays as verified. Both join the ledger, the lifecycles, the
  artifact store, the scanner of JSON and the report.
\<close>

section \<open>Soundness\<close>

definition judged_report :: "(string \<Rightarrow> datetime option) \<Rightarrow> event_reader \<Rightarrow> string \<Rightarrow> verification_report \<Rightarrow> bool" where
  "judged_report fromiso er run_id p \<longleftrightarrow> vp_run_id p = run_id
     \<and> (\<exists>i execution. er_get er i = Inr (Some execution) \<and> stream_id execution = ''run:'' @ run_id
         \<and> event_type execution = RUN_SUCCEEDED \<and> source execution = RUNTIME_EVENT_SOURCE)
     \<and> (\<exists>events w. er_stream er (''review:'' @ run_id) = Inr events \<and> fold_review_lifecycle fromiso run_id events = Some w
         \<and> rs_status w = ReviewSucceeded \<and> rv_admitted (rs_fold w) = Some (vp_admitted p)
         \<and> rv_context (rs_fold w) = Some (vp_context p) \<and> rv_acceptance (rs_fold w) = Some (vp_acceptance p)
         \<and> rvl_state_digest (rs_lease w) = vp_state p
         \<and> rvl_artifact_evidence_digest (rs_lease w) = vp_artifact_evidence p)"

text \<open>
  C4: A verdict that replays as verified is grounded. The report under the recorded digest is stored
  as canonical JSON, is a valid report with that digest and of this run, and judges exactly what the
  run's succeeded review admitted, over the context, the acceptance, the state and the artifacts of
  that review; the run itself ended in success. The verdict of a completed verification is the
  aggregate of the report's matrix, and the matrix digest is the report's.
\<close>
theorem replayed_verdict_sound:
  assumes "replay_verification fl fromiso er (Some rd) run_id = Inr r" "vy_integrity r = ReplayVerified"
  shows "\<exists>digest reference raw p. vy_report r = Some digest \<and> rd_stat rd digest = Inr reference
    \<and> rd_get rd reference = Inr (json_bytes (JObj raw)) \<and> verification_report_from_mapping raw = Some p
    \<and> verification_report_digest p = digest \<and> verification_report_ok p \<and> judged_report fromiso er run_id p
    \<and> vy_matrix r = Some (verification_matrix_digest p)
    \<and> (vy_lifecycle r = LifecycleCompleted \<longrightarrow> vy_verdict r = Some (aggregate_status (vp_matrix p)))"
proof -
  obtain stream events state rd' digest reference data p where
    f: "fold_verification_lifecycle fromiso run_id events = Some state" and src: "sources_recorded fromiso er state"
    and rd: "Some rd = Some rd'" "rd_stat rd' digest = Inr reference" "rd_get rd' reference = Inr data"
    and load: "load_report fl data = Inr p" and match: "report_matches_state p state digest"
    and r: "r = state_outcome state ReplayVerified None (Some digest) (Some reference)
      (Some (verification_matrix_digest p)) (length events)"
    by (rule replay_verified[OF assms])
  obtain raw where raw: "data = json_bytes (JObj raw)" "verification_report_from_mapping raw = Some p"
    by (rule load_report_Inr[OF load])
  have ok: "verification_report_ok p" by (rule report_from_mapping_ok[OF raw(2)])
  have run: "vl_run_id (vs_lease state) = run_id"
    by (rule verification_first_event(3)[OF fold_verification_Some(1,4,3)[OF f]])
  have fields: "vp_run_id p = run_id" "verification_report_digest p = digest"
    "vp_context p = vl_context_digest (vs_lease state)" "vp_acceptance p = vl_acceptance_digest (vs_lease state)"
    "vp_state p = vl_state_digest (vs_lease state)"
    "vp_artifact_evidence p = vl_artifact_evidence_digest (vs_lease state)"
    "vp_admitted p = vl_admitted_review_digest (vs_lease state)"
    using match run by (simp_all add: report_matches_state_def Let_def split: if_splits)
  have verdict: "vs_status state = VerificationCompleted \<Longrightarrow> vf_verdict (vs_fold state) = Some (vp_status p)"
    using match by (simp add: report_matches_state_def Let_def)
  have "judged_report fromiso er run_id p"
    using src fields(1) unfolding judged_report_def sources_recorded_def Let_def run fields(3-7)
    by (auto simp: run_event_matches_def review_matches_def review_lease_matches_def review_stream_def
        bind_eq_Some_conv run split: if_splits)
  moreover have "vp_status p = aggregate_status (vp_matrix p)" using ok by (simp add: verification_report_ok_def)
  moreover have "vs_status state = VerificationCompleted" if "vy_lifecycle r = LifecycleCompleted"
    using that by (cases "vs_status state") (simp_all add: r state_outcome_def replay_outcome_def Let_def)
  ultimately show ?thesis
    using rd raw ok fields(2) verdict by (auto simp: r state_outcome_def replay_outcome_def Let_def)
qed

section \<open>Completeness\<close>

lemma stored_artifact:
  assumes "artifacts_inv db" "find_artifact db (bytes_digest data) = None"
    and "put_bytes m now data media encoding db = (Inr reference, db')"
  shows "artifacts_inv db'" "reference \<in> set (artifact_rows db')"
    "reference = \<lparr>ar_digest = bytes_digest data, ar_size = int (length data), ar_media = media,
       ar_encoding = encoding, ar_created = now\<rparr>"
  using put_bytes_cases[OF assms(1,3)] assms(2,3)
  by (auto simp: put_bytes_def Let_def relative_path_digest ebind_eq_Inr split: sum.splits if_splits option.splits)

lemma kept_artifact:
  assumes "artifacts_inv db" "r \<in> set (artifact_rows db)" "ar_digest r = bytes_digest data"
  shows "\<exists>y. rd_stat (store_reader db) (bytes_digest data) = Inr r \<and> rd_get (store_reader db) r = Inr y
    \<and> (y = data \<or> sha_collision y data)"
proof -
  obtain y where "get_bytes db (ar_digest r) True = Inr y" "bytes_digest y = ar_digest r"
    using get_bytes_ok[OF assms(1,2)] by blast
  moreover have "stat db (bytes_digest data) = Inr r"
    using find_artifact_present[OF assms(1,2)] by (simp add: stat_def assms(3) validate_bytes_digest)
  ultimately show ?thesis using assms(3) by (auto simp: store_reader_def sha_collision_def bytes_digest_def)
qed

lemma puts_keep_rows:
  "artifacts_inv db \<Longrightarrow> artifacts_inv (artifact_store.puts m now media enc xs db)
    \<and> set (artifact_rows db) \<subseteq> set (artifact_rows (artifact_store.puts m now media enc xs db))"
proof (induction xs arbitrary: db)
  case (Cons x xs)
  note step = put_bytes_step[OF Cons.prems refl, of m now x media enc, folded put_with_def]
  then show ?case using Cons.IH[of "snd (put_with m now media enc x db)"] by auto
qed simp

text \<open>What the recorder of a completed verification leaves: the stream, the events it names, and a
  report that matches the lease, stored with its media type before any later puts.\<close>

definition verdict_recorded :: "(string \<Rightarrow> datetime option) \<Rightarrow> event_reader \<Rightarrow> string \<Rightarrow> verification_report \<Rightarrow> bool" where
  "verdict_recorded fromiso er run_id p \<longleftrightarrow> (\<exists>events state. er_stream er (''verification:'' @ run_id) = Inr events
     \<and> fold_verification_lifecycle fromiso run_id events = Some state \<and> sources_recorded fromiso er state
     \<and> vs_status state = VerificationCompleted \<and> vf_report (vs_fold state) = Some (verification_report_digest p)
     \<and> report_matches_state p state (verification_report_digest p))"

lemma replay_of_stored:
  assumes "verdict_recorded fromiso er run_id p"
    and "verification_report_from_mapping (verification_report_payload p) = Some p"
    and "rd_stat rd (verification_report_digest p) = Inr reference"
    and "report_reference_ok (verification_report_digest p) reference"
    and "rd_get rd reference = Inr (json_bytes (JObj (verification_report_payload p)))"
  shows "\<exists>r. replay_verification fl fromiso er (Some rd) run_id = Inr r
    \<and> vy_integrity r = ReplayVerified \<and> vy_finding r = None \<and> vy_lifecycle r = LifecycleCompleted
    \<and> vy_verdict r = Some (vp_status p)"
proof -
  let ?d = "verification_report_digest p"
  obtain events state where s: "er_stream er (''verification:'' @ run_id) = Inr events"
    "fold_verification_lifecycle fromiso run_id events = Some state" "sources_recorded fromiso er state"
    "vs_status state = VerificationCompleted" "vf_report (vs_fold state) = Some ?d" "report_matches_state p state ?d"
    using assms(1) unfolding verdict_recorded_def by blast
  have stream: "verification_stream run_id = Some (''verification:'' @ run_id)"
    using s(2) by (auto simp: fold_verification_lifecycle_def verification_stream_def bind_eq_Some_conv split: if_splits)
  have verdict: "vf_verdict (vs_fold state) = Some (vp_status p)"
    using s(4,6) by (simp add: report_matches_state_def Let_def)
  have report: "recorded_report state = Some ?d" using s(4,5) by (simp add: recorded_report_def)
  let ?r = "state_outcome state ReplayVerified None (Some ?d) (Some reference) (Some (verification_matrix_digest p)) (length events)"
  have "replay_report_artifact fl rd state ?d (length events) = Inr ?r"
    using assms(3-5) s(6) load_report_payload[OF assms(2)] by (simp add: replay_report_artifact_def Let_def)
  then have "replay_verification fl fromiso er (Some rd) run_id = Inr ?r"
    using s(1-3) stream fold_verification_Some(4)[OF s(2)] report
    by (simp add: replay_verification_def replay_state_def Let_def source_events_match_True[THEN iffD2])
  then show ?thesis using s(4) verdict by (auto simp: state_outcome_def replay_outcome_def Let_def)
qed

lemma report_size:
  assumes "verification_report_ok p"
  shows "report_reference_ok (verification_report_digest p) \<lparr>ar_digest = verification_report_digest p,
    ar_size = int (length (json_bytes (JObj (verification_report_payload p)))),
    ar_media = VERIFICATION_REPORT_MEDIA_TYPE, ar_encoding = Some ''utf-8'', ar_created = now\<rparr>"
proof -
  have "1 \<le> length (json_bytes (JObj (verification_report_payload p)))"
    by (simp add: json_bytes_def utf8_encode_Cons utf8_char_def)
  moreover have "length (json_bytes (JObj (verification_report_payload p))) \<le> 4 * 1024 * 1024"
    using assms by (simp add: verification_report_ok_def MAX_REPORT_BYTES_def)
  ultimately show ?thesis by (simp add: report_reference_ok_def)
qed


section \<open>Witnesses\<close>

lemma sample_recorded:
  obtains p where "verify_review sample_context sample_admitted = Inr p" "verification_report_ok p"
    "verdict_recorded stage_parse (joined_reader p) ''run'' p"
proof -
  obtain p where p: "verify_review sample_context sample_admitted = Inr p" using sample_decided by blast
  have ok: "verification_report_ok p"
    by (rule verify_review_Inr[OF p]) simp
  have "vp_run_id p = ''run''"
    by (rule verify_review_Inr[OF p]) (simp add: sample_context_def sample_acceptance_def)
  then have "report_matches_state p (joined_state p) (verification_report_digest p)" by (rule joined_report_matches)
  then have "verdict_recorded stage_parse (joined_reader p) ''run'' p"
    unfolding verdict_recorded_def using joined_fold[OF ok] joined_sources[OF ok]
    by (intro exI[of _ "joined_verification p"] exI[of _ "joined_state p"])
      (simp add: joined_reader_def joined_state_def joined_end_def)
  then show ?thesis using that p ok by blast
qed

theorem replayed_verdict_sound_witness:
  "\<exists>p rd r. replay_verification (\<lambda>_. NotANumber) stage_parse (joined_reader p) (Some rd) ''run'' = Inr r
    \<and> vy_integrity r = ReplayVerified \<and> (\<exists>q. judged_report stage_parse (joined_reader p) ''run'' q)"
proof -
  obtain p where p: "verify_review sample_context sample_admitted = Inr p" "verification_report_ok p"
    "verdict_recorded stage_parse (joined_reader p) ''run'' p" by (rule sample_recorded)
  let ?data = "json_bytes (JObj (verification_report_payload p))"
  let ?ref = "\<lparr>ar_digest = verification_report_digest p, ar_size = int (length ?data),
    ar_media = VERIFICATION_REPORT_MEDIA_TYPE, ar_encoding = Some ''utf-8'', ar_created = utc 0\<rparr>"
  let ?rd = "\<lparr>rd_stat = (\<lambda>_. Inr ?ref), rd_get = (\<lambda>_. Inr ?data)\<rparr>"
  have readback: "verification_report_from_mapping (verification_report_payload p) = Some p"
    by (rule verification_report_roundtrip[OF sample_context_wf sample_review_wf sample_admission p(1)])
  obtain r where r: "replay_verification (\<lambda>_. NotANumber) stage_parse (joined_reader p) (Some ?rd) ''run'' = Inr r"
    "vy_integrity r = ReplayVerified"
    using replay_of_stored[OF p(3) readback, of ?rd ?ref] report_size[OF p(2), of "utc 0"] by auto
  from replayed_verdict_sound[OF r] show ?thesis using r by blast
qed


end
