(* ===== verification/Spec2Isabelle.thy ===== *)
theory Spec2Isabelle
  imports Projections Artifacts RunProps ReviewProps VerificationProps GatewayProps PlanProps SchemaProps
    WorktreeProps ChangeProps AdmissionProps VerdictProps ReplayProps QuotaProps VerificationReplayProps
begin

text \<open>
  A verification library of blackcell, a local runtime that records everything it decides as events.
  All paths below are under \<open>src/src/blackcell/\<close>.

  The program and its model.

  \<^item> The kernel. \<open>kernel/_json.py\<close> freezes values, renders them canonically and hashes them
    (theories \<open>Sha256\<close>, \<open>Json\<close>). \<open>kernel/events.py\<close> is the event envelope (\<open>Events\<close>).
    \<open>kernel/store.py\<close> over the tables of \<open>kernel/database.py\<close> is the append-only ledger
    (\<open>Store\<close>; \<open>StoreFacts\<close> has the interface of a ledger as a locale, interpreted on the store;
    \<open>Ledger\<close> its properties). \<open>kernel/projections.py\<close> replays the ledger into projections with
    checkpoints (\<open>Projections\<close>). \<open>kernel/artifacts.py\<close> is the content-addressed store of blobs
    (\<open>Artifacts\<close>). A database is a value: its rows and its stream table; an operation returns the
    new one or an error, and a failed transaction leaves the old one.
  \<^item> The lifecycles. \<open>orchestration/run_lifecycle.py\<close>, \<open>review_lifecycle.py\<close> and
    \<open>verification_lifecycle.py\<close> fold a stream of events into a state or reject it. Each event type
    is one definition (\<open>on_node_claimed\<close>, \<open>on_review_claimed\<close>, \<open>on_verification_claimed\<close> and
    their siblings), composed by a step and a fold as in the code (\<open>RunLifecycle\<close>,
    \<open>ReviewLifecycle\<close>, \<open>VerificationLifecycle\<close>; \<open>Lifecycle\<close> has the field readers they share,
    \<open>Verdict\<close> the statuses of \<open>orchestration/verification.py\<close>). \<open>RunFacts\<close>, \<open>ReviewFacts\<close> and
    \<open>VerificationFacts\<close> hold the invariants, the step relation of the abstract run lifecycle and
    the locale of fenced claims with its interpretations; \<open>RunSample\<close> a concrete run;
    \<open>RunProps\<close>, \<open>ReviewProps\<close> and \<open>VerificationProps\<close> the properties.
  \<^item> The model gateway. \<open>gateway/schema.py\<close> validates outputs (\<open>Schema\<close>, \<open>SchemaProps\<close>);
    \<open>gateway/models.py\<close>, \<open>profiles.py\<close> and \<open>router.py\<close> select a profile, prepare and
    invoke a call and audit it (\<open>Gateway\<close>, \<open>GatewayProps\<close>). A model adapter is code outside
    the gateway: its answer is a function in the gateway's state, and the properties hold for all.
  \<^item> Planning. \<open>orchestration/execution_plan.py\<close> normalises goals and tasks (\<open>PlanTypes\<close>), orders
    the tasks of a plan (\<open>PlanOrder\<close>), compiles an untrusted draft, authorises tool actions and
    routes attempts (\<open>PlanCompile\<close>); \<open>PlanFacts\<close> has their lemmas, \<open>PlanSample\<close> a goal with a
    draft that compiles, \<open>PlanProps\<close> the properties.

  \<^item> Changing text. \<open>orchestration/changes.py\<close> holds what a model may propose and from which
    evidence (\<open>Changes\<close>), \<open>adapters/execution/worktree.py\<close> the worktree values and what an
    inspection reports (\<open>Paths\<close>, \<open>Worktree\<close>, \<open>WorktreeProps\<close>), and
    \<open>adapters/execution/text_changes.py\<close> plans, applies and rolls back a proposal (\<open>TextChanges\<close>,
    \<open>TextChangeFacts\<close>, \<open>TextChangeProps\<close>; \<open>ChangeProps\<close> for the contracts). The tree is a map
    from paths to entries, every effect of the environment may fail at any step, and the inspection
    Git gives is a parameter. \<open>JsonSize\<close> and \<open>JsonBound\<close> count and bound canonical bytes.
  \<^item> Review and verdict. \<open>orchestration/review.py\<close> is the acceptance, the evidence and the
    proposals of a reviewer with their admission (\<open>Review\<close>, \<open>ReviewAdmission\<close>; \<open>AdmissionFacts\<close>,
    \<open>AdmissionProps\<close>, \<open>ReviewSample\<close> a concrete one); \<open>orchestration/verification.py\<close> builds the
    matrix and the verdict (\<open>Verify\<close>; \<open>VerdictFacts\<close> what its reasons say, \<open>VerdictRows\<close> that every
    row can be made, \<open>VerdictReport\<close> that a report can be read, \<open>VerdictProps\<close> the properties).

  \<^item> Replay. \<open>orchestration/acceptance.py\<close> (\<open>Acceptance\<close>) and \<open>execution_artifacts.py\<close> (\<open>Manifest\<close>) are
    the recorded commands, results and outcome manifests. \<open>orchestration/replay.py\<close> reads them back:
    \<open>Replay\<close> has the session that reads artifacts within its budgets, \<open>ReplayNode\<close> the verification
    of a node and of a run, \<open>ReplayReview\<close> the review context built from it. \<open>JsonLoads\<close> is the
    scanner of \<open>json.loads\<close>, \<open>JsonReading\<close> that it reads canonical bytes back. \<open>ReplayFacts\<close> is a
    Hoare logic over the session with what every step establishes, \<open>ReplayReviewFacts\<close> that no
    evidence is missing from the context, \<open>ReplaySample\<close> a concrete run, \<open>ReplayProps\<close> the properties.
    \<open>orchestration/verification_replay.py\<close> (\<open>VerificationReplay\<close>) joins the ledger, the lifecycles,
    the artifact store and the report; \<open>VerificationReplayFacts\<close> has its lemmas,
    \<open>VerificationReplaySample\<close> a run, its review and its verification recorded in full,
    \<open>VerificationReplayProps\<close> the properties.
  \<^item> Quotas. \<open>interfaces/http/quota.py\<close> is the sliding window of requests and \<open>runtime/quotas.py\<close> the
    admission over the active storage (\<open>Quota\<close>, \<open>QuotaProps\<close>).

  Conventions. A Python string is a list of characters, so code points above 255 are left out
  (replay marks bytes of such a text as beyond the model); an
  exception is a value of an error type without its message, and a function whose only exception
  carries no information is an option. Clocks and fresh identifiers are arguments. The parser of ISO
  timestamps (\<open>datetime.fromisoformat\<close>) and \<open>float\<close> of a text are parameters, and so are the
  reader of artifacts, a function of the digest (a store that changes during a replay is left out),
  and the model adapters. A JSON
  object is an association list in insertion order and its canonical text sorts the keys. Every loop
  is structural recursion or has a termination proof (\<open>order_loop\<close> and \<open>cycle_loop\<close> by the pending
  tasks, \<open>schema_ok\<close> by the schema's size, \<open>tree_loop\<close> by the entries below the stack), except the
  JSON scanner, which has fuel twice the length of the text and two: two nested calls consume a
  character, and \<open>scan_fuel\<close> shows that more fuel changes no answer. The interpreter's recursion
  limit is left out.

  The lemmas. For the ledger: every append keeps the store's invariant and is atomic, retries are
  idempotent, reads are exact, paging misses nothing, rebuilding from a checkpoint is rebuilding from
  the start. For the lifecycles: accepted histories refine an abstract state machine, one lease is
  active at a time, leases are fenced by increasing tokens, dependencies come first, cancellation
  and ends are final, a dispatched provider call is never repeated. For the gateway: routing is
  the best admissible choice, results are within every limit, a tampered call never reaches an
  adapter. For planning: an order exists exactly for acyclic dependencies, writers are ordered, a
  plan never has more authority than its goal, the repair loop ends, payloads read back. For text
  changes: a proposal is applied completely or not at all, only to allowed targets with the content
  it named, and completes when the environment does not fail. For reviews: an admitted review only
  cites evidence of its context, every admitted review is decided within the bounds of a report, and
  the verdict is exactly what its findings, its checks and the completeness of its evidence allow.
  For replay: a verified report rests on stored bytes that parse and are bound to each other, reads
  stay within their budgets, canonical bytes are read back exactly, every excerpt fits its share, and
  on evidence built by replay the verdict is the review's; a recorded verdict replays as verified, and
  one that does is the aggregate of a stored report over what the run's review admitted. For the quotas: the window is exact on an
  ordered clock, and the admission over the storage is closed.

  Not modelled. Files, processes, sockets, git worktrees and signals (\<open>adapters/\<close>, most of
  \<open>bootstrap/\<close>), rendering (\<open>interfaces/presentation/\<close>), telemetry, the error signature of an attempt
  (Unicode case folding and regular-expression substitution), opening and migrating the database.
  Of the worktrees only the values and the inspection are modelled, not the commands Git runs; of
  the contracts not the JSON schemas handed to providers. \<open>orchestration/execution_runtime.py\<close> is
  asynchronous driving of Git, the provider and the acceptance adapter between the modelled steps, and
  \<open>bootstrap/runtime_service.py\<close> and \<open>interfaces/http/\<close> dispatch requests to the modelled operations
  with authentication, sockets and a framework's request types: their own logic is in the order of
  calls to code outside the repository, and they are left out.
\<close>

end
